(* ===== verification/Prelude.thy ===== *)
theory Prelude
  imports Complex_Main "HOL-Library.AList" "HOL-Library.List_Lexorder" "HOL-Library.Char_ord"
begin

text \<open>
  What the components share: the collections their proofs draw on, Python's values and the
  few operations of them the program uses (truthiness, \<open>dict.get\<close>, numbers with the
  non-finite floats, \<open>min\<close> and \<open>max\<close>), errors as the left part of a sum, and the interfaces of
  event reducers (locales \<open>reducer\<close>, \<open>invariant_reducer\<close>, \<open>clocked_reducer\<close>) with the facts about
  runs that hold for every component that provides them.
\<close>

named_theorems py_simps \<open>equations that evaluate the Python value helpers\<close>
named_theorems txn_defs \<open>definitions of the transaction callbacks on a call record\<close>

section \<open>Errors as values\<close>

datatype py_error = AttributeError | TypeError | KeyError | ValueError | HTTPError nat

type_synonym 'a res = "py_error + 'a"

definition ebind :: "'e + 'a \<Rightarrow> ('a \<Rightarrow> 'e + 'b) \<Rightarrow> 'e + 'b" where
  "ebind m f = (case m of Inl e \<Rightarrow> Inl e | Inr x \<Rightarrow> f x)"

lemma ebind_Inl [simp]: "ebind (Inl e) f = Inl e"
  and ebind_Inr [simp]: "ebind (Inr x) f = f x"
  by (simp_all add: ebind_def)

lemma ebind_eq_Inr: "ebind m f = Inr y \<longleftrightarrow> (\<exists>x. m = Inr x \<and> f x = Inr y)"
  by (cases m) simp_all

lemma ebind_InrE:
  assumes "ebind m f = Inr y"
  obtains x where "m = Inr x" and "f x = Inr y"
  using assms by (auto simp: ebind_eq_Inr)

text \<open>The results of a list of computations, or the first error.\<close>

fun collect :: "('e + 'a) list \<Rightarrow> 'e + 'a list" where
  "collect [] = Inr []"
| "collect (r # rs) = ebind r (\<lambda>x. ebind (collect rs) (\<lambda>xs. Inr (x # xs)))"

lemma collect_length: "collect rs = Inr xs \<Longrightarrow> length xs = length rs"
  by (induction rs arbitrary: xs) (auto simp: ebind_eq_Inr)

lemma collect_Inr: "(\<And>r. r \<in> set rs \<Longrightarrow> \<exists>x. r = Inr x) \<Longrightarrow> \<exists>xs. collect rs = Inr xs"
proof (induction rs)
  case (Cons r rs)
  then obtain x xs where "r = Inr x" "collect rs = Inr xs" by (metis list.set_intros)
  then show ?case by simp
qed simp

text \<open>The computation raises nothing but \<open>err\<close>.\<close>

definition raises_only :: "'e \<Rightarrow> 'e + 'a \<Rightarrow> bool" where
  "raises_only err m = (\<forall>e. m = Inl e \<longrightarrow> e = err)"

named_theorems raises_intros \<open>which errors the program's validators raise\<close>

lemma raises_only_simps [simp, raises_intros]: "raises_only err (Inr x)" "raises_only err (Inl err)"
  by (simp_all add: raises_only_def)

lemma raises_only_ebind [raises_intros]:
  "raises_only err m \<Longrightarrow> (\<And>x. raises_only err (f x)) \<Longrightarrow> raises_only err (ebind m f)"
  by (cases m) (simp_all add: raises_only_def)

lemma raises_only_if [raises_intros]:
  "(b \<Longrightarrow> raises_only err m) \<Longrightarrow> (\<not> b \<Longrightarrow> raises_only err n) \<Longrightarrow> raises_only err (if b then m else n)"
  by simp

section \<open>Python values\<close>

text \<open>
  A Python float is a rational or one of the three non-finite values; rounding is not
  modelled. A \<open>dict\<close> nested in a value is its list of entries; a whole record read from a
  store is a map from keys to values.
\<close>

datatype pyfloat = Fin rat | PInf | NInf | NaN

datatype pyval =
    PNone
  | PBool bool
  | PInt int
  | PFloat pyfloat
  | PStr string
  | PList "pyval list"
  | PDict "(string \<times> pyval) list"

type_synonym pydict = "string \<rightharpoonup> pyval"

fun truthy :: "pyval \<Rightarrow> bool" where
  "truthy PNone = False"
| "truthy (PBool b) = b"
| "truthy (PInt i) = (i \<noteq> 0)"
| "truthy (PFloat f) = (f \<noteq> Fin 0)"
| "truthy (PStr s) = (s \<noteq> [])"
| "truthy (PList xs) = (xs \<noteq> [])"
| "truthy (PDict kvs) = (kvs \<noteq> [])"

text \<open>\<open>E(v)\<close> for an enumeration with string values: the member with that value, or a \<open>ValueError\<close>.\<close>

definition enum_of :: "('e \<Rightarrow> string) \<Rightarrow> 'e list \<Rightarrow> pyval \<Rightarrow> 'e res" where
  "enum_of value members v =
     (case List.find (\<lambda>m. v = PStr (value m)) members of None \<Rightarrow> Inl ValueError | Some m \<Rightarrow> Inr m)"

lemma enum_of_value:
  assumes "distinct (map value members)" and "m \<in> set members"
  shows "enum_of value members (PStr (value m)) = Inr m"
proof -
  have "List.find (\<lambda>x. PStr (value m) = PStr (value x)) members = Some m"
    using assms by (induction members) (auto simp: image_iff)
  then show ?thesis by (simp add: enum_of_def)
qed

lemma enum_of_raises [raises_intros]: "raises_only ValueError (enum_of value members v)"
  by (simp add: enum_of_def split: option.splits)

lemma enum_of_InrD: "enum_of value members v = Inr m \<Longrightarrow> m \<in> set members \<and> v = PStr (value m)"
  by (auto simp: enum_of_def find_Some_iff split: option.splits)

text \<open>\<open>d.get(k)\<close> and \<open>d.get(k, default)\<close>.\<close>

definition pget :: "pydict \<Rightarrow> string \<Rightarrow> pyval" where
  "pget d k = (case d k of None \<Rightarrow> PNone | Some v \<Rightarrow> v)"

definition pget_or :: "pydict \<Rightarrow> string \<Rightarrow> pyval \<Rightarrow> pyval" where
  "pget_or d k v0 = (case d k of None \<Rightarrow> v0 | Some v \<Rightarrow> v)"

text \<open>\<open>v.get(k, default)\<close> on a value that need not be a \<open>dict\<close>.\<close>

definition vget_or :: "pyval \<Rightarrow> string \<Rightarrow> pyval \<Rightarrow> pyval res" where
  "vget_or v k v0 =
     (case v of PDict kvs \<Rightarrow> Inr (case map_of kvs k of None \<Rightarrow> v0 | Some x \<Rightarrow> x)
      | _ \<Rightarrow> Inl AttributeError)"

definition vget :: "pyval \<Rightarrow> string \<Rightarrow> pyval res" where
  "vget v k = vget_or v k PNone"

text \<open>\<open>v in {'a', 'b'}\<close> for a set of string constants, and \<open>v == 'a'\<close>.\<close>

definition str_in :: "pyval \<Rightarrow> string list \<Rightarrow> bool" where
  "str_in v ss = (case v of PStr s \<Rightarrow> s \<in> set ss | _ \<Rightarrow> False)"

lemma pget_upd [simp]: "pget (d(k := x)) j = (if j = k then (case x of None \<Rightarrow> PNone | Some v \<Rightarrow> v) else pget d j)"
  by (simp add: pget_def)

lemma pget_or_upd [simp]:
  "pget_or (d(k := x)) j v0 = (if j = k then (case x of None \<Rightarrow> v0 | Some v \<Rightarrow> v) else pget_or d j v0)"
  by (simp add: pget_or_def)

lemma pget_empty [simp]: "pget Map.empty k = PNone"
  by (simp add: pget_def)

lemma pget_or_empty [simp]: "pget_or Map.empty k v0 = v0"
  by (simp add: pget_or_def)

lemma str_in_PStr [simp]: "str_in (PStr s) ss \<longleftrightarrow> s \<in> set ss"
  and str_in_PNone [simp]: "\<not> str_in PNone ss"
  by (simp_all add: str_in_def)

lemma str_inD: "str_in v ss \<Longrightarrow> \<exists>s. v = PStr s \<and> s \<in> set ss"
  by (auto simp: str_in_def split: pyval.splits)

lemma vget_or_PDict [simp]:
  "vget_or (PDict kvs) k v0 = Inr (case map_of kvs k of None \<Rightarrow> v0 | Some x \<Rightarrow> x)"
  by (simp add: vget_or_def)

lemma not_truthy_PNone: "\<not> truthy v \<Longrightarrow> v = PStr s \<Longrightarrow> s = []"
  by simp

subsection \<open>Numbers\<close>

text \<open>
  \<open>isinstance(v, (int, float))\<close> holds for booleans too. \<open>py_number\<close> reads any number (a
  boolean counts 0 or 1); \<open>finite_number\<close> is the test the call record code writes out:
  a number, not a boolean, and \<open>math.isfinite\<close>.
\<close>

fun py_number :: "pyval \<Rightarrow> pyfloat option" where
  "py_number (PBool b) = Some (Fin (if b then 1 else 0))"
| "py_number (PInt i) = Some (Fin (of_int i))"
| "py_number (PFloat f) = Some f"
| "py_number _ = None"

fun finite_of :: "pyfloat \<Rightarrow> rat option" where
  "finite_of (Fin r) = Some r"
| "finite_of _ = None"

fun is_pybool :: "pyval \<Rightarrow> bool" where
  "is_pybool (PBool b) = True"
| "is_pybool _ = False"

definition finite_number :: "pyval \<Rightarrow> rat option" where
  "finite_number v = (if is_pybool v then None else Option.bind (py_number v) finite_of)"

fun fplus :: "pyfloat \<Rightarrow> pyfloat \<Rightarrow> pyfloat" where
  "fplus (Fin a) (Fin b) = Fin (a + b)"
| "fplus NaN y = NaN"
| "fplus x NaN = NaN"
| "fplus PInf NInf = NaN"
| "fplus NInf PInf = NaN"
| "fplus PInf y = PInf"
| "fplus x PInf = PInf"
| "fplus NInf y = NInf"
| "fplus x NInf = NInf"

fun fneg :: "pyfloat \<Rightarrow> pyfloat" where
  "fneg (Fin a) = Fin (- a)"
| "fneg PInf = NInf"
| "fneg NInf = PInf"
| "fneg NaN = NaN"

text \<open>\<open>k * x\<close> for a positive constant \<open>k\<close>.\<close>

fun fscale :: "rat \<Rightarrow> pyfloat \<Rightarrow> pyfloat" where
  "fscale k (Fin a) = Fin (k * a)"
| "fscale k x = x"

fun fless :: "pyfloat \<Rightarrow> pyfloat \<Rightarrow> bool" where
  "fless (Fin a) (Fin b) = (a < b)"
| "fless NaN y = False"
| "fless x NaN = False"
| "fless NInf y = (y \<noteq> NInf)"
| "fless x PInf = (x \<noteq> PInf)"
| "fless x y = False"

definition fleq :: "pyfloat \<Rightarrow> pyfloat \<Rightarrow> bool" where
  "fleq x y = (fless x y \<or> (x = y \<and> x \<noteq> NaN))"

text \<open>
  Python's two-argument \<open>min\<close> and \<open>max\<close> return the first argument unless the second one
  compares strictly better, which matters when one of them is a NaN.
\<close>

definition pymin :: "pyfloat \<Rightarrow> pyfloat \<Rightarrow> pyfloat" where
  "pymin x y = (if fless y x then y else x)"

definition pymax :: "pyfloat \<Rightarrow> pyfloat \<Rightarrow> pyfloat" where
  "pymax x y = (if fless x y then y else x)"

lemma fleq_Fin [simp]: "fleq (Fin a) (Fin b) \<longleftrightarrow> a \<le> b"
  by (auto simp: fleq_def)

text \<open>\<open>max(0, min(100, x))\<close>: whatever \<open>x\<close> is, the result is a finite number in range.\<close>

definition clamp100 :: "pyfloat \<Rightarrow> pyfloat" where
  "clamp100 x = pymax (Fin 0) (pymin (Fin 100) x)"

lemma clamp100_Fin [simp]: "clamp100 (Fin a) = Fin (max 0 (min 100 a))"
  by (auto simp: clamp100_def pymax_def pymin_def max_def min_def)

lemma clamp100_nonfinite [simp]:
  "clamp100 PInf = Fin 100" "clamp100 NInf = Fin 0" "clamp100 NaN = Fin 100"
  by (simp_all add: clamp100_def pymax_def pymin_def)

lemma clamp100_range: "\<exists>r. clamp100 x = Fin r \<and> 0 \<le> r \<and> r \<le> 100"
  by (cases x) (simp_all add: max_def min_def)

lemma finite_number_simps [simp]:
  "finite_number PNone = None" "finite_number (PBool b) = None"
  "finite_number (PInt i) = Some (of_int i)" "finite_number (PFloat (Fin r)) = Some r"
  "finite_number (PStr s) = None" "finite_number (PList xs) = None" "finite_number (PDict kvs) = None"
  by (simp_all add: finite_number_def)

section \<open>Strings\<close>

text \<open>
  A character stands for one code point below 256, so \<open>length\<close> counts code points as Python
  does. \<open>str.strip()\<close> drops the white space of that range from both ends.
\<close>

definition py_space :: "char \<Rightarrow> bool" where
  "py_space c =
     (let n = (of_char c :: nat)
      in 9 \<le> n \<and> n \<le> 13 \<or> 28 \<le> n \<and> n \<le> 32 \<or> n = 133 \<or> n = 160)"

definition py_strip :: "string \<Rightarrow> string" where
  "py_strip s = rev (dropWhile py_space (rev (dropWhile py_space s)))"

lemma py_strip_Nil [simp]: "py_strip [] = []"
  by (simp add: py_strip_def)

lemma dropWhile_idem' [simp]: "dropWhile P (dropWhile P xs) = dropWhile P xs"
  by (induction xs) simp_all

lemma dropWhile_id: "(xs \<noteq> [] \<Longrightarrow> \<not> P (hd xs)) \<Longrightarrow> dropWhile P xs = xs"
  by (cases xs) simp_all

lemma hd_rev_dropWhile_rev:
  assumes "rev (dropWhile P (rev xs)) \<noteq> []"
  shows "hd (rev (dropWhile P (rev xs))) = hd xs"
proof -
  have "xs = rev (dropWhile P (rev xs)) @ rev (takeWhile P (rev xs))"
    by (metis rev_append rev_rev_ident takeWhile_dropWhile_id)
  with assms show ?thesis by (metis hd_append2)
qed

lemma py_strip_idem [simp]: "py_strip (py_strip s) = py_strip s"
proof -
  let ?a = "dropWhile py_space s"
  let ?b = "rev (dropWhile py_space (rev ?a))"
  have "dropWhile py_space ?b = ?b"
  proof (rule dropWhile_id)
    assume b: "?b \<noteq> []"
    then have "?a \<noteq> []" by (metis dropWhile.simps(1) rev.simps(1))
    then have "\<not> py_space (hd ?a)" by (rule hd_dropWhile)
    with hd_rev_dropWhile_rev [OF b] show "\<not> py_space (hd ?b)" by simp
  qed
  then show ?thesis by (simp add: py_strip_def)
qed

lemma length_py_strip: "length (py_strip s) \<le> length s"
proof -
  have "length (dropWhile py_space (rev (dropWhile py_space s))) \<le> length (rev (dropWhile py_space s))"
    by (rule length_dropWhile_le)
  also have "\<dots> \<le> length s" by (simp add: length_dropWhile_le)
  finally show ?thesis by (simp add: py_strip_def)
qed

text \<open>The decimal text of an integer, \<open>startswith\<close>, \<open>in\<close> and \<open>str.join\<close> on texts.\<close>

fun digits_of :: "nat \<Rightarrow> nat \<Rightarrow> string" where
  "digits_of 0 n = []"
| "digits_of (Suc fuel) n =
     (if n < 10 then [char_of (48 + n)] else digits_of fuel (n div 10) @ [char_of (48 + n mod 10)])"

definition int_str :: "int \<Rightarrow> string" where
  "int_str i = (if i < 0 then CHR ''-'' # digits_of (Suc (nat (- i))) (nat (- i)) else digits_of (Suc (nat i)) (nat i))"

definition has_prefix :: "string \<Rightarrow> string \<Rightarrow> bool" where
  "has_prefix p s = (take (length p) s = p)"

fun join :: "string \<Rightarrow> string list \<Rightarrow> string" where
  "join sep [] = []"
| "join sep [x] = x"
| "join sep (x # y # ys) = x @ sep @ join sep (y # ys)"

definition decimal :: "char \<Rightarrow> bool" where
  "decimal c = (let n = (of_char c :: nat) in 48 \<le> n \<and> n \<le> 57)"

text \<open>\<open>str.isdigit\<close> and \<open>str.isalnum\<close> on one character below 256: the superscripts are digits.\<close>

definition py_isdigit :: "char \<Rightarrow> bool" where
  "py_isdigit c = (decimal c \<or> (of_char c :: nat) \<in> {178, 179, 185})"

definition py_isalnum :: "char \<Rightarrow> bool" where
  "py_isalnum c =
     (let n = (of_char c :: nat)
      in py_isdigit c \<or> 65 \<le> n \<and> n \<le> 90 \<or> 97 \<le> n \<and> n \<le> 122 \<or> n \<in> {170, 181, 186, 188, 189, 190} \<or>
         192 \<le> n \<and> n \<noteq> 215 \<and> n \<noteq> 247)"

text \<open>
  \<open>str.casefold\<close> on characters below 256 (the micro sign, whose fold lies outside, is left as it
  is, which no marker can tell).
\<close>

definition casefold_char :: "char \<Rightarrow> string" where
  "casefold_char c =
     (let n = (of_char c :: nat) in
      if 65 \<le> n \<and> n \<le> 90 \<or> 192 \<le> n \<and> n \<le> 222 \<and> n \<noteq> 215 then [char_of (n + 32)]
      else if n = 223 then ''ss'' else [c])"

definition casefold :: "string \<Rightarrow> string" where
  "casefold s = concat (map casefold_char s)"

fun contains :: "string \<Rightarrow> string \<Rightarrow> bool" where
  "contains m [] = (m = [])"
| "contains m (c # cs) = (has_prefix m (c # cs) \<or> contains m cs)"

fun split_on :: "char \<Rightarrow> string \<Rightarrow> string list" where
  "split_on sep [] = [[]]"
| "split_on sep (c # cs) =
     (if c = sep then [] # split_on sep cs
      else case split_on sep cs of [] \<Rightarrow> [[c]] | p # ps \<Rightarrow> (c # p) # ps)"

text \<open>\<open>s.split()\<close>, with the word that is being read in front of the words still to come.\<close>

fun words_after :: "string \<Rightarrow> string \<Rightarrow> string list" where
  "words_after w [] = (if w = [] then [] else [w])"
| "words_after w (c # cs) =
     (if py_space c then (if w = [] then [] else [w]) @ words_after [] cs else words_after (w @ [c]) cs)"

section \<open>Strings in JSON\<close>

definition hex_digit :: "nat \<Rightarrow> char" where
  "hex_digit n = ''0123456789abcdef'' ! n"

text \<open>One character inside a JSON string, as the bytes of its UTF-8 encoding.\<close>

definition json_char :: "char \<Rightarrow> string" where
  "json_char c =
     (let n = (of_char c :: nat) in
      if c = CHR 0x22 then [CHR 0x5C, CHR 0x22] else if c = CHR 0x5C then [CHR 0x5C, CHR 0x5C]
      else if n = 8 then [CHR 0x5C, CHR ''b''] else if n = 9 then [CHR 0x5C, CHR ''t'']
      else if n = 10 then [CHR 0x5C, CHR ''n''] else if n = 12 then [CHR 0x5C, CHR ''f'']
      else if n = 13 then [CHR 0x5C, CHR ''r'']
      else if n < 32 then CHR 0x5C # ''u00'' @ [hex_digit (n div 16), hex_digit (n mod 16)]
      else if n < 128 then [c] else [char_of (192 + n div 64), char_of (128 + n mod 64)])"

definition json_string :: "string \<Rightarrow> string" where
  "json_string s = [CHR 0x22] @ concat (map json_char s) @ [CHR 0x22]"

text \<open>The same with every character other than printable ASCII escaped, the default of \<open>json.dumps\<close>.\<close>

definition ascii_char :: "char \<Rightarrow> string" where
  "ascii_char c = (let n = (of_char c :: nat) in
     if n < 127 then json_char c
     else CHR 0x5C # ''u00'' @ [hex_digit (n div 16), hex_digit (n mod 16)])"

definition ascii_string :: "string \<Rightarrow> string" where
  "ascii_string s = [CHR 0x22] @ concat (map ascii_char s) @ [CHR 0x22]"

section \<open>Event reducers\<close>

text \<open>
  Several components take one event at a time and say whether they accepted it: the voice
  lifecycle's \<open>ingest\<close>, the arbitration of an owner's action on a call record, the call's state
  transitions. The interface: a step that returns the new state and the verdict, and the
  part of the state that a rejected event must leave alone.
\<close>

fun run_steps :: "('s \<Rightarrow> 'e \<Rightarrow> 's \<times> bool) \<Rightarrow> 's \<Rightarrow> 'e list \<Rightarrow> 's" where
  "run_steps f s [] = s"
| "run_steps f s (e # es) = run_steps f (fst (f s e)) es"

lemma run_steps_append: "run_steps f s (xs @ ys) = run_steps f (run_steps f s xs) ys"
  by (induction xs arbitrary: s) simp_all

fun accepted_events :: "('s \<Rightarrow> 'e \<Rightarrow> 's \<times> bool) \<Rightarrow> 's \<Rightarrow> 'e list \<Rightarrow> 'e list" where
  "accepted_events f s [] = []"
| "accepted_events f s (e # es) =
     (if snd (f s e) then e # accepted_events f (fst (f s e)) es
      else accepted_events f (fst (f s e)) es)"

locale reducer =
  fixes step :: "'s \<Rightarrow> 'e \<Rightarrow> 's \<times> bool"
    and core :: "'s \<Rightarrow> 'c"
  assumes reject_frame: "\<not> snd (step s e) \<Longrightarrow> core (fst (step s e)) = core s"
begin

lemma run_rejected_core:
  "accepted_events step s es = [] \<Longrightarrow> core (run_steps step s es) = core s"
proof (induction es arbitrary: s)
  case Nil
  then show ?case by simp
next
  case (Cons e es)
  then have "\<not> snd (step s e)" by (auto split: if_splits)
  with Cons show ?case by (simp add: reject_frame)
qed

end

locale invariant_reducer = reducer +
  fixes inv :: "'s \<Rightarrow> bool"
  assumes inv_step: "inv s \<Longrightarrow> inv (fst (step s e))"
begin

lemma run_inv: "inv s \<Longrightarrow> inv (run_steps step s es)"
  by (induction es arbitrary: s) (simp_all add: inv_step)

end

text \<open>
  A clocked reducer also has a counter, part of the core, that every accepted event pushes
  forward, so the counter bounds the number of accepted events.
\<close>

locale clocked_reducer = reducer +
  fixes clock :: "'s \<Rightarrow> int"
  assumes accept_clock: "snd (step s e) \<Longrightarrow> clock s < clock (fst (step s e))"
    and core_clock: "core s = core t \<Longrightarrow> clock s = clock t"
begin

lemma step_clock_mono: "clock s \<le> clock (fst (step s e))"
proof (cases "snd (step s e)")
  case True
  then show ?thesis using accept_clock by (simp add: less_imp_le)
next
  case False
  then show ?thesis using core_clock [OF reject_frame [OF False]] by simp
qed

lemma run_clock:
  "clock s + int (length (accepted_events step s es)) \<le> clock (run_steps step s es)"
proof (induction es arbitrary: s)
  case Nil
  then show ?case by simp
next
  case (Cons e es)
  have "clock (fst (step s e)) + int (length (accepted_events step (fst (step s e)) es))
      \<le> clock (run_steps step (fst (step s e)) es)"
    by (rule Cons.IH)
  moreover have "snd (step s e) \<Longrightarrow> clock s + 1 \<le> clock (fst (step s e))"
    using accept_clock [of s e] by simp
  moreover have "clock s \<le> clock (fst (step s e))" by (rule step_clock_mono)
  ultimately show ?case by auto
qed

lemma run_clock_mono: "clock s \<le> clock (run_steps step s es)"
  using run_clock [of s es] by linarith

end

text \<open>
  A relation between the accepted events so far and the state, kept by every step, holds at the
  end of every run.
\<close>

locale history_reducer =
  fixes step :: "'s \<Rightarrow> 'e \<Rightarrow> 's \<times> bool"
    and rel :: "'e list \<Rightarrow> 's \<Rightarrow> bool"
  assumes rel_reject: "rel h s \<Longrightarrow> \<not> snd (step s e) \<Longrightarrow> rel h (fst (step s e))"
    and rel_accept: "rel h s \<Longrightarrow> snd (step s e) \<Longrightarrow> rel (h @ [e]) (fst (step s e))"
begin

lemma run_rel: "rel h s \<Longrightarrow> rel (h @ accepted_events step s es) (run_steps step s es)"
proof (induction es arbitrary: h s)
  case Nil
  then show ?case by simp
next
  case (Cons e es)
  show ?case
  proof (cases "snd (step s e)")
    case True
    from Cons.IH [OF rel_accept [OF Cons.prems True]] True show ?thesis by simp
  next
    case False
    from Cons.IH [OF rel_reject [OF Cons.prems False]] False show ?thesis by simp
  qed
qed

lemma run_rel0: "rel [] s \<Longrightarrow> rel (accepted_events step s es) (run_steps step s es)"
  using run_rel [of "[]"] by simp

end

end
