(* ===== verification/Call_State.thy ===== *)
theory Call_State
  imports Prelude
begin

text \<open>
  The call lifecycle: the states and the transition table of app/services/state_machine.py, the
  \<open>ActiveCall\<close> record with its conversion to and from the stored dictionary, and the
  compare-and-swap transition of app/db/cache.py on the record in the realtime database.
  The database is Firebase: a transaction hands the callback the current value of the node and
  commits what it returns (documented behaviour), so a transaction is one atomic step here.
\<close>

section \<open>States and transitions\<close>

datatype call_state =
    PENDING | SCORING | SCREENING | PICKUP_RINGING | CONNECTED | CALLBACK_INITIATED
  | TEXT_REPLIED | VOICEMAIL_RECORDING | IGNORED | CALLER_HANGUP | ERROR_FORWARDED | ENDED

fun state_value :: "call_state \<Rightarrow> string" where
  "state_value PENDING = ''pending''"
| "state_value SCORING = ''scoring''"
| "state_value SCREENING = ''screening''"
| "state_value PICKUP_RINGING = ''pickup_ringing''"
| "state_value CONNECTED = ''connected''"
| "state_value CALLBACK_INITIATED = ''callback_initiated''"
| "state_value TEXT_REPLIED = ''text_replied''"
| "state_value VOICEMAIL_RECORDING = ''voicemail_recording''"
| "state_value IGNORED = ''ignored''"
| "state_value CALLER_HANGUP = ''caller_hangup''"
| "state_value ERROR_FORWARDED = ''error_forwarded''"
| "state_value ENDED = ''ended''"

definition all_states :: "call_state list" where
  "all_states = [PENDING, SCORING, SCREENING, PICKUP_RINGING, CONNECTED, CALLBACK_INITIATED,
     TEXT_REPLIED, VOICEMAIL_RECORDING, IGNORED, CALLER_HANGUP, ERROR_FORWARDED, ENDED]"

text \<open>\<open>CallState(v)\<close>: the member with that value, or a \<open>ValueError\<close>.\<close>

definition call_state_of :: "pyval \<Rightarrow> call_state res" where
  "call_state_of v =
     (case find (\<lambda>s. v = PStr (state_value s)) all_states of
        None \<Rightarrow> Inl ValueError | Some s \<Rightarrow> Inr s)"

fun VALID_TRANSITIONS :: "call_state \<Rightarrow> call_state list" where
  "VALID_TRANSITIONS PENDING = [SCORING, ERROR_FORWARDED]"
| "VALID_TRANSITIONS SCORING = [SCREENING, ERROR_FORWARDED]"
| "VALID_TRANSITIONS SCREENING =
     [PICKUP_RINGING, CALLBACK_INITIATED, TEXT_REPLIED, VOICEMAIL_RECORDING, IGNORED,
      CALLER_HANGUP, ERROR_FORWARDED]"
| "VALID_TRANSITIONS PICKUP_RINGING = [CONNECTED, SCREENING, CALLER_HANGUP, ERROR_FORWARDED]"
| "VALID_TRANSITIONS CONNECTED = [ENDED, CALLER_HANGUP]"
| "VALID_TRANSITIONS CALLBACK_INITIATED = [ENDED]"
| "VALID_TRANSITIONS TEXT_REPLIED = [ENDED, SCREENING]"
| "VALID_TRANSITIONS VOICEMAIL_RECORDING = [ENDED, CALLER_HANGUP]"
| "VALID_TRANSITIONS IGNORED = [ENDED]"
| "VALID_TRANSITIONS CALLER_HANGUP = [ENDED]"
| "VALID_TRANSITIONS ERROR_FORWARDED = [ENDED]"
| "VALID_TRANSITIONS ENDED = []"

definition ACTIVE_STATES :: "call_state list" where
  "ACTIVE_STATES = [PENDING, SCORING, SCREENING, PICKUP_RINGING, CONNECTED, TEXT_REPLIED,
     VOICEMAIL_RECORDING]"

definition can_transition :: "call_state \<Rightarrow> call_state \<Rightarrow> bool" where
  "can_transition from_state to_state = (to_state \<in> set (VALID_TRANSITIONS from_state))"

definition is_active :: "call_state \<Rightarrow> bool" where
  "is_active s = (s \<in> set ACTIVE_STATES)"

section \<open>The active call and its stored form\<close>

record active_call =
  ac_call_sid :: pyval
  ac_caller_phone :: pyval
  ac_state :: call_state
  ac_conference_name :: pyval
  ac_conference_sid :: pyval
  ac_vapi_call_id :: pyval
  ac_trust_score :: pyval
  ac_caller_name :: pyval
  ac_carrier :: pyval
  ac_line_type :: pyval
  ac_spam_score :: pyval
  ac_telegram_message_id :: pyval
  ac_transcript_buffer :: pyval
  ac_contractor_id :: pyval
  ac_ws_token :: pyval
  ac_caller_name_trusted :: bool
  ac_owner_action :: pyval
  ac_owner_action_status :: pyval
  ac_owner_operation_id :: pyval
  ac_urgent :: bool
  ac_urgency_escalated :: bool
  ac_urgent_at :: pyfloat
  ac_accepted :: bool
  ac_state_updated_at :: pyval

text \<open>
  \<open>float(v or 0.0)\<close>. Parsing a numeric string is the library's; it is the parameter
  \<open>parse\<close> of the definitions that need it.
\<close>

definition float_or_zero :: "(string \<Rightarrow> pyfloat option) \<Rightarrow> pyval \<Rightarrow> pyfloat res" where
  "float_or_zero parse v =
     (if \<not> truthy v then Inr (Fin 0)
      else case v of
          PStr s \<Rightarrow> (case parse s of None \<Rightarrow> Inl ValueError | Some f \<Rightarrow> Inr f)
        | _ \<Rightarrow> (case py_number v of None \<Rightarrow> Inl TypeError | Some f \<Rightarrow> Inr f))"

definition active_call_to_dict :: "rat \<Rightarrow> active_call \<Rightarrow> pydict" where
  "active_call_to_dict now c = map_of
     [(''call_sid'', ac_call_sid c), (''caller_phone'', ac_caller_phone c),
      (''state'', PStr (state_value (ac_state c))),
      (''conference_name'', ac_conference_name c), (''conference_sid'', ac_conference_sid c),
      (''vapi_call_id'', ac_vapi_call_id c), (''trust_score'', ac_trust_score c),
      (''caller_name'', ac_caller_name c), (''carrier'', ac_carrier c),
      (''line_type'', ac_line_type c), (''spam_score'', ac_spam_score c),
      (''telegram_message_id'', ac_telegram_message_id c),
      (''transcript_buffer'', ac_transcript_buffer c), (''contractor_id'', ac_contractor_id c),
      (''ws_token'', ac_ws_token c), (''caller_name_trusted'', PBool (ac_caller_name_trusted c)),
      (''owner_action'', ac_owner_action c), (''owner_action_status'', ac_owner_action_status c),
      (''owner_operation_id'', ac_owner_operation_id c), (''urgent'', PBool (ac_urgent c)),
      (''urgency_escalated'', PBool (ac_urgency_escalated c)),
      (''urgent_at'', PFloat (ac_urgent_at c)), (''accepted'', PBool (ac_accepted c)),
      (''state_updated_at'', PFloat (Fin now))]"

definition active_call_from_dict ::
    "(string \<Rightarrow> pyfloat option) \<Rightarrow> rat \<Rightarrow> pydict \<Rightarrow> active_call res" where
  "active_call_from_dict parse now d =
     ebind (call_state_of (pget_or d ''state'' (PStr ''pending''))) (\<lambda>st.
     ebind (float_or_zero parse (pget_or d ''urgent_at'' (PFloat (Fin 0)))) (\<lambda>ua.
       Inr \<lparr>ac_call_sid = pget_or d ''call_sid'' (PStr []),
            ac_caller_phone = pget_or d ''caller_phone'' (PStr []),
            ac_state = st,
            ac_conference_name = pget_or d ''conference_name'' (PStr []),
            ac_conference_sid = pget_or d ''conference_sid'' (PStr []),
            ac_vapi_call_id = pget_or d ''vapi_call_id'' (PStr []),
            ac_trust_score = pget_or d ''trust_score'' (PInt 50),
            ac_caller_name = pget_or d ''caller_name'' (PStr []),
            ac_carrier = pget_or d ''carrier'' (PStr []),
            ac_line_type = pget_or d ''line_type'' (PStr []),
            ac_spam_score = pget_or d ''spam_score'' (PInt 0),
            ac_telegram_message_id = pget_or d ''telegram_message_id'' (PInt 0),
            ac_transcript_buffer = pget_or d ''transcript_buffer'' (PStr []),
            ac_contractor_id = pget_or d ''contractor_id'' (PStr []),
            ac_ws_token = pget_or d ''ws_token'' (PStr []),
            ac_caller_name_trusted = (pget_or d ''caller_name_trusted'' (PBool False) = PBool True),
            ac_owner_action = pget_or d ''owner_action'' (PStr []),
            ac_owner_action_status = pget_or d ''owner_action_status'' (PStr []),
            ac_owner_operation_id = pget_or d ''owner_operation_id'' (PStr []),
            ac_urgent = (pget_or d ''urgent'' (PBool False) = PBool True),
            ac_urgency_escalated = (pget_or d ''urgency_escalated'' (PBool False) = PBool True),
            ac_urgent_at = ua,
            ac_accepted = (pget_or d ''accepted'' (PBool False) = PBool True),
            ac_state_updated_at = pget_or d ''state_updated_at'' (PFloat (Fin now))\<rparr>))"

section \<open>The transition in the database\<close>

text \<open>
  A node is a record or absent. \<open>run_rtdb_transaction\<close> gives the committed node, or the
  \<open>ValueError\<close> it raises when a callback returns nothing for a record that exists.
\<close>

type_synonym node = "pydict option"

definition run_rtdb_transaction :: "(node \<Rightarrow> node) \<Rightarrow> node \<Rightarrow> node res" where
  "run_rtdb_transaction update current =
     (case update current of
        Some new \<Rightarrow> Inr (Some new)
      | None \<Rightarrow> (case current of None \<Rightarrow> Inr None | Some _ \<Rightarrow> Inl ValueError))"

text \<open>
  The callback \<open>_transaction\<close> of \<open>transition_state\<close>, with the closure's \<open>result[0]\<close> as
  the second component; an unknown stored state raises.
\<close>

definition transition_txn :: "rat \<Rightarrow> call_state \<Rightarrow> node \<Rightarrow> (node \<times> node) res" where
  "transition_txn now to_state current =
     (case current of
        None \<Rightarrow> Inr (None, None)
      | Some d \<Rightarrow>
          ebind (call_state_of (pget_or d ''state'' (PStr ''pending''))) (\<lambda>current_state.
            if \<not> can_transition current_state to_state then Inr (current, None)
            else let d' = d(''state'' \<mapsto> PStr (state_value to_state),
                            ''state_updated_at'' \<mapsto> PFloat (Fin now))
                 in Inr (Some d', Some d')))"

text \<open>
  \<open>transition_state\<close>: the node afterwards and the call it returns. Every exception is
  caught and becomes \<open>None\<close>; the node then stays as it was.
\<close>

definition transition_state ::
    "(string \<Rightarrow> pyfloat option) \<Rightarrow> rat \<Rightarrow> call_state \<Rightarrow> node \<Rightarrow> node \<times> active_call option" where
  "transition_state parse now to_state current =
     (case transition_txn now to_state current of
        Inl e \<Rightarrow> (current, None)
      | Inr (new, result) \<Rightarrow>
          (case run_rtdb_transaction (\<lambda>_. new) current of
             Inl e \<Rightarrow> (current, None)
           | Inr committed \<Rightarrow>
               (committed,
                case result of
                  None \<Rightarrow> None
                | Some d \<Rightarrow>
                    (if pget d ''state'' = PStr (state_value to_state)
                     then (case active_call_from_dict parse now d of
                             Inl e \<Rightarrow> None | Inr c \<Rightarrow> Some c)
                     else None))))"

text \<open>One accepted or refused transition request on an existing record.\<close>

definition transition_step :: "pydict \<Rightarrow> rat \<times> call_state \<Rightarrow> pydict \<times> bool" where
  "transition_step d req =
     (case transition_txn (fst req) (snd req) (Some d) of
        Inr (Some d', Some _) \<Rightarrow> (d', True)
      | _ \<Rightarrow> (d, False))"

section \<open>Lemmas\<close>

lemma state_value_inject [simp]: "state_value s = state_value t \<longleftrightarrow> s = t"
  by (cases s; cases t) simp_all

lemma call_state_of_value [simp]: "call_state_of (PStr (state_value s)) = Inr s"
  by (cases s) (simp_all add: call_state_of_def all_states_def)

lemma call_state_ofD: "call_state_of v = Inr s \<Longrightarrow> v = PStr (state_value s)"
  by (auto simp: call_state_of_def find_Some_iff split: option.splits)

lemma is_active_simps [simp]:
  "is_active PENDING" "is_active SCORING" "is_active SCREENING" "is_active PICKUP_RINGING"
  "is_active CONNECTED" "is_active TEXT_REPLIED" "is_active VOICEMAIL_RECORDING"
  "\<not> is_active CALLBACK_INITIATED" "\<not> is_active IGNORED" "\<not> is_active CALLER_HANGUP"
  "\<not> is_active ERROR_FORWARDED" "\<not> is_active ENDED"
  by (simp_all add: is_active_def ACTIVE_STATES_def)

lemma inactive_goes_to_ended: "\<not> is_active s \<Longrightarrow> can_transition s t \<Longrightarrow> t = ENDED"
  by (cases s) (simp_all add: can_transition_def)

lemma active_only_from_active: "can_transition s t \<Longrightarrow> is_active t \<Longrightarrow> is_active s"
  using inactive_goes_to_ended by fastforce

lemma ended_is_final: "\<not> can_transition ENDED t"
  by (simp add: can_transition_def)

text \<open>The stored state of a record, read as the code reads it.\<close>

definition stored_state :: "pydict \<Rightarrow> call_state option" where
  "stored_state d =
     (case call_state_of (pget_or d ''state'' (PStr ''pending'')) of Inl e \<Rightarrow> None | Inr s \<Rightarrow> Some s)"

lemma stored_state_upd [simp]: "stored_state (d(''state'' \<mapsto> PStr (state_value s))) = Some s"
  by (simp add: stored_state_def)

lemma stored_state_other [simp]: "k \<noteq> ''state'' \<Longrightarrow> stored_state (d(k := x)) = stored_state d"
  by (simp add: stored_state_def)

lemma transition_step_cases:
  "transition_step d (now, t) =
     (case stored_state d of
        Some s \<Rightarrow>
          if can_transition s t
          then (d(''state'' \<mapsto> PStr (state_value t), ''state_updated_at'' \<mapsto> PFloat (Fin now)), True)
          else (d, False)
      | None \<Rightarrow> (d, False))"
  by (cases "call_state_of (pget_or d ''state'' (PStr ''pending''))")
     (simp_all add: transition_step_def transition_txn_def stored_state_def Let_def)

interpretation call_fsm: reducer transition_step "\<lambda>d. d"
  by unfold_locales
     (auto simp: transition_step_cases split: option.splits if_splits)

text \<open>A call that is no longer active: its stored state parses and is outside the active ones.\<close>

definition call_over :: "pydict \<Rightarrow> bool" where
  "call_over d = (\<exists>s. stored_state d = Some s \<and> \<not> is_active s)"

interpretation call_over_inv: invariant_reducer transition_step "\<lambda>d. d" call_over
proof
  fix d :: pydict and e :: "rat \<times> call_state"
  assume "call_over d"
  then show "call_over (fst (transition_step d e))"
    by (cases e)
       (auto simp: call_over_def transition_step_cases dest: active_only_from_active)
qed

text \<open>
  C30: once a call's record has left the active states, no sequence of transition requests,
  valid or not, makes it active again.
\<close>

theorem inactive_call_never_reactivated:
  assumes "stored_state d = Some s" and "\<not> is_active s"
  shows "\<exists>s'. stored_state (run_steps transition_step d reqs) = Some s' \<and> \<not> is_active s'"
proof -
  have "call_over d" using assms by (auto simp: call_over_def)
  then have "call_over (run_steps transition_step d reqs)" by (rule call_over_inv.run_inv)
  then show ?thesis by (simp add: call_over_def)
qed

theorem inactive_call_never_reactivated_witness:
  "\<exists>s'. stored_state (run_steps transition_step [''state'' \<mapsto> PStr ''caller_hangup'']
      [(5, SCREENING), (6, ENDED), (7, CONNECTED)]) = Some s' \<and> \<not> is_active s'"
  by (rule inactive_call_never_reactivated [where s = CALLER_HANGUP])
     (simp_all add: stored_state_def call_state_of_def all_states_def pget_or_def)

lemma float_or_zero_float [simp]: "float_or_zero parse (PFloat f) = Inr f"
  by (cases f) (simp_all add: float_or_zero_def)

lemma from_dict_state:
  assumes "stored_state d = Some s" and "pget_or d ''urgent_at'' (PFloat (Fin 0)) = PFloat ua"
  shows "\<exists>c. active_call_from_dict parse now d = Inr c \<and> ac_state c = s \<and>
           ac_contractor_id c = pget_or d ''contractor_id'' (PStr [])"
proof -
  from assms(1) have "call_state_of (pget_or d ''state'' (PStr ''pending'')) = Inr s"
    by (simp add: stored_state_def split: sum.splits)
  with assms(2) show ?thesis by (simp add: active_call_from_dict_def)
qed

text \<open>
  on a record whose stored state is known and whose \<open>urgent_at\<close> is a float, a transition
  request succeeds exactly when the table allows the move: the committed record then has the new
  state and time stamp and no other change, and the call that is returned is in the new state
  with the same owner. A refused request commits nothing and returns nothing.
\<close>

theorem transition_state_correct:
  assumes "stored_state d = Some s" and "pget_or d ''urgent_at'' (PFloat (Fin 0)) = PFloat ua"
  shows "if can_transition s t
         then \<exists>c. transition_state parse now t (Some d) =
                    (Some (d(''state'' \<mapsto> PStr (state_value t),
                             ''state_updated_at'' \<mapsto> PFloat (Fin now))), Some c) \<and>
                  ac_state c = t \<and> ac_contractor_id c = pget_or d ''contractor_id'' (PStr [])
         else transition_state parse now t (Some d) = (Some d, None)"
proof -
  let ?d' = "d(''state'' \<mapsto> PStr (state_value t), ''state_updated_at'' \<mapsto> PFloat (Fin now))"
  have s: "call_state_of (pget_or d ''state'' (PStr ''pending'')) = Inr s"
    using assms(1) by (simp add: stored_state_def split: sum.splits)
  have "\<exists>c. active_call_from_dict parse now ?d' = Inr c \<and> ac_state c = t \<and>
          ac_contractor_id c = pget_or ?d' ''contractor_id'' (PStr [])"
    by (rule from_dict_state) (use assms(2) in simp_all)
  with s show ?thesis
    by (auto simp: transition_state_def transition_txn_def Let_def run_rtdb_transaction_def)
qed

theorem transition_state_correct_witness:
  "\<exists>c. transition_state (\<lambda>_. None) 7 PICKUP_RINGING (Some [''state'' \<mapsto> PStr ''screening'']) =
     (Some ([''state'' \<mapsto> PStr ''screening''](''state'' \<mapsto> PStr (state_value PICKUP_RINGING),
        ''state_updated_at'' \<mapsto> PFloat (Fin 7))), Some c) \<and>
     ac_state c = PICKUP_RINGING \<and>
     ac_contractor_id c = pget_or [''state'' \<mapsto> PStr ''screening''] ''contractor_id'' (PStr [])"
  using transition_state_correct [where d = "[''state'' \<mapsto> PStr ''screening'']" and s = SCREENING
      and ua = "Fin 0" and t = PICKUP_RINGING and parse = "\<lambda>_. None" and now = 7]
  by (simp add: can_transition_def stored_state_def call_state_of_def all_states_def pget_or_def)

text \<open>
  what is saved is what is read back: restoring a saved call gives the same call, except
  that \<open>state_updated_at\<close> is the time of the save and not the call's own stamp.
\<close>

theorem active_call_roundtrip:
  "active_call_from_dict parse now' (active_call_to_dict now c) =
     Inr (c\<lparr>ac_state_updated_at := PFloat (Fin now)\<rparr>)"
  by (cases c) (simp add: active_call_from_dict_def active_call_to_dict_def pget_or_def)

end
