(* ===== verification/Trust_Routing.thy ===== *)
theory Trust_Routing
  imports Prelude
begin

text \<open>
  How a call is scored and routed: app/services/scoring.py, routing.py, adaptive_trust.py,
  circuit_breaker.py, the quiet-hours override of quiet_hours.py and the routing part of the
  incoming-call webhook in app/webhooks/twilio_incoming.py.
\<close>

section \<open>The trust score\<close>

type_synonym breakdown = "(string \<times> pyfloat) list"

text \<open>
  \<open>x > k\<close> for a stored value and a constant: a \<open>TypeError\<close> unless the value is a number.
\<close>

definition val_number :: "pyval \<Rightarrow> pyfloat res" where
  "val_number v = (case py_number v of None \<Rightarrow> Inl TypeError | Some f \<Rightarrow> Inr f)"

text \<open>
  The contact's part: either the final answer (white- or blacklisted) or the score so far.
\<close>

definition contact_signals :: "pyval \<Rightarrow> ((pyfloat \<times> breakdown) + (pyfloat \<times> breakdown)) res" where
  "contact_signals contact =
     (if \<not> truthy contact then Inr (Inr (Fin 50, []))
      else ebind (vget contact ''is_whitelisted'') (\<lambda>wl.
        if truthy wl then Inr (Inl (Fin 100, [(''whitelist'', Fin 100)]))
        else ebind (vget contact ''is_blacklisted'') (\<lambda>bl.
          if truthy bl then Inr (Inl (Fin 0, [(''blacklist'', Fin 0)]))
          else ebind (vget contact ''trust_level'') (\<lambda>trust.
            if trust = PNone then Inr (Inr (Fin 50, []))
            else ebind (val_number trust) (\<lambda>t.
              Inr (Inr (t, [(''contact_trust'', fplus t (Fin (-50)))])))))))"

definition history_signals :: "pyval \<Rightarrow> pyfloat \<times> breakdown \<Rightarrow> (pyfloat \<times> breakdown) res" where
  "history_signals history sb =
     (if \<not> truthy history then Inr sb
      else ebind (vget_or history ''times_picked_up'' (PInt 0)) (\<lambda>pv.
           ebind (vget_or history ''times_ignored'' (PInt 0)) (\<lambda>iv.
           ebind (val_number pv) (\<lambda>picked_up.
           let sb1 = (if fless (Fin 2) picked_up
                      then (let delta = pymin (Fin 30) (fscale 10 picked_up)
                            in (fplus (fst sb) delta, snd sb @ [(''history_picked_up'', delta)]))
                      else sb)
           in ebind (val_number iv) (\<lambda>ignored.
              Inr (if fless (Fin 3) ignored
                   then (let delta = pymin (Fin 20) (fscale 5 ignored)
                         in (fplus (fst sb1) (fneg delta), snd sb1 @ [(''history_ignored'', fneg delta)]))
                   else sb1))))))"

definition spam_signals :: "pyval \<Rightarrow> pyfloat \<times> breakdown \<Rightarrow> (pyfloat \<times> breakdown) res" where
  "spam_signals nomorobo sb =
     ebind (vget_or nomorobo ''spam_score'' (PInt 0)) (\<lambda>spam.
       if \<not> truthy spam then Inr sb
       else ebind (val_number spam) (\<lambda>x.
         Inr (if fless (Fin (7 / 10)) x
              then (fplus (fst sb) (Fin (-40)), snd sb @ [(''nomorobo_spam'', Fin (-40))])
              else if fless (Fin (3 / 10)) x
              then (fplus (fst sb) (Fin (-15)), snd sb @ [(''nomorobo_suspicious'', Fin (-15))])
              else sb)))"

definition line_signals :: "pyval \<Rightarrow> pyfloat \<times> breakdown \<Rightarrow> (pyfloat \<times> breakdown) res" where
  "line_signals twilio sb =
     ebind (vget_or twilio ''line_type'' (PStr [])) (\<lambda>line_type.
     let sb1 = (if line_type = PStr ''voip''
                then (fplus (fst sb) (Fin (-10)), snd sb @ [(''line_type_voip'', Fin (-10))])
                else if line_type = PStr ''landline''
                then (fplus (fst sb) (Fin 5), snd sb @ [(''line_type_landline'', Fin 5)])
                else sb)
     in ebind (vget twilio ''carrier'') (\<lambda>carrier.
        Inr (if truthy carrier
             then (fplus (fst sb1) (Fin 5), snd sb1 @ [(''has_carrier'', Fin 5)])
             else sb1)))"

definition calculate_trust_score :: "pydict \<Rightarrow> (pyfloat \<times> breakdown) res" where
  "calculate_trust_score lookups =
     ebind (contact_signals (pget lookups ''contact'')) (\<lambda>r.
       case r of
         Inl final \<Rightarrow> Inr final
       | Inr sb0 \<Rightarrow>
           ebind (history_signals (pget_or lookups ''history'' (PDict [])) sb0) (\<lambda>sb1.
           ebind (spam_signals (pget_or lookups ''nomorobo'' (PDict [])) sb1) (\<lambda>sb2.
           ebind (line_signals (pget_or lookups ''twilio'' (PDict [])) sb2) (\<lambda>sb3.
             let final_score = clamp100 (fst sb3)
             in Inr (final_score, snd sb3 @ [(''final'', final_score)])))))"

section \<open>Routes\<close>

datatype route = WHITELIST_FORWARD | RING_THEN_SCREEN | AI_SCREENING | SPAM_BLOCK

definition determine_route :: "pyfloat \<Rightarrow> route" where
  "determine_route trust_score =
     (if fleq (Fin 90) trust_score then WHITELIST_FORWARD
      else if fleq (Fin 70) trust_score then RING_THEN_SCREEN
      else if fleq (Fin 30) trust_score then AI_SCREENING
      else SPAM_BLOCK)"

text \<open>Routes ordered by how far they let the caller through to the owner.\<close>

fun route_rank :: "route \<Rightarrow> nat" where
  "route_rank SPAM_BLOCK = 0"
| "route_rank AI_SCREENING = 1"
| "route_rank RING_THEN_SCREEN = 2"
| "route_rank WHITELIST_FORWARD = 3"

instantiation route :: linorder
begin

definition less_eq_route :: "route \<Rightarrow> route \<Rightarrow> bool" where
  "less_eq_route r s = (route_rank r \<le> route_rank s)"

definition less_route :: "route \<Rightarrow> route \<Rightarrow> bool" where
  "less_route r s = (route_rank r < route_rank s)"

instance
proof
  fix r s t :: route
  show "r < s \<longleftrightarrow> r \<le> s \<and> \<not> s \<le> r" by (auto simp: less_eq_route_def less_route_def)
  show "r \<le> r" by (simp add: less_eq_route_def)
  show "r \<le> s \<Longrightarrow> s \<le> t \<Longrightarrow> r \<le> t" by (simp add: less_eq_route_def)
  show "r \<le> s \<Longrightarrow> s \<le> r \<Longrightarrow> r = s" by (cases r; cases s) (simp_all add: less_eq_route_def)
  show "r \<le> s \<or> s \<le> r" by (auto simp: less_eq_route_def)
qed

end

definition ring_routes :: "route list" where
  "ring_routes = [WHITELIST_FORWARD, RING_THEN_SCREEN]"

section \<open>Quiet hours\<close>

text \<open>
  Clock times are seconds since midnight. \<open>fromiso\<close> stands for \<open>time.fromisoformat\<close> (\<open>None\<close>
  when it raises or yields a time that cannot be compared with a naive one) and \<open>wall\<close> for the
  current wall clock in a named zone (\<open>None\<close> when the zone is unknown).
\<close>

definition configured_clock :: "pyval \<Rightarrow> string \<Rightarrow> string" where
  "configured_clock v fallback =
     (case v of PStr s \<Rightarrow> (if py_strip s \<noteq> [] then py_strip s else fallback) | _ \<Rightarrow> fallback)"

record quiet_args =
  qa_enabled :: bool
  qa_start :: string
  qa_end :: string
  qa_timezone :: string

definition quiet_hours_routing_args :: "pydict \<Rightarrow> quiet_args" where
  "quiet_hours_routing_args stored =
     \<lparr>qa_enabled = (pget stored ''quiet_hours_enabled'' = PBool True),
      qa_start = configured_clock (pget stored ''quiet_hours_start'') ''22:00'',
      qa_end = configured_clock (pget stored ''quiet_hours_end'') ''07:00'',
      qa_timezone = configured_clock (pget stored ''quiet_hours_tz'') ''America/Los_Angeles''\<rparr>"

definition is_quiet_hours ::
    "(string \<Rightarrow> rat option) \<Rightarrow> (string \<Rightarrow> rat option) \<Rightarrow> string \<Rightarrow> string \<Rightarrow> string \<Rightarrow> bool" where
  "is_quiet_hours fromiso wall quiet_start quiet_end timezone =
     (let start = (if quiet_start = [] then Some 79200 else fromiso quiet_start);
          finish = (if quiet_end = [] then Some 25200 else fromiso quiet_end)
      in case (start, finish, wall timezone) of
           (Some s, Some e, Some current) \<Rightarrow>
             (if s > e then current \<ge> s \<or> current \<le> e else s \<le> current \<and> current \<le> e)
         | _ \<Rightarrow> False)"

definition get_quiet_hours_routing_override ::
    "(string \<Rightarrow> rat option) \<Rightarrow> (string \<Rightarrow> rat option) \<Rightarrow> pyfloat \<Rightarrow> quiet_args \<Rightarrow> string option" where
  "get_quiet_hours_routing_override fromiso wall trust_score qa =
     (if \<not> qa_enabled qa then None
      else let zone = (if py_strip (qa_timezone qa) \<noteq> [] then py_strip (qa_timezone qa)
                       else ''America/Los_Angeles'')
           in if \<not> is_quiet_hours fromiso wall (qa_start qa) (qa_end qa) zone then None
              else if fleq (Fin 100) trust_score then None
              else Some ''ai_screening'')"

section \<open>Routing an incoming call\<close>

text \<open>
  The routing part of \<open>handle_incoming_call\<close>: the two call-history counts, the score without
  the slow lookups, and the two restrictions that may lower the route. \<open>contact\<close> is what the
  contact lookup gave (\<open>None\<close> when it failed), \<open>outcomes\<close> the \<open>outcome\<close> of each call found.
\<close>

definition count_outcome :: "string \<Rightarrow> pyval list \<Rightarrow> int" where
  "count_outcome what outcomes = int (length (filter (\<lambda>c. c = PStr what) outcomes))"

definition incoming_lookups :: "pyval \<Rightarrow> pyval list \<Rightarrow> pydict" where
  "incoming_lookups contact outcomes =
     [''contact'' \<mapsto> contact,
      ''history'' \<mapsto> (if outcomes = [] then PDict []
                       else PDict [(''times_picked_up'', PInt (count_outcome ''picked_up'' outcomes)),
                                   (''times_ignored'', PInt (count_outcome ''ignored'' outcomes))]),
      ''twilio'' \<mapsto> PDict [],
      ''nomorobo'' \<mapsto> PDict []]"

definition restrict_route :: "bool \<Rightarrow> bool \<Rightarrow> route \<Rightarrow> route" where
  "restrict_route ring_through override r0 =
     (let r1 = (if \<not> ring_through \<and> r0 \<in> set ring_routes then AI_SCREENING else r0)
      in if override \<and> r1 \<noteq> SPAM_BLOCK then AI_SCREENING else r1)"

definition route_incoming_call ::
    "(string \<Rightarrow> rat option) \<Rightarrow> (string \<Rightarrow> rat option) \<Rightarrow> pydict \<Rightarrow> pydict \<Rightarrow> pyval \<Rightarrow> pyval list \<Rightarrow>
     (pyfloat \<times> route) res" where
  "route_incoming_call fromiso wall contractor preferences contact outcomes =
     ebind (calculate_trust_score (incoming_lookups contact outcomes)) (\<lambda>(trust_score, _).
       Inr (trust_score,
            restrict_route (truthy (pget_or contractor ''ring_through_contacts'' (PBool True)))
              (get_quiet_hours_routing_override fromiso wall trust_score
                 (quiet_hours_routing_args preferences) \<noteq> None)
              (determine_route trust_score)))"

section \<open>Adaptive trust\<close>

text \<open>
  The contacts of every contractor, keyed by contractor and document id; \<open>h\<close> is the phone
  hash that names the document. \<open>readable\<close> says whether the lookup's read succeeds: when it
  raises, \<open>get_contact\<close> logs the error and answers \<open>None\<close>.
\<close>

type_synonym contact_doc = "(string \<times> pyval) list"

type_synonym contacts_db = "string \<times> string \<rightharpoonup> contact_doc"

definition doc_get_or :: "contact_doc \<Rightarrow> string \<Rightarrow> pyval \<Rightarrow> pyval" where
  "doc_get_or doc k v0 = (case map_of doc k of None \<Rightarrow> v0 | Some v \<Rightarrow> v)"

definition OUTCOME_DELTAS :: "string \<rightharpoonup> int" where
  "OUTCOME_DELTAS = map_of
     [(''picked_up'', 5), (''callback'', 3), (''texted'', 1), (''text_replied'', 1),
      (''voicemail'', 0), (''ignored'', -3), (''blocked'', -5)]"

definition outcome_delta :: "string \<Rightarrow> int" where
  "outcome_delta outcome = (case OUTCOME_DELTAS outcome of None \<Rightarrow> 0 | Some d \<Rightarrow> d)"

definition get_contact ::
    "(string \<Rightarrow> string) \<Rightarrow> bool \<Rightarrow> contacts_db \<Rightarrow> string \<Rightarrow> string \<Rightarrow> contact_doc option" where
  "get_contact h readable db phone contractor_id =
     (if contractor_id = [] \<or> phone = [] \<or> \<not> readable then None else db (contractor_id, h phone))"

definition upsert_contact ::
    "(string \<Rightarrow> string) \<Rightarrow> contacts_db \<Rightarrow> string \<Rightarrow> contact_doc \<Rightarrow> string \<Rightarrow> contacts_db" where
  "upsert_contact h db phone data contractor_id =
     (if contractor_id = [] \<or> phone = [] then db
      else db((contractor_id, h phone) \<mapsto>
             AList.merge (case db (contractor_id, h phone) of None \<Rightarrow> [] | Some old \<Rightarrow> old)
               (AList.update ''phone'' (PStr phone) data)))"

text \<open>\<open>max(0, min(100, v + delta))\<close>, which stays an \<open>int\<close> for an \<open>int\<close>.\<close>

fun clamped_add :: "pyval \<Rightarrow> int \<Rightarrow> pyval res" where
  "clamped_add (PInt i) d = Inr (PInt (max 0 (min 100 (i + d))))"
| "clamped_add (PBool b) d = Inr (PInt (max 0 (min 100 ((if b then 1 else 0) + d))))"
| "clamped_add (PFloat f) d =
     (let s = fplus f (Fin (of_int d))
      in Inr (if fless s (Fin 100) then (if fless (Fin 0) s then PFloat s else PInt 0) else PInt 100))"
| "clamped_add v d = Inl TypeError"

fun plus_one :: "pyval \<Rightarrow> pyval res" where
  "plus_one (PInt i) = Inr (PInt (i + 1))"
| "plus_one (PBool b) = Inr (PInt ((if b then 1 else 0) + 1))"
| "plus_one (PFloat f) = Inr (PFloat (fplus f (Fin 1)))"
| "plus_one v = Inl TypeError"

definition adjust_trust_after_call ::
    "(string \<Rightarrow> string) \<Rightarrow> bool \<Rightarrow> contacts_db \<Rightarrow> string \<Rightarrow> string \<Rightarrow> string \<Rightarrow> contacts_db res" where
  "adjust_trust_after_call h readable db caller_phone outcome contractor_id =
     (if py_strip contractor_id = [] then Inl ValueError
      else let delta = outcome_delta outcome;
               contact = (case get_contact h readable db caller_phone contractor_id of
                            None \<Rightarrow> [] | Some c \<Rightarrow> c)
        in if delta = 0 then Inr db
           else if contact \<noteq> [] then
             ebind (clamped_add (doc_get_or contact ''trust_level'' (PInt 50)) delta) (\<lambda>new_trust.
               if outcome = ''picked_up'' \<or> outcome = ''ignored'' then
                 ebind (plus_one (doc_get_or contact (''times_'' @ outcome) (PInt 0))) (\<lambda>n.
                   Inr (upsert_contact h db caller_phone
                          [(''trust_level'', new_trust), (''times_'' @ outcome, n)] contractor_id))
               else Inr (upsert_contact h db caller_phone [(''trust_level'', new_trust)] contractor_id))
           else Inr (upsert_contact h db caller_phone
                  [(''trust_level'', PInt (max 0 (min 100 (50 + delta)))), (''name'', PStr [])]
                  contractor_id))"

section \<open>The circuit breaker\<close>

record breaker =
  cb_errors :: "rat list"
  cb_open_until :: rat

definition init_breaker :: breaker where
  "init_breaker = \<lparr>cb_errors = [], cb_open_until = 0\<rparr>"

fun cleanup_old_errors :: "rat \<Rightarrow> rat list \<Rightarrow> rat list" where
  "cleanup_old_errors cutoff [] = []"
| "cleanup_old_errors cutoff (t # ts) =
     (if t < cutoff then cleanup_old_errors cutoff ts else t # ts)"

definition record_error :: "rat \<Rightarrow> breaker \<Rightarrow> breaker" where
  "record_error now b =
     (let errors = cleanup_old_errors (now - 60) (cb_errors b @ [now])
      in b\<lparr>cb_errors := errors,
           cb_open_until := (if length errors \<ge> 5 then now + 120 else cb_open_until b)\<rparr>)"

definition is_circuit_open :: "rat \<Rightarrow> breaker \<Rightarrow> bool" where
  "is_circuit_open now b = (now < cb_open_until b)"


section \<open>Lemmas on the score\<close>

text \<open>
  The score a breakdown accounts for: the baseline plus every recorded signal.
\<close>

definition explained :: "pyfloat \<times> breakdown \<Rightarrow> bool" where
  "explained sb = (fst sb = foldl fplus (Fin 50) (map snd (snd sb)))"

lemma fplus_delta [simp]: "fplus (Fin 50) (fplus t (Fin (-50))) = t"
  by (cases t) simp_all

lemma explained_append [simp]:
  "explained (s, bd) \<Longrightarrow> explained (fplus s d, bd @ [(k, d)])"
  by (simp add: explained_def)

lemma explained_append2 [simp]:
  "explained (s, bd) \<Longrightarrow> explained (fplus (fplus s d) e, bd @ [(k, d), (j, e)])"
  by (simp add: explained_def)

lemma contact_signals_explained:
  "contact_signals contact = Inr (Inr sb) \<Longrightarrow> explained sb"
  by (auto simp: contact_signals_def explained_def ebind_eq_Inr split: if_splits)

lemma contact_signals_final:
  "contact_signals contact = Inr (Inl fb) \<Longrightarrow>
     fb = (Fin 100, [(''whitelist'', Fin 100)]) \<or> fb = (Fin 0, [(''blacklist'', Fin 0)])"
  by (auto simp: contact_signals_def ebind_eq_Inr split: if_splits)

lemma history_signals_explained:
  "explained sb \<Longrightarrow> history_signals h sb = Inr sb' \<Longrightarrow> explained sb'"
  by (cases sb) (auto simp: history_signals_def ebind_eq_Inr Let_def split: if_splits)

lemma spam_signals_explained:
  "explained sb \<Longrightarrow> spam_signals v sb = Inr sb' \<Longrightarrow> explained sb'"
  by (cases sb) (auto simp: spam_signals_def ebind_eq_Inr split: if_splits)

lemma line_signals_explained:
  "explained sb \<Longrightarrow> line_signals v sb = Inr sb' \<Longrightarrow> explained sb'"
  by (cases sb) (auto simp: line_signals_def ebind_eq_Inr Let_def split: if_splits)

lemmas signals_explained =
  contact_signals_explained history_signals_explained spam_signals_explained line_signals_explained

lemma calculate_trust_score_cases:
  assumes "calculate_trust_score lookups = Inr (score, bd)"
  obtains (listed) "contact_signals (pget lookups ''contact'') = Inr (Inl (score, bd))"
        | (computed) sb where "explained sb" and "score = clamp100 (fst sb)"
            and "bd = snd sb @ [(''final'', score)]"
proof -
  from assms obtain r where r: "contact_signals (pget lookups ''contact'') = Inr r"
    by (auto simp: calculate_trust_score_def ebind_eq_Inr)
  show thesis
  proof (cases r)
    case (Inl f)
    with r assms show thesis by (intro listed) (simp add: calculate_trust_score_def)
  next
    case (Inr sb0)
    with r assms obtain sb1 sb2 sb3 where h: "history_signals (pget_or lookups ''history'' (PDict [])) sb0 = Inr sb1"
      and sp: "spam_signals (pget_or lookups ''nomorobo'' (PDict [])) sb1 = Inr sb2"
      and li: "line_signals (pget_or lookups ''twilio'' (PDict [])) sb2 = Inr sb3"
      and res: "score = clamp100 (fst sb3)" "bd = snd sb3 @ [(''final'', score)]"
      by (auto simp: calculate_trust_score_def ebind_eq_Inr Let_def)
    from r Inr have "explained sb0" by (simp add: contact_signals_explained)
    then have "explained sb1" using h by (rule history_signals_explained)
    then have "explained sb2" using sp by (rule spam_signals_explained)
    then have "explained sb3" using li by (rule line_signals_explained)
    from this res show thesis by (rule computed)
  qed
qed

lemma route_simps [simp]:
  "determine_route (Fin 0) = SPAM_BLOCK" "determine_route (Fin 50) = AI_SCREENING"
  "determine_route (Fin 100) = WHITELIST_FORWARD"
  by (simp_all add: determine_route_def)

lemma history_step_size:
  "2 < i \<Longrightarrow> pymin (Fin 30) (fscale 10 (Fin (of_int i))) = Fin 30"
  "3 < j \<Longrightarrow> pymin (Fin 20) (fscale 5 (Fin (of_int j))) = Fin 20"
proof -
  assume "2 < i"
  then have "(of_int 3 :: rat) \<le> of_int i" by (simp only: of_int_le_iff)
  then show "pymin (Fin 30) (fscale 10 (Fin (of_int i))) = Fin 30" by (simp add: pymin_def)
next
  assume "3 < j"
  then have "(of_int 4 :: rat) \<le> of_int j" by (simp only: of_int_le_iff)
  then show "pymin (Fin 20) (fscale 5 (Fin (of_int j))) = Fin 20" by (simp add: pymin_def)
qed

text \<open>The score of a caller who is in no contact list, as the incoming-call webhook computes it.\<close>

lemma unknown_caller_score:
  "\<exists>bd. calculate_trust_score (incoming_lookups PNone outcomes) =
     Inr (Fin (50 + (if 2 < count_outcome ''picked_up'' outcomes then 30 else 0)
                  - (if 3 < count_outcome ''ignored'' outcomes then 20 else 0)), bd)"
proof (cases "outcomes = []")
  case True
  then show ?thesis
    by (simp add: calculate_trust_score_def incoming_lookups_def contact_signals_def
          history_signals_def spam_signals_def line_signals_def vget_def pget_def pget_or_def
          count_outcome_def Let_def)
next
  case False
  let ?p = "count_outcome ''picked_up'' outcomes" and ?i = "count_outcome ''ignored'' outcomes"
  have "(2 < (of_int ?p :: rat)) = (2 < ?p)" "(3 < (of_int ?i :: rat)) = (3 < ?i)"
    by linarith+
  with False show ?thesis
    using history_step_size(1) [of ?p] history_step_size(2) [of ?i]
    by (auto simp: calculate_trust_score_def incoming_lookups_def contact_signals_def
          history_signals_def spam_signals_def line_signals_def vget_def pget_def pget_or_def
          val_number_def max_def min_def Let_def)
qed

section \<open>Lemmas on routes\<close>

lemma determine_route_mono:
  "x \<le> y \<Longrightarrow> determine_route (Fin x) \<le> determine_route (Fin y)"
  by (auto simp: determine_route_def less_eq_route_def)

lemma restrict_route_le: "restrict_route ring_through override r \<le> r"
  by (cases r) (auto simp: restrict_route_def ring_routes_def less_eq_route_def Let_def)

lemma restrict_route_rings:
  "restrict_route ring_through override r \<in> set ring_routes \<longleftrightarrow>
     r \<in> set ring_routes \<and> ring_through \<and> \<not> override"
  by (cases r) (auto simp: restrict_route_def ring_routes_def Let_def)

lemma restrict_route_spam: "restrict_route ring_through override r = SPAM_BLOCK \<longleftrightarrow> r = SPAM_BLOCK"
  by (cases r) (auto simp: restrict_route_def ring_routes_def Let_def)


section \<open>Lemmas on adaptive trust\<close>

definition doc_trust :: "contact_doc \<Rightarrow> pyval" where
  "doc_trust doc = doc_get_or doc ''trust_level'' (PInt 50)"

lemma merge_nonempty: "ys \<noteq> [] \<Longrightarrow> AList.merge xs ys \<noteq> []"
  by (cases ys) (auto simp: AList.merge_def split: prod.splits dest: arg_cong [where f = length])

lemma update_nonempty [simp]: "AList.update k v xs \<noteq> []"
  by (cases xs) auto

lemma doc_trust_update [simp]:
  "doc_trust (AList.update k v doc) = (if k = ''trust_level'' then v else doc_trust doc)"
  by (simp add: doc_trust_def doc_get_or_def update_conv')

lemma outcome_delta_bound: "\<bar>outcome_delta o'\<bar> \<le> 5"
  by (auto simp: outcome_delta_def OUTCOME_DELTAS_def split: option.splits if_splits)

lemma adjust_frame:
  assumes "adjust_trust_after_call h rd db p out c = Inr db'"
  shows "k \<noteq> (c, h p) \<Longrightarrow> db' k = db k"
  using assms
  by (auto simp: adjust_trust_after_call_def upsert_contact_def ebind_eq_Inr Let_def split: if_splits)

definition has_trust :: "contacts_db \<Rightarrow> string \<times> string \<Rightarrow> int \<Rightarrow> bool" where
  "has_trust db k t = (\<exists>doc. db k = Some doc \<and> doc \<noteq> [] \<and> doc_trust doc = PInt t)"

lemma adjust_step:
  assumes adj: "adjust_trust_after_call h True db p out c = Inr db'"
    and trust: "has_trust db (c, h p) t" and range: "0 \<le> t" "t \<le> 100"
    and p: "p \<noteq> []"
  shows "has_trust db' (c, h p) (max 0 (min 100 (t + outcome_delta out)))"
proof -
  from adj have c: "c \<noteq> []" by (auto simp: adjust_trust_after_call_def split: if_splits)
  from trust obtain doc where doc: "db (c, h p) = Some doc" "doc \<noteq> []" "doc_trust doc = PInt t"
    by (auto simp: has_trust_def)
  show ?thesis
  proof (cases "outcome_delta out = 0")
    case True
    with adj range trust show ?thesis
      by (simp add: adjust_trust_after_call_def Let_def max_def min_def split: if_splits)
  next
    case False
    with adj doc c p show ?thesis
      by (auto simp: adjust_trust_after_call_def Let_def get_contact_def upsert_contact_def
            has_trust_def doc_trust_def [symmetric] ebind_eq_Inr
            intro!: merge_nonempty split: if_splits)
  qed
qed

fun adjust_all ::
    "(string \<Rightarrow> string) \<Rightarrow> contacts_db \<Rightarrow> string \<Rightarrow> string \<Rightarrow> string list \<Rightarrow> contacts_db res" where
  "adjust_all h db p c [] = Inr db"
| "adjust_all h db p c (out # outs) =
     ebind (adjust_trust_after_call h True db p out c) (\<lambda>db'. adjust_all h db' p c outs)"

lemma adjust_all_trust:
  assumes "adjust_all h db p c outs = Inr db'" and "has_trust db (c, h p) t"
    and "0 \<le> t" and "t \<le> 100" and "p \<noteq> []"
  shows "\<exists>t'. has_trust db' (c, h p) t' \<and> 0 \<le> t' \<and> t' \<le> 100 \<and> \<bar>t' - t\<bar> \<le> 5 * int (length outs)"
  using assms
proof (induction outs arbitrary: db t)
  case Nil
  then show ?case by auto
next
  case (Cons out outs)
  let ?t1 = "max 0 (min 100 (t + outcome_delta out))"
  from Cons.prems(1) obtain db1 where db1: "adjust_trust_after_call h True db p out c = Inr db1"
    and rest: "adjust_all h db1 p c outs = Inr db'"
    by (auto simp: ebind_eq_Inr)
  have "has_trust db1 (c, h p) ?t1"
    using adjust_step [OF db1 Cons.prems(2-5)] .
  with Cons.IH [OF rest _ _ _ Cons.prems(5)] obtain t' where t': "has_trust db' (c, h p) t'"
      "0 \<le> t'" "t' \<le> 100" "\<bar>t' - ?t1\<bar> \<le> 5 * int (length outs)"
    by fastforce
  have "\<bar>?t1 - t\<bar> \<le> 5"
    using outcome_delta_bound [of out] Cons.prems(3,4) by linarith
  with t' show ?case by fastforce
qed

section \<open>Lemmas on the circuit breaker\<close>

text \<open>
  What the breaker promises, without its state: it is open at \<open>now\<close> when some error less than
  two minutes old was at least the fifth within its own last minute.
\<close>

definition errors_in_window :: "rat list \<Rightarrow> nat \<Rightarrow> nat" where
  "errors_in_window ts i = length (filter (\<lambda>t. ts ! i - 60 \<le> t) (take (Suc i) ts))"

definition tripped :: "rat list \<Rightarrow> rat \<Rightarrow> bool" where
  "tripped ts now = (\<exists>i < length ts. 5 \<le> errors_in_window ts i \<and> now < ts ! i + 120)"

lemma cleanup_is_filter: "sorted ts \<Longrightarrow> cleanup_old_errors c ts = filter (\<lambda>t. c \<le> t) ts"
proof (induction ts)
  case Nil
  then show ?case by simp
next
  case (Cons t ts)
  then have "\<not> t < c \<Longrightarrow> filter (\<lambda>t. c \<le> t) ts = ts"
    by (intro filter_True) auto
  with Cons show ?case by auto
qed

lemma sorted_snoc: "sorted (ts @ [t]) \<longleftrightarrow> sorted ts \<and> (\<forall>x \<in> set ts. x \<le> (t::rat))"
  by (auto simp: sorted_append)

lemma fold_errors:
  assumes "sorted ts"
  shows "cb_errors (fold record_error ts init_breaker) =
           (if ts = [] then [] else filter (\<lambda>t. last ts - 60 \<le> t) ts)"
  using assms
proof (induction ts rule: rev_induct)
  case Nil
  then show ?case by (simp add: init_breaker_def)
next
  case (snoc t ts)
  let ?b = "fold record_error ts init_breaker"
  from snoc have srt: "sorted ts" "\<forall>x \<in> set ts. x \<le> t" by (simp_all add: sorted_snoc)
  have errs: "cb_errors ?b = (if ts = [] then [] else filter (\<lambda>x. last ts - 60 \<le> x) ts)"
    using snoc.IH srt(1) by simp
  have "sorted (cb_errors ?b @ [t])"
    using errs srt by (auto simp: sorted_snoc sorted_wrt_filter)
  moreover have "ts \<noteq> [] \<Longrightarrow> last ts \<le> t" using srt(2) by simp
  ultimately have "cb_errors (record_error t ?b) = filter (\<lambda>x. t - 60 \<le> x) (cb_errors ?b @ [t])"
    by (simp add: record_error_def [of t ?b] Let_def cleanup_is_filter)
  also have "\<dots> = filter (\<lambda>x. t - 60 \<le> x) (ts @ [t])"
    using errs \<open>ts \<noteq> [] \<Longrightarrow> last ts \<le> t\<close> by (auto intro!: filter_cong)
  finally show ?case by simp
qed

lemma errors_in_window_snoc:
  "i < length ts \<Longrightarrow> errors_in_window (ts @ [t]) i = errors_in_window ts i"
  "errors_in_window (ts @ [t]) (length ts) = length (filter (\<lambda>x. t - 60 \<le> x) (ts @ [t]))"
  by (simp_all add: errors_in_window_def nth_append)

lemma tripped_snoc:
  "tripped (ts @ [t]) now \<longleftrightarrow>
     tripped ts now \<or> (5 \<le> length (filter (\<lambda>x. t - 60 \<le> x) (ts @ [t])) \<and> now < t + 120)"
proof -
  have "tripped (ts @ [t]) now \<longleftrightarrow>
     (\<exists>i < length ts. 5 \<le> errors_in_window (ts @ [t]) i \<and> now < (ts @ [t]) ! i + 120) \<or>
     (5 \<le> errors_in_window (ts @ [t]) (length ts) \<and> now < t + 120)"
    by (auto simp: tripped_def less_Suc_eq)
  also have "(\<exists>i < length ts. 5 \<le> errors_in_window (ts @ [t]) i \<and> now < (ts @ [t]) ! i + 120)
      \<longleftrightarrow> tripped ts now"
    by (auto simp: tripped_def errors_in_window_snoc nth_append)
  finally show ?thesis by (simp only: errors_in_window_snoc)
qed

lemma tripped_bound: "tripped ts now \<Longrightarrow> \<forall>x \<in> set ts. x \<le> t \<Longrightarrow> now < t + 120"
  unfolding tripped_def using nth_mem by fastforce

lemma breaker_open_iff:
  assumes "sorted ts" and "\<forall>t \<in> set ts. 0 \<le> t" and "0 \<le> now"
  shows "now < cb_open_until (fold record_error ts init_breaker) \<longleftrightarrow> tripped ts now"
  using assms
proof (induction ts rule: rev_induct)
  case Nil
  then show ?case by (simp add: init_breaker_def tripped_def)
next
  case (snoc t ts)
  let ?b = "fold record_error ts init_breaker"
  from snoc.prems have srt: "sorted ts" "\<forall>x \<in> set ts. x \<le> t" "\<forall>t \<in> set ts. 0 \<le> t"
    by (simp_all add: sorted_snoc)
  have IH: "now < cb_open_until ?b \<longleftrightarrow> tripped ts now"
    using snoc.IH srt snoc.prems(3) by simp
  have "cb_errors (record_error t ?b) = filter (\<lambda>x. t - 60 \<le> x) (ts @ [t])"
    using fold_errors [OF snoc.prems(1)] by simp
  then have n: "length (cleanup_old_errors (t - 60) (cb_errors ?b @ [t])) =
      length (filter (\<lambda>x. t - 60 \<le> x) (ts @ [t]))"
    by (simp add: record_error_def [of t ?b] Let_def)
  show ?case
    using IH tripped_bound [of ts now t] srt(2)
    by (auto simp: tripped_snoc record_error_def [of t ?b] Let_def n simp del: filter_append)
qed


section \<open>Properties\<close>

text \<open>
  C31: whenever scoring a caller returns at all, the score is a finite number between 0 and 100,
  and the breakdown accounts for it: either the contact list decided alone, or the recorded
  signals added to the baseline of 50 and clamped give exactly the score.
\<close>

theorem trust_score_sound:
  assumes "calculate_trust_score lookups = Inr (score, bd)"
  shows "\<exists>r. score = Fin r \<and> 0 \<le> r \<and> r \<le> 100 \<and>
     (bd = [(''whitelist'', Fin 100)] \<and> r = 100 \<or> bd = [(''blacklist'', Fin 0)] \<and> r = 0 \<or>
      (\<exists>signals. bd = signals @ [(''final'', score)] \<and>
         score = clamp100 (foldl fplus (Fin 50) (map snd signals))))"
  using assms
proof (cases rule: calculate_trust_score_cases)
  case listed
  from contact_signals_final [OF this] show ?thesis by auto
next
  case (computed sb)
  obtain r where "score = Fin r" "0 \<le> r" "r \<le> 100"
    using clamp100_range computed(2) by blast
  moreover have "score = clamp100 (foldl fplus (Fin 50) (map snd (snd sb)))"
    using computed(1,2) by (simp add: explained_def)
  ultimately show ?thesis using computed(3) by blast
qed

lemma unknown_score_example:
  "calculate_trust_score (incoming_lookups PNone []) = Inr (Fin 50, [(''final'', Fin 50)])"
  by (simp add: calculate_trust_score_def incoming_lookups_def contact_signals_def
        history_signals_def spam_signals_def line_signals_def vget_def pget_def pget_or_def Let_def)

theorem trust_score_sound_witness:
  "\<exists>r. Fin 50 = Fin r \<and> 0 \<le> r \<and> r \<le> 100 \<and>
     ([(''final'', Fin 50)] = [(''whitelist'', Fin 100)] \<and> r = 100 \<or>
      [(''final'', Fin 50)] = [(''blacklist'', Fin 0)] \<and> r = 0 \<or>
      (\<exists>signals. [(''final'', Fin 50)] = signals @ [(''final'', Fin 50)] \<and>
         Fin 50 = clamp100 (foldl fplus (Fin 50) (map snd signals))))"
  by (rule trust_score_sound [OF unknown_score_example])

lemma trust_score_sound_helper:
  "calculate_trust_score lookups = Inr (score, bd) \<Longrightarrow> \<exists>r. score = Fin r"
  by (erule calculate_trust_score_cases)
     (use contact_signals_final clamp100_range in \<open>fastforce+\<close>)

text \<open>
  C19: routing an incoming call never lets a caller further through than the trust score alone
  does; the owner is rung only for a score of 70 or more, with ring-through on and outside
  quiet hours unless the score is 100; and neither restriction blocks or unblocks a caller.
\<close>

theorem incoming_route_safe:
  assumes "route_incoming_call fromiso wall contractor preferences contact outcomes = Inr (score, r)"
  shows "r \<le> determine_route score \<and>
     (r \<in> set ring_routes \<longleftrightarrow>
        fleq (Fin 70) score \<and> truthy (pget_or contractor ''ring_through_contacts'' (PBool True)) \<and>
        get_quiet_hours_routing_override fromiso wall score
          (quiet_hours_routing_args preferences) = None) \<and>
     (r = SPAM_BLOCK \<longleftrightarrow> \<not> fleq (Fin 30) score)"
proof -
  let ?rt = "truthy (pget_or contractor ''ring_through_contacts'' (PBool True))"
  let ?ov = "get_quiet_hours_routing_override fromiso wall score
               (quiet_hours_routing_args preferences) \<noteq> None"
  from assms obtain bd where bd: "calculate_trust_score (incoming_lookups contact outcomes) = Inr (score, bd)"
    and r: "r = restrict_route ?rt ?ov (determine_route score)"
    by (auto simp: route_incoming_call_def ebind_eq_Inr split: prod.splits)
  obtain x where x: "score = Fin x" using trust_score_sound_helper [OF bd] by blast
  have "determine_route score \<in> set ring_routes \<longleftrightarrow> fleq (Fin 70) score"
    and "determine_route score = SPAM_BLOCK \<longleftrightarrow> \<not> fleq (Fin 30) score"
    by (auto simp: x determine_route_def ring_routes_def)
  then show ?thesis
    unfolding r restrict_route_rings restrict_route_spam by (simp add: restrict_route_le)
qed

text \<open>A quiet window at noon, for the witness: every zone's clock reads 12:00.\<close>

theorem incoming_route_safe_witness:
  "AI_SCREENING \<le> determine_route (Fin 50) \<and>
     (AI_SCREENING \<in> set ring_routes \<longleftrightarrow>
        fleq (Fin 70) (Fin 50) \<and> truthy (pget_or Map.empty ''ring_through_contacts'' (PBool True)) \<and>
        get_quiet_hours_routing_override (\<lambda>_. Some 0) (\<lambda>_. Some 43200) (Fin 50)
          (quiet_hours_routing_args Map.empty) = None) \<and>
     (AI_SCREENING = SPAM_BLOCK \<longleftrightarrow> \<not> fleq (Fin 30) (Fin 50))"
  by (rule incoming_route_safe [where contact = PNone and outcomes = "[]"])
     (simp add: route_incoming_call_def unknown_score_example restrict_route_def ring_routes_def
        get_quiet_hours_routing_override_def quiet_hours_routing_args_def Let_def)

text \<open>
  a caller in no contact list is never blocked as spam by the incoming-call webhook, and
  rings the owner only after more than two picked-up calls and at most three ignored ones;
  without history the caller is screened.
\<close>

theorem unknown_caller_screened:
  "\<exists>score r. route_incoming_call fromiso wall contractor preferences PNone outcomes = Inr (score, r) \<and>
     r \<noteq> SPAM_BLOCK \<and>
     (r \<noteq> AI_SCREENING \<longleftrightarrow>
        r = RING_THEN_SCREEN \<and> 2 < count_outcome ''picked_up'' outcomes \<and>
        count_outcome ''ignored'' outcomes \<le> 3 \<and>
        truthy (pget_or contractor ''ring_through_contacts'' (PBool True)) \<and>
        get_quiet_hours_routing_override fromiso wall score (quiet_hours_routing_args preferences) = None)"
proof -
  obtain bd where bd: "calculate_trust_score (incoming_lookups PNone outcomes) =
     Inr (Fin (50 + (if 2 < count_outcome ''picked_up'' outcomes then 30 else 0)
                  - (if 3 < count_outcome ''ignored'' outcomes then 20 else 0)), bd)"
    using unknown_caller_score by blast
  show ?thesis
    by (simp add: route_incoming_call_def bd determine_route_def restrict_route_def ring_routes_def Let_def)
qed

text \<open>
  trust moves slowly and stays in range: after any number of calls with one contact that
  has a stored trust between 0 and 100, the trust is still in that range and at most five
  points per call away from where it was.
\<close>

theorem adaptive_trust_bounded:
  assumes "adjust_all h db p c outs = Inr db'" and "has_trust db (c, h p) t"
    and "0 \<le> t" and "t \<le> 100" and "p \<noteq> []"
  shows "\<exists>t'. has_trust db' (c, h p) t' \<and> 0 \<le> t' \<and> t' \<le> 100 \<and> \<bar>t' - t\<bar> \<le> 5 * int (length outs)"
  using assms by (rule adjust_all_trust)

definition example_db :: contacts_db where
  "example_db = [(''c1'', ''+15'') \<mapsto> [(''name'', PStr ''Ann''), (''trust_level'', PInt 98)]]"

lemma example_db_adjusted:
  "adjust_all (\<lambda>x. x) example_db ''+15'' ''c1'' [''picked_up'', ''blocked''] =
     Inr [(''c1'', ''+15'') \<mapsto> [(''name'', PStr ''Ann''), (''trust_level'', PInt 95),
            (''phone'', PStr ''+15''), (''times_picked_up'', PInt 1)]]"
  by (simp add: example_db_def adjust_trust_after_call_def py_strip_def py_space_def Let_def
      outcome_delta_def OUTCOME_DELTAS_def get_contact_def upsert_contact_def doc_get_or_def AList.merge_def)

theorem adaptive_trust_bounded_witness:
  "\<exists>t'. has_trust [(''c1'', ''+15'') \<mapsto> [(''name'', PStr ''Ann''), (''trust_level'', PInt 95),
            (''phone'', PStr ''+15''), (''times_picked_up'', PInt 1)]] (''c1'', ''+15'') t' \<and>
     0 \<le> t' \<and> t' \<le> 100 \<and> \<bar>t' - 98\<bar> \<le> 5 * int (length [''picked_up'', ''blocked''])"
proof -
  have "has_trust example_db (''c1'', (\<lambda>x. x) ''+15'') 98"
    by (simp add: has_trust_def example_db_def doc_trust_def doc_get_or_def)
  from adaptive_trust_bounded [OF example_db_adjusted this] show ?thesis by simp
qed

text \<open>
  a lookup whose read fails is taken for a caller nobody has saved: the saved contact's
  name is then overwritten with the empty string and the trust restarts from the baseline.
\<close>

theorem failed_read_erases_contact:
  assumes "outcome_delta out \<noteq> 0" and "py_strip c \<noteq> []" and "p \<noteq> []"
    and "db (c, h p) = Some doc"
  shows "\<exists>db' doc'. adjust_trust_after_call h False db p out c = Inr db' \<and>
     db' (c, h p) = Some doc' \<and> doc_get_or doc' ''name'' PNone = PStr [] \<and>
     doc_trust doc' = PInt (max 0 (min 100 (50 + outcome_delta out)))"
proof -
  have "c \<noteq> []" using assms(2) by auto
  with assms show ?thesis
    by (simp add: adjust_trust_after_call_def get_contact_def upsert_contact_def Let_def
        doc_get_or_def doc_trust_def merge_conv' update_conv')
qed

theorem failed_read_erases_contact_witness:
  "\<exists>db' doc'. adjust_trust_after_call (\<lambda>x. x) False example_db ''+15'' ''picked_up'' ''c1'' = Inr db' \<and>
     db' (''c1'', ''+15'') = Some doc' \<and> doc_get_or doc' ''name'' PNone = PStr [] \<and>
     doc_trust doc' = PInt (max 0 (min 100 (50 + outcome_delta ''picked_up'')))"
  using failed_read_erases_contact [where h = "\<lambda>x. x" and p = "''+15''" and c = "''c1''"
      and db = example_db and out = "''picked_up''"]
  by (simp add: example_db_def outcome_delta_def OUTCOME_DELTAS_def py_strip_def py_space_def)

text \<open>
  C32: the circuit breaker implements its sliding-window contract: after any sequence of errors
  in time order it is open exactly when an error less than two minutes old was at least the
  fifth within the minute that ended with it.
\<close>

theorem breaker_refines_window:
  assumes "sorted ts" and "\<forall>t \<in> set ts. 0 \<le> t" and "0 \<le> now"
  shows "is_circuit_open now (fold record_error ts init_breaker) \<longleftrightarrow> tripped ts now"
  using breaker_open_iff [OF assms] by (simp add: is_circuit_open_def)

theorem breaker_refines_window_witness:
  "is_circuit_open 70 (fold record_error [1, 10, 20, 30, 40] init_breaker) \<longleftrightarrow>
     tripped [1, 10, 20, 30, 40] 70"
  by (rule breaker_refines_window) simp_all

end
