(* ===== verification/Owner_Actions.thy ===== *)
theory Owner_Actions
  imports Call_State
begin

text \<open>
  The arbitration of the owner's decision on a live call: app/services/owner_call_actions.py,
  the urgent escalation's claim in urgent_handoff.py and the fallback redirect's callbacks in
  app/webhooks/twilio_incoming.py. Every write modelled here is a callback run in a database
  transaction (one atomic step, see Call_State); the callbacks are functions on nodes here. Writers
  of other fields of the record outside these files (the pipelines and the status web hooks, some
  without a transaction) are not modelled.
  The fields compared with \<open>==\<close> are strings in every record the program writes, so Python's
  equality is equality of values.
\<close>

section \<open>Constants\<close>

definition LIVE_STATES :: "string list" where
  "LIVE_STATES = [''pending'', ''scoring'', ''screening'', ''pickup_ringing'', ''connected'',
     ''text_replied'', ''voicemail_recording'']"

definition DECISION_STATES :: "string list" where
  "DECISION_STATES = [''screening'', ''pickup_ringing'']"

definition REDIRECT_BUSY :: "string list" where
  "REDIRECT_BUSY = [''pending'', ''uncertain'']"

definition STALE_THRESHOLD :: rat where
  "STALE_THRESHOLD = 600"

section \<open>Which records are live\<close>

fun nonblank :: "pyval \<Rightarrow> bool" where
  "nonblank (PStr s) = (py_strip s \<noteq> [])"
| "nonblank _ = False"

definition live_record :: "node \<Rightarrow> pyval \<Rightarrow> rat \<Rightarrow> bool" where
  "live_record record contractor_id now =
     (case record of
        None \<Rightarrow> False
      | Some d \<Rightarrow>
          nonblank contractor_id \<and> pget d ''contractor_id'' = contractor_id \<and>
          str_in (pget d ''state'') LIVE_STATES \<and>
          (case finite_number (pget d ''state_updated_at'') of
             None \<Rightarrow> False
           | Some stamp \<Rightarrow> 0 < stamp \<and> stamp \<le> now \<and> now - stamp \<le> STALE_THRESHOLD))"

text \<open>The guard shared by the callbacks that act on an undecided call.\<close>

definition undecided :: "pydict \<Rightarrow> bool" where
  "undecided d = (\<not> truthy (pget d ''owner_action'') \<and> \<not> truthy (pget d ''accepted'') \<and>
     str_in (pget d ''state'') DECISION_STATES)"

section \<open>The reducer of owner actions\<close>

datatype action_outcome = Inactive | Duplicate | Action_conflict | Unsupported_action | Claimed

record action_request =
  rq_action :: string
  rq_contractor :: string
  rq_operation :: string
  rq_nonce :: string
  rq_conference :: string
  rq_now :: rat

definition claim_update :: "action_request \<Rightarrow> pydict \<Rightarrow> pydict" where
  "claim_update rq d =
     (let d1 = d(''owner_action'' \<mapsto> PStr (rq_action rq), ''owner_operation_id'' \<mapsto> PStr (rq_operation rq),
                 ''claim_nonce'' \<mapsto> PStr (rq_nonce rq), ''action_updated_at'' \<mapsto> PFloat (Fin (rq_now rq)),
                 ''owner_action_status'' \<mapsto>
                   PStr (if rq_action rq = ''accept'' then ''accepting'' else ''message_requested''))
      in if rq_action rq = ''accept''
         then d1(''conference_name'' \<mapsto> PStr (rq_conference rq), ''accepted'' \<mapsto> PBool False,
                 ''previous_conference_name'' \<mapsto> pget_or d ''conference_name'' (PStr []))
         else d1(''message_intent'' \<mapsto>
                   PDict [(''type'', PStr ''take_message''), (''contractor_id'', PStr (rq_contractor rq)),
                          (''operation_id'', PStr (rq_operation rq)), (''action'', PStr (rq_action rq))]))"

definition reduce_active_call_action :: "action_request \<Rightarrow> node \<Rightarrow> node \<times> action_outcome" where
  "reduce_active_call_action rq current =
     (if \<not> live_record current (PStr (rq_contractor rq)) (rq_now rq) then (current, Inactive)
      else case current of None \<Rightarrow> (current, Inactive) | Some d \<Rightarrow>
        if truthy (pget d ''owner_action'') then
          (current, if pget d ''owner_action'' = PStr (rq_action rq) \<and>
                       pget d ''owner_operation_id'' = PStr (rq_operation rq)
                    then Duplicate else Action_conflict)
        else if \<not> str_in (pget d ''state'') DECISION_STATES \<or> truthy (pget d ''accepted'') \<or>
                str_in (pget d ''kevin_redirect_status'') REDIRECT_BUSY then (current, Action_conflict)
        else if rq_action rq \<notin> {''accept'', ''decline'', ''timeout''} then (current, Unsupported_action)
        else (Some (claim_update rq d), Claimed))"

section \<open>The other callbacks on the record\<close>

definition normalize_screening_reason :: "pyval \<Rightarrow> string" where
  "normalize_screening_reason v =
     (case v of PStr s \<Rightarrow>
        (let trimmed = py_strip s
         in if trimmed = [] \<or> trimmed = ''Speaking with Kevin'' then [] else take 160 trimmed)
      | _ \<Rightarrow> [])"

definition screening_matches :: "string \<Rightarrow> string \<Rightarrow> string \<Rightarrow> rat \<Rightarrow> node \<Rightarrow> bool" where
  "screening_matches sid contractor_id ws_token at_time current =
     (live_record current (PStr contractor_id) at_time \<and>
      (case current of None \<Rightarrow> False | Some d \<Rightarrow>
         undecided d \<and> \<not> str_in (pget d ''kevin_redirect_status'') REDIRECT_BUSY \<and>
         pget d ''ws_token'' = PStr ws_token \<and>
         (case d ''call_sid'' of None \<Rightarrow> True | Some v \<Rightarrow> v = PStr sid)))"

definition screening_reason_txn ::
    "string \<Rightarrow> string \<Rightarrow> string \<Rightarrow> string \<Rightarrow> rat \<Rightarrow> node \<Rightarrow> node" where
  "screening_reason_txn sid contractor_id ws_token reason now current =
     (if screening_matches sid contractor_id ws_token now current
      then map_option (\<lambda>d. d(''screening_reason'' \<mapsto> PStr reason)) current else current)"

text \<open>
  \<open>publish_screening_reason\<close>: the node afterwards and the answer; \<open>later\<close> is the time of the
  check on the committed record.
\<close>

definition publish_screening_reason ::
    "string \<Rightarrow> string \<Rightarrow> string \<Rightarrow> pyval \<Rightarrow> rat \<Rightarrow> rat \<Rightarrow> node \<Rightarrow> node \<times> bool" where
  "publish_screening_reason sid contractor_id ws_token reason now later current =
     (if py_strip contractor_id = [] \<or> py_strip ws_token = [] then (current, False)
      else let normalized = normalize_screening_reason reason;
               result = screening_reason_txn sid contractor_id ws_token normalized now current
           in (result,
               screening_matches sid contractor_id ws_token later result \<and>
               (case result of None \<Rightarrow> False
                | Some d \<Rightarrow> pget d ''screening_reason'' = PStr normalized)))"

definition CLAIM_KEYS :: "string list" where
  "CLAIM_KEYS = [''owner_action'', ''owner_operation_id'', ''claim_nonce'', ''conference_name'']"

definition same_claim :: "node \<Rightarrow> pydict \<Rightarrow> rat \<Rightarrow> bool" where
  "same_claim record expected now =
     (live_record record (pget expected ''contractor_id'') now \<and>
      (case record of None \<Rightarrow> False
       | Some d \<Rightarrow> \<forall>k \<in> set CLAIM_KEYS. pget d k = pget expected k))"

definition finish_txn :: "pydict \<Rightarrow> string \<Rightarrow> rat \<Rightarrow> node \<Rightarrow> node" where
  "finish_txn expected target_status now current =
     (case current of None \<Rightarrow> None | Some d \<Rightarrow>
        if \<not> same_claim current expected now \<or>
           \<not> str_in (pget expected ''owner_action_status'') [''accepting'', ''uncertain''] \<or>
           pget d ''owner_action_status'' \<noteq> pget expected ''owner_action_status''
        then current
        else Some (d(''owner_action_status'' \<mapsto> PStr target_status,
                     ''action_updated_at'' \<mapsto> PFloat (Fin now))))"

definition mark_redirect_txn :: "pydict \<Rightarrow> rat \<Rightarrow> node \<Rightarrow> node" where
  "mark_redirect_txn expected now current =
     (case current of None \<Rightarrow> None | Some d \<Rightarrow>
        if \<not> same_claim current expected now \<or> pget d ''owner_action_status'' \<noteq> PStr ''accepting''
        then current
        else Some (d(''accepted'' \<mapsto> PBool True, ''redirect_started_at'' \<mapsto> PFloat (Fin now))))"

definition mark_redirect_ok :: "pydict \<Rightarrow> rat \<Rightarrow> rat \<Rightarrow> node \<Rightarrow> bool" where
  "mark_redirect_ok expected now later result =
     (same_claim result expected later \<and>
      (case result of None \<Rightarrow> False | Some d \<Rightarrow>
         pget d ''owner_action_status'' = PStr ''accepting'' \<and> pget d ''accepted'' = PBool True \<and>
         pget d ''redirect_started_at'' = PFloat (Fin now)))"

definition release_update :: "pydict \<Rightarrow> pydict \<Rightarrow> pydict" where
  "release_update expected d =
     (d(''conference_name'' \<mapsto> pget_or d ''previous_conference_name'' (PStr []),
        ''previous_conference_name'' := None,
        ''accepted'' \<mapsto> PBool False,
        ''preparation_release_nonce'' \<mapsto> pget expected ''claim_nonce'',
        ''owner_action'' := None, ''owner_action_status'' := None, ''owner_operation_id'' := None,
        ''claim_nonce'' := None, ''action_updated_at'' := None, ''redirect_started_at'' := None))"

definition release_preparation_txn :: "pydict \<Rightarrow> rat \<Rightarrow> node \<Rightarrow> node" where
  "release_preparation_txn expected now current =
     (case current of None \<Rightarrow> None | Some d \<Rightarrow>
        if \<not> same_claim current expected now \<or> pget d ''owner_action_status'' \<noteq> PStr ''accepting'' \<or>
           pget d ''accepted'' = PBool True \<or> pget d ''redirect_started_at'' \<noteq> PNone
        then current
        else Some (release_update expected d))"

definition release_confirmed :: "pydict \<Rightarrow> rat \<Rightarrow> node \<Rightarrow> bool" where
  "release_confirmed expected later result =
     (live_record result (pget expected ''contractor_id'') later \<and>
      (case result of None \<Rightarrow> False | Some d \<Rightarrow>
         \<not> truthy (pget d ''owner_action'') \<and> pget d ''accepted'' = PBool False \<and>
         pget d ''redirect_started_at'' = PNone \<and>
         pget d ''preparation_release_nonce'' = pget expected ''claim_nonce''))"


section \<open>Message taking\<close>

record intent_filter =
  if_statuses :: "string list"
  if_operation :: "string option"
  if_action :: "string option"
  if_nonce :: "string option"
  if_ws_token :: string
  if_conference :: "string option"

definition any_intent :: intent_filter where
  "any_intent = \<lparr>if_statuses = [''message_requested''], if_operation = None, if_action = None,
     if_nonce = None, if_ws_token = [], if_conference = None\<rparr>"

fun dict_get :: "pyval \<Rightarrow> string \<Rightarrow> pyval" where
  "dict_get (PDict kvs) k = (case map_of kvs k of None \<Rightarrow> PNone | Some v \<Rightarrow> v)"
| "dict_get _ k = PNone"

fun is_dict :: "pyval \<Rightarrow> bool" where
  "is_dict (PDict kvs) = True"
| "is_dict _ = False"

fun nonempty_str :: "pyval \<Rightarrow> bool" where
  "nonempty_str (PStr s) = (s \<noteq> [])"
| "nonempty_str _ = False"

definition wanted :: "string option \<Rightarrow> pyval \<Rightarrow> bool" where
  "wanted x v = (case x of None \<Rightarrow> True | Some s \<Rightarrow> v = PStr s)"

definition intent_entries :: "pyval \<Rightarrow> (string \<times> pyval) list" where
  "intent_entries v = (case v of PDict kvs \<Rightarrow> kvs | _ \<Rightarrow> [])"

definition message_intent_from_record ::
    "intent_filter \<Rightarrow> pyval \<Rightarrow> rat \<Rightarrow> node \<Rightarrow> (string \<times> pyval) list option" where
  "message_intent_from_record f contractor_id now record =
     (case record of None \<Rightarrow> None | Some d \<Rightarrow>
        if \<not> live_record record contractor_id now \<or> truthy (pget d ''accepted'') \<or>
           \<not> str_in (pget d ''state'') DECISION_STATES \<or>
           str_in (pget d ''kevin_redirect_status'') REDIRECT_BUSY \<or>
           \<not> str_in (pget d ''owner_action_status'') (if_statuses f) then None
        else let intent = pget d ''message_intent'' in
          if \<not> is_dict intent \<or> dict_get intent ''type'' \<noteq> PStr ''take_message'' \<or>
             dict_get intent ''contractor_id'' \<noteq> contractor_id \<or>
             \<not> str_in (dict_get intent ''action'') [''decline'', ''timeout''] \<or>
             dict_get intent ''action'' \<noteq> pget d ''owner_action'' \<or>
             \<not> nonempty_str (dict_get intent ''operation_id'') \<or>
             dict_get intent ''operation_id'' \<noteq> pget d ''owner_operation_id'' \<or>
             \<not> nonempty_str (pget d ''claim_nonce'') then None
          else if \<not> wanted (if_operation f) (dict_get intent ''operation_id'') \<or>
                  \<not> wanted (if_action f) (dict_get intent ''action'') \<or>
                  \<not> wanted (if_nonce f) (pget d ''claim_nonce'') \<or>
                  (if_ws_token f \<noteq> [] \<and> pget d ''ws_token'' \<noteq> PStr (if_ws_token f)) \<or>
                  \<not> wanted (if_conference f) (pget_or d ''conference_name'' (PStr [])) then None
          else Some (AList.update ''claim_nonce'' (pget d ''claim_nonce'') (intent_entries intent)))"

definition ack_filter :: "string \<Rightarrow> string \<Rightarrow> string option \<Rightarrow> string \<Rightarrow> intent_filter" where
  "ack_filter operation_id action claim_nonce ws_token =
     \<lparr>if_statuses = [''message_requested'', ''taking_message''], if_operation = Some operation_id,
      if_action = Some action, if_nonce = claim_nonce, if_ws_token = ws_token, if_conference = None\<rparr>"

definition acknowledge_txn :: "intent_filter \<Rightarrow> string \<Rightarrow> rat \<Rightarrow> node \<Rightarrow> node" where
  "acknowledge_txn f contractor_id now current =
     (if message_intent_from_record f (PStr contractor_id) now current = None then current
      else map_option (\<lambda>d. d(''owner_action_status'' \<mapsto> PStr ''taking_message'',
                            ''action_acknowledged_at'' \<mapsto> PFloat (Fin now))) current)"

definition acknowledge_owner_action ::
    "string \<Rightarrow> intent_filter \<Rightarrow> string \<Rightarrow> rat \<Rightarrow> node \<Rightarrow> node \<times> bool" where
  "acknowledge_owner_action new_status f contractor_id now current =
     (if new_status \<noteq> ''taking_message'' then (current, False)
      else let result = acknowledge_txn f contractor_id now current
           in (result, message_intent_from_record f (PStr contractor_id) now result \<noteq> None \<and>
                 (case result of None \<Rightarrow> False
                  | Some d \<Rightarrow> pget d ''owner_action_status'' = PStr new_status)))"

section \<open>The owner's deadline and the urgent claim\<close>

text \<open>
  \<open>isinstance(old, (int, float)) and math.isfinite(old) and old > 0\<close>: unlike the time stamp
  test, this one accepts a boolean.
\<close>

definition positive_finite :: "pyval \<Rightarrow> rat option" where
  "positive_finite v =
     (case py_number v of None \<Rightarrow> None
      | Some f \<Rightarrow> (case finite_of f of None \<Rightarrow> None | Some r \<Rightarrow> if 0 < r then Some r else None))"

definition requested_deadline :: "rat option \<Rightarrow> rat \<Rightarrow> rat" where
  "requested_deadline deadline now =
     (case deadline of None \<Rightarrow> now + 30 | Some x \<Rightarrow> min x (now + 30))"

definition owner_deadline_txn ::
    "string \<Rightarrow> bool \<Rightarrow> rat option \<Rightarrow> rat \<Rightarrow> node \<Rightarrow> node" where
  "owner_deadline_txn contractor_id urgent deadline now current =
     (case current of None \<Rightarrow> None | Some d \<Rightarrow>
        if \<not> live_record current (PStr contractor_id) now \<or> \<not> undecided d then current
        else let requested = requested_deadline deadline now;
                 retained = (case positive_finite (pget d ''owner_wait_deadline'') of
                               None \<Rightarrow> requested | Some old \<Rightarrow> old)
             in Some (d(''owner_wait_deadline'' \<mapsto> PFloat (Fin (min retained requested)),
                        ''urgent'' \<mapsto> PBool (urgent \<or> pget d ''urgent'' = PBool True))))"

definition ensure_owner_deadline ::
    "string \<Rightarrow> bool \<Rightarrow> rat option \<Rightarrow> rat \<Rightarrow> rat \<Rightarrow> node \<Rightarrow> node \<times> pyval option" where
  "ensure_owner_deadline contractor_id urgent deadline now later current =
     (let record = owner_deadline_txn contractor_id urgent deadline now current
      in (record,
          case record of None \<Rightarrow> None | Some d \<Rightarrow>
            if \<not> live_record record (PStr contractor_id) later \<or> \<not> undecided d then None
            else Some (pget d ''owner_wait_deadline'')))"

text \<open>The claim callback of \<open>dispatch_urgent_escalation\<close>.\<close>

definition urgent_claim_txn :: "string \<Rightarrow> string \<Rightarrow> rat \<Rightarrow> node \<Rightarrow> node" where
  "urgent_claim_txn contractor_id nonce now current =
     (case current of None \<Rightarrow> None | Some d \<Rightarrow>
        if \<not> live_record current (PStr contractor_id) now \<or> \<not> undecided d \<or>
           truthy (pget d ''urgency_escalated'') \<or>
           (case py_number (pget_or d ''owner_wait_deadline'' (PInt 0)) of
              None \<Rightarrow> True | Some w \<Rightarrow> fleq w (Fin now))
        then current
        else Some (d(''urgency_escalated'' \<mapsto> PBool True, ''urgency_claim_nonce'' \<mapsto> PStr nonce,
                     ''urgent'' \<mapsto> PBool True)))"

section \<open>The fallback redirect to Kevin\<close>

definition not_taken :: "pydict \<Rightarrow> bool" where
  "not_taken d = (\<not> truthy (pget d ''accepted'') \<and> pget d ''owner_action'' \<noteq> PStr ''accept'')"

definition store_token_txn ::
    "string \<Rightarrow> string \<Rightarrow> string \<Rightarrow> string option \<Rightarrow> rat \<Rightarrow> node \<Rightarrow> node" where
  "store_token_txn owner nonce ws_token expected_conference now current =
     (case current of None \<Rightarrow> None | Some d \<Rightarrow>
        if \<not> live_record current (PStr owner) now \<or> \<not> not_taken d \<or>
           truthy (pget d ''kevin_redirect_nonce'') \<or>
           \<not> wanted expected_conference (pget d ''conference_name'')
        then current
        else Some (d(''ws_token'' \<mapsto> PStr ws_token, ''kevin_redirect_nonce'' \<mapsto> PStr nonce,
                     ''kevin_redirect_status'' \<mapsto> PStr ''pending'')))"

definition redirect_finish_txn ::
    "string \<Rightarrow> string \<Rightarrow> string option \<Rightarrow> rat \<Rightarrow> node \<Rightarrow> node" where
  "redirect_finish_txn owner nonce expected_conference now current =
     (case current of None \<Rightarrow> None | Some d \<Rightarrow>
        if \<not> live_record current (PStr owner) now \<or>
           pget d ''kevin_redirect_nonce'' \<noteq> PStr nonce \<or> \<not> not_taken d \<or>
           \<not> wanted expected_conference (pget d ''conference_name'')
        then current
        else Some (d(''kevin_redirect_status'' \<mapsto> PStr ''succeeded'')))"

definition fallback_eligible :: "string \<Rightarrow> string \<Rightarrow> rat \<Rightarrow> node \<Rightarrow> bool" where
  "fallback_eligible contractor_id conference_name now record =
     (live_record record (PStr contractor_id) now \<and>
      (case record of None \<Rightarrow> False | Some d \<Rightarrow>
         not_taken d \<and> pget d ''conference_name'' = PStr conference_name \<and>
         (pget d ''kevin_redirect_status'' = PNone \<or> pget d ''kevin_redirect_status'' = PStr ''pending'')))"

definition release_fallback_txn :: "string \<Rightarrow> string \<Rightarrow> pyval \<Rightarrow> rat \<Rightarrow> node \<Rightarrow> node" where
  "release_fallback_txn contractor_id conference_name nonce now current =
     (case current of None \<Rightarrow> None | Some d \<Rightarrow>
        if \<not> fallback_eligible contractor_id conference_name now current \<or>
           pget d ''kevin_redirect_nonce'' \<noteq> nonce then current
        else Some (d(''kevin_redirect_nonce'' := None, ''kevin_redirect_status'' := None)))"

text \<open>
  \<open>release_stranded_fallback_redirect\<close>: \<open>waiting\<close> is what the conference lookup says (\<open>None\<close>
  when it raises); between the read of \<open>before\<close> and the transaction on \<open>current\<close> others may write.
\<close>

definition release_stranded_fallback_redirect ::
    "string \<Rightarrow> string \<Rightarrow> bool option \<Rightarrow> rat \<Rightarrow> rat \<Rightarrow> rat \<Rightarrow> node \<Rightarrow> node \<Rightarrow> node \<times> string" where
  "release_stranded_fallback_redirect contractor_id conference_name waiting at_read now later before current =
     (if \<not> fallback_eligible contractor_id conference_name at_read before then (current, ''stop'')
      else if waiting \<noteq> Some True then (current, ''wait'')
      else let nonce = (case before of None \<Rightarrow> PNone | Some d \<Rightarrow> pget d ''kevin_redirect_nonce'');
               committed = release_fallback_txn contractor_id conference_name nonce now current
           in (committed,
               if \<not> fallback_eligible contractor_id conference_name later committed \<or>
                  (case committed of None \<Rightarrow> False | Some d \<Rightarrow> truthy (pget d ''kevin_redirect_nonce''))
               then ''stop'' else ''retry''))"

definition confirm_matches :: "string \<Rightarrow> string \<Rightarrow> string \<Rightarrow> string \<Rightarrow> rat \<Rightarrow> node \<Rightarrow> bool" where
  "confirm_matches sid contractor_id ws_token redirect_nonce now current =
     (live_record current (PStr contractor_id) now \<and>
      (case current of None \<Rightarrow> False | Some d \<Rightarrow>
         pget d ''call_sid'' = PStr sid \<and> pget d ''ws_token'' = PStr ws_token \<and>
         pget d ''kevin_redirect_nonce'' = PStr redirect_nonce \<and>
         str_in (pget d ''kevin_redirect_status'') [''pending'', ''succeeded''] \<and> not_taken d))"

definition confirm_stream_txn ::
    "string \<Rightarrow> string \<Rightarrow> string \<Rightarrow> string \<Rightarrow> rat \<Rightarrow> node \<Rightarrow> node" where
  "confirm_stream_txn sid contractor_id ws_token redirect_nonce now current =
     (case current of None \<Rightarrow> None | Some d \<Rightarrow>
        if \<not> confirm_matches sid contractor_id ws_token redirect_nonce now current \<or>
           pget d ''kevin_redirect_status'' \<noteq> PStr ''pending'' then current
        else Some (d(''kevin_redirect_status'' \<mapsto> PStr ''succeeded'',
                     ''fallback_stream_confirmed_at'' \<mapsto> PFloat (Fin now))))"

definition confirm_fallback_stream ::
    "string \<Rightarrow> string \<Rightarrow> string \<Rightarrow> string \<Rightarrow> rat \<Rightarrow> node \<Rightarrow> node \<times> bool" where
  "confirm_fallback_stream sid contractor_id ws_token redirect_nonce now current =
     (if contractor_id = [] \<or> ws_token = [] \<or> redirect_nonce = [] then (current, False)
      else let result = confirm_stream_txn sid contractor_id ws_token redirect_nonce now current
           in (result, confirm_matches sid contractor_id ws_token redirect_nonce now result \<and>
                 (case result of None \<Rightarrow> False
                  | Some d \<Rightarrow> pget d ''kevin_redirect_status'' = PStr ''succeeded'')))"


section \<open>Handling one request\<close>

text \<open>The checks before the claim; the operation id defaults to one derived from the action.\<close>

definition prepare_request :: "string \<Rightarrow> string \<Rightarrow> string option \<Rightarrow> string res" where
  "prepare_request contractor_id action operation_id =
     (if contractor_id = [] \<or> py_strip contractor_id = [] then Inl (HTTPError 403)
      else let op = py_strip (case operation_id of
                       Some s \<Rightarrow> (if s \<noteq> [] then s else ''legacy_'' @ action)
                     | None \<Rightarrow> ''legacy_'' @ action)
           in if op = [] \<or> 80 < length op then Inl (HTTPError 400)
              else if action \<notin> {''accept'', ''decline''} then Inl (HTTPError 400)
              else Inr op)"

definition require_live :: "node \<Rightarrow> string \<Rightarrow> rat \<Rightarrow> pydict res" where
  "require_live record contractor_id now =
     (case record of
        None \<Rightarrow> Inl (HTTPError 404)
      | Some d \<Rightarrow>
          if truthy (pget d ''contractor_id'') \<and> pget d ''contractor_id'' \<noteq> PStr contractor_id
          then Inl (HTTPError 403)
          else if \<not> live_record record (PStr contractor_id) now then Inl (HTTPError 409)
          else Inr d)"

definition claim_result :: "action_request \<Rightarrow> node \<Rightarrow> rat \<Rightarrow> pydict res" where
  "claim_result rq committed later =
     ebind (require_live committed (rq_contractor rq) later) (\<lambda>d.
       if pget d ''owner_operation_id'' \<noteq> PStr (rq_operation rq) \<or>
          pget d ''owner_action'' \<noteq> PStr (rq_action rq)
       then Inl (HTTPError 409) else Inr d)"

text \<open>
  \<open>handle_owner_call_action\<close> from the claim on, cut at every point where it touches the record
  or the provider; between two phases other requests and callbacks may run.
\<close>

datatype phase =
    Claiming | Preparing | Marking | Redirecting | Finishing string | Releasing | Finished

record session =
  ss_request :: action_request
  ss_committed :: pydict
  ss_phase :: phase

definition after_claim :: "rat \<Rightarrow> node \<Rightarrow> session \<Rightarrow> session" where
  "after_claim later committed s =
     (case claim_result (ss_request s) committed later of
        Inl e \<Rightarrow> s\<lparr>ss_phase := Finished\<rparr>
      | Inr d \<Rightarrow>
          (if rq_action (ss_request s) = ''accept'' \<and>
              pget d ''claim_nonce'' = PStr (rq_nonce (ss_request s))
           then s\<lparr>ss_committed := d, ss_phase := Preparing\<rparr>
           else s\<lparr>ss_committed := d, ss_phase := Finished\<rparr>))"

definition after_prepare :: "rat \<Rightarrow> node \<Rightarrow> session \<Rightarrow> session" where
  "after_prepare now current s =
     (if same_claim current (ss_committed s) now \<and>
         (case current of None \<Rightarrow> False | Some d \<Rightarrow> pget d ''owner_action_status'' = PStr ''accepting'')
      then s\<lparr>ss_phase := Marking\<rparr> else s\<lparr>ss_phase := Finished\<rparr>)"

definition after_mark :: "rat \<Rightarrow> rat \<Rightarrow> node \<Rightarrow> session \<Rightarrow> session" where
  "after_mark now later result s =
     (if mark_redirect_ok (ss_committed s) now later result
      then s\<lparr>ss_phase := Redirecting\<rparr> else s\<lparr>ss_phase := Finished\<rparr>)"

section \<open>All callbacks, and the calls that run at the same time\<close>

datatype callback =
    Timeout_claim action_request
  | Screening_reason string string string string rat
  | Acknowledge intent_filter string rat
  | Owner_deadline string bool "rat option" rat
  | Urgent_claim string string rat
  | Store_token string string string "string option" rat
  | Redirect_finish string string "string option" rat
  | Release_fallback string string pyval rat
  | Confirm_stream string string string string rat
  | State_transition rat call_state
  | Poll_finish pydict rat

definition transition_callback :: "rat \<Rightarrow> call_state \<Rightarrow> node \<Rightarrow> node" where
  "transition_callback now t current =
     (case transition_txn now t current of Inl e \<Rightarrow> current | Inr r \<Rightarrow> fst r)"

fun run_callback :: "callback \<Rightarrow> node \<Rightarrow> node" where
  "run_callback (Timeout_claim rq) = (\<lambda>n. fst (reduce_active_call_action (rq\<lparr>rq_action := ''timeout''\<rparr>) n))"
| "run_callback (Screening_reason sid c ws reason now) = screening_reason_txn sid c ws reason now"
| "run_callback (Acknowledge f c now) = acknowledge_txn f c now"
| "run_callback (Owner_deadline c u dl now) = owner_deadline_txn c u dl now"
| "run_callback (Urgent_claim c nonce now) = urgent_claim_txn c nonce now"
| "run_callback (Store_token c nonce ws conf now) = store_token_txn c nonce ws conf now"
| "run_callback (Redirect_finish c nonce conf now) = redirect_finish_txn c nonce conf now"
| "run_callback (Release_fallback c conf nonce now) = release_fallback_txn c conf nonce now"
| "run_callback (Confirm_stream sid c ws nonce now) = confirm_stream_txn sid c ws nonce now"
| "run_callback (State_transition now t) = transition_callback now t"
| "run_callback (Poll_finish expected now) = finish_txn expected ''accepted'' now"

record world =
  w_node :: node
  w_sessions :: "nat \<rightharpoonup> session"
  w_redirects :: "string list"

text \<open>
  \<open>w_redirects\<close> logs the nonces of the redirects sent to the provider. A step is one phase of
  one request (with the failures the code provides for: an exception while preparing, a lost
  answer of the marking or the releasing transaction, a redirect that raises), one callback of
  another party, or the end of the call.
\<close>

inductive world_step :: "world \<Rightarrow> world \<Rightarrow> bool" where
  start: "w_sessions w i = None \<Longrightarrow>
     (\<And>j s. w_sessions w j = Some s \<Longrightarrow> rq_nonce (ss_request s) \<noteq> rq_nonce rq) \<Longrightarrow>
     world_step w (w\<lparr>w_sessions := (w_sessions w)(i \<mapsto>
       \<lparr>ss_request = rq, ss_committed = Map.empty, ss_phase = Claiming\<rparr>)\<rparr>)"
| claim: "w_sessions w i = Some s \<Longrightarrow> ss_phase s = Claiming \<Longrightarrow>
     n = fst (reduce_active_call_action (ss_request s) (w_node w)) \<Longrightarrow>
     world_step w (w\<lparr>w_node := n, w_sessions := (w_sessions w)(i \<mapsto> after_claim later n s)\<rparr>)"
| prepare: "w_sessions w i = Some s \<Longrightarrow> ss_phase s = Preparing \<Longrightarrow>
     world_step w (w\<lparr>w_sessions := (w_sessions w)(i \<mapsto> after_prepare now (w_node w) s)\<rparr>)"
| prepare_fails: "w_sessions w i = Some s \<Longrightarrow> ss_phase s \<in> {Preparing, Marking} \<Longrightarrow>
     world_step w (w\<lparr>w_sessions := (w_sessions w)(i \<mapsto> s\<lparr>ss_phase := Releasing\<rparr>)\<rparr>)"
| mark: "w_sessions w i = Some s \<Longrightarrow> ss_phase s = Marking \<Longrightarrow>
     n = mark_redirect_txn (ss_committed s) now (w_node w) \<Longrightarrow>
     world_step w (w\<lparr>w_node := n, w_sessions := (w_sessions w)(i \<mapsto> after_mark now later n s)\<rparr>)"
| mark_lost: "w_sessions w i = Some s \<Longrightarrow> ss_phase s = Marking \<Longrightarrow>
     world_step w (w\<lparr>w_node := mark_redirect_txn (ss_committed s) now (w_node w),
       w_sessions := (w_sessions w)(i \<mapsto> s\<lparr>ss_phase := Releasing\<rparr>)\<rparr>)"
| release: "w_sessions w i = Some s \<Longrightarrow> ss_phase s = Releasing \<Longrightarrow>
     n \<in> {w_node w, release_preparation_txn (ss_committed s) now (w_node w)} \<Longrightarrow>
     world_step w (w\<lparr>w_node := n, w_sessions := (w_sessions w)(i \<mapsto> s\<lparr>ss_phase := Finished\<rparr>)\<rparr>)"
| redirect: "w_sessions w i = Some s \<Longrightarrow> ss_phase s = Redirecting \<Longrightarrow>
     target \<in> {''accepted'', ''uncertain''} \<Longrightarrow>
     world_step w (w\<lparr>w_sessions := (w_sessions w)(i \<mapsto> s\<lparr>ss_phase := Finishing target\<rparr>),
       w_redirects := rq_nonce (ss_request s) # w_redirects w\<rparr>)"
| finish: "w_sessions w i = Some s \<Longrightarrow> ss_phase s = Finishing target \<Longrightarrow>
     n \<in> {w_node w, finish_txn (ss_committed s) target now (w_node w)} \<Longrightarrow>
     world_step w (w\<lparr>w_node := n, w_sessions := (w_sessions w)(i \<mapsto> s\<lparr>ss_phase := Finished\<rparr>)\<rparr>)"
| other: "world_step w (w\<lparr>w_node := run_callback cb (w_node w)\<rparr>)"
| ended: "world_step w (w\<lparr>w_node := None\<rparr>)"

text \<open>A call starts with a record nobody has acted on, no request and no redirect.\<close>

inductive reachable :: "world \<Rightarrow> bool" where
  initial: "(\<And>d. n = Some d \<Longrightarrow> \<not> truthy (pget d ''owner_action'')) \<Longrightarrow>
     reachable \<lparr>w_node = n, w_sessions = Map.empty, w_redirects = []\<rparr>"
| step: "reachable w \<Longrightarrow> world_step w w' \<Longrightarrow> reachable w'"


section \<open>Interfaces of the callbacks\<close>

text \<open>
  What every callback owes the transaction: nothing is created from nothing and no record is
  turned into nothing, so the transaction commits the callback's own result and never raises.
\<close>

locale rtdb_callback =
  fixes txn :: "node \<Rightarrow> node"
  assumes absent: "txn None = None"
    and present: "txn (Some d) \<noteq> None"
begin

lemma commits: "run_rtdb_transaction txn current = Inr (txn current)"
  using present by (cases current) (auto simp: run_rtdb_transaction_def absent split: option.splits)

end

text \<open>The keys that say who has taken the call.\<close>

definition GUARD_KEYS :: "string list" where
  "GUARD_KEYS = CLAIM_KEYS @ [''accepted'', ''redirect_started_at'']"

text \<open>The owner has picked up under this nonce and the redirect may already be on its way.\<close>

definition redirected :: "string \<Rightarrow> pydict \<Rightarrow> bool" where
  "redirected nonce d = (pget d ''owner_action'' = PStr ''accept'' \<and> pget d ''claim_nonce'' = PStr nonce \<and>
     pget d ''accepted'' = PBool True \<and> pget d ''redirect_started_at'' \<noteq> PNone)"

locale redirect_keeper = rtdb_callback +
  assumes keeps_redirect: "redirected nonce d \<Longrightarrow> txn (Some d) = Some d' \<Longrightarrow> redirected nonce d'"

locale claim_keeper = redirect_keeper +
  assumes keeps_claim: "truthy (pget d ''owner_action'') \<Longrightarrow> txn (Some d) = Some d' \<Longrightarrow>
     k \<in> set CLAIM_KEYS \<Longrightarrow> pget d' k = pget d k"

text \<open>
  Two ways to keep both: never write the keys that say who has taken the call, or leave a
  record with an owner action alone.
\<close>

locale framed_callback = rtdb_callback +
  assumes frame: "txn (Some d) = Some d' \<Longrightarrow> k \<in> set GUARD_KEYS \<Longrightarrow> pget d' k = pget d k"

sublocale framed_callback \<subseteq> claim_keeper
  by unfold_locales (auto simp: redirected_def GUARD_KEYS_def CLAIM_KEYS_def dest: frame)

locale undecided_callback = rtdb_callback +
  assumes only_undecided: "truthy (pget d ''owner_action'') \<Longrightarrow> txn (Some d) = Some d"

sublocale undecided_callback \<subseteq> claim_keeper
  by unfold_locales (auto simp: redirected_def only_undecided)

lemmas guard_keys = GUARD_KEYS_def CLAIM_KEYS_def

interpretation reduce_cb: undecided_callback "\<lambda>n. fst (reduce_active_call_action rq n)" for rq
  by unfold_locales (auto simp: reduce_active_call_action_def live_record_def)

interpretation screening_cb: framed_callback "screening_reason_txn sid c ws reason now"
  for sid c ws reason now
  by unfold_locales (auto simp: screening_reason_txn_def screening_matches_def live_record_def guard_keys
      split: if_splits)

interpretation finish_cb: framed_callback "finish_txn expected target now" for expected target now
  by unfold_locales (auto simp: finish_txn_def guard_keys split: if_splits)

interpretation ack_cb: framed_callback "acknowledge_txn f c now" for f c now
  by unfold_locales (auto simp: acknowledge_txn_def message_intent_from_record_def guard_keys split: if_splits)

interpretation deadline_cb: framed_callback "owner_deadline_txn c urgent deadline now"
  for c urgent deadline now
  by unfold_locales (auto simp: owner_deadline_txn_def Let_def guard_keys split: if_splits)

interpretation urgent_cb: framed_callback "urgent_claim_txn c nonce now" for c nonce now
  by unfold_locales (auto simp: urgent_claim_txn_def guard_keys split: if_splits option.splits)

interpretation store_token_cb: framed_callback "store_token_txn c nonce ws conf now"
  for c nonce ws conf now
  by unfold_locales (auto simp: store_token_txn_def guard_keys split: if_splits)

interpretation redirect_finish_cb: framed_callback "redirect_finish_txn c nonce conf now"
  for c nonce conf now
  by unfold_locales (auto simp: redirect_finish_txn_def guard_keys split: if_splits)

interpretation release_fallback_cb: framed_callback "release_fallback_txn c conf nonce now"
  for c conf nonce now
  by unfold_locales (auto simp: release_fallback_txn_def guard_keys split: if_splits)

interpretation confirm_cb: framed_callback "confirm_stream_txn sid c ws nonce now"
  for sid c ws nonce now
  by unfold_locales (auto simp: confirm_stream_txn_def guard_keys split: if_splits)

interpretation transition_cb: framed_callback "transition_callback now t" for now t
  by unfold_locales
     (auto simp: transition_callback_def transition_txn_def ebind_def Let_def guard_keys
       split: sum.splits if_splits)

interpretation mark_cb: claim_keeper "mark_redirect_txn expected now" for expected now
  by unfold_locales (auto simp: mark_redirect_txn_def redirected_def guard_keys split: if_splits)

interpretation release_cb: redirect_keeper "release_preparation_txn expected now" for expected now
  by unfold_locales (auto simp: release_preparation_txn_def redirected_def split: if_splits)

interpretation callback_cb: claim_keeper "run_callback cb" for cb
proof (cases cb)
  case (Timeout_claim rq)
  then show "claim_keeper (run_callback cb)"
    by (simp add: reduce_cb.claim_keeper_axioms)
next
  case (Screening_reason x1 x2 x3 x4 x5)
  then show "claim_keeper (run_callback cb)" by (simp add: screening_cb.claim_keeper_axioms)
next
  case (Acknowledge x1 x2 x3)
  then show "claim_keeper (run_callback cb)" by (simp add: ack_cb.claim_keeper_axioms)
next
  case (Owner_deadline x1 x2 x3 x4)
  then show "claim_keeper (run_callback cb)" by (simp add: deadline_cb.claim_keeper_axioms)
next
  case (Urgent_claim x1 x2 x3)
  then show "claim_keeper (run_callback cb)" by (simp add: urgent_cb.claim_keeper_axioms)
next
  case (Store_token x1 x2 x3 x4 x5)
  then show "claim_keeper (run_callback cb)" by (simp add: store_token_cb.claim_keeper_axioms)
next
  case (Redirect_finish x1 x2 x3 x4)
  then show "claim_keeper (run_callback cb)" by (simp add: redirect_finish_cb.claim_keeper_axioms)
next
  case (Release_fallback x1 x2 x3 x4)
  then show "claim_keeper (run_callback cb)" by (simp add: release_fallback_cb.claim_keeper_axioms)
next
  case (Confirm_stream x1 x2 x3 x4 x5)
  then show "claim_keeper (run_callback cb)" by (simp add: confirm_cb.claim_keeper_axioms)
next
  case (State_transition x1 x2)
  then show "claim_keeper (run_callback cb)" by (simp add: transition_cb.claim_keeper_axioms)
next
  case (Poll_finish x1 x2)
  then show "claim_keeper (run_callback cb)" by (simp add: finish_cb.claim_keeper_axioms)
qed


section \<open>The invariant of concurrent requests\<close>

definition node_redirected :: "string \<Rightarrow> node \<Rightarrow> bool" where
  "node_redirected nonce n = (case n of None \<Rightarrow> True | Some d \<Rightarrow> redirected nonce d)"

context redirect_keeper begin

lemma keeps_node_redirected:
  "node_redirected nonce n \<Longrightarrow> node_redirected nonce (txn n)"
  using absent present keeps_redirect by (cases n; cases "txn n") (auto simp: node_redirected_def)

end

lemmas keeps_node_redirected =
  reduce_cb.keeps_node_redirected finish_cb.keeps_node_redirected
  mark_cb.keeps_node_redirected release_cb.keeps_node_redirected callback_cb.keeps_node_redirected

text \<open>
  A nonce is spent once its request may redirect or has redirected. The invariant: nonces tell
  requests apart; a request past the claim holds its own pickup claim; a spent nonce is the one
  the record (while it exists) is redirected under, there is at most one of them, and a logged
  redirect belongs to a request that is past redirecting.
\<close>

definition redirecting_under :: "(nat \<rightharpoonup> session) \<Rightarrow> string \<Rightarrow> bool" where
  "redirecting_under ss n =
     (\<exists>i s. ss i = Some s \<and> ss_phase s = Redirecting \<and> rq_nonce (ss_request s) = n)"

definition spent :: "world \<Rightarrow> string \<Rightarrow> bool" where
  "spent w n = (n \<in> set (w_redirects w) \<or> redirecting_under (w_sessions w) n)"

definition own_claim :: "session \<Rightarrow> bool" where
  "own_claim s = (pget (ss_committed s) ''owner_action'' = PStr ''accept'' \<and>
     pget (ss_committed s) ''claim_nonce'' = PStr (rq_nonce (ss_request s)))"

definition past_redirect :: "session \<Rightarrow> bool" where
  "past_redirect s = (ss_phase s = Finished \<or> (\<exists>t. ss_phase s = Finishing t))"

definition nonces_distinct :: "(nat \<rightharpoonup> session) \<Rightarrow> bool" where
  "nonces_distinct ss = (\<forall>i j s t. ss i = Some s \<longrightarrow> ss j = Some t \<longrightarrow>
     rq_nonce (ss_request s) = rq_nonce (ss_request t) \<longrightarrow> i = j)"

definition claims_owned :: "(nat \<rightharpoonup> session) \<Rightarrow> bool" where
  "claims_owned ss = (\<forall>i s. ss i = Some s \<longrightarrow> ss_phase s \<in> {Preparing, Marking} \<longrightarrow> own_claim s)"

definition log_settled :: "world \<Rightarrow> bool" where
  "log_settled w = (\<forall>n \<in> set (w_redirects w). \<exists>j t. w_sessions w j = Some t \<and>
     rq_nonce (ss_request t) = n \<and> past_redirect t)"

definition world_inv :: "world \<Rightarrow> bool" where
  "world_inv w = (nonces_distinct (w_sessions w) \<and> claims_owned (w_sessions w) \<and> log_settled w \<and>
     (\<forall>n. spent w n \<longrightarrow> node_redirected n (w_node w)) \<and>
     (\<forall>m n. spent w m \<longrightarrow> spent w n \<longrightarrow> m = n) \<and>
     length (w_redirects w) \<le> 1)"

lemma redirecting_under_upd:
  assumes "ss_phase s' \<noteq> Redirecting" and "\<And>s. ss i = Some s \<Longrightarrow> ss_phase s \<noteq> Redirecting"
  shows "redirecting_under (ss(i \<mapsto> s')) n = redirecting_under ss n"
proof
  assume "redirecting_under (ss(i \<mapsto> s')) n"
  then obtain j t where "(ss(i \<mapsto> s')) j = Some t" "ss_phase t = Redirecting" "rq_nonce (ss_request t) = n"
    by (auto simp: redirecting_under_def)
  with assms(1) show "redirecting_under ss n"
    unfolding redirecting_under_def by (metis fun_upd_apply option.inject)
next
  assume "redirecting_under ss n"
  then obtain j t where "ss j = Some t" "ss_phase t = Redirecting" "rq_nonce (ss_request t) = n"
    by (auto simp: redirecting_under_def)
  with assms(2) show "redirecting_under (ss(i \<mapsto> s')) n"
    unfolding redirecting_under_def by (metis fun_upd_apply)
qed

lemma nonces_distinctD:
  "nonces_distinct ss \<Longrightarrow> ss i = Some s \<Longrightarrow> ss j = Some t \<Longrightarrow>
     rq_nonce (ss_request s) = rq_nonce (ss_request t) \<Longrightarrow> i = j"
  by (simp add: nonces_distinct_def)

lemma nonces_distinct_upd:
  assumes "nonces_distinct ss" and "ss i = Some s" and "ss_request s' = ss_request s"
  shows "nonces_distinct (ss(i \<mapsto> s'))"
  unfolding nonces_distinct_def
proof (intro allI impI)
  fix j k t u
  assume jk: "(ss(i \<mapsto> s')) j = Some t" "(ss(i \<mapsto> s')) k = Some u"
    and eq: "rq_nonce (ss_request t) = rq_nonce (ss_request u)"
  from jk(1) assms(2,3) obtain t' where t': "ss j = Some t'" "ss_request t' = ss_request t"
    by (cases "j = i") auto
  from jk(2) assms(2,3) obtain u' where u': "ss k = Some u'" "ss_request u' = ss_request u"
    by (cases "k = i") auto
  show "j = k" using nonces_distinctD [OF assms(1) t'(1) u'(1)] t' u' eq by simp
qed

lemma claims_owned_upd:
  assumes "claims_owned ss" and "ss_phase s' \<in> {Preparing, Marking} \<Longrightarrow> own_claim s'"
  shows "claims_owned (ss(i \<mapsto> s'))"
  using assms by (simp add: claims_owned_def)

lemma log_settledD:
  assumes "log_settled w" and "n \<in> set (w_redirects w)"
  obtains j t where "w_sessions w j = Some t" "rq_nonce (ss_request t) = n" "past_redirect t"
  using assms by (auto simp: log_settled_def)

lemma log_settled_upd:
  assumes "log_settled w" and "w_sessions w i = Some s" and "ss_request s' = ss_request s"
    and "past_redirect s \<Longrightarrow> past_redirect s'"
  shows "log_settled (w\<lparr>w_node := n, w_sessions := (w_sessions w)(i \<mapsto> s')\<rparr>)"
  unfolding log_settled_def
proof
  fix m
  assume "m \<in> set (w_redirects (w\<lparr>w_node := n, w_sessions := (w_sessions w)(i \<mapsto> s')\<rparr>))"
  then have "m \<in> set (w_redirects w)" by simp
  with assms(1) obtain j t where "w_sessions w j = Some t" "rq_nonce (ss_request t) = m" "past_redirect t"
    by (rule log_settledD)
  with assms(2-4) show "\<exists>j t. w_sessions (w\<lparr>w_node := n, w_sessions := (w_sessions w)(i \<mapsto> s')\<rparr>) j = Some t \<and>
      rq_nonce (ss_request t) = m \<and> past_redirect t"
    by (intro exI [of _ j] exI [of _ "if j = i then s' else t"]) auto
qed

text \<open>A phase change of one request that neither redirects nor leaves the redirecting phase.\<close>

lemma inv_phase_step:
  assumes inv: "world_inv w" and i: "w_sessions w i = Some s"
    and rq: "ss_request s' = ss_request s"
    and own: "ss_phase s' \<in> {Preparing, Marking} \<Longrightarrow> own_claim s'"
    and cold: "ss_phase s \<noteq> Redirecting" "ss_phase s' \<noteq> Redirecting"
    and past: "past_redirect s \<Longrightarrow> past_redirect s'"
    and node: "\<And>m. node_redirected m (w_node w) \<Longrightarrow> node_redirected m n"
  shows "world_inv (w\<lparr>w_node := n, w_sessions := (w_sessions w)(i \<mapsto> s')\<rparr>)"
proof -
  let ?w = "w\<lparr>w_node := n, w_sessions := (w_sessions w)(i \<mapsto> s')\<rparr>"
  have "redirecting_under ((w_sessions w)(i \<mapsto> s')) m = redirecting_under (w_sessions w) m" for m
    by (rule redirecting_under_upd) (use i cold in auto)
  then have sp: "spent ?w m \<longleftrightarrow> spent w m" for m
    by (simp add: spent_def)
  from inv have parts: "nonces_distinct (w_sessions w)" "claims_owned (w_sessions w)" "log_settled w"
    by (simp_all add: world_inv_def)
  have "nonces_distinct (w_sessions ?w)"
    using nonces_distinct_upd [OF parts(1) i rq] by simp
  moreover have "claims_owned (w_sessions ?w)"
    using claims_owned_upd [OF parts(2) own] by simp
  moreover have "log_settled ?w"
    by (rule log_settled_upd [OF parts(3) i rq past])
  moreover have "\<forall>m. spent ?w m \<longrightarrow> node_redirected m n"
    using inv node by (simp add: world_inv_def sp)
  ultimately show ?thesis
    using inv unfolding world_inv_def sp by simp
qed

lemma inv_node_step:
  assumes "world_inv w" and "\<And>m. node_redirected m (w_node w) \<Longrightarrow> node_redirected m n"
  shows "world_inv (w\<lparr>w_node := n\<rparr>)"
  using assms by (auto simp: world_inv_def spent_def log_settled_def)

lemma mark_ok_redirected:
  assumes "mark_redirect_ok (ss_committed s) now later n" and "own_claim s"
  shows "\<exists>d. n = Some d \<and> redirected (rq_nonce (ss_request s)) d"
  using assms
  by (auto simp: mark_redirect_ok_def same_claim_def own_claim_def redirected_def CLAIM_KEYS_def
      live_record_def split: option.splits)

text \<open>The step that matters: a marking that is confirmed makes its nonce the only spent one.\<close>

lemma inv_mark_step:
  assumes inv: "world_inv w" and i: "w_sessions w i = Some s" and ph: "ss_phase s = Marking"
    and n: "n = mark_redirect_txn (ss_committed s) now (w_node w)"
    and ok: "mark_redirect_ok (ss_committed s) now later n"
  shows "world_inv (w\<lparr>w_node := n, w_sessions := (w_sessions w)(i \<mapsto> s\<lparr>ss_phase := Redirecting\<rparr>)\<rparr>)"
proof -
  let ?w = "w\<lparr>w_node := n, w_sessions := (w_sessions w)(i \<mapsto> s\<lparr>ss_phase := Redirecting\<rparr>)\<rparr>"
  let ?nonce = "rq_nonce (ss_request s)"
  have "own_claim s" using inv i ph by (auto simp: world_inv_def claims_owned_def)
  with ok obtain d where d: "n = Some d" "redirected ?nonce d" using mark_ok_redirected by blast
  have dist: "nonces_distinct (w_sessions w)" and set: "log_settled w"
    using inv by (simp_all add: world_inv_def)
  have none: "\<not> spent w m" for m
  proof
    assume m: "spent w m"
    then have "node_redirected m (w_node w)" using inv by (simp add: world_inv_def)
    then have "node_redirected m n" unfolding n by (rule mark_cb.keeps_node_redirected)
    with d have m': "m = ?nonce" by (simp add: node_redirected_def redirected_def)
    from m have "\<exists>j t. w_sessions w j = Some t \<and> rq_nonce (ss_request t) = m \<and> ss_phase t \<noteq> Marking"
    proof (unfold spent_def, elim disjE)
      assume "m \<in> set (w_redirects w)"
      with set obtain j t where "w_sessions w j = Some t" "rq_nonce (ss_request t) = m" "past_redirect t"
        by (rule log_settledD)
      then show ?thesis by (intro exI [of _ j] exI [of _ t]) (auto simp: past_redirect_def)
    next
      assume "redirecting_under (w_sessions w) m"
      then obtain j t where "w_sessions w j = Some t" "ss_phase t = Redirecting" "rq_nonce (ss_request t) = m"
        by (auto simp: redirecting_under_def)
      then show ?thesis by (intro exI [of _ j] exI [of _ t]) simp
    qed
    then obtain j t where t: "w_sessions w j = Some t" "rq_nonce (ss_request t) = m" "ss_phase t \<noteq> Marking"
      by blast
    have "j = i" by (rule nonces_distinctD [OF dist t(1) i]) (simp add: t(2) m')
    with t i ph show False by simp
  qed
  have sp: "spent ?w m \<longleftrightarrow> m = ?nonce" for m
  proof
    assume "spent ?w m"
    then have "m \<in> set (w_redirects w) \<or> redirecting_under (w_sessions w) m \<or> m = ?nonce"
      by (auto simp: spent_def redirecting_under_def split: if_splits)
    with none show "m = ?nonce" by (auto simp: spent_def)
  next
    assume "m = ?nonce"
    then have "redirecting_under (w_sessions ?w) m"
      unfolding redirecting_under_def
      by (intro exI [of _ i] exI [of _ "s\<lparr>ss_phase := Redirecting\<rparr>"]) simp
    then show "spent ?w m" by (simp add: spent_def)
  qed
  have "nonces_distinct (w_sessions ?w)"
    using nonces_distinct_upd [OF dist i, of "s\<lparr>ss_phase := Redirecting\<rparr>"] by simp
  moreover have "claims_owned (w_sessions ?w)"
    using inv claims_owned_upd [of "w_sessions w" "s\<lparr>ss_phase := Redirecting\<rparr>" i]
    by (simp add: world_inv_def)
  moreover have "w_redirects w = []"
    using none by (cases "w_redirects w") (auto simp: spent_def)
  ultimately show ?thesis
    using d unfolding world_inv_def sp by (simp add: log_settled_def node_redirected_def)
qed

lemma inv_redirect_step:
  assumes inv: "world_inv w" and i: "w_sessions w i = Some s" and ph: "ss_phase s = Redirecting"
  shows "world_inv (w\<lparr>w_sessions := (w_sessions w)(i \<mapsto> s\<lparr>ss_phase := Finishing target\<rparr>),
           w_redirects := rq_nonce (ss_request s) # w_redirects w\<rparr>)"
proof -
  let ?n = "rq_nonce (ss_request s)"
  let ?w = "w\<lparr>w_sessions := (w_sessions w)(i \<mapsto> s\<lparr>ss_phase := Finishing target\<rparr>),
              w_redirects := ?n # w_redirects w\<rparr>"
  have dist: "nonces_distinct (w_sessions w)" and set: "log_settled w"
    using inv by (simp_all add: world_inv_def)
  have spent_n: "spent w ?n" using i ph by (auto simp: spent_def redirecting_under_def)
  have "w_redirects w = []"
  proof (cases "w_redirects w")
    case (Cons m ms)
    then have m: "m \<in> set (w_redirects w)" by simp
    then have m': "m = ?n" using inv spent_n by (auto simp: world_inv_def spent_def)
    from set m obtain j t where t: "w_sessions w j = Some t" "rq_nonce (ss_request t) = m" "past_redirect t"
      by (rule log_settledD)
    have "j = i" by (rule nonces_distinctD [OF dist t(1) i]) (simp add: t(2) m')
    with t i ph show ?thesis by (simp add: past_redirect_def)
  qed simp
  moreover have "spent ?w m \<Longrightarrow> spent w m" for m
    using spent_n by (auto simp: spent_def redirecting_under_def split: if_splits)
  moreover have "nonces_distinct (w_sessions ?w)"
    using nonces_distinct_upd [OF dist i, of "s\<lparr>ss_phase := Finishing target\<rparr>"] by simp
  moreover have "claims_owned (w_sessions ?w)"
    using inv claims_owned_upd [of "w_sessions w" "s\<lparr>ss_phase := Finishing target\<rparr>" i]
    by (simp add: world_inv_def)
  moreover have "log_settled ?w"
    using \<open>w_redirects w = []\<close>
    by (auto simp: log_settled_def past_redirect_def intro: exI [of _ i])
  ultimately show ?thesis
    using inv unfolding world_inv_def by simp
qed


lemma phase_simps [simp]:
  "ss_request (after_claim later n s) = ss_request s"
  "ss_request (after_prepare now n s) = ss_request s"
  "ss_request (after_mark now later n s) = ss_request s"
  by (auto simp: after_claim_def after_prepare_def after_mark_def split: sum.splits)

lemma after_claim_phase:
  "ss_phase (after_claim later n s) \<in> {Preparing, Finished}"
  "ss_phase (after_claim later n s) = Preparing \<Longrightarrow> own_claim (after_claim later n s)"
  by (auto simp: after_claim_def own_claim_def claim_result_def ebind_eq_Inr split: sum.splits if_splits)

lemma claims_ownedD:
  "world_inv w \<Longrightarrow> w_sessions w i = Some s \<Longrightarrow> ss_phase s \<in> {Preparing, Marking} \<Longrightarrow> own_claim s"
  by (auto simp: world_inv_def claims_owned_def)

lemma own_claim_phase [simp]: "own_claim (s\<lparr>ss_phase := p\<rparr>) = own_claim s"
  by (simp add: own_claim_def)

lemma inv_start_step:
  assumes inv: "world_inv w" and i: "w_sessions w i = None"
    and fresh: "\<And>j s. w_sessions w j = Some s \<Longrightarrow> rq_nonce (ss_request s) \<noteq> rq_nonce rq"
  shows "world_inv (w\<lparr>w_sessions := (w_sessions w)(i \<mapsto>
           \<lparr>ss_request = rq, ss_committed = Map.empty, ss_phase = Claiming\<rparr>)\<rparr>)"
proof -
  let ?s = "\<lparr>ss_request = rq, ss_committed = Map.empty, ss_phase = Claiming\<rparr>"
  let ?w = "w\<lparr>w_sessions := (w_sessions w)(i \<mapsto> ?s)\<rparr>"
  have "redirecting_under ((w_sessions w)(i \<mapsto> ?s)) m = redirecting_under (w_sessions w) m" for m
    by (rule redirecting_under_upd) (use i in auto)
  then have sp: "spent ?w m \<longleftrightarrow> spent w m" for m
    by (simp add: spent_def)
  from inv have parts: "nonces_distinct (w_sessions w)" "claims_owned (w_sessions w)" "log_settled w"
    by (simp_all add: world_inv_def)
  have "nonces_distinct (w_sessions ?w)"
    using parts(1) i fresh by (fastforce simp: nonces_distinct_def)
  moreover have "claims_owned (w_sessions ?w)"
    using claims_owned_upd [OF parts(2), of ?s i] by simp
  moreover have "log_settled ?w"
    unfolding log_settled_def
  proof
    fix m assume "m \<in> set (w_redirects ?w)"
    then have "m \<in> set (w_redirects w)" by simp
    with parts(3) obtain j t where "w_sessions w j = Some t" "rq_nonce (ss_request t) = m" "past_redirect t"
      by (rule log_settledD)
    with i show "\<exists>j t. w_sessions ?w j = Some t \<and> rq_nonce (ss_request t) = m \<and> past_redirect t"
      by (intro exI [of _ j] exI [of _ t]) auto
  qed
  ultimately show ?thesis
    using inv unfolding world_inv_def sp by simp
qed

lemma inv_step:
  assumes "world_step w w'" and inv: "world_inv w"
  shows "world_inv w'"
  using assms(1)
proof cases
  case (start i rq)
  then show ?thesis using inv inv_start_step by blast
next
  case (claim i s n later)
  then show ?thesis
    using after_claim_phase [of later n s] keeps_node_redirected(1)
    by (auto intro!: inv_phase_step [OF inv, of i s] simp: past_redirect_def)
next
  case (prepare i s now)
  have "world_inv (w\<lparr>w_node := w_node w, w_sessions := (w_sessions w)(i \<mapsto> after_prepare now (w_node w) s)\<rparr>)"
    using prepare claims_ownedD [OF inv prepare(2)]
    by (intro inv_phase_step [OF inv, of i s]) (auto simp: past_redirect_def after_prepare_def)
  then show ?thesis using prepare by simp
next
  case (prepare_fails i s)
  have "world_inv (w\<lparr>w_node := w_node w, w_sessions := (w_sessions w)(i \<mapsto> s\<lparr>ss_phase := Releasing\<rparr>)\<rparr>)"
    using prepare_fails by (intro inv_phase_step [OF inv, of i s]) (auto simp: past_redirect_def)
  then show ?thesis using prepare_fails by simp
next
  case (mark i s n now later)
  show ?thesis
  proof (cases "mark_redirect_ok (ss_committed s) now later n")
    case True
    then show ?thesis
      using inv_mark_step [OF inv mark(2,3,4) True] mark(1) by (simp add: after_mark_def)
  next
    case False
    then show ?thesis
      using mark keeps_node_redirected(3)
      by (auto intro!: inv_phase_step [OF inv, of i s] simp: past_redirect_def after_mark_def)
  qed
next
  case (mark_lost i s now)
  then show ?thesis
    using keeps_node_redirected(3)
    by (auto intro!: inv_phase_step [OF inv, of i s] simp: past_redirect_def)
next
  case (release i s n now)
  then show ?thesis
    using keeps_node_redirected(4)
    by (auto intro!: inv_phase_step [OF inv, of i s] simp: past_redirect_def)
next
  case (redirect i s target)
  then show ?thesis using inv_redirect_step [OF inv] by simp
next
  case (finish i s target n now)
  then show ?thesis
    using keeps_node_redirected(2)
    by (auto intro!: inv_phase_step [OF inv, of i s] simp: past_redirect_def)
next
  case (other cb)
  then show ?thesis
    using keeps_node_redirected(5) by (auto intro!: inv_node_step [OF inv])
next
  case ended
  then show ?thesis by (auto intro!: inv_node_step [OF inv] simp: node_redirected_def)
qed

lemma reachable_inv: "reachable w \<Longrightarrow> world_inv w"
proof (induction rule: reachable.induct)
  case (initial n)
  then show ?case
    by (simp add: world_inv_def nonces_distinct_def claims_owned_def log_settled_def spent_def
        redirecting_under_def)
next
  case (step w w')
  then show ?case by (blast intro: inv_step)
qed


section \<open>Lemmas on single callbacks\<close>

lemma live_recordD:
  "live_record n c now \<Longrightarrow> \<exists>d. n = Some d \<and> pget d ''contractor_id'' = c \<and> str_in (pget d ''state'') LIVE_STATES"
  by (auto simp: live_record_def split: option.splits)

lemma live_record_frame:
  assumes "\<And>k. k \<in> {''contractor_id'', ''state'', ''state_updated_at''} \<Longrightarrow> pget d' k = pget d k"
  shows "live_record (Some d') c now = live_record (Some d) c now"
  using assms by (simp add: live_record_def)

lemma reduce_claimed_iff:
  "snd (reduce_active_call_action rq n) = Claimed \<longleftrightarrow>
     (\<exists>d. n = Some d \<and> live_record n (PStr (rq_contractor rq)) (rq_now rq) \<and> undecided d \<and>
        \<not> str_in (pget d ''kevin_redirect_status'') REDIRECT_BUSY \<and>
        rq_action rq \<in> {''accept'', ''decline'', ''timeout''})"
  by (auto simp: reduce_active_call_action_def undecided_def live_record_def split: option.splits)

lemma reduce_claimed_result:
  "reduce_active_call_action rq (Some d) = (n, Claimed) \<Longrightarrow> n = Some (claim_update rq d)"
  by (auto simp: reduce_active_call_action_def split: if_splits)

lemma reduce_unclaimed: "snd (reduce_active_call_action rq n) \<noteq> Claimed \<Longrightarrow> fst (reduce_active_call_action rq n) = n"
  by (auto simp: reduce_active_call_action_def split: option.splits if_splits)

lemma claim_update_fields [simp]:
  "pget (claim_update rq d) ''owner_action'' = PStr (rq_action rq)"
  "pget (claim_update rq d) ''owner_operation_id'' = PStr (rq_operation rq)"
  "pget (claim_update rq d) ''claim_nonce'' = PStr (rq_nonce rq)"
  "pget (claim_update rq d) ''owner_action_status'' =
     PStr (if rq_action rq = ''accept'' then ''accepting'' else ''message_requested'')"
  "rq_action rq = ''accept'' \<Longrightarrow> pget (claim_update rq d) ''accepted'' = PBool False"
  "pget (claim_update rq d) ''redirect_started_at'' = pget d ''redirect_started_at''"
  by (simp_all only: claim_update_def Let_def pget_upd if_distrib [where f = "\<lambda>m. pget m _"] if_True refl)
    simp_all

text \<open>The keys a claim for pickup and its release may write.\<close>

definition BOOKKEEPING_KEYS :: "string list" where
  "BOOKKEEPING_KEYS = [''conference_name'', ''previous_conference_name'', ''accepted'',
     ''preparation_release_nonce'', ''owner_action'', ''owner_action_status'', ''owner_operation_id'',
     ''claim_nonce'', ''action_updated_at'', ''redirect_started_at'']"

lemma release_update_other: "k \<notin> set BOOKKEEPING_KEYS \<Longrightarrow> release_update e d k = d k"
  by (simp add: release_update_def BOOKKEEPING_KEYS_def)

lemma claim_update_other:
  assumes a: "rq_action rq = ''accept''" and k: "k \<notin> set BOOKKEEPING_KEYS"
  shows "claim_update rq d k = d k"
proof -
  have "k \<noteq> ''conference_name''" "k \<noteq> ''previous_conference_name''" "k \<noteq> ''accepted''"
    "k \<noteq> ''owner_action''" "k \<noteq> ''owner_action_status''" "k \<noteq> ''owner_operation_id''"
    "k \<noteq> ''claim_nonce''" "k \<noteq> ''action_updated_at''"
    using k unfolding BOOKKEEPING_KEYS_def by auto
  then show ?thesis
    unfolding claim_update_def Let_def a by (simp only: fun_upd_other if_True refl simp_thms)
qed

lemma release_update_fields [simp]:
  "pget (release_update e d) ''owner_action'' = PNone"
  "pget (release_update e d) ''accepted'' = PBool False"
  "pget_or (release_update e d) ''conference_name'' v0 = pget_or d ''previous_conference_name'' (PStr [])"
  by (simp_all only: release_update_def pget_upd pget_or_upd) simp_all

lemma claim_update_previous:
  "rq_action rq = ''accept'' \<Longrightarrow>
     pget_or (claim_update rq d) ''previous_conference_name'' v0 = pget_or d ''conference_name'' (PStr [])"
  by (simp only: claim_update_def Let_def pget_or_upd if_True refl) simp

text \<open>Action requests of any kind, one after the other, on one record.\<close>

definition decision_step :: "node \<Rightarrow> action_request \<Rightarrow> node \<times> bool" where
  "decision_step n rq = (fst (reduce_active_call_action rq n), snd (reduce_active_call_action rq n) = Claimed)"

interpretation decisions: reducer decision_step "\<lambda>n. n"
  by unfold_locales (simp add: decision_step_def reduce_unclaimed)

definition taken :: "node \<Rightarrow> bool" where
  "taken n = (case n of None \<Rightarrow> False | Some d \<Rightarrow> truthy (pget d ''owner_action''))"

lemma taken_stays: "taken n \<Longrightarrow> decision_step n rq = (n, False)"
  by (auto simp: taken_def decision_step_def reduce_active_call_action_def split: option.splits)

lemma taken_run: "taken n \<Longrightarrow> accepted_events decision_step n rqs = [] \<and> run_steps decision_step n rqs = n"
  by (induction rqs) (simp_all add: taken_stays)

lemma intent_needs_message_claim:
  assumes "message_intent_from_record f c now (Some d) = Some kvs"
  shows "live_record (Some d) c now \<and> \<not> truthy (pget d ''accepted'') \<and>
     str_in (pget d ''owner_action'') [''decline'', ''timeout'']"
  using assms by (auto simp: message_intent_from_record_def Let_def split: if_splits)

lemma urgent_nonce_kept:
  assumes "truthy (pget d ''urgency_escalated'')"
  shows "\<exists>d'. run_callback cb (Some d) = Some d' \<and> truthy (pget d' ''urgency_escalated'') \<and>
     pget d' ''urgency_claim_nonce'' = pget d ''urgency_claim_nonce''"
proof (cases cb)
  case (State_transition now t)
  with assms show ?thesis
    by (auto simp: transition_callback_def transition_txn_def ebind_def Let_def split: sum.splits)
qed (use assms in \<open>auto simp: reduce_active_call_action_def claim_update_def screening_reason_txn_def
    acknowledge_txn_def owner_deadline_txn_def urgent_claim_txn_def store_token_txn_def
    redirect_finish_txn_def release_fallback_txn_def confirm_stream_txn_def finish_txn_def Let_def\<close>)

text \<open>Repeated calls for the owner's deadline: each with its own urgency, request and time.\<close>

definition deadline_call :: "string \<Rightarrow> bool \<times> rat option \<times> rat \<Rightarrow> node \<Rightarrow> node" where
  "deadline_call c call n = owner_deadline_txn c (fst call) (fst (snd call)) (snd (snd call)) n"

definition sane_call :: "bool \<times> rat option \<times> rat \<Rightarrow> bool" where
  "sane_call call = (0 < snd (snd call) \<and> (\<forall>x. fst (snd call) = Some x \<longrightarrow> 0 < x))"

lemma deadline_call_mono:
  assumes "positive_finite (pget d ''owner_wait_deadline'') = Some x" and "sane_call call"
  shows "\<exists>d' x'. deadline_call c call (Some d) = Some d' \<and>
     positive_finite (pget d' ''owner_wait_deadline'') = Some x' \<and> x' \<le> x"
proof -
  have pos: "0 < requested_deadline (fst (snd call)) (snd (snd call))"
    using assms(2) by (auto simp: sane_call_def requested_deadline_def min_def split: option.splits)
  have "0 < x" using assms(1) by (auto simp: positive_finite_def split: option.splits if_splits)
  with pos assms(1) show ?thesis
    by (auto simp: deadline_call_def owner_deadline_txn_def Let_def positive_finite_def
        split: option.splits if_splits)
qed


section \<open>An execution for the witnesses\<close>

definition ex_record :: pydict where
  "ex_record = [''contractor_id'' \<mapsto> PStr ''c1'', ''state'' \<mapsto> PStr ''screening'',
     ''state_updated_at'' \<mapsto> PFloat (Fin 100), ''conference_name'' \<mapsto> PStr ''call'']"

definition ex_request :: action_request where
  "ex_request = \<lparr>rq_action = ''accept'', rq_contractor = ''c1'', rq_operation = ''op1'',
     rq_nonce = ''n1'', rq_conference = ''pickup'', rq_now = 101\<rparr>"

definition ex_claimed :: pydict where
  "ex_claimed = claim_update ex_request ex_record"

definition ex_marked :: pydict where
  "ex_marked = ex_claimed(''accepted'' \<mapsto> PBool True, ''redirect_started_at'' \<mapsto> PFloat (Fin 102))"

definition ex_session :: "pydict \<Rightarrow> phase \<Rightarrow> session" where
  "ex_session d p = \<lparr>ss_request = ex_request, ss_committed = d, ss_phase = p\<rparr>"

definition ex_world :: "pydict \<Rightarrow> pydict \<Rightarrow> phase \<Rightarrow> string list \<Rightarrow> world" where
  "ex_world d committed p sent =
     \<lparr>w_node = Some d, w_sessions = [0 \<mapsto> ex_session committed p], w_redirects = sent\<rparr>"

lemma ex_claimed_other: "k \<notin> set BOOKKEEPING_KEYS \<Longrightarrow> pget ex_claimed k = pget ex_record k"
  by (simp add: pget_def ex_claimed_def claim_update_other ex_request_def)

lemmas ex_defs = ex_record_def ex_request_def ex_marked_def
  live_record_def STALE_THRESHOLD_def LIVE_STATES_def DECISION_STATES_def py_strip_def py_space_def

lemma ex_claimed_fields [simp]:
  "pget ex_claimed ''owner_action'' = PStr ''accept''" "pget ex_claimed ''owner_operation_id'' = PStr ''op1''"
  "pget ex_claimed ''claim_nonce'' = PStr ''n1''" "pget ex_claimed ''owner_action_status'' = PStr ''accepting''"
  "pget ex_claimed ''contractor_id'' = PStr ''c1''" "pget ex_claimed ''state'' = PStr ''screening''"
  "pget ex_claimed ''state_updated_at'' = PFloat (Fin 100)"
proof -
  show "pget ex_claimed ''owner_action'' = PStr ''accept''" "pget ex_claimed ''owner_operation_id'' = PStr ''op1''"
    "pget ex_claimed ''claim_nonce'' = PStr ''n1''" "pget ex_claimed ''owner_action_status'' = PStr ''accepting''"
    by (simp_all add: ex_claimed_def) (simp_all add: ex_request_def)
  show "pget ex_claimed ''contractor_id'' = PStr ''c1''" "pget ex_claimed ''state'' = PStr ''screening''"
    "pget ex_claimed ''state_updated_at'' = PFloat (Fin 100)"
    by (simp_all add: ex_claimed_other BOOKKEEPING_KEYS_def) (simp_all add: ex_record_def)
qed

lemma ex_live: "live_record (Some ex_record) (PStr ''c1'') 101"
  "live_record (Some ex_claimed) (PStr ''c1'') 102" "live_record (Some ex_marked) (PStr ''c1'') 102"
  by (simp_all add: ex_defs)

lemma ex_same_claim: "same_claim (Some ex_claimed) ex_claimed 102" "same_claim (Some ex_marked) ex_claimed 102"
  by (simp_all add: same_claim_def CLAIM_KEYS_def ex_defs)

lemma ex_undecided: "undecided ex_record" "\<not> str_in (pget ex_record ''kevin_redirect_status'') REDIRECT_BUSY"
  by (simp_all add: undecided_def ex_defs)

lemma ex_claim: "reduce_active_call_action ex_request (Some ex_record) = (Some ex_claimed, Claimed)"
proof -
  have "snd (reduce_active_call_action ex_request (Some ex_record)) = Claimed"
    unfolding reduce_claimed_iff using ex_live(1) ex_undecided by (simp add: ex_request_def)
  then show ?thesis
    using reduce_claimed_result [of ex_request ex_record] by (metis ex_claimed_def prod.collapse)
qed

lemma ex_run: "reachable (ex_world ex_marked ex_claimed (Finishing ''accepted'') [''n1''])"
proof -
  let ?w0 = "\<lparr>w_node = Some ex_record, w_sessions = Map.empty, w_redirects = []\<rparr>"
  have "reachable ?w0" by (rule reachable.initial) (simp add: ex_record_def)
  moreover have "world_step ?w0 (ex_world ex_record Map.empty Claiming [])"
    using world_step.start [of ?w0 0 ex_request] by (simp add: ex_world_def ex_session_def)
  ultimately have r: "reachable (ex_world ex_record Map.empty Claiming [])" by (rule reachable.step)
  have "after_claim 102 (Some ex_claimed) (ex_session Map.empty Claiming) = ex_session ex_claimed Preparing"
    using ex_live(2)
    by (simp add: after_claim_def claim_result_def require_live_def ex_session_def ex_request_def)
  then have "world_step (ex_world ex_record Map.empty Claiming []) (ex_world ex_claimed ex_claimed Preparing [])"
    using world_step.claim [of "ex_world ex_record Map.empty Claiming []" 0 "ex_session Map.empty Claiming"
        "Some ex_claimed" 102]
    by (simp add: ex_world_def ex_session_def ex_claim)
  with r have r: "reachable (ex_world ex_claimed ex_claimed Preparing [])" by (rule reachable.step)
  have "after_prepare 102 (Some ex_claimed) (ex_session ex_claimed Preparing) = ex_session ex_claimed Marking"
    using ex_same_claim(1) by (simp add: after_prepare_def ex_session_def ex_request_def)
  then have "world_step (ex_world ex_claimed ex_claimed Preparing []) (ex_world ex_claimed ex_claimed Marking [])"
    using world_step.prepare [of "ex_world ex_claimed ex_claimed Preparing []" 0 "ex_session ex_claimed Preparing" 102]
    by (simp add: ex_world_def ex_session_def)
  with r have r: "reachable (ex_world ex_claimed ex_claimed Marking [])" by (rule reachable.step)
  have m: "mark_redirect_txn ex_claimed 102 (Some ex_claimed) = Some ex_marked"
    using ex_same_claim(1) by (simp add: mark_redirect_txn_def ex_marked_def)
  have "after_mark 102 102 (Some ex_marked) (ex_session ex_claimed Marking) = ex_session ex_claimed Redirecting"
    using ex_same_claim(2) by (simp add: after_mark_def mark_redirect_ok_def ex_session_def ex_marked_def)
  then have "world_step (ex_world ex_claimed ex_claimed Marking []) (ex_world ex_marked ex_claimed Redirecting [])"
    using world_step.mark [of "ex_world ex_claimed ex_claimed Marking []" 0 "ex_session ex_claimed Marking"
        "Some ex_marked" 102 102] m
    by (simp add: ex_world_def ex_session_def)
  with r have r: "reachable (ex_world ex_marked ex_claimed Redirecting [])" by (rule reachable.step)
  have "world_step (ex_world ex_marked ex_claimed Redirecting [])
      (ex_world ex_marked ex_claimed (Finishing ''accepted'') [''n1''])"
    using world_step.redirect [of "ex_world ex_marked ex_claimed Redirecting []" 0
        "ex_session ex_claimed Redirecting" "''accepted''"]
    by (simp add: ex_world_def ex_session_def ex_request_def)
  with r show ?thesis by (rule reachable.step)
qed

section \<open>Properties\<close>

text \<open>
  C2: however pickup requests, declines, timeouts, status polls, urgent claims, fallback
  redirects, state transitions and the end of the call interleave, and whatever fails on the
  way, at most one redirect of the caller to the owner is ever sent for a call.
\<close>

theorem at_most_one_pickup_redirect:
  assumes "reachable w"
  shows "length (w_redirects w) \<le> 1"
  using reachable_inv [OF assms] by (simp add: world_inv_def)

theorem at_most_one_pickup_redirect_witness:
  "length (w_redirects (ex_world ex_marked ex_claimed (Finishing ''accepted'') [''n1''])) \<le> 1"
  by (rule at_most_one_pickup_redirect [OF ex_run])

text \<open>
  pickup, decline and timeout share one decision: of any sequence of action requests on a
  record at most one is accepted, and the record then carries exactly that request's action,
  operation and nonce; if none is accepted the record is untouched.
\<close>

theorem one_decision_wins:
  "accepted_events decision_step n rqs = [] \<and> run_steps decision_step n rqs = n \<or>
   (\<exists>rq d. accepted_events decision_step n rqs = [rq] \<and> rq \<in> set rqs \<and> n = Some d \<and>
      run_steps decision_step n rqs = Some (claim_update rq d))"
proof (induction rqs)
  case Nil
  then show ?case by simp
next
  case (Cons rq rqs)
  show ?case
  proof (cases "snd (reduce_active_call_action rq n) = Claimed")
    case True
    then obtain d where d: "n = Some d" "rq_action rq \<in> {''accept'', ''decline'', ''timeout''}"
      by (auto simp: reduce_claimed_iff)
    with True have f: "fst (reduce_active_call_action rq n) = Some (claim_update rq d)"
      using reduce_claimed_result [of rq d] by (metis prod.collapse)
    have "taken (Some (claim_update rq d))" using d(2) by (auto simp: taken_def)
    from taken_run [OF this, of rqs] have rest:
        "accepted_events decision_step (Some (claim_update rq d)) rqs = []"
        "run_steps decision_step (Some (claim_update rq d)) rqs = Some (claim_update rq d)"
      by simp_all
    have "decision_step n rq = (Some (claim_update rq d), True)"
      using True d f by (simp add: decision_step_def)
    with rest d(1) show ?thesis by simp
  next
    case False
    then have "decision_step n rq = (n, False)" by (simp add: decision_step_def reduce_unclaimed)
    with Cons.IH show ?thesis by auto
  qed
qed

text \<open>
  every callback of the arbitration respects the database's contract: its transaction
  commits exactly the callback's value and cannot delete a record or raise.
\<close>

theorem callbacks_commit:
  "run_rtdb_transaction (run_callback cb) n = Inr (run_callback cb n) \<and>
   run_rtdb_transaction (mark_redirect_txn expected now) n = Inr (mark_redirect_txn expected now n) \<and>
   run_rtdb_transaction (release_preparation_txn expected now) n = Inr (release_preparation_txn expected now n) \<and>
   run_rtdb_transaction (\<lambda>n. fst (reduce_active_call_action rq n)) n = Inr (fst (reduce_active_call_action rq n))"
  by (simp add: callback_cb.commits mark_cb.commits release_cb.commits reduce_cb.commits)

text \<open>
  a claimed call stays claimed: no callback of another party changes the action, the
  operation, the nonce or the conference that a pending owner action put on the record.
\<close>

theorem claim_survives_callbacks:
  assumes "truthy (pget d ''owner_action'')"
  shows "\<exists>d'. fold run_callback cbs (Some d) = Some d' \<and> (\<forall>k \<in> set CLAIM_KEYS. pget d' k = pget d k)"
  using assms
proof (induction cbs arbitrary: d)
  case Nil
  then show ?case by simp
next
  case (Cons cb cbs)
  obtain d1 where d1: "run_callback cb (Some d) = Some d1"
    using callback_cb.present [of cb d] by auto
  have keep: "\<forall>k \<in> set CLAIM_KEYS. pget d1 k = pget d k"
    using callback_cb.keeps_claim [OF Cons.prems d1] by blast
  then have "truthy (pget d1 ''owner_action'')" using Cons.prems by (simp add: CLAIM_KEYS_def)
  from Cons.IH [OF this] keep d1 show ?case by auto
qed

theorem claim_survives_callbacks_witness:
  "\<exists>d'. fold run_callback [State_transition 105 PICKUP_RINGING,
        Timeout_claim (ex_request\<lparr>rq_nonce := ''n2''\<rparr>)] (Some ex_claimed) = Some d' \<and>
     (\<forall>k \<in> set CLAIM_KEYS. pget d' k = pget ex_claimed k)"
  by (rule claim_survives_callbacks) (simp add: ex_claimed_def ex_request_def)

text \<open>
  urgency escalates once: after the first urgent claim on a call, no sequence of callbacks,
  further urgent claims included, changes the nonce the escalation was claimed under.
\<close>

theorem urgent_escalation_once:
  assumes "truthy (pget d ''urgency_escalated'')"
  shows "\<exists>d'. fold run_callback cbs (Some d) = Some d' \<and>
     pget d' ''urgency_claim_nonce'' = pget d ''urgency_claim_nonce''"
  using assms
proof (induction cbs arbitrary: d)
  case Nil
  then show ?case by simp
next
  case (Cons cb cbs)
  with urgent_nonce_kept [OF Cons.prems, of cb] show ?case by fastforce
qed

theorem urgent_escalation_once_witness:
  "\<exists>d'. fold run_callback [Urgent_claim ''c1'' ''u2'' 110, Owner_deadline ''c1'' True None 111]
       (Some (ex_record(''urgency_escalated'' \<mapsto> PBool True, ''urgency_claim_nonce'' \<mapsto> PStr ''u1''))) = Some d' \<and>
     pget d' ''urgency_claim_nonce'' =
       pget (ex_record(''urgency_escalated'' \<mapsto> PBool True, ''urgency_claim_nonce'' \<mapsto> PStr ''u1''))
         ''urgency_claim_nonce''"
  by (rule urgent_escalation_once) simp


text \<open>
  repeated holds and urgency never extend the owner's wait: once a deadline is stored, any
  further sequence of calls for a deadline leaves one that is no later.
\<close>

theorem deadline_never_extended:
  assumes "positive_finite (pget d ''owner_wait_deadline'') = Some x" and "\<forall>call \<in> set calls. sane_call call"
  shows "\<exists>d' x'. fold (deadline_call c) calls (Some d) = Some d' \<and>
     positive_finite (pget d' ''owner_wait_deadline'') = Some x' \<and> x' \<le> x"
  using assms
proof (induction calls arbitrary: d x)
  case Nil
  then show ?case by auto
next
  case (Cons call calls)
  from Cons.prems(2) have "sane_call call" by simp
  with Cons.prems(1) obtain d1 x1 where d1: "deadline_call c call (Some d) = Some d1"
      "positive_finite (pget d1 ''owner_wait_deadline'') = Some x1" "x1 \<le> x"
    using deadline_call_mono by blast
  from Cons.IH [OF d1(2)] Cons.prems(2) d1 show ?case by fastforce
qed

theorem deadline_never_extended_witness:
  "\<exists>d' x'. fold (deadline_call ''c1'') [(True, None, 105), (False, Some 140, 107)]
       (Some (ex_record(''owner_wait_deadline'' \<mapsto> PFloat (Fin 120)))) = Some d' \<and>
     positive_finite (pget d' ''owner_wait_deadline'') = Some x' \<and> x' \<le> (120::rat)"
  by (rule deadline_never_extended) (simp_all add: positive_finite_def sane_call_def)

text \<open>
  message taking cannot cross a pickup: while a record is redirected to the owner there is
  no message intent on it, and acknowledging one changes nothing and answers no.
\<close>

theorem no_message_after_pickup:
  assumes "redirected nonce d"
  shows "message_intent_from_record f (PStr c) now (Some d) = None \<and>
     acknowledge_owner_action status f c now (Some d) = (Some d, False)"
proof -
  have "message_intent_from_record f (PStr c) now (Some d) = None"
    using intent_needs_message_claim [of f "PStr c" now d] assms
    by (cases "message_intent_from_record f (PStr c) now (Some d)") (auto simp: redirected_def)
  then show ?thesis by (simp add: acknowledge_owner_action_def acknowledge_txn_def)
qed

lemma ex_redirected: "redirected ''n1'' ex_marked"
  by (simp add: redirected_def ex_marked_def ex_claimed_def) (simp add: ex_request_def)

theorem no_message_after_pickup_witness:
  "message_intent_from_record any_intent (PStr ''c1'') 103 (Some ex_marked) = None \<and>
     acknowledge_owner_action ''taking_message'' any_intent ''c1'' 103 (Some ex_marked) = (Some ex_marked, False)"
  by (rule no_message_after_pickup [OF ex_redirected])

text \<open>
  giving up a pickup before the redirect restores the call: after a claim and its release
  every field outside the claim's own bookkeeping is as it was, the conference name included,
  and any later action request is decided exactly as it would have been without the claim.
\<close>

theorem release_undoes_claim:
  assumes "reduce_active_call_action rq (Some d) = (Some d1, Claimed)" and "rq_action rq = ''accept''"
    and "live_record (Some d1) (PStr (rq_contractor rq)) now"
    and "pget d ''redirect_started_at'' = PNone"
  shows "\<exists>d2. release_preparation_txn d1 now (Some d1) = Some d2 \<and>
     (\<forall>k. k \<notin> set BOOKKEEPING_KEYS \<longrightarrow> d2 k = d k) \<and>
     pget_or d2 ''conference_name'' (PStr []) = pget_or d ''conference_name'' (PStr []) \<and>
     snd (reduce_active_call_action rq2 (Some d2)) = snd (reduce_active_call_action rq2 (Some d))"
proof -
  have d1: "d1 = claim_update rq d" using reduce_claimed_result assms(1) by auto
  have und: "undecided d"
    using reduce_claimed_iff [of rq "Some d"] assms(1) by simp
  let ?d2 = "release_update d1 d1"
  have c: "pget d1 ''contractor_id'' = PStr (rq_contractor rq)"
    using live_recordD [OF assms(3)] by simp
  have rel: "release_preparation_txn d1 now (Some d1) = Some ?d2"
    using assms(2-4) by (simp add: release_preparation_txn_def same_claim_def c) (simp add: d1)
  have frame: "k \<notin> set BOOKKEEPING_KEYS \<Longrightarrow> ?d2 k = d k" for k
    using assms(2) by (simp add: release_update_other d1 claim_update_other)
  then have same: "pget ?d2 k = pget d k" if "k \<notin> set BOOKKEEPING_KEYS" for k
    using that by (simp add: pget_def)
  have live: "live_record (Some ?d2) x t = live_record (Some d) x t" for x t
    by (rule live_record_frame) (auto intro!: same simp: BOOKKEEPING_KEYS_def)
  have conf: "pget_or ?d2 ''conference_name'' (PStr []) = pget_or d ''conference_name'' (PStr [])"
    by (simp add: d1 claim_update_previous assms(2))
  have "pget ?d2 ''state'' = pget d ''state''"
    "pget ?d2 ''kevin_redirect_status'' = pget d ''kevin_redirect_status''"
    by (rule same; simp add: BOOKKEEPING_KEYS_def)+
  then have "snd (reduce_active_call_action rq2 (Some ?d2)) = snd (reduce_active_call_action rq2 (Some d))"
    using und by (simp add: reduce_active_call_action_def live undecided_def)
  with rel frame conf show ?thesis by blast
qed

theorem release_undoes_claim_witness:
  "\<exists>d2. release_preparation_txn ex_claimed 102 (Some ex_claimed) = Some d2 \<and>
     (\<forall>k. k \<notin> set BOOKKEEPING_KEYS \<longrightarrow> d2 k = ex_record k) \<and>
     pget_or d2 ''conference_name'' (PStr []) = pget_or ex_record ''conference_name'' (PStr []) \<and>
     snd (reduce_active_call_action ex_request (Some d2)) = snd (reduce_active_call_action ex_request (Some ex_record))"
proof (rule release_undoes_claim [OF ex_claim])
  show "rq_action ex_request = ''accept''" by (simp add: ex_request_def)
  show "live_record (Some ex_claimed) (PStr (rq_contractor ex_request)) 102"
    using ex_live(2) by (simp add: ex_request_def)
  show "pget ex_record ''redirect_started_at'' = PNone" by (simp add: ex_record_def)
qed

end
