(* ===== verification/Voice_Lifecycle.thy ===== *)
theory Voice_Lifecycle
  imports Prelude
begin

text \<open>
  The voice lifecycle reducer of app/services/voice_lifecycle.py: the closed vocabulary of events,
  the validation of an event read from a dictionary, the reducer \<open>ingest\<close> with everything it
  records, the receipts its readers ask for, and the commands it accepts. Objects compared with
  \<open>is\<close> carry the identity of the Python object (\<open>ve_ref\<close>), and two objects with one identity are
  equal, so \<open>is\<close> is equality of the records here; \<open>==\<close> ignores the identity.
\<close>

section \<open>Vocabulary\<close>

datatype voice_source = TWILIO_AUTHENTICATED | PROVIDER_UNTRUSTED | LOCAL_AUTHORITATIVE

fun voice_source_value :: "voice_source \<Rightarrow> string" where
  "voice_source_value TWILIO_AUTHENTICATED = ''twilio_authenticated''"
| "voice_source_value PROVIDER_UNTRUSTED = ''provider_untrusted''"
| "voice_source_value LOCAL_AUTHORITATIVE = ''local_authoritative''"

definition voice_sources :: "voice_source list" where
  "voice_sources = [TWILIO_AUTHENTICATED, PROVIDER_UNTRUSTED, LOCAL_AUTHORITATIVE]"

datatype voice_sensitivity = OPERATIONAL | RESTRICTED

fun voice_sensitivity_value :: "voice_sensitivity \<Rightarrow> string" where
  "voice_sensitivity_value OPERATIONAL = ''operational''"
| "voice_sensitivity_value RESTRICTED = ''restricted''"

definition voice_sensitivities :: "voice_sensitivity list" where
  "voice_sensitivities = [OPERATIONAL, RESTRICTED]"

datatype voice_kind =
    INPUT_ACTIVITY_STARTED | INPUT_ACTIVITY_ENDED | INPUT_TURN_PARTIAL | INPUT_TURN_FINAL
  | RESPONSE_AUTHORIZED | GENERATION_STARTED | TEXT_SEGMENT_EMITTED | AUDIO_FRAME_GENERATED
  | GENERATION_COMPLETED | GENERATION_CANCELLED | PROVIDER_TURN_COMPLETED
  | SESSION_DISCONNECTED | SESSION_REESTABLISHED | SESSION_RESUMED | SESSION_GO_AWAY
  | SEMANTIC_ACT_CONFIRMED | TTS_BOUND | PLAYOUT_BOUND | TRANSPORT_RESOLVED | PLAYOUT_PARTIAL
  | PLAYOUT_CLEARED | PLAYOUT_INTERRUPTED | PLAYOUT_RECONNECTED | CALLER_PLAYBACK_OBSERVED
  | ACT_FAILED | ACT_TIMED_OUT

fun voice_kind_value :: "voice_kind \<Rightarrow> string" where
  "voice_kind_value INPUT_ACTIVITY_STARTED = ''input_activity_started''"
| "voice_kind_value INPUT_ACTIVITY_ENDED = ''input_activity_ended''"
| "voice_kind_value INPUT_TURN_PARTIAL = ''input_turn_partial''"
| "voice_kind_value INPUT_TURN_FINAL = ''input_turn_final''"
| "voice_kind_value RESPONSE_AUTHORIZED = ''response_authorized''"
| "voice_kind_value GENERATION_STARTED = ''generation_started''"
| "voice_kind_value TEXT_SEGMENT_EMITTED = ''text_segment_emitted''"
| "voice_kind_value AUDIO_FRAME_GENERATED = ''audio_frame_generated''"
| "voice_kind_value GENERATION_COMPLETED = ''generation_completed''"
| "voice_kind_value GENERATION_CANCELLED = ''generation_cancelled''"
| "voice_kind_value PROVIDER_TURN_COMPLETED = ''provider_turn_completed''"
| "voice_kind_value SESSION_DISCONNECTED = ''session_disconnected''"
| "voice_kind_value SESSION_REESTABLISHED = ''session_reestablished''"
| "voice_kind_value SESSION_RESUMED = ''session_resumed''"
| "voice_kind_value SESSION_GO_AWAY = ''session_go_away''"
| "voice_kind_value SEMANTIC_ACT_CONFIRMED = ''semantic_act_confirmed''"
| "voice_kind_value TTS_BOUND = ''tts_bound''"
| "voice_kind_value PLAYOUT_BOUND = ''playout_bound''"
| "voice_kind_value TRANSPORT_RESOLVED = ''transport_resolved''"
| "voice_kind_value PLAYOUT_PARTIAL = ''playout_partial''"
| "voice_kind_value PLAYOUT_CLEARED = ''playout_cleared''"
| "voice_kind_value PLAYOUT_INTERRUPTED = ''playout_interrupted''"
| "voice_kind_value PLAYOUT_RECONNECTED = ''playout_reconnected''"
| "voice_kind_value CALLER_PLAYBACK_OBSERVED = ''caller_playback_observed''"
| "voice_kind_value ACT_FAILED = ''act_failed''"
| "voice_kind_value ACT_TIMED_OUT = ''act_timed_out''"

definition voice_kinds :: "voice_kind list" where
  "voice_kinds = [INPUT_ACTIVITY_STARTED, INPUT_ACTIVITY_ENDED, INPUT_TURN_PARTIAL, INPUT_TURN_FINAL,
     RESPONSE_AUTHORIZED, GENERATION_STARTED, TEXT_SEGMENT_EMITTED, AUDIO_FRAME_GENERATED,
     GENERATION_COMPLETED, GENERATION_CANCELLED, PROVIDER_TURN_COMPLETED, SESSION_DISCONNECTED,
     SESSION_REESTABLISHED, SESSION_RESUMED, SESSION_GO_AWAY, SEMANTIC_ACT_CONFIRMED, TTS_BOUND,
     PLAYOUT_BOUND, TRANSPORT_RESOLVED, PLAYOUT_PARTIAL, PLAYOUT_CLEARED, PLAYOUT_INTERRUPTED,
     PLAYOUT_RECONNECTED, CALLER_PLAYBACK_OBSERVED, ACT_FAILED, ACT_TIMED_OUT]"

datatype act_kind =
    ANSWER | QUESTION | SAFETY | ACKNOWLEDGEMENT | PRESENCE_CHECK | REPAIR | CLOSING | REPEAT
  | SLOWER_SPEECH | LONGER_WAIT | OPT_OUT | VOICEMAIL | LANGUAGE_CHOICE

fun act_kind_value :: "act_kind \<Rightarrow> string" where
  "act_kind_value ANSWER = ''answer''"
| "act_kind_value QUESTION = ''question''"
| "act_kind_value SAFETY = ''safety''"
| "act_kind_value ACKNOWLEDGEMENT = ''acknowledgement''"
| "act_kind_value PRESENCE_CHECK = ''presence_check''"
| "act_kind_value REPAIR = ''repair''"
| "act_kind_value CLOSING = ''closing''"
| "act_kind_value REPEAT = ''repeat''"
| "act_kind_value SLOWER_SPEECH = ''slower_speech''"
| "act_kind_value LONGER_WAIT = ''longer_wait''"
| "act_kind_value OPT_OUT = ''opt_out''"
| "act_kind_value VOICEMAIL = ''voicemail''"
| "act_kind_value LANGUAGE_CHOICE = ''language_choice''"

definition act_kinds :: "act_kind list" where
  "act_kinds = [ANSWER, QUESTION, SAFETY, ACKNOWLEDGEMENT, PRESENCE_CHECK, REPAIR, CLOSING, REPEAT,
     SLOWER_SPEECH, LONGER_WAIT, OPT_OUT, VOICEMAIL, LANGUAGE_CHOICE]"

datatype command_kind = ARM_SILENCE_TIMER

datatype voice_capability = SILENCE_TIMER | TERMINAL

datatype confirmation_policy = NO_CONFIRMATION | CALLER_PLAYBACK_OR_INFERENCE

section \<open>Validated data\<close>

definition valid_identifier :: "pyval \<Rightarrow> string res" where
  "valid_identifier v = (case v of PStr s \<Rightarrow> if s = [] \<or> 128 < length s then Inl ValueError else Inr s
                   | _ \<Rightarrow> Inl ValueError)"

definition nonnegative :: "pyval \<Rightarrow> int res" where
  "nonnegative v = (case v of PInt i \<Rightarrow> if i < 0 then Inl ValueError else Inr i | _ \<Rightarrow> Inl ValueError)"

definition hex_digest :: "pyval \<Rightarrow> string res" where
  "hex_digest v =
     (case v of PStr s \<Rightarrow>
        if length s \<noteq> 64 \<or> \<not> set s \<subseteq> set ''0123456789abcdef'' then Inl ValueError else Inr s
      | _ \<Rightarrow> Inl ValueError)"

text \<open>A field that may be \<open>None\<close>.\<close>

definition optional :: "(pyval \<Rightarrow> 'a res) \<Rightarrow> pyval \<Rightarrow> 'a option res" where
  "optional p v = (if v = PNone then Inr None else ebind (p v) (\<lambda>x. Inr (Some x)))"

record voice_binding =
  vb_environment :: string
  vb_contractor :: string
  vb_call :: string
  vb_stream :: string
  vb_epoch :: int

record voice_payload =
  vp_ordinal :: "int option"
  vp_duration :: "int option"
  vp_text :: "string option"
  vp_audio :: "string option"
  vp_playout :: "string option"

record voice_event =
  ve_ref :: nat
  ve_kind :: voice_kind
  ve_source :: voice_source
  ve_sensitivity :: voice_sensitivity
  ve_binding :: voice_binding
  ve_sequence :: int
  ve_at_ms :: int
  ve_turn :: string
  ve_generation :: string
  ve_act :: string
  ve_act_kind :: act_kind
  ve_payload :: voice_payload

text \<open>\<open>==\<close> on events.\<close>

definition event_eq :: "voice_event \<Rightarrow> voice_event \<Rightarrow> bool" where
  "event_eq a b = (a\<lparr>ve_ref := 0\<rparr> = b\<lparr>ve_ref := 0\<rparr>)"

definition make_binding :: "pyval \<Rightarrow> pyval \<Rightarrow> pyval \<Rightarrow> pyval \<Rightarrow> pyval \<Rightarrow> voice_binding res" where
  "make_binding environment contractor call stream epoch =
     ebind (valid_identifier environment) (\<lambda>env. ebind (valid_identifier contractor) (\<lambda>co.
     ebind (valid_identifier call) (\<lambda>ca. ebind (valid_identifier stream) (\<lambda>st. ebind (nonnegative epoch) (\<lambda>ep.
       Inr \<lparr>vb_environment = env, vb_contractor = co, vb_call = ca, vb_stream = st, vb_epoch = ep\<rparr>)))))"

definition make_payload :: "pyval \<Rightarrow> pyval \<Rightarrow> pyval \<Rightarrow> pyval \<Rightarrow> pyval \<Rightarrow> voice_payload res" where
  "make_payload ord dur text audio playout =
     ebind (optional nonnegative ord) (\<lambda>o'. ebind (optional nonnegative dur) (\<lambda>d.
     ebind (optional hex_digest text) (\<lambda>t. ebind (optional valid_identifier audio) (\<lambda>a.
     ebind (optional valid_identifier playout) (\<lambda>p.
       Inr \<lparr>vp_ordinal = o', vp_duration = d, vp_text = t, vp_audio = a, vp_playout = p\<rparr>)))))"

text \<open>
  \<open>VoiceEvent.__post_init__\<close> on the fields that are not already typed. The schema version is
  compared with \<open>1\<close> by \<open>==\<close>, which \<open>True\<close> and \<open>1.0\<close> pass too; as those are equal values the
  record need not keep it.
\<close>

definition schema_version_ok :: "pyval \<Rightarrow> bool" where
  "schema_version_ok v = (py_number v = Some (Fin 1))"

definition make_event ::
    "nat \<Rightarrow> voice_kind \<Rightarrow> voice_source \<Rightarrow> voice_sensitivity \<Rightarrow> voice_binding \<Rightarrow> pyval \<Rightarrow> pyval \<Rightarrow>
     pyval \<Rightarrow> pyval \<Rightarrow> pyval \<Rightarrow> act_kind \<Rightarrow> voice_payload \<Rightarrow> voice_event res" where
  "make_event ref kind source sens b seq stamp turn gen act ak p =
     ebind (nonnegative seq) (\<lambda>sq. ebind (nonnegative stamp) (\<lambda>ms. ebind (valid_identifier turn) (\<lambda>tu.
     ebind (valid_identifier gen) (\<lambda>ge. ebind (valid_identifier act) (\<lambda>ac.
       Inr \<lparr>ve_ref = ref, ve_kind = kind, ve_source = source, ve_sensitivity = sens, ve_binding = b,
            ve_sequence = sq, ve_at_ms = ms, ve_turn = tu, ve_generation = ge, ve_act = ac,
            ve_act_kind = ak, ve_payload = p\<rparr>)))))"

definition EVENT_FIELDS :: "string list" where
  "EVENT_FIELDS = [''schema_version'', ''kind'', ''source'', ''sensitivity'', ''binding'', ''sequence'',
     ''at_ms'', ''input_turn_id'', ''generation_id'', ''semantic_act_id'', ''semantic_act_kind'', ''payload'']"

definition BINDING_FIELDS :: "string list" where
  "BINDING_FIELDS = [''environment'', ''contractor_binding'', ''call_binding'', ''stream_binding'', ''epoch'']"

definition PAYLOAD_FIELDS :: "string list" where
  "PAYLOAD_FIELDS = [''ordinal'', ''duration_ms'', ''text_digest'', ''audio_id'', ''playout_id'']"

definition binding_from :: "pyval \<Rightarrow> voice_binding res" where
  "binding_from v =
     (case v of PDict kvs \<Rightarrow>
        if fst ` set kvs \<noteq> set BINDING_FIELDS then Inl ValueError
        else let g = pget (map_of kvs) in
          make_binding (g ''environment'') (g ''contractor_binding'') (g ''call_binding'')
            (g ''stream_binding'') (g ''epoch'')
      | _ \<Rightarrow> Inl ValueError)"

definition payload_from :: "pyval \<Rightarrow> voice_payload res" where
  "payload_from v =
     (case v of PDict kvs \<Rightarrow>
        if \<not> fst ` set kvs \<subseteq> set PAYLOAD_FIELDS then Inl ValueError
        else let g = pget (map_of kvs) in
          make_payload (g ''ordinal'') (g ''duration_ms'') (g ''text_digest'') (g ''audio_id'') (g ''playout_id'')
      | _ \<Rightarrow> Inl ValueError)"

text \<open>\<open>VoiceEvent.from_dict\<close>; \<open>ref\<close> is the identity of the new object.\<close>

definition voice_event_from_dict :: "nat \<Rightarrow> (string \<times> pyval) list \<Rightarrow> voice_event res" where
  "voice_event_from_dict ref data =
     (if \<not> fst ` set data \<subseteq> set EVENT_FIELDS then Inl ValueError
      else if fst ` set data \<noteq> set EVENT_FIELDS then Inl ValueError
      else let g = pget (map_of data) in
        ebind (enum_of voice_kind_value voice_kinds (g ''kind'')) (\<lambda>kind.
        ebind (enum_of voice_source_value voice_sources (g ''source'')) (\<lambda>source.
        ebind (enum_of voice_sensitivity_value voice_sensitivities (g ''sensitivity'')) (\<lambda>sens.
        ebind (binding_from (g ''binding'')) (\<lambda>b.
        ebind (enum_of act_kind_value act_kinds (g ''semantic_act_kind'')) (\<lambda>ak.
        ebind (payload_from (g ''payload'')) (\<lambda>p.
          if \<not> schema_version_ok (g ''schema_version'') then Inl ValueError
          else make_event ref kind source sens b (g ''sequence'') (g ''at_ms'')
                 (g ''input_turn_id'') (g ''generation_id'') (g ''semantic_act_id'') ak p)))))))"

section \<open>Commands and timeouts\<close>

record voice_command =
  vc_kind :: command_kind
  vc_binding :: voice_binding
  vc_action :: string
  vc_key :: string
  vc_expires_at_ms :: int
  vc_capability :: voice_capability
  vc_sensitivity :: voice_sensitivity
  vc_confirmation :: confirmation_policy
  vc_act :: string
  vc_arguments :: "(string \<times> int) list"

text \<open>\<open>VoiceCommand.__post_init__\<close>.\<close>

definition command_post_init :: "voice_command \<Rightarrow> voice_command res" where
  "command_post_init c =
     ebind (valid_identifier (PStr (vc_action c))) (\<lambda>_. ebind (valid_identifier (PStr (vc_key c))) (\<lambda>_.
     ebind (valid_identifier (PStr (vc_act c))) (\<lambda>_. ebind (nonnegative (PInt (vc_expires_at_ms c))) (\<lambda>_.
       if vc_kind c \<noteq> ARM_SILENCE_TIMER \<or> vc_capability c \<noteq> SILENCE_TIMER then Inl ValueError
       else if length (vc_arguments c) \<noteq> 1 \<or> fst (hd (vc_arguments c)) \<noteq> ''timeout_ms'' then Inl ValueError
       else ebind (nonnegative (PInt (snd (hd (vc_arguments c))))) (\<lambda>_. Inr c)))))"

record timeout_intent =
  ti_binding :: voice_binding
  ti_turn :: string
  ti_generation :: string
  ti_act :: string
  ti_act_kind :: act_kind
  ti_payload :: voice_payload

definition timeout_event :: "nat \<Rightarrow> timeout_intent \<Rightarrow> int \<Rightarrow> int \<Rightarrow> voice_event res" where
  "timeout_event ref i sequence at_ms =
     make_event ref ACT_TIMED_OUT LOCAL_AUTHORITATIVE OPERATIONAL (ti_binding i) (PInt sequence)
       (PInt at_ms) (PStr (ti_turn i)) (PStr (ti_generation i)) (PStr (ti_act i)) (ti_act_kind i)
       (ti_payload i)"

section \<open>The reducer\<close>

record act_record =
  ac_state :: voice_kind
  ac_turn :: string
  ac_generation :: string
  ac_kind :: act_kind
  ac_text :: "string option"
  ac_audio :: "string option"
  ac_playout :: "string option"

type_synonym generation_key = "string \<times> string \<times> string \<times> act_kind"

text \<open>
  \<open>VoiceLifecycle\<close>. The \<open>dict\<close> whose values are read in order is an association list; the others
  are maps.
\<close>

record lifecycle =
  lc_binding :: voice_binding
  lc_sequence :: int
  lc_at_ms :: int
  lc_acts :: "string \<rightharpoonup> act_record"
  lc_input_states :: "string \<rightharpoonup> voice_kind"
  lc_input_observations :: "(string \<times> voice_event) list"
  lc_history :: "voice_event list"
  lc_floor :: int
  lc_input_finals :: "string \<rightharpoonup> voice_event"
  lc_generation_states :: "generation_key \<rightharpoonup> voice_kind"
  lc_session_event :: "voice_event option"
  lc_authorizations :: "string \<rightharpoonup> voice_event"
  lc_confirmations :: "string \<rightharpoonup> voice_event"
  lc_terminals :: "string \<rightharpoonup> voice_event"
  lc_commands :: "string \<rightharpoonup> voice_command"
  lc_rejected :: nat
  lc_idempotent :: nat
  lc_pending_question :: bool

definition init_lifecycle :: "voice_binding \<Rightarrow> lifecycle" where
  "init_lifecycle b =
     \<lparr>lc_binding = b, lc_sequence = -1, lc_at_ms = -1, lc_acts = Map.empty, lc_input_states = Map.empty,
      lc_input_observations = [], lc_history = [], lc_floor = -1, lc_input_finals = Map.empty,
      lc_generation_states = Map.empty, lc_session_event = None, lc_authorizations = Map.empty,
      lc_confirmations = Map.empty, lc_terminals = Map.empty, lc_commands = Map.empty,
      lc_rejected = 0, lc_idempotent = 0, lc_pending_question = False\<rparr>"

definition INPUT_KINDS :: "voice_kind list" where
  "INPUT_KINDS = [INPUT_ACTIVITY_STARTED, INPUT_ACTIVITY_ENDED, INPUT_TURN_PARTIAL, INPUT_TURN_FINAL]"

definition GENERATION_KINDS :: "voice_kind list" where
  "GENERATION_KINDS = [GENERATION_STARTED, TEXT_SEGMENT_EMITTED, AUDIO_FRAME_GENERATED,
     GENERATION_COMPLETED, GENERATION_CANCELLED, PROVIDER_TURN_COMPLETED]"

definition SESSION_KINDS :: "voice_kind list" where
  "SESSION_KINDS = [SESSION_DISCONNECTED, SESSION_REESTABLISHED, SESSION_RESUMED, SESSION_GO_AWAY]"

definition OBSERVATIONAL_KINDS :: "voice_kind list" where
  "OBSERVATIONAL_KINDS = INPUT_KINDS @ GENERATION_KINDS @ SESSION_KINDS"

definition MAX_HISTORY :: nat where
  "MAX_HISTORY = 256"

fun required_source :: "voice_kind \<Rightarrow> voice_source" where
  "required_source INPUT_ACTIVITY_STARTED = LOCAL_AUTHORITATIVE"
| "required_source INPUT_ACTIVITY_ENDED = LOCAL_AUTHORITATIVE"
| "required_source RESPONSE_AUTHORIZED = LOCAL_AUTHORITATIVE"
| "required_source SEMANTIC_ACT_CONFIRMED = LOCAL_AUTHORITATIVE"
| "required_source TTS_BOUND = LOCAL_AUTHORITATIVE"
| "required_source PLAYOUT_BOUND = LOCAL_AUTHORITATIVE"
| "required_source TRANSPORT_RESOLVED = TWILIO_AUTHENTICATED"
| "required_source PLAYOUT_PARTIAL = TWILIO_AUTHENTICATED"
| "required_source PLAYOUT_CLEARED = TWILIO_AUTHENTICATED"
| "required_source PLAYOUT_INTERRUPTED = TWILIO_AUTHENTICATED"
| "required_source PLAYOUT_RECONNECTED = LOCAL_AUTHORITATIVE"
| "required_source CALLER_PLAYBACK_OBSERVED = LOCAL_AUTHORITATIVE"
| "required_source ACT_FAILED = LOCAL_AUTHORITATIVE"
| "required_source ACT_TIMED_OUT = LOCAL_AUTHORITATIVE"
| "required_source _ = PROVIDER_UNTRUSTED"

text \<open>The states an act may be in when an event of its own arrives; \<open>None\<close> for no act yet.\<close>

definition OPEN_STATES :: "voice_kind list" where
  "OPEN_STATES = [RESPONSE_AUTHORIZED, SEMANTIC_ACT_CONFIRMED, TTS_BOUND, PLAYOUT_BOUND, TRANSPORT_RESOLVED]"

fun expected_states :: "voice_kind \<Rightarrow> voice_kind list" where
  "expected_states SEMANTIC_ACT_CONFIRMED = [RESPONSE_AUTHORIZED]"
| "expected_states TTS_BOUND = [SEMANTIC_ACT_CONFIRMED]"
| "expected_states PLAYOUT_BOUND = [TTS_BOUND, PLAYOUT_RECONNECTED]"
| "expected_states TRANSPORT_RESOLVED = [PLAYOUT_BOUND]"
| "expected_states PLAYOUT_PARTIAL = [PLAYOUT_BOUND]"
| "expected_states PLAYOUT_CLEARED = [PLAYOUT_BOUND]"
| "expected_states PLAYOUT_INTERRUPTED = [PLAYOUT_BOUND]"
| "expected_states PLAYOUT_RECONNECTED = [PLAYOUT_BOUND]"
| "expected_states CALLER_PLAYBACK_OBSERVED = [TRANSPORT_RESOLVED]"
| "expected_states ACT_FAILED = OPEN_STATES"
| "expected_states ACT_TIMED_OUT = OPEN_STATES"
| "expected_states _ = []"

text \<open>\<open>record[1:4] == (event.input_turn_id, event.generation_id, event.semantic_act_kind)\<close>.\<close>

definition same_act :: "act_record \<Rightarrow> voice_event \<Rightarrow> bool" where
  "same_act r e = (ac_turn r = ve_turn e \<and> ac_generation r = ve_generation e \<and> ac_kind r = ve_act_kind e)"

text \<open>\<open>record[4:7] == (payload.text_digest, payload.audio_id, payload.playout_id)\<close>.\<close>

definition same_media :: "act_record \<Rightarrow> voice_payload \<Rightarrow> bool" where
  "same_media r p = (ac_text r = vp_text p \<and> ac_audio r = vp_audio p \<and> ac_playout r = vp_playout p)"

definition MEDIA_KINDS :: "voice_kind list" where
  "MEDIA_KINDS = [TRANSPORT_RESOLVED, PLAYOUT_PARTIAL, PLAYOUT_CLEARED, PLAYOUT_INTERRUPTED,
     PLAYOUT_RECONNECTED, CALLER_PLAYBACK_OBSERVED]"

text \<open>The guards of \<open>ingest\<close> for an event of an act, after the source check.\<close>

definition act_event_ok :: "act_record option \<Rightarrow> voice_event \<Rightarrow> bool" where
  "act_event_ok prior e =
     (let k = ve_kind e; p = ve_payload e; expected = expected_states k in
      (case prior of None \<Rightarrow> expected = [] | Some r \<Rightarrow> ac_state r \<in> set expected) \<and>
      (case prior of None \<Rightarrow> True | Some r \<Rightarrow> same_act r e) \<and>
      (k = TTS_BOUND \<longrightarrow> vp_text p \<noteq> None \<and> vp_audio p \<noteq> None \<and> vp_playout p = None) \<and>
      (k = PLAYOUT_BOUND \<longrightarrow> vp_text p \<noteq> None \<and> vp_audio p \<noteq> None \<and> vp_playout p \<noteq> None \<and>
         (case prior of None \<Rightarrow> False | Some r \<Rightarrow> ac_text r = vp_text p \<and> ac_audio r = vp_audio p)) \<and>
      (k \<in> set MEDIA_KINDS \<longrightarrow> vp_text p \<noteq> None \<and> vp_audio p \<noteq> None \<and> vp_playout p \<noteq> None \<and>
         (case prior of None \<Rightarrow> False | Some r \<Rightarrow> same_media r p)) \<and>
      (k \<in> {ACT_FAILED, ACT_TIMED_OUT} \<longrightarrow>
         (case prior of None \<Rightarrow> True | Some r \<Rightarrow> ac_text r \<noteq> None \<longrightarrow> same_media r p)))"

definition or_prior :: "'a option \<Rightarrow> ('r \<Rightarrow> 'a option) \<Rightarrow> 'r option \<Rightarrow> 'a option" where
  "or_prior x f prior = (if x \<noteq> None then x else case prior of None \<Rightarrow> None | Some r \<Rightarrow> f r)"

definition advance_act :: "act_record option \<Rightarrow> voice_event \<Rightarrow> act_record" where
  "advance_act prior e =
     \<lparr>ac_state = ve_kind e, ac_turn = ve_turn e, ac_generation = ve_generation e, ac_kind = ve_act_kind e,
      ac_text = or_prior (vp_text (ve_payload e)) ac_text prior,
      ac_audio = or_prior (vp_audio (ve_payload e)) ac_audio prior,
      ac_playout = or_prior (vp_playout (ve_payload e)) ac_playout prior\<rparr>"

text \<open>What \<open>ingest\<close> writes for an event of an act that passed the guards.\<close>

definition commit_act :: "lifecycle \<Rightarrow> voice_event \<Rightarrow> lifecycle" where
  "commit_act s e =
     s\<lparr>lc_sequence := ve_sequence e, lc_at_ms := ve_at_ms e,
       lc_acts := (lc_acts s)(ve_act e \<mapsto> advance_act (lc_acts s (ve_act e)) e),
       lc_authorizations := (if ve_kind e = RESPONSE_AUTHORIZED
          then (lc_authorizations s)(ve_act e \<mapsto> e) else lc_authorizations s),
       lc_confirmations := (if ve_kind e = SEMANTIC_ACT_CONFIRMED
          then (lc_confirmations s)(ve_act e \<mapsto> e) else lc_confirmations s),
       lc_terminals := (if ve_kind e \<in> {ACT_FAILED, ACT_TIMED_OUT}
          then (lc_terminals s)(ve_act e \<mapsto> e) else lc_terminals s),
       lc_pending_question := (lc_pending_question s \<or>
          (ve_kind e = CALLER_PLAYBACK_OBSERVED \<and> ve_act_kind e = QUESTION))\<rparr>"

definition input_allowed :: "voice_kind \<Rightarrow> voice_kind option \<Rightarrow> bool" where
  "input_allowed k prior =
     (if k = INPUT_ACTIVITY_STARTED then prior \<in> {None, Some INPUT_ACTIVITY_ENDED, Some INPUT_TURN_PARTIAL}
      else if k = INPUT_ACTIVITY_ENDED then prior = Some INPUT_ACTIVITY_STARTED
      else prior \<noteq> Some INPUT_TURN_FINAL)"

definition remember_input :: "lifecycle \<Rightarrow> voice_event \<Rightarrow> lifecycle" where
  "remember_input s e =
     (let h = lc_history s @ [e] in
      if MAX_HISTORY < length h
      then s\<lparr>lc_history := tl h, lc_floor := ve_sequence (hd h)\<rparr> else s\<lparr>lc_history := h\<rparr>)"

fun generation_prior :: "voice_kind \<Rightarrow> voice_kind option list" where
  "generation_prior GENERATION_STARTED = [None]"
| "generation_prior TEXT_SEGMENT_EMITTED = [Some GENERATION_STARTED, Some TEXT_SEGMENT_EMITTED]"
| "generation_prior AUDIO_FRAME_GENERATED = [Some GENERATION_STARTED, Some AUDIO_FRAME_GENERATED]"
| "generation_prior GENERATION_COMPLETED =
     [Some GENERATION_STARTED, Some TEXT_SEGMENT_EMITTED, Some AUDIO_FRAME_GENERATED]"
| "generation_prior GENERATION_CANCELLED =
     [Some GENERATION_STARTED, Some TEXT_SEGMENT_EMITTED, Some AUDIO_FRAME_GENERATED]"
| "generation_prior PROVIDER_TURN_COMPLETED = [Some GENERATION_COMPLETED]"
| "generation_prior _ = []"

definition generation_key_of :: "voice_event \<Rightarrow> generation_key" where
  "generation_key_of e = (ve_turn e, ve_generation e, ve_act e, ve_act_kind e)"

fun session_prior :: "voice_kind \<Rightarrow> voice_kind option list" where
  "session_prior SESSION_DISCONNECTED = [None, Some SESSION_REESTABLISHED, Some SESSION_RESUMED]"
| "session_prior SESSION_REESTABLISHED = [Some SESSION_DISCONNECTED]"
| "session_prior SESSION_GO_AWAY = [None, Some SESSION_REESTABLISHED, Some SESSION_RESUMED]"
| "session_prior SESSION_RESUMED = [Some SESSION_GO_AWAY, Some SESSION_DISCONNECTED]"
| "session_prior _ = []"

text \<open>\<open>_ingest_observation\<close>: \<open>None\<close> when it returns \<open>False\<close>, which it does before any write.\<close>

definition ingest_observation :: "lifecycle \<Rightarrow> voice_event \<Rightarrow> lifecycle option" where
  "ingest_observation s e =
     (let k = ve_kind e; p = ve_payload e in
      if k \<in> set INPUT_KINDS then
        (if \<not> input_allowed k (lc_input_states s (ve_turn e)) \<or> vp_audio p \<noteq> None \<or> vp_playout p \<noteq> None
         then None
         else let s1 = remember_input
                    (s\<lparr>lc_input_states := (lc_input_states s)(ve_turn e \<mapsto> k),
                       lc_input_observations := AList.update (ve_turn e) e (lc_input_observations s)\<rparr>) e
              in Some (if k = INPUT_TURN_FINAL
                       then s1\<lparr>lc_input_finals := (lc_input_finals s1)(ve_turn e \<mapsto> e)\<rparr> else s1))
      else if k \<in> set GENERATION_KINDS then
        (case lc_acts s (ve_act e) of
           None \<Rightarrow> None
         | Some r \<Rightarrow>
             if \<not> same_act r e \<or> ac_state r \<notin> set OPEN_STATES then None
             else if lc_generation_states s (generation_key_of e) \<notin> set (generation_prior k) then None
             else if k = TEXT_SEGMENT_EMITTED \<and> vp_text p = None then None
             else if k = AUDIO_FRAME_GENERATED \<and> vp_audio p = None then None
             else Some (s\<lparr>lc_generation_states := (lc_generation_states s)(generation_key_of e \<mapsto> k)\<rparr>))
      else if map_option ve_kind (lc_session_event s) \<notin> set (session_prior k) then None
      else Some (s\<lparr>lc_session_event := Some e\<rparr>))"

definition reject_event :: "lifecycle \<Rightarrow> lifecycle \<times> bool" where
  "reject_event s = (s\<lparr>lc_rejected := lc_rejected s + 1\<rparr>, False)"

definition ingest :: "lifecycle \<Rightarrow> voice_event \<Rightarrow> lifecycle \<times> bool" where
  "ingest s e =
     (if ve_binding e \<noteq> lc_binding s \<or> ve_sequence e \<le> lc_sequence s \<or> ve_at_ms e < lc_at_ms s
      then reject_event s
      else if ve_source e \<noteq> required_source (ve_kind e) then reject_event s
      else if ve_kind e \<in> set OBSERVATIONAL_KINDS then
        (case ingest_observation s e of
           None \<Rightarrow> reject_event s
         | Some s' \<Rightarrow> (s'\<lparr>lc_sequence := ve_sequence e, lc_at_ms := ve_at_ms e\<rparr>, True))
      else if \<not> act_event_ok (lc_acts s (ve_act e)) e then reject_event s
      else (commit_act s e, True))"

section \<open>Receipts and positions\<close>

definition accepts_input_final :: "lifecycle \<Rightarrow> voice_event \<Rightarrow> bool" where
  "accepts_input_final s e =
     (ve_binding e = lc_binding s \<and> ve_kind e = INPUT_TURN_FINAL \<and> ve_source e = PROVIDER_UNTRUSTED \<and>
      (case lc_input_finals s (ve_turn e) of None \<Rightarrow> False | Some x \<Rightarrow> event_eq x e))"

definition accepts_current_input_observation :: "lifecycle \<Rightarrow> voice_event \<Rightarrow> bool" where
  "accepts_current_input_observation s e =
     (ve_binding e = lc_binding s \<and> ve_kind e \<in> set INPUT_KINDS \<and>
      map_of (lc_input_observations s) (ve_turn e) = Some e)"

definition accepts_input_observation :: "lifecycle \<Rightarrow> voice_event \<Rightarrow> bool" where
  "accepts_input_observation s e =
     (ve_binding e = lc_binding s \<and> ve_kind e \<in> set INPUT_KINDS \<and> e \<in> set (lc_history s))"

definition input_observations_after :: "lifecycle \<Rightarrow> pyval \<Rightarrow> voice_event list option" where
  "input_observations_after s v =
     (case v of PInt q \<Rightarrow>
        if q < -1 \<or> q < lc_floor s then None
        else Some (filter (\<lambda>e. q < ve_sequence e) (lc_history s))
      | _ \<Rightarrow> None)"

text \<open>\<open>max(values, key=...)\<close> keeps the first of the largest.\<close>

definition latest_input_observation :: "lifecycle \<Rightarrow> voice_event option" where
  "latest_input_observation s =
     (case map snd (lc_input_observations s) of
        [] \<Rightarrow> None
      | e # es \<Rightarrow> Some (fold (\<lambda>x best. if ve_sequence best < ve_sequence x then x else best) es e))"

definition accepts_session_resume :: "lifecycle \<Rightarrow> voice_event \<Rightarrow> bool" where
  "accepts_session_resume s e =
     (ve_binding e = lc_binding s \<and> ve_kind e = SESSION_RESUMED \<and> ve_source e = PROVIDER_UNTRUSTED \<and>
      lc_session_event s = Some e)"

definition accepts_session_disconnect :: "lifecycle \<Rightarrow> voice_event \<Rightarrow> bool" where
  "accepts_session_disconnect s e =
     (ve_binding e = lc_binding s \<and> ve_kind e = SESSION_DISCONNECTED \<and> ve_source e = PROVIDER_UNTRUSTED \<and>
      lc_session_event s = Some e)"

definition command_for_act :: "lifecycle \<Rightarrow> voice_command \<Rightarrow> act_record option \<Rightarrow> (lifecycle \<times> bool) res" where
  "command_for_act s c act =
     (case act of
        None \<Rightarrow> Inr (s, False)
      | Some r \<Rightarrow>
          if ac_state r \<noteq> CALLER_PLAYBACK_OBSERVED \<or> ac_kind r \<noteq> QUESTION \<or>
             vc_confirmation c \<noteq> CALLER_PLAYBACK_OR_INFERENCE then Inr (s, False)
          else (case lc_commands s (vc_key c) of
                  Some existing \<Rightarrow>
                    if existing \<noteq> c then Inr (s, False)
                    else Inr (s\<lparr>lc_idempotent := lc_idempotent s + 1\<rparr>, True)
                | None \<Rightarrow> Inr (s\<lparr>lc_commands := (lc_commands s)(vc_key c \<mapsto> c)\<rparr>, True)))"

definition accept_command :: "lifecycle \<Rightarrow> voice_command \<Rightarrow> pyval \<Rightarrow> (lifecycle \<times> bool) res" where
  "accept_command s c now =
     (if vc_binding c \<noteq> lc_binding s then Inr (s, False)
      else ebind (nonnegative now) (\<lambda>now_ms.
        if vc_expires_at_ms c < now_ms then Inr (s, False)
        else command_for_act s c (lc_acts s (vc_act c))))"

text \<open>The receipts that look at the act's record.\<close>

definition act_receipt ::
    "lifecycle \<Rightarrow> voice_event \<Rightarrow> voice_kind \<Rightarrow> voice_source \<Rightarrow> voice_kind list \<Rightarrow> bool" where
  "act_receipt s e kind source states =
     (ve_binding e = lc_binding s \<and> ve_kind e = kind \<and> ve_source e = source \<and>
      (case lc_acts s (ve_act e) of None \<Rightarrow> False
       | Some r \<Rightarrow> ac_state r \<in> set states \<and> same_act r e))"

definition act_media :: "lifecycle \<Rightarrow> voice_event \<Rightarrow> bool" where
  "act_media s e = (case lc_acts s (ve_act e) of None \<Rightarrow> False | Some r \<Rightarrow> same_media r (ve_payload e))"

definition accepts_caller_playback :: "lifecycle \<Rightarrow> voice_event \<Rightarrow> bool" where
  "accepts_caller_playback s e =
     (act_receipt s e CALLER_PLAYBACK_OBSERVED LOCAL_AUTHORITATIVE [CALLER_PLAYBACK_OBSERVED] \<and> act_media s e)"

definition accepts_transport_resolution :: "lifecycle \<Rightarrow> voice_event \<Rightarrow> bool" where
  "accepts_transport_resolution s e =
     (act_receipt s e TRANSPORT_RESOLVED TWILIO_AUTHENTICATED [TRANSPORT_RESOLVED, CALLER_PLAYBACK_OBSERVED] \<and>
      act_media s e)"

definition accepts_semantic_confirmation :: "lifecycle \<Rightarrow> voice_event \<Rightarrow> bool" where
  "accepts_semantic_confirmation s e =
     (act_receipt s e SEMANTIC_ACT_CONFIRMED LOCAL_AUTHORITATIVE [SEMANTIC_ACT_CONFIRMED] \<and>
      (case lc_confirmations s (ve_act e) of None \<Rightarrow> False | Some x \<Rightarrow> event_eq x e))"

definition accepts_response_authorization :: "lifecycle \<Rightarrow> voice_event \<Rightarrow> bool" where
  "accepts_response_authorization s e =
     (act_receipt s e RESPONSE_AUTHORIZED LOCAL_AUTHORITATIVE [RESPONSE_AUTHORIZED] \<and>
      lc_authorizations s (ve_act e) = Some e)"

definition recognizes_response_authorization :: "lifecycle \<Rightarrow> voice_event \<Rightarrow> bool" where
  "recognizes_response_authorization s e =
     (ve_binding e = lc_binding s \<and> ve_kind e = RESPONSE_AUTHORIZED \<and> ve_source e = LOCAL_AUTHORITATIVE \<and>
      lc_authorizations s (ve_act e) = Some e)"

definition accepts_act_timeout :: "lifecycle \<Rightarrow> voice_event \<Rightarrow> bool" where
  "accepts_act_timeout s e =
     (act_receipt s e ACT_TIMED_OUT LOCAL_AUTHORITATIVE [ACT_TIMED_OUT] \<and> lc_terminals s (ve_act e) = Some e)"

definition act_state :: "lifecycle \<Rightarrow> voice_event \<Rightarrow> voice_kind option" where
  "act_state s e =
     (if ve_binding e \<noteq> lc_binding s then None
      else case lc_acts s (ve_act e) of None \<Rightarrow> None
           | Some r \<Rightarrow> if same_act r e then Some (ac_state r) else None)"

text \<open>\<open>terminal_payload\<close> validates the payload it builds, as every \<open>VoicePayload\<close> does.\<close>

definition pyopt :: "string option \<Rightarrow> pyval" where
  "pyopt x = (case x of None \<Rightarrow> PNone | Some s \<Rightarrow> PStr s)"

definition terminal_payload :: "lifecycle \<Rightarrow> voice_event \<Rightarrow> voice_payload option res" where
  "terminal_payload s e =
     (if act_state s e = None then Inr None
      else case lc_acts s (ve_act e) of None \<Rightarrow> Inl KeyError
           | Some r \<Rightarrow> ebind (make_payload PNone PNone (pyopt (ac_text r)) (pyopt (ac_audio r)) (pyopt (ac_playout r)))
                          (\<lambda>p. Inr (Some p)))"

definition next_position :: "lifecycle \<Rightarrow> pyval \<Rightarrow> (int \<times> int) res" where
  "next_position s at_ms =
     ebind (nonnegative at_ms) (\<lambda>ms. Inr (lc_sequence s + 1, max (lc_at_ms s) ms))"

section \<open>Steps of the reducer\<close>

definition event_core :: "lifecycle \<Rightarrow> lifecycle" where
  "event_core s = s\<lparr>lc_rejected := 0\<rparr>"

lemma reject_event_simps [simp]:
  "snd (reject_event s) = False" "fst (reject_event s) = s\<lparr>lc_rejected := lc_rejected s + 1\<rparr>"
  by (simp_all add: reject_event_def)

lemma ingest_rejected: "\<not> snd (ingest s e) \<Longrightarrow> fst (ingest s e) = s\<lparr>lc_rejected := lc_rejected s + 1\<rparr>"
  by (auto simp: ingest_def reject_event_def split: if_splits option.splits)

text \<open>What an accepted event went through.\<close>

lemma ingest_acceptedD:
  assumes "snd (ingest s e)"
  shows "ve_binding e = lc_binding s" "lc_sequence s < ve_sequence e" "lc_at_ms s \<le> ve_at_ms e"
    "ve_source e = required_source (ve_kind e)"
  using assms by (auto simp: ingest_def split: if_splits)

lemma ingest_accepted_cases:
  assumes "snd (ingest s e)"
  obtains (observation) s1 where "ve_kind e \<in> set OBSERVATIONAL_KINDS" "ingest_observation s e = Some s1"
      "fst (ingest s e) = s1\<lparr>lc_sequence := ve_sequence e, lc_at_ms := ve_at_ms e\<rparr>"
  | (act) "ve_kind e \<notin> set OBSERVATIONAL_KINDS" "act_event_ok (lc_acts s (ve_act e)) e"
      "fst (ingest s e) = commit_act s e"
  using assms by (auto simp: ingest_def split: if_splits option.splits)

lemma remember_input_frame [simp]:
  "lc_binding (remember_input s e) = lc_binding s" "lc_acts (remember_input s e) = lc_acts s"
  "lc_sequence (remember_input s e) = lc_sequence s" "lc_commands (remember_input s e) = lc_commands s"
  "lc_authorizations (remember_input s e) = lc_authorizations s"
  "lc_confirmations (remember_input s e) = lc_confirmations s"
  "lc_terminals (remember_input s e) = lc_terminals s"
  "lc_pending_question (remember_input s e) = lc_pending_question s"
  "lc_input_states (remember_input s e) = lc_input_states s"
  "lc_input_observations (remember_input s e) = lc_input_observations s"
  "lc_input_finals (remember_input s e) = lc_input_finals s"
  by (simp_all add: remember_input_def Let_def)

lemma observation_frame:
  assumes "ingest_observation s e = Some s1"
  shows "lc_binding s1 = lc_binding s" "lc_acts s1 = lc_acts s" "lc_commands s1 = lc_commands s"
    "lc_authorizations s1 = lc_authorizations s" "lc_confirmations s1 = lc_confirmations s"
    "lc_terminals s1 = lc_terminals s" "lc_pending_question s1 = lc_pending_question s"
  using assms by (auto simp: ingest_observation_def Let_def split: if_splits option.splits)

lemma commit_act_frame [simp]:
  "lc_binding (commit_act s e) = lc_binding s" "lc_commands (commit_act s e) = lc_commands s"
  "lc_sequence (commit_act s e) = ve_sequence e" "lc_at_ms (commit_act s e) = ve_at_ms e"
  "lc_input_states (commit_act s e) = lc_input_states s" "lc_history (commit_act s e) = lc_history s"
  "lc_floor (commit_act s e) = lc_floor s" "lc_input_finals (commit_act s e) = lc_input_finals s"
  "lc_input_observations (commit_act s e) = lc_input_observations s"
  by (simp_all add: commit_act_def)

lemma ingest_binding [simp]: "lc_binding (fst (ingest s e)) = lc_binding s"
proof (cases "snd (ingest s e)")
  case True
  then show ?thesis by (cases rule: ingest_accepted_cases) (simp_all add: observation_frame)
qed (simp add: ingest_rejected)

lemma ingest_commands [simp]: "lc_commands (fst (ingest s e)) = lc_commands s"
proof (cases "snd (ingest s e)")
  case True
  then show ?thesis by (cases rule: ingest_accepted_cases) (simp_all add: observation_frame)
qed (simp add: ingest_rejected)

lemma ingest_sequence: "snd (ingest s e) \<Longrightarrow> lc_sequence (fst (ingest s e)) = ve_sequence e"
  by (erule ingest_accepted_cases) simp_all

lemma ingest_at_ms: "snd (ingest s e) \<Longrightarrow> lc_at_ms (fst (ingest s e)) = ve_at_ms e"
  by (erule ingest_accepted_cases) simp_all

interpretation vl: clocked_reducer ingest event_core lc_sequence
proof
  fix s e
  show "\<not> snd (ingest s e) \<Longrightarrow> event_core (fst (ingest s e)) = event_core s"
    by (simp add: ingest_rejected event_core_def)
  show "snd (ingest s e) \<Longrightarrow> lc_sequence s < lc_sequence (fst (ingest s e))"
    by (simp add: ingest_sequence ingest_acceptedD)
next
  fix s t
  assume "event_core s = event_core t"
  then have "lc_sequence (event_core s) = lc_sequence (event_core t)" by simp
  then show "lc_sequence s = lc_sequence t" by (simp add: event_core_def)
qed

section \<open>The order of the accepted events\<close>

definition ordered_history :: "voice_event list \<Rightarrow> lifecycle \<Rightarrow> bool" where
  "ordered_history h s =
     (sorted_wrt (<) (map ve_sequence h) \<and> sorted (map ve_at_ms h) \<and>
      (\<forall>e \<in> set h. ve_sequence e \<le> lc_sequence s \<and> ve_at_ms e \<le> lc_at_ms s \<and>
         ve_binding e = lc_binding s \<and> ve_source e = required_source (ve_kind e)))"

interpretation vl_order: history_reducer ingest ordered_history
proof
  fix h s e
  assume h: "ordered_history h s"
  show "\<not> snd (ingest s e) \<Longrightarrow> ordered_history h (fst (ingest s e))"
    using h by (simp add: ingest_rejected ordered_history_def)
  assume a: "snd (ingest s e)"
  note d = ingest_acceptedD [OF a]
  have "ve_sequence x < ve_sequence e" "ve_at_ms x \<le> ve_at_ms e" if "x \<in> set h" for x
    using h that d(2,3) by (fastforce simp: ordered_history_def)+
  then show "ordered_history (h @ [e]) (fst (ingest s e))"
    using h d a
    by (auto simp: ordered_history_def sorted_wrt_append sorted_append ingest_sequence ingest_at_ms
        intro: less_imp_le)
qed

section \<open>The acts\<close>

definition act_events :: "string \<Rightarrow> voice_event list \<Rightarrow> voice_event list" where
  "act_events a h = filter (\<lambda>e. ve_kind e \<notin> set OBSERVATIONAL_KINDS \<and> ve_act e = a) h"

definition act_after :: "voice_event list \<Rightarrow> act_record option" where
  "act_after es = fold (\<lambda>e r. Some (advance_act r e)) es None"

text \<open>Each event of an act passes the guards against the record its predecessors left.\<close>

inductive act_trace :: "voice_event list \<Rightarrow> bool" where
  no_events: "act_trace []"
| one_more: "act_trace es \<Longrightarrow> act_event_ok (act_after es) e \<Longrightarrow> ve_kind e \<notin> set OBSERVATIONAL_KINDS \<Longrightarrow>
     ve_source e = required_source (ve_kind e) \<Longrightarrow> act_trace (es @ [e])"

definition acts_traced :: "voice_event list \<Rightarrow> lifecycle \<Rightarrow> bool" where
  "acts_traced h s = (\<forall>a. act_trace (act_events a h) \<and> lc_acts s a = act_after (act_events a h))"

lemma act_events_append [simp]: "act_events a (g @ h) = act_events a g @ act_events a h"
  by (simp add: act_events_def)

lemma act_after_snoc [simp]: "act_after (es @ [e]) = Some (advance_act (act_after es) e)"
  by (simp add: act_after_def)

lemma act_after_Nil [simp]: "act_after [] = None"
  by (simp add: act_after_def)

interpretation vl_acts: history_reducer ingest acts_traced
proof
  fix h s e
  assume h: "acts_traced h s"
  show "\<not> snd (ingest s e) \<Longrightarrow> acts_traced h (fst (ingest s e))"
    using h by (simp add: ingest_rejected acts_traced_def)
  assume a: "snd (ingest s e)"
  then show "acts_traced (h @ [e]) (fst (ingest s e))"
  proof (cases rule: ingest_accepted_cases)
    case (observation s1)
    then show ?thesis using h by (simp add: acts_traced_def act_events_def observation_frame)
  next
    case act
    have "lc_acts s (ve_act e) = act_after (act_events (ve_act e) h)" "act_trace (act_events (ve_act e) h)"
      using h by (simp_all add: acts_traced_def)
    then have "act_trace (act_events (ve_act e) h @ [e])"
      using act(1,2) ingest_acceptedD(4) [OF a] by (auto intro: act_trace.one_more)
    then show ?thesis
      using h act(1) by (simp add: acts_traced_def act(3) commit_act_def act_events_def)
  qed
qed

lemma init_act [simp]: "lc_acts (init_lifecycle b) a = None" "lc_binding (init_lifecycle b) = b"
  "lc_sequence (init_lifecycle b) = -1" "lc_at_ms (init_lifecycle b) = -1"
  by (simp_all add: init_lifecycle_def)

lemma acts_traced_init: "acts_traced [] (init_lifecycle b)"
  by (simp add: acts_traced_def act_events_def act_trace.no_events)

lemma ordered_history_init: "ordered_history [] (init_lifecycle b)"
  by (simp add: ordered_history_def)

lemma act_after_None [simp]: "act_after es = None \<longleftrightarrow> es = []"
  by (cases es rule: rev_cases) simp_all

lemma advance_act_simps [simp]:
  "ac_state (advance_act p e) = ve_kind e" "ac_turn (advance_act p e) = ve_turn e"
  "ac_generation (advance_act p e) = ve_generation e" "ac_kind (advance_act p e) = ve_act_kind e"
  "ac_text (advance_act p e) = or_prior (vp_text (ve_payload e)) ac_text p"
  "ac_audio (advance_act p e) = or_prior (vp_audio (ve_payload e)) ac_audio p"
  "ac_playout (advance_act p e) = or_prior (vp_playout (ve_payload e)) ac_playout p"
  by (simp_all add: advance_act_def)

lemma same_act_advance [simp]: "same_act (advance_act p e) x \<longleftrightarrow>
    ve_turn x = ve_turn e \<and> ve_generation x = ve_generation e \<and> ve_act_kind x = ve_act_kind e"
  by (auto simp: same_act_def)

lemma act_trace_same:
  assumes "act_trace es" and "act_after es = Some r" and "x \<in> set es"
  shows "same_act r x \<and> ve_source x = required_source (ve_kind x)"
  using assms
proof (induction arbitrary: r x rule: act_trace.induct)
  case no_events
  then show ?case by simp
next
  case (one_more es e)
  show ?case
  proof (cases "act_after es")
    case None
    with one_more show ?thesis by (auto simp: same_act_def)
  next
    case (Some q)
    with one_more.hyps(2) have q: "same_act q e" by (simp add: act_event_ok_def Let_def)
    from one_more.IH [OF Some] have "x \<in> set es \<Longrightarrow> same_act q x \<and> ve_source x = required_source (ve_kind x)" .
    with q one_more.prems one_more.hyps(4) show ?thesis
      by (auto simp: same_act_def)
  qed
qed

text \<open>The way to a playback: bound, possibly lost and bound again any number of times.\<close>

definition bound_path :: "nat \<Rightarrow> voice_kind list" where
  "bound_path n = [RESPONSE_AUTHORIZED, SEMANTIC_ACT_CONFIRMED, TTS_BOUND] @
     concat (replicate n [PLAYOUT_BOUND, PLAYOUT_RECONNECTED])"

fun act_shape :: "voice_kind \<Rightarrow> voice_kind list \<Rightarrow> bool" where
  "act_shape RESPONSE_AUTHORIZED ks = (ks = [RESPONSE_AUTHORIZED])"
| "act_shape SEMANTIC_ACT_CONFIRMED ks = (ks = [RESPONSE_AUTHORIZED, SEMANTIC_ACT_CONFIRMED])"
| "act_shape TTS_BOUND ks = (ks = bound_path 0)"
| "act_shape PLAYOUT_BOUND ks = (\<exists>n. ks = bound_path n @ [PLAYOUT_BOUND])"
| "act_shape PLAYOUT_RECONNECTED ks = (\<exists>n. ks = bound_path (Suc n))"
| "act_shape TRANSPORT_RESOLVED ks = (\<exists>n. ks = bound_path n @ [PLAYOUT_BOUND, TRANSPORT_RESOLVED])"
| "act_shape CALLER_PLAYBACK_OBSERVED ks =
     (\<exists>n. ks = bound_path n @ [PLAYOUT_BOUND, TRANSPORT_RESOLVED, CALLER_PLAYBACK_OBSERVED])"
| "act_shape _ ks = True"

lemma bound_path_Suc: "bound_path (Suc n) = bound_path n @ [PLAYOUT_BOUND, PLAYOUT_RECONNECTED]"
proof -
  have "concat (replicate (Suc n) xs) = concat (replicate n xs) @ xs" for xs :: "voice_kind list"
    by (induction n) simp_all
  then show ?thesis unfolding bound_path_def by (metis append.assoc)
qed

lemma bound_path_0: "[RESPONSE_AUTHORIZED, SEMANTIC_ACT_CONFIRMED, TTS_BOUND] = bound_path 0"
  by (simp add: bound_path_def)

lemma act_shape_step:
  assumes "ac_state r \<in> set (expected_states k)" and "act_shape (ac_state r) ks"
  shows "act_shape k (ks @ [k])"
  using assms
  by (cases k) (auto simp: bound_path_0 simp flip: bound_path_Suc)

lemma first_kind: "expected_states k = [] \<Longrightarrow> k \<notin> set OBSERVATIONAL_KINDS \<Longrightarrow> k = RESPONSE_AUTHORIZED"
  by (cases k) (simp_all add: OBSERVATIONAL_KINDS_def INPUT_KINDS_def GENERATION_KINDS_def
      SESSION_KINDS_def OPEN_STATES_def)

lemma act_trace_shape:
  assumes "act_trace es" and "act_after es = Some r"
  shows "act_shape (ac_state r) (map ve_kind es)"
  using assms
proof (induction arbitrary: r rule: act_trace.induct)
  case no_events
  then show ?case by simp
next
  case (one_more es e)
  have r: "ac_state r = ve_kind e" using one_more.prems by auto
  show ?case
  proof (cases "act_after es")
    case None
    with one_more.hyps(2,3) have "ve_kind e = RESPONSE_AUTHORIZED"
      by (auto simp: act_event_ok_def Let_def intro: first_kind)
    with None r show ?thesis by simp
  next
    case (Some q)
    with one_more.hyps(2) have "ac_state q \<in> set (expected_states (ve_kind e))"
      by (simp add: act_event_ok_def Let_def)
    from act_shape_step [OF this one_more.IH [OF Some]] r show ?thesis by simp
  qed
qed

subsection \<open>The media an act is bound to\<close>

definition bound_kinds :: "voice_kind list" where
  "bound_kinds = TTS_BOUND # PLAYOUT_BOUND # MEDIA_KINDS"

lemma or_prior_simps [simp]: "or_prior (Some x) f p = Some x" "or_prior None f None = None"
  "or_prior None f (Some r) = f r"
  by (simp_all add: or_prior_def)

lemma or_prior_same: "x = f r \<Longrightarrow> or_prior x f (Some r) = f r"
  by (simp add: or_prior_def)

text \<open>Every event from the binding of the speech on names the act's text and audio.\<close>

lemma act_trace_media:
  assumes "act_trace es" and "act_after es = Some r" and "x \<in> set es" and "ve_kind x \<in> set bound_kinds"
  shows "vp_text (ve_payload x) \<noteq> None \<and> vp_text (ve_payload x) = ac_text r \<and>
    vp_audio (ve_payload x) \<noteq> None \<and> vp_audio (ve_payload x) = ac_audio r"
  using assms
proof (induction arbitrary: r x rule: act_trace.induct)
  case no_events
  then show ?case by simp
next
  case (one_more es e)
  have r: "r = advance_act (act_after es) e" using one_more.prems(1) by simp
  show ?case
  proof (cases "act_after es")
    case None
    with one_more.hyps(2,3) have "ve_kind e = RESPONSE_AUTHORIZED"
      by (auto simp: act_event_ok_def Let_def intro: first_kind)
    with None one_more.prems(2,3) show ?thesis by (simp add: bound_kinds_def MEDIA_KINDS_def)
  next
    case (Some q)
    note IH = one_more.IH [OF Some]
    have ok: "act_event_ok (Some q) e" using one_more.hyps(2) Some by simp
    show ?thesis
    proof (cases "x \<in> set es")
      case False
      with one_more.prems have "x = e" by simp
      with one_more.prems(3) ok have "vp_text (ve_payload e) \<noteq> None \<and> vp_audio (ve_payload e) \<noteq> None"
        by (auto simp: bound_kinds_def act_event_ok_def Let_def)
      with \<open>x = e\<close> show ?thesis by (simp add: r or_prior_def)
    next
      case True
      from IH [OF this one_more.prems(3)] have old: "vp_text (ve_payload x) = ac_text q" "ac_text q \<noteq> None"
        "vp_audio (ve_payload x) = ac_audio q" "ac_audio q \<noteq> None" by metis+
      have "ve_kind e \<noteq> TTS_BOUND \<and> ve_kind e \<noteq> SEMANTIC_ACT_CONFIRMED \<and> ve_kind e \<noteq> RESPONSE_AUTHORIZED"
      proof (rule ccontr)
        assume "\<not> ?thesis"
        with ok have "ac_state q \<in> {SEMANTIC_ACT_CONFIRMED, RESPONSE_AUTHORIZED}"
          by (auto simp: act_event_ok_def Let_def)
        with act_trace_shape [OF one_more.hyps(1) Some]
        have "ve_kind x \<in> {SEMANTIC_ACT_CONFIRMED, RESPONSE_AUTHORIZED}" using True
          by (metis (no_types, lifting) act_shape.simps(1,2) empty_iff imageI insertE insertI1 insertI2
              list.set_map list.simps(15) list.set(1))
        with one_more.prems(3) show False by (auto simp: bound_kinds_def MEDIA_KINDS_def)
      qed
      with ok one_more.hyps(3) old have "vp_text (ve_payload e) = ac_text q \<and> vp_audio (ve_payload e) = ac_audio q"
        by (cases "ve_kind e") (auto simp: act_event_ok_def Let_def same_media_def MEDIA_KINDS_def
            OBSERVATIONAL_KINDS_def INPUT_KINDS_def GENERATION_KINDS_def SESSION_KINDS_def)
      with old show ?thesis by (simp add: r Some or_prior_same)
    qed
  qed
qed

lemma act_trace_snocE:
  assumes "act_trace (es @ [e])"
  obtains "act_trace es" "act_event_ok (act_after es) e"
  using assms by (cases rule: act_trace.cases) auto

text \<open>The three events that end a heard act all name its playout.\<close>

lemma heard_playout:
  assumes "act_trace (pre @ [pb, tr, cp])"
    and "map ve_kind [pb, tr, cp] = [PLAYOUT_BOUND, TRANSPORT_RESOLVED, CALLER_PLAYBACK_OBSERVED]"
    and "act_after (pre @ [pb, tr, cp]) = Some r" and "x \<in> {pb, tr, cp}"
  shows "same_media r (ve_payload x)"
proof -
  have split: "pre @ [pb, tr, cp] = ((pre @ [pb]) @ [tr]) @ [cp]" by simp
  obtain t3: "act_trace ((pre @ [pb]) @ [tr])" and o3: "act_event_ok (act_after ((pre @ [pb]) @ [tr])) cp"
    using assms(1) unfolding split by (rule act_trace_snocE)
  obtain t2: "act_trace (pre @ [pb])" and o2: "act_event_ok (act_after (pre @ [pb])) tr"
    using t3 by (rule act_trace_snocE)
  obtain o1: "act_event_ok (act_after pre) pb" using t2 by (rule act_trace_snocE)
  define r1 where "r1 = advance_act (act_after pre) pb"
  define r2 where "r2 = advance_act (Some r1) tr"
  have o2': "act_event_ok (Some r1) tr" using o2 unfolding act_after_snoc r1_def .
  have o3': "act_event_ok (Some r2) cp" using o3 unfolding act_after_snoc r1_def r2_def .
  have r: "r = advance_act (Some r2) cp"
    using assms(3) unfolding split by (simp only: act_after_snoc r1_def r2_def option.inject)
  have m1: "same_media r1 (ve_payload pb)"
    using o1 assms(2) by (auto simp: r1_def same_media_def act_event_ok_def Let_def split: option.splits)
  have m2: "same_media r1 (ve_payload tr)"
    using o2' assms(2) by (simp add: act_event_ok_def Let_def MEDIA_KINDS_def)
  then have e2: "ac_text r2 = ac_text r1 \<and> ac_audio r2 = ac_audio r1 \<and> ac_playout r2 = ac_playout r1"
    by (simp add: r2_def same_media_def or_prior_def)
  have m3: "same_media r2 (ve_payload cp)"
    using o3' assms(2) by (simp add: act_event_ok_def Let_def MEDIA_KINDS_def)
  then have "ac_text r = ac_text r2 \<and> ac_audio r = ac_audio r2 \<and> ac_playout r = ac_playout r2"
    by (simp add: r same_media_def or_prior_def)
  with m1 m2 m3 e2 assms(4) show ?thesis by (auto simp: same_media_def)
qed

section \<open>The caller's input\<close>

definition input_events :: "voice_event list \<Rightarrow> voice_event list" where
  "input_events h = filter (\<lambda>e. ve_kind e \<in> set INPUT_KINDS) h"

definition turn_events :: "string \<Rightarrow> voice_event list \<Rightarrow> voice_event list" where
  "turn_events t h = filter (\<lambda>e. ve_kind e \<in> set INPUT_KINDS \<and> ve_turn e = t) h"

lemma input_events_append [simp]: "input_events (g @ h) = input_events g @ input_events h"
  and turn_events_append [simp]: "turn_events t (g @ h) = turn_events t g @ turn_events t h"
  and input_events_Nil [simp]: "input_events [] = []"
  and turn_events_Nil [simp]: "turn_events t [] = []"
  by (simp_all add: input_events_def turn_events_def)

text \<open>The part of the state that only input events write.\<close>

definition input_part where
  "input_part s = (lc_history s, lc_floor s, lc_input_observations s, lc_input_states s, lc_input_finals s)"

definition accept_input :: "lifecycle \<Rightarrow> voice_event \<Rightarrow> lifecycle" where
  "accept_input s e =
     (let s1 = remember_input
            (s\<lparr>lc_input_states := (lc_input_states s)(ve_turn e \<mapsto> ve_kind e),
               lc_input_observations := AList.update (ve_turn e) e (lc_input_observations s)\<rparr>) e
      in if ve_kind e = INPUT_TURN_FINAL
         then s1\<lparr>lc_input_finals := (lc_input_finals s1)(ve_turn e \<mapsto> e)\<rparr> else s1)"

lemma input_part_reject [simp]: "input_part (s\<lparr>lc_rejected := n\<rparr>) = input_part s"
  and input_part_position [simp]: "input_part (s\<lparr>lc_sequence := q, lc_at_ms := t\<rparr>) = input_part s"
  by (simp_all add: input_part_def)

lemma input_kind_observational: "k \<in> set INPUT_KINDS \<Longrightarrow> k \<in> set OBSERVATIONAL_KINDS"
  by (simp add: OBSERVATIONAL_KINDS_def)

lemma accepted_input_part:
  assumes "snd (ingest s e)"
  shows "if ve_kind e \<in> set INPUT_KINDS
    then input_allowed (ve_kind e) (lc_input_states s (ve_turn e)) \<and>
         input_part (fst (ingest s e)) = input_part (accept_input s e)
    else input_part (fst (ingest s e)) = input_part s"
  using assms
proof (cases rule: ingest_accepted_cases)
  case (observation s1)
  then show ?thesis
    unfolding observation(3) input_part_position
    by (auto simp: ingest_observation_def accept_input_def input_part_def Let_def
        split: if_splits option.splits)
next
  case act
  then show ?thesis using input_kind_observational by (auto simp: input_part_def)
qed

lemma input_partD: "input_part s = input_part t \<Longrightarrow>
    lc_history s = lc_history t \<and> lc_floor s = lc_floor t \<and> lc_input_observations s = lc_input_observations t \<and>
    lc_input_states s = lc_input_states t \<and> lc_input_finals s = lc_input_finals t"
  by (simp add: input_part_def)

subsection \<open>The bounded history\<close>

definition history_traced :: "voice_event list \<Rightarrow> lifecycle \<Rightarrow> bool" where
  "history_traced h s =
     (let ins = input_events h; n = length ins in
      lc_history s = drop (n - MAX_HISTORY) ins \<and>
      lc_floor s = (if n \<le> MAX_HISTORY then -1 else ve_sequence (ins ! (n - Suc MAX_HISTORY))))"

lemma history_traced_input:
  assumes "history_traced h s" and "input_part s' = input_part (accept_input s e)"
    and "ve_kind e \<in> set INPUT_KINDS"
  shows "history_traced (h @ [e]) s'"
proof -
  define ins where "ins = input_events h"
  have h: "lc_history s = drop (length ins - MAX_HISTORY) ins"
    "lc_floor s = (if length ins \<le> MAX_HISTORY then -1 else ve_sequence (ins ! (length ins - Suc MAX_HISTORY)))"
    using assms(1) by (simp_all add: history_traced_def ins_def Let_def)
  let ?h = "drop (length ins - MAX_HISTORY) ins @ [e]"
  have s': "lc_history s' = (if MAX_HISTORY < length ?h then tl ?h else ?h)"
    "lc_floor s' = (if MAX_HISTORY < length ?h then ve_sequence (hd ?h) else lc_floor s)"
    using input_partD [OF assms(2)] by (simp_all add: accept_input_def remember_input_def Let_def h(1))
  have e: "input_events (h @ [e]) = ins @ [e]" using assms(3) by (simp add: ins_def input_events_def)
  show ?thesis
  proof (cases "MAX_HISTORY \<le> length ins")
    case True
    define k where "k = length ins - MAX_HISTORY"
    have "0 < MAX_HISTORY" by (simp add: MAX_HISTORY_def)
    with True have k: "k < length ins" "MAX_HISTORY < length ?h" "length (ins @ [e]) - MAX_HISTORY = Suc k"
      "length (ins @ [e]) - Suc MAX_HISTORY = k" "\<not> length (ins @ [e]) \<le> MAX_HISTORY"
      by (simp_all add: k_def)
    have "tl ?h = drop (Suc k) (ins @ [e])" "hd ?h = (ins @ [e]) ! k"
      using k(1) by (simp_all add: k_def [symmetric] drop_Suc hd_append hd_drop_conv_nth nth_append tl_drop)
    then show ?thesis unfolding history_traced_def Let_def e s' k(3,4) using k(2,5) by simp
  next
    case False
    then show ?thesis unfolding history_traced_def Let_def e s' h(2) by simp
  qed
qed

interpretation vl_history: history_reducer ingest history_traced
proof
  fix h s e
  assume h: "history_traced h s"
  show "\<not> snd (ingest s e) \<Longrightarrow> history_traced h (fst (ingest s e))"
    using h by (simp add: ingest_rejected history_traced_def)
  assume "snd (ingest s e)"
  note part = accepted_input_part [OF this]
  show "history_traced (h @ [e]) (fst (ingest s e))"
  proof (cases "ve_kind e \<in> set INPUT_KINDS")
    case True
    with part history_traced_input [OF h] show ?thesis by simp
  next
    case False
    with part have "lc_history (fst (ingest s e)) = lc_history s" "lc_floor (fst (ingest s e)) = lc_floor s"
      by (simp_all add: input_part_def)
    moreover have "input_events (h @ [e]) = input_events h" using False by (simp add: input_events_def)
    ultimately show ?thesis using h by (simp only: history_traced_def)
  qed
qed

lemma history_traced_init: "history_traced [] (init_lifecycle b)"
  by (simp add: history_traced_def init_lifecycle_def)

subsection \<open>The latest observation and the turns\<close>

definition latest_traced :: "voice_event list \<Rightarrow> lifecycle \<Rightarrow> bool" where
  "latest_traced h s =
     (let ins = input_events h; obs = map snd (lc_input_observations s) in
      (ins = [] \<longleftrightarrow> obs = []) \<and> set obs \<subseteq> set ins \<and> (ins \<noteq> [] \<longrightarrow> last ins \<in> set obs))"

lemma update_values:
  "set (map snd (AList.update k v al)) \<subseteq> insert v (set (map snd al))"
  "v \<in> set (map snd (AList.update k v al))" "AList.update k v al \<noteq> []"
  by (induction al) auto

interpretation vl_latest: history_reducer ingest latest_traced
proof
  fix h s e
  assume h: "latest_traced h s"
  show "\<not> snd (ingest s e) \<Longrightarrow> latest_traced h (fst (ingest s e))"
    using h by (simp add: ingest_rejected latest_traced_def)
  assume "snd (ingest s e)"
  note part = accepted_input_part [OF this]
  show "latest_traced (h @ [e]) (fst (ingest s e))"
  proof (cases "ve_kind e \<in> set INPUT_KINDS")
    case True
    with part have "input_part (fst (ingest s e)) = input_part (accept_input s e)" by simp
    from input_partD [OF this]
    have "lc_input_observations (fst (ingest s e)) = AList.update (ve_turn e) e (lc_input_observations s)"
      by (simp add: accept_input_def Let_def)
    moreover have "input_events (h @ [e]) = input_events h @ [e]" using True by (simp add: input_events_def)
    ultimately show ?thesis
      using h update_values [where k = "ve_turn e" and v = e and al = "lc_input_observations s"]
      by (auto simp: latest_traced_def Let_def)
  next
    case False
    with part have "lc_input_observations (fst (ingest s e)) = lc_input_observations s"
      by (simp add: input_part_def)
    moreover have "input_events (h @ [e]) = input_events h" using False by (simp add: input_events_def)
    ultimately show ?thesis using h by (simp only: latest_traced_def)
  qed
qed

lemma latest_traced_init: "latest_traced [] (init_lifecycle b)"
  by (simp add: latest_traced_def init_lifecycle_def)

lemma fold_max_sequence:
  fixes es :: "voice_event list"
  defines "m \<equiv> \<lambda>x best. if ve_sequence best < ve_sequence x then x else best"
  shows "fold m es e \<in> insert e (set es) \<and> (\<forall>x \<in> insert e (set es). ve_sequence x \<le> ve_sequence (fold m es e))"
proof (induction es arbitrary: e)
  case Nil
  then show ?case by simp
next
  case (Cons x es)
  from Cons.IH [of "m x e"] show ?case by (auto simp: m_def split: if_splits)
qed

lemma sorted_last_sequence:
  assumes "sorted_wrt (<) (map ve_sequence xs)" and "x \<in> set xs" and "ve_sequence (last xs) \<le> ve_sequence x"
  shows "x = last xs"
proof (cases xs rule: rev_cases)
  case (snoc ys y)
  with assms show ?thesis by (fastforce simp: sorted_wrt_append)
qed (use assms in simp)

text \<open>The state and the final of each turn, and the order of its events.\<close>

inductive turn_trace :: "voice_event list \<Rightarrow> bool" where
  no_input: "turn_trace []"
| more_input: "turn_trace es \<Longrightarrow>
     input_allowed (ve_kind e) (if es = [] then None else Some (ve_kind (last es))) \<Longrightarrow>
     turn_trace (es @ [e])"

definition turns_traced :: "voice_event list \<Rightarrow> lifecycle \<Rightarrow> bool" where
  "turns_traced h s =
     (\<forall>t. let es = turn_events t h in
        turn_trace es \<and> lc_input_states s t = (if es = [] then None else Some (ve_kind (last es))) \<and>
        lc_input_finals s t =
          (if es \<noteq> [] \<and> ve_kind (last es) = INPUT_TURN_FINAL then Some (last es) else None))"

lemma final_closes_turn: "input_allowed k (Some INPUT_TURN_FINAL) \<longleftrightarrow> False"
  by (simp add: input_allowed_def)

interpretation vl_turns: history_reducer ingest turns_traced
proof
  fix h s e
  assume h: "turns_traced h s"
  show "\<not> snd (ingest s e) \<Longrightarrow> turns_traced h (fst (ingest s e))"
    using h by (simp add: ingest_rejected turns_traced_def)
  assume "snd (ingest s e)"
  note part = accepted_input_part [OF this]
  let ?s' = "fst (ingest s e)"
  show "turns_traced (h @ [e]) ?s'"
  proof (cases "ve_kind e \<in> set INPUT_KINDS")
    case True
    with part have ok: "input_allowed (ve_kind e) (lc_input_states s (ve_turn e))"
      and eq: "input_part ?s' = input_part (accept_input s e)" by simp_all
    from input_partD [OF eq] have s': "lc_input_states ?s' = (lc_input_states s)(ve_turn e \<mapsto> ve_kind e)"
      "lc_input_finals ?s' = (if ve_kind e = INPUT_TURN_FINAL
         then (lc_input_finals s)(ve_turn e \<mapsto> e) else lc_input_finals s)"
      by (simp_all add: accept_input_def Let_def)
    have ev: "turn_events t (h @ [e]) = (if t = ve_turn e then turn_events t h @ [e] else turn_events t h)" for t
      using True by (simp add: turn_events_def)
    have old: "turn_trace (turn_events t h)"
      "lc_input_states s t = (if turn_events t h = [] then None else Some (ve_kind (last (turn_events t h))))"
      "lc_input_finals s t = (if turn_events t h \<noteq> [] \<and> ve_kind (last (turn_events t h)) = INPUT_TURN_FINAL
         then Some (last (turn_events t h)) else None)" for t
      using h by (simp_all add: turns_traced_def Let_def)
    have "turn_trace (turn_events (ve_turn e) h @ [e])"
      using ok old(1,2) by (intro turn_trace.more_input) simp_all
    moreover have "turn_events (ve_turn e) h \<noteq> [] \<Longrightarrow>
        ve_kind (last (turn_events (ve_turn e) h)) \<noteq> INPUT_TURN_FINAL"
      using ok old(2) [of "ve_turn e"] by (auto simp: final_closes_turn)
    ultimately have new: "turn_trace (turn_events (ve_turn e) h @ [e])"
      "turn_events (ve_turn e) h \<noteq> [] \<Longrightarrow>
        ve_kind (last (turn_events (ve_turn e) h)) \<noteq> INPUT_TURN_FINAL" by simp_all
    show ?thesis
      unfolding turns_traced_def Let_def
    proof (rule allI)
      fix t
      show "turn_trace (turn_events t (h @ [e])) \<and>
        lc_input_states ?s' t = (if turn_events t (h @ [e]) = [] then None
          else Some (ve_kind (last (turn_events t (h @ [e]))))) \<and>
        lc_input_finals ?s' t = (if turn_events t (h @ [e]) \<noteq> [] \<and>
            ve_kind (last (turn_events t (h @ [e]))) = INPUT_TURN_FINAL
          then Some (last (turn_events t (h @ [e]))) else None)"
      proof (cases "t = ve_turn e")
        case True
        then show ?thesis using new old(3) [of "ve_turn e"] by (cases "turn_events (ve_turn e) h = []") (simp_all add: ev s' del: turn_events_append)
      next
        case False
        then show ?thesis using old [of t] by (simp add: ev s' del: turn_events_append)
      qed
    qed
  next
    case False
    with part have "lc_input_states ?s' = lc_input_states s" "lc_input_finals ?s' = lc_input_finals s"
      by (simp_all add: input_part_def)
    moreover have "turn_events t (h @ [e]) = turn_events t h" for t using False by (simp add: turn_events_def)
    ultimately show ?thesis using h by (simp add: turns_traced_def Let_def del: turn_events_append)
  qed
qed

lemma turns_traced_init: "turns_traced [] (init_lifecycle b)"
  by (simp add: turns_traced_def init_lifecycle_def turn_trace.no_input)

lemma final_is_last:
  assumes "turn_trace es" and "e \<in> set es" and "ve_kind e = INPUT_TURN_FINAL"
  shows "e = last es"
  using assms
proof (induction rule: turn_trace.induct)
  case no_input
  then show ?case by simp
next
  case (more_input es x)
  then show ?case by (cases "e \<in> set es") (auto simp: final_closes_turn split: if_splits)
qed

section \<open>Closed acts and commands\<close>

definition TERMINAL_STATES :: "voice_kind list" where
  "TERMINAL_STATES = [PLAYOUT_PARTIAL, PLAYOUT_CLEARED, PLAYOUT_INTERRUPTED, CALLER_PLAYBACK_OBSERVED,
     ACT_FAILED, ACT_TIMED_OUT]"

lemma terminal_no_successor: "k \<in> set TERMINAL_STATES \<Longrightarrow> k \<notin> set (expected_states j)"
  by (cases j) (auto simp: TERMINAL_STATES_def OPEN_STATES_def)

lemma terminal_not_open: "k \<in> set TERMINAL_STATES \<Longrightarrow> k \<notin> set OPEN_STATES"
  by (auto simp: TERMINAL_STATES_def OPEN_STATES_def)

lemma closed_act_step:
  assumes "lc_acts s a = Some r" and "ac_state r \<in> set TERMINAL_STATES"
  shows "lc_acts (fst (ingest s e)) a = Some r \<and>
    (snd (ingest s e) \<and> ve_act e = a \<longrightarrow> ve_kind e \<in> set INPUT_KINDS \<union> set SESSION_KINDS)"
proof (cases "snd (ingest s e)")
  case True
  then show ?thesis
  proof (cases rule: ingest_accepted_cases)
    case (observation s1)
    have "ve_kind e \<in> set INPUT_KINDS \<union> set SESSION_KINDS" if "ve_act e = a"
      using observation(1,2) that assms terminal_not_open [OF assms(2)]
      by (auto simp: ingest_observation_def OBSERVATIONAL_KINDS_def Let_def split: if_splits)
    then show ?thesis using observation assms by (simp add: observation_frame)
  next
    case act
    have "ve_act e \<noteq> a"
      using act(2) assms terminal_no_successor [OF assms(2)] by (auto simp: act_event_ok_def Let_def)
    then show ?thesis using assms by (simp add: act(3) commit_act_def)
  qed
qed (simp add: ingest_rejected assms)

datatype lifecycle_op = Ingest voice_event | Command voice_command pyval

fun op_step :: "lifecycle \<Rightarrow> lifecycle_op \<Rightarrow> lifecycle \<times> bool" where
  "op_step s (Ingest e) = ingest s e"
| "op_step s (Command c now) = (case accept_command s c now of Inl e \<Rightarrow> (s, False) | Inr r \<Rightarrow> r)"

definition armed :: "voice_command \<Rightarrow> lifecycle \<Rightarrow> bool" where
  "armed c s =
     (vc_binding c = lc_binding s \<and> vc_confirmation c = CALLER_PLAYBACK_OR_INFERENCE \<and>
      lc_commands s (vc_key c) = Some c \<and>
      (\<exists>r. lc_acts s (vc_act c) = Some r \<and> ac_state r = CALLER_PLAYBACK_OBSERVED \<and> ac_kind r = QUESTION))"

lemma accept_command_cases:
  assumes "accept_command s c now = Inr (s', ok)"
  obtains (refused) "\<not> ok" "s' = s"
  | (repeated) "ok" "lc_commands s (vc_key c) = Some c" "s' = s\<lparr>lc_idempotent := lc_idempotent s + 1\<rparr>" "armed c s'"
  | (fresh) "ok" "lc_commands s (vc_key c) = None"
      "s' = s\<lparr>lc_commands := (lc_commands s)(vc_key c \<mapsto> c)\<rparr>" "armed c s'"
proof (cases ok)
  case False
  have "s' = s" using assms False
    by (simp add: accept_command_def command_for_act_def ebind_def split: if_splits sum.splits option.splits)
  with False show thesis by (rule refused)
next
  case True
  have b: "vc_binding c = lc_binding s" using assms True by (simp add: accept_command_def split: if_splits)
  with assms obtain n where "nonnegative now = Inr n"
    and n: "(if vc_expires_at_ms c < n then Inr (s, False) else command_for_act s c (lc_acts s (vc_act c))) = Inr (s', ok)"
    by (auto simp: accept_command_def ebind_eq_Inr)
  with True have "command_for_act s c (lc_acts s (vc_act c)) = Inr (s', True)" by (simp split: if_splits)
  then obtain r where r: "lc_acts s (vc_act c) = Some r" "ac_state r = CALLER_PLAYBACK_OBSERVED"
      "ac_kind r = QUESTION" "vc_confirmation c = CALLER_PLAYBACK_OR_INFERENCE"
    and k: "(case lc_commands s (vc_key c) of
         Some existing \<Rightarrow> if existing \<noteq> c then Inr (s, False) else Inr (s\<lparr>lc_idempotent := lc_idempotent s + 1\<rparr>, True)
       | None \<Rightarrow> Inr (s\<lparr>lc_commands := (lc_commands s)(vc_key c \<mapsto> c)\<rparr>, True)) = (Inr (s', True) :: (lifecycle \<times> bool) res)"
    by (auto simp: command_for_act_def split: option.splits if_splits)
  show thesis
  proof (cases "lc_commands s (vc_key c)")
    case None
    with k have s': "s' = s\<lparr>lc_commands := (lc_commands s)(vc_key c \<mapsto> c)\<rparr>" by simp
    show thesis by (rule fresh [OF True None s']) (simp add: armed_def s' b r)
  next
    case (Some existing)
    with k have "existing = c" by (simp split: if_splits)
    with Some k have c: "lc_commands s (vc_key c) = Some c"
      and s': "s' = s\<lparr>lc_idempotent := lc_idempotent s + 1\<rparr>" by simp_all
    show thesis by (rule repeated [OF True c s']) (simp add: armed_def s' b r c)
  qed
qed

lemma accept_command_frame:
  assumes "accept_command s c now = Inr (s', ok)"
  shows "lc_acts s' = lc_acts s" "lc_binding s' = lc_binding s" "lc_pending_question s' = lc_pending_question s"
    "lc_commands s k = Some d \<Longrightarrow> lc_commands s' k = Some d"
  using assms by (auto elim!: accept_command_cases)

lemma armed_step: "armed c s \<Longrightarrow> armed c (fst (op_step s x))"
proof (cases x)
  case (Ingest e)
  assume a: "armed c s"
  then obtain r where "lc_acts s (vc_act c) = Some r" "ac_state r = CALLER_PLAYBACK_OBSERVED" "ac_kind r = QUESTION"
    by (auto simp: armed_def)
  with closed_act_step [of s "vc_act c" r e] a show ?thesis
    by (simp add: armed_def Ingest TERMINAL_STATES_def)
next
  case (Command d now)
  assume "armed c s"
  then show ?thesis
    by (cases "accept_command s d now") (auto simp: Command armed_def accept_command_frame)
qed

interpretation armed_inv: invariant_reducer op_step "\<lambda>s. (event_core s)" "armed c" for c
proof
  fix s x
  show "armed c s \<Longrightarrow> armed c (fst (op_step s x))" by (rule armed_step)
  show "\<not> snd (op_step s x) \<Longrightarrow> event_core (fst (op_step s x)) = event_core s"
    by (cases x)
       (auto simp: ingest_rejected event_core_def split: sum.splits prod.splits elim: accept_command_cases)
qed

text \<open>What the accepted events of a mixed run leave behind.\<close>

fun events_of :: "lifecycle_op list \<Rightarrow> voice_event list" where
  "events_of [] = []"
| "events_of (Ingest e # xs) = e # events_of xs"
| "events_of (Command c n # xs) = events_of xs"

lemma events_of_append [simp]: "events_of (xs @ ys) = events_of xs @ events_of ys"
  by (induction xs rule: events_of.induct) simp_all

definition heard_question :: "string \<Rightarrow> voice_event \<Rightarrow> bool" where
  "heard_question a e = (ve_kind e = CALLER_PLAYBACK_OBSERVED \<and> ve_act_kind e = QUESTION \<and> ve_act e = a)"

definition questions_traced :: "lifecycle_op list \<Rightarrow> lifecycle \<Rightarrow> bool" where
  "questions_traced h s =
     (\<forall>a r. lc_acts s a = Some r \<longrightarrow> ac_state r = CALLER_PLAYBACK_OBSERVED \<longrightarrow> ac_kind r = QUESTION \<longrightarrow>
        lc_pending_question s \<and> (\<exists>e \<in> set (events_of h). heard_question a e))"

interpretation op_questions: history_reducer op_step questions_traced
proof
  fix h s x
  assume h: "questions_traced h s"
  show "questions_traced h (fst (op_step s x))" if "\<not> snd (op_step s x)"
  proof (cases x)
    case (Ingest e)
    with that h show ?thesis by (simp add: ingest_rejected questions_traced_def)
  next
    case (Command c n)
    with h show ?thesis
      by (cases "accept_command s c n") (auto simp: questions_traced_def accept_command_frame)
  qed
  show "questions_traced (h @ [x]) (fst (op_step s x))" if "snd (op_step s x)"
  proof (cases x)
    case (Ingest e)
    with that have "snd (ingest s e)" by simp
    then show ?thesis
    proof (cases rule: ingest_accepted_cases)
      case (observation s1)
      with h Ingest show ?thesis by (fastforce simp: questions_traced_def observation_frame)
    next
      case act
      with h Ingest show ?thesis
        by (fastforce simp: questions_traced_def commit_act_def heard_question_def split: if_splits)
    qed
  next
    case (Command c n)
    with h show ?thesis
      by (cases "accept_command s c n") (auto simp: questions_traced_def accept_command_frame)
  qed
qed

lemma questions_traced_init: "questions_traced [] (init_lifecycle b)"
  by (simp add: questions_traced_def)

section \<open>Well-formed events\<close>

definition good_id :: "string \<Rightarrow> bool" where
  "good_id s = (s \<noteq> [] \<and> length s \<le> 128)"

definition good_digest :: "string \<Rightarrow> bool" where
  "good_digest s = (length s = 64 \<and> set s \<subseteq> set ''0123456789abcdef'')"

definition good_option :: "('a \<Rightarrow> bool) \<Rightarrow> 'a option \<Rightarrow> bool" where
  "good_option P x = (case x of None \<Rightarrow> True | Some y \<Rightarrow> P y)"

definition good_binding :: "voice_binding \<Rightarrow> bool" where
  "good_binding b = (good_id (vb_environment b) \<and> good_id (vb_contractor b) \<and> good_id (vb_call b) \<and>
     good_id (vb_stream b) \<and> 0 \<le> vb_epoch b)"

definition good_payload :: "voice_payload \<Rightarrow> bool" where
  "good_payload p = (good_option ((\<le>) 0) (vp_ordinal p) \<and> good_option ((\<le>) 0) (vp_duration p) \<and>
     good_option good_digest (vp_text p) \<and> good_option good_id (vp_audio p) \<and> good_option good_id (vp_playout p))"

definition wf_event :: "voice_event \<Rightarrow> bool" where
  "wf_event e = (good_binding (ve_binding e) \<and> good_payload (ve_payload e) \<and> 0 \<le> ve_sequence e \<and>
     0 \<le> ve_at_ms e \<and> good_id (ve_turn e) \<and> good_id (ve_generation e) \<and> good_id (ve_act e))"

lemma valid_identifier_iff: "valid_identifier v = Inr s \<longleftrightarrow> v = PStr s \<and> good_id s"
  by (auto simp: valid_identifier_def good_id_def split: pyval.splits)

lemma nonnegative_iff: "nonnegative v = Inr i \<longleftrightarrow> v = PInt i \<and> 0 \<le> i"
  by (auto simp: nonnegative_def split: pyval.splits)

lemma hex_digest_iff: "hex_digest v = Inr s \<longleftrightarrow> v = PStr s \<and> good_digest s"
  by (auto simp: hex_digest_def good_digest_def split: pyval.splits)

lemma optional_iff:
  "optional p v = Inr x \<longleftrightarrow> (v = PNone \<and> x = None \<or> v \<noteq> PNone \<and> (\<exists>y. p v = Inr y \<and> x = Some y))"
  by (auto simp: optional_def ebind_eq_Inr)

lemmas validators = valid_identifier_iff nonnegative_iff hex_digest_iff optional_iff

text \<open>The dictionary of an event.\<close>

definition pyoptint :: "int option \<Rightarrow> pyval" where
  "pyoptint x = (case x of None \<Rightarrow> PNone | Some i \<Rightarrow> PInt i)"

definition event_dict :: "voice_event \<Rightarrow> (string \<times> pyval) list" where
  "event_dict e =
     [(''schema_version'', PInt 1), (''kind'', PStr (voice_kind_value (ve_kind e))),
      (''source'', PStr (voice_source_value (ve_source e))),
      (''sensitivity'', PStr (voice_sensitivity_value (ve_sensitivity e))),
      (''binding'', PDict
         [(''environment'', PStr (vb_environment (ve_binding e))),
          (''contractor_binding'', PStr (vb_contractor (ve_binding e))),
          (''call_binding'', PStr (vb_call (ve_binding e))),
          (''stream_binding'', PStr (vb_stream (ve_binding e))), (''epoch'', PInt (vb_epoch (ve_binding e)))]),
      (''sequence'', PInt (ve_sequence e)), (''at_ms'', PInt (ve_at_ms e)),
      (''input_turn_id'', PStr (ve_turn e)), (''generation_id'', PStr (ve_generation e)),
      (''semantic_act_id'', PStr (ve_act e)), (''semantic_act_kind'', PStr (act_kind_value (ve_act_kind e))),
      (''payload'', PDict
         [(''ordinal'', pyoptint (vp_ordinal (ve_payload e))), (''duration_ms'', pyoptint (vp_duration (ve_payload e))),
          (''text_digest'', pyopt (vp_text (ve_payload e))), (''audio_id'', pyopt (vp_audio (ve_payload e))),
          (''playout_id'', pyopt (vp_playout (ve_payload e)))])]"

lemma make_event_iff: "make_event ref kind source sens b sq ms tu ge ac ak p = Inr e \<longleftrightarrow>
    (e = \<lparr>ve_ref = ref, ve_kind = kind, ve_source = source, ve_sensitivity = sens, ve_binding = b,
       ve_sequence = ve_sequence e, ve_at_ms = ve_at_ms e, ve_turn = ve_turn e, ve_generation = ve_generation e,
       ve_act = ve_act e, ve_act_kind = ak, ve_payload = p\<rparr> \<and>
     sq = PInt (ve_sequence e) \<and> 0 \<le> ve_sequence e \<and> ms = PInt (ve_at_ms e) \<and> 0 \<le> ve_at_ms e \<and>
     tu = PStr (ve_turn e) \<and> good_id (ve_turn e) \<and> ge = PStr (ve_generation e) \<and> good_id (ve_generation e) \<and>
     ac = PStr (ve_act e) \<and> good_id (ve_act e))"
  by (cases e) (auto simp: make_event_def ebind_eq_Inr validators)

lemma make_binding_good: "make_binding e1 e2 e3 e4 e5 = Inr b \<Longrightarrow> good_binding b"
  by (auto simp: make_binding_def ebind_eq_Inr validators good_binding_def)

lemma make_payload_good: "make_payload e1 e2 e3 e4 e5 = Inr p \<Longrightarrow> good_payload p"
  by (auto simp: make_payload_def ebind_eq_Inr validators good_payload_def good_option_def)

lemma pyopt_identifier: "good_option good_id x \<Longrightarrow> optional valid_identifier (pyopt x) = Inr x"
  and pyopt_digest: "good_option good_digest x \<Longrightarrow> optional hex_digest (pyopt x) = Inr x"
  and pyoptint_nonnegative: "good_option ((\<le>) 0) i \<Longrightarrow> optional nonnegative (pyoptint i) = Inr i"
  by (auto simp: optional_iff validators pyopt_def pyoptint_def good_option_def split: option.splits)

lemma make_payload_pyopt:
  "good_payload p \<Longrightarrow> make_payload (pyoptint (vp_ordinal p)) (pyoptint (vp_duration p)) (pyopt (vp_text p))
     (pyopt (vp_audio p)) (pyopt (vp_playout p)) = Inr p"
  by (simp add: make_payload_def good_payload_def pyopt_identifier pyopt_digest pyoptint_nonnegative)

lemma binding_from_dict: "good_binding b \<Longrightarrow>
    binding_from (PDict [(''environment'', PStr (vb_environment b)), (''contractor_binding'', PStr (vb_contractor b)),
      (''call_binding'', PStr (vb_call b)), (''stream_binding'', PStr (vb_stream b)), (''epoch'', PInt (vb_epoch b))]) = Inr b"
  by (simp add: binding_from_def BINDING_FIELDS_def pget_def make_binding_def good_binding_def
      ebind_eq_Inr validators)

lemma payload_from_dict: "good_payload p \<Longrightarrow>
    payload_from (PDict [(''ordinal'', pyoptint (vp_ordinal p)), (''duration_ms'', pyoptint (vp_duration p)),
      (''text_digest'', pyopt (vp_text p)), (''audio_id'', pyopt (vp_audio p)), (''playout_id'', pyopt (vp_playout p))]) = Inr p"
  by (simp add: payload_from_def PAYLOAD_FIELDS_def pget_def make_payload_pyopt)

lemma kind_of_value: "enum_of voice_kind_value voice_kinds (PStr (voice_kind_value k)) = Inr k"
  by (rule enum_of_value) (simp add: voice_kinds_def, cases k, simp_all add: voice_kinds_def)

lemma source_of_value: "enum_of voice_source_value voice_sources (PStr (voice_source_value k)) = Inr k"
  by (rule enum_of_value) (simp add: voice_sources_def, cases k, simp_all add: voice_sources_def)

lemma sensitivity_of_value:
  "enum_of voice_sensitivity_value voice_sensitivities (PStr (voice_sensitivity_value k)) = Inr k"
  by (rule enum_of_value) (simp add: voice_sensitivities_def, cases k, simp_all add: voice_sensitivities_def)

lemma act_kind_of_value: "enum_of act_kind_value act_kinds (PStr (act_kind_value k)) = Inr k"
  by (rule enum_of_value) (simp add: act_kinds_def, cases k, simp_all add: act_kinds_def)

lemma event_dict_accepted:
  assumes "wf_event e"
  shows "voice_event_from_dict (ve_ref e) (event_dict e) = Inr e"
proof -
  have keys: "fst ` set (event_dict e) = set EVENT_FIELDS"
    by (simp add: event_dict_def EVENT_FIELDS_def insert_commute)
  let ?g = "pget (map_of (event_dict e))"
  have g: "?g ''kind'' = PStr (voice_kind_value (ve_kind e))" "?g ''source'' = PStr (voice_source_value (ve_source e))"
    "?g ''sensitivity'' = PStr (voice_sensitivity_value (ve_sensitivity e))"
    "?g ''semantic_act_kind'' = PStr (act_kind_value (ve_act_kind e))" "?g ''schema_version'' = PInt 1"
    "?g ''sequence'' = PInt (ve_sequence e)" "?g ''at_ms'' = PInt (ve_at_ms e)"
    "?g ''input_turn_id'' = PStr (ve_turn e)" "?g ''generation_id'' = PStr (ve_generation e)"
    "?g ''semantic_act_id'' = PStr (ve_act e)"
    by (simp_all add: event_dict_def pget_def)
  have b: "binding_from (?g ''binding'') = Inr (ve_binding e)"
    using assms by (simp add: event_dict_def pget_def binding_from_dict wf_event_def)
  have p: "payload_from (?g ''payload'') = Inr (ve_payload e)"
    using assms by (simp add: event_dict_def pget_def payload_from_dict wf_event_def)
  show ?thesis
    using assms unfolding voice_event_from_dict_def keys
    by (simp add: Let_def g b p kind_of_value source_of_value sensitivity_of_value act_kind_of_value
        schema_version_ok_def make_event_iff wf_event_def)
qed

lemma make_eventD: "make_event ref kind source sens b sq ms tu ge ac ak p = Inr e \<Longrightarrow>
    good_binding b \<Longrightarrow> good_payload p \<Longrightarrow> wf_event e \<and> ve_ref e = ref"
  by (auto simp: make_event_def ebind_eq_Inr validators wf_event_def)

lemma binding_from_good: "binding_from v = Inr b \<Longrightarrow> good_binding b"
  by (auto simp: binding_from_def Let_def split: pyval.splits if_splits intro: make_binding_good)

lemma payload_from_good: "payload_from v = Inr p \<Longrightarrow> good_payload p"
  by (auto simp: payload_from_def Let_def split: pyval.splits if_splits intro: make_payload_good)

lemma voice_event_from_dict_good: "voice_event_from_dict ref data = Inr e \<Longrightarrow> wf_event e \<and> ve_ref e = ref"
  unfolding voice_event_from_dict_def Let_def
  by (auto simp: ebind_eq_Inr split: if_splits dest: binding_from_good payload_from_good make_eventD)

lemma validator_raises [raises_intros]:
  "raises_only ValueError (valid_identifier v)" "raises_only ValueError (nonnegative v)"
  "raises_only ValueError (hex_digest v)"
  by (simp_all add: valid_identifier_def nonnegative_def hex_digest_def split: pyval.splits)

lemma optional_raises [raises_intros]:
  "(\<And>v. raises_only ValueError (p v)) \<Longrightarrow> raises_only ValueError (optional p v)"
  by (simp add: optional_def raises_only_ebind)

lemma make_raises [raises_intros]:
  "raises_only ValueError (make_binding v1 v2 v3 v4 v5)" "raises_only ValueError (make_payload v1 v2 v3 v4 v5)"
  "raises_only ValueError (make_event r k so se b v1 v2 v3 v4 v5 ak p)"
  unfolding make_binding_def make_payload_def make_event_def by (intro raises_intros)+

lemma from_raises [raises_intros]:
  "raises_only ValueError (binding_from v)" "raises_only ValueError (payload_from v)"
  by (simp_all add: binding_from_def payload_from_def Let_def make_raises split: pyval.splits)

lemma from_dict_errors: "raises_only ValueError (voice_event_from_dict ref data)"
  unfolding voice_event_from_dict_def Let_def by (intro raises_intros)

subsection \<open>The media of the acts stay well formed\<close>

definition media_good :: "voice_event list \<Rightarrow> lifecycle \<Rightarrow> bool" where
  "media_good h s =
     ((\<forall>e \<in> set h. wf_event e) \<longrightarrow>
        -1 \<le> lc_sequence s \<and> -1 \<le> lc_at_ms s \<and>
        (\<forall>a r. lc_acts s a = Some r \<longrightarrow>
           good_option good_digest (ac_text r) \<and> good_option good_id (ac_audio r) \<and> good_option good_id (ac_playout r)))"

lemma good_or_prior:
  "good_option P x \<Longrightarrow> (\<And>r. p = Some r \<Longrightarrow> good_option P (f r)) \<Longrightarrow> good_option P (or_prior x f p)"
  by (cases p) (auto simp: or_prior_def good_option_def split: option.splits)

interpretation vl_media: history_reducer ingest media_good
proof
  fix h s e
  assume h: "media_good h s"
  show "\<not> snd (ingest s e) \<Longrightarrow> media_good h (fst (ingest s e))"
    using h by (simp add: ingest_rejected media_good_def)
  assume "snd (ingest s e)"
  then show "media_good (h @ [e]) (fst (ingest s e))"
  proof (cases rule: ingest_accepted_cases)
    case (observation s1)
    with h show ?thesis by (auto simp: media_good_def observation_frame wf_event_def)
  next
    case act
    have "good_option good_digest (ac_text r) \<and> good_option good_id (ac_audio r) \<and> good_option good_id (ac_playout r)"
      if "\<forall>x \<in> set (h @ [e]). wf_event x" and "lc_acts (commit_act s e) a = Some r" for a r
    proof (cases "a = ve_act e")
      case True
      with that(2) have r: "r = advance_act (lc_acts s a) e" by (simp add: commit_act_def)
      have "good_payload (ve_payload e)" using that(1) by (simp add: wf_event_def)
      then show ?thesis using h that(1)
        unfolding r advance_act_simps
        by (intro conjI good_or_prior) (simp_all add: good_payload_def media_good_def)
    next
      case False
      with that h show ?thesis by (simp add: commit_act_def media_good_def)
    qed
    then show ?thesis by (auto simp: media_good_def act(3) wf_event_def)
  qed
qed

lemma media_good_init: "media_good [] (init_lifecycle b)"
  by (simp add: media_good_def)

lemma accepted_subset: "set (accepted_events f s es) \<subseteq> set es"
  by (induction es arbitrary: s) auto

section \<open>An act that is heard, for the witnesses\<close>

definition ex_binding :: voice_binding where
  "ex_binding = \<lparr>vb_environment = ''e'', vb_contractor = ''c'', vb_call = ''call'', vb_stream = ''st'', vb_epoch = 0\<rparr>"

definition ex_digest :: string where
  "ex_digest = replicate 64 (CHR ''a'')"

definition ex_payload :: "bool \<Rightarrow> bool \<Rightarrow> voice_payload" where
  "ex_payload bound playing = \<lparr>vp_ordinal = None, vp_duration = None,
     vp_text = (if bound then Some ex_digest else None), vp_audio = (if bound then Some ''a1'' else None),
     vp_playout = (if playing then Some ''p1'' else None)\<rparr>"

definition ex_event :: "voice_kind \<Rightarrow> int \<Rightarrow> voice_payload \<Rightarrow> voice_event" where
  "ex_event k n p = \<lparr>ve_ref = nat n, ve_kind = k, ve_source = required_source k, ve_sensitivity = OPERATIONAL,
     ve_binding = ex_binding, ve_sequence = n, ve_at_ms = 10 * n, ve_turn = ''t1'', ve_generation = ''g1'',
     ve_act = ''act1'', ve_act_kind = QUESTION, ve_payload = p\<rparr>"

definition ex_heard :: "voice_event list" where
  "ex_heard = [ex_event RESPONSE_AUTHORIZED 1 (ex_payload False False),
     ex_event SEMANTIC_ACT_CONFIRMED 2 (ex_payload False False), ex_event TTS_BOUND 3 (ex_payload True False),
     ex_event PLAYOUT_BOUND 4 (ex_payload True True), ex_event TRANSPORT_RESOLVED 5 (ex_payload True True),
     ex_event CALLER_PLAYBACK_OBSERVED 6 (ex_payload True True)]"

definition ex_command :: voice_command where
  "ex_command = \<lparr>vc_kind = ARM_SILENCE_TIMER, vc_binding = ex_binding, vc_action = ''x'', vc_key = ''k1'',
     vc_expires_at_ms = 900, vc_capability = SILENCE_TIMER, vc_sensitivity = OPERATIONAL,
     vc_confirmation = CALLER_PLAYBACK_OR_INFERENCE, vc_act = ''act1'', vc_arguments = [(''timeout_ms'', 5000)]\<rparr>"

lemmas ex_voice = ex_event_def ex_payload_def ingest_def act_event_ok_def OBSERVATIONAL_KINDS_def INPUT_KINDS_def
  GENERATION_KINDS_def SESSION_KINDS_def MEDIA_KINDS_def OPEN_STATES_def same_act_def same_media_def Let_def

lemma ex_media [simp]: "or_prior (Some x) f p = Some x" "or_prior None f (Some q) = f q"
  by simp_all

lemma ex_heard_run:
  "lc_acts (run_steps ingest (init_lifecycle ex_binding) ex_heard) ''act1'' =
     Some \<lparr>ac_state = CALLER_PLAYBACK_OBSERVED, ac_turn = ''t1'', ac_generation = ''g1'', ac_kind = QUESTION,
       ac_text = Some ex_digest, ac_audio = Some ''a1'', ac_playout = Some ''p1''\<rparr>"
  by (simp add: ex_heard_def ex_voice commit_act_def advance_act_def)

lemma ex_heard_binding [simp]: "lc_binding (run_steps ingest s es) = lc_binding s"
  by (induction es arbitrary: s) simp_all

section \<open>Properties\<close>

text \<open>
  reading an event never yields an ill-formed one and never raises anything but a
  \<open>ValueError\<close>, and every well-formed event is read back from its dictionary unchanged.
\<close>

theorem voice_event_validation:
  "(wf_event e \<longrightarrow> voice_event_from_dict (ve_ref e) (event_dict e) = Inr e) \<and>
   (case voice_event_from_dict ref data of Inl err \<Rightarrow> err = ValueError | Inr x \<Rightarrow> wf_event x \<and> ve_ref x = ref)"
  using event_dict_accepted [of e] voice_event_from_dict_good [of ref data] from_dict_errors [of ref data]
  by (auto simp: raises_only_def split: sum.splits)

lemma ex_wf: "wf_event (ex_event TTS_BOUND 3 (ex_payload True False))"
  by (simp add: wf_event_def ex_event_def ex_payload_def ex_binding_def good_binding_def good_payload_def
      good_id_def good_option_def good_digest_def ex_digest_def)

theorem voice_event_validation_witness:
  "voice_event_from_dict 3 (event_dict (ex_event TTS_BOUND 3 (ex_payload True False))) =
     Inr (ex_event TTS_BOUND 3 (ex_payload True False))"
  using voice_event_validation [of "ex_event TTS_BOUND 3 (ex_payload True False)"] ex_wf
  by (simp add: ex_event_def)

text \<open>
  whatever events arrive, the accepted ones carry the lifecycle's binding and the source
  their kind requires, their sequence numbers strictly increase and their times never go back;
  if none is accepted, nothing but the count of rejected events has changed.
\<close>

theorem accepted_events_ordered:
  "let s = init_lifecycle b; acc = accepted_events ingest s es in
   sorted_wrt (<) (map ve_sequence acc) \<and> sorted (map ve_at_ms acc) \<and>
   (\<forall>e \<in> set acc. ve_binding e = b \<and> ve_source e = required_source (ve_kind e)) \<and>
   (acc = [] \<longrightarrow> event_core (run_steps ingest s es) = event_core s)"
  using vl_order.run_rel0 [OF ordered_history_init [of b], of es] vl.run_rejected_core [of "init_lifecycle b" es]
  by (auto simp: ordered_history_def Let_def)

theorem accepted_events_ordered_witness:
  "sorted_wrt (<) (map ve_sequence (accepted_events ingest (init_lifecycle ex_binding) ex_heard))"
  using accepted_events_ordered [of ex_binding ex_heard] by (simp add: Let_def)

text \<open>
  C11: an act counts as heard by the caller only after its whole protocol: authorized,
  confirmed, bound to speech, then bound to a playout (possibly lost and bound again), resolved
  by the authenticated transport and observed, every step from its required source and for the
  same turn, generation and act kind, with one text and audio throughout and the last three
  steps naming one playout.
\<close>

theorem heard_act_protocol:
  assumes "lc_acts (run_steps ingest (init_lifecycle b) es) a = Some r"
    and "ac_state r = CALLER_PLAYBACK_OBSERVED"
  shows "\<exists>n pre pb tr cp.
     act_events a (accepted_events ingest (init_lifecycle b) es) = pre @ [pb, tr, cp] \<and>
     map ve_kind pre = bound_path n \<and>
     map ve_kind [pb, tr, cp] = [PLAYOUT_BOUND, TRANSPORT_RESOLVED, CALLER_PLAYBACK_OBSERVED] \<and>
     (\<forall>x \<in> set (pre @ [pb, tr, cp]). same_act r x \<and> ve_source x = required_source (ve_kind x) \<and>
        (ve_kind x \<in> set bound_kinds \<longrightarrow>
           vp_text (ve_payload x) = ac_text r \<and> vp_audio (ve_payload x) = ac_audio r)) \<and>
     (\<forall>x \<in> {pb, tr, cp}. same_media r (ve_payload x))"
proof -
  let ?acts = "act_events a (accepted_events ingest (init_lifecycle b) es)"
  have tr: "act_trace ?acts" and af: "act_after ?acts = Some r"
    using vl_acts.run_rel0 [OF acts_traced_init [of b], of es] assms(1) by (simp_all add: acts_traced_def)
  from act_trace_shape [OF tr af] assms(2) obtain n where
    n: "map ve_kind ?acts = bound_path n @ [PLAYOUT_BOUND, TRANSPORT_RESOLVED, CALLER_PLAYBACK_OBSERVED]"
    by auto
  then obtain pre rest where "?acts = pre @ rest" and pre: "map ve_kind pre = bound_path n"
    and rest: "map ve_kind rest = [PLAYOUT_BOUND, TRANSPORT_RESOLVED, CALLER_PLAYBACK_OBSERVED]"
    by (auto simp: map_eq_append_conv)
  moreover from rest obtain pb t cp where "rest = [pb, t, cp]" by (auto simp: map_eq_Cons_conv)
  ultimately have split: "?acts = pre @ [pb, t, cp]"
    and k: "map ve_kind [pb, t, cp] = [PLAYOUT_BOUND, TRANSPORT_RESOLVED, CALLER_PLAYBACK_OBSERVED]" by simp_all
  have "\<forall>x \<in> set (pre @ [pb, t, cp]). same_act r x \<and> ve_source x = required_source (ve_kind x) \<and>
        (ve_kind x \<in> set bound_kinds \<longrightarrow>
           vp_text (ve_payload x) = ac_text r \<and> vp_audio (ve_payload x) = ac_audio r)"
    using act_trace_same [OF tr af] act_trace_media [OF tr af] unfolding split by blast
  moreover have "\<forall>x \<in> {pb, t, cp}. same_media r (ve_payload x)"
    using heard_playout [OF tr [unfolded split] k af [unfolded split]] by blast
  ultimately show ?thesis using split pre k
    by (intro exI [of _ n] exI [of _ pre] exI [of _ pb] exI [of _ t] exI [of _ cp]) blast
qed

theorem heard_act_protocol_witness:
  "\<exists>n pre pb tr cp.
     act_events ''act1'' (accepted_events ingest (init_lifecycle ex_binding) ex_heard) = pre @ [pb, tr, cp] \<and>
     map ve_kind pre = bound_path n"
  using heard_act_protocol [OF ex_heard_run] by fastforce

text \<open>
  an act that was heard, failed, timed out or whose playout was cut off is closed for good:
  whatever follows, its record stays as it is and no event of that act but input and session
  events is accepted any more.
\<close>

theorem closed_act_stays_closed:
  assumes "lc_acts s a = Some r" and "ac_state r \<in> set TERMINAL_STATES"
  shows "lc_acts (run_steps ingest s es) a = Some r \<and>
     (\<forall>e \<in> set (accepted_events ingest s es). ve_act e = a \<longrightarrow> ve_kind e \<in> set INPUT_KINDS \<union> set SESSION_KINDS)"
  using assms(1)
proof (induction es arbitrary: s)
  case Nil
  then show ?case by simp
next
  case (Cons e es)
  note step = closed_act_step [OF Cons.prems assms(2), of e]
  then have "lc_acts (fst (ingest s e)) a = Some r" by blast
  from Cons.IH [OF this] step show ?case by auto
qed

theorem closed_act_stays_closed_witness:
  "lc_acts (run_steps ingest (run_steps ingest (init_lifecycle ex_binding) ex_heard)
       [ex_event ACT_TIMED_OUT 9 (ex_payload True True)]) ''act1'' \<noteq> None"
  using closed_act_stays_closed [OF ex_heard_run, where es = "[ex_event ACT_TIMED_OUT 9 (ex_payload True True)]"]
  by (simp add: TERMINAL_STATES_def del: run_steps.simps)

text \<open>
  C27: the bounded history of the caller's input loses nothing silently: it holds the last 256
  accepted input events, and a reader's cursor either gets every accepted input event after it,
  in order, or is refused, which happens only for a cursor before the floor.
\<close>

theorem input_history_complete:
  "let s = run_steps ingest (init_lifecycle b) es;
       ins = input_events (accepted_events ingest (init_lifecycle b) es)
   in lc_history s = drop (length ins - 256) ins \<and>
      input_observations_after s (PInt q) =
        (if q < -1 \<or> (256 < length ins \<and> q < ve_sequence (ins ! (length ins - 257))) then None
         else Some (filter (\<lambda>e. q < ve_sequence e) ins))"
proof -
  define s where "s = run_steps ingest (init_lifecycle b) es"
  define acc where "acc = accepted_events ingest (init_lifecycle b) es"
  define ins where "ins = input_events acc"
  have h: "lc_history s = drop (length ins - 256) ins"
    and f: "lc_floor s = (if length ins \<le> 256 then -1 else ve_sequence (ins ! (length ins - 257)))"
    using vl_history.run_rel0 [OF history_traced_init [of b], of es]
    by (simp_all add: history_traced_def s_def ins_def acc_def Let_def MAX_HISTORY_def)
  have "sorted_wrt (<) (map ve_sequence acc)"
    using vl_order.run_rel0 [OF ordered_history_init [of b], of es] by (simp add: ordered_history_def acc_def)
  then have sorted: "sorted_wrt (<) (map ve_sequence ins)"
    by (simp add: ins_def input_events_def sorted_wrt_map sorted_wrt_filter)
  have late: "filter (\<lambda>e. q < ve_sequence e) (drop (length ins - 256) ins) = filter (\<lambda>e. q < ve_sequence e) ins"
    if "256 < length ins" and "ve_sequence (ins ! (length ins - 257)) \<le> q"
  proof -
    define k where "k = length ins - 256"
    have k: "0 < k" "k - 1 < length ins" "length ins - 257 = k - 1" using that(1) by (simp_all add: k_def)
    have "ve_sequence x \<le> q" if "x \<in> set (take k ins)" for x
    proof -
      from that obtain i where i: "i < k" "i < length ins" "x = ins ! i" by (auto simp: in_set_conv_nth)
      then have "i = k - 1 \<or> i < k - 1" by auto
      then have "ve_sequence x \<le> ve_sequence (ins ! (k - 1))"
        using sorted_wrt_nth_less [OF sorted, of i "k - 1"] i k by auto
      with \<open>ve_sequence (ins ! (length ins - 257)) \<le> q\<close> k(3) show ?thesis by simp
    qed
    then have "filter (\<lambda>e. q < ve_sequence e) (take k ins) = []"
      by (simp add: filter_empty_conv not_less)
    moreover have "filter (\<lambda>e. q < ve_sequence e) ins =
        filter (\<lambda>e. q < ve_sequence e) (take k ins) @ filter (\<lambda>e. q < ve_sequence e) (drop k ins)"
      by (metis append_take_drop_id filter_append)
    ultimately show ?thesis by (simp add: k_def)
  qed
  have "input_observations_after s (PInt q) =
        (if q < -1 \<or> (256 < length ins \<and> q < ve_sequence (ins ! (length ins - 257))) then None
         else Some (filter (\<lambda>e. q < ve_sequence e) ins))"
    using late by (auto simp: input_observations_after_def f h)
  with h show ?thesis by (simp add: s_def ins_def acc_def Let_def)
qed

text \<open>
  the latest input observation is the last accepted input event, and there is none only
  when no input event was accepted.
\<close>

theorem latest_observation_is_last:
  "latest_input_observation (run_steps ingest (init_lifecycle b) es) =
     (let ins = input_events (accepted_events ingest (init_lifecycle b) es)
      in if ins = [] then None else Some (last ins))"
proof -
  define s where "s = run_steps ingest (init_lifecycle b) es"
  define acc where "acc = accepted_events ingest (init_lifecycle b) es"
  define ins where "ins = input_events acc"
  have l: "ins = [] \<longleftrightarrow> map snd (lc_input_observations s) = []"
    "set (map snd (lc_input_observations s)) \<subseteq> set ins"
    "ins \<noteq> [] \<Longrightarrow> last ins \<in> set (map snd (lc_input_observations s))"
    using vl_latest.run_rel0 [OF latest_traced_init [of b], of es]
    by (simp_all add: latest_traced_def s_def ins_def acc_def Let_def)
  have "sorted_wrt (<) (map ve_sequence acc)"
    using vl_order.run_rel0 [OF ordered_history_init [of b], of es] by (simp add: ordered_history_def acc_def)
  then have sorted: "sorted_wrt (<) (map ve_sequence ins)"
    by (simp add: ins_def input_events_def sorted_wrt_map sorted_wrt_filter)
  have "latest_input_observation s = (if ins = [] then None else Some (last ins))"
  proof (cases "map snd (lc_input_observations s)")
    case Nil
    with l(1) show ?thesis by (simp add: latest_input_observation_def)
  next
    case (Cons e vs)
    define m where "m = fold (\<lambda>x best. if ve_sequence best < ve_sequence x then x else best) vs e"
    have m: "m \<in> set ins" "\<And>x. x \<in> set (map snd (lc_input_observations s)) \<Longrightarrow> ve_sequence x \<le> ve_sequence m"
      using fold_max_sequence [of vs e] l(2) Cons by (auto simp: m_def)
    have ne: "ins \<noteq> []" using l(1) Cons by simp
    then have "m = last ins" using sorted_last_sequence [OF sorted m(1)] m(2) l(3) by blast
    with Cons ne show ?thesis by (simp add: latest_input_observation_def m_def)
  qed
  then show ?thesis by (simp add: s_def ins_def acc_def Let_def)
qed

text \<open>
  a caller's turn has at most one final and nothing after it, an activity ends only after
  it started, and exactly the accepted final of the turn is recognised as such.
\<close>

theorem input_turn_protocol:
  "let s = run_steps ingest (init_lifecycle b) es; acc = accepted_events ingest (init_lifecycle b) es
   in turn_trace (turn_events t acc) \<and>
      (\<forall>e \<in> set (turn_events t acc). ve_kind e = INPUT_TURN_FINAL \<longrightarrow> e = last (turn_events t acc)) \<and>
      (ve_turn x = t \<longrightarrow>
         (accepts_input_final s x \<longleftrightarrow>
            (\<exists>e \<in> set (turn_events t acc). ve_kind e = INPUT_TURN_FINAL \<and> event_eq e x)))"
proof -
  define s where "s = run_steps ingest (init_lifecycle b) es"
  define acc where "acc = accepted_events ingest (init_lifecycle b) es"
  let ?es = "turn_events t acc"
  have tr: "turn_trace ?es" and fin: "lc_input_finals s t =
      (if ?es \<noteq> [] \<and> ve_kind (last ?es) = INPUT_TURN_FINAL then Some (last ?es) else None)"
    using vl_turns.run_rel0 [OF turns_traced_init [of b], of es]
    by (simp_all add: turns_traced_def s_def acc_def Let_def)
  note final = final_is_last [OF tr]
  have meta: "ve_binding e = lc_binding s" "ve_source e = required_source (ve_kind e)" if "e \<in> set ?es" for e
    using vl_order.run_rel0 [OF ordered_history_init [of b], of es] that
    by (auto simp: ordered_history_def s_def acc_def turn_events_def)
  have "accepts_input_final s x \<longleftrightarrow> (\<exists>e \<in> set ?es. ve_kind e = INPUT_TURN_FINAL \<and> event_eq e x)"
    if t: "ve_turn x = t"
  proof
    assume "accepts_input_final s x"
    then show "\<exists>e \<in> set ?es. ve_kind e = INPUT_TURN_FINAL \<and> event_eq e x"
      by (auto simp: accepts_input_final_def t fin split: if_splits)
  next
    assume "\<exists>e \<in> set ?es. ve_kind e = INPUT_TURN_FINAL \<and> event_eq e x"
    then obtain e where e: "e \<in> set ?es" "ve_kind e = INPUT_TURN_FINAL" "event_eq e x" by blast
    from e(3) have same: "ve_binding x = ve_binding e" "ve_kind x = ve_kind e" "ve_source x = ve_source e"
      by (cases e; cases x; simp add: event_eq_def)+
    have "?es \<noteq> []" "e = last ?es" using e(1,2) final by auto
    with e(2,3) fin same meta [OF e(1)] show "accepts_input_final s x"
      by (simp add: accepts_input_final_def t)
  qed
  with tr final show ?thesis by (simp add: s_def acc_def Let_def)
qed

lemma ex_final_wf: "accepted_events ingest (init_lifecycle ex_binding) [ex_event INPUT_TURN_FINAL 1 (ex_payload False False)]
    = [ex_event INPUT_TURN_FINAL 1 (ex_payload False False)]"
  by (simp add: ex_voice init_lifecycle_def ingest_observation_def input_allowed_def)

theorem input_turn_protocol_witness:
  "accepts_input_final (run_steps ingest (init_lifecycle ex_binding) [ex_event INPUT_TURN_FINAL 1 (ex_payload False False)])
     (ex_event INPUT_TURN_FINAL 1 (ex_payload False False))"
proof -
  let ?e = "ex_event INPUT_TURN_FINAL 1 (ex_payload False False)"
  have "\<exists>e \<in> set (turn_events ''t1'' [?e]). ve_kind e = INPUT_TURN_FINAL \<and> event_eq e ?e"
    by (simp add: turn_events_def ex_voice event_eq_def)
  then show ?thesis
    using input_turn_protocol [of ex_binding "[?e]" "''t1''" ?e]
    by (simp only: Let_def ex_final_wf) (simp add: ex_event_def del: run_steps.simps)
qed

text \<open>
  a command is accepted only after the caller heard the question it belongs to, and an
  accepted command is answered the same for good: whatever events and commands follow, repeating
  it before it expires is accepted and changes only the count of repetitions, and no other
  command is accepted under its key.
\<close>

theorem command_idempotent:
  assumes "s = run_steps op_step (init_lifecycle b) xs" and "accept_command s c now = Inr (s1, True)"
    and "s2 = run_steps op_step s1 ys" and "0 \<le> later" and "later \<le> vc_expires_at_ms c"
  shows "lc_pending_question s \<and>
     (\<exists>e \<in> set (events_of (accepted_events op_step (init_lifecycle b) xs)). heard_question (vc_act c) e) \<and>
     accept_command s2 c (PInt later) = Inr (s2\<lparr>lc_idempotent := lc_idempotent s2 + 1\<rparr>, True) \<and>
     (vc_key d = vc_key c \<and> d \<noteq> c \<longrightarrow> accept_command s2 d any_time \<in> {Inr (s2, False), Inl ValueError})"
proof -
  have "armed c s1" using assms(2) by (rule accept_command_cases) simp_all
  then obtain r where r: "lc_acts s (vc_act c) = Some r" "ac_state r = CALLER_PLAYBACK_OBSERVED" "ac_kind r = QUESTION"
    using accept_command_frame(1) [OF assms(2)] by (auto simp: armed_def)
  then have heard: "lc_pending_question s \<and>
      (\<exists>e \<in> set (events_of (accepted_events op_step (init_lifecycle b) xs)). heard_question (vc_act c) e)"
    using op_questions.run_rel0 [OF questions_traced_init [of b], of xs] unfolding questions_traced_def assms(1) by blast
  have arm: "armed c s2" unfolding assms(3) using \<open>armed c s1\<close> by (rule armed_inv.run_inv)
  then have again: "accept_command s2 c (PInt later) = Inr (s2\<lparr>lc_idempotent := lc_idempotent s2 + 1\<rparr>, True)"
    using assms(4,5) by (auto simp: armed_def accept_command_def command_for_act_def nonnegative_def)
  have "accept_command s2 d any_time \<in> {Inr (s2, False), Inl ValueError}" if "vc_key d = vc_key c" "d \<noteq> c"
  proof (cases "accept_command s2 d any_time")
    case (Inl err)
    then show ?thesis
      using validator_raises(2) [of any_time]
      by (auto simp: accept_command_def command_for_act_def ebind_def raises_only_def
          split: if_splits sum.splits option.splits)
  next
    case (Inr q)
    obtain s' ok where q: "q = (s', ok)" by (cases q)
    from Inr [unfolded q] show ?thesis
      by (rule accept_command_cases) (use arm that Inr in \<open>auto simp: armed_def q\<close>)
  qed
  with heard again show ?thesis by blast
qed

lemma ex_armed: "accept_command (run_steps op_step (init_lifecycle ex_binding) (map Ingest ex_heard)) ex_command (PInt 500) =
    Inr ((run_steps op_step (init_lifecycle ex_binding) (map Ingest ex_heard))\<lparr>lc_commands := [''k1'' \<mapsto> ex_command]\<rparr>, True)"
proof -
  have run: "run_steps op_step s (map Ingest es) = run_steps ingest s es" for s es
    by (induction es arbitrary: s) simp_all
  have "lc_commands (run_steps ingest s es) = lc_commands s" for s es
    by (induction es arbitrary: s) simp_all
  then have "lc_commands (run_steps ingest (init_lifecycle ex_binding) ex_heard) = Map.empty"
    by (simp add: init_lifecycle_def)
  then show ?thesis
    using ex_heard_run
    by (simp add: run accept_command_def command_for_act_def ex_command_def nonnegative_def)
qed

theorem command_idempotent_witness:
  "lc_pending_question (run_steps op_step (init_lifecycle ex_binding) (map Ingest ex_heard))"
  using command_idempotent [OF refl ex_armed refl, of 600 "[]" ex_command "PInt 0"]
  by (simp add: ex_command_def del: run_steps.simps)

text \<open>
  an act in flight can always be timed out: in any state reached from well-formed events,
  the timeout built from the act's own receipt, its accumulated payload and the next position is
  valid, is accepted, and is recognised as the act's end.
\<close>

theorem timeout_always_lands:
  assumes "\<forall>x \<in> set es. wf_event x" and "wf_event e"
    and "act_state (run_steps ingest (init_lifecycle b) es) e = Some k" and "k \<in> set OPEN_STATES" and "0 \<le> ms"
  shows "let s = run_steps ingest (init_lifecycle b) es in
     \<exists>p q t te. terminal_payload s e = Inr (Some p) \<and> next_position s (PInt ms) = Inr (q, t) \<and>
       timeout_event ref \<lparr>ti_binding = ve_binding e, ti_turn = ve_turn e, ti_generation = ve_generation e,
          ti_act = ve_act e, ti_act_kind = ve_act_kind e, ti_payload = p\<rparr> q t = Inr te \<and>
       snd (ingest s te) \<and> accepts_act_timeout (fst (ingest s te)) te \<and>
       act_state (fst (ingest s te)) e = Some ACT_TIMED_OUT"
proof -
  define s where "s = run_steps ingest (init_lifecycle b) es"
  from assms(3) obtain r where bind: "ve_binding e = lc_binding s"
    and r: "lc_acts s (ve_act e) = Some r" "same_act r e" "ac_state r = k"
    by (auto simp: act_state_def s_def split: if_splits option.splits)
  have "\<forall>x \<in> set (accepted_events ingest (init_lifecycle b) es). wf_event x"
    using assms(1) accepted_subset [of ingest "init_lifecycle b" es] by blast
  then have pos: "-1 \<le> lc_sequence s" "-1 \<le> lc_at_ms s" and media: "good_option good_digest (ac_text r)"
    "good_option good_id (ac_audio r)" "good_option good_id (ac_playout r)"
    using vl_media.run_rel0 [OF media_good_init [of b], of es] r(1) by (auto simp: media_good_def s_def)
  define p where "p = \<lparr>vp_ordinal = None, vp_duration = None, vp_text = ac_text r, vp_audio = ac_audio r,
      vp_playout = ac_playout r\<rparr>"
  have tp: "terminal_payload s e = Inr (Some p)"
    using media by (simp add: terminal_payload_def act_state_def bind r make_payload_def optional_def p_def
        pyopt_identifier [unfolded optional_def] pyopt_digest [unfolded optional_def])
  define t where "t = max (lc_at_ms s) ms"
  have np: "next_position s (PInt ms) = Inr (lc_sequence s + 1, t)"
    using assms(5) by (simp add: next_position_def nonnegative_def t_def)
  define te where "te = \<lparr>ve_ref = ref, ve_kind = ACT_TIMED_OUT, ve_source = LOCAL_AUTHORITATIVE,
      ve_sensitivity = OPERATIONAL, ve_binding = ve_binding e, ve_sequence = lc_sequence s + 1, ve_at_ms = t,
      ve_turn = ve_turn e, ve_generation = ve_generation e, ve_act = ve_act e, ve_act_kind = ve_act_kind e, ve_payload = p\<rparr>"
  have ev: "timeout_event ref \<lparr>ti_binding = ve_binding e, ti_turn = ve_turn e, ti_generation = ve_generation e,
      ti_act = ve_act e, ti_act_kind = ve_act_kind e, ti_payload = p\<rparr> (lc_sequence s + 1) t = Inr te"
    using assms(2,5) pos by (simp add: timeout_event_def make_event_iff te_def wf_event_def t_def)
  have ok: "act_event_ok (lc_acts s (ve_act te)) te"
    using assms(4) r by (simp add: act_event_ok_def te_def same_act_def same_media_def MEDIA_KINDS_def p_def)
  then have ing: "ingest s te = (commit_act s te, True)"
    by (simp add: ingest_def te_def bind t_def OBSERVATIONAL_KINDS_def INPUT_KINDS_def GENERATION_KINDS_def SESSION_KINDS_def)
  have "accepts_act_timeout (commit_act s te) te" "act_state (commit_act s te) e = Some ACT_TIMED_OUT"
    by (simp_all add: accepts_act_timeout_def act_receipt_def act_state_def commit_act_def te_def bind same_act_def
        advance_act_def)
  with tp np ev ing show ?thesis by (simp add: s_def [symmetric] Let_def)
qed

theorem timeout_always_lands_witness:
  "\<exists>p. terminal_payload (run_steps ingest (init_lifecycle ex_binding)
        [ex_event RESPONSE_AUTHORIZED 1 (ex_payload False False)])
     (ex_event RESPONSE_AUTHORIZED 1 (ex_payload False False)) = Inr (Some p)"
proof -
  let ?e = "ex_event RESPONSE_AUTHORIZED 1 (ex_payload False False)"
  have wf: "wf_event ?e"
    by (simp add: wf_event_def ex_event_def ex_payload_def ex_binding_def good_binding_def good_payload_def
        good_id_def good_option_def)
  have "act_state (run_steps ingest (init_lifecycle ex_binding) [?e]) ?e = Some RESPONSE_AUTHORIZED"
    by (simp add: ex_voice commit_act_def act_state_def advance_act_def)
  from timeout_always_lands [OF _ wf this, of 0] wf show ?thesis
    by (simp add: OPEN_STATES_def Let_def del: run_steps.simps) blast
qed

end
