(* ===== verification/Intake_State.thy ===== *)
theory Intake_State
  imports Prelude
begin

text \<open>
  The receptionist's call-scoped memory: app/services/receptionist_state.py. Every attribute of
  \<open>IntakeState\<close>, \<open>CallerIdentity\<close> and \<open>CallerObservation\<close> is validated when it is set, text is
  bounded and may hold no full telephone number. A raise leaves no state here; for validated
  observations the theory proves that none occurs.
\<close>

section \<open>Enumerations\<close>

datatype intake_phase =
    GREETING | UNDERSTAND_REQUEST | ANSWER_QUESTION | CLARIFY_SCOPE | COLLECT_INTAKE | OFFER_FOLLOWUP
  | SCHEDULE_OR_CALLBACK | HANDOFF | WRAP_UP_PHASE

fun phase_value :: "intake_phase \<Rightarrow> string" where
  "phase_value GREETING = ''greeting''"
| "phase_value UNDERSTAND_REQUEST = ''understand_request''"
| "phase_value ANSWER_QUESTION = ''answer_question''"
| "phase_value CLARIFY_SCOPE = ''clarify_scope''"
| "phase_value COLLECT_INTAKE = ''collect_intake''"
| "phase_value OFFER_FOLLOWUP = ''offer_followup''"
| "phase_value SCHEDULE_OR_CALLBACK = ''schedule_or_callback''"
| "phase_value HANDOFF = ''handoff''"
| "phase_value WRAP_UP_PHASE = ''wrap_up''"

definition phases :: "intake_phase list" where
  "phases = [GREETING, UNDERSTAND_REQUEST, ANSWER_QUESTION, CLARIFY_SCOPE, COLLECT_INTAKE, OFFER_FOLLOWUP,
     SCHEDULE_OR_CALLBACK, HANDOFF, WRAP_UP_PHASE]"

datatype business_scope = IN_SCOPE | OUT_OF_SCOPE | UNCLEAR

fun scope_value :: "business_scope \<Rightarrow> string" where
  "scope_value IN_SCOPE = ''in_scope''"
| "scope_value OUT_OF_SCOPE = ''out_of_scope''"
| "scope_value UNCLEAR = ''unclear''"

definition scopes :: "business_scope list" where
  "scopes = [IN_SCOPE, OUT_OF_SCOPE, UNCLEAR]"

datatype intent =
    UNKNOWN_INTENT | PRICING_QUESTION | SERVICE_REQUEST | EMERGENCY_INTENT | PERSONAL_CALL | SALES_CALL
  | MESSAGE | SCHEDULING | CALLBACK

fun intent_value :: "intent \<Rightarrow> string" where
  "intent_value UNKNOWN_INTENT = ''unknown''"
| "intent_value PRICING_QUESTION = ''pricing_question''"
| "intent_value SERVICE_REQUEST = ''service_request''"
| "intent_value EMERGENCY_INTENT = ''emergency''"
| "intent_value PERSONAL_CALL = ''personal_call''"
| "intent_value SALES_CALL = ''sales_call''"
| "intent_value MESSAGE = ''message''"
| "intent_value SCHEDULING = ''scheduling''"
| "intent_value CALLBACK = ''callback''"

definition intents :: "intent list" where
  "intents = [UNKNOWN_INTENT, PRICING_QUESTION, SERVICE_REQUEST, EMERGENCY_INTENT, PERSONAL_CALL, SALES_CALL,
     MESSAGE, SCHEDULING, CALLBACK]"

datatype service_action = UNKNOWN_ACTION | REPAIR | REPLACE | INSTALL | INSPECT | QUOTE | MAINTAIN

fun action_value :: "service_action \<Rightarrow> string" where
  "action_value UNKNOWN_ACTION = ''unknown''"
| "action_value REPAIR = ''repair''"
| "action_value REPLACE = ''replace''"
| "action_value INSTALL = ''install''"
| "action_value INSPECT = ''inspect''"
| "action_value QUOTE = ''quote''"
| "action_value MAINTAIN = ''maintain''"

definition actions :: "service_action list" where
  "actions = [UNKNOWN_ACTION, REPAIR, REPLACE, INSTALL, INSPECT, QUOTE, MAINTAIN]"

datatype urgency = UNKNOWN_URGENCY | ROUTINE | URGENT | EMERGENCY

fun urgency_value :: "urgency \<Rightarrow> string" where
  "urgency_value UNKNOWN_URGENCY = ''unknown''"
| "urgency_value ROUTINE = ''routine''"
| "urgency_value URGENT = ''urgent''"
| "urgency_value EMERGENCY = ''emergency''"

definition urgencies :: "urgency list" where
  "urgencies = [UNKNOWN_URGENCY, ROUTINE, URGENT, EMERGENCY]"

datatype callback_intent = NO_CALLBACK | OFFERED | ACCEPTED | REQUESTED | DECLINED

fun callback_intent_value :: "callback_intent \<Rightarrow> string" where
  "callback_intent_value NO_CALLBACK = ''none''"
| "callback_intent_value OFFERED = ''offered''"
| "callback_intent_value ACCEPTED = ''accepted''"
| "callback_intent_value REQUESTED = ''requested''"
| "callback_intent_value DECLINED = ''declined''"

definition callback_intents :: "callback_intent list" where
  "callback_intents = [NO_CALLBACK, OFFERED, ACCEPTED, REQUESTED, DECLINED]"

datatype callback_confirmation = UNCONFIRMED | CONFIRMED | REJECTED

fun confirmation_value :: "callback_confirmation \<Rightarrow> string" where
  "confirmation_value UNCONFIRMED = ''unknown''"
| "confirmation_value CONFIRMED = ''confirmed''"
| "confirmation_value REJECTED = ''rejected''"

definition confirmations :: "callback_confirmation list" where
  "confirmations = [UNCONFIRMED, CONFIRMED, REJECTED]"

datatype address_need = NO_ADDRESS | MAYBE_LATER | REQUIRED_NOW | ALREADY_KNOWN | ADDRESS_CONFIRMED

fun address_value :: "address_need \<Rightarrow> string" where
  "address_value NO_ADDRESS = ''none''"
| "address_value MAYBE_LATER = ''maybe_later''"
| "address_value REQUIRED_NOW = ''required_now''"
| "address_value ALREADY_KNOWN = ''already_known''"
| "address_value ADDRESS_CONFIRMED = ''confirmed''"

definition address_needs :: "address_need list" where
  "address_needs = [NO_ADDRESS, MAYBE_LATER, REQUIRED_NOW, ALREADY_KNOWN, ADDRESS_CONFIRMED]"

section \<open>Text validation\<close>

text \<open>
  The search for \<open>_FULL_PHONE_PATTERN\<close>: at a place not preceded by a digit, an optional plus, a
  digit, at least seven digits or separators and a last digit that no digit follows.
\<close>

definition phone_class :: "char \<Rightarrow> bool" where
  "phone_class c = (decimal c \<or> c \<in> set '' .()/-'')"

fun phone_tail :: "nat \<Rightarrow> string \<Rightarrow> bool" where
  "phone_tail k [] = False"
| "phone_tail k (c # cs) =
     ((7 \<le> k \<and> decimal c \<and> (cs = [] \<or> \<not> decimal (hd cs))) \<or> (phone_class c \<and> phone_tail (Suc k) cs))"

fun phone_head :: "string \<Rightarrow> bool" where
  "phone_head [] = False"
| "phone_head (c # cs) = (decimal c \<and> phone_tail 0 cs)"

fun full_phone :: "bool \<Rightarrow> string \<Rightarrow> bool" where
  "full_phone after_digit [] = False"
| "full_phone after_digit (c # cs) =
     ((\<not> after_digit \<and> (phone_head (c # cs) \<or> c = CHR ''+'' \<and> phone_head cs)) \<or> full_phone (decimal c) cs)"

definition safe_text :: "nat \<Rightarrow> pyval \<Rightarrow> string res" where
  "safe_text max_length v =
     (case v of PStr s \<Rightarrow>
        (let normalized = py_strip s in
         if max_length < length normalized then Inl ValueError
         else if \<exists>c \<in> set normalized. (of_char c :: nat) < 32 then Inl ValueError
         else if full_phone False normalized then Inl ValueError
         else Inr normalized)
      | _ \<Rightarrow> Inl TypeError)"

fun safe_texts :: "nat \<Rightarrow> pyval list \<Rightarrow> string list res" where
  "safe_texts n [] = Inr []"
| "safe_texts n (v # vs) = ebind (safe_text n v) (\<lambda>x. ebind (safe_texts n vs) (\<lambda>xs. Inr (x # xs)))"

text \<open>Iterating a \<open>dict\<close> gives its keys; other values cannot be iterated.\<close>

definition safe_text_collection :: "nat \<Rightarrow> pyval \<Rightarrow> string list res" where
  "safe_text_collection n v =
     (case v of PList vs \<Rightarrow> safe_texts n vs | PDict kvs \<Rightarrow> safe_texts n (map (PStr \<circ> fst) kvs)
      | _ \<Rightarrow> Inl TypeError)"

definition language_code :: "pyval \<Rightarrow> string res" where
  "language_code v =
     ebind (safe_text 35 v) (\<lambda>code.
       if code = [] \<or> 35 < length code \<or>
          (\<exists>p \<in> set (split_on (CHR ''-'') code). p = [] \<or> 8 < length p \<or> \<not> list_all py_isalnum p)
       then Inl ValueError else Inr code)"

definition confidence_of :: "pyval \<Rightarrow> rat res" where
  "confidence_of v =
     (if is_pybool v then Inl TypeError
      else case py_number v of None \<Rightarrow> Inl TypeError
        | Some f \<Rightarrow> if fless f (Fin 0) \<or> fless (Fin 1) f then Inl ValueError
                    else (case finite_of f of None \<Rightarrow> Inl ValueError | Some r \<Rightarrow> Inr r))"

definition phone_four :: "pyval \<Rightarrow> string res" where
  "phone_four v =
     (case v of PStr s \<Rightarrow>
        (let n = py_strip s in if length n \<noteq> 4 \<or> \<not> list_all py_isdigit n then Inl ValueError else Inr n)
      | _ \<Rightarrow> Inl TypeError)"

definition phone_four_or_empty :: "pyval \<Rightarrow> string res" where
  "phone_four_or_empty v = (if v = PStr [] then Inr [] else phone_four v)"

definition restore_phone_four :: "pydict \<Rightarrow> string \<Rightarrow> string res" where
  "restore_phone_four d k = (if pget d k = PNone \<or> pget d k = PStr [] then Inr [] else phone_four (pget d k))"

definition restore_texts :: "pydict \<Rightarrow> string \<Rightarrow> nat \<Rightarrow> string list res" where
  "restore_texts d k n = (if pget d k = PNone then Inr [] else safe_text_collection n (pget d k))"

definition phone_last_four :: "string \<Rightarrow> string" where
  "phone_last_four phone =
     (let digits = filter py_isdigit phone in if 4 \<le> length digits then drop (length digits - 4) digits else [])"

section \<open>Python's \<open>str\<close>\<close>

text \<open>\<open>str(v)\<close>; \<open>repr\<close> stands for the rendering of floats and containers.\<close>

definition py_str :: "(pyval \<Rightarrow> string) \<Rightarrow> pyval \<Rightarrow> string" where
  "py_str repr v = (case v of PStr s \<Rightarrow> s | PNone \<Rightarrow> ''None'' | PBool b \<Rightarrow> (if b then ''True'' else ''False'')
     | PInt i \<Rightarrow> int_str i | _ \<Rightarrow> repr v)"

text \<open>\<open>str(d.get(k) or fallback)\<close>.\<close>

definition str_or :: "(pyval \<Rightarrow> string) \<Rightarrow> pydict \<Rightarrow> string \<Rightarrow> string \<Rightarrow> string" where
  "str_or repr d k fallback = (if truthy (pget d k) then py_str repr (pget d k) else fallback)"

text \<open>\<open>E(d.get(k) or E.default.value)\<close>.\<close>

definition enum_or :: "('e \<Rightarrow> string) \<Rightarrow> 'e list \<Rightarrow> pydict \<Rightarrow> string \<Rightarrow> 'e \<Rightarrow> 'e res" where
  "enum_or value members d k dflt =
     enum_of value members (if truthy (pget d k) then pget d k else PStr (value dflt))"

section \<open>The caller's identity\<close>

record caller_identity =
  ci_name :: string
  ci_confidence :: rat
  ci_source :: string
  ci_confirmed :: bool

definition make_identity :: "string \<Rightarrow> pyval \<Rightarrow> string \<Rightarrow> bool \<Rightarrow> caller_identity res" where
  "make_identity name confidence source confirmed =
     ebind (safe_text 160 (PStr name)) (\<lambda>n. ebind (confidence_of confidence) (\<lambda>c.
     ebind (safe_text 160 (PStr source)) (\<lambda>s.
       Inr \<lparr>ci_name = n, ci_confidence = c, ci_source = s, ci_confirmed = confirmed\<rparr>)))"

definition identity_to_dict :: "caller_identity \<Rightarrow> pyval" where
  "identity_to_dict i = PDict
     [(''name'', PStr (ci_name i)), (''confidence'', PFloat (Fin (ci_confidence i))),
      (''source'', PStr (ci_source i)), (''confirmed'', PBool (ci_confirmed i))]"

definition identity_from_dict :: "(pyval \<Rightarrow> string) \<Rightarrow> pyval \<Rightarrow> caller_identity res" where
  "identity_from_dict repr v =
     ebind (if truthy v then (case v of PDict kvs \<Rightarrow> Inr (map_of kvs) | _ \<Rightarrow> Inl AttributeError) else Inr Map.empty)
       (\<lambda>d. case pget_or d ''confirmed'' (PBool False) of
          PBool confirmed \<Rightarrow>
            make_identity (str_or repr d ''name'' [])
              (if pget d ''confidence'' = PNone then PFloat (Fin 0) else pget d ''confidence'')
              (str_or repr d ''source'' []) confirmed
        | _ \<Rightarrow> Inl TypeError)"

section \<open>Observations\<close>

record caller_observation =
  ob_language :: "string option"
  ob_identity :: "bool option"
  ob_scope :: "business_scope option"
  ob_scope_reason :: "string option"
  ob_intent :: "intent option"
  ob_object :: "string option"
  ob_action :: "service_action option"
  ob_urgency :: "urgency option"
  ob_callback_intent :: "callback_intent option"
  ob_confirmation :: "callback_confirmation option"
  ob_callback_four :: "string option"
  ob_address :: "address_need option"

definition opt_res :: "('a \<Rightarrow> 'b res) \<Rightarrow> 'a option \<Rightarrow> 'b option res" where
  "opt_res f x = (case x of None \<Rightarrow> Inr None | Some v \<Rightarrow> ebind (f v) (\<lambda>y. Inr (Some y)))"

text \<open>\<open>CallerObservation.__post_init__\<close>, for enumerations that are already typed.\<close>

definition observation_post_init :: "caller_observation \<Rightarrow> caller_observation res" where
  "observation_post_init ob =
     ebind (opt_res (\<lambda>s. language_code (PStr s)) (ob_language ob)) (\<lambda>l.
     ebind (opt_res (\<lambda>s. safe_text 80 (PStr s)) (ob_object ob)) (\<lambda>j.
     ebind (opt_res (\<lambda>s. safe_text 160 (PStr s)) (ob_scope_reason ob)) (\<lambda>r.
     ebind (opt_res (\<lambda>s. phone_four (PStr s)) (ob_callback_four ob)) (\<lambda>p.
       Inr (ob\<lparr>ob_language := l, ob_object := j, ob_scope_reason := r, ob_callback_four := p\<rparr>)))))"

definition OBSERVATION_FIELDS :: "string list" where
  "OBSERVATION_FIELDS = [''language'', ''identity_confirmed'', ''business_scope'', ''business_scope_reason'',
     ''intent'', ''service_object'', ''service_action'', ''urgency'', ''callback_intent'',
     ''callback_confirmation'', ''callback_phone_last_four'', ''address_need'']"

definition optional_text :: "pydict \<Rightarrow> string \<Rightarrow> string option res" where
  "optional_text d k = (case pget d k of PNone \<Rightarrow> Inr None | PStr s \<Rightarrow> Inr (Some s) | _ \<Rightarrow> Inl TypeError)"

definition optional_enum :: "('e \<Rightarrow> string) \<Rightarrow> 'e list \<Rightarrow> pydict \<Rightarrow> string \<Rightarrow> 'e option res" where
  "optional_enum value members d k =
     (if pget d k = PNone then Inr None else ebind (enum_of value members (pget d k)) (\<lambda>m. Inr (Some m)))"

definition observation_from_dict :: "(string \<times> pyval) list \<Rightarrow> caller_observation res" where
  "observation_from_dict data =
     (if \<not> fst ` set data \<subseteq> set OBSERVATION_FIELDS then Inl ValueError
      else let d = map_of data in
      ebind (case pget d ''identity_confirmed'' of PNone \<Rightarrow> Inr None | PBool b \<Rightarrow> Inr (Some b) | _ \<Rightarrow> Inl TypeError) (\<lambda>idc.
      ebind (optional_text d ''language'') (\<lambda>l.
      ebind (optional_enum scope_value scopes d ''business_scope'') (\<lambda>sc.
      ebind (optional_text d ''business_scope_reason'') (\<lambda>re.
      ebind (optional_enum intent_value intents d ''intent'') (\<lambda>it.
      ebind (optional_text d ''service_object'') (\<lambda>oj.
      ebind (optional_enum action_value actions d ''service_action'') (\<lambda>ac.
      ebind (optional_enum urgency_value urgencies d ''urgency'') (\<lambda>ur.
      ebind (optional_enum callback_intent_value callback_intents d ''callback_intent'') (\<lambda>ci.
      ebind (optional_enum confirmation_value confirmations d ''callback_confirmation'') (\<lambda>cc.
      ebind (optional_text d ''callback_phone_last_four'') (\<lambda>pf.
      ebind (optional_enum address_value address_needs d ''address_need'') (\<lambda>ad.
        observation_post_init
          \<lparr>ob_language = l, ob_identity = idc, ob_scope = sc, ob_scope_reason = re, ob_intent = it,
           ob_object = oj, ob_action = ac, ob_urgency = ur, ob_callback_intent = ci, ob_confirmation = cc,
           ob_callback_four = pf, ob_address = ad\<rparr>)))))))))))))"

section \<open>The intake state\<close>

record intake =
  it_call_sid :: string
  it_phase :: intake_phase
  it_identity :: caller_identity
  it_caller_four :: string
  it_callback_four :: string
  it_scope :: business_scope
  it_scope_reason :: string
  it_intent :: intent
  it_object :: string
  it_action :: service_action
  it_urgency :: urgency
  it_facts :: "string list"
  it_asked :: "string set"
  it_callback_intent :: callback_intent
  it_confirmation :: callback_confirmation
  it_address :: address_need
  it_memory :: "string set"
  it_side_effects :: bool
  it_language :: string

text \<open>
  The constructor: each argument passes its attribute's validation, in the order of the fields.
  The collections that become sets arrive as lists.
\<close>

definition make_intake ::
    "string \<Rightarrow> intake_phase \<Rightarrow> caller_identity \<Rightarrow> string \<Rightarrow> string \<Rightarrow> business_scope \<Rightarrow> string \<Rightarrow> intent \<Rightarrow>
     string \<Rightarrow> service_action \<Rightarrow> urgency \<Rightarrow> string list \<Rightarrow> string list \<Rightarrow> callback_intent \<Rightarrow>
     callback_confirmation \<Rightarrow> address_need \<Rightarrow> string list \<Rightarrow> bool \<Rightarrow> string \<Rightarrow> intake res" where
  "make_intake sid ph idy f1 f2 sc scr it ob ac ur facts asked ci cc ad mem se lang =
     ebind (safe_text 128 (PStr sid)) (\<lambda>sid'. ebind (phone_four_or_empty (PStr f1)) (\<lambda>f1'.
     ebind (phone_four_or_empty (PStr f2)) (\<lambda>f2'. ebind (safe_text 160 (PStr scr)) (\<lambda>scr'.
     ebind (safe_text 80 (PStr ob)) (\<lambda>ob'. ebind (safe_texts 160 (map PStr facts)) (\<lambda>facts'.
     ebind (safe_texts 80 (map PStr asked)) (\<lambda>asked'. ebind (safe_texts 160 (map PStr mem)) (\<lambda>mem'.
     ebind (language_code (PStr lang)) (\<lambda>lang'.
       Inr \<lparr>it_call_sid = sid', it_phase = ph, it_identity = idy, it_caller_four = f1', it_callback_four = f2',
            it_scope = sc, it_scope_reason = scr', it_intent = it, it_object = ob', it_action = ac,
            it_urgency = ur, it_facts = facts', it_asked = set asked', it_callback_intent = ci,
            it_confirmation = cc, it_address = ad, it_memory = set mem', it_side_effects = se,
            it_language = lang'\<rparr>)))))))))"

text \<open>\<open>IntakeState.new\<close>; the caller's confidence is a float.\<close>

definition new_intake ::
    "string \<Rightarrow> string \<Rightarrow> string \<Rightarrow> string \<Rightarrow> pyfloat \<Rightarrow> string list \<Rightarrow> intake res" where
  "new_intake call_sid phone name source confidence memory =
     ebind (make_identity name (PFloat confidence) source (name \<noteq> [] \<and> fleq (Fin (8 / 10)) confidence)) (\<lambda>idy.
     ebind (safe_texts 160 (map PStr memory)) (\<lambda>mem.
       make_intake call_sid GREETING idy (phone_last_four phone) [] UNCLEAR [] UNKNOWN_INTENT [] UNKNOWN_ACTION
         UNKNOWN_URGENCY [] [] NO_CALLBACK UNCONFIRMED NO_ADDRESS mem False ''unknown''))"

subsection \<open>Applying an observation\<close>

fun apply_all :: "('s \<Rightarrow> 's res) list \<Rightarrow> 's \<Rightarrow> 's res" where
  "apply_all [] s = Inr s"
| "apply_all (f # fs) s = ebind (f s) (apply_all fs)"

definition on_some :: "('a \<Rightarrow> 's \<Rightarrow> 's res) \<Rightarrow> 'a option \<Rightarrow> 's \<Rightarrow> 's res" where
  "on_some f x s = (case x of None \<Rightarrow> Inr s | Some v \<Rightarrow> f v s)"

definition replace_known_slot :: "string \<Rightarrow> string \<Rightarrow> intake \<Rightarrow> intake res" where
  "replace_known_slot slot value s =
     (let prefix = slot @ '':'' in
      ebind (safe_texts 160 (map PStr (filter (\<lambda>f. \<not> has_prefix prefix f) (it_facts s)))) (\<lambda>facts.
        if value = [] then Inr (s\<lparr>it_facts := facts\<rparr>)
        else ebind (safe_text 160 (PStr (prefix @ value))) (\<lambda>fact. Inr (s\<lparr>it_facts := facts @ [fact]\<rparr>))))"

definition observe_language :: "string \<Rightarrow> intake \<Rightarrow> intake res" where
  "observe_language v s =
     (let l = py_strip v
      in ebind (language_code (PStr (if l \<noteq> [] then l else ''unknown''))) (\<lambda>x. Inr (s\<lparr>it_language := x\<rparr>)))"

definition observe_scope_reason :: "string \<Rightarrow> intake \<Rightarrow> intake res" where
  "observe_scope_reason v s =
     ebind (safe_text 160 (PStr (py_strip v))) (\<lambda>x. Inr (s\<lparr>it_scope_reason := x\<rparr>))"

definition observe_object :: "string \<Rightarrow> intake \<Rightarrow> intake res" where
  "observe_object v s =
     ebind (safe_text 80 (PStr (py_strip v))) (\<lambda>x. replace_known_slot ''service_object'' x (s\<lparr>it_object := x\<rparr>))"

definition observe_action :: "service_action \<Rightarrow> intake \<Rightarrow> intake res" where
  "observe_action a s = replace_known_slot ''service_action''
     (if a = UNKNOWN_ACTION then [] else action_value a) (s\<lparr>it_action := a\<rparr>)"

definition observe_urgency :: "urgency \<Rightarrow> intake \<Rightarrow> intake res" where
  "observe_urgency u s = replace_known_slot ''urgency''
     (if u = UNKNOWN_URGENCY then [] else urgency_value u) (s\<lparr>it_urgency := u\<rparr>)"

definition observe_callback_intent :: "callback_intent \<Rightarrow> intake \<Rightarrow> intake res" where
  "observe_callback_intent i s = replace_known_slot ''callback_intent''
     (if i = NO_CALLBACK then [] else callback_intent_value i) (s\<lparr>it_callback_intent := i\<rparr>)"

definition observe_callback_four :: "string \<Rightarrow> intake \<Rightarrow> intake res" where
  "observe_callback_four v s =
     ebind (phone_four_or_empty (PStr v)) (\<lambda>x. replace_known_slot ''callback_confirmation'' []
       (s\<lparr>it_callback_four := x, it_confirmation := UNCONFIRMED,
          it_asked := it_asked s - {''callback_confirmation''}\<rparr>))"

definition observe_confirmation :: "callback_confirmation \<Rightarrow> intake \<Rightarrow> intake res" where
  "observe_confirmation c s = replace_known_slot ''callback_confirmation''
     (if c = UNCONFIRMED then [] else confirmation_value c) (s\<lparr>it_confirmation := c\<rparr>)"

definition apply_caller_observation :: "caller_observation \<Rightarrow> intake \<Rightarrow> intake res" where
  "apply_caller_observation ob s = apply_all
     [\<lambda>s. Inr (s\<lparr>it_phase := UNDERSTAND_REQUEST\<rparr>),
      on_some (\<lambda>b s. Inr (s\<lparr>it_identity := (it_identity s)\<lparr>ci_confirmed := b\<rparr>\<rparr>)) (ob_identity ob),
      on_some observe_language (ob_language ob),
      on_some (\<lambda>x s. Inr (s\<lparr>it_scope := x\<rparr>)) (ob_scope ob),
      on_some observe_scope_reason (ob_scope_reason ob),
      on_some (\<lambda>x s. Inr (s\<lparr>it_intent := x\<rparr>)) (ob_intent ob),
      on_some (\<lambda>x s. Inr (s\<lparr>it_address := x\<rparr>)) (ob_address ob),
      on_some observe_object (ob_object ob),
      on_some observe_action (ob_action ob),
      on_some observe_urgency (ob_urgency ob),
      on_some observe_callback_intent (ob_callback_intent ob),
      on_some observe_callback_four (ob_callback_four ob),
      on_some observe_confirmation (ob_confirmation ob)] s"

definition mark_slot_asked :: "string \<Rightarrow> intake \<Rightarrow> intake res" where
  "mark_slot_asked slot s =
     (if slot = [] then Inr s
      else ebind (safe_text 80 (PStr slot)) (\<lambda>x. ebind (safe_text 80 (PStr x)) (\<lambda>y.
        Inr (s\<lparr>it_asked := insert y (it_asked s)\<rparr>))))"

subsection \<open>Known slots\<close>

definition ASKABLE_SLOTS :: "string list" where
  "ASKABLE_SLOTS = [''caller_name'', ''service_action'', ''service_object'', ''callback_number'',
     ''callback_confirmation'', ''callback_preference'', ''service_address'', ''job_complexity'', ''urgency'',
     ''safety_location'']"

definition slot_of_fact :: "string \<Rightarrow> string option" where
  "slot_of_fact entry =
     (let slot = py_strip (takeWhile (\<lambda>c. c \<noteq> CHR '':'') entry); rest = dropWhile (\<lambda>c. c \<noteq> CHR '':'') entry
      in if rest = [] \<or> py_strip (tl rest) = [] then None
         else let askable = (if slot = ''callback_intent'' then ''callback_preference'' else slot)
              in if askable \<in> set ASKABLE_SLOTS then Some askable else None)"

definition known_askable_slots :: "intake \<Rightarrow> string set" where
  "known_askable_slots s = set (List.map_filter slot_of_fact (it_facts s))"

subsection \<open>Dictionaries\<close>

definition sorted_texts :: "string set \<Rightarrow> pyval" where
  "sorted_texts S = PList (map PStr (sorted_list_of_set S))"

definition intake_to_dict :: "intake \<Rightarrow> pydict" where
  "intake_to_dict s = map_of
     [(''call_sid'', PStr (it_call_sid s)), (''phase'', PStr (phase_value (it_phase s))),
      (''caller_identity'', identity_to_dict (it_identity s)),
      (''caller_phone_last_four'', PStr (it_caller_four s)),
      (''callback_phone_last_four'', PStr (it_callback_four s)),
      (''business_scope'', PStr (scope_value (it_scope s))),
      (''business_scope_reason'', PStr (it_scope_reason s)), (''intent'', PStr (intent_value (it_intent s))),
      (''service_object'', PStr (it_object s)), (''service_action'', PStr (action_value (it_action s))),
      (''urgency'', PStr (urgency_value (it_urgency s))), (''known_facts'', PList (map PStr (it_facts s))),
      (''asked_slots'', sorted_texts (it_asked s)),
      (''callback_intent'', PStr (callback_intent_value (it_callback_intent s))),
      (''callback_confirmation'', PStr (confirmation_value (it_confirmation s))),
      (''address_need'', PStr (address_value (it_address s))), (''memory_refs_used'', sorted_texts (it_memory s)),
      (''side_effects_allowed'', PBool (it_side_effects s)), (''language'', PStr (it_language s))]"

definition intake_from_dict :: "(pyval \<Rightarrow> string) \<Rightarrow> pydict \<Rightarrow> intake res" where
  "intake_from_dict repr d =
     (case pget_or d ''side_effects_allowed'' (PBool False) of
        PBool se \<Rightarrow>
          ebind (enum_or phase_value phases d ''phase'' GREETING) (\<lambda>ph.
          ebind (identity_from_dict repr (pget d ''caller_identity'')) (\<lambda>idy.
          ebind (restore_phone_four d ''caller_phone_last_four'') (\<lambda>f1.
          ebind (restore_phone_four d ''callback_phone_last_four'') (\<lambda>f2.
          ebind (enum_or scope_value scopes d ''business_scope'' UNCLEAR) (\<lambda>sc.
          ebind (enum_or intent_value intents d ''intent'' UNKNOWN_INTENT) (\<lambda>it.
          ebind (enum_or action_value actions d ''service_action'' UNKNOWN_ACTION) (\<lambda>ac.
          ebind (enum_or urgency_value urgencies d ''urgency'' UNKNOWN_URGENCY) (\<lambda>ur.
          ebind (restore_texts d ''known_facts'' 160) (\<lambda>facts.
          ebind (restore_texts d ''asked_slots'' 80) (\<lambda>asked.
          ebind (enum_or callback_intent_value callback_intents d ''callback_intent'' NO_CALLBACK) (\<lambda>ci.
          ebind (enum_or confirmation_value confirmations d ''callback_confirmation'' UNCONFIRMED) (\<lambda>cc.
          ebind (enum_or address_value address_needs d ''address_need'' NO_ADDRESS) (\<lambda>ad.
          ebind (restore_texts d ''memory_refs_used'' 160) (\<lambda>mem.
            make_intake (str_or repr d ''call_sid'' []) ph idy f1 f2 sc (str_or repr d ''business_scope_reason'' []) it
              (str_or repr d ''service_object'' []) ac ur facts asked ci cc ad mem se
              (str_or repr d ''language'' ''unknown'')))))))))))))))
      | _ \<Rightarrow> Inl TypeError)"

definition redacted_log_dict :: "intake \<Rightarrow> pydict" where
  "redacted_log_dict s = map_of
     [(''call_sid'', PStr (it_call_sid s)), (''phase'', PStr (phase_value (it_phase s))),
      (''caller_phone_last_four'', PStr (it_caller_four s)),
      (''callback_phone_last_four'', PStr (it_callback_four s)), (''intent'', PStr (intent_value (it_intent s))),
      (''service_object_present'', PBool (it_object s \<noteq> [])), (''service_action'', PStr (action_value (it_action s))),
      (''urgency'', PStr (urgency_value (it_urgency s))), (''asked_slots'', sorted_texts (it_asked s)),
      (''callback_intent'', PStr (callback_intent_value (it_callback_intent s))),
      (''callback_confirmation'', PStr (confirmation_value (it_confirmation s))),
      (''address_need'', PStr (address_value (it_address s))), (''known_fact_count'', PInt (int (length (it_facts s)))),
      (''memory_ref_count'', PInt (int (card (it_memory s)))), (''side_effects_allowed'', PBool (it_side_effects s)),
      (''language'', PStr (it_language s))]"


section \<open>Facts on validated text\<close>

lemma apply_all_append: "apply_all (fs @ gs) s = ebind (apply_all fs s) (apply_all gs)"
  by (induction fs arbitrary: s) (auto simp: ebind_def split: sum.splits)

definition safe :: "nat \<Rightarrow> string \<Rightarrow> bool" where
  "safe n s = (py_strip s = s \<and> length s \<le> n \<and> (\<forall>c \<in> set s. 32 \<le> (of_char c :: nat)) \<and> \<not> full_phone False s)"

lemma safe_text_iff: "safe_text n v = Inr x \<longleftrightarrow> (\<exists>s. v = PStr s \<and> x = py_strip s \<and> safe n (py_strip s))"
  by (auto simp: safe_text_def safe_def Let_def not_le not_less split: pyval.splits)

lemma safe_text_safe: "safe_text n (PStr s) = Inr s \<longleftrightarrow> safe n s"
  by (auto simp: safe_text_iff safe_def)

lemma safe_text_id [simp]: "safe n s \<Longrightarrow> safe_text n (PStr s) = Inr s"
  by (simp add: safe_text_safe)

lemma safe_text_result: "safe_text n v = Inr x \<Longrightarrow> safe n x"
  by (auto simp: safe_text_iff)

lemma safe_strip: "safe n s \<Longrightarrow> py_strip s = s"
  by (simp add: safe_def)

lemma safe_texts_result: "safe_texts n vs = Inr xs \<Longrightarrow> list_all (safe n) xs"
  by (induction vs arbitrary: xs) (auto simp: ebind_eq_Inr dest: safe_text_result)

lemma safe_texts_id [simp]: "list_all (safe n) xs \<Longrightarrow> safe_texts n (map PStr xs) = Inr xs"
  by (induction xs) simp_all

lemma safe_text_collection_result: "safe_text_collection n v = Inr xs \<Longrightarrow> list_all (safe n) xs"
  by (auto simp: safe_text_collection_def dest: safe_texts_result split: pyval.splits)

lemma restore_texts_result: "restore_texts d k n = Inr xs \<Longrightarrow> list_all (safe n) xs"
  by (auto simp: restore_texts_def dest: safe_text_collection_result split: if_splits)

definition four :: "string \<Rightarrow> bool" where
  "four s = (py_strip s = s \<and> length s = 4 \<and> list_all py_isdigit s)"

lemma phone_four_result: "phone_four v = Inr x \<Longrightarrow> four x"
  by (auto simp: phone_four_def four_def Let_def split: pyval.splits if_splits)

lemma phone_four_id [simp]: "four s \<Longrightarrow> phone_four (PStr s) = Inr s"
  by (simp add: phone_four_def four_def Let_def)

definition four_or_empty :: "string \<Rightarrow> bool" where
  "four_or_empty s = (s = [] \<or> four s)"

lemma phone_four_or_empty_result: "phone_four_or_empty v = Inr x \<Longrightarrow> four_or_empty x"
  by (auto simp: phone_four_or_empty_def four_or_empty_def dest: phone_four_result split: if_splits)

lemma phone_four_or_empty_id [simp]: "four_or_empty s \<Longrightarrow> phone_four_or_empty (PStr s) = Inr s"
  by (auto simp: phone_four_or_empty_def four_or_empty_def)

definition language_tag :: "string \<Rightarrow> bool" where
  "language_tag s = (language_code (PStr s) = Inr s)"

lemma language_code_result:
  assumes "language_code v = Inr x"
  shows "language_tag x"
proof -
  from assms have "safe_text 35 v = Inr x" and "\<not> (x = [] \<or> 35 < length x \<or>
      (\<exists>p \<in> set (split_on (CHR ''-'') x). p = [] \<or> 8 < length p \<or> \<not> list_all py_isalnum p))"
    by (auto simp: language_code_def ebind_eq_Inr split: if_splits)
  with safe_text_result [of 35 v x] show ?thesis by (simp add: language_tag_def language_code_def)
qed

lemma language_tagD: "language_tag s \<Longrightarrow> language_code (PStr s) = Inr s \<and> safe 35 s \<and> s \<noteq> []"
  by (auto simp: language_tag_def language_code_def ebind_eq_Inr dest: safe_text_result split: if_splits)

lemma unknown_language: "language_code (PStr ''unknown'') = Inr ''unknown''"
  by (simp add: language_code_def safe_text_def py_strip_def py_space_def decimal_def py_isalnum_def py_isdigit_def)

definition unit_interval :: "rat \<Rightarrow> bool" where
  "unit_interval r = (0 \<le> r \<and> r \<le> 1)"

lemma confidence_result: "confidence_of v = Inr r \<Longrightarrow> unit_interval r"
  by (auto simp: confidence_of_def unit_interval_def split: if_splits option.splits elim: finite_of.elims)

lemma confidence_id [simp]: "unit_interval r \<Longrightarrow> confidence_of (PFloat (Fin r)) = Inr r"
  by (simp add: confidence_of_def unit_interval_def)

subsection \<open>Facts keep their slot\<close>

lemma full_phone_skip:
  assumes "\<not> decimal c" and "c \<noteq> CHR ''+''"
  shows "full_phone b (c # s) = full_phone False s"
  using assms by simp

lemma full_phone_prefix:
  "\<forall>c \<in> set p. \<not> decimal c \<and> c \<noteq> CHR ''+'' \<Longrightarrow> p \<noteq> [] \<Longrightarrow> full_phone b (p @ s) = full_phone False s"
proof (induction p arbitrary: b)
  case (Cons c p)
  then show ?case by (cases p) auto
qed simp

lemma last_py_strip: "py_strip s \<noteq> [] \<Longrightarrow> \<not> py_space (last (py_strip s))"
  unfolding py_strip_def by (metis hd_dropWhile last_rev rev.simps(1))

lemma py_strip_id: "s \<noteq> [] \<Longrightarrow> \<not> py_space (hd s) \<Longrightarrow> \<not> py_space (last s) \<Longrightarrow> py_strip s = s"
  unfolding py_strip_def by (simp add: dropWhile_id hd_rev)

lemma py_strip_cons:
  assumes "\<not> py_space c" and "py_strip (d # s) = d # s"
  shows "py_strip (c # p @ d # s) = c # p @ d # s"
proof (rule py_strip_id)
  show "\<not> py_space (last (c # p @ d # s))" using last_py_strip [of "d # s"] assms(2) by simp
qed (use assms(1) in simp_all)

lemma safe_fact:
  assumes "safe n v" and "v \<noteq> []" and "p \<noteq> []" and "length p + n \<le> m"
    and "\<forall>c \<in> set p. \<not> decimal c \<and> c \<noteq> CHR ''+'' \<and> \<not> py_space c \<and> 32 \<le> (of_char c :: nat)"
  shows "safe m (p @ v)"
proof -
  obtain d s where v: "v = d # s" using assms(2) by (cases v) auto
  obtain c q where p: "p = c # q" using assms(3) by (cases p) auto
  have "py_strip (p @ v) = p @ v"
    using py_strip_cons [of c d s q] assms(1,5) by (simp add: v p safe_def)
  moreover have "full_phone False (p @ v) = full_phone False v"
    using assms(3,5) by (intro full_phone_prefix) auto
  ultimately show ?thesis using assms by (auto simp: safe_def)
qed

lemma no_phone_letters: "\<forall>c \<in> set s. \<not> decimal c \<and> c \<noteq> CHR ''+'' \<Longrightarrow> \<not> full_phone b s"
  using full_phone_prefix [of s b "[]"] by (cases s) auto

section \<open>Valid states\<close>

definition when_some :: "('a \<Rightarrow> bool) \<Rightarrow> 'a option \<Rightarrow> bool" where
  "when_some P x = (case x of None \<Rightarrow> True | Some y \<Rightarrow> P y)"

lemma when_some_simps [simp]: "when_some P None" "when_some P (Some x) = P x"
  by (simp_all add: when_some_def)

definition valid_identity :: "caller_identity \<Rightarrow> bool" where
  "valid_identity i = (safe 160 (ci_name i) \<and> unit_interval (ci_confidence i) \<and> safe 160 (ci_source i))"

definition valid_observation :: "caller_observation \<Rightarrow> bool" where
  "valid_observation ob =
     (when_some language_tag (ob_language ob) \<and> when_some (safe 80) (ob_object ob) \<and>
      when_some (safe 160) (ob_scope_reason ob) \<and> when_some four (ob_callback_four ob))"

definition valid_intake :: "intake \<Rightarrow> bool" where
  "valid_intake s =
     (safe 128 (it_call_sid s) \<and> valid_identity (it_identity s) \<and> four_or_empty (it_caller_four s) \<and>
      four_or_empty (it_callback_four s) \<and> safe 160 (it_scope_reason s) \<and> safe 80 (it_object s) \<and>
      list_all (safe 160) (it_facts s) \<and> finite (it_asked s) \<and> (\<forall>x \<in> it_asked s. safe 80 x) \<and>
      finite (it_memory s) \<and> (\<forall>x \<in> it_memory s. safe 160 x) \<and> language_tag (it_language s))"

lemma opt_res_iff: "opt_res f x = Inr y \<longleftrightarrow>
    (case x of None \<Rightarrow> y = None | Some v \<Rightarrow> \<exists>z. f v = Inr z \<and> y = Some z)"
  by (auto simp: opt_res_def ebind_eq_Inr split: option.splits)

lemma observation_post_init_valid:
  assumes "observation_post_init ob = Inr ob'"
  shows "valid_observation ob'"
proof -
  from assms obtain l j r p where *: "opt_res (\<lambda>s. language_code (PStr s)) (ob_language ob) = Inr l"
      "opt_res (\<lambda>s. safe_text 80 (PStr s)) (ob_object ob) = Inr j"
      "opt_res (\<lambda>s. safe_text 160 (PStr s)) (ob_scope_reason ob) = Inr r"
      "opt_res (\<lambda>s. phone_four (PStr s)) (ob_callback_four ob) = Inr p"
    and ob': "ob' = ob\<lparr>ob_language := l, ob_object := j, ob_scope_reason := r, ob_callback_four := p\<rparr>"
    by (auto simp: observation_post_init_def ebind_eq_Inr)
  have "when_some language_tag l" "when_some (safe 80) j" "when_some (safe 160) r" "when_some four p"
    using * by (auto simp: opt_res_iff when_some_def split: option.splits
        dest: language_code_result safe_text_result phone_four_result)
  then show ?thesis by (simp add: ob' valid_observation_def)
qed

lemma make_identity_valid: "make_identity n c s b = Inr i \<Longrightarrow> valid_identity i"
  by (auto simp: make_identity_def valid_identity_def ebind_eq_Inr dest: safe_text_result confidence_result)

lemma make_intake_valid:
  "make_intake sid ph idy f1 f2 sc scr it ob ac ur facts asked ci cc ad mem se lang = Inr s \<Longrightarrow>
   valid_identity idy \<Longrightarrow> valid_intake s"
  by (auto simp: make_intake_def valid_intake_def ebind_eq_Inr list_all_iff
      dest!: safe_text_result phone_four_or_empty_result safe_texts_result language_code_result)

lemma new_intake_valid: "new_intake sid phone name source conf mem = Inr s \<Longrightarrow> valid_intake s"
  by (auto simp: new_intake_def ebind_eq_Inr dest: make_intake_valid make_identity_valid)

subsection \<open>Every step on a valid state succeeds and keeps it valid\<close>

definition total_step :: "(intake \<Rightarrow> intake res) \<Rightarrow> bool" where
  "total_step f = (\<forall>s. valid_intake s \<longrightarrow> (\<exists>s'. f s = Inr s' \<and> valid_intake s'))"

lemma apply_all_total: "list_all total_step fs \<Longrightarrow> total_step (apply_all fs)"
proof (induction fs)
  case (Cons f fs)
  then have "total_step f" "total_step (apply_all fs)" by simp_all
  then show ?case unfolding total_step_def apply_all.simps by (metis ebind_Inr)
qed (simp add: total_step_def)

lemma on_some_total: "(\<And>v. x = Some v \<Longrightarrow> total_step (f v)) \<Longrightarrow> total_step (on_some f x)"
  by (cases x) (auto simp: on_some_def total_step_def)

definition slot_char :: "char \<Rightarrow> bool" where
  "slot_char c = (\<not> decimal c \<and> c \<noteq> CHR ''+'' \<and> \<not> py_space c \<and> 32 \<le> (of_char c :: nat))"

definition slot_text :: "string \<Rightarrow> bool" where
  "slot_text p = (set p \<subseteq> set ''abcdefghijklmnopqrstuvwxyz_'')"

lemma slot_text_chars: "slot_text p \<Longrightarrow> \<forall>c \<in> set p. slot_char c"
proof -
  have "list_all slot_char ''abcdefghijklmnopqrstuvwxyz_''"
    by (simp add: slot_char_def decimal_def py_space_def Let_def)
  then show "slot_text p \<Longrightarrow> \<forall>c \<in> set p. slot_char c" unfolding slot_text_def list_all_iff by blast
qed

lemma list_all_filter: "list_all P xs \<Longrightarrow> list_all P (filter Q xs)"
  by (auto simp: list_all_iff)

lemma replace_known_slot_eq:
  assumes "valid_intake s" and "slot_text slot" and "length slot < 60" and "safe 80 value"
  shows "replace_known_slot slot value s = Inr (s\<lparr>it_facts :=
      filter (\<lambda>f. \<not> has_prefix (slot @ '':'') f) (it_facts s) @ (if value = [] then [] else [slot @ '':'' @ value])\<rparr>)"
    and "value \<noteq> [] \<Longrightarrow> safe 160 (slot @ '':'' @ value)"
proof -
  have facts: "list_all (safe 160) (filter (\<lambda>f. \<not> has_prefix (slot @ '':'') f) (it_facts s))"
    using assms(1) by (intro list_all_filter) (simp add: valid_intake_def)
  have fact: "safe 160 (slot @ '':'' @ value)" if "value \<noteq> []"
  proof -
    have "\<forall>c \<in> set (slot @ '':''). \<not> decimal c \<and> c \<noteq> CHR ''+'' \<and> \<not> py_space c \<and> 32 \<le> (of_char c :: nat)"
      using slot_text_chars [OF assms(2)] by (auto simp: slot_char_def decimal_def py_space_def Let_def)
    with safe_fact [OF assms(4) that, of "slot @ '':''" 160] assms(3) show ?thesis by simp
  qed
  then show "value \<noteq> [] \<Longrightarrow> safe 160 (slot @ '':'' @ value)" .
  show "replace_known_slot slot value s = Inr (s\<lparr>it_facts :=
      filter (\<lambda>f. \<not> has_prefix (slot @ '':'') f) (it_facts s) @ (if value = [] then [] else [slot @ '':'' @ value])\<rparr>)"
    using facts fact by (simp add: replace_known_slot_def Let_def)
qed

lemma replace_known_slot_valid:
  assumes "valid_intake s" and "slot_text slot" and "length slot < 60" and "safe 80 value"
  shows "\<exists>s'. replace_known_slot slot value s = Inr s' \<and> valid_intake s'"
proof -
  have "valid_intake (s\<lparr>it_facts :=
      filter (\<lambda>f. \<not> has_prefix (slot @ '':'') f) (it_facts s) @ (if value = [] then [] else [slot @ '':'' @ value])\<rparr>)"
    using assms(1) replace_known_slot_eq(2) [OF assms] by (auto simp: valid_intake_def list_all_iff)
  with replace_known_slot_eq(1) [OF assms] show ?thesis by blast
qed

lemma slot_names: "slot_text ''service_object''" "slot_text ''service_action''" "slot_text ''urgency''"
    "slot_text ''callback_intent''" "slot_text ''callback_confirmation''"
  by (simp_all add: slot_text_def)

lemma no_phone_text: "slot_text s \<Longrightarrow> \<not> full_phone b s"
  by (rule no_phone_letters) (auto dest!: slot_text_chars simp: slot_char_def)

lemma safe_slot_text: "slot_text s \<Longrightarrow> length s \<le> n \<Longrightarrow> safe n s"
proof -
  assume s: "slot_text s" "length s \<le> n"
  note c = slot_text_chars [OF s(1)]
  have "py_strip s = s"
  proof (cases "s = []")
    case False
    with c show ?thesis by (intro py_strip_id) (auto simp: slot_char_def)
  qed simp
  with c s no_phone_text [OF s(1)] show "safe n s" by (auto simp: safe_def slot_char_def)
qed

lemma value_texts: "slot_text (action_value a)" "slot_text (urgency_value u)" "slot_text (callback_intent_value i)"
    "slot_text (confirmation_value c)" "slot_text (phase_value p)" "slot_text (scope_value b)"
    "slot_text (intent_value t)" "slot_text (address_value d)"
  by (cases a, simp_all add: slot_text_def) (cases u, simp_all, cases i, simp_all, cases c, simp_all, cases p, simp_all,
    cases b, simp_all, cases t, simp_all, cases d, simp_all)

lemma value_lengths: "length (action_value a) \<le> 80" "length (urgency_value u) \<le> 80"
    "length (callback_intent_value i) \<le> 80" "length (confirmation_value c) \<le> 80"
  by (cases a, simp_all) (cases u, simp_all, cases i, simp_all, cases c, simp_all)

lemma replace_known_slot_total:
  "valid_intake s \<Longrightarrow> slot_text slot \<Longrightarrow> length slot < 60 \<Longrightarrow> safe 80 value \<Longrightarrow>
   \<exists>s'. replace_known_slot slot value s = Inr s' \<and> valid_intake s'"
  by (rule replace_known_slot_valid)

lemma safe_Nil [simp]: "safe n []"
  by (simp add: safe_def)

lemma safe_value: "slot_text v \<Longrightarrow> length v \<le> 80 \<Longrightarrow> safe 80 (if b then [] else v)"
  by (simp add: safe_slot_text)

lemma observe_total:
  "language_tag l \<Longrightarrow> total_step (observe_language l)"
  "safe 160 r \<Longrightarrow> total_step (observe_scope_reason r)"
  "safe 80 j \<Longrightarrow> total_step (observe_object j)"
  "total_step (observe_action a)" "total_step (observe_urgency u)" "total_step (observe_callback_intent i)"
  "four p \<Longrightarrow> total_step (observe_callback_four p)"
  "total_step (observe_confirmation c)"
proof -
  show "total_step (observe_language l)" if l: "language_tag l"
  proof -
    have "py_strip l = l" "l \<noteq> []" "language_code (PStr l) = Inr l"
      using language_tagD [OF l] by (auto simp: safe_def)
    then show ?thesis using l by (simp add: total_step_def observe_language_def valid_intake_def)
  qed
  show "total_step (observe_scope_reason r)" if "safe 160 r"
    using that by (simp add: total_step_def observe_scope_reason_def valid_intake_def safe_strip)
  show "total_step (observe_object j)" if j: "safe 80 j"
    unfolding total_step_def observe_object_def using slot_names(1) j
    by (auto simp: safe_strip intro!: replace_known_slot_total) (simp add: valid_intake_def)
  show "total_step (observe_action a)"
    unfolding total_step_def observe_action_def
    using slot_names(2) safe_value [OF value_texts(1) value_lengths(1)]
    by (intro allI impI replace_known_slot_total) (simp_all add: valid_intake_def)
  show "total_step (observe_urgency u)"
    unfolding total_step_def observe_urgency_def
    using slot_names(3) safe_value [OF value_texts(2) value_lengths(2)]
    by (intro allI impI replace_known_slot_total) (simp_all add: valid_intake_def)
  show "total_step (observe_callback_intent i)"
    unfolding total_step_def observe_callback_intent_def
    using slot_names(4) safe_value [OF value_texts(3) value_lengths(3)]
    by (intro allI impI replace_known_slot_total) (simp_all add: valid_intake_def)
  show "total_step (observe_callback_four p)" if "four p"
    unfolding total_step_def observe_callback_four_def using that slot_names(5)
    by (auto simp: four_or_empty_def intro!: replace_known_slot_total) (simp add: valid_intake_def four_or_empty_def)
  show "total_step (observe_confirmation c)"
    unfolding total_step_def observe_confirmation_def
    using slot_names(5) safe_value [OF value_texts(4) value_lengths(4)]
    by (intro allI impI replace_known_slot_total) (simp_all add: valid_intake_def)
qed

lemma apply_caller_observation_total: "valid_observation ob \<Longrightarrow> total_step (apply_caller_observation ob)"
proof -
  assume ob: "valid_observation ob"
  have plain: "total_step (\<lambda>s. Inr (f s))" if "\<And>s. valid_intake s \<Longrightarrow> valid_intake (f s)" for f
    using that by (simp add: total_step_def)
  have "total_step (on_some (\<lambda>b s. Inr (s\<lparr>it_identity := (it_identity s)\<lparr>ci_confirmed := b\<rparr>\<rparr>)) (ob_identity ob))"
    "total_step (on_some (\<lambda>x s. Inr (s\<lparr>it_scope := x\<rparr>)) (ob_scope ob))"
    "total_step (on_some (\<lambda>x s. Inr (s\<lparr>it_intent := x\<rparr>)) (ob_intent ob))"
    "total_step (on_some (\<lambda>x s. Inr (s\<lparr>it_address := x\<rparr>)) (ob_address ob))"
    "total_step (\<lambda>s. Inr (s\<lparr>it_phase := UNDERSTAND_REQUEST\<rparr>))"
    by (auto intro!: on_some_total plain simp: valid_intake_def valid_identity_def)
  then have "list_all total_step
     [\<lambda>s. Inr (s\<lparr>it_phase := UNDERSTAND_REQUEST\<rparr>),
      on_some (\<lambda>b s. Inr (s\<lparr>it_identity := (it_identity s)\<lparr>ci_confirmed := b\<rparr>\<rparr>)) (ob_identity ob),
      on_some observe_language (ob_language ob), on_some (\<lambda>x s. Inr (s\<lparr>it_scope := x\<rparr>)) (ob_scope ob),
      on_some observe_scope_reason (ob_scope_reason ob), on_some (\<lambda>x s. Inr (s\<lparr>it_intent := x\<rparr>)) (ob_intent ob),
      on_some (\<lambda>x s. Inr (s\<lparr>it_address := x\<rparr>)) (ob_address ob), on_some observe_object (ob_object ob),
      on_some observe_action (ob_action ob), on_some observe_urgency (ob_urgency ob),
      on_some observe_callback_intent (ob_callback_intent ob), on_some observe_callback_four (ob_callback_four ob),
      on_some observe_confirmation (ob_confirmation ob)]"
    using ob by (auto intro!: on_some_total observe_total simp: valid_observation_def)
  from apply_all_total [OF this] show ?thesis unfolding total_step_def apply_caller_observation_def .
qed

lemma mark_slot_asked_total: "safe 80 slot \<Longrightarrow> total_step (mark_slot_asked slot)"
  by (auto simp: total_step_def mark_slot_asked_def valid_intake_def)

subsection \<open>The stored form\<close>

lemma enum_texts [simp]: "action_value a \<noteq> []" "urgency_value u \<noteq> []" "callback_intent_value i \<noteq> []"
    "confirmation_value c \<noteq> []" "phase_value p \<noteq> []" "scope_value b \<noteq> []" "intent_value t \<noteq> []" "address_value d \<noteq> []"
  by (cases a, simp_all) (cases u, simp_all, cases i, simp_all, cases c, simp_all, cases p, simp_all,
    cases b, simp_all, cases t, simp_all, cases d, simp_all)

lemma phase_of_value [simp]: "enum_of phase_value phases (PStr (phase_value k)) = Inr k"
  by (rule enum_of_value) (simp add: phases_def, cases k, simp_all add: phases_def)

lemma scope_of_value [simp]: "enum_of scope_value scopes (PStr (scope_value k)) = Inr k"
  by (rule enum_of_value) (simp add: scopes_def, cases k, simp_all add: scopes_def)

lemma intent_of_value [simp]: "enum_of intent_value intents (PStr (intent_value k)) = Inr k"
  by (rule enum_of_value) (simp add: intents_def, cases k, simp_all add: intents_def)

lemma action_of_value [simp]: "enum_of action_value actions (PStr (action_value k)) = Inr k"
  by (rule enum_of_value) (simp add: actions_def, cases k, simp_all add: actions_def)

lemma urgency_of_value [simp]: "enum_of urgency_value urgencies (PStr (urgency_value k)) = Inr k"
  by (rule enum_of_value) (simp add: urgencies_def, cases k, simp_all add: urgencies_def)

lemma callback_intent_of_value [simp]: "enum_of callback_intent_value callback_intents (PStr (callback_intent_value k)) = Inr k"
  by (rule enum_of_value) (simp add: callback_intents_def, cases k, simp_all add: callback_intents_def)

lemma confirmation_of_value [simp]: "enum_of confirmation_value confirmations (PStr (confirmation_value k)) = Inr k"
  by (rule enum_of_value) (simp add: confirmations_def, cases k, simp_all add: confirmations_def)

lemma address_of_value [simp]: "enum_of address_value address_needs (PStr (address_value k)) = Inr k"
  by (rule enum_of_value) (simp add: address_needs_def, cases k, simp_all add: address_needs_def)

lemma enum_or_value [simp]:
  "enum_of value members (PStr (value k)) = Inr k \<Longrightarrow> value k \<noteq> [] \<Longrightarrow> pget d key = PStr (value k) \<Longrightarrow>
   enum_or value members d key dflt = Inr k"
  by (simp add: enum_or_def)

lemma str_or_text [simp]: "pget d k = PStr x \<Longrightarrow> str_or repr d k [] = x"
  and str_or_full [simp]: "pget d k = PStr x \<Longrightarrow> x \<noteq> [] \<Longrightarrow> str_or repr d k y = x"
  by (simp_all add: str_or_def py_str_def)

lemma restore_phone_four_id [simp]: "pget d k = PStr x \<Longrightarrow> four_or_empty x \<Longrightarrow> restore_phone_four d k = Inr x"
  by (auto simp: restore_phone_four_def four_or_empty_def)

lemma restore_texts_id [simp]: "pget d k = PList (map PStr xs) \<Longrightarrow> list_all (safe n) xs \<Longrightarrow> restore_texts d k n = Inr xs"
  by (simp add: restore_texts_def safe_text_collection_def)

lemma restore_sorted [simp]:
  "pget d k = sorted_texts S \<Longrightarrow> finite S \<Longrightarrow> \<forall>x \<in> S. safe n x \<Longrightarrow>
   restore_texts d k n = Inr (sorted_list_of_set S)"
  by (simp add: sorted_texts_def list_all_iff)

lemma identity_roundtrip:
  assumes "valid_identity i"
  shows "identity_from_dict repr (identity_to_dict i) = Inr i"
proof -
  let ?d = "map_of [(''name'', PStr (ci_name i)), (''confidence'', PFloat (Fin (ci_confidence i))),
      (''source'', PStr (ci_source i)), (''confirmed'', PBool (ci_confirmed i))]"
  have "pget ?d ''name'' = PStr (ci_name i)" "pget ?d ''source'' = PStr (ci_source i)"
    "pget ?d ''confidence'' = PFloat (Fin (ci_confidence i))"
    "pget_or ?d ''confirmed'' (PBool False) = PBool (ci_confirmed i)"
    by (simp_all add: pget_def pget_or_def)
  then show ?thesis
    using assms by (simp add: identity_from_dict_def identity_to_dict_def make_identity_def valid_identity_def
        del: map_of.simps)
qed

lemma intake_to_dict_entries:
  fixes s :: intake
  defines "g \<equiv> pget (intake_to_dict s)"
  shows "g ''call_sid'' = PStr (it_call_sid s)" "g ''phase'' = PStr (phase_value (it_phase s))"
    "g ''caller_identity'' = identity_to_dict (it_identity s)"
    "g ''caller_phone_last_four'' = PStr (it_caller_four s)"
    "g ''callback_phone_last_four'' = PStr (it_callback_four s)"
    "g ''business_scope'' = PStr (scope_value (it_scope s))"
    "g ''business_scope_reason'' = PStr (it_scope_reason s)" "g ''intent'' = PStr (intent_value (it_intent s))"
    "g ''service_object'' = PStr (it_object s)" "g ''service_action'' = PStr (action_value (it_action s))"
    "g ''urgency'' = PStr (urgency_value (it_urgency s))" "g ''known_facts'' = PList (map PStr (it_facts s))"
    "g ''asked_slots'' = sorted_texts (it_asked s)"
    "g ''callback_intent'' = PStr (callback_intent_value (it_callback_intent s))"
    "g ''callback_confirmation'' = PStr (confirmation_value (it_confirmation s))"
    "g ''address_need'' = PStr (address_value (it_address s))" "g ''memory_refs_used'' = sorted_texts (it_memory s)"
    "pget_or (intake_to_dict s) ''side_effects_allowed'' (PBool False) = PBool (it_side_effects s)"
    "g ''language'' = PStr (it_language s)"
  by (simp_all add: g_def intake_to_dict_def pget_def pget_or_def)

lemma intake_dict_roundtrip:
  assumes "valid_intake s"
  shows "intake_from_dict repr (intake_to_dict s) = Inr s"
proof -
  have lang: "it_language s \<noteq> []" "language_code (PStr (it_language s)) = Inr (it_language s)"
    using assms language_tagD [of "it_language s"] by (auto simp: valid_intake_def)
  have lists: "list_all (safe 80) (sorted_list_of_set (it_asked s))"
    "list_all (safe 160) (sorted_list_of_set (it_memory s))"
    "set (sorted_list_of_set (it_asked s)) = it_asked s" "set (sorted_list_of_set (it_memory s)) = it_memory s"
    using assms by (simp_all add: valid_intake_def list_all_iff)
  show ?thesis
    using assms unfolding intake_from_dict_def
    by (simp add: intake_to_dict_entries identity_roundtrip make_intake_def lists lang valid_intake_def)
qed

subsection \<open>No telephone number in what is stored or logged\<close>

fun texts_of :: "pyval \<Rightarrow> string list" where
  "texts_of (PStr s) = [s]"
| "texts_of (PList vs) = concat (map texts_of vs)"
| "texts_of (PDict kvs) = concat (map (\<lambda>kv. texts_of (snd kv)) kvs)"
| "texts_of _ = []"

lemma phone_tail_length: "phone_tail k s \<Longrightarrow> 8 \<le> k + length s"
  by (induction k s rule: phone_tail.induct) auto

lemma full_phone_length: "full_phone b s \<Longrightarrow> 9 \<le> length s"
proof (induction b s rule: full_phone.induct)
  case (2 b c cs)
  have "phone_head t \<Longrightarrow> 9 \<le> length t" for t
    using phone_tail_length [of 0] by (cases t) fastforce+
  from this [of "c # cs"] this [of cs] 2 show ?case by fastforce
qed simp

lemma four_no_phone: "four_or_empty s \<Longrightarrow> \<not> full_phone b s"
  using full_phone_length [of b s] by (auto simp: four_or_empty_def four_def)

lemma safe_no_phone: "safe n s \<Longrightarrow> \<not> full_phone False s"
  by (simp add: safe_def)

section \<open>Properties\<close>

lemma observation_from_dict_valid: "observation_from_dict data = Inr ob \<Longrightarrow> valid_observation ob"
  by (auto simp: observation_from_dict_def ebind_eq_Inr Let_def split: if_splits dest: observation_post_init_valid)

lemma session_total:
  assumes "new_intake sid phone name source conf mem = Inr s0"
    and "\<forall>ob \<in> set obs. \<exists>data. observation_from_dict data = Inr ob"
  shows "\<exists>s. apply_all (map apply_caller_observation obs) s0 = Inr s \<and> valid_intake s"
proof -
  have "list_all total_step (map apply_caller_observation obs)"
    using assms(2) by (auto simp: list_all_iff dest: observation_from_dict_valid intro: apply_caller_observation_total)
  from apply_all_total [OF this] new_intake_valid [OF assms(1)] show ?thesis
    unfolding total_step_def by blast
qed

lemma no_phone_entry:
  assumes "valid_intake s" and "intake_to_dict s k = Some v \<or> redacted_log_dict s k = Some v" and "t \<in> set (texts_of v)"
  shows "\<not> full_phone False t"
proof -
  note valid = assms(1) [unfolded valid_intake_def valid_identity_def]
  have sorted: "x \<in> set (texts_of (sorted_texts S)) \<Longrightarrow> finite S \<Longrightarrow> \<forall>x \<in> S. safe n x \<Longrightarrow> \<not> full_phone False x" for x S n
    by (auto simp: sorted_texts_def safe_def)
  have lang: "safe 35 (it_language s)" using language_tagD [of "it_language s"] valid by blast
  have facts: "x \<in> set (it_facts s) \<Longrightarrow> \<not> full_phone False x" for x
    using valid by (auto simp: list_all_iff safe_def)
  have enums: "\<not> full_phone False (action_value a)" "\<not> full_phone False (urgency_value u)"
    "\<not> full_phone False (callback_intent_value i)" "\<not> full_phone False (confirmation_value c)"
    "\<not> full_phone False (phase_value p)" "\<not> full_phone False (scope_value b)"
    "\<not> full_phone False (intent_value q)" "\<not> full_phone False (address_value d)" for a u i c p b q d
    by (rule no_phone_text, rule value_texts)+
  have safe: "safe n x \<Longrightarrow> \<not> full_phone False x" for n x by (rule safe_no_phone)
  have id: "x \<in> set (texts_of (identity_to_dict (it_identity s))) \<Longrightarrow> \<not> full_phone False x" for x
    using valid by (auto simp: identity_to_dict_def safe_def)
  from assms(2) have "(k, v) \<in> set
     [(''call_sid'', PStr (it_call_sid s)), (''phase'', PStr (phase_value (it_phase s))),
      (''caller_identity'', identity_to_dict (it_identity s)),
      (''caller_phone_last_four'', PStr (it_caller_four s)),
      (''callback_phone_last_four'', PStr (it_callback_four s)),
      (''business_scope'', PStr (scope_value (it_scope s))),
      (''business_scope_reason'', PStr (it_scope_reason s)), (''intent'', PStr (intent_value (it_intent s))),
      (''service_object'', PStr (it_object s)), (''service_action'', PStr (action_value (it_action s))),
      (''urgency'', PStr (urgency_value (it_urgency s))), (''known_facts'', PList (map PStr (it_facts s))),
      (''asked_slots'', sorted_texts (it_asked s)),
      (''callback_intent'', PStr (callback_intent_value (it_callback_intent s))),
      (''callback_confirmation'', PStr (confirmation_value (it_confirmation s))),
      (''address_need'', PStr (address_value (it_address s))), (''memory_refs_used'', sorted_texts (it_memory s)),
      (''side_effects_allowed'', PBool (it_side_effects s)), (''language'', PStr (it_language s)),
      (''service_object_present'', PBool (it_object s \<noteq> [])),
      (''known_fact_count'', PInt (int (length (it_facts s)))), (''memory_ref_count'', PInt (int (card (it_memory s))))]"
    unfolding intake_to_dict_def redacted_log_dict_def by - (elim disjE; drule map_of_SomeD; auto)
  then have "v \<in> {PBool b | b. True} \<union> {PInt i | i. True} \<union> {PStr x | x. \<not> full_phone False x} \<union>
      {identity_to_dict (it_identity s), PList (map PStr (it_facts s)), sorted_texts (it_asked s), sorted_texts (it_memory s)}"
    using valid lang enums safe four_no_phone by auto
  with assms(3) id facts sorted [of t "it_asked s" 80] sorted [of t "it_memory s" 160] valid show ?thesis by auto
qed

text \<open>
  taking in a caller's turns never fails: from any state \<open>new\<close> makes, any sequence of
  observations that \<open>CallerObservation.from_dict\<close> accepts applies without an exception, and the
  state that results survives being stored and restored unchanged.
\<close>

theorem intake_session_total:
  assumes "new_intake sid phone name source conf mem = Inr s0"
    and "\<forall>ob \<in> set obs. \<exists>data. observation_from_dict data = Inr ob"
  shows "\<exists>s. apply_all (map apply_caller_observation obs) s0 = Inr s \<and>
     intake_from_dict repr (intake_to_dict s) = Inr s"
  using session_total [OF assms] intake_dict_roundtrip by blast

definition ex_observation_data :: "(string \<times> pyval) list" where
  "ex_observation_data = [(''service_action'', PStr ''repair''), (''service_object'', PStr '' sink ''),
     (''callback_phone_last_four'', PStr ''4321'')]"

definition ex_observation :: caller_observation where
  "ex_observation = \<lparr>ob_language = None, ob_identity = None, ob_scope = None, ob_scope_reason = None, ob_intent = None,
     ob_object = Some ''sink'', ob_action = Some REPAIR, ob_urgency = None, ob_callback_intent = None,
     ob_confirmation = None, ob_callback_four = Some ''4321'', ob_address = None\<rparr>"

definition ex_intake :: intake where
  "ex_intake = \<lparr>it_call_sid = ''CA1'', it_phase = GREETING,
     it_identity = \<lparr>ci_name = ''Ann'', ci_confidence = 9 / 10, ci_source = ''crm'', ci_confirmed = True\<rparr>,
     it_caller_four = ''4567'', it_callback_four = [], it_scope = UNCLEAR, it_scope_reason = [],
     it_intent = UNKNOWN_INTENT, it_object = [], it_action = UNKNOWN_ACTION, it_urgency = UNKNOWN_URGENCY,
     it_facts = [], it_asked = {}, it_callback_intent = NO_CALLBACK, it_confirmation = UNCONFIRMED,
     it_address = NO_ADDRESS, it_memory = {}, it_side_effects = False, it_language = ''unknown''\<rparr>"

lemma ex_new: "new_intake ''CA1'' ''+1 (555) 123-4567'' ''Ann'' ''crm'' (Fin (9 / 10)) [] = Inr ex_intake"
  by (simp add: new_intake_def make_identity_def make_intake_def safe_text_def py_strip_def py_space_def
      phone_last_four_def py_isdigit_def decimal_def confidence_of_def phone_four_or_empty_def phone_four_def
      unknown_language ex_intake_def Let_def)

lemma ex_observed: "observation_from_dict ex_observation_data = Inr ex_observation"
  by (simp add: observation_from_dict_def ex_observation_data_def OBSERVATION_FIELDS_def optional_text_def
      optional_enum_def enum_of_def actions_def observation_post_init_def opt_res_def safe_text_def py_strip_def
      py_space_def phone_four_def py_isdigit_def decimal_def pget_def ex_observation_def Let_def)

lemma ex_sid: "it_call_sid ex_intake = ''CA1''"
  by (simp add: ex_intake_def)

theorem intake_session_total_witness:
  "\<exists>s. apply_all (map apply_caller_observation [ex_observation, ex_observation]) ex_intake = Inr s \<and>
     intake_from_dict (\<lambda>_. []) (intake_to_dict s) = Inr s"
  by (rule intake_session_total [OF ex_new]) (use ex_observed in auto)

text \<open>
  C25: nothing that is stored or logged of a call's intake holds a full telephone number: after
  any such sequence, neither the saved dictionary nor the redacted log entry has a text anywhere
  in it that the telephone pattern finds.
\<close>

theorem intake_holds_no_phone:
  assumes "new_intake sid phone name source conf mem = Inr s0"
    and "\<forall>ob \<in> set obs. \<exists>data. observation_from_dict data = Inr ob"
    and "apply_all (map apply_caller_observation obs) s0 = Inr s"
    and "intake_to_dict s k = Some v \<or> redacted_log_dict s k = Some v" and "t \<in> set (texts_of v)"
  shows "\<not> full_phone False t"
proof -
  from session_total [OF assms(1,2)] assms(3) have "valid_intake s" by simp
  then show ?thesis using assms(4,5) by (rule no_phone_entry)
qed

theorem intake_holds_no_phone_witness: "\<not> full_phone False ''CA1''"
proof (rule intake_holds_no_phone [OF ex_new])
  show "apply_all (map apply_caller_observation []) ex_intake = Inr ex_intake" by simp
  show "intake_to_dict ex_intake ''call_sid'' = Some (PStr ''CA1'') \<or>
      redacted_log_dict ex_intake ''call_sid'' = Some (PStr ''CA1'')"
    by (simp add: intake_to_dict_def ex_sid)
qed simp_all

end
