(* ===== verification/Dialogue_Planner.thy ===== *)
theory Dialogue_Planner
  imports Intake_State
begin

text \<open>
  The receptionist's policy: the planner of app/services/dialogue_planner.py, the instruction
  composer of instruction_composer.py and the call-scoped controller of
  live_intake_controller.py. A set that is turned into a sorted tuple is a sorted list.
\<close>

section \<open>Actions\<close>

datatype action_name =
    ANSWER_DIRECT_QUESTION | ASK_NAME | ASK_ONE_CLARIFYING_QUESTION | CONFIRM_KNOWN_PROPERTY
  | ASK_URGENCY | OFFER_PHOTO_LINK_AFTER_CALL | OFFER_CALLBACK_OR_SCHEDULING
  | CONFIRM_CALLBACK_LAST_FOUR | ASK_CALLBACK_NUMBER | TAKE_MESSAGE | TRY_LIVE_OWNER_TRANSFER
  | WRAP_UP | DECLINE_OUT_OF_SCOPE | SAFETY_GUIDANCE

fun action_name_value :: "action_name \<Rightarrow> string" where
  "action_name_value ANSWER_DIRECT_QUESTION = ''answer_direct_question''"
| "action_name_value ASK_NAME = ''ask_name''"
| "action_name_value ASK_ONE_CLARIFYING_QUESTION = ''ask_one_clarifying_question''"
| "action_name_value CONFIRM_KNOWN_PROPERTY = ''confirm_known_property''"
| "action_name_value ASK_URGENCY = ''ask_urgency''"
| "action_name_value OFFER_PHOTO_LINK_AFTER_CALL = ''offer_photo_link_after_call''"
| "action_name_value OFFER_CALLBACK_OR_SCHEDULING = ''offer_callback_or_scheduling''"
| "action_name_value CONFIRM_CALLBACK_LAST_FOUR = ''confirm_callback_last_four''"
| "action_name_value ASK_CALLBACK_NUMBER = ''ask_callback_number''"
| "action_name_value TAKE_MESSAGE = ''take_message''"
| "action_name_value TRY_LIVE_OWNER_TRANSFER = ''try_live_owner_transfer''"
| "action_name_value WRAP_UP = ''wrap_up''"
| "action_name_value DECLINE_OUT_OF_SCOPE = ''decline_out_of_scope''"
| "action_name_value SAFETY_GUIDANCE = ''safety_guidance''"

definition QUESTION_ACTION_NAMES :: "action_name list" where
  "QUESTION_ACTION_NAMES = [ASK_NAME, ASK_ONE_CLARIFYING_QUESTION, CONFIRM_KNOWN_PROPERTY, ASK_URGENCY,
     OFFER_PHOTO_LINK_AFTER_CALL, OFFER_CALLBACK_OR_SCHEDULING, CONFIRM_CALLBACK_LAST_FOUR, ASK_CALLBACK_NUMBER]"

record next_action =
  na_name :: action_name
  na_reason :: string
  na_allowed :: "string list"
  na_forbidden :: "string list"
  na_memory :: "string list"
  na_shape :: string
  na_tools :: bool
  na_question :: bool

text \<open>\<open>NextAction.__post_init__\<close>, for fields of the right types.\<close>

definition make_action :: "next_action \<Rightarrow> next_action res" where
  "make_action a =
     (if set (na_allowed a) \<inter> set (na_forbidden a) \<noteq> {} then Inl ValueError
      else if na_question a \<and> na_allowed a = [] then Inl ValueError
      else if na_allowed a \<noteq> [] \<and> \<not> na_question a then Inl ValueError
      else if na_name a \<in> set QUESTION_ACTION_NAMES \<and> \<not> na_question a then Inl ValueError
      else Inr a)"

section \<open>The planner\<close>

definition forbidden_slots :: "intake \<Rightarrow> string set" where
  "forbidden_slots s =
     it_asked s \<union> known_askable_slots s \<union>
     (if it_action s \<noteq> UNKNOWN_ACTION then {''service_action''} else {}) \<union>
     (if it_object s \<noteq> [] then {''service_object''} else {}) \<union>
     (if it_urgency s \<noteq> UNKNOWN_URGENCY then {''urgency''} else {}) \<union>
     (if ci_name (it_identity s) \<noteq> [] \<and> 8 / 10 \<le> ci_confidence (it_identity s) then {''caller_name''} else {}) \<union>
     (if it_callback_intent s \<in> {NO_CALLBACK, DECLINED, OFFERED} then {''callback_number''} else {}) \<union>
     (if it_confirmation s = CONFIRMED then {''callback_confirmation'', ''callback_number''} else {}) \<union>
     (if it_callback_four s \<noteq> [] then {''callback_number''} else {}) \<union>
     (if it_address s \<in> {NO_ADDRESS, MAYBE_LATER, ALREADY_KNOWN, ADDRESS_CONFIRMED} then {''service_address''} else {})"

definition allowed_slots :: "string list \<Rightarrow> string set \<Rightarrow> string list" where
  "allowed_slots candidates forbidden = filter (\<lambda>slot. slot \<notin> forbidden) candidates"

definition safe_memory_facts :: "intake \<Rightarrow> string list" where
  "safe_memory_facts s =
     (if ci_name (it_identity s) \<noteq> [] \<and> 8 / 10 \<le> ci_confidence (it_identity s)
      then [''caller_identity:'' @ ci_name (it_identity s)] else [])"

text \<open>The arguments the calls of \<open>NextAction\<close> share; no action of the planner allows a tool call.\<close>

definition plan_action ::
    "action_name \<Rightarrow> string \<Rightarrow> string list \<Rightarrow> string set \<Rightarrow> string list \<Rightarrow> string \<Rightarrow> bool \<Rightarrow> next_action res" where
  "plan_action name reason allowed forbidden memory shape question = make_action
     \<lparr>na_name = name, na_reason = reason, na_allowed = allowed, na_forbidden = sorted_list_of_set forbidden,
      na_memory = memory, na_shape = shape, na_tools = False, na_question = question\<rparr>"

definition take_callback_message :: "string \<Rightarrow> string set \<Rightarrow> string list \<Rightarrow> next_action res" where
  "take_callback_message reason forbidden memory =
     plan_action TAKE_MESSAGE reason [] (forbidden \<union> {''callback_confirmation'', ''callback_number''}) memory
       ''briefly take a message without asking another callback question'' False"

text \<open>The callback number still has to be settled.\<close>

definition plan_callback :: "intake \<Rightarrow> string set \<Rightarrow> string list \<Rightarrow> next_action res" where
  "plan_callback s forbidden memory =
     (if it_callback_four s \<noteq> [] then
        (if ''callback_confirmation'' \<in> forbidden then
           take_callback_message ''replacement callback confirmation was requested once but remains unavailable''
             forbidden memory
         else plan_action CONFIRM_CALLBACK_LAST_FOUR
             (''replacement callback number ending '' @ it_callback_four s @ '' is available'')
             [''callback_confirmation''] (forbidden - {''callback_confirmation''}) memory
             ''confirm the replacement callback number last four in one short question'' True)
      else if it_confirmation s = REJECTED \<or> it_caller_four s = [] then
        (if ''callback_number'' \<in> forbidden then
           take_callback_message ''callback number was requested once but remains unavailable'' forbidden memory
         else plan_action ASK_CALLBACK_NUMBER
             (if it_confirmation s = REJECTED then ''caller rejected the caller ID callback number''
              else ''callback intent exists and caller ID is missing'')
             [''callback_number''] (forbidden - {''callback_number''}) memory
             ''ask for the best callback number in one short question'' True)
      else if ''callback_confirmation'' \<in> forbidden then
        take_callback_message ''caller ID callback confirmation was requested once but remains unavailable''
          forbidden memory
      else plan_action CONFIRM_CALLBACK_LAST_FOUR
        (''callback intent exists; caller ID ending '' @ it_caller_four s @ '' is available'')
        [''callback_confirmation''] forbidden memory ''confirm the caller ID last four in one short question'' True)"

text \<open>No emergency, no callback to settle and no address to ask for: the intake questions.\<close>

definition plan_intake :: "intake \<Rightarrow> string set \<Rightarrow> string list \<Rightarrow> next_action res" where
  "plan_intake s forbidden memory =
     (let detail = take 1 (allowed_slots [''job_complexity'', ''urgency''] forbidden) in
      if it_intent s = PRICING_QUESTION then
        plan_action ANSWER_DIRECT_QUESTION ''caller asked a direct pricing or scope question'' detail forbidden memory
          (if detail \<noteq> [] then ''answer briefly, then ask one useful next question''
           else ''answer briefly without another question'') (detail \<noteq> [])
      else if it_action s = UNKNOWN_ACTION \<and> ''service_action'' \<notin> forbidden then
        plan_action ASK_ONE_CLARIFYING_QUESTION ''service action is still unknown'' [''service_action''] forbidden
          memory ''ask only whether this is repair, replacement, installation, or inspection'' True
      else if it_object s = [] \<and> ''service_object'' \<notin> forbidden then
        plan_action ASK_ONE_CLARIFYING_QUESTION ''service object is still unknown'' [''service_object''] forbidden
          memory ''ask one question about the fixture, appliance, or system'' True
      else if detail \<noteq> [] then
        plan_action ASK_ONE_CLARIFYING_QUESTION ''continue intake with one relevant detail'' detail forbidden memory
          ''ask one useful next question'' True
      else if it_callback_intent s = NO_CALLBACK \<and> ''callback_preference'' \<notin> forbidden then
        plan_action OFFER_CALLBACK_OR_SCHEDULING
          ''supported intake details are complete; offer a follow-up option'' [''callback_preference''] forbidden
          memory ''offer callback or scheduling in one short question'' True
      else plan_action WRAP_UP ''supported intake and follow-up questions are complete'' [] forbidden memory
          ''close briefly without another question'' False)"

text \<open>No emergency and a request in scope.\<close>

definition plan_service :: "intake \<Rightarrow> string set \<Rightarrow> string list \<Rightarrow> next_action res" where
  "plan_service s forbidden memory =
     (if it_callback_intent s = ACCEPTED \<and> it_confirmation s = CONFIRMED \<and> it_action s \<noteq> UNKNOWN_ACTION \<and>
              it_object s \<noteq> [] then
        plan_action WRAP_UP ''callback number and service request are confirmed'' [] forbidden memory
          ''briefly confirm the callback and close without another question'' False
      else if it_callback_intent s \<in> {REQUESTED, ACCEPTED} \<and> it_confirmation s \<noteq> CONFIRMED then
        plan_callback s forbidden memory
      else if it_address s = REQUIRED_NOW then
        (let slots = allowed_slots [''service_address''] forbidden in
         if slots = [] then
           plan_action TAKE_MESSAGE ''service address was requested once but remains unavailable'' []
             (forbidden \<union> {''service_address''}) memory ''continue without asking for the service address again'' False
         else plan_action ASK_ONE_CLARIFYING_QUESTION
             ''address is required for the current scheduling or dispatch action'' slots
             (forbidden - {''service_address''}) memory ''ask one concise service-address question'' True)
      else plan_intake s forbidden memory)"

definition plan_next_action :: "intake \<Rightarrow> next_action res" where
  "plan_next_action s =
     (let forbidden = forbidden_slots s; memory = safe_memory_facts s in
      if it_urgency s = EMERGENCY \<or> it_intent s = EMERGENCY_INTENT then
        (let slots = allowed_slots [''safety_location''] forbidden in
         plan_action SAFETY_GUIDANCE ''emergency intent detected'' slots forbidden memory
           (if slots \<noteq> [] then ''give immediate safety guidance, then ask one relevant safety question''
            else ''give immediate safety guidance without another question'') (slots \<noteq> []))
      else if it_scope s = OUT_OF_SCOPE then
        plan_action DECLINE_OUT_OF_SCOPE ''caller request is outside the reviewed business scope'' [] forbidden memory
          ''briefly decline without claiming unsupported services or asking another question'' False
      else plan_service s forbidden memory)"

section \<open>The instructions\<close>

definition FORBIDDEN_SLOT_PHRASES :: "(string \<times> string) list" where
  "FORBIDDEN_SLOT_PHRASES =
     [(''caller_name'', ''the caller's name''),
      (''service_action'', ''whether this is repair, replacement, installation, or inspection''),
      (''service_object'', ''which fixture, appliance, or object this is''), (''callback_number'', ''callback number''),
      (''callback_confirmation'', ''callback number confirmation''),
      (''callback_preference'', ''callback or scheduling preference''), (''service_address'', ''service address'')]"

definition state_lines :: "intake \<Rightarrow> string list" where
  "state_lines s =
     [if ci_name (it_identity s) \<noteq> [] \<and> 8 / 10 \<le> ci_confidence (it_identity s)
      then ''- Caller is '' @ ci_name (it_identity s) @ ''.'' else ''- Caller identity is unknown.''] @
     (if it_callback_four s \<noteq> [] then [''- Callback number ending: '' @ it_callback_four s @ ''.'']
      else if it_caller_four s \<noteq> [] then [''- Caller ID ending: '' @ it_caller_four s @ ''.''] else []) @
     [if it_object s \<noteq> [] then ''- Service object: '' @ it_object s @ ''.'' else ''- Service object: unknown.'',
      if it_action s \<noteq> UNKNOWN_ACTION then ''- Service action: '' @ action_value (it_action s) @ ''.''
      else ''- Service action: unknown.'',
      ''- Intent: '' @ intent_value (it_intent s) @ ''.'',
      ''- Callback intent: '' @ callback_intent_value (it_callback_intent s) @ ''.'',
      ''- Callback confirmation: '' @ confirmation_value (it_confirmation s) @ ''.'',
      ''- Address need: '' @ address_value (it_address s) @ ''.'', ''- Language: '' @ it_language s @ ''.'']"

definition forbidden_lines :: "string list \<Rightarrow> string list" where
  "forbidden_lines slots = map (\<lambda>slot. case map_of FORBIDDEN_SLOT_PHRASES slot of
     Some phrase \<Rightarrow> phrase | None \<Rightarrow> map (\<lambda>c. if c = CHR ''_'' then CHR '' '' else c) slot) slots"

text \<open>\<open>memory_lines\<close>: the private memory lines that are left after sanitising.\<close>

definition compose_turn_instructions :: "intake \<Rightarrow> next_action \<Rightarrow> string list \<Rightarrow> string" where
  "compose_turn_instructions s a memory_lines = join [CHR 0x0A]
     ([''Current state:''] @ state_lines s @
      (if memory_lines \<noteq> [] then [[], ''Private memory:''] @ map (\<lambda>l. ''- '' @ l) memory_lines else []) @
      [[], ''Allowed next action:'', ''- '' @ action_name_value (na_name a) @ '': '' @ na_reason a @ ''.'',
       ''- Spoken shape: '' @ na_shape a @ ''.'',
       if na_allowed a \<noteq> [] then ''- Allowed slots: '' @ join '', '' (na_allowed a) @ ''.'' else ''- Allowed slots: none.''] @
      (if na_forbidden a \<noteq> []
       then [[], ''Do not ask:''] @ map (\<lambda>l. ''- '' @ l @ ''.'') (forbidden_lines (na_forbidden a)) else []) @
      [[], ''Speaking style:'', ''- Be brief, natural, and professional.'',
       if na_question a then ''- Ask one question using only the allowed slot.'' else ''- Do not ask another question.'',
       ''- Do not mention private memory sources.'', ''- Do not expose full phone numbers.'',
       ''- Keep tool side effects disabled unless the allowed action explicitly permits them.''])"

section \<open>The controller\<close>

definition credits_asked_slots :: "string \<Rightarrow> bool" where
  "credits_asked_slots kevin_text =
     (let lowered = concat (map casefold_char kevin_text) in
      \<not> (\<exists>marker \<in> set [''are you still there'', ''hang up for now'']. contains marker lowered))"

record controller =
  ct_state :: intake
  ct_action :: "next_action option"
  ct_credit :: bool

definition start_controller :: "string \<Rightarrow> string \<Rightarrow> string \<Rightarrow> string \<Rightarrow> pyfloat \<Rightarrow> controller res" where
  "start_controller call_sid phone name source confidence =
     ebind (new_intake call_sid phone name source confidence []) (\<lambda>s.
       Inr \<lparr>ct_state = s, ct_action = None, ct_credit = False\<rparr>)"

definition last_action_name :: "controller \<Rightarrow> string" where
  "last_action_name c = (case ct_action c of None \<Rightarrow> ''none'' | Some a \<Rightarrow> action_name_value (na_name a))"

definition compose :: "controller \<Rightarrow> (controller \<times> string) res" where
  "compose c = ebind (plan_next_action (ct_state c)) (\<lambda>a.
     Inr (c\<lparr>ct_action := Some a\<rparr>, compose_turn_instructions (ct_state c) a []))"

definition HOLD_SPEECH_PREFIX :: string where
  "HOLD_SPEECH_PREFIX = ''Do not speak yet. Wait until the caller finishes talking. '' @
     ''Then follow the allowed next action. Do not greet again.''"

definition opening_instructions :: "controller \<Rightarrow> (controller \<times> string) res" where
  "opening_instructions c = ebind (compose c) (\<lambda>(c', text).
     Inr (c', HOLD_SPEECH_PREFIX @ [CHR 0x0A, CHR 0x0A] @ text))"

definition after_caller_turn :: "caller_observation option \<Rightarrow> controller \<Rightarrow> (controller \<times> string) res" where
  "after_caller_turn observation c =
     (let c = c\<lparr>ct_credit := True\<rparr> in
      ebind (on_some apply_caller_observation observation (ct_state c)) (\<lambda>s. compose (c\<lparr>ct_state := s\<rparr>)))"

definition after_kevin_turn :: "string \<Rightarrow> controller \<Rightarrow> controller res" where
  "after_kevin_turn kevin_text c =
     (if \<not> ct_credit c then Inr c
      else case ct_action c of None \<Rightarrow> Inr c
      | Some a \<Rightarrow> if \<not> credits_asked_slots kevin_text then Inr c
                  else ebind (apply_all (map mark_slot_asked (na_allowed a)) (ct_state c)) (\<lambda>s. Inr (c\<lparr>ct_state := s\<rparr>)))"

section \<open>What every plan satisfies\<close>

definition settled_slots :: "intake \<Rightarrow> string set" where
  "settled_slots s = it_asked s \<union> known_askable_slots s"

definition proper_action :: "intake \<Rightarrow> next_action \<Rightarrow> bool" where
  "proper_action s a =
     (set (na_allowed a) \<subseteq> set ASKABLE_SLOTS - settled_slots s \<and> length (na_allowed a) \<le> 1 \<and>
      set (na_allowed a) \<inter> set (na_forbidden a) = {} \<and> (na_question a \<longleftrightarrow> na_allowed a \<noteq> []) \<and>
      (na_name a \<in> set QUESTION_ACTION_NAMES \<longrightarrow> na_question a) \<and> \<not> na_tools a \<and>
      (finite (it_asked s) \<longrightarrow> settled_slots s \<subseteq> set (na_forbidden a)))"

definition planned :: "intake \<Rightarrow> action_name list \<Rightarrow> next_action res \<Rightarrow> bool" where
  "planned s names m = (\<exists>a. m = Inr a \<and> na_name a \<in> set names \<and> proper_action s a)"

lemma forbidden_finite: "finite (it_asked s) \<Longrightarrow> finite (forbidden_slots s)"
  by (simp add: forbidden_slots_def known_askable_slots_def)

lemma settled_forbidden: "settled_slots s \<subseteq> forbidden_slots s"
  unfolding settled_slots_def forbidden_slots_def by blast

lemma planned_action:
  assumes "name \<in> set names" and "set allowed \<subseteq> set ASKABLE_SLOTS - settled_slots s" and "length allowed \<le> 1"
    and "set allowed \<inter> F = {}" and "question \<longleftrightarrow> allowed \<noteq> []" and "name \<in> set QUESTION_ACTION_NAMES \<Longrightarrow> question"
    and "settled_slots s \<subseteq> F" and "finite (it_asked s) \<Longrightarrow> finite F"
  shows "planned s names (plan_action name reason allowed F memory shape question)"
proof -
  have "set (sorted_list_of_set F) \<subseteq> F" by (cases "finite F") simp_all
  with assms show ?thesis
    by (auto simp: planned_def proper_action_def plan_action_def make_action_def)
qed

lemma planned_if:
  "(b \<Longrightarrow> planned s names m) \<Longrightarrow> (\<not> b \<Longrightarrow> planned s names n) \<Longrightarrow> planned s names (if b then m else n)"
  by simp

text \<open>The three shapes: one question, none, and at most one detail if there is one left.\<close>

lemma planned_ask:
  "settled_slots s \<subseteq> F \<Longrightarrow> (finite (it_asked s) \<Longrightarrow> finite F) \<Longrightarrow> name \<in> set names \<Longrightarrow>
   slot \<in> set ASKABLE_SLOTS \<Longrightarrow> slot \<notin> F \<Longrightarrow> planned s names (plan_action name reason [slot] F memory shape True)"
  by (rule planned_action) auto

lemma planned_tell:
  "settled_slots s \<subseteq> F \<Longrightarrow> (finite (it_asked s) \<Longrightarrow> finite F) \<Longrightarrow> name \<in> set names \<Longrightarrow>
   name \<notin> set QUESTION_ACTION_NAMES \<Longrightarrow> planned s names (plan_action name reason [] F memory shape False)"
  by (rule planned_action) auto

lemma planned_detail:
  "settled_slots s \<subseteq> F \<Longrightarrow> (finite (it_asked s) \<Longrightarrow> finite F) \<Longrightarrow> name \<in> set names \<Longrightarrow>
   set slots \<subseteq> set ASKABLE_SLOTS - F \<Longrightarrow> length slots \<le> 1 \<Longrightarrow> (question \<longleftrightarrow> slots \<noteq> []) \<Longrightarrow>
   (name \<in> set QUESTION_ACTION_NAMES \<Longrightarrow> question) \<Longrightarrow>
   planned s names (plan_action name reason slots F memory shape question)"
  by (rule planned_action) auto

lemma askable [simp]:
  "''service_action'' \<in> set ASKABLE_SLOTS" "''service_object'' \<in> set ASKABLE_SLOTS"
  "''callback_number'' \<in> set ASKABLE_SLOTS" "''callback_confirmation'' \<in> set ASKABLE_SLOTS"
  "''callback_preference'' \<in> set ASKABLE_SLOTS" "''service_address'' \<in> set ASKABLE_SLOTS"
  "''job_complexity'' \<in> set ASKABLE_SLOTS" "''urgency'' \<in> set ASKABLE_SLOTS" "''safety_location'' \<in> set ASKABLE_SLOTS"
  by (simp_all add: ASKABLE_SLOTS_def)

lemma question_names [simp]:
  "SAFETY_GUIDANCE \<notin> set QUESTION_ACTION_NAMES" "DECLINE_OUT_OF_SCOPE \<notin> set QUESTION_ACTION_NAMES"
  "WRAP_UP \<notin> set QUESTION_ACTION_NAMES" "TAKE_MESSAGE \<notin> set QUESTION_ACTION_NAMES"
  "ANSWER_DIRECT_QUESTION \<notin> set QUESTION_ACTION_NAMES"
  by (simp_all add: QUESTION_ACTION_NAMES_def)

lemma allowed_slots_set: "set (allowed_slots cs F) = set cs - F"
  by (auto simp: allowed_slots_def)

lemma take_callback_message_planned:
  "settled_slots s \<subseteq> F \<Longrightarrow> (finite (it_asked s) \<Longrightarrow> finite F) \<Longrightarrow> TAKE_MESSAGE \<in> set names \<Longrightarrow>
   planned s names (take_callback_message reason F memory)"
  unfolding take_callback_message_def by (rule planned_tell) auto

lemma plan_callback_planned:
  assumes "settled_slots s \<subseteq> F" and "finite (it_asked s) \<Longrightarrow> finite F"
  shows "planned s [TAKE_MESSAGE, CONFIRM_CALLBACK_LAST_FOUR, ASK_CALLBACK_NUMBER] (plan_callback s F memory)"
  unfolding plan_callback_def
  using assms by (intro planned_if take_callback_message_planned planned_ask) auto

lemma plan_intake_planned:
  assumes "settled_slots s \<subseteq> F" and "finite (it_asked s) \<Longrightarrow> finite F"
  shows "planned s [ANSWER_DIRECT_QUESTION, ASK_ONE_CLARIFYING_QUESTION, OFFER_CALLBACK_OR_SCHEDULING, WRAP_UP]
     (plan_intake s F memory)"
proof -
  define detail where "detail = take 1 (allowed_slots [''job_complexity'', ''urgency''] F)"
  have "set detail \<subseteq> {''job_complexity'', ''urgency''} - F"
    using set_take_subset [of 1 "allowed_slots [''job_complexity'', ''urgency''] F"]
    by (simp add: detail_def allowed_slots_set)
  then have d: "set detail \<subseteq> set ASKABLE_SLOTS - F" by auto
  have l: "length detail \<le> 1" by (simp add: detail_def)
  show ?thesis
    unfolding plan_intake_def Let_def detail_def [symmetric]
    by (intro planned_if planned_ask planned_tell planned_detail)
       (use assms d l in simp_all)
qed

definition emergency :: "intake \<Rightarrow> bool" where
  "emergency s = (it_urgency s = EMERGENCY \<or> it_intent s = EMERGENCY_INTENT)"

lemma allowed_slots_length: "length (allowed_slots [x] F) \<le> Suc 0"
  by (simp add: allowed_slots_def)

lemma plan_emergency:
  assumes "emergency s"
  shows "planned s [SAFETY_GUIDANCE] (plan_next_action s)"
proof -
  have slots: "set (allowed_slots [''safety_location''] (forbidden_slots s)) \<subseteq> set ASKABLE_SLOTS - forbidden_slots s"
    by (auto simp: allowed_slots_set)
  show ?thesis
    using assms unfolding plan_next_action_def Let_def emergency_def
    by (simp only: if_True)
       (rule planned_detail [OF settled_forbidden forbidden_finite _ slots], simp_all add: allowed_slots_length)
qed

lemma plan_declined:
  "\<not> emergency s \<Longrightarrow> it_scope s = OUT_OF_SCOPE \<Longrightarrow> planned s [DECLINE_OUT_OF_SCOPE] (plan_next_action s)"
  using planned_tell [OF settled_forbidden forbidden_finite, of s DECLINE_OUT_OF_SCOPE "[DECLINE_OUT_OF_SCOPE]"]
  by (simp add: plan_next_action_def Let_def emergency_def)

lemma planned_weaken: "planned s xs m \<Longrightarrow> set xs \<subseteq> set ys \<Longrightarrow> planned s ys m"
  by (auto simp: planned_def)

definition SERVICE_ACTIONS :: "action_name list" where
  "SERVICE_ACTIONS = [ANSWER_DIRECT_QUESTION, ASK_ONE_CLARIFYING_QUESTION, OFFER_CALLBACK_OR_SCHEDULING, WRAP_UP,
     TAKE_MESSAGE, CONFIRM_CALLBACK_LAST_FOUR, ASK_CALLBACK_NUMBER]"

lemma plan_service_planned:
  assumes F: "settled_slots s \<subseteq> F" "finite (it_asked s) \<Longrightarrow> finite F"
  shows "planned s SERVICE_ACTIONS (plan_service s F memory)"
proof -
  have callback: "planned s SERVICE_ACTIONS (plan_callback s F memory)"
    using plan_callback_planned [OF F] by (rule planned_weaken) (auto simp: SERVICE_ACTIONS_def)
  have intake: "planned s SERVICE_ACTIONS (plan_intake s F memory)"
    using plan_intake_planned [OF F] by (rule planned_weaken) (auto simp: SERVICE_ACTIONS_def)
  have slots: "set (allowed_slots [''service_address''] F) \<subseteq> set ASKABLE_SLOTS - F"
    by (auto simp: allowed_slots_set)
  have unasked: "allowed_slots [''service_address''] F \<noteq> [] \<Longrightarrow> F - {''service_address''} = F"
    by (auto simp: allowed_slots_def split: if_splits)
  show ?thesis
    unfolding plan_service_def Let_def
    by (intro planned_if callback intake planned_tell planned_detail)
       (use F slots unasked allowed_slots_length [of "''service_address''" F] in \<open>auto simp: SERVICE_ACTIONS_def\<close>)
qed

lemma plan_in_scope:
  "\<not> emergency s \<Longrightarrow> it_scope s \<noteq> OUT_OF_SCOPE \<Longrightarrow> planned s SERVICE_ACTIONS (plan_next_action s)"
  using plan_service_planned [OF settled_forbidden forbidden_finite, of s]
  by (simp add: plan_next_action_def Let_def emergency_def)

lemma plan_always: "\<exists>a. plan_next_action s = Inr a \<and> proper_action s a"
  using plan_emergency [of s] plan_declined [of s] plan_in_scope [of s] by (auto simp: planned_def)

lemma plan_proper: "plan_next_action s = Inr a \<Longrightarrow> proper_action s a"
  using plan_always [of s] by auto

lemma plan_name:
  assumes "plan_next_action s = Inr a"
  shows "na_name a = SAFETY_GUIDANCE \<longleftrightarrow> emergency s"
    and "na_name a = DECLINE_OUT_OF_SCOPE \<longleftrightarrow> \<not> emergency s \<and> it_scope s = OUT_OF_SCOPE"
proof -
  have "(emergency s \<and> na_name a = SAFETY_GUIDANCE) \<or>
      (\<not> emergency s \<and> it_scope s = OUT_OF_SCOPE \<and> na_name a = DECLINE_OUT_OF_SCOPE) \<or>
      (\<not> emergency s \<and> it_scope s \<noteq> OUT_OF_SCOPE \<and> na_name a \<in> set SERVICE_ACTIONS)"
    using plan_emergency [of s] plan_declined [of s] plan_in_scope [of s] assms by (auto simp: planned_def)
  then show "na_name a = SAFETY_GUIDANCE \<longleftrightarrow> emergency s"
    "na_name a = DECLINE_OUT_OF_SCOPE \<longleftrightarrow> \<not> emergency s \<and> it_scope s = OUT_OF_SCOPE"
    by (auto simp: SERVICE_ACTIONS_def)
qed

section \<open>The controller never asks twice\<close>

lemma askable_slot_text: "x \<in> set ASKABLE_SLOTS \<Longrightarrow> safe 80 x \<and> x \<noteq> []"
proof -
  assume x: "x \<in> set ASKABLE_SLOTS"
  have "list_all (\<lambda>y. slot_text y \<and> length y \<le> 80 \<and> y \<noteq> []) ASKABLE_SLOTS"
    by (simp add: ASKABLE_SLOTS_def slot_text_def)
  with x show "safe 80 x \<and> x \<noteq> []" by (auto simp: list_all_iff intro: safe_slot_text)
qed

lemma mark_askable: "x \<in> set ASKABLE_SLOTS \<Longrightarrow> mark_slot_asked x s = Inr (s\<lparr>it_asked := insert x (it_asked s)\<rparr>)"
  using askable_slot_text [of x] by (simp add: mark_slot_asked_def)

lemma mark_allowed:
  "set xs \<subseteq> set ASKABLE_SLOTS \<Longrightarrow>
   apply_all (map mark_slot_asked xs) s = Inr (s\<lparr>it_asked := set xs \<union> it_asked s\<rparr>)"
  by (induction xs arbitrary: s) (simp_all add: mark_askable)

text \<open>The controller's action was planned by it, so it satisfies the planner's contract.\<close>

definition planned_controller :: "controller \<Rightarrow> bool" where
  "planned_controller c = (\<forall>a. ct_action c = Some a \<longrightarrow> set (na_allowed a) \<subseteq> set ASKABLE_SLOTS)"

datatype turn = Opening | Caller "caller_observation option" | Kevin string

fun take_turn :: "turn \<Rightarrow> controller \<Rightarrow> controller res" where
  "take_turn Opening c = ebind (opening_instructions c) (\<lambda>r. Inr (fst r))"
| "take_turn (Caller ob) c = ebind (after_caller_turn ob c) (\<lambda>r. Inr (fst r))"
| "take_turn (Kevin text) c = after_kevin_turn text c"

lemma compose_eq: "\<exists>a. plan_next_action (ct_state c) = Inr a \<and>
    compose c = Inr (c\<lparr>ct_action := Some a\<rparr>, compose_turn_instructions (ct_state c) a [])"
  using plan_always [of "ct_state c"] by (auto simp: compose_def)

lemma take_turn_cases:
  assumes "take_turn t c = Inr c'"
  obtains (planned) s a where "plan_next_action s = Inr a" "ct_state c' = s" "ct_action c' = Some a"
      "s = ct_state c \<or> (\<exists>ob. t = Caller (Some ob) \<and> apply_caller_observation ob (ct_state c) = Inr s)"
  | (asked) said a where "t = Kevin said" "ct_action c = Some a" "ct_credit c" "credits_asked_slots said"
      "apply_all (map mark_slot_asked (na_allowed a)) (ct_state c) = Inr (ct_state c')" "ct_action c' = ct_action c"
  | (same) "c' = c"
proof (cases t)
  case Opening
  obtain a where "plan_next_action (ct_state c) = Inr a" "c' = c\<lparr>ct_action := Some a\<rparr>"
    using assms Opening compose_eq [of c] by (auto simp: opening_instructions_def)
  then show thesis by (intro planned [of "ct_state c" a] disjI1) simp_all
next
  case (Caller ob)
  with assms obtain s where s: "on_some apply_caller_observation ob (ct_state c) = Inr s"
    and c': "ebind (compose (c\<lparr>ct_credit := True, ct_state := s\<rparr>)) (\<lambda>r. Inr (fst r)) = Inr c'"
    by (auto simp: after_caller_turn_def Let_def ebind_eq_Inr)
  from s Caller have st: "s = ct_state c \<or> (\<exists>ob. t = Caller (Some ob) \<and> apply_caller_observation ob (ct_state c) = Inr s)"
    by (auto simp: on_some_def split: option.splits)
  obtain a where "plan_next_action s = Inr a" "c' = c\<lparr>ct_credit := True, ct_state := s, ct_action := Some a\<rparr>"
    using c' compose_eq [of "c\<lparr>ct_credit := True, ct_state := s\<rparr>"] by auto
  with st show thesis by (intro planned) simp_all
next
  case (Kevin said)
  with assms have k: "after_kevin_turn said c = Inr c'" by simp
  show thesis
  proof (cases "ct_credit c \<and> credits_asked_slots said \<and> ct_action c \<noteq> None")
    case True
    then obtain a where "ct_action c = Some a" by auto
    with True k Kevin asked show thesis by (auto simp: after_kevin_turn_def ebind_eq_Inr)
  next
    case False
    with k have "c' = c" by (auto simp: after_kevin_turn_def split: if_splits option.splits)
    then show thesis by (rule same)
  qed
qed

lemma planned_turn: "take_turn t c = Inr c' \<Longrightarrow> planned_controller c \<Longrightarrow> planned_controller c'"
  by (erule take_turn_cases) (auto simp: planned_controller_def proper_action_def dest!: plan_proper)

text \<open>An observation takes back no asked slot but, with callback digits in it, their confirmation.\<close>

lemma replace_known_slot_asked: "replace_known_slot k v s = Inr s' \<Longrightarrow> it_asked s' = it_asked s"
  by (auto simp: replace_known_slot_def ebind_eq_Inr Let_def split: if_splits)

definition keeps_asked :: "string set \<Rightarrow> (intake \<Rightarrow> intake res) \<Rightarrow> bool" where
  "keeps_asked D f = (\<forall>s s'. f s = Inr s' \<longrightarrow> it_asked s - D \<subseteq> it_asked s')"

lemma keeps_asked_apply_all: "list_all (keeps_asked D) fs \<Longrightarrow> keeps_asked D (apply_all fs)"
  by (induction fs) (fastforce simp: keeps_asked_def ebind_eq_Inr)+

lemma keeps_asked_on_some: "(\<And>v. x = Some v \<Longrightarrow> keeps_asked D (f v)) \<Longrightarrow> keeps_asked D (on_some f x)"
  by (cases x) (auto simp: on_some_def keeps_asked_def)

lemma observe_asked:
  "observe_language v1 s = Inr s' \<Longrightarrow> it_asked s' = it_asked s"
  "observe_scope_reason v2 s = Inr s' \<Longrightarrow> it_asked s' = it_asked s"
  "observe_object v3 s = Inr s' \<Longrightarrow> it_asked s' = it_asked s"
  "observe_action a s = Inr s' \<Longrightarrow> it_asked s' = it_asked s"
  "observe_urgency u s = Inr s' \<Longrightarrow> it_asked s' = it_asked s"
  "observe_callback_intent i s = Inr s' \<Longrightarrow> it_asked s' = it_asked s"
  "observe_confirmation c s = Inr s' \<Longrightarrow> it_asked s' = it_asked s"
  unfolding observe_language_def observe_scope_reason_def observe_object_def observe_action_def observe_urgency_def
    observe_callback_intent_def observe_confirmation_def ebind_eq_Inr Let_def
  by (elim exE conjE, simp?, drule replace_known_slot_asked, simp | drule replace_known_slot_asked, simp | auto)+

lemma keeps_asked_eq: "(\<And>s s'. f s = Inr s' \<Longrightarrow> it_asked s' = it_asked s) \<Longrightarrow> keeps_asked D f"
  unfolding keeps_asked_def by blast

lemmas keeps_asked_observe = observe_asked [THEN keeps_asked_eq]

lemma keeps_asked_callback_four:
  assumes "''callback_confirmation'' \<in> D"
  shows "keeps_asked D (observe_callback_four x)"
proof -
  have "it_asked s' = it_asked s - {''callback_confirmation''}" if "observe_callback_four x s = Inr s'" for s s'
    using that unfolding observe_callback_four_def ebind_eq_Inr by (elim exE conjE) (drule replace_known_slot_asked, simp)
  with assms show ?thesis unfolding keeps_asked_def by blast
qed

lemma keeps_asked_plain:
  "keeps_asked D (\<lambda>s. Inr (s\<lparr>it_phase := p\<rparr>))" "keeps_asked D (\<lambda>s. Inr (s\<lparr>it_identity := g s\<rparr>))"
  "keeps_asked D (\<lambda>s. Inr (s\<lparr>it_scope := b\<rparr>))" "keeps_asked D (\<lambda>s. Inr (s\<lparr>it_intent := t\<rparr>))"
  "keeps_asked D (\<lambda>s. Inr (s\<lparr>it_address := d\<rparr>))"
  by (auto simp: keeps_asked_def)

text \<open>The slots that a turn reopens: an observation with callback digits reopens their confirmation.\<close>

definition reopened :: "caller_observation \<Rightarrow> string set" where
  "reopened ob = (if ob_callback_four ob = None then {} else {''callback_confirmation''})"

lemma apply_observation_asked: "keeps_asked (reopened ob) (apply_caller_observation ob)"
proof -
  have "keeps_asked (reopened ob) (apply_all
     [\<lambda>s. Inr (s\<lparr>it_phase := UNDERSTAND_REQUEST\<rparr>),
      on_some (\<lambda>b s. Inr (s\<lparr>it_identity := (it_identity s)\<lparr>ci_confirmed := b\<rparr>\<rparr>)) (ob_identity ob),
      on_some observe_language (ob_language ob), on_some (\<lambda>x s. Inr (s\<lparr>it_scope := x\<rparr>)) (ob_scope ob),
      on_some observe_scope_reason (ob_scope_reason ob), on_some (\<lambda>x s. Inr (s\<lparr>it_intent := x\<rparr>)) (ob_intent ob),
      on_some (\<lambda>x s. Inr (s\<lparr>it_address := x\<rparr>)) (ob_address ob), on_some observe_object (ob_object ob),
      on_some observe_action (ob_action ob), on_some observe_urgency (ob_urgency ob),
      on_some observe_callback_intent (ob_callback_intent ob), on_some observe_callback_four (ob_callback_four ob),
      on_some observe_confirmation (ob_confirmation ob)])"
    by (rule keeps_asked_apply_all)
       (simp add: keeps_asked_on_some keeps_asked_observe keeps_asked_plain keeps_asked_callback_four reopened_def)
  then show ?thesis unfolding keeps_asked_def apply_caller_observation_def .
qed

fun turn_reopens :: "turn \<Rightarrow> string set" where
  "turn_reopens (Caller (Some ob)) = reopened ob"
| "turn_reopens t = {}"

lemma turn_keeps_asked:
  assumes "take_turn t c = Inr c'" and "planned_controller c" and "slot \<notin> turn_reopens t"
    and "slot \<in> it_asked (ct_state c)"
  shows "slot \<in> it_asked (ct_state c')"
  using assms(1)
proof (cases rule: take_turn_cases)
  case (planned s a)
  from planned(2,4) show ?thesis
  proof (elim disjE exE conjE)
    fix ob assume "ct_state c' = s" "t = Caller (Some ob)" "apply_caller_observation ob (ct_state c) = Inr s"
    with apply_observation_asked [of ob] assms(3) have "it_asked (ct_state c) - reopened ob \<subseteq> it_asked (ct_state c')" "slot \<notin> reopened ob"
      by (simp_all add: keeps_asked_def)
    with assms(4) show ?thesis by blast
  qed (use assms(4) in simp)
next
  case (asked said a)
  with assms(2,4) mark_allowed [of "na_allowed a" "ct_state c"] show ?thesis
    by (auto simp: planned_controller_def dest: arg_cong [of _ _ "\<lambda>r. case r of Inl e \<Rightarrow> {} | Inr s \<Rightarrow> it_asked s"])
qed (use assms in simp)

lemma turns_keep_asked:
  assumes "apply_all (map take_turn ts) c = Inr c'" and "planned_controller c"
    and "\<forall>t \<in> set ts. slot \<notin> turn_reopens t" and "slot \<in> it_asked (ct_state c)"
  shows "slot \<in> it_asked (ct_state c')"
  using assms
proof (induction ts arbitrary: c)
  case (Cons t ts)
  then obtain d where d: "take_turn t c = Inr d" "apply_all (map take_turn ts) d = Inr c'"
    by (auto simp: ebind_eq_Inr)
  from Cons.IH [OF d(2) planned_turn [OF d(1)] _ turn_keeps_asked [OF d(1)]] Cons.prems show ?case by simp
qed simp

lemma planned_turns:
  "apply_all (map take_turn ts) c = Inr c' \<Longrightarrow> planned_controller c \<Longrightarrow> planned_controller c'"
  by (induction ts arbitrary: c) (auto simp: ebind_eq_Inr dest: planned_turn)

section \<open>Questions run out\<close>

text \<open>A turn the extractor makes nothing of, followed by Kevin asking what the plan allows.\<close>

definition silent_round :: "string \<Rightarrow> controller \<Rightarrow> controller res" where
  "silent_round said c = ebind (after_caller_turn None c) (\<lambda>r. after_kevin_turn said (fst r))"

fun silent_rounds :: "nat \<Rightarrow> string \<Rightarrow> controller \<Rightarrow> controller res" where
  "silent_rounds 0 said c = Inr c"
| "silent_rounds (Suc n) said c = ebind (silent_round said c) (silent_rounds n said)"

definition unasked :: "intake \<Rightarrow> string set" where
  "unasked s = set ASKABLE_SLOTS - it_asked s"

lemma silent_round_step:
  assumes "credits_asked_slots said"
  obtains c' a where "plan_next_action (ct_state c) = Inr a" "proper_action (ct_state c) a"
    "silent_round said c = Inr c'" "ct_state c' = (ct_state c)\<lparr>it_asked := set (na_allowed a) \<union> it_asked (ct_state c)\<rparr>"
proof -
  obtain a where a: "plan_next_action (ct_state c) = Inr a" "proper_action (ct_state c) a"
    using plan_always [of "ct_state c"] by auto
  then have "set (na_allowed a) \<subseteq> set ASKABLE_SLOTS" by (auto simp: proper_action_def)
  from mark_allowed [OF this] a assms show thesis
    by (intro that [OF a]) (auto simp: silent_round_def after_caller_turn_def on_some_def compose_def after_kevin_turn_def)
qed

lemma unasked_shrinks:
  assumes "proper_action s a" and "na_question a"
  shows "card (unasked (s\<lparr>it_asked := set (na_allowed a) \<union> it_asked s\<rparr>)) < card (unasked s)"
proof (rule psubset_card_mono)
  show "finite (unasked s)" by (simp add: unasked_def)
  from assms obtain x where "x \<in> set (na_allowed a)" "x \<in> set ASKABLE_SLOTS" "x \<notin> it_asked s"
    by (cases "na_allowed a") (auto simp: proper_action_def settled_slots_def)
  then show "unasked (s\<lparr>it_asked := set (na_allowed a) \<union> it_asked s\<rparr>) \<subset> unasked s"
    by (auto simp: unasked_def)
qed

lemma settled_stays:
  assumes "credits_asked_slots said" and "plan_next_action (ct_state c) = Inr a" and "\<not> na_question a"
  shows "\<exists>c'. silent_rounds n said c = Inr c' \<and> ct_state c' = ct_state c"
  using assms(2)
proof (induction n arbitrary: c)
  case (Suc n)
  obtain c' b where r: "plan_next_action (ct_state c) = Inr b" "proper_action (ct_state c) b"
    "silent_round said c = Inr c'" "ct_state c' = (ct_state c)\<lparr>it_asked := set (na_allowed b) \<union> it_asked (ct_state c)\<rparr>"
    using assms(1) by (rule silent_round_step)
  with Suc.prems assms(3) have "ct_state c' = ct_state c" by (simp add: proper_action_def)
  with Suc.IH [of c'] Suc.prems r(3) show ?case by simp
qed simp

lemma silent_rounds_settle:
  assumes "credits_asked_slots said" and "card (unasked (ct_state c)) \<le> n"
  shows "\<exists>c' a. silent_rounds n said c = Inr c' \<and> plan_next_action (ct_state c') = Inr a \<and> \<not> na_question a"
  using assms(2)
proof (induction n arbitrary: c)
  case 0
  then have none: "set ASKABLE_SLOTS \<subseteq> it_asked (ct_state c)" by (simp add: unasked_def)
  obtain a where a: "plan_next_action (ct_state c) = Inr a" "proper_action (ct_state c) a"
    using plan_always by blast
  from a(2) have "set (na_allowed a) \<subseteq> set ASKABLE_SLOTS - it_asked (ct_state c)" "na_question a \<longleftrightarrow> na_allowed a \<noteq> []"
    by (auto simp: proper_action_def settled_slots_def)
  moreover from this(1) none have "set (na_allowed a) = {}" by (metis Diff_eq_empty_iff subset_empty)
  ultimately have "\<not> na_question a" by simp
  with a show ?case by simp
next
  case (Suc n)
  obtain c' a where r: "plan_next_action (ct_state c) = Inr a" "proper_action (ct_state c) a"
    "silent_round said c = Inr c'" "ct_state c' = (ct_state c)\<lparr>it_asked := set (na_allowed a) \<union> it_asked (ct_state c)\<rparr>"
    using assms(1) by (rule silent_round_step)
  show ?case
  proof (cases "na_question a")
    case True
    with unasked_shrinks [OF r(2)] r(3,4) Suc show ?thesis by simp
  next
    case False
    from settled_stays [OF assms(1) r(1) False, of "Suc n"] r(1) False show ?thesis by fastforce
  qed
qed

lemma ten_askable: "card (unasked s) \<le> 10"
proof -
  have "card (unasked s) \<le> card (set ASKABLE_SLOTS)" by (rule card_mono) (auto simp: unasked_def)
  also have "\<dots> \<le> 10" using card_length [of ASKABLE_SLOTS] by (simp add: ASKABLE_SLOTS_def)
  finally show ?thesis .
qed

section \<open>Properties\<close>

text \<open>C17: The planner never raises, from any state. Its action allows at most one slot, always one of the
  askable ones that the caller has neither been asked nor answered, and lists every asked and answered slot
  as forbidden; it asks a question exactly when it allows a slot, always so for a question action; and it
  never permits a tool call.\<close>

theorem planner_contract:
  assumes "finite (it_asked s)"
  shows "\<exists>a. plan_next_action s = Inr a \<and> length (na_allowed a) \<le> 1 \<and>
     set (na_allowed a) \<subseteq> set ASKABLE_SLOTS - (it_asked s \<union> known_askable_slots s) \<and>
     it_asked s \<union> known_askable_slots s \<subseteq> set (na_forbidden a) \<and>
     set (na_allowed a) \<inter> set (na_forbidden a) = {} \<and> (na_question a \<longleftrightarrow> na_allowed a \<noteq> []) \<and>
     (na_name a \<in> set QUESTION_ACTION_NAMES \<longrightarrow> na_question a) \<and> \<not> na_tools a"
  using plan_always [of s] assms by (auto simp: proper_action_def settled_slots_def)

theorem planner_contract_witness:
  "\<exists>a. plan_next_action ex_intake = Inr a \<and> length (na_allowed a) \<le> 1"
  using planner_contract [of ex_intake] by (auto simp: ex_intake_def)

text \<open>Safety outranks every other consideration and scope comes next: the plan is the safety guidance
  exactly when the urgency or the intent is an emergency, and the polite decline exactly when the request is
  out of scope and no emergency.\<close>

theorem emergency_first:
  assumes "plan_next_action s = Inr a"
  shows "(na_name a = SAFETY_GUIDANCE \<longleftrightarrow> it_urgency s = EMERGENCY \<or> it_intent s = EMERGENCY_INTENT) \<and>
     (na_name a = DECLINE_OUT_OF_SCOPE \<longleftrightarrow>
        it_scope s = OUT_OF_SCOPE \<and> \<not> (it_urgency s = EMERGENCY \<or> it_intent s = EMERGENCY_INTENT))"
  using plan_name [OF assms] by (auto simp: emergency_def)

theorem emergency_first_witness:
  "\<exists>a. plan_next_action (ex_intake\<lparr>it_urgency := EMERGENCY, it_scope := OUT_OF_SCOPE\<rparr>) = Inr a \<and>
     na_name a = SAFETY_GUIDANCE"
proof -
  let ?s = "ex_intake\<lparr>it_urgency := EMERGENCY, it_scope := OUT_OF_SCOPE\<rparr>"
  obtain a where "plan_next_action ?s = Inr a" using plan_always [of ?s] by blast
  with emergency_first [OF this] show ?thesis by simp
qed

text \<open>C28: A slot Kevin has asked for is never asked again in the same call, whatever the caller says and
  however the turns are interleaved: once some prefix of the call's turns has credited it as asked, the plan
  after any further turns does not allow it. The one exception is the confirmation of a callback number, and
  only where a later observation of the caller brings callback digits, which reopen it.\<close>

theorem never_asked_twice:
  assumes "start_controller sid phone name source conf = Inr c0"
    and "apply_all (map take_turn ts) c0 = Inr c" and "slot \<in> it_asked (ct_state c)"
    and "apply_all (map take_turn us) c = Inr c'"
    and "slot = ''callback_confirmation'' \<Longrightarrow> \<forall>ob. Caller (Some ob) \<in> set us \<longrightarrow> ob_callback_four ob = None"
  shows "\<exists>a. plan_next_action (ct_state c') = Inr a \<and> slot \<notin> set (na_allowed a)"
proof -
  have "planned_controller c0" using assms(1) by (auto simp: start_controller_def planned_controller_def ebind_eq_Inr)
  then have "planned_controller c" using assms(2) by (rule planned_turns [rotated])
  moreover have "slot \<notin> turn_reopens t" if "t \<in> set us" for t
    using assms(5) that by (cases t rule: turn_reopens.cases) (auto simp: reopened_def)
  ultimately have "slot \<in> it_asked (ct_state c')" using turns_keep_asked [OF assms(4)] assms(3) by blast
  with plan_always [of "ct_state c'"] show ?thesis by (auto simp: proper_action_def settled_slots_def)
qed

definition ex_controller :: controller where
  "ex_controller = \<lparr>ct_state = ex_intake, ct_action = None, ct_credit = False\<rparr>"

lemma ex_start: "start_controller ''CA1'' ''+1 (555) 123-4567'' ''Ann'' ''crm'' (Fin (9 / 10)) = Inr ex_controller"
  by (simp add: start_controller_def ex_new ex_controller_def)

lemma ex_fields:
  "it_urgency ex_intake = UNKNOWN_URGENCY" "it_intent ex_intake = UNKNOWN_INTENT" "it_scope ex_intake = UNCLEAR"
  "it_callback_intent ex_intake = NO_CALLBACK" "it_address ex_intake = NO_ADDRESS"
  "it_action ex_intake = UNKNOWN_ACTION" "it_asked ex_intake = {}"
  by (simp_all add: ex_intake_def)

lemma ex_plan: "\<exists>a. plan_next_action ex_intake = Inr a \<and> na_allowed a = [''service_action'']"
proof -
  have free: "''service_action'' \<notin> forbidden_slots ex_intake"
    by (simp add: forbidden_slots_def known_askable_slots_def ex_intake_def)
  have "set (sorted_list_of_set (forbidden_slots ex_intake)) = forbidden_slots ex_intake"
    by (rule set_sorted_list_of_set) (simp add: forbidden_finite ex_fields)
  with free show ?thesis
    by (simp add: plan_next_action_def plan_service_def plan_intake_def plan_action_def make_action_def ex_fields)
qed

lemma ex_credit: "credits_asked_slots ''Sure.''"
  by (simp add: credits_asked_slots_def casefold_char_def has_prefix_def)

lemma ex_asked: "\<exists>c. apply_all (map take_turn [Caller None, Kevin ''Sure.'']) ex_controller = Inr c \<and>
    it_asked (ct_state c) = {''service_action''}"
proof -
  obtain a where a: "plan_next_action ex_intake = Inr a" "na_allowed a = [''service_action'']" using ex_plan by blast
  have m: "mark_slot_asked ''service_action'' ex_intake = Inr (ex_intake\<lparr>it_asked := {''service_action''}\<rparr>)"
    by (simp add: mark_askable) (simp add: ex_intake_def)
  show ?thesis
    by (simp add: after_caller_turn_def on_some_def compose_def after_kevin_turn_def ex_controller_def a m ex_credit)
qed

theorem never_asked_twice_witness:
  "\<exists>c a. apply_all (map take_turn [Caller None, Kevin ''Sure.'']) ex_controller = Inr c \<and>
     plan_next_action (ct_state c) = Inr a \<and> ''service_action'' \<notin> set (na_allowed a)"
proof -
  obtain c where c: "apply_all (map take_turn [Caller None, Kevin ''Sure.'']) ex_controller = Inr c"
    "''service_action'' \<in> it_asked (ct_state c)" using ex_asked by auto
  have "apply_all (map take_turn []) c = Inr c" by simp
  from never_asked_twice [OF ex_start c this] c show ?thesis by auto
qed

text \<open>C33: The receptionist runs out of questions: if the caller's answers yield nothing and Kevin keeps asking
  what the plan allows, then after ten rounds, or any number beyond, no round has failed and the plan asks
  nothing more.\<close>

theorem questions_run_out:
  assumes "credits_asked_slots said" and "10 \<le> n"
  shows "\<exists>c' a. silent_rounds n said c = Inr c' \<and> plan_next_action (ct_state c') = Inr a \<and> \<not> na_question a"
  using assms ten_askable [of "ct_state c"] by (intro silent_rounds_settle) simp_all

theorem questions_run_out_witness:
  "\<exists>c' a. silent_rounds 10 ''Sure.'' ex_controller = Inr c' \<and> plan_next_action (ct_state c') = Inr a \<and> \<not> na_question a"
  by (rule questions_run_out) (simp_all add: ex_credit)

end
