(* ===== verification/Visual_Contracts.thy ===== *)
theory Visual_Contracts
  imports Prelude
begin

text \<open>
  The contracts of the visual diagnosis case, app/services/visual_diagnosis_contracts.py: the closed
  enumerations, the structural bounds on an event's payload, canonical JSON and the two digests, and the
  checks of the models a case is made of. A model's declared field constraints (lengths, ranges, types)
  are checks of its constructor; every failed check is a \<open>ValueError\<close>. SHA-256, the text of a finite
  float and \<open>datetime.fromisoformat\<close> are parameters.
\<close>

section \<open>The enumerations\<close>

datatype case_status = Case_CREATED | Case_ACTIVE | Case_CLOSED | Case_CANCELLED | Case_EXPIRED

datatype consent_status = Consent_NOT_REQUESTED | Consent_AWAITING_DECISION | Consent_GRANTED | Consent_DECLINED
  | Consent_WITHDRAWN

datatype media_status = Media_NONE | Media_AWAITING_REQUIRED | Media_UPLOAD_PENDING | Media_UPLOADED_QUARANTINED
  | Media_VALIDATED | Media_REJECTED | Media_UNAVAILABLE

datatype analysis_status = Analysis_NOT_STARTED | Analysis_READY | Analysis_PROCESSING
  | Analysis_AWAITING_CUSTOMER_ACTION | Analysis_COMPLETE | Analysis_ABSTAINED | Analysis_FAILED_RETRIABLE
  | Analysis_FAILED_TERMINAL

fun analysis_value :: "analysis_status \<Rightarrow> string" where
  "analysis_value Analysis_NOT_STARTED = ''not_started''"
| "analysis_value Analysis_READY = ''ready''"
| "analysis_value Analysis_PROCESSING = ''processing''"
| "analysis_value Analysis_AWAITING_CUSTOMER_ACTION = ''awaiting_customer_action''"
| "analysis_value Analysis_COMPLETE = ''complete''"
| "analysis_value Analysis_ABSTAINED = ''abstained''"
| "analysis_value Analysis_FAILED_RETRIABLE = ''failed_retriable''"
| "analysis_value Analysis_FAILED_TERMINAL = ''failed_terminal''"

definition analysis_statuses :: "analysis_status list" where
  "analysis_statuses = [Analysis_NOT_STARTED, Analysis_READY, Analysis_PROCESSING,
     Analysis_AWAITING_CUSTOMER_ACTION, Analysis_COMPLETE, Analysis_ABSTAINED, Analysis_FAILED_RETRIABLE,
     Analysis_FAILED_TERMINAL]"

datatype packet_status = Packet_NOT_READY | Packet_READY | Packet_DELIVERY_PENDING | Packet_DELIVERED
  | Packet_DELIVERY_FAILED

datatype delivery_status = Delivery_NOT_EVALUATED | Delivery_POLICY_RECEIPT_RECORDED | Delivery_DELIVERY_PENDING
  | Delivery_DELIVERED | Delivery_DELIVERY_FAILED

datatype deletion_status = Deletion_NOT_REQUESTED | Deletion_PENDING | Deletion_VERIFIED

datatype event_kind = CASE_CREATED | CONSENT_REQUESTED | CONSENT_GRANTED | CONSENT_DECLINED | CONSENT_WITHDRAWN
  | MEDIA_ACTION_ISSUED | DIAGNOSTIC_QUESTION_ISSUED | CUSTOMER_ACTION_RESOLVED | UPLOAD_STARTED
  | UPLOAD_FINALIZED | MEDIA_VALIDATED | MEDIA_ACTION_RESOLVED | ANALYSIS_STARTED | ANALYSIS_RETRY_RECORDED
  | ANALYSIS_COMPLETED | ANALYSIS_FAILED | CONTRACTOR_PACKET_READY_RECORDED | CONTRACTOR_PACKET_DELIVERY_STARTED
  | CONTRACTOR_PACKET_DELIVERY_RECEIPT_RECORDED | DELIVERY_POLICY_RECEIPT_RECORDED | CUSTOMER_DELIVERY_STARTED
  | CUSTOMER_DELIVERY_RECEIPT_RECORDED | CASE_CLOSED | CASE_CANCELLED | CASE_EXPIRED | DELETION_REQUESTED
  | DELETION_RETRY_RECORDED | DELETION_VERIFIED

fun event_kind_value :: "event_kind \<Rightarrow> string" where
  "event_kind_value CASE_CREATED = ''case_created''"
| "event_kind_value CONSENT_REQUESTED = ''consent_requested''"
| "event_kind_value CONSENT_GRANTED = ''consent_granted''"
| "event_kind_value CONSENT_DECLINED = ''consent_declined''"
| "event_kind_value CONSENT_WITHDRAWN = ''consent_withdrawn''"
| "event_kind_value MEDIA_ACTION_ISSUED = ''media_action_issued''"
| "event_kind_value DIAGNOSTIC_QUESTION_ISSUED = ''diagnostic_question_issued''"
| "event_kind_value CUSTOMER_ACTION_RESOLVED = ''customer_action_resolved''"
| "event_kind_value UPLOAD_STARTED = ''upload_started''"
| "event_kind_value UPLOAD_FINALIZED = ''upload_finalized''"
| "event_kind_value MEDIA_VALIDATED = ''media_validated''"
| "event_kind_value MEDIA_ACTION_RESOLVED = ''media_action_resolved''"
| "event_kind_value ANALYSIS_STARTED = ''analysis_started''"
| "event_kind_value ANALYSIS_RETRY_RECORDED = ''analysis_retry_recorded''"
| "event_kind_value ANALYSIS_COMPLETED = ''analysis_completed''"
| "event_kind_value ANALYSIS_FAILED = ''analysis_failed''"
| "event_kind_value CONTRACTOR_PACKET_READY_RECORDED = ''contractor_packet_ready_recorded''"
| "event_kind_value CONTRACTOR_PACKET_DELIVERY_STARTED = ''contractor_packet_delivery_started''"
| "event_kind_value CONTRACTOR_PACKET_DELIVERY_RECEIPT_RECORDED = ''contractor_packet_delivery_receipt_recorded''"
| "event_kind_value DELIVERY_POLICY_RECEIPT_RECORDED = ''delivery_policy_receipt_recorded''"
| "event_kind_value CUSTOMER_DELIVERY_STARTED = ''customer_delivery_started''"
| "event_kind_value CUSTOMER_DELIVERY_RECEIPT_RECORDED = ''customer_delivery_receipt_recorded''"
| "event_kind_value CASE_CLOSED = ''case_closed''"
| "event_kind_value CASE_CANCELLED = ''case_cancelled''"
| "event_kind_value CASE_EXPIRED = ''case_expired''"
| "event_kind_value DELETION_REQUESTED = ''deletion_requested''"
| "event_kind_value DELETION_RETRY_RECORDED = ''deletion_retry_recorded''"
| "event_kind_value DELETION_VERIFIED = ''deletion_verified''"

definition event_kinds :: "event_kind list" where
  "event_kinds = [CASE_CREATED, CONSENT_REQUESTED, CONSENT_GRANTED, CONSENT_DECLINED, CONSENT_WITHDRAWN,
     MEDIA_ACTION_ISSUED, DIAGNOSTIC_QUESTION_ISSUED, CUSTOMER_ACTION_RESOLVED, UPLOAD_STARTED,
     UPLOAD_FINALIZED, MEDIA_VALIDATED, MEDIA_ACTION_RESOLVED, ANALYSIS_STARTED, ANALYSIS_RETRY_RECORDED,
     ANALYSIS_COMPLETED, ANALYSIS_FAILED, CONTRACTOR_PACKET_READY_RECORDED, CONTRACTOR_PACKET_DELIVERY_STARTED,
     CONTRACTOR_PACKET_DELIVERY_RECEIPT_RECORDED, DELIVERY_POLICY_RECEIPT_RECORDED, CUSTOMER_DELIVERY_STARTED,
     CUSTOMER_DELIVERY_RECEIPT_RECORDED, CASE_CLOSED, CASE_CANCELLED, CASE_EXPIRED, DELETION_REQUESTED,
     DELETION_RETRY_RECORDED, DELETION_VERIFIED]"

datatype event_source = Source_SYNTHETIC | Source_CUSTOMER_ACTION | Source_SYSTEM | Source_POLICY_RECEIPT

fun event_source_value :: "event_source \<Rightarrow> string" where
  "event_source_value Source_SYNTHETIC = ''synthetic_structural''"
| "event_source_value Source_CUSTOMER_ACTION = ''customer_action''"
| "event_source_value Source_SYSTEM = ''system''"
| "event_source_value Source_POLICY_RECEIPT = ''policy_receipt''"

definition event_sources :: "event_source list" where
  "event_sources = [Source_SYNTHETIC, Source_CUSTOMER_ACTION, Source_SYSTEM, Source_POLICY_RECEIPT]"

datatype action_kind = Kind_DIAGNOSTIC_QUESTION | Kind_RATING_PLATE | Kind_TARGETED_RECAPTURE

fun action_kind_value :: "action_kind \<Rightarrow> string" where
  "action_kind_value Kind_DIAGNOSTIC_QUESTION = ''diagnostic_question''"
| "action_kind_value Kind_RATING_PLATE = ''rating_plate''"
| "action_kind_value Kind_TARGETED_RECAPTURE = ''targeted_recapture''"

definition action_kinds :: "action_kind list" where
  "action_kinds = [Kind_DIAGNOSTIC_QUESTION, Kind_RATING_PLATE, Kind_TARGETED_RECAPTURE]"

datatype action_status = Status_ISSUED | Status_UPLOADING | Status_SUBMITTED | Status_ANSWERED | Status_NOT_SURE
  | Status_FULFILLED | Status_UNAVAILABLE | Status_DECLINED | Status_CANNOT_SAFELY_COMPLETE | Status_EXPIRED
  | Status_CANCELLED

fun action_status_value :: "action_status \<Rightarrow> string" where
  "action_status_value Status_ISSUED = ''issued''"
| "action_status_value Status_UPLOADING = ''uploading''"
| "action_status_value Status_SUBMITTED = ''submitted''"
| "action_status_value Status_ANSWERED = ''answered''"
| "action_status_value Status_NOT_SURE = ''not_sure''"
| "action_status_value Status_FULFILLED = ''fulfilled''"
| "action_status_value Status_UNAVAILABLE = ''unavailable''"
| "action_status_value Status_DECLINED = ''declined''"
| "action_status_value Status_CANNOT_SAFELY_COMPLETE = ''cannot_safely_complete''"
| "action_status_value Status_EXPIRED = ''expired''"
| "action_status_value Status_CANCELLED = ''cancelled''"

definition action_statuses :: "action_status list" where
  "action_statuses = [Status_ISSUED, Status_UPLOADING, Status_SUBMITTED, Status_ANSWERED, Status_NOT_SURE,
     Status_FULFILLED, Status_UNAVAILABLE, Status_DECLINED, Status_CANNOT_SAFELY_COMPLETE, Status_EXPIRED,
     Status_CANCELLED]"

datatype media_role = Role_SYMPTOM_VIDEO | Role_RATING_PLATE | Role_TARGETED_RECAPTURE

fun media_role_value :: "media_role \<Rightarrow> string" where
  "media_role_value Role_SYMPTOM_VIDEO = ''symptom_video''"
| "media_role_value Role_RATING_PLATE = ''rating_plate''"
| "media_role_value Role_TARGETED_RECAPTURE = ''targeted_recapture''"

definition media_roles :: "media_role list" where
  "media_roles = [Role_SYMPTOM_VIDEO, Role_RATING_PLATE, Role_TARGETED_RECAPTURE]"

datatype media_validation = Validation_PENDING | Validation_VALIDATED | Validation_REJECTED
  | Validation_UNAVAILABLE

fun validation_value :: "media_validation \<Rightarrow> string" where
  "validation_value Validation_PENDING = ''pending''"
| "validation_value Validation_VALIDATED = ''validated''"
| "validation_value Validation_REJECTED = ''rejected''"
| "validation_value Validation_UNAVAILABLE = ''unavailable''"

definition validations :: "media_validation list" where
  "validations = [Validation_PENDING, Validation_VALIDATED, Validation_REJECTED, Validation_UNAVAILABLE]"

datatype projection_role = To_INTERNAL | To_CUSTOMER | To_CONTRACTOR | To_AUDIT

section \<open>The structural bounds\<close>

definition FORBIDDEN_PAYLOAD_TERMS :: "string list" where
  "FORBIDDEN_PAYLOAD_TERMS = [''address'', ''api_key'', ''credential'', ''diagnosis'', ''model'', ''part'',
     ''phone'', ''price'', ''prompt'', ''serial'', ''token'', ''transcript'', ''url'']"

definition ACTION_KEYS :: "string list" where
  "ACTION_KEYS = [''request_id'', ''action_kind'', ''budget_bucket'', ''copy_ref'', ''receipt_ref'',
     ''locale'', ''optionality'', ''safe_refusal_code'', ''decision_ref'', ''evidence_ref'',
     ''response_option_codes'', ''expires_at'']"

fun event_payload_keys :: "event_kind \<Rightarrow> string list" where
  "event_payload_keys CASE_CREATED = [''scenario'', ''source_ref'']"
| "event_payload_keys CONSENT_REQUESTED = []"
| "event_payload_keys CONSENT_GRANTED = []"
| "event_payload_keys CONSENT_DECLINED = []"
| "event_payload_keys CONSENT_WITHDRAWN = []"
| "event_payload_keys MEDIA_ACTION_ISSUED = ACTION_KEYS"
| "event_payload_keys DIAGNOSTIC_QUESTION_ISSUED = ACTION_KEYS"
| "event_payload_keys CUSTOMER_ACTION_RESOLVED = [''request_id'', ''status'', ''action_kind'', ''locale'', ''response_option_code'']"
| "event_payload_keys UPLOAD_STARTED = [''asset_id'', ''media_type'', ''byte_size'', ''duration_ms'', ''width'', ''height'', ''digest'']"
| "event_payload_keys UPLOAD_FINALIZED = [''asset_id'']"
| "event_payload_keys MEDIA_VALIDATED = [''asset_id'', ''validation'']"
| "event_payload_keys MEDIA_ACTION_RESOLVED = [''request_id'', ''action_kind'', ''media_role'', ''validation'', ''status'', ''asset_id'']"
| "event_payload_keys ANALYSIS_STARTED = []"
| "event_payload_keys ANALYSIS_RETRY_RECORDED = [''attempt'']"
| "event_payload_keys ANALYSIS_COMPLETED = [''outcome'']"
| "event_payload_keys ANALYSIS_FAILED = [''failure_state'']"
| "event_payload_keys CONTRACTOR_PACKET_READY_RECORDED = []"
| "event_payload_keys CONTRACTOR_PACKET_DELIVERY_STARTED = []"
| "event_payload_keys CONTRACTOR_PACKET_DELIVERY_RECEIPT_RECORDED = [''status'']"
| "event_payload_keys DELIVERY_POLICY_RECEIPT_RECORDED = [''receipt_ref'']"
| "event_payload_keys CUSTOMER_DELIVERY_STARTED = [''receipt_ref'']"
| "event_payload_keys CUSTOMER_DELIVERY_RECEIPT_RECORDED = [''status'']"
| "event_payload_keys CASE_CLOSED = []"
| "event_payload_keys CASE_CANCELLED = []"
| "event_payload_keys CASE_EXPIRED = []"
| "event_payload_keys DELETION_REQUESTED = []"
| "event_payload_keys DELETION_RETRY_RECORDED = [''attempt'']"
| "event_payload_keys DELETION_VERIFIED = []"

definition PROJECTION_REASON_CODES :: "string list" where
  "PROJECTION_REASON_CODES = [''ok'', ''case_terminal'', ''customer_action_pending'', ''deletion_pending'',
     ''media_required'', ''analysis_ready'', ''packet_ready'', ''verified_deleted'']"

definition PROJECTION_NEXT_ACTIONS :: "string list" where
  "PROJECTION_NEXT_ACTIONS = [''resolve_customer_action'', ''upload_initial_symptom_media'',
     ''start_analysis'', ''record_packet_delivery'']"


definition char_in :: "char \<Rightarrow> char \<Rightarrow> char \<Rightarrow> bool" where
  "char_in lo hi c = (lo \<le> c \<and> c \<le> hi)"

definition lower :: "char \<Rightarrow> bool" where
  "lower = char_in (CHR ''a'') (CHR ''z'')"

definition digit :: "char \<Rightarrow> bool" where
  "digit = char_in (CHR ''0'') (CHR ''9'')"

definition alnum :: "char \<Rightarrow> bool" where
  "alnum c = (lower c \<or> char_in (CHR ''A'') (CHR ''Z'') c \<or> digit c)"

text \<open>A non-empty text of at most \<open>n\<close> characters, the first of one class and the others of another.\<close>

definition matches :: "(char \<Rightarrow> bool) \<Rightarrow> (char \<Rightarrow> bool) \<Rightarrow> nat \<Rightarrow> string \<Rightarrow> bool" where
  "matches first rest n s = (case s of [] \<Rightarrow> False | c # cs \<Rightarrow> first c \<and> list_all rest cs \<and> length s \<le> n)"

definition opaque_ref :: "string \<Rightarrow> bool" where
  "opaque_ref = matches alnum (\<lambda>c. alnum c \<or> c \<in> set ''._:-'') 128"

definition code :: "string \<Rightarrow> bool" where
  "code = matches lower (\<lambda>c. lower c \<or> digit c \<or> c \<in> set ''_.:-'') 64"

definition payload_key :: "string \<Rightarrow> bool" where
  "payload_key = matches lower (\<lambda>c. lower c \<or> digit c \<or> c = CHR ''_'') 64"

definition fingerprint :: "string \<Rightarrow> bool" where
  "fingerprint s = (length s = 64 \<and> list_all (\<lambda>c. digit c \<or> char_in (CHR ''a'') (CHR ''f'') c) s)"

definition names_forbidden_term :: "string \<Rightarrow> bool" where
  "names_forbidden_term s = list_ex (\<lambda>t. contains t (concat (map casefold_char s))) FORBIDDEN_PAYLOAD_TERMS"

text \<open>\<open>_validate_structural_value\<close>; the counter is what is left of the five levels of nesting.\<close>

fun structural :: "nat \<Rightarrow> pyval \<Rightarrow> bool" where
  "structural 0 v = False"
| "structural (Suc n) v =
     (case v of PNone \<Rightarrow> True | PBool b \<Rightarrow> True | PInt i \<Rightarrow> True | PFloat f \<Rightarrow> False
      | PStr s \<Rightarrow> length s \<le> 256 \<and> \<not> names_forbidden_term s
      | PList xs \<Rightarrow> length xs \<le> 16 \<and> list_all (structural n) xs
      | PDict kvs \<Rightarrow> length kvs \<le> 32 \<and>
          list_all (\<lambda>(k, x). payload_key k \<and> \<not> names_forbidden_term k \<and> structural n x) kvs)"

section \<open>Canonical JSON and the digests\<close>

record pytime =
  t_at :: int
  t_iso :: string
  t_aware :: bool

text \<open>
  A datetime is its instant in microseconds, its \<open>isoformat()\<close> and whether it has an offset from UTC.
  \<open>sha256\<close> maps bytes to the hexadecimal digest; \<open>iso\<close> is \<open>datetime.fromisoformat\<close>.
\<close>

record platform =
  sha256 :: "string \<Rightarrow> string"
  float_text :: "rat \<Rightarrow> string"
  iso :: "string \<Rightarrow> pytime option"

text \<open>\<open>json.dumps\<close> refuses non-finite floats (\<open>allow_nan=False\<close>) and integers of more than 4300 digits.\<close>

definition int_prints :: "int \<Rightarrow> bool" where
  "int_prints i = (\<bar>i\<bar> < 10 ^ 4300)"

lemma small_prints: "\<bar>i\<bar> < 1000000000 \<Longrightarrow> int_prints i"
proof -
  assume "\<bar>i\<bar> < 1000000000"
  then have "\<bar>i\<bar> < 10 ^ 9" by simp
  also have "(10::int) ^ 9 \<le> 10 ^ 4300" by (rule power_increasing) simp_all
  finally show ?thesis unfolding int_prints_def .
qed

fun canonical_json :: "platform \<Rightarrow> pyval \<Rightarrow> string res" where
  "canonical_json P PNone = Inr ''null''"
| "canonical_json P (PBool b) = Inr (if b then ''true'' else ''false'')"
| "canonical_json P (PInt i) = (if int_prints i then Inr (int_str i) else Inl ValueError)"
| "canonical_json P (PFloat f) = (case f of Fin q \<Rightarrow> Inr (float_text P q) | _ \<Rightarrow> Inl ValueError)"
| "canonical_json P (PStr s) = Inr (json_string s)"
| "canonical_json P (PList xs) =
     ebind (collect (map (canonical_json P) xs)) (\<lambda>ts. Inr (''['' @ join '','' ts @ '']''))"
| "canonical_json P (PDict kvs) =
     ebind (collect (map (\<lambda>(k, v). ebind (canonical_json P v) (\<lambda>t. Inr (k, t))) kvs)) (\<lambda>kts.
       Inr (''{'' @ join '','' (map (\<lambda>(k, t). json_string k @ '':'' @ t) (sort_key fst kts)) @ ''}''))"

definition sha :: "platform \<Rightarrow> pyval \<Rightarrow> string res" where
  "sha P v = ebind (canonical_json P v) (\<lambda>t. Inr (sha256 P t))"

section \<open>The models\<close>

text \<open>A field that is \<open>None\<close> or passes a check, and a strictly typed text or bounded integer.\<close>

definition none_or :: "(pyval \<Rightarrow> 'a res) \<Rightarrow> pyval \<Rightarrow> 'a option res" where
  "none_or f v = (if v = PNone then Inr None else ebind (f v) (\<lambda>x. Inr (Some x)))"

definition str_field :: "(string \<Rightarrow> bool) \<Rightarrow> pyval \<Rightarrow> string res" where
  "str_field ok v = (case v of PStr s \<Rightarrow> if ok s then Inr s else Inl ValueError | _ \<Rightarrow> Inl ValueError)"

definition int_field :: "int \<Rightarrow> int \<Rightarrow> pyval \<Rightarrow> int res" where
  "int_field lo hi v = (case v of PInt i \<Rightarrow> if lo \<le> i \<and> i \<le> hi then Inr i else Inl ValueError | _ \<Rightarrow> Inl ValueError)"

record media_asset =
  ma_id :: string
  ma_role :: media_role
  ma_type :: string
  ma_bytes :: int
  ma_duration :: "int option"
  ma_width :: "int option"
  ma_height :: "int option"
  ma_digest :: string
  ma_validation :: media_validation

definition make_asset ::
    "string \<Rightarrow> media_role \<Rightarrow> string \<Rightarrow> pyval \<Rightarrow> pyval \<Rightarrow> pyval \<Rightarrow> pyval \<Rightarrow> string \<Rightarrow> media_asset res" where
  "make_asset asset_id role media_type byte_size duration width height digest =
     (if \<not> opaque_ref asset_id \<or> media_type = [] \<or> 32 < length media_type \<or> \<not> fingerprint digest then Inl ValueError
      else ebind (int_field 0 (50 * 1024 * 1024) byte_size) (\<lambda>b.
        ebind (none_or (int_field 0 120000) duration) (\<lambda>d.
        ebind (none_or (int_field 1 20000) width) (\<lambda>w.
        ebind (none_or (int_field 1 20000) height) (\<lambda>h.
          Inr \<lparr>ma_id = asset_id, ma_role = role, ma_type = media_type, ma_bytes = b, ma_duration = d, ma_width = w,
            ma_height = h, ma_digest = digest, ma_validation = Validation_PENDING\<rparr>)))))"

text \<open>A locale is a language with an optional script and an optional region.\<close>

definition language_part :: "string \<Rightarrow> bool" where
  "language_part s = (list_all lower s \<and> length s \<in> {2, 3})"

definition script_part :: "string \<Rightarrow> bool" where
  "script_part s = (length s = 4 \<and> char_in (CHR ''A'') (CHR ''Z'') (hd s) \<and> list_all lower (tl s))"

definition region_part :: "string \<Rightarrow> bool" where
  "region_part s = (length s = 2 \<and> list_all (char_in (CHR ''A'') (CHR ''Z'')) s \<or> length s = 3 \<and> list_all digit s)"

definition locale_tag :: "string \<Rightarrow> bool" where
  "locale_tag s = (case split_on (CHR ''-'') s of
       [l] \<Rightarrow> language_part l
     | [l, x] \<Rightarrow> language_part l \<and> (script_part x \<or> region_part x)
     | [l, x, y] \<Rightarrow> language_part l \<and> script_part x \<and> region_part y
     | _ \<Rightarrow> False)"

record customer_action =
  ac_request :: string
  ac_kind :: action_kind
  ac_bucket :: string
  ac_status :: action_status
  ac_copy :: "string option"
  ac_options :: "string list"
  ac_option :: "string option"
  ac_locale :: string
  ac_optionality :: string
  ac_refusal :: "string option"
  ac_decision :: "string option"
  ac_evidence :: "string option"
  ac_issued :: pytime
  ac_expires :: "pytime option"
  ac_resolved :: "pytime option"

definition option_codes :: "pyval list \<Rightarrow> string list res" where
  "option_codes vs = (if 8 < length vs then Inl ValueError else collect (map (str_field code) vs))"

definition make_customer_action ::
    "string \<Rightarrow> action_kind \<Rightarrow> string \<Rightarrow> pyval \<Rightarrow> pyval list \<Rightarrow> pyval \<Rightarrow> pyval \<Rightarrow> pyval \<Rightarrow> pyval \<Rightarrow> pyval \<Rightarrow>
     pytime \<Rightarrow> pytime option \<Rightarrow> customer_action res" where
  "make_customer_action request kind bucket copy options lcl optionality refusal decision evidence issued expires =
     (if \<not> opaque_ref request \<or> \<not> code bucket \<or> \<not> t_aware issued \<or>
         (case expires of None \<Rightarrow> False | Some t \<Rightarrow> \<not> t_aware t) then Inl ValueError
      else ebind (none_or (str_field opaque_ref) copy) (\<lambda>cp.
        ebind (option_codes options) (\<lambda>os.
        ebind (str_field locale_tag lcl) (\<lambda>l.
        ebind (str_field (\<lambda>s. code s \<and> length s \<le> 32) optionality) (\<lambda>ot.
        ebind (none_or (str_field code) refusal) (\<lambda>rf.
        ebind (none_or (str_field opaque_ref) decision) (\<lambda>dc.
        ebind (none_or (str_field opaque_ref) evidence) (\<lambda>ev.
          Inr \<lparr>ac_request = request, ac_kind = kind, ac_bucket = bucket, ac_status = Status_ISSUED, ac_copy = cp,
            ac_options = os, ac_option = None, ac_locale = l, ac_optionality = ot, ac_refusal = rf, ac_decision = dc,
            ac_evidence = ev, ac_issued = issued, ac_expires = expires, ac_resolved = None\<rparr>))))))))"

record receipt =
  rc_event :: string
  rc_kind :: event_kind
  rc_fingerprint :: string
  rc_code :: string
  rc_revision :: int

definition make_receipt :: "string \<Rightarrow> event_kind \<Rightarrow> string \<Rightarrow> string \<Rightarrow> int \<Rightarrow> receipt res" where
  "make_receipt event_id kind fp cd revision =
     (if \<not> opaque_ref event_id \<or> \<not> fingerprint fp \<or> \<not> code cd \<or> revision < 1 then Inl ValueError
      else Inr \<lparr>rc_event = event_id, rc_kind = kind, rc_fingerprint = fp, rc_code = cd, rc_revision = revision\<rparr>)"

section \<open>Events\<close>

text \<open>
  An event may have been changed after its construction, so each field is what \<open>apply\<close> finds there: a
  kind or source that is not a genuine member, and a time that is no datetime, are \<open>None\<close>.
\<close>

record triage_event =
  ev_schema :: pyval
  ev_case :: pyval
  ev_contractor :: pyval
  ev_id :: pyval
  ev_kind :: "event_kind option"
  ev_payload :: pyval
  ev_digest :: pyval
  ev_fingerprint :: pyval
  ev_revision :: pyval
  ev_source :: "event_source option"
  ev_time :: "pytime option"
  ev_retry_stage :: pyval
  ev_retry_attempt :: pyval
  ev_scope :: pyval

text \<open>What is known of an event whose integrity has been asserted.\<close>

record checked_event =
  ck_case :: string
  ck_contractor :: string
  ck_id :: string
  ck_kind :: event_kind
  ck_payload :: "(string \<times> pyval) list"
  ck_fingerprint :: string
  ck_revision :: int
  ck_source :: event_source
  ck_time :: pytime
  ck_stage :: pyval
  ck_attempt :: pyval

definition SCHEMA_VERSION :: string where
  "SCHEMA_VERSION = ''visual_diagnosis/v1''"

definition EVIDENCE_SCOPE :: string where
  "EVIDENCE_SCOPE = ''synthetic_offline_only''"

definition envelope ::
    "pyval \<Rightarrow> pyval \<Rightarrow> pyval \<Rightarrow> event_kind \<Rightarrow> pyval \<Rightarrow> pyval \<Rightarrow> event_source \<Rightarrow> pytime \<Rightarrow> pyval \<Rightarrow> pyval \<Rightarrow> pyval \<Rightarrow> pyval" where
  "envelope schema case_id contractor kind digest revision src tm stage attempt scope = PDict
     [(''schema_version'', schema), (''case_id'', case_id), (''contractor_id'', contractor),
      (''event_kind'', PStr (event_kind_value kind)), (''canonical_payload_digest'', digest),
      (''expected_revision'', revision), (''source_kind'', PStr (event_source_value src)),
      (''event_time'', PStr (t_iso tm)), (''retry_stage'', stage), (''retry_attempt'', attempt),
      (''evidence_scope'', scope)]"

definition assert_integrity :: "platform \<Rightarrow> triage_event \<Rightarrow> checked_event res" where
  "assert_integrity P e =
     (case ev_time e of None \<Rightarrow> Inl AttributeError | Some tm \<Rightarrow>
      if \<not> t_aware tm then Inl ValueError else
      ebind (str_field opaque_ref (ev_id e)) (\<lambda>event_id.
      ebind (str_field opaque_ref (ev_case e)) (\<lambda>case_id.
      ebind (str_field opaque_ref (ev_contractor e)) (\<lambda>contractor.
      case ev_payload e of PDict payload \<Rightarrow>
       (case ev_revision e of PInt revision \<Rightarrow>
        (case (ev_kind e, ev_source e) of (Some kind, Some src) \<Rightarrow>
          if \<not> structural 5 (PDict payload) \<or> \<not> set (map fst payload) \<subseteq> set (event_payload_keys kind)
          then Inl ValueError
          else ebind (sha P (PDict payload)) (\<lambda>digest.
            if ev_digest e \<noteq> PStr digest then Inl ValueError
            else ebind (sha P (envelope (ev_schema e) (ev_case e) (ev_contractor e) kind (ev_digest e) (ev_revision e)
                          src tm (ev_retry_stage e) (ev_retry_attempt e) (ev_scope e))) (\<lambda>fp.
              if ev_fingerprint e \<noteq> PStr fp \<or> ev_schema e \<noteq> PStr SCHEMA_VERSION \<or>
                 ev_scope e \<noteq> PStr EVIDENCE_SCOPE then Inl ValueError
              else Inr \<lparr>ck_case = case_id, ck_contractor = contractor, ck_id = event_id, ck_kind = kind,
                ck_payload = payload, ck_fingerprint = fp, ck_revision = revision, ck_source = src, ck_time = tm,
                ck_stage = ev_retry_stage e, ck_attempt = ev_retry_attempt e\<rparr>))
         | _ \<Rightarrow> Inl ValueError)
        | _ \<Rightarrow> Inl ValueError)
       | _ \<Rightarrow> Inl ValueError))))"

text \<open>The constructor: the declared constraints of the fields, then the integrity; and \<open>build\<close>.\<close>

definition construct_event :: "platform \<Rightarrow> triage_event \<Rightarrow> triage_event res" where
  "construct_event P e =
     ebind (int_field 0 10000 (ev_revision e)) (\<lambda>_.
     ebind (none_or (str_field code) (ev_retry_stage e)) (\<lambda>_.
     ebind (none_or (int_field 1 3) (ev_retry_attempt e)) (\<lambda>_.
     ebind (str_field (\<lambda>s. length s = 64) (ev_digest e)) (\<lambda>_.
     ebind (str_field (\<lambda>s. length s = 64) (ev_fingerprint e)) (\<lambda>_.
     ebind (assert_integrity P e) (\<lambda>_. Inr e))))))"

definition build_event ::
    "platform \<Rightarrow> string \<Rightarrow> string \<Rightarrow> string \<Rightarrow> event_kind \<Rightarrow> pyval \<Rightarrow> int \<Rightarrow> event_source \<Rightarrow> pytime \<Rightarrow> pyval \<Rightarrow> pyval \<Rightarrow>
     triage_event res" where
  "build_event P case_id contractor event_id kind payload revision src tm stage attempt =
     ebind (sha P payload) (\<lambda>digest.
     ebind (sha P (envelope (PStr SCHEMA_VERSION) (PStr case_id) (PStr contractor) kind (PStr digest) (PInt revision)
              src tm stage attempt (PStr EVIDENCE_SCOPE))) (\<lambda>fp.
       construct_event P \<lparr>ev_schema = PStr SCHEMA_VERSION, ev_case = PStr case_id, ev_contractor = PStr contractor,
         ev_id = PStr event_id, ev_kind = Some kind, ev_payload = payload, ev_digest = PStr digest,
         ev_fingerprint = PStr fp, ev_revision = PInt revision, ev_source = Some src, ev_time = Some tm,
         ev_retry_stage = stage, ev_retry_attempt = attempt, ev_scope = PStr EVIDENCE_SCOPE\<rparr>))"

section \<open>The case, its projections and decisions\<close>

record state_vector =
  sv_case :: case_status
  sv_consent :: consent_status
  sv_media :: media_status
  sv_analysis :: analysis_status
  sv_packet :: packet_status
  sv_delivery :: delivery_status
  sv_deletion :: deletion_status

definition initial_vector :: state_vector where
  "initial_vector = \<lparr>sv_case = Case_CREATED, sv_consent = Consent_NOT_REQUESTED, sv_media = Media_NONE,
     sv_analysis = Analysis_NOT_STARTED, sv_packet = Packet_NOT_READY, sv_delivery = Delivery_NOT_EVALUATED,
     sv_deletion = Deletion_NOT_REQUESTED\<rparr>"

definition ORDINARY_RECEIPT_CAP :: nat where
  "ORDINARY_RECEIPT_CAP = 64"

definition CONTROL_RECEIPT_CAP :: nat where
  "CONTROL_RECEIPT_CAP = 6"


datatype artifact_readiness = Artifact_NOT_READY | Artifact_READY | Artifact_COMPLETE | Artifact_ABSTAINED

record artifact_ref =
  ar_id :: string
  ar_readiness :: artifact_readiness

record triage_case =
  tc_case :: string
  tc_contractor :: string
  tc_call :: "string option"
  tc_scenario :: string
  tc_revision :: int
  tc_state :: state_vector
  tc_pending :: "customer_action option"
  tc_resolved :: "customer_action list"
  tc_questions :: nat
  tc_plates :: nat
  tc_recaptures :: nat
  tc_assets :: "media_asset list"
  tc_artifact :: "artifact_ref option"
  tc_candidates :: "artifact_ref option"
  tc_policies :: "string list"
  tc_external :: "string list"
  tc_ordinary :: "receipt list"
  tc_control :: "receipt list"
  tc_retries :: int
  tc_created :: "pytime option"
  tc_expires :: "pytime option"
  tc_completed :: "pytime option"
  tc_deleted :: "pytime option"

definition aware_or_none :: "pytime option \<Rightarrow> bool" where
  "aware_or_none t = (case t of None \<Rightarrow> True | Some x \<Rightarrow> t_aware x)"

definition dots_to_colons :: "string \<Rightarrow> string" where
  "dots_to_colons = map (\<lambda>c. if c = CHR ''.'' then CHR '':'' else c)"

definition make_case :: "triage_case \<Rightarrow> triage_case res" where
  "make_case c =
     (if opaque_ref (tc_case c) \<and> opaque_ref (tc_contractor c) \<and>
         (case tc_call c of None \<Rightarrow> True | Some r \<Rightarrow> opaque_ref r) \<and>
         length (tc_scenario c) \<le> 128 \<and> code (dots_to_colons (tc_scenario c)) \<and> 0 \<le> tc_revision c \<and>
         length (tc_resolved c) \<le> 4 \<and> tc_questions c \<le> 2 \<and> tc_plates c \<le> 1 \<and> tc_recaptures c \<le> 1 \<and>
         length (tc_assets c) \<le> 4 \<and> length (tc_policies c) \<le> 8 \<and> tc_external c = [] \<and>
         length (tc_ordinary c) \<le> ORDINARY_RECEIPT_CAP \<and> length (tc_control c) \<le> CONTROL_RECEIPT_CAP \<and>
         0 \<le> tc_retries c \<and> tc_retries c \<le> 3 \<and> aware_or_none (tc_created c) \<and> aware_or_none (tc_expires c) \<and>
         aware_or_none (tc_completed c) \<and> aware_or_none (tc_deleted c)
      then Inr c else Inl ValueError)"

record projection =
  pj_role :: projection_role
  pj_state :: state_vector
  pj_revision :: int
  pj_replay :: bool
  pj_old_revision :: "int option"
  pj_old_code :: "string option"
  pj_next :: "string option"
  pj_reason :: string
  pj_kind :: "action_kind option"
  pj_status :: "action_status option"
  pj_request :: "string option"
  pj_locale :: "string option"
  pj_copy :: "string option"
  pj_bucket :: "string option"
  pj_optionality :: "string option"
  pj_refusal :: "string option"
  pj_options :: "string list"
  pj_expires :: "pytime option"

text \<open>A forbidden term that stands alone, between characters other than lower case letters and digits.\<close>

fun standalone :: "bool \<Rightarrow> string \<Rightarrow> string \<Rightarrow> bool" where
  "standalone start t [] = False"
| "standalone start t (c # cs) =
     (start \<and> has_prefix t (c # cs) \<and>
        (case drop (length t) (c # cs) of [] \<Rightarrow> True | d # _ \<Rightarrow> \<not> (lower d \<or> digit d)) \<or>
      standalone (\<not> (lower c \<or> digit c)) t cs)"

definition projection_code :: "string \<Rightarrow> bool" where
  "projection_code s =
     (\<not> list_ex (\<lambda>t. standalone True t (concat (map casefold_char s))) FORBIDDEN_PAYLOAD_TERMS \<and> code s)"

definition short_or_none :: "nat \<Rightarrow> string option \<Rightarrow> bool" where
  "short_or_none n x = (case x of None \<Rightarrow> True | Some s \<Rightarrow> length s \<le> n)"

definition code_or_none :: "(string \<Rightarrow> bool) \<Rightarrow> string option \<Rightarrow> bool" where
  "code_or_none ok x = (case x of None \<Rightarrow> True | Some s \<Rightarrow> ok s)"

definition make_projection :: "projection \<Rightarrow> projection res" where
  "make_projection p =
     (if 0 \<le> pj_revision p \<and> (case pj_old_revision p of None \<Rightarrow> True | Some r \<Rightarrow> 0 \<le> r) \<and>
         code_or_none projection_code (pj_old_code p) \<and> code_or_none projection_code (pj_next p) \<and>
         projection_code (pj_reason p) \<and> short_or_none 128 (pj_request p) \<and> short_or_none 35 (pj_locale p) \<and>
         short_or_none 128 (pj_copy p) \<and> short_or_none 64 (pj_bucket p) \<and> short_or_none 32 (pj_optionality p) \<and>
         short_or_none 64 (pj_refusal p) \<and> length (pj_options p) \<le> 8 \<and>
         (sv_deletion (pj_state p) \<in> {Deletion_PENDING, Deletion_VERIFIED} \<longrightarrow>
            pj_next p = None \<and> pj_reason p \<in> {''deletion_pending'', ''verified_deleted''}) \<and>
         pj_reason p \<in> set PROJECTION_REASON_CODES \<and>
         (case pj_next p of None \<Rightarrow> True | Some a \<Rightarrow> a \<in> set PROJECTION_NEXT_ACTIONS)
      then Inr p else Inl ValueError)"

record decision =
  dn_accepted :: bool
  dn_replayed :: bool
  dn_code :: string
  dn_old_code :: "string option"
  dn_old_revision :: "int option"
  dn_revision :: int
  dn_projection :: "projection option"

definition make_decision :: "decision \<Rightarrow> decision res" where
  "make_decision d =
     (if code (dn_code d) \<and> code_or_none code (dn_old_code d) \<and>
         (case dn_old_revision d of None \<Rightarrow> True | Some r \<Rightarrow> 0 \<le> r) \<and> 0 \<le> dn_revision d
      then Inr d else Inl ValueError)"

end
