(* ===== verification/Script.thy ===== *)
theory Script
  imports Prelude
begin

text \<open>
  Imperative code that changes a state and may raise. A script takes the state and returns the
  state it leaves, in the error case too, with the error or the result, so that what a failing
  method has already assigned is part of its meaning. The weakest precondition \<open>wp\<close> computes, for
  a postcondition of the result and one of the error, what has to hold before.
\<close>

named_theorems wp \<open>weakest preconditions of scripts\<close>

type_synonym ('s, 'e, 'a) script = "'s \<Rightarrow> ('e + 'a) \<times> 's"

definition done_with :: "'a \<Rightarrow> ('s, 'e, 'a) script" where
  "done_with x = (\<lambda>s. (Inr x, s))"

definition raising :: "'e \<Rightarrow> ('s, 'e, 'a) script" where
  "raising e = (\<lambda>s. (Inl e, s))"

definition bind_script :: "('s, 'e, 'a) script \<Rightarrow> ('a \<Rightarrow> ('s, 'e, 'b) script) \<Rightarrow> ('s, 'e, 'b) script" where
  "bind_script m f = (\<lambda>s. case m s of (Inl e, t) \<Rightarrow> (Inl e, t) | (Inr x, t) \<Rightarrow> f x t)"

text \<open>A script that first looks at the state, one that assigns to it, and one that gives a value or an error.\<close>

definition reading :: "('s \<Rightarrow> ('s, 'e, 'a) script) \<Rightarrow> ('s, 'e, 'a) script" where
  "reading f = (\<lambda>s. f s s)"

definition assign :: "('s \<Rightarrow> 's) \<Rightarrow> ('s, 'e, unit) script" where
  "assign f = (\<lambda>s. (Inr (), f s))"

definition lift_sum :: "'e + 'a \<Rightarrow> ('s, 'e, 'a) script" where
  "lift_sum r = (case r of Inl e \<Rightarrow> raising e | Inr x \<Rightarrow> done_with x)"

definition raise_if :: "bool \<Rightarrow> 'e \<Rightarrow> ('s, 'e, unit) script" where
  "raise_if b e = (if b then raising e else done_with ())"

text \<open>One statement after the other.\<close>

fun steps :: "('s, 'e, unit) script list \<Rightarrow> ('s, 'e, unit) script" where
  "steps [] = done_with ()"
| "steps (m # ms) = bind_script m (\<lambda>_. steps ms)"

definition wp_of :: "('s, 'e, 'a) script \<Rightarrow> ('a \<Rightarrow> 's \<Rightarrow> bool) \<Rightarrow> ('e \<Rightarrow> 's \<Rightarrow> bool) \<Rightarrow> 's \<Rightarrow> bool" where
  "wp_of m Q E s = (case m s of (Inl e, t) \<Rightarrow> E e t | (Inr x, t) \<Rightarrow> Q x t)"

lemma wp_done [wp]: "wp_of (done_with x) Q E s \<longleftrightarrow> Q x s"
  and wp_raising [wp]: "wp_of (raising e) Q E s \<longleftrightarrow> E e s"
  and wp_bind [wp]: "wp_of (bind_script m f) Q E s \<longleftrightarrow> wp_of m (\<lambda>x. wp_of (f x) Q E) E s"
  and wp_reading [wp]: "wp_of (reading g) Q E s \<longleftrightarrow> wp_of (g s) Q E s"
  and wp_assign [wp]: "wp_of (assign h) R E s \<longleftrightarrow> R () (h s)"
  and wp_lift_sum [wp]: "wp_of (lift_sum r) Q E s \<longleftrightarrow> (\<forall>e. r = Inl e \<longrightarrow> E e s) \<and> (\<forall>x. r = Inr x \<longrightarrow> Q x s)"
  and wp_raise_if [wp]: "wp_of (raise_if b e) R E s \<longleftrightarrow> (if b then E e s else R () s)"
  and wp_steps [wp]: "wp_of (steps []) R E s \<longleftrightarrow> R () s"
     "wp_of (steps (n # ns)) R E s \<longleftrightarrow> wp_of n (\<lambda>_. wp_of (steps ns) R E) E s"
  by (auto simp: wp_of_def done_with_def raising_def bind_script_def reading_def assign_def lift_sum_def
      raise_if_def split: sum.splits prod.splits)

lemma wp_if [wp]: "wp_of (if b then m else n) Q E s \<longleftrightarrow> (if b then wp_of m Q E s else wp_of n Q E s)"
  by simp

lemma wp_mono: "wp_of m Q E s \<Longrightarrow> (\<And>x t. Q x t \<Longrightarrow> Q' x t) \<Longrightarrow> (\<And>e t. E e t \<Longrightarrow> E' e t) \<Longrightarrow> wp_of m Q' E' s"
  by (auto simp: wp_of_def split: sum.splits prod.splits)

lemma wp_InrD: "wp_of m Q E s \<Longrightarrow> m s = (Inr x, t) \<Longrightarrow> Q x t"
  and wp_InlD: "wp_of m Q E s \<Longrightarrow> m s = (Inl e, t) \<Longrightarrow> E e t"
  by (simp_all add: wp_of_def)

text \<open>What the errors a script can raise satisfy.\<close>

definition fails :: "('e \<Rightarrow> bool) \<Rightarrow> ('s, 'e, 'a) script \<Rightarrow> bool" where
  "fails F m = (\<forall>s e. fst (m s) = Inl e \<longrightarrow> F e)"

named_theorems fails_rules \<open>which errors scripts raise\<close>

lemma fails_done [fails_rules]: "fails F (done_with x)"
  and fails_raising [fails_rules]: "F e \<Longrightarrow> fails F (raising e)"
  and fails_raise_if [fails_rules]: "F e \<Longrightarrow> fails F (raise_if b e)"
  and fails_assign [fails_rules]: "fails F (assign h)"
  and fails_reading [fails_rules]: "(\<And>s. fails F (g s)) \<Longrightarrow> fails F (reading g)"
  and fails_lift_sum [fails_rules]: "(\<And>e. r = Inl e \<Longrightarrow> F e) \<Longrightarrow> fails F (lift_sum r)"
  and fails_Nil [fails_rules]: "fails F (steps [])"
  by (auto simp: fails_def done_with_def raising_def raise_if_def assign_def reading_def lift_sum_def split: sum.splits)

lemma fails_bind [fails_rules]:
  assumes "fails F m" and "\<And>x. fails F (f x)"
  shows "fails F (bind_script m f)"
proof -
  have "F e" if "fst (bind_script m f s) = Inl e" for s e
  proof -
    obtain r t where m: "m s = (r, t)" by fastforce
    show "F e"
    proof (cases r)
      case (Inl e')
      with m assms(1) that show ?thesis by (auto simp: fails_def bind_script_def dest!: spec [of _ s])
    next
      case (Inr x)
      with m assms(2) [of x] that show ?thesis by (auto simp: fails_def bind_script_def)
    qed
  qed
  then show ?thesis by (simp add: fails_def)
qed

lemma fails_Cons [fails_rules]: "fails F m \<Longrightarrow> fails F (steps ms) \<Longrightarrow> fails F (steps (m # ms))"
  by (simp add: fails_bind)

lemma fails_if [fails_rules]: "(b \<Longrightarrow> fails F m) \<Longrightarrow> (\<not> b \<Longrightarrow> fails F n) \<Longrightarrow> fails F (if b then m else n)"
  by simp

lemma wp_result: "m s = (Inr x, t) \<Longrightarrow> wp_of m Q (\<lambda>_ _. True) s \<Longrightarrow> Q x t"
  by (simp add: wp_of_def)

text \<open>What a script leaves of the state it was started in, whether it raises or not.\<close>

definition leaves :: "('s \<Rightarrow> 's \<Rightarrow> bool) \<Rightarrow> ('s, 'e, 'a) script \<Rightarrow> bool" where
  "leaves R m = (\<forall>s. R s (snd (m s)))"

locale frame =
  fixes R :: "'s \<Rightarrow> 's \<Rightarrow> bool"
  assumes frame_refl: "R s s" and frame_trans: "R s t \<Longrightarrow> R t u \<Longrightarrow> R s u"
begin

lemma leaves_done: "leaves R (done_with x)"
  and leaves_raising: "leaves R (raising e)"
  and leaves_raise_if: "leaves R (raise_if b e)"
  and leaves_lift_sum: "leaves R (lift_sum r)"
  and leaves_assign: "(\<And>s. R s (f s)) \<Longrightarrow> leaves R (assign f)"
  and leaves_reading: "(\<And>s. leaves R (g s)) \<Longrightarrow> leaves R (reading g)"
  by (auto simp: leaves_def done_with_def raising_def raise_if_def lift_sum_def assign_def reading_def frame_refl
      split: sum.splits)

lemma leaves_bind:
  assumes "leaves R m" and "\<And>x. leaves R (f x)"
  shows "leaves R (bind_script m f)"
  unfolding leaves_def
proof
  fix s
  obtain r t where m: "m s = (r, t)" by fastforce
  with assms(1) have "R s t" by (auto simp: leaves_def dest: spec [of _ s])
  moreover have "R t (snd (f x t))" for x using assms(2) by (simp add: leaves_def)
  ultimately show "R s (snd (bind_script m f s))"
    using m frame_trans by (auto simp: bind_script_def split: sum.splits)
qed

lemma leaves_Nil: "leaves R (steps [])"
  and leaves_Cons: "leaves R m \<Longrightarrow> leaves R (steps ms) \<Longrightarrow> leaves R (steps (m # ms))"
  by (simp_all add: leaves_done leaves_bind)

lemma leaves_if: "(b \<Longrightarrow> leaves R m) \<Longrightarrow> (\<not> b \<Longrightarrow> leaves R n) \<Longrightarrow> leaves R (if b then m else n)"
  by simp

lemmas leaves_rules = leaves_done leaves_raising leaves_raise_if leaves_lift_sum leaves_assign leaves_reading
  leaves_bind leaves_Nil leaves_Cons leaves_if

end

end
