(* ===== verification/Visual_Case.thy ===== *)
theory Visual_Case
  imports Visual_Contracts Script
begin

text \<open>
  The state machine of a visual diagnosis case, app/services/visual_diagnosis_state.py. A handler is a
  script over the machine: what it assigned before it raised is undone by \<open>restore\<close>, as in \<open>apply\<close>. The
  machine is called with an event and answers with a decision; the model also says when answering raises.
\<close>

section \<open>The machine\<close>

record machine =
  vm_case :: "string option"
  vm_contractor :: "string option"
  vm_call :: "string option"
  vm_scenario :: string
  vm_revision :: int
  vm_state :: state_vector
  vm_pending :: "customer_action option"
  vm_resolved :: "customer_action list"
  vm_questions :: nat
  vm_plates :: nat
  vm_recaptures :: nat
  vm_assets :: "(string \<times> media_asset) list"
  vm_artifact :: "artifact_ref option"
  vm_candidates :: "artifact_ref option"
  vm_policies :: "string list"
  vm_ordinary :: "receipt list"
  vm_control :: "receipt list"
  vm_ledger :: "string \<rightharpoonup> receipt"
  vm_retries :: int
  vm_created :: "pytime option"
  vm_expires :: "pytime option"
  vm_completed :: "pytime option"
  vm_deleted :: "pytime option"
  vm_deletion_requested :: "pytime option"
  vm_analysis_retries :: int
  vm_policy_receipt :: "string option"

definition new_machine :: machine where
  "new_machine = \<lparr>vm_case = None, vm_contractor = None, vm_call = None,
     vm_scenario = ''hvac.not_cooling_with_outdoor_unit_noise'', vm_revision = 0, vm_state = initial_vector,
     vm_pending = None, vm_resolved = [], vm_questions = 0, vm_plates = 0, vm_recaptures = 0, vm_assets = [],
     vm_artifact = None, vm_candidates = None, vm_policies = [], vm_ordinary = [], vm_control = [],
     vm_ledger = Map.empty, vm_retries = 0, vm_created = None, vm_expires = None, vm_completed = None,
     vm_deleted = None, vm_deletion_requested = None, vm_analysis_retries = 0, vm_policy_receipt = None\<rparr>"

definition snapshot :: "machine \<Rightarrow> triage_case option res" where
  "snapshot m = (case (vm_case m, vm_contractor m) of
       (Some c, Some r) \<Rightarrow> ebind (make_case
         \<lparr>tc_case = c, tc_contractor = r, tc_call = vm_call m, tc_scenario = vm_scenario m,
          tc_revision = vm_revision m, tc_state = vm_state m, tc_pending = vm_pending m,
          tc_resolved = vm_resolved m, tc_questions = vm_questions m, tc_plates = vm_plates m,
          tc_recaptures = vm_recaptures m, tc_assets = map snd (vm_assets m), tc_artifact = vm_artifact m,
          tc_candidates = vm_candidates m, tc_policies = vm_policies m, tc_external = [],
          tc_ordinary = vm_ordinary m, tc_control = vm_control m, tc_retries = vm_retries m,
          tc_created = vm_created m, tc_expires = vm_expires m, tc_completed = vm_completed m,
          tc_deleted = vm_deleted m\<rparr>) (\<lambda>x. Inr (Some x))
     | _ \<Rightarrow> Inr None)"

section \<open>What the handlers share\<close>

text \<open>\<open>TransitionRejected\<close>, a \<open>KeyError\<close>, and a \<open>TypeError\<close> or \<open>ValueError\<close>.\<close>

datatype failure = Rejected string | Key_Error | Struct_Error

type_synonym 'a act = "(machine, failure, 'a) script"

definition CONTROL_TERMINALS :: "event_kind list" where
  "CONTROL_TERMINALS = [CONSENT_DECLINED, CONSENT_WITHDRAWN, CASE_CLOSED, CASE_CANCELLED, CASE_EXPIRED]"

definition DELETION_KINDS :: "event_kind list" where
  "DELETION_KINDS = [DELETION_REQUESTED, DELETION_RETRY_RECORDED, DELETION_VERIFIED]"

definition CONTROL_KINDS :: "event_kind list" where
  "CONTROL_KINDS = CONTROL_TERMINALS @ DELETION_KINDS"

definition MEDIA_ACTION_KINDS :: "action_kind list" where
  "MEDIA_ACTION_KINDS = [Kind_RATING_PLATE, Kind_TARGETED_RECAPTURE]"

definition TERMINAL_CASES :: "case_status list" where
  "TERMINAL_CASES = [Case_CLOSED, Case_CANCELLED, Case_EXPIRED]"

definition reject :: "bool \<Rightarrow> string \<Rightarrow> unit act" where
  "reject b c = raise_if b (Rejected c)"

definition value_of :: "(string \<times> pyval) list \<Rightarrow> string \<Rightarrow> failure + pyval" where
  "value_of payload key = (case map_of payload key of None \<Rightarrow> Inl (Rejected ''missing_payload'') | Some v \<Rightarrow> Inr v)"

definition text_of :: "(string \<times> pyval) list \<Rightarrow> string \<Rightarrow> failure + string" where
  "text_of payload key = (case value_of payload key of Inl e \<Rightarrow> Inl e | Inr v \<Rightarrow>
     (case v of PStr s \<Rightarrow> if s = [] then Inl (Rejected ''invalid_payload_code'') else Inr s
      | _ \<Rightarrow> Inl (Rejected ''invalid_payload_code'')))"

definition member_of :: "('e \<Rightarrow> string) \<Rightarrow> 'e list \<Rightarrow> (string \<times> pyval) list \<Rightarrow> string \<Rightarrow> failure + 'e" where
  "member_of name members payload key = (case text_of payload key of Inl e \<Rightarrow> Inl e | Inr s \<Rightarrow>
     (case enum_of name members (PStr s) of Inl _ \<Rightarrow> Inl (Rejected ''invalid_payload_code'') | Inr x \<Rightarrow> Inr x))"

definition get_or :: "(string \<times> pyval) list \<Rightarrow> string \<Rightarrow> pyval \<Rightarrow> pyval" where
  "get_or payload key v0 = (case map_of payload key of None \<Rightarrow> v0 | Some v \<Rightarrow> v)"

definition with_text :: "checked_event \<Rightarrow> string \<Rightarrow> (string \<Rightarrow> 'a act) \<Rightarrow> 'a act" where
  "with_text e key f = bind_script (lift_sum (text_of (ck_payload e) key)) f"

definition with_member :: "('e \<Rightarrow> string) \<Rightarrow> 'e list \<Rightarrow> checked_event \<Rightarrow> string \<Rightarrow> ('e \<Rightarrow> 'a act) \<Rightarrow> 'a act" where
  "with_member name members e key f = bind_script (lift_sum (member_of name members (ck_payload e) key)) f"

text \<open>The construction of a model, whose \<open>ValueError\<close> is not a rejection.\<close>

definition constructing :: "'a res \<Rightarrow> failure + 'a" where
  "constructing r = (case r of Inl _ \<Rightarrow> Inl Struct_Error | Inr x \<Rightarrow> Inr x)"

definition require_case :: "unit act" where
  "require_case = reading (\<lambda>m. reject (vm_case m = None) ''aggregate_not_found'')"

definition require_not_deleting :: "unit act" where
  "require_not_deleting = reading (\<lambda>m. reject (sv_deletion (vm_state m) \<noteq> Deletion_NOT_REQUESTED) ''deletion_precedence'')"

definition require_active :: "unit act" where
  "require_active = reading (\<lambda>m. reject (sv_case (vm_state m) \<noteq> Case_ACTIVE) ''case_not_active'')"

definition require_no_pending :: "unit act" where
  "require_no_pending = reading (\<lambda>m. reject (vm_pending m \<noteq> None) ''customer_action_pending'')"

definition with_state :: "(state_vector \<Rightarrow> state_vector) \<Rightarrow> unit act" where
  "with_state f = assign (\<lambda>m. m\<lparr>vm_state := f (vm_state m)\<rparr>)"

text \<open>Comparing with a creation time that is \<open>None\<close> is a \<open>TypeError\<close>.\<close>

definition not_before_creation :: "checked_event \<Rightarrow> string \<Rightarrow> unit act" where
  "not_before_creation e c = reading (\<lambda>m. case vm_created m of None \<Rightarrow> raising Struct_Error
     | Some t \<Rightarrow> reject (t_at (ck_time e) < t_at t) c)"

definition predates_resolution :: "checked_event \<Rightarrow> machine \<Rightarrow> bool" where
  "predates_resolution e m = list_ex (\<lambda>a. case ac_resolved a of None \<Rightarrow> False
     | Some t \<Rightarrow> t_at (ck_time e) < t_at t) (vm_resolved m)"

definition reject_if_predates :: "checked_event \<Rightarrow> unit act" where
  "reject_if_predates e = steps
     [reading (\<lambda>m. reject (case vm_pending m of None \<Rightarrow> False | Some p \<Rightarrow> t_at (ck_time e) < t_at (ac_issued p))
        ''terminal_event_predates_case''),
      reading (\<lambda>m. reject (predates_resolution e m) ''terminal_event_predates_case'')]"

definition expired :: "checked_event \<Rightarrow> customer_action \<Rightarrow> bool" where
  "expired e p = (case ac_expires p of None \<Rightarrow> False | Some t \<Rightarrow> t_at t \<le> t_at (ck_time e))"

definition has_validated_role :: "media_role \<Rightarrow> machine \<Rightarrow> bool" where
  "has_validated_role r m = list_ex (\<lambda>a. ma_role a = r \<and> ma_validation a = Validation_VALIDATED) (map snd (vm_assets m))"

definition has_symptom_evidence :: "machine \<Rightarrow> bool" where
  "has_symptom_evidence m = (has_validated_role Role_SYMPTOM_VIDEO m \<or> has_validated_role Role_TARGETED_RECAPTURE m)"

text \<open>The record \<open>resolved\<close> is kept, the last four at most.\<close>

definition resolve_pending :: "customer_action \<Rightarrow> unit act" where
  "resolve_pending a = assign (\<lambda>m. m\<lparr>vm_resolved := (let rs = vm_resolved m @ [a] in drop (length rs - 4) rs),
     vm_pending := None\<rparr>)"

definition put_asset :: "string \<Rightarrow> media_asset \<Rightarrow> unit act" where
  "put_asset k a = assign (\<lambda>m. m\<lparr>vm_assets := AList.update k a (vm_assets m)\<rparr>)"

definition completed :: "string \<Rightarrow> unit act list \<Rightarrow> string act" where
  "completed c ms = bind_script (steps ms) (\<lambda>_. done_with c)"

section \<open>The handlers\<close>

definition parse_expiry :: "platform \<Rightarrow> pyval \<Rightarrow> pytime \<Rightarrow> failure + pytime option" where
  "parse_expiry P v tm = (case v of PNone \<Rightarrow> Inr None
     | PStr s \<Rightarrow>
        (case iso P (concat (map (\<lambda>c. if c = CHR ''Z'' then ''+00:00'' else [c]) s)) of
           None \<Rightarrow> Inl (Rejected ''invalid_action_expiry'')
         | Some t \<Rightarrow> if \<not> t_aware t \<or> t_at t \<le> t_at tm then Inl (Rejected ''invalid_action_expiry'') else Inr (Some t))
     | _ \<Rightarrow> Inl (Rejected ''invalid_action_expiry''))"

definition options_of :: "(string \<times> pyval) list \<Rightarrow> failure + pyval list" where
  "options_of payload = (case map_of payload ''response_option_codes'' of None \<Rightarrow> Inr []
     | Some (PList vs) \<Rightarrow> Inr vs | Some _ \<Rightarrow> Inl (Rejected ''invalid_payload_code''))"

definition action_from_payload :: "platform \<Rightarrow> checked_event \<Rightarrow> action_kind \<Rightarrow> customer_action act" where
  "action_from_payload P e kind = bind_script (steps
       [not_before_creation e ''action_issued_before_case_created'',
        reading (\<lambda>m. reject (predates_resolution e m) ''action_issued_before_case_created'')]) (\<lambda>_.
     bind_script (lift_sum (options_of (ck_payload e))) (\<lambda>options.
     with_text e ''request_id'' (\<lambda>request.
     with_text e ''budget_bucket'' (\<lambda>bucket.
     bind_script (lift_sum (parse_expiry P (get_or (ck_payload e) ''expires_at'' PNone) (ck_time e))) (\<lambda>expires.
     lift_sum (constructing (make_customer_action request kind bucket (get_or (ck_payload e) ''copy_ref'' PNone) options
       (get_or (ck_payload e) ''locale'' (PStr ''und'')) (get_or (ck_payload e) ''optionality'' (PStr ''optional''))
       (get_or (ck_payload e) ''safe_refusal_code'' PNone) (get_or (ck_payload e) ''decision_ref'' PNone)
       (get_or (ck_payload e) ''evidence_ref'' PNone) (ck_time e) expires)))))))"

text \<open>The \<open>scenario\<close> and the \<open>source_ref\<close> of a new case.\<close>

definition case_fields :: "string \<Rightarrow> (string \<times> pyval) list \<Rightarrow> failure + string \<times> string option" where
  "case_fields dflt payload =
     (if \<not> set (map fst payload) \<subseteq> {''scenario'', ''source_ref''} then Inl (Rejected ''invalid_case_payload'')
      else case get_or payload ''scenario'' (PStr dflt) of
        PStr s \<Rightarrow>
          (if s = [] \<or> CHR ''.'' \<notin> set s \<or> \<not> code (dots_to_colons s) then Inl (Rejected ''invalid_case_payload'')
           else case get_or payload ''source_ref'' PNone of PNone \<Rightarrow> Inr (s, None)
             | PStr r \<Rightarrow> if opaque_ref r then Inr (s, Some r) else Inl (Rejected ''invalid_case_payload'')
             | _ \<Rightarrow> Inl (Rejected ''invalid_case_payload''))
      | _ \<Rightarrow> Inl (Rejected ''invalid_case_payload''))"

definition case_created :: "checked_event \<Rightarrow> string act" where
  "case_created e = completed ''case_created''
     [reading (\<lambda>m. reject (vm_case m \<noteq> None) ''case_already_exists''),
      reading (\<lambda>m. bind_script (lift_sum (case_fields (vm_scenario m) (ck_payload e))) (\<lambda>(scenario, source_ref).
        assign (\<lambda>m. m\<lparr>vm_case := Some (ck_case e), vm_contractor := Some (ck_contractor e), vm_call := source_ref,
          vm_scenario := scenario, vm_created := Some (ck_time e)\<rparr>)))]"

definition consent_requested :: "checked_event \<Rightarrow> string act" where
  "consent_requested e = completed ''consent_requested''
     [require_case, require_not_deleting,
      reading (\<lambda>m. reject (sv_case (vm_state m) \<noteq> Case_CREATED \<or> sv_consent (vm_state m) \<noteq> Consent_NOT_REQUESTED)
        ''consent_request_not_allowed''),
      require_no_pending, with_state (\<lambda>s. s\<lparr>sv_consent := Consent_AWAITING_DECISION\<rparr>)]"

definition consent_granted :: "checked_event \<Rightarrow> string act" where
  "consent_granted e = completed ''consent_granted''
     [require_case, require_not_deleting,
      reading (\<lambda>m. reject (sv_case (vm_state m) \<noteq> Case_CREATED \<or> sv_consent (vm_state m) \<noteq> Consent_AWAITING_DECISION)
        ''consent_grant_not_allowed''),
      with_state (\<lambda>s. s\<lparr>sv_case := Case_ACTIVE, sv_consent := Consent_GRANTED, sv_media := Media_AWAITING_REQUIRED\<rparr>)]"

definition consent_declined :: "checked_event \<Rightarrow> string act" where
  "consent_declined e = completed ''consent_declined''
     [require_case, require_not_deleting,
      reading (\<lambda>m. reject (sv_case (vm_state m) \<noteq> Case_CREATED \<or> sv_consent (vm_state m) \<noteq> Consent_AWAITING_DECISION)
        ''consent_decline_not_allowed''),
      not_before_creation e ''terminal_event_predates_case'',
      with_state (\<lambda>s. s\<lparr>sv_case := Case_CANCELLED, sv_consent := Consent_DECLINED\<rparr>),
      assign (\<lambda>m. m\<lparr>vm_pending := None, vm_completed := Some (ck_time e)\<rparr>)]"

text \<open>\<open>_finalized_media_after_termination\<close>: the media status is returned, the assets are assigned.\<close>

definition finalized_media :: "media_status act" where
  "finalized_media = reading (\<lambda>m.
     if sv_media (vm_state m) \<in> {Media_UPLOAD_PENDING, Media_UPLOADED_QUARANTINED}
     then bind_script (assign (\<lambda>m. m\<lparr>vm_assets := map (\<lambda>(k, a). (k,
         if ma_validation a = Validation_PENDING then a\<lparr>ma_validation := Validation_UNAVAILABLE\<rparr> else a)) (vm_assets m)\<rparr>))
       (\<lambda>_. reading (\<lambda>m. done_with (if has_symptom_evidence m then Media_VALIDATED else Media_UNAVAILABLE)))
     else done_with (sv_media (vm_state m)))"

definition consent_withdrawn :: "checked_event \<Rightarrow> string act" where
  "consent_withdrawn e = completed ''consent_withdrawn''
     [require_case, require_not_deleting,
      reading (\<lambda>m. reject (sv_case (vm_state m) \<noteq> Case_ACTIVE \<or> sv_consent (vm_state m) \<noteq> Consent_GRANTED)
        ''consent_withdrawal_not_allowed''),
      not_before_creation e ''terminal_event_predates_case'', reject_if_predates e,
      assign (\<lambda>m. m\<lparr>vm_pending := None\<rparr>),
      bind_script finalized_media (\<lambda>media. with_state (\<lambda>s. s\<lparr>sv_case := Case_CANCELLED,
        sv_consent := Consent_WITHDRAWN, sv_media := media\<rparr>)),
      assign (\<lambda>m. m\<lparr>vm_completed := Some (ck_time e)\<rparr>)]"

text \<open>No output has been prepared yet.\<close>

definition require_no_output :: "unit act" where
  "require_no_output = reading (\<lambda>m. reject (sv_packet (vm_state m) \<noteq> Packet_NOT_READY \<or>
     sv_delivery (vm_state m) \<noteq> Delivery_NOT_EVALUATED) ''output_already_prepared'')"

definition issue :: "platform \<Rightarrow> checked_event \<Rightarrow> action_kind \<Rightarrow> unit act" where
  "issue P e kind = steps
     [bind_script (action_from_payload P e kind) (\<lambda>a. assign (\<lambda>m. m\<lparr>vm_pending := Some a\<rparr>)),
      with_state (\<lambda>s. s\<lparr>sv_analysis := Analysis_AWAITING_CUSTOMER_ACTION\<rparr>)]"

definition finished_analysis :: "machine \<Rightarrow> bool" where
  "finished_analysis m = (sv_analysis (vm_state m) \<in> {Analysis_COMPLETE, Analysis_ABSTAINED})"

definition issue_media_action :: "platform \<Rightarrow> checked_event \<Rightarrow> action_kind \<Rightarrow> unit act" where
  "issue_media_action P e kind = steps
     [reject (kind \<notin> set MEDIA_ACTION_KINDS) ''invalid_media_action_kind'',
      with_text e ''receipt_ref'' (\<lambda>r. reject (r \<noteq> ck_id e) ''action_receipt_binding_mismatch''),
      with_text e ''budget_bucket'' (\<lambda>b. reject (b \<noteq> (if kind = Kind_RATING_PLATE then ''rating_plate'' else ''recapture''))
        ''action_budget_binding_mismatch''),
      reading (\<lambda>m.
        if kind = Kind_RATING_PLATE
        then reject (1 \<le> vm_plates m \<or> sv_media (vm_state m) \<noteq> Media_VALIDATED \<or> \<not> finished_analysis m \<or>
               \<not> has_validated_role Role_SYMPTOM_VIDEO m) ''rating_plate_budget_exhausted''
        else reject (1 \<le> vm_recaptures m \<or> sv_media (vm_state m) \<noteq> Media_REJECTED) ''recapture_not_reachable''),
      require_no_output,
      assign (\<lambda>m. if kind = Kind_RATING_PLATE then m\<lparr>vm_plates := vm_plates m + 1\<rparr>
                  else m\<lparr>vm_recaptures := vm_recaptures m + 1\<rparr>),
      issue P e kind]"

definition media_action_issued :: "platform \<Rightarrow> checked_event \<Rightarrow> string act" where
  "media_action_issued P e = completed ''media_action_issued''
     [require_case, require_not_deleting, require_active, require_no_pending,
      with_member action_kind_value action_kinds e ''action_kind'' (issue_media_action P e)]"

definition QUESTION_CLOSERS :: "action_status list" where
  "QUESTION_CLOSERS = [Status_DECLINED, Status_CANNOT_SAFELY_COMPLETE, Status_EXPIRED, Status_CANCELLED]"

definition diagnostic_question_issued :: "platform \<Rightarrow> checked_event \<Rightarrow> string act" where
  "diagnostic_question_issued P e = completed ''diagnostic_question_issued''
     [require_case, require_not_deleting, require_active, require_no_pending,
      reading (\<lambda>m. reject (\<not> finished_analysis m) ''analysis_not_question_ready''),
      require_no_output,
      reading (\<lambda>m. reject (list_ex (\<lambda>a. ac_kind a = Kind_DIAGNOSTIC_QUESTION \<and> ac_status a \<in> set QUESTION_CLOSERS)
        (vm_resolved m)) ''question_prompt_closed''),
      with_member action_kind_value action_kinds e ''action_kind'' (\<lambda>k. reject (k \<noteq> Kind_DIAGNOSTIC_QUESTION)
        ''invalid_question_action_kind''),
      with_text e ''budget_bucket'' (\<lambda>b. reject (b \<noteq> ''question'') ''action_budget_binding_mismatch''),
      with_text e ''receipt_ref'' (\<lambda>r. reject (r \<noteq> ck_id e) ''action_receipt_binding_mismatch''),
      with_text e ''copy_ref'' (\<lambda>_. done_with ()),
      (case get_or (ck_payload e) ''response_option_codes'' PNone of PList (_ # _) \<Rightarrow> done_with ()
       | _ \<Rightarrow> reject True ''question_options_required''),
      with_text e ''request_id'' (\<lambda>request. with_text e ''copy_ref'' (\<lambda>copy.
        reading (\<lambda>m. reject (list_ex (\<lambda>a. ac_request a = request \<or> ac_copy a = Some copy) (vm_resolved m))
          ''question_identity_reused''))),
      reading (\<lambda>m. reject (2 \<le> vm_questions m) ''question_budget_exhausted''),
      assign (\<lambda>m. m\<lparr>vm_questions := vm_questions m + 1\<rparr>),
      issue P e Kind_DIAGNOSTIC_QUESTION]"

definition QUESTION_OUTCOMES :: "action_status list" where
  "QUESTION_OUTCOMES = [Status_ANSWERED, Status_NOT_SURE, Status_DECLINED, Status_CANNOT_SAFELY_COMPLETE,
     Status_EXPIRED, Status_CANCELLED]"

definition resolve_question :: "checked_event \<Rightarrow> customer_action \<Rightarrow> unit act" where
  "resolve_question e p = steps
     [with_text e ''request_id'' (\<lambda>r. reject (r \<noteq> ac_request p) ''action_binding_mismatch''),
      with_member action_kind_value action_kinds e ''action_kind'' (\<lambda>k. reject (k \<noteq> Kind_DIAGNOSTIC_QUESTION)
        ''action_binding_mismatch''),
      with_text e ''locale'' (\<lambda>l. reject (l \<noteq> ac_locale p) ''action_binding_mismatch''),
      with_member action_status_value action_statuses e ''status'' (\<lambda>status.
        let answer = get_or (ck_payload e) ''response_option_code'' PNone in steps
        [reject (status \<notin> set QUESTION_OUTCOMES) ''invalid_question_resolution'',
         reject (if status = Status_ANSWERED then answer \<notin> PStr ` set (ac_options p) else answer \<noteq> PNone)
           ''response_binding_mismatch'',
         reject (t_at (ck_time e) < t_at (ac_issued p)) ''action_resolved_before_issuance'',
         (if status \<in> {Status_EXPIRED, Status_CANCELLED}
          then steps [reject (ac_status p \<noteq> Status_ISSUED) ''action_not_expirable'',
                      reject (status = Status_EXPIRED \<and> \<not> expired e p) ''action_not_expired'']
          else reject (expired e p) ''action_expired''),
         resolve_pending (p\<lparr>ac_status := status, ac_resolved := Some (ck_time e),
           ac_option := (case answer of PStr s \<Rightarrow> Some s | _ \<Rightarrow> None)\<rparr>),
         reading (\<lambda>m. with_state (\<lambda>s. s\<lparr>sv_analysis :=
           if status \<in> {Status_ANSWERED, Status_NOT_SURE} \<and> has_symptom_evidence m then Analysis_READY
           else Analysis_ABSTAINED\<rparr>))])]"

definition customer_action_resolved :: "checked_event \<Rightarrow> string act" where
  "customer_action_resolved e = completed ''customer_action_resolved''
     [require_case, require_not_deleting, require_active,
      reading (\<lambda>m. case vm_pending m of None \<Rightarrow> reject True ''no_matching_question''
        | Some p \<Rightarrow> if ac_kind p \<noteq> Kind_DIAGNOSTIC_QUESTION then reject True ''no_matching_question''
                    else resolve_question e p)]"

definition media_type_ok :: "string \<Rightarrow> bool" where
  "media_type_ok s = matches (\<lambda>c. lower c \<or> digit c) (\<lambda>c. lower c \<or> digit c \<or> c \<in> set ''+./-'') 32
     (concat (map casefold_char s))"

definition asset_from_payload :: "checked_event \<Rightarrow> media_role \<Rightarrow> media_asset act" where
  "asset_from_payload e role = with_text e ''media_type'' (\<lambda>media_type.
     bind_script (reject (\<not> media_type_ok media_type) ''invalid_media_type'') (\<lambda>_.
     with_text e ''asset_id'' (\<lambda>asset_id. with_text e ''digest'' (\<lambda>digest.
     lift_sum (constructing (make_asset asset_id role media_type (get_or (ck_payload e) ''byte_size'' (PInt 0))
       (get_or (ck_payload e) ''duration_ms'' PNone) (get_or (ck_payload e) ''width'' PNone)
       (get_or (ck_payload e) ''height'' PNone) digest))))))"

definition role_for_action :: "action_kind \<Rightarrow> failure + media_role" where
  "role_for_action k = (case k of Kind_RATING_PLATE \<Rightarrow> Inr Role_RATING_PLATE
     | Kind_TARGETED_RECAPTURE \<Rightarrow> Inr Role_TARGETED_RECAPTURE | Kind_DIAGNOSTIC_QUESTION \<Rightarrow> Inl Key_Error)"

definition upload_role :: "checked_event \<Rightarrow> media_role act" where
  "upload_role e = reading (\<lambda>m. case vm_pending m of
       None \<Rightarrow> bind_script (reject (sv_media (vm_state m) \<noteq> Media_AWAITING_REQUIRED) ''initial_upload_not_allowed'')
                 (\<lambda>_. done_with Role_SYMPTOM_VIDEO)
     | Some p \<Rightarrow> bind_script (steps
           [reject (ac_kind p \<notin> set MEDIA_ACTION_KINDS \<or> ac_status p \<noteq> Status_ISSUED) ''upload_not_allowed'',
            reject (t_at (ck_time e) < t_at (ac_issued p)) ''action_resolved_before_issuance'',
            reject (expired e p) ''action_expired'']) (\<lambda>_. lift_sum (role_for_action (ac_kind p))))"

definition set_pending_status :: "action_status \<Rightarrow> unit act" where
  "set_pending_status st = assign (\<lambda>m. m\<lparr>vm_pending := map_option (\<lambda>p. p\<lparr>ac_status := st\<rparr>) (vm_pending m)\<rparr>)"

definition upload_started :: "checked_event \<Rightarrow> string act" where
  "upload_started e = completed ''upload_started''
     [require_case, require_not_deleting, require_active,
      with_text e ''asset_id'' (\<lambda>asset_id. steps
       [reading (\<lambda>m. reject (asset_id \<in> fst ` set (vm_assets m)) ''duplicate_upload''),
        bind_script (upload_role e) (\<lambda>role. bind_script (asset_from_payload e role) (put_asset asset_id)),
        set_pending_status Status_UPLOADING,
        with_state (\<lambda>s. s\<lparr>sv_media := Media_UPLOAD_PENDING\<rparr>)])]"

definition with_asset :: "checked_event \<Rightarrow> (media_asset \<Rightarrow> 'a act) \<Rightarrow> 'a act" where
  "with_asset e f = with_text e ''asset_id'' (\<lambda>k. reading (\<lambda>m. case map_of (vm_assets m) k of
     None \<Rightarrow> raising (Rejected ''asset_binding_mismatch'') | Some a \<Rightarrow> f a))"

definition upload_finalized :: "checked_event \<Rightarrow> string act" where
  "upload_finalized e = completed ''upload_finalized''
     [require_case, require_not_deleting, require_active,
      with_asset e (\<lambda>asset. steps
       [reading (\<lambda>m. reject (sv_media (vm_state m) \<noteq> Media_UPLOAD_PENDING) ''upload_not_pending''),
        reading (\<lambda>m. case vm_pending m of None \<Rightarrow> done_with ()
          | Some p \<Rightarrow> steps
              [reject (ac_status p \<noteq> Status_UPLOADING) ''upload_not_pending'',
               bind_script (lift_sum (role_for_action (ac_kind p))) (\<lambda>role. reject (ma_role asset \<noteq> role)
                 ''action_binding_mismatch''),
               reject (t_at (ck_time e) < t_at (ac_issued p)) ''action_resolved_before_issuance'',
               reject (expired e p) ''action_expired'',
               set_pending_status Status_SUBMITTED]),
        with_state (\<lambda>s. s\<lparr>sv_media := Media_UPLOADED_QUARANTINED\<rparr>)])]"

text \<open>The status the validation of an asset gives; the dictionary has no entry for a pending one, which is rejected before.\<close>

fun media_after :: "media_validation \<Rightarrow> media_status" where
  "media_after Validation_VALIDATED = Media_VALIDATED"
| "media_after Validation_REJECTED = Media_REJECTED"
| "media_after Validation_UNAVAILABLE = Media_UNAVAILABLE"
| "media_after Validation_PENDING = Media_UPLOADED_QUARANTINED"

definition media_validated :: "checked_event \<Rightarrow> string act" where
  "media_validated e = completed ''media_validated''
     [require_case, require_not_deleting, require_active,
      with_asset e (\<lambda>asset. steps
       [reading (\<lambda>m. reject (sv_media (vm_state m) \<noteq> Media_UPLOADED_QUARANTINED) ''media_not_quarantined''),
        reject (ma_validation asset \<noteq> Validation_PENDING) ''asset_not_pending_validation'',
        with_member validation_value validations e ''validation'' (\<lambda>validation. steps
         [reject (validation = Validation_PENDING) ''validation_not_final'',
          reading (\<lambda>m. reject (case vm_pending m of None \<Rightarrow> False | Some p \<Rightarrow> expired e p) ''action_expired''),
          put_asset (ma_id asset) (asset\<lparr>ma_validation := validation\<rparr>),
          reading (\<lambda>m. with_state (\<lambda>s. s\<lparr>
            sv_media := if ma_role asset \<noteq> Role_SYMPTOM_VIDEO \<and> has_symptom_evidence m then Media_VALIDATED
                        else media_after validation,
            sv_analysis := if vm_pending m \<noteq> None then Analysis_AWAITING_CUSTOMER_ACTION
                           else if validation = Validation_VALIDATED then Analysis_READY
                           else Analysis_ABSTAINED\<rparr>))])])]"

definition MEDIA_OUTCOMES :: "action_status list" where
  "MEDIA_OUTCOMES = [Status_FULFILLED, Status_UNAVAILABLE, Status_DECLINED, Status_CANNOT_SAFELY_COMPLETE,
     Status_EXPIRED, Status_CANCELLED]"

definition ABORTED :: "action_status list" where
  "ABORTED = [Status_EXPIRED, Status_CANCELLED]"

text \<open>The asset of the resolved action, by the status of the action and of the resolution.\<close>

definition settle_asset :: "checked_event \<Rightarrow> customer_action \<Rightarrow> media_role \<Rightarrow> action_status \<Rightarrow> unit act" where
  "settle_asset e p role status =
     (if status = Status_FULFILLED then steps
        [reject (ac_status p \<noteq> Status_SUBMITTED) ''media_action_not_submitted'',
         with_asset e (\<lambda>asset. with_member validation_value validations e ''validation'' (\<lambda>validation. steps
          [reject (validation \<noteq> Validation_VALIDATED) ''media_fulfillment_binding_mismatch'',
           reject (ma_role asset \<noteq> role \<or> ma_validation asset \<noteq> validation) ''media_fulfillment_binding_mismatch'']))]
      else if ac_status p = Status_ISSUED then done_with ()
      else if ac_status p = Status_SUBMITTED then with_asset e (\<lambda>asset. steps
        [reject (ma_role asset \<noteq> role) ''media_resolution_binding_mismatch'',
         if status \<in> set ABORTED \<and> ma_validation asset = Validation_PENDING
         then put_asset (ma_id asset) (asset\<lparr>ma_validation := Validation_UNAVAILABLE\<rparr>)
         else with_member validation_value validations e ''validation'' (\<lambda>validation.
           reject (validation = Validation_PENDING \<or> ma_validation asset \<noteq> validation)
             ''media_resolution_binding_mismatch'')])
      else if status \<in> set ABORTED \<and> ac_status p = Status_UPLOADING then with_asset e (\<lambda>asset. steps
        [reject (ma_role asset \<noteq> role) ''media_resolution_binding_mismatch'',
         put_asset (ma_id asset) (asset\<lparr>ma_validation := Validation_UNAVAILABLE\<rparr>)])
      else reject True ''media_action_not_resolvable'')"

definition resolved_media :: "action_status \<Rightarrow> bool \<Rightarrow> media_status \<Rightarrow> media_status" where
  "resolved_media status evidence media =
     (if status \<in> set ABORTED \<and> media \<in> {Media_UPLOAD_PENDING, Media_UPLOADED_QUARANTINED}
      then (if evidence then Media_VALIDATED else Media_REJECTED) else media)"

definition resolved_analysis :: "action_status \<Rightarrow> bool \<Rightarrow> analysis_status" where
  "resolved_analysis status evidence =
     (if status = Status_FULFILLED \<or> (status \<in> {Status_DECLINED, Status_CANNOT_SAFELY_COMPLETE,
        Status_UNAVAILABLE, Status_EXPIRED, Status_CANCELLED} \<and> evidence)
      then Analysis_READY else Analysis_ABSTAINED)"

definition resolve_media_action :: "checked_event \<Rightarrow> customer_action \<Rightarrow> media_role \<Rightarrow> action_status \<Rightarrow> unit act" where
  "resolve_media_action e p role status = steps
     [reject (status \<notin> set MEDIA_OUTCOMES) ''invalid_media_resolution'',
      reject (t_at (ck_time e) < t_at (ac_issued p)) ''action_resolved_before_issuance'',
      (if status = Status_EXPIRED then reject (\<not> expired e p) ''action_not_expired''
       else reject (status \<noteq> Status_CANCELLED \<and> expired e p) ''action_expired''),
      reject (status \<in> set ABORTED \<and> ac_status p \<notin> {Status_ISSUED, Status_UPLOADING, Status_SUBMITTED})
        ''action_not_resolvable'',
      settle_asset e p role status,
      resolve_pending (p\<lparr>ac_status := status, ac_resolved := Some (ck_time e)\<rparr>),
      reading (\<lambda>m. with_state (\<lambda>s. s\<lparr>sv_media := resolved_media status (has_symptom_evidence m) (sv_media s),
        sv_analysis := resolved_analysis status (has_symptom_evidence m)\<rparr>))]"

definition media_action_resolved :: "checked_event \<Rightarrow> string act" where
  "media_action_resolved e = completed ''media_action_resolved''
     [require_case, require_not_deleting, require_active,
      reading (\<lambda>m. case vm_pending m of None \<Rightarrow> reject True ''no_matching_media_action''
        | Some p \<Rightarrow> if ac_kind p \<notin> set MEDIA_ACTION_KINDS then reject True ''no_matching_media_action'' else steps
          [with_text e ''request_id'' (\<lambda>r. reject (r \<noteq> ac_request p) ''action_binding_mismatch''),
           with_member action_kind_value action_kinds e ''action_kind'' (\<lambda>k. reject (k \<noteq> ac_kind p) ''action_binding_mismatch''),
           bind_script (lift_sum (role_for_action (ac_kind p))) (\<lambda>role. steps
            [with_member media_role_value media_roles e ''media_role'' (\<lambda>r. reject (r \<noteq> role) ''action_binding_mismatch''),
             with_member action_status_value action_statuses e ''status'' (resolve_media_action e p role)])])]"

definition analysis_started :: "checked_event \<Rightarrow> string act" where
  "analysis_started e = completed ''analysis_started''
     [require_case, require_not_deleting, require_active, require_no_pending,
      reading (\<lambda>m. reject (sv_analysis (vm_state m) \<noteq> Analysis_READY \<or> sv_media (vm_state m) \<noteq> Media_VALIDATED \<or>
        \<not> has_symptom_evidence m) ''analysis_not_ready''),
      with_state (\<lambda>s. s\<lparr>sv_analysis := Analysis_PROCESSING\<rparr>)]"

text \<open>A retry's attempt: an \<open>int\<close> that equals the event's own attempt and is the next one, up to three.\<close>

definition next_attempt :: "checked_event \<Rightarrow> int \<Rightarrow> pyval \<Rightarrow> int option" where
  "next_attempt e count v = (case v of
     PInt i \<Rightarrow> if ck_attempt e = PInt i \<and> i = count + 1 \<and> i \<le> 3 then Some i else None | _ \<Rightarrow> None)"

definition record_attempt :: "checked_event \<Rightarrow> int \<Rightarrow> string \<Rightarrow> (int \<Rightarrow> unit act) \<Rightarrow> unit act" where
  "record_attempt e count c f = bind_script (lift_sum (value_of (ck_payload e) ''attempt'')) (\<lambda>v.
     case next_attempt e count v of None \<Rightarrow> reject True c | Some i \<Rightarrow> f i)"

definition analysis_retry_recorded :: "checked_event \<Rightarrow> string act" where
  "analysis_retry_recorded e = completed ''analysis_retry_recorded''
     [require_case, require_not_deleting, require_active,
      reading (\<lambda>m. reject (sv_analysis (vm_state m) \<noteq> Analysis_FAILED_RETRIABLE) ''analysis_retry_not_allowed''),
      reject (ck_stage e \<noteq> PStr ''analysis'') ''retry_stage_invalid'',
      reading (\<lambda>m. record_attempt e (vm_analysis_retries m) ''retry_attempt_invalid''
        (\<lambda>i. assign (\<lambda>m. m\<lparr>vm_analysis_retries := i\<rparr>))),
      with_state (\<lambda>s. s\<lparr>sv_analysis := Analysis_READY\<rparr>)]"

definition require_processing :: "unit act" where
  "require_processing = reading (\<lambda>m. reject (sv_analysis (vm_state m) \<noteq> Analysis_PROCESSING) ''analysis_not_processing'')"

definition analysis_completed :: "checked_event \<Rightarrow> string act" where
  "analysis_completed e = completed ''analysis_completed''
     [require_case, require_not_deleting, require_active, require_processing,
      with_text e ''outcome'' (\<lambda>v. steps
       [reject (v \<notin> {''complete'', ''abstained''}) ''invalid_analysis_outcome'',
        with_state (\<lambda>s. s\<lparr>sv_analysis := if v = ''complete'' then Analysis_COMPLETE else Analysis_ABSTAINED\<rparr>)])]"

definition analysis_failed :: "checked_event \<Rightarrow> string act" where
  "analysis_failed e = completed ''analysis_failed''
     [require_case, require_not_deleting, require_active, require_processing,
      with_text e ''failure_state'' (\<lambda>v. steps
       [reject (v \<notin> {''failed_retriable'', ''failed_terminal''}) ''invalid_analysis_failure'',
        reading (\<lambda>m. reject (v = ''failed_retriable'' \<and> 3 \<le> vm_analysis_retries m) ''analysis_retry_exhausted''),
        bind_script (lift_sum (constructing (enum_of analysis_value analysis_statuses (PStr v))))
          (\<lambda>a. with_state (\<lambda>s. s\<lparr>sv_analysis := a\<rparr>))])]"

definition require_finished :: "string \<Rightarrow> unit act" where
  "require_finished c = reading (\<lambda>m. reject (\<not> finished_analysis m) c)"

definition packet_ready :: "checked_event \<Rightarrow> string act" where
  "packet_ready e = completed ''contractor_packet_ready_recorded''
     [require_case, require_not_deleting, require_active, require_no_pending,
      reading (\<lambda>m. reject (sv_packet (vm_state m) \<noteq> Packet_NOT_READY) ''packet_already_ready''),
      require_finished ''packet_not_ready'',
      with_state (\<lambda>s. s\<lparr>sv_packet := Packet_READY\<rparr>)]"

definition packet_delivery_started :: "checked_event \<Rightarrow> string act" where
  "packet_delivery_started e = completed ''contractor_packet_delivery_started''
     [require_case, require_not_deleting, require_active, require_no_pending,
      reading (\<lambda>m. reject (sv_packet (vm_state m) \<noteq> Packet_READY) ''packet_delivery_not_ready''),
      with_state (\<lambda>s. s\<lparr>sv_packet := Packet_DELIVERY_PENDING\<rparr>)]"

definition delivery_status_of :: "checked_event \<Rightarrow> (bool \<Rightarrow> unit act) \<Rightarrow> unit act" where
  "delivery_status_of e f = with_text e ''status'' (\<lambda>v. steps
     [reject (v \<notin> {''delivered'', ''failed''}) ''invalid_delivery_status'', f (v = ''delivered'')])"

definition packet_delivery_receipt :: "checked_event \<Rightarrow> string act" where
  "packet_delivery_receipt e = completed ''contractor_packet_delivery_receipt_recorded''
     [require_case, require_not_deleting, require_active,
      reading (\<lambda>m. reject (sv_packet (vm_state m) \<noteq> Packet_DELIVERY_PENDING) ''packet_delivery_not_pending''),
      delivery_status_of e (\<lambda>ok. with_state (\<lambda>s. s\<lparr>sv_packet := if ok then Packet_DELIVERED else Packet_DELIVERY_FAILED\<rparr>))]"

definition delivery_policy_receipt :: "checked_event \<Rightarrow> string act" where
  "delivery_policy_receipt e = completed ''delivery_policy_receipt_recorded''
     [require_case, require_not_deleting, require_active, require_no_pending,
      reading (\<lambda>m. reject (sv_delivery (vm_state m) \<noteq> Delivery_NOT_EVALUATED) ''policy_receipt_already_recorded''),
      require_finished ''policy_receipt_not_ready'',
      with_text e ''receipt_ref'' (\<lambda>r. reject (r \<noteq> ck_id e \<or> \<not> opaque_ref r) ''invalid_receipt_ref''),
      assign (\<lambda>m. m\<lparr>vm_policy_receipt := Some (ck_id e)\<rparr>),
      with_state (\<lambda>s. s\<lparr>sv_delivery := Delivery_POLICY_RECEIPT_RECORDED\<rparr>)]"

definition customer_delivery_started :: "checked_event \<Rightarrow> string act" where
  "customer_delivery_started e = completed ''customer_delivery_started''
     [require_case, require_not_deleting, require_active, require_no_pending,
      reading (\<lambda>m. reject (sv_delivery (vm_state m) \<noteq> Delivery_POLICY_RECEIPT_RECORDED) ''customer_delivery_not_ready''),
      with_text e ''receipt_ref'' (\<lambda>r. reading (\<lambda>m. reject (vm_policy_receipt m \<noteq> Some r) ''policy_receipt_binding_mismatch'')),
      with_state (\<lambda>s. s\<lparr>sv_delivery := Delivery_DELIVERY_PENDING\<rparr>)]"

definition customer_delivery_receipt :: "checked_event \<Rightarrow> string act" where
  "customer_delivery_receipt e = completed ''customer_delivery_receipt_recorded''
     [require_case, require_not_deleting, require_active,
      reading (\<lambda>m. reject (sv_delivery (vm_state m) \<noteq> Delivery_DELIVERY_PENDING) ''customer_delivery_not_pending''),
      delivery_status_of e (\<lambda>ok. with_state (\<lambda>s. s\<lparr>sv_delivery := if ok then Delivery_DELIVERED else Delivery_DELIVERY_FAILED\<rparr>))]"

definition case_closed :: "checked_event \<Rightarrow> string act" where
  "case_closed e = completed ''case_closed''
     [require_case, require_not_deleting,
      reading (\<lambda>m. reject (sv_case (vm_state m) \<noteq> Case_ACTIVE) ''case_close_not_allowed''),
      reading (\<lambda>m. reject (vm_pending m \<noteq> None \<or>
        sv_media (vm_state m) \<in> {Media_UPLOAD_PENDING, Media_UPLOADED_QUARANTINED}) ''case_not_quiescent''),
      reading (\<lambda>m. reject (sv_analysis (vm_state m) \<in> {Analysis_PROCESSING, Analysis_FAILED_RETRIABLE,
        Analysis_AWAITING_CUSTOMER_ACTION}) ''case_not_quiescent''),
      reading (\<lambda>m. reject (sv_packet (vm_state m) = Packet_DELIVERY_PENDING \<or>
        sv_delivery (vm_state m) = Delivery_DELIVERY_PENDING) ''case_not_quiescent''),
      not_before_creation e ''terminal_event_predates_case'', reject_if_predates e,
      assign (\<lambda>m. m\<lparr>vm_completed := Some (ck_time e)\<rparr>),
      with_state (\<lambda>s. s\<lparr>sv_case := Case_CLOSED\<rparr>)]"

definition terminal_case :: "checked_event \<Rightarrow> case_status \<Rightarrow> string \<Rightarrow> string act" where
  "terminal_case e status c = completed c
     [require_case, require_not_deleting,
      reading (\<lambda>m. reject (sv_case (vm_state m) \<notin> {Case_CREATED, Case_ACTIVE}) ''case_terminal_not_allowed''),
      not_before_creation e ''terminal_event_predates_case'', reject_if_predates e,
      assign (\<lambda>m. m\<lparr>vm_pending := None\<rparr>),
      bind_script finalized_media (\<lambda>media. steps
       [assign (\<lambda>m. m\<lparr>vm_completed := Some (ck_time e)\<rparr>),
        assign (\<lambda>m. if status = Case_EXPIRED then m\<lparr>vm_expires := Some (ck_time e)\<rparr> else m),
        with_state (\<lambda>s. s\<lparr>sv_case := status, sv_media := media\<rparr>)])]"

definition deletion_requested :: "checked_event \<Rightarrow> string act" where
  "deletion_requested e = completed ''deletion_requested''
     [require_case,
      reading (\<lambda>m. reject (sv_deletion (vm_state m) \<noteq> Deletion_NOT_REQUESTED) ''deletion_already_requested''),
      not_before_creation e ''terminal_event_predates_case'', reject_if_predates e,
      assign (\<lambda>m. m\<lparr>vm_pending := None\<rparr>),
      bind_script finalized_media (\<lambda>media. steps
       [assign (\<lambda>m. m\<lparr>vm_deletion_requested := Some (ck_time e)\<rparr>),
        with_state (\<lambda>s. s\<lparr>sv_deletion := Deletion_PENDING, sv_media := media\<rparr>)])]"

definition require_deleting :: "unit act" where
  "require_deleting = reading (\<lambda>m. reject (sv_deletion (vm_state m) \<noteq> Deletion_PENDING) ''deletion_not_pending'')"

definition deletion_retry_recorded :: "checked_event \<Rightarrow> string act" where
  "deletion_retry_recorded e = completed ''deletion_retry_recorded''
     [require_case, require_deleting,
      reject (ck_stage e \<noteq> PStr ''deletion'') ''retry_stage_invalid'',
      reading (\<lambda>m. record_attempt e (vm_retries m) ''deletion_retry_invalid'' (\<lambda>i. assign (\<lambda>m. m\<lparr>vm_retries := i\<rparr>)))]"

definition deletion_verified :: "checked_event \<Rightarrow> string act" where
  "deletion_verified e = completed ''deletion_verified''
     [require_case, require_deleting,
      not_before_creation e ''terminal_event_predates_case'',
      reading (\<lambda>m. reject (case vm_deletion_requested m of None \<Rightarrow> False | Some t \<Rightarrow> t_at (ck_time e) < t_at t)
        ''terminal_event_predates_case''),
      reject_if_predates e,
      assign (\<lambda>m. m\<lparr>vm_deleted := Some (ck_time e)\<rparr>),
      with_state (\<lambda>s. s\<lparr>sv_deletion := Deletion_VERIFIED\<rparr>)]"

section \<open>Applying an event\<close>

definition dispatch :: "platform \<Rightarrow> checked_event \<Rightarrow> string act" where
  "dispatch P e = (case ck_kind e of
       CASE_CREATED \<Rightarrow> case_created e
     | CONSENT_REQUESTED \<Rightarrow> consent_requested e
     | CONSENT_GRANTED \<Rightarrow> consent_granted e
     | CONSENT_DECLINED \<Rightarrow> consent_declined e
     | CONSENT_WITHDRAWN \<Rightarrow> consent_withdrawn e
     | MEDIA_ACTION_ISSUED \<Rightarrow> media_action_issued P e
     | DIAGNOSTIC_QUESTION_ISSUED \<Rightarrow> diagnostic_question_issued P e
     | CUSTOMER_ACTION_RESOLVED \<Rightarrow> customer_action_resolved e
     | UPLOAD_STARTED \<Rightarrow> upload_started e
     | UPLOAD_FINALIZED \<Rightarrow> upload_finalized e
     | MEDIA_VALIDATED \<Rightarrow> media_validated e
     | MEDIA_ACTION_RESOLVED \<Rightarrow> media_action_resolved e
     | ANALYSIS_STARTED \<Rightarrow> analysis_started e
     | ANALYSIS_RETRY_RECORDED \<Rightarrow> analysis_retry_recorded e
     | ANALYSIS_COMPLETED \<Rightarrow> analysis_completed e
     | ANALYSIS_FAILED \<Rightarrow> analysis_failed e
     | CONTRACTOR_PACKET_READY_RECORDED \<Rightarrow> packet_ready e
     | CONTRACTOR_PACKET_DELIVERY_STARTED \<Rightarrow> packet_delivery_started e
     | CONTRACTOR_PACKET_DELIVERY_RECEIPT_RECORDED \<Rightarrow> packet_delivery_receipt e
     | DELIVERY_POLICY_RECEIPT_RECORDED \<Rightarrow> delivery_policy_receipt e
     | CUSTOMER_DELIVERY_STARTED \<Rightarrow> customer_delivery_started e
     | CUSTOMER_DELIVERY_RECEIPT_RECORDED \<Rightarrow> customer_delivery_receipt e
     | CASE_CLOSED \<Rightarrow> case_closed e
     | CASE_CANCELLED \<Rightarrow> terminal_case e Case_CANCELLED ''case_cancelled''
     | CASE_EXPIRED \<Rightarrow> terminal_case e Case_EXPIRED ''case_expired''
     | DELETION_REQUESTED \<Rightarrow> deletion_requested e
     | DELETION_RETRY_RECORDED \<Rightarrow> deletion_retry_recorded e
     | DELETION_VERIFIED \<Rightarrow> deletion_verified e)"

text \<open>The fields \<open>_backup\<close> saves, put back: \<open>b\<close> is the machine they were saved from.\<close>

definition restore :: "machine \<Rightarrow> machine \<Rightarrow> machine" where
  "restore b m = m\<lparr>vm_case := vm_case b, vm_contractor := vm_contractor b, vm_call := vm_call b,
     vm_scenario := vm_scenario b, vm_state := vm_state b, vm_pending := vm_pending b, vm_resolved := vm_resolved b,
     vm_questions := vm_questions b, vm_plates := vm_plates b, vm_recaptures := vm_recaptures b,
     vm_assets := vm_assets b, vm_artifact := vm_artifact b, vm_candidates := vm_candidates b,
     vm_policies := vm_policies b, vm_retries := vm_retries b, vm_created := vm_created b, vm_expires := vm_expires b,
     vm_completed := vm_completed b, vm_deleted := vm_deleted b, vm_deletion_requested := vm_deletion_requested b,
     vm_analysis_retries := vm_analysis_retries b, vm_policy_receipt := vm_policy_receipt b\<rparr>"

text \<open>The reason and the next action that the state shows before the role is considered.\<close>

definition reason_and_next :: "machine \<Rightarrow> string \<times> string option" where
  "reason_and_next m =
     (let s = vm_state m in
      if sv_deletion s = Deletion_PENDING then (''deletion_pending'', None)
      else if sv_deletion s = Deletion_VERIFIED then (''verified_deleted'', None)
      else if sv_case s \<in> set TERMINAL_CASES then (''case_terminal'', None)
      else if vm_pending m \<noteq> None then (''customer_action_pending'', Some ''resolve_customer_action'')
      else if sv_media s = Media_AWAITING_REQUIRED then (''media_required'', Some ''upload_initial_symptom_media'')
      else if sv_analysis s = Analysis_READY then (''analysis_ready'', Some ''start_analysis'')
      else if sv_packet s = Packet_READY then (''packet_ready'', Some ''record_packet_delivery'')
      else (''ok'', None))"

definition shown_next :: "projection_role \<Rightarrow> string option \<Rightarrow> string option" where
  "shown_next role next =
     (if role = To_AUDIT then None
      else if role = To_CUSTOMER \<and> next \<in> Some ` {''start_analysis'', ''record_packet_delivery''} then None
      else if role = To_CONTRACTOR \<and>
              next \<in> Some ` {''resolve_customer_action'', ''upload_initial_symptom_media'', ''start_analysis''} then None
      else next)"

definition project :: "projection_role \<Rightarrow> int option \<Rightarrow> string option \<Rightarrow> machine \<Rightarrow> projection res" where
  "project role old_revision old_code m =
     (let p = vm_pending m; details = (role \<in> {To_INTERNAL, To_CUSTOMER, To_AUDIT});
          budget = (role \<in> {To_INTERNAL, To_AUDIT});
          detail = (\<lambda>b f. if b then Option.bind p f else None) in
      make_projection
        \<lparr>pj_role = role, pj_state = vm_state m, pj_revision = vm_revision m, pj_replay = (old_revision \<noteq> None),
         pj_old_revision = old_revision, pj_old_code = old_code, pj_next = shown_next role (snd (reason_and_next m)),
         pj_reason = fst (reason_and_next m), pj_kind = map_option ac_kind p, pj_status = map_option ac_status p,
         pj_request = detail details (\<lambda>a. Some (ac_request a)), pj_locale = detail details (\<lambda>a. Some (ac_locale a)),
         pj_copy = detail details ac_copy, pj_bucket = detail budget (\<lambda>a. Some (ac_bucket a)),
         pj_optionality = detail details (\<lambda>a. Some (ac_optionality a)), pj_refusal = detail details ac_refusal,
         pj_options = (case p of Some a \<Rightarrow> if details then ac_options a else [] | None \<Rightarrow> []),
         pj_expires = (if details then Option.bind p ac_expires else None)\<rparr>)"

definition refuse :: "bool \<Rightarrow> string \<Rightarrow> machine \<Rightarrow> decision res" where
  "refuse reveal c m =
     ebind (if reveal \<and> vm_case m \<noteq> None then ebind (project To_INTERNAL None None m) (\<lambda>p. Inr (Some p)) else Inr None) (\<lambda>pj.
     make_decision \<lparr>dn_accepted = False, dn_replayed = False, dn_code = c, dn_old_code = None, dn_old_revision = None,
       dn_revision = (if reveal then vm_revision m else 0), dn_projection = pj\<rparr>)"

definition replay :: "receipt \<Rightarrow> machine \<Rightarrow> decision res" where
  "replay prior m =
     ebind (project To_INTERNAL (Some (rc_revision prior)) (Some (rc_code prior)) m) (\<lambda>pj.
     make_decision \<lparr>dn_accepted = True, dn_replayed = True, dn_code = ''replayed'', dn_old_code = Some (rc_code prior),
       dn_old_revision = Some (rc_revision prior), dn_revision = vm_revision m, dn_projection = Some pj\<rparr>)"

text \<open>What the machine refuses before a handler runs.\<close>

definition refusal :: "checked_event \<Rightarrow> machine \<Rightarrow> (bool \<times> string) option" where
  "refusal e m =
     (if ck_source e \<noteq> Source_SYNTHETIC then Some (False, ''source_kind_mismatch'')
      else if sv_deletion (vm_state m) = Deletion_PENDING \<and> ck_kind e \<notin> set DELETION_KINDS
      then Some (True, ''deletion_pending'')
      else if sv_deletion (vm_state m) = Deletion_VERIFIED then Some (True, ''verified_deletion_terminal'')
      else if ck_revision e \<noteq> (if vm_case m \<noteq> None then vm_revision m else 0)
      then Some (True, ''stale_or_future_revision'')
      else if ck_kind e \<in> set CONTROL_KINDS \<and> CONTROL_RECEIPT_CAP \<le> length (vm_control m)
      then Some (True, ''control_lane_capacity'')
      else if ck_kind e \<notin> set CONTROL_KINDS \<and> ORDINARY_RECEIPT_CAP \<le> length (vm_ordinary m)
      then Some (True, ''ordinary_lane_capacity'') else None)"

definition record_receipt :: "receipt \<Rightarrow> machine \<Rightarrow> machine" where
  "record_receipt r m =
     (let m = m\<lparr>vm_revision := vm_revision m + 1, vm_ledger := (vm_ledger m)(rc_event r \<mapsto> r)\<rparr> in
      if rc_kind r \<in> set CONTROL_KINDS then m\<lparr>vm_control := vm_control m @ [r]\<rparr>
      else m\<lparr>vm_ordinary := vm_ordinary m @ [r]\<rparr>)"

text \<open>The handler and the receipt of its decision, inside the block that restores the machine.\<close>

definition transition :: "platform \<Rightarrow> checked_event \<Rightarrow> receipt act" where
  "transition P e = bind_script (dispatch P e) (\<lambda>c. reading (\<lambda>m.
     lift_sum (constructing (make_receipt (ck_id e) (ck_kind e) (ck_fingerprint e) c (vm_revision m + 1)))))"

definition failure_code :: "failure \<Rightarrow> string" where
  "failure_code f = (case f of Rejected c \<Rightarrow> c | Key_Error \<Rightarrow> ''event_integrity_mismatch''
     | Struct_Error \<Rightarrow> ''invalid_structural_payload'')"

definition apply_checked :: "platform \<Rightarrow> checked_event \<Rightarrow> machine \<Rightarrow> machine \<times> decision res" where
  "apply_checked P e m =
     (case vm_ledger m (ck_id e) of
        Some prior \<Rightarrow> (m,
          if rc_fingerprint prior \<noteq> ck_fingerprint e then refuse True ''event_id_conflict'' m
          else if sv_deletion (vm_state m) = Deletion_VERIFIED \<and> ck_kind e \<noteq> DELETION_VERIFIED
          then refuse True ''verified_deletion_terminal'' m
          else replay prior m)
      | None \<Rightarrow>
         (case refusal e m of Some (reveal, c) \<Rightarrow> (m, refuse reveal c m)
          | None \<Rightarrow>
             (case transition P e m of
                (Inl f, t) \<Rightarrow> (restore m t, refuse True (failure_code f) (restore m t))
              | (Inr r, t) \<Rightarrow>
                  (record_receipt r t,
                   ebind (project To_INTERNAL None None (record_receipt r t)) (\<lambda>pj.
                     make_decision \<lparr>dn_accepted = True, dn_replayed = False, dn_code = rc_code r, dn_old_code = None,
                       dn_old_revision = None, dn_revision = vm_revision (record_receipt r t),
                       dn_projection = Some pj\<rparr>)))))"

text \<open>\<open>None\<close> is anything that is not a \<open>VisualTriageEvent\<close>.\<close>

definition apply_event :: "platform \<Rightarrow> triage_event option \<Rightarrow> machine \<Rightarrow> machine \<times> decision res" where
  "apply_event P oe m =
     (case oe of None \<Rightarrow> (m, refuse False ''invalid_event_type'' m)
      | Some e \<Rightarrow>
         if vm_case m \<noteq> None \<and> (Some (ev_case e) \<noteq> map_option PStr (vm_case m) \<or>
              Some (ev_contractor e) \<noteq> map_option PStr (vm_contractor m))
         then (m, refuse False ''binding_mismatch'' m)
         else case assert_integrity P e of Inl _ \<Rightarrow> (m, refuse False ''event_integrity_mismatch'' m)
         | Inr ck \<Rightarrow>
             if vm_case m = None \<and> ck_kind ck \<noteq> CASE_CREATED then (m, refuse False ''aggregate_not_found'' m)
             else apply_checked P ck m)"

end
