(* ===== verification/Visual_Invariants.thy ===== *)
theory Visual_Invariants
  imports Visual_Case
begin

text \<open>
  The invariant of the visual diagnosis case, by the weakest preconditions of its handlers, and that no
  handler touches the ledger, the receipts or the revision.
\<close>

section \<open>No handler touches the ledger\<close>

definition outer :: "machine \<Rightarrow> int \<times> receipt list \<times> receipt list \<times> (string \<rightharpoonup> receipt)" where
  "outer m = (vm_revision m, vm_ordinary m, vm_control m, vm_ledger m)"

definition same_outer :: "machine \<Rightarrow> machine \<Rightarrow> bool" where
  "same_outer m t = (outer t = outer m)"

interpretation ledger: frame same_outer
  by unfold_locales (simp_all add: same_outer_def)

lemma restore_same: "same_outer m t \<Longrightarrow> restore m t = m"
  by (rule machine.equality) (simp_all add: restore_def same_outer_def outer_def)

lemmas script_defs = completed_def reject_def require_case_def require_not_deleting_def require_active_def
  require_no_pending_def with_state_def not_before_creation_def reject_if_predates_def resolve_pending_def put_asset_def
  with_text_def with_member_def set_pending_status_def with_asset_def require_no_output_def issue_def
  require_processing_def require_finished_def require_deleting_def delivery_status_of_def record_attempt_def
  finalized_media_def

lemmas handler_defs = case_created_def consent_requested_def consent_granted_def consent_declined_def
  consent_withdrawn_def media_action_issued_def issue_media_action_def diagnostic_question_issued_def
  customer_action_resolved_def resolve_question_def upload_started_def upload_role_def asset_from_payload_def
  upload_finalized_def media_validated_def media_action_resolved_def resolve_media_action_def settle_asset_def
  analysis_started_def analysis_retry_recorded_def analysis_completed_def analysis_failed_def packet_ready_def
  packet_delivery_started_def packet_delivery_receipt_def delivery_policy_receipt_def customer_delivery_started_def
  customer_delivery_receipt_def case_closed_def terminal_case_def deletion_requested_def deletion_retry_recorded_def
  deletion_verified_def action_from_payload_def

text \<open>The parts the handlers share touch the assets, the actions, the budgets, the media and the analysis only.\<close>

definition same_rest :: "machine \<Rightarrow> machine \<Rightarrow> bool" where
  "same_rest m t = (outer t = outer m \<and> vm_case t = vm_case m \<and> vm_contractor t = vm_contractor m \<and>
     sv_case (vm_state t) = sv_case (vm_state m) \<and> sv_deletion (vm_state t) = sv_deletion (vm_state m) \<and>
     vm_retries t = vm_retries m)"

interpretation rest: frame same_rest
  by unfold_locales (simp_all add: same_rest_def)

lemma leaves_cases:
  "(\<And>x. leaves R (f x)) \<Longrightarrow> leaves R n \<Longrightarrow> leaves R (case z of None \<Rightarrow> n | Some x \<Rightarrow> f x)"
  "(\<And>x y. leaves R (g x y)) \<Longrightarrow> leaves R (case w of (x, y) \<Rightarrow> g x y)"
  "leaves R n \<Longrightarrow> leaves R k \<Longrightarrow> leaves R (case v of PList (_ # _) \<Rightarrow> n | _ \<Rightarrow> k)"
  by (auto split: option.splits prod.splits pyval.splits list.splits)

lemmas rest_rules = rest.leaves_rules leaves_cases

lemma parts_rest:
  "leaves same_rest (action_from_payload P e kind)" "leaves same_rest (resolve_question e p)"
  "leaves same_rest (settle_asset e p role status)" "leaves same_rest (upload_role e)"
  "leaves same_rest (asset_from_payload e role)" "leaves same_rest finalized_media"
  "leaves same_rest (put_asset k a)"
  by (simp only: action_from_payload_def resolve_question_def settle_asset_def upload_role_def asset_from_payload_def
        script_defs Let_def; intro rest_rules; simp add: same_rest_def outer_def)+

lemma more_parts_rest:
  "leaves same_rest (issue_media_action P e kind)" "leaves same_rest (resolve_media_action e p role status)"
  by (simp only: issue_media_action_def resolve_media_action_def script_defs;
      intro rest_rules parts_rest; simp add: same_rest_def outer_def)+

lemma leaves_mono: "leaves same_rest n \<Longrightarrow> (\<And>m t. same_rest m t \<Longrightarrow> R m t) \<Longrightarrow> leaves R n"
  by (simp add: leaves_def)

lemma rest_outer: "leaves same_rest n \<Longrightarrow> leaves same_outer n"
  by (erule leaves_mono) (simp add: same_rest_def same_outer_def)

lemmas outer_rules = ledger.leaves_rules leaves_cases parts_rest [THEN rest_outer] more_parts_rest [THEN rest_outer]

lemma dispatch_outer: "leaves same_outer (dispatch P e)"
  by (cases "ck_kind e"; simp only: dispatch_def event_kind.case handler_defs script_defs Let_def;
      intro outer_rules; simp add: same_outer_def outer_def)


section \<open>Every code of a decision is a closed code\<close>

definition DECISION_CODES :: "string list" where
  "DECISION_CODES = map event_kind_value event_kinds @ [''action_binding_mismatch'',
     ''action_budget_binding_mismatch'', ''action_expired'', ''action_issued_before_case_created'',
     ''action_not_expirable'', ''action_not_expired'', ''action_not_resolvable'',
     ''action_receipt_binding_mismatch'', ''action_resolved_before_issuance'', ''aggregate_not_found'',
     ''analysis_not_processing'', ''analysis_not_question_ready'', ''analysis_not_ready'',
     ''analysis_retry_exhausted'', ''analysis_retry_not_allowed'', ''asset_binding_mismatch'',
     ''asset_not_pending_validation'', ''binding_mismatch'', ''case_already_exists'', ''case_close_not_allowed'',
     ''case_not_active'', ''case_not_quiescent'', ''case_terminal_not_allowed'', ''consent_decline_not_allowed'',
     ''consent_grant_not_allowed'', ''consent_request_not_allowed'', ''consent_withdrawal_not_allowed'',
     ''control_lane_capacity'', ''customer_action_pending'', ''customer_delivery_not_pending'',
     ''customer_delivery_not_ready'', ''deletion_already_requested'', ''deletion_not_pending'',
     ''deletion_pending'', ''deletion_precedence'', ''deletion_retry_invalid'', ''duplicate_upload'',
     ''event_id_conflict'', ''event_integrity_mismatch'', ''initial_upload_not_allowed'',
     ''invalid_action_expiry'', ''invalid_analysis_failure'', ''invalid_analysis_outcome'',
     ''invalid_case_payload'', ''invalid_delivery_status'', ''invalid_event_type'', ''invalid_media_action_kind'',
     ''invalid_media_resolution'', ''invalid_media_type'', ''invalid_payload_code'',
     ''invalid_question_action_kind'', ''invalid_question_resolution'', ''invalid_receipt_ref'',
     ''invalid_structural_payload'', ''media_action_not_resolvable'', ''media_action_not_submitted'',
     ''media_fulfillment_binding_mismatch'', ''media_not_quarantined'', ''media_resolution_binding_mismatch'',
     ''missing_payload'', ''no_matching_media_action'', ''no_matching_question'', ''ordinary_lane_capacity'',
     ''output_already_prepared'', ''packet_already_ready'', ''packet_delivery_not_pending'',
     ''packet_delivery_not_ready'', ''packet_not_ready'', ''policy_receipt_already_recorded'',
     ''policy_receipt_binding_mismatch'', ''policy_receipt_not_ready'', ''question_budget_exhausted'',
     ''question_identity_reused'', ''question_options_required'', ''question_prompt_closed'',
     ''rating_plate_budget_exhausted'', ''recapture_not_reachable'', ''replayed'', ''response_binding_mismatch'',
     ''retry_attempt_invalid'', ''retry_stage_invalid'', ''source_kind_mismatch'', ''stale_or_future_revision'',
     ''terminal_event_predates_case'', ''upload_not_allowed'', ''upload_not_pending'', ''validation_not_final'',
     ''verified_deletion_terminal'']"

lemma decision_codes: "list_all code DECISION_CODES"
  by (simp add: DECISION_CODES_def event_kinds_def code_def matches_def lower_def digit_def char_in_def)

lemmas codes [simp] = decision_codes
  [unfolded DECISION_CODES_def event_kinds_def list.map append_Cons append_Nil list.pred_inject event_kind_value.simps]

lemma kind_code [simp]: "code (event_kind_value k)"
  by (cases k) simp_all

lemma kind_projection_code: "projection_code (event_kind_value k)"
  by (cases k) (simp_all add: projection_code_def FORBIDDEN_PAYLOAD_TERMS_def casefold_char_def has_prefix_def lower_def
      digit_def char_in_def)

lemma projection_words [simp]:
  "projection_code ''deletion_pending''" "projection_code ''verified_deleted''" "projection_code ''case_terminal''"
  "projection_code ''customer_action_pending''" "projection_code ''media_required''" "projection_code ''analysis_ready''"
  "projection_code ''packet_ready''" "projection_code ''ok''" "projection_code ''resolve_customer_action''"
  "projection_code ''upload_initial_symptom_media''" "projection_code ''start_analysis''"
  "projection_code ''record_packet_delivery''"
  by (simp_all add: projection_code_def FORBIDDEN_PAYLOAD_TERMS_def casefold_char_def has_prefix_def lower_def
      digit_def char_in_def code_def matches_def)

section \<open>The errors the handlers raise\<close>

definition coded :: "failure \<Rightarrow> bool" where
  "coded f = code (failure_code f)"

lemma coded_simps [simp]: "coded (Rejected c) \<longleftrightarrow> code c" "coded Key_Error" "coded Struct_Error"
  by (simp_all add: coded_def failure_code_def)

lemma coded_values:
  "value_of kvs k = Inl f \<Longrightarrow> coded f" "text_of kvs k = Inl f \<Longrightarrow> coded f" "member_of name ms kvs k = Inl f \<Longrightarrow> coded f"
  "constructing r = Inl f \<Longrightarrow> coded f" "options_of kvs = Inl f \<Longrightarrow> coded f" "parse_expiry P v t = Inl f \<Longrightarrow> coded f"
  "case_fields s kvs = Inl f \<Longrightarrow> coded f" "role_for_action a = Inl f \<Longrightarrow> coded f"
proof -
  show v: "value_of kvs k = Inl f \<Longrightarrow> coded f" for f by (auto simp: value_of_def split: option.splits)
  show t: "text_of kvs k = Inl f \<Longrightarrow> coded f" for f
    by (auto simp: text_of_def dest: v split: sum.splits pyval.splits if_splits)
  show "member_of name ms kvs k = Inl f \<Longrightarrow> coded f"
    by (auto simp: member_of_def dest: t split: sum.splits)
  show "constructing r = Inl f \<Longrightarrow> coded f" by (auto simp: constructing_def split: sum.splits)
  show "options_of kvs = Inl f \<Longrightarrow> coded f" by (auto simp: options_of_def split: option.splits pyval.splits)
  show "parse_expiry P v t = Inl f \<Longrightarrow> coded f"
    by (auto simp: parse_expiry_def split: pyval.splits option.splits if_splits)
  show "case_fields s kvs = Inl f \<Longrightarrow> coded f" by (auto simp: case_fields_def split: if_splits pyval.splits)
  show "role_for_action a = Inl f \<Longrightarrow> coded f" by (auto simp: role_for_action_def split: action_kind.splits)
qed

lemma fails_case:
  "(\<And>x. fails F (f x)) \<Longrightarrow> fails F n \<Longrightarrow> fails F (case z of None \<Rightarrow> n | Some x \<Rightarrow> f x)"
  "(\<And>x y. fails F (g x y)) \<Longrightarrow> fails F (case w of (x, y) \<Rightarrow> g x y)"
  "fails F n \<Longrightarrow> fails F k \<Longrightarrow> fails F (case v of PList (_ # _) \<Rightarrow> n | _ \<Rightarrow> k)"
  by (auto split: option.splits prod.splits pyval.splits list.splits)

lemma parts_coded:
  "fails coded (action_from_payload P e kind)" "fails coded (resolve_question e p)"
  "fails coded (settle_asset e p role status)" "fails coded (upload_role e)"
  "fails coded (asset_from_payload e role)" "fails coded finalized_media" "fails coded (put_asset k a)"
  by (simp only: action_from_payload_def resolve_question_def settle_asset_def upload_role_def asset_from_payload_def
        script_defs Let_def; intro fails_rules fails_case; simp add: coded_values)+

lemma more_parts_coded:
  "fails coded (issue_media_action P e kind)" "fails coded (resolve_media_action e p role status)"
  by (simp only: issue_media_action_def resolve_media_action_def script_defs;
      intro fails_rules fails_case parts_coded; simp add: coded_values)+

lemma dispatch_coded: "fails coded (dispatch P e)"
  by (cases "ck_kind e"; simp only: dispatch_def event_kind.case handler_defs script_defs Let_def;
      intro fails_rules fails_case parts_coded more_parts_coded; simp add: coded_values)

text \<open>Every handler returns the name of its event.\<close>

lemma completed_code: "completed c ms m = (Inr x, t) \<Longrightarrow> x = c"
  by (auto simp: completed_def bind_script_def done_with_def split: sum.splits prod.splits)

lemma dispatch_code: "dispatch P e m = (Inr c, t) \<Longrightarrow> c = event_kind_value (ck_kind e)"
  by (cases "ck_kind e"; simp only: dispatch_def event_kind.case handler_defs event_kind_value.simps; erule completed_code)

end
