(* ===== verification/Visual_Flow.thy ===== *)
theory Visual_Flow
  imports Visual_Invariants
begin

text \<open>
  What every machine that ever takes events keeps (\<open>app/services/visual_diagnosis_state.py\<close>): how the case, consent,
  media, analysis and pending action fit together, how many assets there can be, and what the outputs rest on. One
  lemma per handler says the handler keeps it, whether it finishes or gives up half way; \<open>dispatch_keeps\<close> collects them.
\<close>

section \<open>The invariant\<close>

definition uploaded :: "machine \<Rightarrow> bool" where
  "uploaded m = (sv_media (vm_state m) \<notin> {Media_NONE, Media_AWAITING_REQUIRED})"

definition in_flight :: "machine \<Rightarrow> bool" where
  "in_flight m = (sv_media (vm_state m) \<in> {Media_UPLOAD_PENDING, Media_UPLOADED_QUARANTINED})"

text \<open>The assets of a role, and whether all of them are still pending.\<close>

definition no_asset :: "media_role \<Rightarrow> (string \<times> media_asset) list \<Rightarrow> bool" where
  "no_asset r kas = (\<forall>a \<in> snd ` set kas. ma_role a \<noteq> r)"

definition all_pending :: "media_role \<Rightarrow> (string \<times> media_asset) list \<Rightarrow> bool" where
  "all_pending r kas = (\<forall>a \<in> snd ` set kas. ma_role a = r \<longrightarrow> ma_validation a = Validation_PENDING)"

definition evidence :: "(string \<times> media_asset) list \<Rightarrow> bool" where
  "evidence kas = (\<exists>a \<in> snd ` set kas. ma_role a \<in> {Role_SYMPTOM_VIDEO, Role_TARGETED_RECAPTURE} \<and>
     ma_validation a = Validation_VALIDATED)"

lemma has_symptom_evidence_eq [simp]: "has_symptom_evidence m = evidence (vm_assets m)"
  by (auto simp: has_symptom_evidence_def has_validated_role_def list_ex_iff evidence_def)

definition keyed :: "(string \<times> media_asset) list \<Rightarrow> bool" where
  "keyed kas = ((\<forall>(k, a) \<in> set kas. ma_id a = k) \<and> distinct (map fst kas))"

fun action_role :: "action_kind \<Rightarrow> media_role" where
  "action_role Kind_RATING_PLATE = Role_RATING_PLATE"
| "action_role Kind_TARGETED_RECAPTURE = Role_TARGETED_RECAPTURE"
| "action_role Kind_DIAGNOSTIC_QUESTION = Role_SYMPTOM_VIDEO"

definition action_ok :: "customer_action \<Rightarrow> bool" where
  "action_ok a = (length (ac_request a) \<le> 128 \<and> length (ac_locale a) \<le> 35 \<and> short_or_none 128 (ac_copy a) \<and>
     length (ac_bucket a) \<le> 64 \<and> length (ac_optionality a) \<le> 32 \<and> short_or_none 64 (ac_refusal a) \<and>
     length (ac_options a) \<le> 8)"

text \<open>Where a pending action stands, with the media status and the assets that go with it.\<close>

definition pending_flow :: "machine \<Rightarrow> customer_action \<Rightarrow> bool" where
  "pending_flow m p =
     (action_ok p \<and> sv_analysis (vm_state m) = Analysis_AWAITING_CUSTOMER_ACTION \<and>
      (ac_kind p = Kind_RATING_PLATE \<longrightarrow> vm_plates m \<noteq> 0) \<and> (ac_kind p = Kind_TARGETED_RECAPTURE \<longrightarrow> vm_recaptures m \<noteq> 0) \<and>
      (if ac_kind p = Kind_DIAGNOSTIC_QUESTION then ac_status p = Status_ISSUED \<and> \<not> in_flight m
       else (ac_status p = Status_ISSUED \<and> \<not> in_flight m \<and> no_asset (action_role (ac_kind p)) (vm_assets m)) \<or>
            (ac_status p = Status_UPLOADING \<and> sv_media (vm_state m) = Media_UPLOAD_PENDING \<and>
               all_pending (action_role (ac_kind p)) (vm_assets m)) \<or>
            (ac_status p = Status_SUBMITTED \<and> sv_media (vm_state m) \<noteq> Media_UPLOAD_PENDING \<and>
               (sv_media (vm_state m) = Media_UPLOADED_QUARANTINED \<longrightarrow> all_pending (action_role (ac_kind p)) (vm_assets m)))))"

definition flow_ok :: "machine \<Rightarrow> bool" where
  "flow_ok m = (case vm_pending m of None \<Rightarrow> in_flight m \<longrightarrow> sv_analysis (vm_state m) = Analysis_NOT_STARTED
     | Some p \<Rightarrow> pending_flow m p)"

text \<open>A media action that waits for its upload.\<close>

definition awaited :: "machine \<Rightarrow> nat" where
  "awaited m = (case vm_pending m of None \<Rightarrow> 0
     | Some p \<Rightarrow> of_bool (ac_kind p \<noteq> Kind_DIAGNOSTIC_QUESTION \<and> ac_status p = Status_ISSUED))"

definition phases_ok :: "machine \<Rightarrow> bool" where
  "phases_ok m =
     ((sv_case (vm_state m) = Case_CREATED \<longrightarrow> sv_consent (vm_state m) \<in> {Consent_NOT_REQUESTED, Consent_AWAITING_DECISION}) \<and>
      (sv_case (vm_state m) = Case_ACTIVE \<longrightarrow> sv_consent (vm_state m) = Consent_GRANTED) \<and>
      (sv_media (vm_state m) \<noteq> Media_NONE \<longrightarrow> sv_consent (vm_state m) \<in> {Consent_GRANTED, Consent_WITHDRAWN}) \<and>
      (vm_pending m \<noteq> None \<or> sv_analysis (vm_state m) \<noteq> Analysis_NOT_STARTED \<or> vm_assets m \<noteq> [] \<or>
         vm_plates m \<noteq> 0 \<or> vm_recaptures m \<noteq> 0 \<longrightarrow> uploaded m))"

definition assets_ok :: "machine \<Rightarrow> bool" where
  "assets_ok m =
     (keyed (vm_assets m) \<and>
      length (vm_assets m) + awaited m \<le> of_bool (uploaded m) + vm_plates m + vm_recaptures m \<and>
      (vm_plates m = 0 \<longrightarrow> no_asset Role_RATING_PLATE (vm_assets m)) \<and> (vm_recaptures m = 0 \<longrightarrow> no_asset Role_TARGETED_RECAPTURE (vm_assets m)))"

text \<open>What has been prepared for the contractor and the customer, and what the analysis rests on.\<close>

definition output_begun :: "machine \<Rightarrow> bool" where
  "output_begun m = (sv_packet (vm_state m) \<noteq> Packet_NOT_READY \<or> sv_delivery (vm_state m) \<noteq> Delivery_NOT_EVALUATED)"

definition evidence_ok :: "machine \<Rightarrow> bool" where
  "evidence_ok m =
     ((output_begun m \<longrightarrow> finished_analysis m \<and> vm_pending m = None) \<and>
      (sv_analysis (vm_state m) \<in> {Analysis_PROCESSING, Analysis_COMPLETE, Analysis_FAILED_RETRIABLE, Analysis_FAILED_TERMINAL} \<longrightarrow>
         sv_media (vm_state m) = Media_VALIDATED \<and> has_symptom_evidence m \<and> vm_pending m = None))"

definition fields_ok :: "machine \<Rightarrow> bool" where
  "fields_ok m =
     (length (vm_resolved m) \<le> 4 \<and> vm_questions m \<le> 2 \<and> vm_plates m \<le> 1 \<and> vm_recaptures m \<le> 1 \<and>
      0 \<le> vm_retries m \<and> vm_retries m \<le> 3 \<and> vm_policies m = [] \<and> aware_or_none (vm_created m) \<and>
      aware_or_none (vm_expires m) \<and> aware_or_none (vm_completed m) \<and> aware_or_none (vm_deleted m))"

definition identity_ok :: "machine \<Rightarrow> bool" where
  "identity_ok m = (case vm_case m of None \<Rightarrow> m = new_machine
     | Some c \<Rightarrow> opaque_ref c \<and> (\<exists>r. vm_contractor m = Some r \<and> opaque_ref r) \<and> vm_created m \<noteq> None \<and>
         (case vm_call m of None \<Rightarrow> True | Some r \<Rightarrow> opaque_ref r) \<and>
         length (vm_scenario m) \<le> 128 \<and> code (dots_to_colons (vm_scenario m)))"

definition machine_ok :: "machine \<Rightarrow> bool" where
  "machine_ok m = (identity_ok m \<and> fields_ok m \<and> phases_ok m \<and> assets_ok m \<and> flow_ok m \<and> evidence_ok m)"

lemmas ok_defs = machine_ok_def identity_ok_def fields_ok_def phases_ok_def assets_ok_def flow_ok_def evidence_ok_def
  pending_flow_def uploaded_def in_flight_def awaited_def output_begun_def finished_analysis_def

definition event_ok :: "checked_event \<Rightarrow> bool" where
  "event_ok e = (opaque_ref (ck_case e) \<and> opaque_ref (ck_contractor e) \<and> opaque_ref (ck_id e) \<and> t_aware (ck_time e))"


lemma machine_okI:
  "identity_ok m \<Longrightarrow> fields_ok m \<Longrightarrow> phases_ok m \<Longrightarrow> assets_ok m \<Longrightarrow> flow_ok m \<Longrightarrow> evidence_ok m \<Longrightarrow> machine_ok m"
  by (simp add: machine_ok_def)

lemmas flow_defs = flow_ok_def pending_flow_def in_flight_def
lemmas asset_defs = assets_ok_def awaited_def uploaded_def
lemmas phase_defs = phases_ok_def uploaded_def
lemmas evidence_defs = evidence_ok_def output_begun_def finished_analysis_def

abbreviation keeps :: "string act \<Rightarrow> bool" where
  "keeps h \<equiv> (\<forall>m. machine_ok m \<longrightarrow> wp_of h (\<lambda>_. machine_ok) (\<lambda>_ _. True) m)"

lemma identity_update:
  "machine_ok m \<Longrightarrow> vm_case m \<noteq> None \<Longrightarrow> vm_case t = vm_case m \<Longrightarrow> vm_contractor t = vm_contractor m \<Longrightarrow>
   vm_call t = vm_call m \<Longrightarrow> vm_scenario t = vm_scenario m \<Longrightarrow> vm_created t = vm_created m \<Longrightarrow> identity_ok t"
  by (cases "vm_case m") (simp_all add: identity_ok_def machine_ok_def)

lemma fresh:
  assumes "machine_ok m" and created: "sv_case (vm_state m) = Case_CREATED"
  shows "sv_media (vm_state m) = Media_NONE" "vm_pending m = None" "vm_assets m = []" "vm_plates m = 0"
    "vm_recaptures m = 0" "sv_analysis (vm_state m) = Analysis_NOT_STARTED" "sv_packet (vm_state m) = Packet_NOT_READY"
    "sv_delivery (vm_state m) = Delivery_NOT_EVALUATED"
proof -
  from assms(1) have phases: "phases_ok m" and evidence: "evidence_ok m" by (simp_all add: machine_ok_def)
  from phases created show media: "sv_media (vm_state m) = Media_NONE" unfolding phases_ok_def by fastforce
  then have "\<not> uploaded m" by (simp add: uploaded_def)
  with phases show "vm_pending m = None" "vm_assets m = []" "vm_plates m = 0" "vm_recaptures m = 0"
    and analysis: "sv_analysis (vm_state m) = Analysis_NOT_STARTED"
    unfolding phases_ok_def by blast+
  with evidence show "sv_packet (vm_state m) = Packet_NOT_READY" "sv_delivery (vm_state m) = Delivery_NOT_EVALUATED"
    by (auto simp: evidence_defs)
qed

lemma created_keeps:
  assumes "machine_ok m" and "vm_case m \<noteq> None" and "sv_case (vm_state m) = Case_CREATED"
    and "t = m\<lparr>vm_state := s, vm_pending := None, vm_completed := c\<rparr>" and "aware_or_none c"
    and "sv_analysis s = Analysis_NOT_STARTED" and "sv_packet s = Packet_NOT_READY" and "sv_delivery s = Delivery_NOT_EVALUATED"
    and "sv_case s = Case_ACTIVE \<and> sv_consent s = Consent_GRANTED \<and> sv_media s = Media_AWAITING_REQUIRED \<or>
         sv_case s \<noteq> Case_CREATED \<and> sv_case s \<noteq> Case_ACTIVE \<and> sv_media s = Media_NONE"
  shows "machine_ok t"
proof (rule machine_okI)
  show "identity_ok t" using assms by (intro identity_update [OF assms(1,2)]) simp_all
  show "fields_ok t" using assms by (simp add: machine_ok_def fields_ok_def)
  note fresh [OF assms(1,3)]
  moreover have "assets_ok m" using assms(1) by (simp add: machine_ok_def)
  ultimately show "phases_ok t" "assets_ok t" "flow_ok t" "evidence_ok t"
    using assms(4-) by (auto simp: phase_defs asset_defs flow_defs evidence_defs)
qed

lemma settled_update:
  assumes "machine_ok m" and "vm_case m \<noteq> None" and "uploaded m" and "\<not> in_flight m" and "vm_pending m = None"
    and "\<not> output_begun m"
    and "a \<in> {Analysis_PROCESSING, Analysis_COMPLETE, Analysis_FAILED_RETRIABLE, Analysis_FAILED_TERMINAL} \<Longrightarrow>
          sv_media (vm_state m) = Media_VALIDATED \<and> evidence (vm_assets m)"
    and t: "t = m\<lparr>vm_analysis_retries := k, vm_state := vm_state m\<lparr>sv_analysis := a\<rparr>\<rparr>"
  shows "machine_ok t"
proof (rule machine_okI)
  show "identity_ok t" using t by (intro identity_update [OF assms(1,2)]) simp_all
  show "fields_ok t" using assms(1) t by (simp add: machine_ok_def fields_ok_def)
  show "phases_ok t" using assms(1,3) t by (auto simp: machine_ok_def phase_defs)
  show "assets_ok t" using assms(1) t by (simp add: machine_ok_def asset_defs)
  show "flow_ok t" using assms(4,5) t by (simp add: flow_defs)
  show "evidence_ok t" using assms(5-7) t by (auto simp: evidence_defs)
qed

lemma analysing:
  assumes "machine_ok m"
    and "sv_analysis (vm_state m) \<in> {Analysis_PROCESSING, Analysis_COMPLETE, Analysis_FAILED_RETRIABLE, Analysis_FAILED_TERMINAL}"
  shows "sv_media (vm_state m) = Media_VALIDATED" "evidence (vm_assets m)" "vm_pending m = None" "uploaded m" "\<not> in_flight m"
  using assms by (auto simp: machine_ok_def evidence_ok_def uploaded_def in_flight_def)

lemma unfinished: "machine_ok m \<Longrightarrow> \<not> finished_analysis m \<Longrightarrow> \<not> output_begun m"
  by (auto simp: machine_ok_def evidence_ok_def)

lemma analysis_update:
  "machine_ok m \<Longrightarrow> vm_case m \<noteq> None \<Longrightarrow> uploaded m \<Longrightarrow> \<not> in_flight m \<Longrightarrow> vm_pending m = None \<Longrightarrow>
   \<not> output_begun m \<Longrightarrow>
   (a \<in> {Analysis_PROCESSING, Analysis_COMPLETE, Analysis_FAILED_RETRIABLE, Analysis_FAILED_TERMINAL} \<Longrightarrow>
      sv_media (vm_state m) = Media_VALIDATED \<and> evidence (vm_assets m)) \<Longrightarrow>
   machine_ok (m\<lparr>vm_state := vm_state m\<lparr>sv_analysis := a\<rparr>\<rparr>)"
  by (rule settled_update [where k = "vm_analysis_retries m"]) auto

lemma analysis_handlers_keep:
  "keeps (analysis_started e)" "keeps (analysis_completed e)" "keeps (analysis_failed e)"
  by (simp add: handler_defs script_defs wp split: option.splits; (intro allI impI conjI)?; 
    (rule analysis_update, assumption); (auto simp: analysing unfinished finished_analysis_def uploaded_def in_flight_def)?)+

text \<open>Changes that leave the assets, the pending action, the media and the analysis alone.\<close>

lemma outside_flow:
  assumes "machine_ok m" and "vm_case m \<noteq> None"
    and "vm_case t = vm_case m" "vm_contractor t = vm_contractor m" "vm_call t = vm_call m" "vm_scenario t = vm_scenario m"
      "vm_created t = vm_created m"
    and "vm_pending t = vm_pending m" "vm_assets t = vm_assets m" "vm_plates t = vm_plates m"
      "vm_recaptures t = vm_recaptures m" "sv_media (vm_state t) = sv_media (vm_state m)"
      "sv_analysis (vm_state t) = sv_analysis (vm_state m)" "sv_consent (vm_state t) = sv_consent (vm_state m)"
    and "sv_case (vm_state t) = sv_case (vm_state m) \<or> sv_case (vm_state t) \<in> set TERMINAL_CASES"
    and "fields_ok t" and "output_begun t \<Longrightarrow> output_begun m \<or> finished_analysis m \<and> vm_pending m = None"
  shows "machine_ok t"
proof (rule machine_okI)
  have s: "in_flight t = in_flight m" "uploaded t = uploaded m" "awaited t = awaited m"
    "finished_analysis t = finished_analysis m" "\<And>p. pending_flow t p = pending_flow m p"
    using assms(3-14) by (simp_all add: in_flight_def uploaded_def awaited_def finished_analysis_def pending_flow_def)
  show "identity_ok t" using assms(3-7) by (rule identity_update [OF assms(1,2)])
  show "fields_ok t" by fact
  have "sv_case (vm_state t) = Case_CREATED \<longrightarrow> sv_case (vm_state m) = Case_CREATED"
    "sv_case (vm_state t) = Case_ACTIVE \<longrightarrow> sv_case (vm_state m) = Case_ACTIVE"
    using assms(15) by (auto simp: TERMINAL_CASES_def)
  then show "phases_ok t" using assms(1,8-14) s by (simp add: machine_ok_def phases_ok_def)
  show "assets_ok t" using assms(1,8-14) s by (simp add: machine_ok_def assets_ok_def)
  show "flow_ok t" using assms(1,8-14) s by (simp add: machine_ok_def flow_ok_def cong: option.case_cong)
  show "evidence_ok t" using assms(1,8-14,17) s by (auto simp: machine_ok_def evidence_ok_def)
qed


lemma analysis_retry_keeps: "keeps (analysis_retry_recorded e)"
proof (intro allI impI)
  fix m assume m: "machine_ok m"
  show "wp_of (analysis_retry_recorded e) (\<lambda>_. machine_ok) (\<lambda>_ _. True) m"
    by (simp add: handler_defs script_defs wp split: option.splits; intro allI impI; rule settled_update [OF m])
       (auto simp: m analysing unfinished finished_analysis_def)
qed

lemma outside_flow_handlers_keep:
  "keeps (packet_ready e)" "keeps (packet_delivery_started e)" "keeps (packet_delivery_receipt e)"
  "keeps (delivery_policy_receipt e)" "keeps (customer_delivery_started e)" "keeps (customer_delivery_receipt e)"
  by (simp add: handler_defs script_defs wp split: option.splits; (intro allI impI conjI)?;
    (rule outside_flow, assumption, simp_all add: machine_ok_def fields_ok_def finished_analysis_def output_begun_def))+

lemma terminal_handlers_keep:
  assumes e: "event_ok e"
  shows "keeps (case_closed e)" "keeps (deletion_verified e)"
  by (simp add: handler_defs script_defs wp split: option.splits; (intro allI impI conjI)?;
    (rule outside_flow, assumption, simp_all add: machine_ok_def fields_ok_def output_begun_def TERMINAL_CASES_def
       aware_or_none_def e [unfolded event_ok_def]))+

lemma consent_requested_keeps: "keeps (consent_requested e)"
proof (intro allI impI)
  fix m assume m: "machine_ok m"
  show "wp_of (consent_requested e) (\<lambda>_. machine_ok) (\<lambda>_ _. True) m"
    by (simp add: handler_defs script_defs wp; intro impI; rule machine_okI; (rule identity_update [OF m]; simp; fail)?)
       (use m in \<open>simp_all add: fresh [OF m] machine_ok_def fields_ok_def phase_defs assets_ok_def awaited_def flow_defs evidence_defs\<close>)
qed

lemma consent_granted_keeps: "keeps (consent_granted e)"
proof (intro allI impI)
  fix m assume m: "machine_ok m"
  show "wp_of (consent_granted e) (\<lambda>_. machine_ok) (\<lambda>_ _. True) m"
    by (simp add: handler_defs script_defs wp; intro impI; rule machine_okI; (rule identity_update [OF m]; simp; fail)?)
       (use m in \<open>simp_all add: fresh [OF m] machine_ok_def fields_ok_def phase_defs assets_ok_def awaited_def flow_defs evidence_defs\<close>)
qed

lemma consent_declined_keeps: 
  assumes e: "event_ok e"
  shows "keeps (consent_declined e)"
proof (intro allI impI)
  fix m assume m: "machine_ok m"
  show "wp_of (consent_declined e) (\<lambda>_. machine_ok) (\<lambda>_ _. True) m"
    by (simp add: handler_defs script_defs wp split: option.splits; intro impI allI; rule machine_okI; (rule identity_update [OF m]; simp; fail)?)
       (use m in \<open>simp_all add: fresh [OF m] machine_ok_def fields_ok_def phase_defs assets_ok_def awaited_def flow_defs evidence_defs
         aware_or_none_def e [unfolded event_ok_def]\<close>)
qed

lemma deletion_retry_keeps: "keeps (deletion_retry_recorded e)"
proof (intro allI impI)
  fix m assume m: "machine_ok m"
  show "wp_of (deletion_retry_recorded e) (\<lambda>_. machine_ok) (\<lambda>_ _. True) m"
    by (simp add: handler_defs script_defs wp split: option.splits; intro allI impI; rule outside_flow [OF m])
       (use m in \<open>auto simp: machine_ok_def fields_ok_def next_attempt_def output_begun_def split: pyval.splits if_splits\<close>)
qed

text \<open>The end of a case: the pending assets are given up, and the media status follows.\<close>

definition give_up :: "string \<times> media_asset \<Rightarrow> string \<times> media_asset" where
  "give_up ka = (fst ka, if ma_validation (snd ka) = Validation_PENDING then (snd ka)\<lparr>ma_validation := Validation_UNAVAILABLE\<rparr>
     else snd ka)"

lemma finalized_assets:
  "map (\<lambda>(k, a). (k, if ma_validation a = Validation_PENDING then a\<lparr>ma_validation := Validation_UNAVAILABLE\<rparr> else a)) kas =
   map give_up kas"
  by (simp add: give_up_def case_prod_beta)

lemma give_up_assets: "keyed kas \<Longrightarrow> keyed (map give_up kas)" "no_asset r (map give_up kas) = no_asset r kas"
proof -
  assume k: "keyed kas"
  have "map fst (map give_up kas) = map fst kas" by (simp add: give_up_def)
  with k have "distinct (map fst (map give_up kas))" by (simp only: keyed_def)
  moreover have "ma_id (snd (give_up ka)) = fst (give_up ka)" if "ka \<in> set kas" for ka
    using k that by (auto simp: keyed_def give_up_def)
  ultimately show "keyed (map give_up kas)" by (simp only: keyed_def) (simp add: case_prod_beta)
next
  have "ma_role (snd (give_up ka)) = ma_role (snd ka)" for ka by (simp add: give_up_def)
  then show "no_asset r (map give_up kas) = no_asset r kas" by (simp add: no_asset_def)
qed

lemma ended_ok:
  assumes m: "machine_ok m" "vm_case m \<noteq> None"
    and t: "vm_case t = vm_case m" "vm_contractor t = vm_contractor m" "vm_call t = vm_call m" "vm_scenario t = vm_scenario m"
      "vm_created t = vm_created m" "vm_pending t = None" "vm_plates t = vm_plates m" "vm_recaptures t = vm_recaptures m"
      "sv_analysis (vm_state t) = sv_analysis (vm_state m)"
      "sv_packet (vm_state t) = sv_packet (vm_state m)" "sv_delivery (vm_state t) = sv_delivery (vm_state m)"
    and flight: "in_flight m \<Longrightarrow> vm_assets t = map give_up (vm_assets m) \<and>
        sv_media (vm_state t) \<in> {Media_VALIDATED, Media_UNAVAILABLE}"
      "\<not> in_flight m \<Longrightarrow> vm_assets t = vm_assets m \<and> sv_media (vm_state t) = sv_media (vm_state m)"
    and phase: "sv_consent (vm_state t) = sv_consent (vm_state m) \<and> sv_case (vm_state t) = sv_case (vm_state m) \<or>
        sv_consent (vm_state t) = sv_consent (vm_state m) \<and> sv_case (vm_state t) \<in> set TERMINAL_CASES \<or>
        sv_consent (vm_state t) = Consent_WITHDRAWN \<and> sv_case (vm_state t) \<in> set TERMINAL_CASES"
    and "fields_ok t"
  shows "machine_ok t"
proof (rule machine_okI)
  have up: "uploaded t = uploaded m" and still: "\<not> in_flight t"
    using flight by (cases "in_flight m"; auto simp: uploaded_def in_flight_def)+
  have as: "length (vm_assets t) = length (vm_assets m)" "vm_assets t = [] \<longleftrightarrow> vm_assets m = []"
    "keyed (vm_assets m) \<Longrightarrow> keyed (vm_assets t)" "no_asset r (vm_assets t) = no_asset r (vm_assets m)" for r
    using flight by (cases "in_flight m"; simp add: give_up_assets)+
  show "identity_ok t" using t(1-5) by (rule identity_update [OF m])
  show "fields_ok t" by fact
  show "flow_ok t" using t(6) still by (simp add: flow_ok_def)
  show "assets_ok t" using m(1) t(6-8) up as by (auto simp: machine_ok_def assets_ok_def awaited_def)
  have created: "sv_case (vm_state m) = Case_CREATED \<and> sv_consent (vm_state t) = sv_consent (vm_state m)"
    if "sv_case (vm_state t) = Case_CREATED" using that phase by (auto simp: TERMINAL_CASES_def)
  have active: "sv_case (vm_state m) = Case_ACTIVE \<and> sv_consent (vm_state t) = sv_consent (vm_state m)"
    if "sv_case (vm_state t) = Case_ACTIVE" using that phase by (auto simp: TERMINAL_CASES_def)
  have consent: "sv_consent (vm_state t) = sv_consent (vm_state m) \<or> sv_consent (vm_state t) = Consent_WITHDRAWN"
    using phase by blast
  have media: "sv_media (vm_state m) \<noteq> Media_NONE" if "sv_media (vm_state t) \<noteq> Media_NONE"
    using that flight by (cases "in_flight m") (auto simp: in_flight_def)
  have p: "phases_ok m" using m(1) by (simp add: machine_ok_def)
  have "sv_consent (vm_state t) \<in> {Consent_GRANTED, Consent_WITHDRAWN}" if "sv_media (vm_state t) \<noteq> Media_NONE"
    using media [OF that] p consent unfolding phases_ok_def by auto
  with p created active show "phases_ok t" unfolding phases_ok_def using t(6-9) as(2) up by simp
  show "evidence_ok t"
  proof (cases "in_flight m")
    case True
    with m(1) analysing [OF m(1)] have "\<not> output_begun m \<or> finished_analysis m" "sv_analysis (vm_state m) \<notin> {Analysis_PROCESSING, Analysis_COMPLETE, Analysis_FAILED_RETRIABLE, Analysis_FAILED_TERMINAL}"
      by (auto simp: machine_ok_def evidence_ok_def)
    with t show ?thesis by (auto simp: evidence_defs)
  next
    case False
    with flight m(1) t show ?thesis by (simp add: machine_ok_def evidence_defs)
  qed
qed

lemma ending_handlers_keep:
  assumes e: "event_ok e"
  shows "keeps (consent_withdrawn e)" "keeps (terminal_case e Case_CANCELLED c)" "keeps (terminal_case e Case_EXPIRED c)"
    "keeps (deletion_requested e)"
  by (simp add: handler_defs script_defs wp finalized_assets split: option.splits; (intro allI impI conjI)?;
    (rule ended_ok, assumption, simp_all add: machine_ok_def fields_ok_def TERMINAL_CASES_def in_flight_def
       aware_or_none_def e [unfolded event_ok_def]))+


section \<open>Issuing an action\<close>

lemma split_on_length: "Suc (length s) = sum_list (map (Suc \<circ> length) (split_on c s))"
  by (induction s) (auto split: list.splits)

lemma locale_length: "locale_tag s \<Longrightarrow> length s \<le> 35"
  using split_on_length [of s "CHR ''-''"]
  by (auto simp: locale_tag_def language_part_def script_part_def region_part_def split: list.splits)

lemma matches_length: "matches f g n s \<Longrightarrow> length s \<le> n"
  by (cases s) (simp_all add: matches_def)

lemma str_fieldD: "str_field ok v = Inr s \<Longrightarrow> ok s"
  by (auto simp: str_field_def split: pyval.splits if_splits)

lemma none_or_strD: "none_or (str_field ok) v = Inr x \<Longrightarrow> code_or_none ok x"
  by (auto simp: none_or_def code_or_none_def ebind_eq_Inr dest: str_fieldD split: if_splits)

lemma short: "code_or_none ok x \<Longrightarrow> (\<And>s. ok s \<Longrightarrow> length s \<le> n) \<Longrightarrow> short_or_none n x"
  by (auto simp: code_or_none_def short_or_none_def split: option.splits)

lemma made_action:
  assumes "make_customer_action request kind bucket copy options lcl optionality rfs dec ev issued expires = Inr a"
  shows "action_ok a" "ac_kind a = kind" "ac_status a = Status_ISSUED"
proof -
  from assms obtain cp os l ot rf where "opaque_ref request" "code bucket" "none_or (str_field opaque_ref) copy = Inr cp"
    "option_codes options = Inr os" "str_field locale_tag lcl = Inr l" "str_field (\<lambda>s. code s \<and> length s \<le> 32) optionality = Inr ot"
    "none_or (str_field code) rfs = Inr rf"
    and a: "ac_request a = request" "ac_bucket a = bucket" "ac_copy a = cp" "ac_options a = os" "ac_locale a = l"
      "ac_optionality a = ot" "ac_refusal a = rf" "ac_kind a = kind" "ac_status a = Status_ISSUED"
    by (auto simp: make_customer_action_def ebind_eq_Inr split: if_splits)
  moreover from this have "length os \<le> 8"
    by (auto simp: option_codes_def dest: collect_length split: if_splits)
  moreover have "length s \<le> 128" if "opaque_ref s" for s using that by (simp add: opaque_ref_def matches_length)
  moreover have "length s \<le> 64" if "code s" for s using that by (simp add: code_def matches_length)
  ultimately show "action_ok a" "ac_kind a = kind" "ac_status a = Status_ISSUED"
    by (auto simp: action_ok_def locale_length dest!: str_fieldD none_or_strD intro: short)
qed

lemma wp_action_from_payload:
  assumes "\<And>a. action_ok a \<Longrightarrow> ac_kind a = kind \<Longrightarrow> ac_status a = Status_ISSUED \<Longrightarrow> Q a m"
  shows "wp_of (action_from_payload P e kind) Q (\<lambda>_ _. True) m"
  by (auto simp: action_from_payload_def script_defs wp constructing_def intro!: assms dest: made_action
      split: option.splits sum.splits)

lemma issued_ok:
  assumes m: "machine_ok m" "vm_case m \<noteq> None" "vm_pending m = None" "\<not> output_begun m" "uploaded m" "\<not> in_flight m"
    and a: "action_ok a" "ac_status a = Status_ISSUED"
    and t: "t = m\<lparr>vm_plates := p, vm_recaptures := r, vm_questions := q, vm_pending := Some a,
        vm_state := vm_state m\<lparr>sv_analysis := Analysis_AWAITING_CUSTOMER_ACTION\<rparr>\<rparr>"
    and counts: "p \<le> 1" "r \<le> 1" "q \<le> 2"
    and kind: "ac_kind a = Kind_DIAGNOSTIC_QUESTION \<and> p = vm_plates m \<and> r = vm_recaptures m \<or>
       ac_kind a = Kind_RATING_PLATE \<and> vm_plates m = 0 \<and> p = 1 \<and> r = vm_recaptures m \<or>
       ac_kind a = Kind_TARGETED_RECAPTURE \<and> vm_recaptures m = 0 \<and> p = vm_plates m \<and> r = 1"
  shows "machine_ok t"
proof (rule machine_okI)
  have ok: "identity_ok m" "fields_ok m" "phases_ok m" "assets_ok m" using m(1) by (simp_all add: machine_ok_def)
  show "identity_ok t" using t by (intro identity_update [OF m(1,2)]) simp_all
  show "fields_ok t" using ok(2) counts t by (simp add: fields_ok_def)
  show "phases_ok t" using ok(3) m(5) t by (simp add: phase_defs)
  show "assets_ok t" using ok(4) kind m(3,5) a(2) t by (auto simp: assets_ok_def awaited_def uploaded_def)
  show "flow_ok t" using ok(4) kind m(6) a t by (auto simp: flow_defs assets_ok_def)
  show "evidence_ok t" using m(4) t by (simp add: evidence_defs)
qed

lemma question_ready: "machine_ok m \<Longrightarrow> vm_pending m = None \<Longrightarrow> finished_analysis m \<Longrightarrow> uploaded m \<and> \<not> in_flight m"
  by (auto simp: machine_ok_def phases_ok_def flow_ok_def finished_analysis_def)


lemma wp_issue:
  assumes "\<And>a. action_ok a \<Longrightarrow> ac_kind a = kind \<Longrightarrow> ac_status a = Status_ISSUED \<Longrightarrow>
    Q () (m\<lparr>vm_pending := Some a, vm_state := vm_state m\<lparr>sv_analysis := Analysis_AWAITING_CUSTOMER_ACTION\<rparr>\<rparr>)"
  shows "wp_of (issue P e kind) Q (\<lambda>_ _. True) m"
  unfolding issue_def with_state_def wp by (rule wp_action_from_payload) (simp add: wp assms)

lemma wp_options [wp]:
  "wp_of (case v of PList (_ # _) \<Rightarrow> n | _ \<Rightarrow> k) Q E s \<longleftrightarrow>
   (if \<exists>x xs. v = PList (x # xs) then wp_of n Q E s else wp_of k Q E s)"
  by (auto split: pyval.splits list.splits)

lemmas issue_defs = completed_def reject_def require_case_def require_not_deleting_def require_active_def
  require_no_pending_def with_text_def with_member_def require_no_output_def

lemma issued_question_ok:
  "machine_ok m \<Longrightarrow> vm_case m \<noteq> None \<Longrightarrow> vm_pending m = None \<Longrightarrow> \<not> output_begun m \<Longrightarrow> finished_analysis m \<Longrightarrow>
   vm_questions m \<le> 1 \<Longrightarrow> action_ok a \<Longrightarrow> ac_status a = Status_ISSUED \<Longrightarrow> ac_kind a = Kind_DIAGNOSTIC_QUESTION \<Longrightarrow>
   machine_ok (m\<lparr>vm_questions := Suc (vm_questions m), vm_pending := Some a,
     vm_state := vm_state m\<lparr>sv_analysis := Analysis_AWAITING_CUSTOMER_ACTION\<rparr>\<rparr>)"
  by (rule issued_ok [where p = "vm_plates m" and r = "vm_recaptures m" and q = "Suc (vm_questions m)"])
     (auto simp: question_ready machine_ok_def fields_ok_def)

lemma issued_plate_ok:
  "machine_ok m \<Longrightarrow> vm_case m \<noteq> None \<Longrightarrow> vm_pending m = None \<Longrightarrow> \<not> output_begun m \<Longrightarrow> sv_media (vm_state m) = Media_VALIDATED \<Longrightarrow>
   vm_plates m = 0 \<Longrightarrow> action_ok a \<Longrightarrow> ac_status a = Status_ISSUED \<Longrightarrow> ac_kind a = Kind_RATING_PLATE \<Longrightarrow>
   machine_ok (m\<lparr>vm_plates := Suc (vm_plates m), vm_pending := Some a,
     vm_state := vm_state m\<lparr>sv_analysis := Analysis_AWAITING_CUSTOMER_ACTION\<rparr>\<rparr>)"
  by (rule issued_ok [where p = "Suc (vm_plates m)" and r = "vm_recaptures m" and q = "vm_questions m"])
     (auto simp: machine_ok_def fields_ok_def uploaded_def in_flight_def)

lemma issued_recapture_ok:
  "machine_ok m \<Longrightarrow> vm_case m \<noteq> None \<Longrightarrow> vm_pending m = None \<Longrightarrow> \<not> output_begun m \<Longrightarrow> sv_media (vm_state m) = Media_REJECTED \<Longrightarrow>
   vm_recaptures m = 0 \<Longrightarrow> action_ok a \<Longrightarrow> ac_status a = Status_ISSUED \<Longrightarrow> ac_kind a = Kind_TARGETED_RECAPTURE \<Longrightarrow>
   machine_ok (m\<lparr>vm_recaptures := Suc (vm_recaptures m), vm_pending := Some a,
     vm_state := vm_state m\<lparr>sv_analysis := Analysis_AWAITING_CUSTOMER_ACTION\<rparr>\<rparr>)"
  by (rule issued_ok [where p = "vm_plates m" and r = "Suc (vm_recaptures m)" and q = "vm_questions m"])
     (auto simp: machine_ok_def fields_ok_def uploaded_def in_flight_def)

lemma issuing_handlers_keep: "keeps (diagnostic_question_issued P e)" "keeps (media_action_issued P e)"
proof -
  show "keeps (diagnostic_question_issued P e)"
    by (simp add: diagnostic_question_issued_def issue_defs wp; intro allI impI; rule wp_issue; simp only: wp; simp;
        rule issued_question_ok; simp add: output_begun_def)
  show "keeps (media_action_issued P e)"
    by (simp add: media_action_issued_def issue_media_action_def issue_defs wp; intro allI impI conjI;
        rule wp_issue; simp only: wp; simp;
        (rule issued_plate_ok | rule issued_recapture_ok);
        auto simp: output_begun_def MEDIA_ACTION_KINDS_def)
qed

section \<open>Assets\<close>

lemma set_update_keyed:
  "distinct (map fst kas) \<Longrightarrow> set (AList.update k v kas) = insert (k, v) {ka \<in> set kas. fst ka \<noteq> k}"
  by (induction kas) (auto simp: image_iff)

lemma length_update: "length (AList.update k v kas) = (if k \<in> fst ` set kas then length kas else Suc (length kas))"
  by (induction kas) auto

lemma keyed_update: "keyed kas \<Longrightarrow> ma_id a = k \<Longrightarrow> keyed (AList.update k a kas)"
  by (auto simp: keyed_def set_update_keyed distinct_update)

lemma keyed_unique: "keyed kas \<Longrightarrow> map_of kas k = Some b \<Longrightarrow> (k, c) \<in> set kas \<Longrightarrow> c = b"
  by (simp add: keyed_def)

lemma known_asset: "keyed kas \<Longrightarrow> map_of kas k = Some a \<Longrightarrow> ma_id a = k \<and> k \<in> fst ` set kas"
  by (force simp: keyed_def dest: map_of_SomeD)

lemma no_asset_update:
  assumes k: "keyed kas" and b: "map_of kas k = Some b" and "ma_role a = ma_role b"
  shows "no_asset r (AList.update k a kas) = no_asset r kas"
proof -
  have "set kas = insert (k, b) {ka \<in> set kas. fst ka \<noteq> k}"
  proof (intro equalityI subsetI)
    fix ka assume ka: "ka \<in> set kas"
    have "snd ka = b" if "fst ka = k" using keyed_unique [OF k b, of "snd ka"] ka that by (cases ka) simp
    with ka show "ka \<in> insert (k, b) {ka \<in> set kas. fst ka \<noteq> k}" by (auto simp: prod_eq_iff)
  qed (use map_of_SomeD [OF b] in auto)
  from arg_cong [OF this, where f = "\<lambda>S. \<forall>ka \<in> S. ma_role (snd ka) \<noteq> r"]
  have "no_asset r kas \<longleftrightarrow> (\<forall>ka \<in> insert (k, b) {ka \<in> set kas. fst ka \<noteq> k}. ma_role (snd ka) \<noteq> r)"
    by (simp add: no_asset_def)
  also have "\<dots> \<longleftrightarrow> no_asset r (AList.update k a kas)"
    using assms by (simp add: no_asset_def set_update_keyed keyed_def)
  finally show ?thesis by simp
qed

lemma resolved_ok:
  assumes m: "machine_ok m" "vm_case m \<noteq> None" "vm_pending m \<noteq> None"
    and t: "t = m\<lparr>vm_assets := kas, vm_resolved := rs, vm_pending := None,
        vm_state := vm_state m\<lparr>sv_media := md, sv_analysis := a\<rparr>\<rparr>"
    and "length rs \<le> 4" "a \<in> {Analysis_READY, Analysis_ABSTAINED}"
      "md \<notin> {Media_NONE, Media_AWAITING_REQUIRED, Media_UPLOAD_PENDING, Media_UPLOADED_QUARANTINED}"
    and kas: "kas = vm_assets m \<or> (\<exists>k b. map_of (vm_assets m) k = Some b \<and> kas = AList.update k (b\<lparr>ma_validation := v\<rparr>) (vm_assets m))"
  shows "machine_ok t"
proof (rule machine_okI)
  have ok: "identity_ok m" "fields_ok m" "phases_ok m" "assets_ok m" using m(1) by (simp_all add: machine_ok_def)
  have k: "keyed (vm_assets m)" using ok(4) by (simp add: assets_ok_def)
  have kas': "keyed kas" "length kas = length (vm_assets m)" "no_asset r kas = no_asset r (vm_assets m)" for r
    using kas k by (auto simp: length_update no_asset_update intro!: keyed_update dest: known_asset)
  have up: "uploaded m" using ok(3) m(3) by (simp add: phases_ok_def)
  show "identity_ok t" using t by (intro identity_update [OF m(1,2)]) simp_all
  show "fields_ok t" using ok(2) assms(5) t by (simp add: fields_ok_def)
  have "sv_media (vm_state m) \<noteq> Media_NONE" using up by (auto simp: uploaded_def)
  with ok(3) assms(7) t show "phases_ok t" by (simp add: phases_ok_def uploaded_def)
  show "assets_ok t" using ok(4) kas' up assms(7) t by (simp add: assets_ok_def awaited_def uploaded_def)
  show "flow_ok t" using assms(7) t by (simp add: flow_defs)
  have "\<not> output_begun m" using m by (auto simp: machine_ok_def evidence_ok_def)
  with t assms(6) show "evidence_ok t" by (auto simp: evidence_defs)
qed

lemma question_resolved_ok:
  assumes m: "machine_ok m" "vm_case m \<noteq> None" and p: "vm_pending m = Some p" "ac_kind p = Kind_DIAGNOSTIC_QUESTION"
    and "length rs \<le> 4" "a \<in> {Analysis_READY, Analysis_ABSTAINED}"
  shows "machine_ok (m\<lparr>vm_resolved := rs, vm_pending := None, vm_state := vm_state m\<lparr>sv_analysis := a\<rparr>\<rparr>)"
proof (rule resolved_ok [OF m, where kas = "vm_assets m" and md = "sv_media (vm_state m)"])
  show "sv_media (vm_state m) \<notin> {Media_NONE, Media_AWAITING_REQUIRED, Media_UPLOAD_PENDING, Media_UPLOADED_QUARANTINED}"
    using m(1) p by (simp add: machine_ok_def phases_ok_def uploaded_def flow_defs)
qed (use assms in simp_all)

lemma customer_action_resolved_keeps: "keeps (customer_action_resolved e)"
proof (intro allI impI)
  fix m assume m: "machine_ok m"
  show "wp_of (customer_action_resolved e) (\<lambda>_. machine_ok) (\<lambda>_ _. True) m"
    by (simp add: customer_action_resolved_def resolve_question_def script_defs wp Let_def split: option.splits;
        intro allI impI conjI; rule question_resolved_ok [OF m]; simp)
qed

lemma role_asset_pending:
  "keyed kas \<Longrightarrow> map_of kas k = Some a \<Longrightarrow> all_pending r kas \<Longrightarrow> ma_role a = r \<Longrightarrow> ma_validation a = Validation_PENDING"
  by (auto simp: all_pending_def dest!: map_of_SomeD)

text \<open>The four ways a media action is resolved: where its asset stands when the resolution is allowed.\<close>

lemma media_resolved_ok:
  assumes m: "machine_ok m" "vm_case m \<noteq> None" and p: "vm_pending m = Some p" "ac_kind p \<noteq> Kind_DIAGNOSTIC_QUESTION"
    and "length rs \<le> 4" "a \<in> {Analysis_READY, Analysis_ABSTAINED}"
    and kas: "kas = vm_assets m \<or> (\<exists>k b. map_of (vm_assets m) k = Some b \<and> kas = AList.update k (b\<lparr>ma_validation := v\<rparr>) (vm_assets m))"
    and md: "in_flight m \<Longrightarrow> md \<in> {Media_VALIDATED, Media_REJECTED}" "\<not> in_flight m \<Longrightarrow> md = sv_media (vm_state m)"
  shows "machine_ok (m\<lparr>vm_assets := kas, vm_resolved := rs, vm_pending := None,
      vm_state := vm_state m\<lparr>sv_media := md, sv_analysis := a\<rparr>\<rparr>)"
proof (rule resolved_ok [OF m])
  have "uploaded m" using m(1) p by (simp add: machine_ok_def phases_ok_def)
  then show "md \<notin> {Media_NONE, Media_AWAITING_REQUIRED, Media_UPLOAD_PENDING, Media_UPLOADED_QUARANTINED}"
    using md by (cases "in_flight m") (auto simp: in_flight_def uploaded_def)
qed (use assms in simp_all)

lemma settled_flight:
  assumes "machine_ok m" and "vm_pending m = Some p" and "ac_kind p \<noteq> Kind_DIAGNOSTIC_QUESTION"
    and "ac_status p = Status_ISSUED \<or> ac_status p = Status_SUBMITTED \<and> map_of (vm_assets m) k = Some b \<and>
           ma_role b = action_role (ac_kind p) \<and> ma_validation b \<noteq> Validation_PENDING"
  shows "\<not> in_flight m"
proof -
  from assms(1,2) have f: "pending_flow m p" and k: "keyed (vm_assets m)"
    by (auto simp: machine_ok_def flow_ok_def assets_ok_def)
  show ?thesis
  proof (cases "ac_status p = Status_ISSUED")
    case True
    with f assms(3) show ?thesis by (auto simp: pending_flow_def)
  next
    case False
    with assms(4) have s: "ac_status p = Status_SUBMITTED" "map_of (vm_assets m) k = Some b"
      "ma_role b = action_role (ac_kind p)" "ma_validation b \<noteq> Validation_PENDING" by auto
    from role_asset_pending [OF k s(2) _ s(3)] s(4) have "\<not> all_pending (action_role (ac_kind p)) (vm_assets m)" by blast
    with f s(1) assms(3) show ?thesis by (auto simp: pending_flow_def in_flight_def)
  qed
qed


lemma wp_settle_asset:
  assumes m: "machine_ok m" and p: "vm_pending m = Some p" "ac_kind p \<noteq> Kind_DIAGNOSTIC_QUESTION"
    and Q: "\<And>kas. kas = vm_assets m \<or> (\<exists>k b. map_of (vm_assets m) k = Some b \<and>
           kas = AList.update k (b\<lparr>ma_validation := Validation_UNAVAILABLE\<rparr>) (vm_assets m)) \<Longrightarrow>
        (status \<notin> set ABORTED \<Longrightarrow> \<not> in_flight m) \<Longrightarrow> Q () (m\<lparr>vm_assets := kas\<rparr>)"
  shows "wp_of (settle_asset e p (action_role (ac_kind p)) status) Q (\<lambda>_ _. True) m"
proof -
  have k: "keyed (vm_assets m)" using m by (simp add: machine_ok_def assets_ok_def)
  have same: "Q () m" if "status \<notin> set ABORTED \<Longrightarrow> \<not> in_flight m" using Q [of "vm_assets m"] that by simp
  have flight: "\<not> in_flight m"
    if "ac_status p = Status_SUBMITTED" "map_of (vm_assets m) j = Some b" "ma_role b = action_role (ac_kind p)"
      "ma_validation b \<noteq> Validation_PENDING" for j b
    using settled_flight [OF m p] that by blast
  have issued: "\<not> in_flight m" if "ac_status p = Status_ISSUED" using settled_flight [OF m p] that by blast
  have put: "Q () (m\<lparr>vm_assets := AList.update (ma_id b) (b\<lparr>ma_validation := Validation_UNAVAILABLE\<rparr>) (vm_assets m)\<rparr>)"
    if "map_of (vm_assets m) j = Some b" "status \<in> set ABORTED" for j b
    using Q known_asset [OF k that(1)] that by blast
  show ?thesis
    unfolding settle_asset_def
    by (simp add: script_defs wp split: option.splits; intro conjI impI allI; (rule same | rule put); (simp add: flight issued)?)
qed

lemma wp_guarded:
  "(\<not> b \<Longrightarrow> wp_of (steps ns) Q (\<lambda>_ _. True) m) \<Longrightarrow> wp_of (steps (reject b c # ns)) Q (\<lambda>_ _. True) m"
  "(\<not> b \<Longrightarrow> wp_of (steps ns) Q (\<lambda>_ _. True) m) \<Longrightarrow> (\<not> d \<Longrightarrow> wp_of (steps ns) Q (\<lambda>_ _. True) m) \<Longrightarrow>
   wp_of (steps ((if x then reject b c else reject d c') # ns)) Q (\<lambda>_ _. True) m"
  by (simp_all add: wp reject_def)

lemma wp_resolve_media_action:
  assumes m: "machine_ok m" "vm_case m \<noteq> None" and p: "vm_pending m = Some p" "ac_kind p \<noteq> Kind_DIAGNOSTIC_QUESTION"
  shows "wp_of (resolve_media_action e p (action_role (ac_kind p)) status) (\<lambda>_. machine_ok) (\<lambda>_ _. True) m"
proof -
  have "wp_of (settle_asset e p (action_role (ac_kind p)) status) (\<lambda>_ n. machine_ok (n\<lparr>vm_resolved :=
      (let rs = vm_resolved n @ [p\<lparr>ac_status := status, ac_resolved := Some (ck_time e)\<rparr>] in drop (length rs - 4) rs),
      vm_pending := None, vm_state := vm_state n\<lparr>sv_media := resolved_media status (evidence (vm_assets n)) (sv_media (vm_state n)),
      sv_analysis := resolved_analysis status (evidence (vm_assets n))\<rparr>\<rparr>)) (\<lambda>_ _. True) m"
    by (rule wp_settle_asset [OF m(1) p], simp, rule media_resolved_ok [OF m p])
       (auto simp: resolved_media_def resolved_analysis_def in_flight_def)
  then show ?thesis
    unfolding resolve_media_action_def
    by (intro wp_guarded; simp only: wp_steps(2) [of "settle_asset _ _ _ _"]; elim wp_mono)
       (simp_all add: resolve_pending_def with_state_def wp)
qed

lemma media_action_resolved_keeps: "keeps (media_action_resolved e)"
proof (intro allI impI)
  fix m assume m: "machine_ok m"
  have role: "role_for_action k = Inr r \<Longrightarrow> r = action_role k" for k r
    by (cases k) (simp_all add: role_for_action_def)
  show "wp_of (media_action_resolved e) (\<lambda>_. machine_ok) (\<lambda>_ _. True) m"
    apply (simp add: media_action_resolved_def issue_defs wp split: option.splits)
    apply (intro allI impI)
    apply (frule role)
    apply (simp only: )
    apply (rule wp_mono, rule wp_resolve_media_action [OF m])
      apply (auto simp: MEDIA_ACTION_KINDS_def wp)
   done
qed


section \<open>Uploading and validating\<close>

lemma made_asset:
  "make_asset k r mt b d w h g = Inr a \<Longrightarrow> ma_id a = k \<and> ma_role a = r \<and> ma_validation a = Validation_PENDING"
  by (auto simp: make_asset_def ebind_eq_Inr split: if_splits)

lemma all_pending_add:
  "k \<notin> fst ` set kas \<Longrightarrow> no_asset r kas \<Longrightarrow> ma_validation a = Validation_PENDING \<Longrightarrow> distinct (map fst kas) \<Longrightarrow>
   all_pending r (AList.update k a kas)"
  by (auto simp: all_pending_def no_asset_def set_update_keyed)

lemma first_upload_ok:
  assumes m: "machine_ok m" "vm_case m \<noteq> None" "vm_pending m = None" "sv_media (vm_state m) = Media_AWAITING_REQUIRED"
    and a: "ma_id a = k" "ma_role a = Role_SYMPTOM_VIDEO"
  shows "machine_ok (m\<lparr>vm_assets := AList.update k a (vm_assets m), vm_pending := None,
    vm_state := vm_state m\<lparr>sv_media := Media_UPLOAD_PENDING\<rparr>\<rparr>)" (is "machine_ok ?t")
proof (rule machine_okI)
  have ok: "fields_ok m" "phases_ok m" "assets_ok m" "evidence_ok m" using m(1) by (simp_all add: machine_ok_def)
  have "\<not> uploaded m" using m(4) by (simp add: uploaded_def)
  with ok(2) have z: "vm_assets m = []" "vm_plates m = 0" "vm_recaptures m = 0" "sv_analysis (vm_state m) = Analysis_NOT_STARTED"
    by (simp_all add: phases_ok_def)
  show "identity_ok ?t" by (intro identity_update [OF m(1,2)]) simp_all
  show "fields_ok ?t" using ok(1) by (simp add: fields_ok_def)
  show "phases_ok ?t" using ok(2) m(4) by (simp add: phases_ok_def uploaded_def)
  show "assets_ok ?t" using z a m(3) by (simp add: asset_defs keyed_def no_asset_def)
  show "flow_ok ?t" using z m(3) by (simp add: flow_ok_def)
  show "evidence_ok ?t" using ok(4) z by (simp add: evidence_defs)
qed

lemma action_upload_ok:
  assumes m: "machine_ok m" "vm_case m \<noteq> None" and p: "vm_pending m = Some p" "ac_kind p \<noteq> Kind_DIAGNOSTIC_QUESTION"
      "ac_status p = Status_ISSUED" and k: "k \<notin> fst ` set (vm_assets m)"
    and a: "ma_id a = k" "ma_role a = action_role (ac_kind p)" "ma_validation a = Validation_PENDING"
  shows "machine_ok (m\<lparr>vm_assets := AList.update k a (vm_assets m), vm_pending := Some (p\<lparr>ac_status := Status_UPLOADING\<rparr>),
    vm_state := vm_state m\<lparr>sv_media := Media_UPLOAD_PENDING\<rparr>\<rparr>)" (is "machine_ok ?t")
proof (rule machine_okI)
  have ok: "fields_ok m" "phases_ok m" "assets_ok m" "evidence_ok m" "pending_flow m p"
    using m(1) p by (simp_all add: machine_ok_def flow_ok_def)
  have up: "uploaded m" using ok(2) p(1) by (simp add: phases_ok_def)
  have key: "keyed (vm_assets m)" using ok(3) by (simp add: assets_ok_def)
  have none: "no_asset (action_role (ac_kind p)) (vm_assets m)" using ok(5) p by (simp add: pending_flow_def)
  show "identity_ok ?t" by (intro identity_update [OF m(1,2)]) simp_all
  show "fields_ok ?t" using ok(1) by (simp add: fields_ok_def)
  show "phases_ok ?t" using ok(2) up by (auto simp: phases_ok_def uploaded_def)
  have "no_asset Role_RATING_PLATE (AList.update k a (vm_assets m))" if "vm_plates m = 0"
    using that ok(3,5) a(2) p(2) key
    by (cases "ac_kind p") (auto simp: assets_ok_def pending_flow_def no_asset_def set_update_keyed keyed_def)
  moreover have "no_asset Role_TARGETED_RECAPTURE (AList.update k a (vm_assets m))" if "vm_recaptures m = 0"
    using that ok(3,5) a(2) p(2) key
    by (cases "ac_kind p") (auto simp: assets_ok_def pending_flow_def no_asset_def set_update_keyed keyed_def)
  ultimately show "assets_ok ?t"
    using ok(3) up p k keyed_update [OF key a(1)] by (simp add: asset_defs length_update)
  show "flow_ok ?t"
    using ok(5) p all_pending_add [OF k none a(3)] key by (simp add: flow_defs action_ok_def keyed_def)
  have "sv_analysis (vm_state m) = Analysis_AWAITING_CUSTOMER_ACTION" using ok(5) by (simp add: pending_flow_def)
  with ok(4) p(1) show "evidence_ok ?t" by (simp add: evidence_defs)
qed

lemma upload_started_keeps: "keeps (upload_started e)"
proof (intro allI impI)
  fix m assume m: "machine_ok m"
  have role: "role_for_action k = Inr r \<Longrightarrow> k \<noteq> Kind_DIAGNOSTIC_QUESTION \<and> r = action_role k" for k r
    by (cases k) (simp_all add: role_for_action_def)
  show "wp_of (upload_started e) (\<lambda>_. machine_ok) (\<lambda>_ _. True) m"
    by (simp add: upload_started_def upload_role_def asset_from_payload_def script_defs constructing_def wp
          split: option.splits sum.splits; intro allI impI conjI; (drule role)?; (drule made_asset)?;
        simp?; (rule first_upload_ok [OF m] | rule action_upload_ok [OF m]); auto simp: MEDIA_ACTION_KINDS_def)
qed

lemma finalized_ok:
  assumes m: "machine_ok m" "vm_case m \<noteq> None" "sv_media (vm_state m) = Media_UPLOAD_PENDING"
    and p: "q = (case vm_pending m of None \<Rightarrow> None | Some p \<Rightarrow> Some (p\<lparr>ac_status := Status_SUBMITTED\<rparr>))"
      "\<And>p. vm_pending m = Some p \<Longrightarrow> ac_status p = Status_UPLOADING"
  shows "machine_ok (m\<lparr>vm_pending := q, vm_state := vm_state m\<lparr>sv_media := Media_UPLOADED_QUARANTINED\<rparr>\<rparr>)" (is "machine_ok ?t")
proof (rule machine_okI)
  have ok: "fields_ok m" "phases_ok m" "assets_ok m" "evidence_ok m" "flow_ok m"
    using m(1) by (simp_all add: machine_ok_def)
  have q: "q = None \<longleftrightarrow> vm_pending m = None" using p(1) by (simp split: option.splits)
  show "identity_ok ?t" by (intro identity_update [OF m(1,2)]) simp_all
  show "fields_ok ?t" using ok(1) by (simp add: fields_ok_def)
  show "phases_ok ?t" using ok(2) m(3) q by (simp add: phases_ok_def uploaded_def)
  have "awaited ?t = awaited m" using p by (simp add: awaited_def split: option.splits)
  then show "assets_ok ?t" using ok(3) m(3) by (simp add: assets_ok_def uploaded_def)
  show "flow_ok ?t"
    using ok(5) p m(3) by (cases "vm_pending m") (auto simp: flow_defs action_ok_def split: if_splits)
  show "evidence_ok ?t" using ok(4) m(3) q by (auto simp: evidence_defs)
qed

lemma upload_finalized_keeps: "keeps (upload_finalized e)"
proof (intro allI impI)
  fix m assume m: "machine_ok m"
  have same: "m\<lparr>vm_state := s\<rparr> = m\<lparr>vm_pending := None, vm_state := s\<rparr>" if "vm_pending m = None" for s
    using that by (intro machine.equality) simp_all
  show "wp_of (upload_finalized e) (\<lambda>_. machine_ok) (\<lambda>_ _. True) m"
    by (simp add: upload_finalized_def script_defs wp same split: option.splits; intro allI impI conjI; simp?;
        rule finalized_ok [OF m]; auto)
qed

lemma validated_ok:
  assumes m: "machine_ok m" "vm_case m \<noteq> None" "sv_media (vm_state m) = Media_UPLOADED_QUARANTINED"
    and b: "map_of (vm_assets m) k = Some b"
    and md: "md \<in> {Media_VALIDATED, Media_REJECTED, Media_UNAVAILABLE}"
    and a: "if vm_pending m \<noteq> None then a = Analysis_AWAITING_CUSTOMER_ACTION else a \<in> {Analysis_READY, Analysis_ABSTAINED}"
  shows "machine_ok (m\<lparr>vm_assets := AList.update (ma_id b) (b\<lparr>ma_validation := v\<rparr>) (vm_assets m),
    vm_state := vm_state m\<lparr>sv_media := md, sv_analysis := a\<rparr>\<rparr>)" (is "machine_ok ?t")
proof (rule machine_okI)
  have ok: "fields_ok m" "phases_ok m" "assets_ok m" "evidence_ok m" "flow_ok m"
    using m(1) by (simp_all add: machine_ok_def)
  have key: "keyed (vm_assets m)" using ok(3) by (simp add: assets_ok_def)
  have idb: "ma_id b = k" "k \<in> fst ` set (vm_assets m)" using known_asset [OF key b] by simp_all
  have up: "uploaded m" "uploaded ?t" "\<not> in_flight ?t" using m(3) md by (auto simp: uploaded_def in_flight_def)
  show "identity_ok ?t" by (intro identity_update [OF m(1,2)]) simp_all
  show "fields_ok ?t" using ok(1) by (simp add: fields_ok_def)
  show "phases_ok ?t" using ok(2) m(3) up by (simp add: phases_ok_def)
  show "assets_ok ?t"
    using ok(3) up idb keyed_update [OF key, of "b\<lparr>ma_validation := v\<rparr>"] no_asset_update [OF key b, of "b\<lparr>ma_validation := v\<rparr>"]
    by (simp add: assets_ok_def awaited_def length_update)
  show "flow_ok ?t"
  proof (cases "vm_pending m")
    case None
    with up show ?thesis by (simp add: flow_ok_def)
  next
    case (Some p)
    with ok(5) m(3) have "ac_kind p \<noteq> Kind_DIAGNOSTIC_QUESTION \<and> ac_status p = Status_SUBMITTED"
      by (auto simp: flow_defs split: if_splits)
    with Some ok(5) a md show ?thesis by (auto simp: flow_defs)
  qed
  have "\<not> output_begun m" using ok(4,5) m(3) by (auto simp: evidence_ok_def flow_ok_def in_flight_def finished_analysis_def)
  with a show "evidence_ok ?t" by (auto simp: evidence_defs split: if_splits)
qed

lemma media_after_final: "v \<noteq> Validation_PENDING \<Longrightarrow> media_after v \<in> {Media_VALIDATED, Media_REJECTED, Media_UNAVAILABLE}"
  by (cases v) simp_all

lemma media_validated_keeps: "keeps (media_validated e)"
proof (intro allI impI)
  fix m assume m: "machine_ok m"
  show "wp_of (media_validated e) (\<lambda>_. machine_ok) (\<lambda>_ _. True) m"
    by (simp add: media_validated_def script_defs wp split: option.splits; intro allI impI conjI;
      rule validated_ok [OF m]; (simp; fail | assumption | (rule media_after_final; simp; fail) | (simp split: if_splits)))
qed

lemma case_created_keeps:
  assumes e: "event_ok e"
  shows "keeps (case_created e)"
proof (intro allI impI)
  fix m assume m: "machine_ok m"
  have len: "length s \<le> 128" if "code (dots_to_colons s)" for s
    using that by (auto simp: code_def dots_to_colons_def dest!: matches_length)
  have fields: "code (dots_to_colons s') \<and> length s' \<le> 128 \<and> (case r of None \<Rightarrow> True | Some x \<Rightarrow> opaque_ref x)"
    if "case_fields s kvs = Inr (s', r)" for s kvs s' r
    using that by (auto simp: case_fields_def len split: if_splits pyval.splits)
  show "wp_of (case_created e) (\<lambda>_. machine_ok) (\<lambda>_ _. True) m"
  proof (cases "vm_case m")
    case None
    with m have "m = new_machine" by (simp add: machine_ok_def identity_ok_def)
    then show ?thesis
      using e by (auto simp: case_created_def script_defs wp new_machine_def initial_vector_def machine_ok_def identity_ok_def
          event_ok_def aware_or_none_def fields_ok_def phase_defs asset_defs flow_defs evidence_defs keyed_def no_asset_def
          dest!: fields)
  qed (simp add: case_created_def script_defs wp)
qed

lemma dispatch_keeps: "event_ok e \<Longrightarrow> keeps (dispatch P e)"
  by (cases "ck_kind e"; simp only: dispatch_def event_kind.case;
      rule case_created_keeps consent_requested_keeps consent_granted_keeps consent_declined_keeps
       ending_handlers_keep issuing_handlers_keep customer_action_resolved_keeps upload_started_keeps
       upload_finalized_keeps media_validated_keeps media_action_resolved_keeps analysis_handlers_keep
       analysis_retry_keeps outside_flow_handlers_keep terminal_handlers_keep deletion_retry_keeps; assumption)

end
