(* ===== verification/Visual_Ledger.thy ===== *)
theory Visual_Ledger
  imports Visual_Flow
begin

text \<open>
  The receipts of a visual diagnosis case and the answers of its machine (\<open>app/services/visual_diagnosis_state.py\<close>):
  what each answer of \<open>apply\<close> can be, the ledger that maps the accepted events to their receipts, the room in
  the two receipt lanes, that every decision is well formed, and the machine as a reducer of events.
\<close>

section \<open>The receipts\<close>

text \<open>
  The events the control lane has room for: one that ends the case, the request of the deletion, three retries of it and
  its verification.
\<close>

definition control_budget :: "machine \<Rightarrow> nat" where
  "control_budget m = of_bool (sv_case (vm_state m) \<in> set TERMINAL_CASES) +
     (case sv_deletion (vm_state m) of Deletion_NOT_REQUESTED \<Rightarrow> 0 | Deletion_PENDING \<Rightarrow> 1 + nat (vm_retries m)
      | Deletion_VERIFIED \<Rightarrow> 2 + nat (vm_retries m))"

definition receipts :: "machine \<Rightarrow> receipt set" where
  "receipts m = set (vm_ordinary m) \<union> set (vm_control m)"

definition receipt_ok :: "receipt \<Rightarrow> bool" where
  "receipt_ok r = (rc_code r = event_kind_value (rc_kind r))"

definition ledger_ok :: "machine \<Rightarrow> bool" where
  "ledger_ok m =
     (vm_revision m = int (length (vm_ordinary m) + length (vm_control m)) \<and>
      length (vm_ordinary m) \<le> ORDINARY_RECEIPT_CAP \<and> length (vm_control m) \<le> control_budget m \<and>
      (\<forall>k r. vm_ledger m k = Some r \<longleftrightarrow> r \<in> receipts m \<and> rc_event r = k) \<and>
      rc_revision ` receipts m = {1..vm_revision m} \<and> (\<forall>r \<in> receipts m. receipt_ok r))"

definition case_ok :: "machine \<Rightarrow> bool" where
  "case_ok m = (machine_ok m \<and> ledger_ok m)"

lemma control_budget_bound: "fields_ok m \<Longrightarrow> sv_deletion (vm_state m) \<noteq> Deletion_VERIFIED \<Longrightarrow> control_budget m < CONTROL_RECEIPT_CAP"
  and control_budget_cap: "fields_ok m \<Longrightarrow> control_budget m \<le> CONTROL_RECEIPT_CAP"
  by (auto simp: control_budget_def fields_ok_def CONTROL_RECEIPT_CAP_def split: deletion_status.splits)

lemma new_machine_ok: "case_ok new_machine"
  by (simp add: case_ok_def machine_ok_def identity_ok_def new_machine_def ledger_ok_def initial_vector_def receipts_def
      aware_or_none_def fields_ok_def phase_defs asset_defs flow_defs evidence_defs keyed_def no_asset_def)

section \<open>One event\<close>

text \<open>The ways an event is answered: nothing but an accepted event changes the machine.\<close>

lemma transition_dispatch:
  assumes "transition P e m = (Inr r, t)"
  shows "dispatch P e m = (Inr (event_kind_value (ck_kind e)), t)" "same_outer m t"
    "r = \<lparr>rc_event = ck_id e, rc_kind = ck_kind e, rc_fingerprint = ck_fingerprint e,
       rc_code = event_kind_value (ck_kind e), rc_revision = vm_revision m + 1\<rparr>"
    "opaque_ref (ck_id e)" "fingerprint (ck_fingerprint e)"
proof -
  from assms obtain c where d: "dispatch P e m = (Inr c, t)"
    and r: "make_receipt (ck_id e) (ck_kind e) (ck_fingerprint e) c (vm_revision t + 1) = Inr r"
    by (auto simp: transition_def bind_script_def reading_def lift_sum_def constructing_def raising_def done_with_def
        split: sum.splits prod.splits)
  have c: "c = event_kind_value (ck_kind e)" using d by (rule dispatch_code)
  have o: "same_outer m t" using dispatch_outer [of P e] d by (simp add: leaves_def) (metis snd_conv)
  then have "vm_revision t = vm_revision m" by (simp add: same_outer_def outer_def)
  with d c o r show "dispatch P e m = (Inr (event_kind_value (ck_kind e)), t)" "same_outer m t"
    "r = \<lparr>rc_event = ck_id e, rc_kind = ck_kind e, rc_fingerprint = ck_fingerprint e,
       rc_code = event_kind_value (ck_kind e), rc_revision = vm_revision m + 1\<rparr>"
    "opaque_ref (ck_id e)" "fingerprint (ck_fingerprint e)"
    by (auto simp: make_receipt_def split: if_splits)
qed

definition bound_to :: "machine \<Rightarrow> checked_event \<Rightarrow> bool" where
  "bound_to m e = (if vm_case m = None then ck_kind e = CASE_CREATED
     else vm_case m = Some (ck_case e) \<and> vm_contractor m = Some (ck_contractor e))"

definition accepted_decision :: "receipt \<Rightarrow> machine \<Rightarrow> decision res" where
  "accepted_decision r t = ebind (project To_INTERNAL None None t) (\<lambda>pj.
     make_decision \<lparr>dn_accepted = True, dn_replayed = False, dn_code = rc_code r, dn_old_code = None,
       dn_old_revision = None, dn_revision = vm_revision t, dn_projection = Some pj\<rparr>)"

lemma transition_failed:
  assumes "transition P e m = (Inl f, t)"
  shows "coded f" "restore m t = m"
proof -
  have "fails coded (transition P e)"
    unfolding transition_def
    by (intro fails_rules dispatch_coded) (simp add: coded_values)
  with assms show "coded f" by (simp add: fails_def) (metis fst_conv)
  have "leaves same_outer (transition P e)"
    unfolding transition_def by (intro ledger.leaves_rules dispatch_outer)
  with assms have "same_outer m t" by (simp add: leaves_def) (metis snd_conv)
  then show "restore m t = m" by (rule restore_same)
qed

lemma integrity_fields:
  assumes "assert_integrity P e = Inr ck"
  shows "event_ok ck" "ev_case e = PStr (ck_case ck)" "ev_contractor e = PStr (ck_contractor ck)" "ev_id e = PStr (ck_id ck)"
    "ev_revision e = PInt (ck_revision ck)" "ev_kind e = Some (ck_kind ck)" "ev_fingerprint e = PStr (ck_fingerprint ck)"
proof -
  note d = assms [unfolded assert_integrity_def ebind_eq_Inr]
  obtain tm where tm: "ev_time e = Some tm" using d by (cases "ev_time e") simp_all
  obtain kvs where kvs: "ev_payload e = PDict kvs" using d tm by (cases "ev_payload e") (simp_all add: ebind_eq_Inr split: if_splits)
  obtain i where i: "ev_revision e = PInt i" using d tm kvs by (cases "ev_revision e") (simp_all add: ebind_eq_Inr split: if_splits)
  obtain kind src where "ev_kind e = Some kind" "ev_source e = Some src"
    using d tm kvs i by (cases "ev_kind e"; cases "ev_source e") (simp_all add: ebind_eq_Inr split: if_splits)
  with d tm kvs i
  show "event_ok ck" "ev_case e = PStr (ck_case ck)" "ev_contractor e = PStr (ck_contractor ck)" "ev_id e = PStr (ck_id ck)"
    "ev_revision e = PInt (ck_revision ck)" "ev_kind e = Some (ck_kind ck)" "ev_fingerprint e = PStr (ck_fingerprint ck)"
    by (auto simp: ebind_eq_Inr str_field_def event_ok_def split: pyval.splits if_splits)
qed

lemma apply_checked_cases:
  obtains reveal c where "apply_checked P e m = (m, refuse reveal c m)" "code c"
  | prior where "apply_checked P e m = (m, replay prior m)" "vm_ledger m (ck_id e) = Some prior"
      "rc_fingerprint prior = ck_fingerprint e"
      "sv_deletion (vm_state m) = Deletion_VERIFIED \<Longrightarrow> ck_kind e = DELETION_VERIFIED"
  | r t where "vm_ledger m (ck_id e) = None" "refusal e m = None" "transition P e m = (Inr r, t)"
      "apply_checked P e m = (record_receipt r t, accepted_decision r (record_receipt r t))"
proof (cases "vm_ledger m (ck_id e)")
  case (Some prior)
  consider "rc_fingerprint prior \<noteq> ck_fingerprint e"
    | "rc_fingerprint prior = ck_fingerprint e" "sv_deletion (vm_state m) = Deletion_VERIFIED" "ck_kind e \<noteq> DELETION_VERIFIED"
    | "rc_fingerprint prior = ck_fingerprint e" "sv_deletion (vm_state m) = Deletion_VERIFIED \<Longrightarrow> ck_kind e = DELETION_VERIFIED"
    by blast
  then show ?thesis
  proof cases
    case 1
    with Some that(1) [of True "''event_id_conflict''"] show ?thesis by (simp add: apply_checked_def)
  next
    case 2
    with Some that(1) [of True "''verified_deletion_terminal''"] show ?thesis by (simp add: apply_checked_def)
  next
    case 3
    have "apply_checked P e m = (m, replay prior m)" using Some 3 by (auto simp: apply_checked_def)
    with Some 3 show ?thesis by (intro that(2))
  qed
next
  case None
  show ?thesis
  proof (cases "refusal e m")
    case (Some rc)
    then obtain reveal c where rc: "refusal e m = Some (reveal, c)" by (cases rc) simp
    then have "code c" by (auto simp: refusal_def split: if_splits)
    with None rc that(1) [of reveal c] show ?thesis by (simp add: apply_checked_def)
  next
    case go: None
    obtain r t where rt: "transition P e m = (r, t)" by fastforce
    show ?thesis
    proof (cases r)
      case (Inl f)
      with rt have f: "transition P e m = (Inl f, t)" by simp
      from transition_failed [OF f] None go f that(1) [of True "failure_code f"] show ?thesis
        by (simp add: apply_checked_def coded_def)
    next
      case (Inr x)
      with None go rt that(3) [of x t] show ?thesis by (simp add: apply_checked_def accepted_decision_def)
    qed
  qed
qed

lemma apply_event_cases:
  obtains reveal c where "apply_event P oe m = (m, refuse reveal c m)" "code c"
  | e ck prior where "apply_event P oe m = (m, replay prior m)" "vm_ledger m (ck_id ck) = Some prior" "oe = Some e"
      "assert_integrity P e = Inr ck" "rc_fingerprint prior = ck_fingerprint ck" "bound_to m ck"
      "sv_deletion (vm_state m) = Deletion_VERIFIED \<Longrightarrow> ck_kind ck = DELETION_VERIFIED"
  | e ck r t where "oe = Some e" "assert_integrity P e = Inr ck" "bound_to m ck" "vm_ledger m (ck_id ck) = None"
      "refusal ck m = None" "transition P ck m = (Inr r, t)"
      "apply_event P oe m = (record_receipt r t, accepted_decision r (record_receipt r t))"
proof (cases oe)
  case None
  then show ?thesis using that(1) [of False "''invalid_event_type''"] by (simp add: apply_event_def)
next
  case (Some e)
  show ?thesis
  proof (cases "vm_case m \<noteq> None \<and> (Some (ev_case e) \<noteq> map_option PStr (vm_case m) \<or>
      Some (ev_contractor e) \<noteq> map_option PStr (vm_contractor m))")
    case True
    then show ?thesis using Some that(1) [of False "''binding_mismatch''"] by (simp add: apply_event_def)
  next
    case unbound: False
    show ?thesis
    proof (cases "assert_integrity P e")
      case (Inl x)
      with Some unbound that(1) [of False "''event_integrity_mismatch''"] show ?thesis by (auto simp: apply_event_def)
    next
      case (Inr ck)
      show ?thesis
      proof (cases "vm_case m = None \<and> ck_kind ck \<noteq> CASE_CREATED")
        case True
        with Some unbound Inr that(1) [of False "''aggregate_not_found''"] show ?thesis by (auto simp: apply_event_def)
      next
        case False
        have a: "apply_event P oe m = apply_checked P ck m"
          unfolding apply_event_def by (simp only: Some Inr option.case sum.case unbound False if_False)
        have b: "bound_to m ck" using False unbound integrity_fields [OF Inr] by (cases "vm_contractor m") (auto simp: bound_to_def)
        show ?thesis
        proof (cases rule: apply_checked_cases [of P ck m])
          case (1 reveal c)
          with a show ?thesis by (intro that(1)) simp_all
        next
          case (2 prior)
          with a b Some Inr show ?thesis by (intro that(2)) simp_all
        next
          case (3 r t)
          with a b Some Inr show ?thesis by (intro that(3)) simp_all
        qed
      qed
    qed
  qed
qed

section \<open>What an accepted event leaves\<close>

text \<open>The case and the contractor never change once there is a case.\<close>

definition same_binding :: "machine \<Rightarrow> machine \<Rightarrow> bool" where
  "same_binding m t = (vm_case t = vm_case m \<and> vm_contractor t = vm_contractor m)"

interpretation binding: frame same_binding
  by unfold_locales (simp_all add: same_binding_def)

lemma rest_binding: "leaves same_rest n \<Longrightarrow> leaves same_binding n"
  by (erule leaves_mono) (simp add: same_rest_def same_binding_def)

lemmas binding_rules = binding.leaves_rules leaves_cases parts_rest [THEN rest_binding] more_parts_rest [THEN rest_binding]

lemma dispatch_binding: "ck_kind e \<noteq> CASE_CREATED \<Longrightarrow> leaves same_binding (dispatch P e)"
  by (cases "ck_kind e"; (simp; fail)?; simp only: dispatch_def event_kind.case handler_defs script_defs Let_def;
      intro binding_rules; simp add: same_binding_def)

lemma created_binding:
  "case_created e m = (Inr c, t) \<Longrightarrow> vm_case m = None \<and> vm_case t = Some (ck_case e) \<and> vm_contractor t = Some (ck_contractor e)"
proof -
  assume c: "case_created e m = (Inr c, t)"
  have "wp_of (case_created e) (\<lambda>_ t. vm_case m = None \<and> vm_case t = Some (ck_case e) \<and>
      vm_contractor t = Some (ck_contractor e)) (\<lambda>_ _. True) m"
    by (simp add: case_created_def script_defs wp split: prod.splits)
  from wp_result [OF c this] show ?thesis .
qed

lemma accepted_binding:
  assumes "dispatch P e m = (Inr c, t)" and "bound_to m e"
  shows "vm_case t = Some (ck_case e)" "vm_contractor t = Some (ck_contractor e)"
proof -
  have "vm_case t = Some (ck_case e) \<and> vm_contractor t = Some (ck_contractor e)"
  proof (cases "ck_kind e = CASE_CREATED")
    case True
    with assms(1) have "case_created e m = (Inr c, t)" by (simp add: dispatch_def)
    from created_binding [OF this] show ?thesis by simp
  next
    case False
    from dispatch_binding [OF this, of P] assms(1) have "same_binding m t"
      by (simp add: leaves_def) (metis snd_conv)
    with False assms(2) show ?thesis by (auto simp: same_binding_def bound_to_def split: if_splits)
  qed
  then show "vm_case t = Some (ck_case e)" "vm_contractor t = Some (ck_contractor e)" by simp_all
qed

text \<open>Room in the control lane.\<close>

abbreviation spends :: "nat \<Rightarrow> string act \<Rightarrow> bool" where
  "spends n h \<equiv> (\<forall>m. wp_of h (\<lambda>_ t. control_budget m + n \<le> control_budget t) (\<lambda>_ _. True) m)"

definition same_budget :: "machine \<Rightarrow> machine \<Rightarrow> bool" where
  "same_budget m t = (sv_case (vm_state t) = sv_case (vm_state m) \<and> sv_deletion (vm_state t) = sv_deletion (vm_state m) \<and>
     vm_retries t = vm_retries m)"

interpretation budget: frame same_budget
  by unfold_locales (simp_all add: same_budget_def)

lemma rest_budget: "leaves same_rest n \<Longrightarrow> leaves same_budget n"
  by (erule leaves_mono) (simp add: same_rest_def same_budget_def)

lemmas budget_rules = budget.leaves_rules leaves_cases parts_rest [THEN rest_budget] more_parts_rest [THEN rest_budget]

lemma same_budgetD: "same_budget m t \<Longrightarrow> control_budget t = control_budget m"
  by (simp add: same_budget_def control_budget_def split: deletion_status.split)

lemma dispatch_budget:
  "ck_kind e \<notin> set CONTROL_KINDS \<Longrightarrow> ck_kind e \<notin> {CASE_CREATED, CONSENT_GRANTED} \<Longrightarrow> leaves same_budget (dispatch P e)"
  by (cases "ck_kind e"; (simp add: CONTROL_KINDS_def CONTROL_TERMINALS_def DELETION_KINDS_def; fail)?;
      simp only: dispatch_def event_kind.case handler_defs script_defs Let_def;
      intro budget_rules; simp add: same_budget_def)

lemma spendsD: "spends n h \<Longrightarrow> h m = (Inr c, t) \<Longrightarrow> control_budget m + n \<le> control_budget t"
  by (erule wp_result) (erule spec)

lemma opening_budget: "spends 0 (case_created e)" "spends 0 (consent_granted e)"
  by (simp_all add: case_created_def consent_granted_def script_defs wp control_budget_def TERMINAL_CASES_def initial_vector_def
      split: prod.splits deletion_status.splits)

lemma control_handlers_spend:
  "spends 1 (consent_declined e)" "spends 1 (consent_withdrawn e)" "spends 1 (case_closed e)"
  "spends 1 (terminal_case e Case_CANCELLED c)" "spends 1 (terminal_case e Case_EXPIRED c)"
  "spends 1 (deletion_requested e)" "spends 1 (deletion_verified e)"
  by (simp add: consent_declined_def consent_withdrawn_def case_closed_def terminal_case_def deletion_requested_def
     deletion_retry_recorded_def deletion_verified_def script_defs wp control_budget_def TERMINAL_CASES_def
      split: option.splits deletion_status.splits; (intro allI impI conjI)?; (elim disjE)?; simp?)+

lemma retry_spends: "0 \<le> vm_retries m \<Longrightarrow>
    wp_of (deletion_retry_recorded e) (\<lambda>_ t. control_budget m + 1 \<le> control_budget t) (\<lambda>_ _. True) m"
  by (auto simp: deletion_retry_recorded_def script_defs wp control_budget_def next_attempt_def nat_add_distrib
      split: option.splits pyval.splits if_splits)

lemma dispatch_spends:
  assumes "0 \<le> vm_retries m" and d: "dispatch P e m = (Inr c, t)"
  shows "control_budget m + of_bool (ck_kind e \<in> set CONTROL_KINDS) \<le> control_budget t"
proof (cases "ck_kind e \<in> set CONTROL_KINDS")
  case True
  with d show ?thesis
    using wp_result [OF _ retry_spends [OF assms(1)], of e c t]
    by (auto simp: CONTROL_KINDS_def CONTROL_TERMINALS_def DELETION_KINDS_def dispatch_def
        dest!: control_handlers_spend [THEN spendsD])
next
  case False
  show ?thesis
  proof (cases "ck_kind e \<in> {CASE_CREATED, CONSENT_GRANTED}")
    case True
    with d have "case_created e m = (Inr c, t) \<or> consent_granted e m = (Inr c, t)" by (auto simp: dispatch_def)
    then have "control_budget m + 0 \<le> control_budget t"
      by (elim disjE) (erule spendsD [rotated], rule opening_budget)+
    with False show ?thesis by simp
  next
    case other: False
    from dispatch_budget [OF False other, of P] d have "same_budget m t"
      by (simp add: leaves_def) (metis snd_conv)
    with False same_budgetD [of m t] show ?thesis by simp
  qed
qed

lemma record_update:
  obtains rev led ord con where
    "record_receipt r t = t\<lparr>vm_revision := rev, vm_ordinary := ord, vm_control := con, vm_ledger := led\<rparr>"
proof
  show "record_receipt r t = t\<lparr>vm_revision := vm_revision t + 1,
      vm_ordinary := if rc_kind r \<in> set CONTROL_KINDS then vm_ordinary t else vm_ordinary t @ [r],
      vm_control := if rc_kind r \<in> set CONTROL_KINDS then vm_control t @ [r] else vm_control t,
      vm_ledger := (vm_ledger t)(rc_event r \<mapsto> r)\<rparr>"
    by (rule machine.equality) (simp_all add: record_receipt_def Let_def)
qed

lemma machine_ok_record:
  assumes t: "machine_ok t" "vm_case t \<noteq> None"
  shows "machine_ok (record_receipt r t)"
proof (rule record_update [of r t])
  fix rev led ord con
  let ?u = "t\<lparr>vm_revision := rev, vm_ordinary := ord, vm_control := con, vm_ledger := led\<rparr>"
  have s: "in_flight ?u = in_flight t" "uploaded ?u = uploaded t" "awaited ?u = awaited t" "output_begun ?u = output_begun t"
    "finished_analysis ?u = finished_analysis t" "\<And>p. pending_flow ?u p = pending_flow t p"
    by (simp_all add: in_flight_def uploaded_def awaited_def finished_analysis_def pending_flow_def output_begun_def)
  have "machine_ok ?u"
  proof (rule machine_okI)
    show "identity_ok ?u" by (rule identity_update [OF t]) simp_all
    show "fields_ok ?u" using t by (simp add: machine_ok_def fields_ok_def)
    show "phases_ok ?u" "assets_ok ?u" "flow_ok ?u" "evidence_ok ?u"
      using t s by (simp_all add: machine_ok_def phases_ok_def assets_ok_def flow_ok_def evidence_ok_def cong: option.case_cong)
  qed
  moreover assume "record_receipt r t = ?u"
  ultimately show ?thesis by simp
qed

lemma control_budget_record: "control_budget (record_receipt r t) = control_budget t"
  by (simp add: record_receipt_def control_budget_def Let_def split: deletion_status.split)

lemma record_simps:
  "vm_revision (record_receipt r t) = vm_revision t + 1"
  "vm_ledger (record_receipt r t) = (vm_ledger t)(rc_event r \<mapsto> r)"
  "vm_ordinary (record_receipt r t) = (if rc_kind r \<in> set CONTROL_KINDS then vm_ordinary t else vm_ordinary t @ [r])"
  "vm_control (record_receipt r t) = (if rc_kind r \<in> set CONTROL_KINDS then vm_control t @ [r] else vm_control t)"
  "receipts (record_receipt r t) = insert r (receipts t)" "vm_case (record_receipt r t) = vm_case t"
  "vm_contractor (record_receipt r t) = vm_contractor t" "vm_state (record_receipt r t) = vm_state t"
  "vm_pending (record_receipt r t) = vm_pending t" "vm_assets (record_receipt r t) = vm_assets t"
  by (auto simp: record_receipt_def receipts_def Let_def)

lemma same_outerD:
  "same_outer m t \<Longrightarrow> vm_revision t = vm_revision m" "same_outer m t \<Longrightarrow> vm_ordinary t = vm_ordinary m"
  "same_outer m t \<Longrightarrow> vm_control t = vm_control m" "same_outer m t \<Longrightarrow> vm_ledger t = vm_ledger m"
  "same_outer m t \<Longrightarrow> receipts t = receipts m"
  by (simp_all add: same_outer_def outer_def receipts_def)

lemma receipts_grow:
  assumes "ledger_ok m" and fresh: "vm_ledger m (rc_event r) = None" and o: "same_outer m t"
    and r: "rc_revision r = vm_revision m + 1" "receipt_ok r"
  shows "vm_ledger (record_receipt r t) k = Some x \<longleftrightarrow> x \<in> receipts (record_receipt r t) \<and> rc_event x = k"
    "rc_revision ` receipts (record_receipt r t) = {1..vm_revision (record_receipt r t)}"
    "\<forall>x \<in> receipts (record_receipt r t). receipt_ok x"
proof -
  have l: "vm_ledger m k = Some x \<longleftrightarrow> x \<in> receipts m \<and> rc_event x = k" for k x
    using assms(1) by (simp add: ledger_ok_def)
  have "rc_event x \<noteq> rc_event r" if "x \<in> receipts m" for x
    using l [of "rc_event r" x] fresh that by auto
  then show "vm_ledger (record_receipt r t) k = Some x \<longleftrightarrow> x \<in> receipts (record_receipt r t) \<and> rc_event x = k"
    using l by (auto simp: record_simps same_outerD [OF o])
  show "rc_revision ` receipts (record_receipt r t) = {1..vm_revision (record_receipt r t)}"
    using assms(1) r(1) by (auto simp: record_simps same_outerD [OF o] ledger_ok_def)
  show "\<forall>x \<in> receipts (record_receipt r t). receipt_ok x"
    using assms(1) r(2) by (auto simp: record_simps same_outerD [OF o] ledger_ok_def)
qed

lemma not_refused:
  assumes "refusal e m = None" and "vm_case m = None \<Longrightarrow> vm_revision m = 0"
  shows "ck_source e = Source_SYNTHETIC" "sv_deletion (vm_state m) \<noteq> Deletion_VERIFIED"
    "sv_deletion (vm_state m) = Deletion_PENDING \<Longrightarrow> ck_kind e \<in> set DELETION_KINDS"
    "ck_revision e = vm_revision m"
    "ck_kind e \<notin> set CONTROL_KINDS \<Longrightarrow> length (vm_ordinary m) < ORDINARY_RECEIPT_CAP"
  using assms by (auto simp: refusal_def split: if_splits)

lemma dispatched_ok: "dispatch P e m = (Inr c, t) \<Longrightarrow> event_ok e \<Longrightarrow> machine_ok m \<Longrightarrow> machine_ok t"
  by (rule wp_result [where m = "dispatch P e" and s = m and Q = "\<lambda>_. machine_ok"], assumption)
     (use dispatch_keeps in blast)

lemma accepted_ok:
  assumes m: "case_ok m" and e: "event_ok e" "bound_to m e" and fresh: "vm_ledger m (ck_id e) = None"
    and go: "refusal e m = None" and tr: "transition P e m = (Inr r, t)"
  shows "case_ok (record_receipt r t)" "vm_case t = Some (ck_case e)" "vm_contractor t = Some (ck_contractor e)"
proof -
  have ok: "machine_ok m" "ledger_ok m" using m by (simp_all add: case_ok_def)
  note d = transition_dispatch [OF tr]
  have r: "rc_event r = ck_id e" "rc_kind r = ck_kind e" "rc_revision r = vm_revision m + 1" "receipt_ok r"
    by (simp_all add: d(3) receipt_ok_def)
  note o = same_outerD [OF d(2)]
  note b = accepted_binding [OF d(1) e(2)]
  have cas: "vm_case t \<noteq> None" using b by simp
  have t: "machine_ok t" using d(1) e(1) ok(1) by (rule dispatched_ok)
  have "0 \<le> vm_retries m" using ok(1) by (simp add: machine_ok_def fields_ok_def)
  note spend = dispatch_spends [OF this d(1)]
  have zero: "vm_revision m = 0" if "vm_case m = None"
    using ok(1) that by (simp add: machine_ok_def identity_ok_def new_machine_def)
  note room = not_refused [OF go zero]
  have fresh': "vm_ledger m (rc_event r) = None" using fresh r by simp
  have "ledger_ok (record_receipt r t)"
    unfolding ledger_ok_def
  proof (intro conjI allI)
    show "vm_revision (record_receipt r t) =
        int (length (vm_ordinary (record_receipt r t)) + length (vm_control (record_receipt r t)))"
      using ok(2) o by (simp add: record_simps ledger_ok_def)
    show "length (vm_ordinary (record_receipt r t)) \<le> ORDINARY_RECEIPT_CAP"
      using ok(2) o r room(5) by (auto simp: record_simps ledger_ok_def Suc_le_eq)
    show "length (vm_control (record_receipt r t)) \<le> control_budget (record_receipt r t)"
      using ok(2) o r spend by (auto simp: record_simps control_budget_record ledger_ok_def)
  qed (use receipts_grow [OF ok(2) fresh' d(2) r(3,4)] in auto)
  with t cas show "case_ok (record_receipt r t)" by (simp add: case_ok_def machine_ok_record)
  show "vm_case t = Some (ck_case e)" "vm_contractor t = Some (ck_contractor e)" by (rule b)+
qed

section \<open>The decisions\<close>

lemma shown_next_ok:
  "shown_next role (snd (reason_and_next m)) \<in> {None} \<union> Some ` set PROJECTION_NEXT_ACTIONS"
  "code_or_none projection_code (shown_next role (snd (reason_and_next m)))"
  by (auto simp: shown_next_def reason_and_next_def Let_def PROJECTION_NEXT_ACTIONS_def code_or_none_def)

lemma reason_ok:
  "fst (reason_and_next m) \<in> set PROJECTION_REASON_CODES" "projection_code (fst (reason_and_next m))"
  "sv_deletion (vm_state m) \<in> {Deletion_PENDING, Deletion_VERIFIED} \<Longrightarrow>
     shown_next role (snd (reason_and_next m)) = None \<and> fst (reason_and_next m) \<in> {''deletion_pending'', ''verified_deleted''}"
  by (auto simp: shown_next_def reason_and_next_def Let_def PROJECTION_REASON_CODES_def)

lemma pending_action_ok: "machine_ok m \<Longrightarrow> vm_pending m = Some a \<Longrightarrow> action_ok a"
  by (auto simp: machine_ok_def flow_ok_def pending_flow_def)

lemma short_or_none_simps [simp]: "short_or_none n None" "short_or_none n (Some s) \<longleftrightarrow> length s \<le> n"
  by (simp_all add: short_or_none_def)

lemma project_ok:
  assumes "case_ok m" and old: "case orev of None \<Rightarrow> True | Some r \<Rightarrow> 0 \<le> r" "code_or_none projection_code ocode"
  shows "\<exists>pj. project role orev ocode m = Inr pj \<and> pj_revision pj = vm_revision m \<and> pj_state pj = vm_state m \<and>
    pj_old_revision pj = orev \<and> pj_old_code pj = ocode"
proof -
  have rev: "0 \<le> vm_revision m" using assms(1) by (simp add: case_ok_def ledger_ok_def)
  have a: "action_ok a" if "vm_pending m = Some a" for a
    using pending_action_ok [OF _ that] assms(1) by (simp add: case_ok_def)
  have n: "case shown_next role (snd (reason_and_next m)) of None \<Rightarrow> True | Some a \<Rightarrow> a \<in> set PROJECTION_NEXT_ACTIONS"
    using shown_next_ok(1) [of role m] by (auto split: option.splits)
  show ?thesis
    using rev old shown_next_ok(2) [of role m] reason_ok [of m] n a
    by (cases "vm_pending m") (simp_all add: project_def Let_def make_projection_def action_ok_def)
qed


lemma decision_ok:
  assumes "code c" "code_or_none code oc" "case orev of None \<Rightarrow> True | Some r \<Rightarrow> 0 \<le> r" "0 \<le> n"
  shows "make_decision \<lparr>dn_accepted = a, dn_replayed = b, dn_code = c, dn_old_code = oc, dn_old_revision = orev,
     dn_revision = n, dn_projection = pj\<rparr> = Inr \<lparr>dn_accepted = a, dn_replayed = b, dn_code = c, dn_old_code = oc,
     dn_old_revision = orev, dn_revision = n, dn_projection = pj\<rparr>"
  using assms by (simp add: make_decision_def)

lemma refuse_ok:
  assumes "case_ok m" "code c"
  shows "\<exists>d. refuse reveal c m = Inr d \<and> \<not> dn_accepted d \<and> \<not> dn_replayed d \<and> dn_code d = c"
proof -
  obtain pj where "project To_INTERNAL None None m = Inr pj"
    using project_ok [OF assms(1), of None None To_INTERNAL] by (auto simp: code_or_none_def)
  moreover have "0 \<le> vm_revision m" using assms(1) by (simp add: case_ok_def ledger_ok_def)
  ultimately show ?thesis
    using assms(2) by (simp add: refuse_def decision_ok code_or_none_def)
qed

lemma receipt_facts:
  assumes "case_ok m" "vm_ledger m k = Some r"
  shows "rc_event r = k" "r \<in> receipts m" "1 \<le> rc_revision r" "rc_revision r \<le> vm_revision m"
    "rc_code r = event_kind_value (rc_kind r)"
proof -
  have l: "ledger_ok m" using assms(1) by (simp add: case_ok_def)
  show r: "r \<in> receipts m" "rc_event r = k" using l assms(2) by (auto simp: ledger_ok_def)
  then have "rc_revision r \<in> {1..vm_revision m}" using l by (auto simp: ledger_ok_def)
  then show "1 \<le> rc_revision r" "rc_revision r \<le> vm_revision m" by simp_all
  show "rc_code r = event_kind_value (rc_kind r)" using l r by (auto simp: ledger_ok_def receipt_ok_def)
qed

lemma replay_ok:
  assumes "case_ok m" "vm_ledger m k = Some r"
  shows "\<exists>d. replay r m = Inr d \<and> dn_accepted d \<and> dn_replayed d \<and> dn_code d = ''replayed'' \<and>
    dn_old_code d = Some (rc_code r) \<and> dn_old_revision d = Some (rc_revision r) \<and> dn_revision d = vm_revision m"
proof -
  note f = receipt_facts [OF assms]
  obtain pj where "project To_INTERNAL (Some (rc_revision r)) (Some (rc_code r)) m = Inr pj"
    using project_ok [OF assms(1), of "Some (rc_revision r)" "Some (rc_code r)" To_INTERNAL] f
    by (auto simp: code_or_none_def kind_projection_code)
  then show ?thesis using f by (simp add: replay_def decision_ok code_or_none_def)
qed

lemma accepted_decision_ok:
  assumes "case_ok t" "rc_code r = event_kind_value k"
  shows "\<exists>d. accepted_decision r t = Inr d \<and> dn_accepted d \<and> \<not> dn_replayed d \<and> dn_code d = rc_code r \<and>
    dn_old_code d = None \<and> dn_old_revision d = None \<and> dn_revision d = vm_revision t"
proof -
  obtain pj where "project To_INTERNAL None None t = Inr pj"
    using project_ok [OF assms(1), of None None To_INTERNAL] by (auto simp: code_or_none_def)
  moreover have "0 \<le> vm_revision t" using assms(1) by (simp add: case_ok_def ledger_ok_def)
  ultimately show ?thesis using assms(2) by (simp add: accepted_decision_def decision_ok code_or_none_def)
qed

section \<open>The machine as a reducer of events\<close>

definition case_step :: "platform \<Rightarrow> machine \<Rightarrow> triage_event option \<Rightarrow> machine \<times> bool" where
  "case_step P m oe = (let t = fst (apply_event P oe m) in (t, vm_revision t \<noteq> vm_revision m))"

definition case_run :: "platform \<Rightarrow> triage_event option list \<Rightarrow> machine" where
  "case_run P es = run_steps (case_step P) new_machine es"

lemma transition_revision: "transition P e m = (Inr r, t) \<Longrightarrow> vm_revision (record_receipt r t) = vm_revision m + 1"
  by (simp add: record_simps same_outerD transition_dispatch(2))

lemma apply_revision: "fst (apply_event P oe m) = m \<or> vm_revision (fst (apply_event P oe m)) = vm_revision m + 1"
  by (cases rule: apply_event_cases [of P oe m]) (auto simp: transition_revision)

lemma apply_keeps:
  assumes "case_ok m"
  shows "case_ok (fst (apply_event P oe m))"
proof (cases rule: apply_event_cases [of P oe m])
  case (3 e ck r t)
  with accepted_ok(1) [OF assms integrity_fields(1) [OF 3(2)] 3(3-6)] show ?thesis by simp
qed (use assms in simp_all)

interpretation cases: invariant_reducer "case_step P" "\<lambda>m. m" case_ok
proof
  show "fst (case_step P s e) = s" if "\<not> snd (case_step P s e)" for s e
    using that apply_revision [of P e s] by (auto simp: case_step_def Let_def)
  show "case_ok (fst (case_step P s e))" if "case_ok s" for s e
    using apply_keeps [OF that] by (simp add: case_step_def Let_def)
qed

interpretation case_clock: clocked_reducer "case_step P" "\<lambda>m. m" vm_revision
proof
  show "vm_revision s < vm_revision (fst (case_step P s e))" if "snd (case_step P s e)" for s e
    using that apply_revision [of P e s] by (auto simp: case_step_def Let_def)
qed simp

lemma case_run_ok: "case_ok (case_run P es)"
  unfolding case_run_def by (rule cases.run_inv) (rule new_machine_ok)

end
