(* ===== verification/Visual_Safety.thy ===== *)
theory Visual_Safety
  imports Visual_Ledger
begin

text \<open>
  What lasts in a visual diagnosis case from event to event (\<open>app/services/visual_diagnosis_state.py\<close>): the receipts, the
  binding, the freeze a deletion brings, the numbering of the accepted events; the events that pass the
  integrity check; and that a deletion can always be requested and verified.
\<close>

section \<open>What lasts\<close>

text \<open>A receipt stays in the ledger, and the case stays bound.\<close>

lemma apply_lasting:
  assumes "case_ok m"
  shows "vm_ledger m k = Some r \<Longrightarrow> vm_ledger (fst (apply_event P oe m)) k = Some r"
    "vm_case m = Some c \<Longrightarrow> vm_contractor m = Some x \<Longrightarrow>
      vm_case (fst (apply_event P oe m)) = Some c \<and> vm_contractor (fst (apply_event P oe m)) = Some x"
proof -
  show "vm_ledger (fst (apply_event P oe m)) k = Some r" if "vm_ledger m k = Some r"
  proof (cases rule: apply_event_cases [of P oe m])
    case (3 e ck q t)
    have "rc_event q \<noteq> k" using that 3(4) transition_dispatch(3) [OF 3(6)] by auto
    with 3 that show ?thesis by (simp add: record_simps same_outerD [OF transition_dispatch(2) [OF 3(6)]])
  qed (use that in simp_all)
  show "vm_case (fst (apply_event P oe m)) = Some c \<and> vm_contractor (fst (apply_event P oe m)) = Some x"
    if "vm_case m = Some c" "vm_contractor m = Some x"
  proof (cases rule: apply_event_cases [of P oe m])
    case (3 e ck q t)
    from accepted_binding [OF transition_dispatch(1) [OF 3(6)] 3(3)] 3 that show ?thesis
      by (simp add: record_simps bound_to_def)
  qed (use that in simp_all)
qed

definition lasting :: "string \<Rightarrow> receipt \<Rightarrow> string \<Rightarrow> string \<Rightarrow> machine \<Rightarrow> bool" where
  "lasting k r c x m = (case_ok m \<and> vm_ledger m k = Some r \<and> vm_case m = Some c \<and> vm_contractor m = Some x)"

interpretation last: invariant_reducer "case_step P" "\<lambda>m. m" "lasting k r c x"
  by unfold_locales (simp add: lasting_def case_step_def Let_def apply_keeps apply_lasting)

text \<open>Once the deletion has been requested.\<close>

definition frozen :: "machine \<Rightarrow> machine \<Rightarrow> bool" where
  "frozen m t = (sv_deletion (vm_state t) \<noteq> Deletion_NOT_REQUESTED \<and>
     (vm_state t)\<lparr>sv_deletion := Deletion_PENDING\<rparr> = (vm_state m)\<lparr>sv_deletion := Deletion_PENDING\<rparr> \<and> vm_pending t = vm_pending m \<and>
     vm_resolved t = vm_resolved m \<and> vm_assets t = vm_assets m \<and> vm_ordinary t = vm_ordinary m \<and>
     (sv_deletion (vm_state m) = Deletion_VERIFIED \<longrightarrow> t = m))"

lemma deletion_handlers:
  "sv_deletion (vm_state m) = Deletion_PENDING \<Longrightarrow> wp_of (deletion_requested e) (\<lambda>_. frozen m) (\<lambda>_ _. True) m"
  "sv_deletion (vm_state m) = Deletion_PENDING \<Longrightarrow> wp_of (deletion_retry_recorded e) (\<lambda>_. frozen m) (\<lambda>_ _. True) m"
  "sv_deletion (vm_state m) = Deletion_PENDING \<Longrightarrow> wp_of (deletion_verified e) (\<lambda>_. frozen m) (\<lambda>_ _. True) m"
  by (simp_all add: deletion_requested_def deletion_retry_recorded_def deletion_verified_def script_defs wp frozen_def
      split: option.splits)

lemma deletion_dispatch:
  assumes p: "sv_deletion (vm_state m) = Deletion_PENDING" and k: "ck_kind e \<in> set DELETION_KINDS"
    and d: "dispatch P e m = (Inr c, t)"
  shows "frozen m t"
proof -
  from k d have "deletion_requested e m = (Inr c, t) \<or> deletion_retry_recorded e m = (Inr c, t) \<or>
      deletion_verified e m = (Inr c, t)"
    by (auto simp: DELETION_KINDS_def dispatch_def)
  then show ?thesis
    by (elim disjE; elim wp_result; intro deletion_handlers p)
qed

lemma apply_frozen:
  assumes "case_ok m" "sv_deletion (vm_state m) \<noteq> Deletion_NOT_REQUESTED"
  shows "frozen m (fst (apply_event P oe m))"
proof (cases rule: apply_event_cases [of P oe m])
  case (3 e ck r t)
  have zero: "vm_revision m = 0" if "vm_case m = None"
    using assms(1) that by (simp add: case_ok_def machine_ok_def identity_ok_def new_machine_def)
  note room = not_refused [OF 3(5) zero]
  have p: "sv_deletion (vm_state m) = Deletion_PENDING" using assms(2) room(2) by (cases "sv_deletion (vm_state m)") simp_all
  note d = transition_dispatch [OF 3(6)]
  have "frozen m t" using p room(3) [OF _ p] d(1) by (rule deletion_dispatch)
  moreover have "ck_kind ck \<in> set CONTROL_KINDS" using room(3) [OF _ p] by (simp add: CONTROL_KINDS_def)
  moreover have "rc_kind r = ck_kind ck" by (simp add: d(3))
  ultimately have "frozen m (record_receipt r t)" using p 
    by (simp add: frozen_def record_receipt_def Let_def)
  with 3 show ?thesis by simp
qed (use assms in \<open>simp_all add: frozen_def\<close>)

lemma frozen_trans: "frozen m t \<Longrightarrow> frozen t u \<Longrightarrow> frozen m u"
  by (auto simp: frozen_def)

definition ending :: "machine \<Rightarrow> machine \<Rightarrow> bool" where
  "ending m t = (case_ok t \<and> frozen m t)"

interpretation deletion: invariant_reducer "case_step P" "\<lambda>m. m" "ending m"
proof
  fix s e assume s: "ending m s"
  then have "frozen s (fst (apply_event P e s))" by (intro apply_frozen) (simp_all add: ending_def frozen_def)
  with s show "ending m (fst (case_step P s e))"
    by (auto simp: ending_def case_step_def Let_def apply_keeps intro: frozen_trans)
qed

text \<open>The events accepted so far expected the revisions 0, 1, 2 and so on.\<close>

definition numbered :: "triage_event option list \<Rightarrow> machine \<Rightarrow> bool" where
  "numbered h m = (case_ok m \<and> vm_revision m = int (length h) \<and>
     map (map_option ev_revision) h = map (\<lambda>n. Some (PInt (int n))) [0..<length h])"

interpretation numbering: history_reducer "case_step P" numbered
proof
  fix h m oe assume n: "numbered h m"
  then have ok: "case_ok m" by (simp add: numbered_def)
  { assume "\<not> snd (case_step P m oe)"
    then have "fst (case_step P m oe) = m" by (rule cases.reject_frame)
    with n show "numbered h (fst (case_step P m oe))" by simp }
  { assume acc: "snd (case_step P m oe)"
    then have moved: "vm_revision (fst (apply_event P oe m)) = vm_revision m + 1"
      using apply_revision [of P oe m] by (auto simp: case_step_def Let_def)
    have "map_option ev_revision oe = Some (PInt (vm_revision m))"
    proof (cases rule: apply_event_cases [of P oe m])
      case (3 e ck r t)
      have zero: "vm_revision m = 0" if "vm_case m = None"
        using ok that by (simp add: case_ok_def machine_ok_def identity_ok_def new_machine_def)
      from not_refused(4) [OF 3(5) zero] 3(1) integrity_fields(5) [OF 3(2)] show ?thesis by simp
    qed (use moved in simp_all)
    with n moved show "numbered (h @ [oe]) (fst (case_step P m oe))"
      by (simp add: numbered_def apply_keeps case_step_def Let_def) }
qed

section \<open>Events that pass the integrity check\<close>

text \<open>Payloads without floats and large integers, which \<open>json.dumps\<close> always prints.\<close>

fun printable :: "pyval \<Rightarrow> bool" where
  "printable (PFloat f) = False"
| "printable (PInt i) = (\<bar>i\<bar> < 1000000000)"
| "printable (PList xs) = list_all printable xs"
| "printable (PDict kvs) = list_all (\<lambda>(k, v). printable v) kvs"
| "printable v = True"

lemma printable_json: "printable v \<Longrightarrow> \<exists>t. canonical_json P v = Inr t"
proof (induction v)
  case (PList xs)
  then have "\<exists>ts. collect (map (canonical_json P) xs) = Inr ts"
    by (intro collect_Inr) (auto simp: list_all_iff)
  then show ?case by auto
next
  case (PDict kvs)
  have "\<exists>ts. collect (map (\<lambda>(k, v). ebind (canonical_json P v) (\<lambda>t. Inr (k, t))) kvs) = Inr ts"
  proof (rule collect_Inr)
    fix r assume "r \<in> set (map (\<lambda>(k, v). ebind (canonical_json P v) (\<lambda>t. Inr (k, t))) kvs)"
    then obtain k v where kv: "(k, v) \<in> set kvs" "r = ebind (canonical_json P v) (\<lambda>t. Inr (k, t))" by auto
    with PDict obtain t where "canonical_json P v = Inr t" by (fastforce simp: list_all_iff)
    with kv show "\<exists>x. r = Inr x" by simp
  qed
  then show ?case by auto
qed (simp_all add: small_prints)

text \<open>The event \<open>build\<close> makes of the given fields, from a synthetic source.\<close>

definition digest_of :: "platform \<Rightarrow> pyval \<Rightarrow> string" where
  "digest_of P v = (case sha P v of Inr d \<Rightarrow> d | Inl _ \<Rightarrow> [])"

definition event_of ::
    "platform \<Rightarrow> string \<Rightarrow> string \<Rightarrow> string \<Rightarrow> event_kind \<Rightarrow> (string \<times> pyval) list \<Rightarrow> int \<Rightarrow> pytime \<Rightarrow> triage_event" where
  "event_of P c x i kind kvs n tm =
     (let digest = PStr (digest_of P (PDict kvs)) in
      \<lparr>ev_schema = PStr SCHEMA_VERSION, ev_case = PStr c, ev_contractor = PStr x, ev_id = PStr i, ev_kind = Some kind,
       ev_payload = PDict kvs, ev_digest = digest,
       ev_fingerprint = PStr (digest_of P (envelope (PStr SCHEMA_VERSION) (PStr c) (PStr x) kind digest (PInt n)
         Source_SYNTHETIC tm PNone PNone (PStr EVIDENCE_SCOPE))),
       ev_revision = PInt n, ev_source = Some Source_SYNTHETIC, ev_time = Some tm, ev_retry_stage = PNone,
       ev_retry_attempt = PNone, ev_scope = PStr EVIDENCE_SCOPE\<rparr>)"

definition checked_of ::
    "platform \<Rightarrow> string \<Rightarrow> string \<Rightarrow> string \<Rightarrow> event_kind \<Rightarrow> (string \<times> pyval) list \<Rightarrow> int \<Rightarrow> pytime \<Rightarrow> checked_event" where
  "checked_of P c x i kind kvs n tm =
     \<lparr>ck_case = c, ck_contractor = x, ck_id = i, ck_kind = kind, ck_payload = kvs,
      ck_fingerprint = digest_of P (envelope (PStr SCHEMA_VERSION) (PStr c) (PStr x) kind (PStr (digest_of P (PDict kvs)))
         (PInt n) Source_SYNTHETIC tm PNone PNone (PStr EVIDENCE_SCOPE)),
      ck_revision = n, ck_source = Source_SYNTHETIC, ck_time = tm, ck_stage = PNone, ck_attempt = PNone\<rparr>"

lemma digest_of: "printable v \<Longrightarrow> sha P v = Inr (digest_of P v)"
  using printable_json [of v P] by (auto simp: digest_of_def sha_def)

lemma event_of_integrity:
  assumes "opaque_ref c" "opaque_ref x" "opaque_ref i" "t_aware tm" "structural 5 (PDict kvs)"
    "set (map fst kvs) \<subseteq> set (event_payload_keys kind)" "printable (PDict kvs)" "\<bar>n\<bar> < 1000000000"
  shows "assert_integrity P (event_of P c x i kind kvs n tm) = Inr (checked_of P c x i kind kvs n tm)"
proof -
  have "printable (envelope (PStr SCHEMA_VERSION) (PStr c) (PStr x) kind (PStr (digest_of P (PDict kvs))) (PInt n)
      Source_SYNTHETIC tm PNone PNone (PStr EVIDENCE_SCOPE))"
    using assms(8) by (simp add: envelope_def)
  then show ?thesis
    using assms digest_of [of "PDict kvs" P]
    by (simp add: assert_integrity_def event_of_def checked_of_def Let_def str_field_def digest_of del: structural.simps printable.simps)
qed

lemma build_event_of:
  assumes "printable (PDict kvs)" "\<bar>n\<bar> < 1000000000"
  shows "build_event P c x i kind (PDict kvs) n Source_SYNTHETIC tm PNone PNone =
     construct_event P (event_of P c x i kind kvs n tm)"
proof -
  have "printable (envelope (PStr SCHEMA_VERSION) (PStr c) (PStr x) kind (PStr (digest_of P (PDict kvs))) (PInt n)
      Source_SYNTHETIC tm PNone PNone (PStr EVIDENCE_SCOPE))"
    using assms(2) by (simp add: envelope_def)
  then show ?thesis
    using digest_of [OF assms(1), of P]
    by (simp add: build_event_def event_of_def Let_def digest_of del: printable.simps)
qed

lemma assets_bound: "machine_ok m \<Longrightarrow> length (vm_assets m) \<le> 3"
  by (auto simp: machine_ok_def assets_ok_def fields_ok_def of_bool_def split: if_splits)

lemma snapshot_of_ok:
  assumes "case_ok m"
  shows "(snapshot m = Inr None \<and> m = new_machine) \<or> (\<exists>c. snapshot m = Inr (Some c) \<and> make_case c = Inr c \<and>
     tc_case c = the (vm_case m) \<and> tc_assets c = map snd (vm_assets m) \<and> tc_ordinary c = vm_ordinary m \<and> tc_control c = vm_control m \<and> tc_revision c = vm_revision m)"
proof (cases "vm_case m")
  case None
  with assms show ?thesis by (simp add: case_ok_def machine_ok_def identity_ok_def snapshot_def)
next
  case (Some c)
  then obtain x where x: "vm_contractor m = Some x" using assms by (auto simp: case_ok_def machine_ok_def identity_ok_def)
  have l: "length (vm_control m) \<le> CONTROL_RECEIPT_CAP"
    using assms control_budget_cap [of m] by (simp add: case_ok_def machine_ok_def ledger_ok_def)
  from assms have i: "identity_ok m" "fields_ok m" "ledger_ok m" "length (vm_assets m) \<le> 3"
    by (simp_all add: case_ok_def machine_ok_def assets_bound)
  show ?thesis
    using i l Some x by (simp add: snapshot_def make_case_def identity_ok_def fields_ok_def ledger_ok_def)
qed

lemma replayed_receipt:
  assumes l: "lasting (ck_id ck) r (ck_case ck) (ck_contractor ck) u" and i: "assert_integrity P e = Inr ck"
    and f: "rc_fingerprint r = ck_fingerprint ck"
  shows "apply_event P (Some e) u = (u, if sv_deletion (vm_state u) = Deletion_VERIFIED \<and> ck_kind ck \<noteq> DELETION_VERIFIED
     then refuse True ''verified_deletion_terminal'' u else replay r u)"
  using l i f integrity_fields [OF i] by (simp add: lasting_def apply_event_def apply_checked_def)

section \<open>A deletion can always be completed\<close>

lemma wp_total: "wp_of m Q (\<lambda>_ _. False) s \<Longrightarrow> \<exists>x t. m s = (Inr x, t) \<and> Q x t"
  by (cases "m s"; cases "fst (m s)") (auto simp: wp_of_def)

lemma fresh_id:
  assumes "case_ok m"
  shows "\<exists>i. opaque_ref i \<and> vm_ledger m i = None"
proof (rule ccontr)
  let ?ids = "(\<lambda>n. replicate n (CHR ''a'')) ` {1..128}"
  assume no: "\<not> ?thesis"
  have l: "ledger_ok m" and f: "fields_ok m" using assms by (simp_all add: case_ok_def machine_ok_def)
  have "opaque_ref (replicate n (CHR ''a''))" if "n \<in> {1..128}" for n
    using that by (cases n) (auto simp: opaque_ref_def matches_def alnum_def lower_def char_in_def list_all_iff)
  with no have "?ids \<subseteq> dom (vm_ledger m)" by auto
  also have "dom (vm_ledger m) \<subseteq> rc_event ` receipts m" using l by (auto simp: ledger_ok_def)
  finally have "card ?ids \<le> card (rc_event ` receipts m)" by (rule card_mono [rotated]) (simp add: receipts_def)
  also have "\<dots> \<le> card (receipts m)" by (rule card_image_le) (simp add: receipts_def)
  also have "\<dots> \<le> length (vm_ordinary m) + length (vm_control m)"
    unfolding receipts_def by (rule order_trans [OF card_Un_le]) (simp add: add_mono card_length)
  also have "\<dots> \<le> 70"
    using l control_budget_cap [OF f] by (simp add: ledger_ok_def ORDINARY_RECEIPT_CAP_def CONTROL_RECEIPT_CAP_def)
  finally have "card ?ids \<le> 70" .
  moreover have "inj_on (\<lambda>n. replicate n (CHR ''a'')) {1..128}" by (auto simp: inj_on_def dest: arg_cong [where f = length])
  then have "card ?ids = 128" by (simp add: card_image)
  ultimately show False by simp
qed

definition hex_digest :: "platform \<Rightarrow> bool" where
  "hex_digest P = (\<forall>s. fingerprint (sha256 P s))"

lemma digest_fingerprint: "hex_digest P \<Longrightarrow> printable v \<Longrightarrow> fingerprint (digest_of P v)"
  using printable_json [of v P] by (auto simp: digest_of_def sha_def hex_digest_def)

lemma deletion_step:
  assumes P: "hex_digest P" and ok: "case_ok m" and c: "vm_case m = Some c" and k: "k \<in> set DELETION_KINDS"
    and live: "sv_deletion (vm_state m) \<noteq> Deletion_VERIFIED" and tm: "t_aware tm"
    and go: "\<And>e. ck_kind e = k \<Longrightarrow> ck_time e = tm \<Longrightarrow> wp_of (dispatch P e) Q (\<lambda>_ _. False) m"
  shows "\<exists>oe x r t. fst (case_step P m oe) = record_receipt r t \<and> Q x t"
proof -
  obtain i where i: "opaque_ref i" "vm_ledger m i = None" using fresh_id [OF ok] by blast
  obtain x where x: "vm_contractor m = Some x" "opaque_ref x" "opaque_ref c"
    using ok c by (auto simp: case_ok_def machine_ok_def identity_ok_def)
  have n: "0 \<le> vm_revision m" "\<bar>vm_revision m\<bar> < 1000000000" and room: "length (vm_control m) < CONTROL_RECEIPT_CAP"
    using ok control_budget_bound [OF _ live]
    by (auto simp: case_ok_def machine_ok_def ledger_ok_def ORDINARY_RECEIPT_CAP_def CONTROL_RECEIPT_CAP_def)
  have keys: "event_payload_keys k = [] \<or> k = DELETION_RETRY_RECORDED" using k by (auto simp: DELETION_KINDS_def)
  let ?e = "event_of P c x i k [] (vm_revision m) tm" and ?ck = "checked_of P c x i k [] (vm_revision m) tm"
  have int: "assert_integrity P ?e = Inr ?ck"
    using x i tm n(2) by (intro event_of_integrity) (simp_all add: numeral_eq_Suc)
  have "fingerprint (ck_fingerprint ?ck)"
    unfolding checked_of_def by (simp, rule digest_fingerprint [OF P], simp add: envelope_def n(2))
  obtain y t where d: "dispatch P ?ck m = (Inr y, t)" "Q y t"
    using wp_total [OF go [of ?ck]] by (auto simp: checked_of_def)
  have o: "vm_revision t = vm_revision m"
    using dispatch_outer [of P ?ck] d(1) by (simp add: leaves_def same_outer_def outer_def) (metis snd_conv)
  have y: "code y" using dispatch_code [OF d(1)] by simp
  have "\<exists>r. transition P ?ck m = (Inr r, t)"
    using d(1) o y i(1) n(1) \<open>fingerprint (ck_fingerprint ?ck)\<close>
    by (simp add: transition_def bind_script_def reading_def lift_sum_def constructing_def done_with_def make_receipt_def
        checked_of_def)
  then obtain r where r: "transition P ?ck m = (Inr r, t)" by blast
  have "refusal ?ck m = None"
    using k live c room by (auto simp: refusal_def checked_of_def CONTROL_KINDS_def)
  then have "fst (apply_event P (Some ?e) m) = record_receipt r t"
    using int c x(1) i(2) r integrity_fields(2,3) [OF int]
    by (simp add: apply_event_def apply_checked_def checked_of_def)
  with d(2) show ?thesis by (intro exI) (simp add: case_step_def Let_def)
qed

text \<open>A time after everything the machine has recorded.\<close>

definition recorded_times :: "machine \<Rightarrow> pytime set" where
  "recorded_times m = set_option (vm_created m) \<union> set_option (vm_deletion_requested m) \<union>
     set_option (map_option ac_issued (vm_pending m)) \<union> (\<Union>a \<in> set (vm_resolved m). set_option (ac_resolved a))"

lemma late_time: "\<exists>tm :: pytime. t_aware tm \<and> (\<forall>t \<in> recorded_times m. t_at t \<le> t_at tm)"
proof -
  have f: "finite (recorded_times m)" by (simp add: recorded_times_def)
  let ?T = "Max (t_at ` recorded_times m)"
  have "\<forall>t \<in> recorded_times m. t_at t \<le> ?T" using f by simp
  then have "\<forall>t \<in> recorded_times m. t_at t \<le> t_at \<lparr>t_at = ?T, t_iso = [], t_aware = True\<rparr>" by simp
  then show ?thesis by (intro exI [of _ "\<lparr>t_at = ?T, t_iso = [], t_aware = True\<rparr>"]) simp
qed

lemma not_predating:
  assumes "\<forall>t \<in> recorded_times m. t_at t \<le> t_at (ck_time e)"
  shows "vm_created m = Some t \<Longrightarrow> \<not> t_at (ck_time e) < t_at t"
    "vm_deletion_requested m = Some t \<Longrightarrow> \<not> t_at (ck_time e) < t_at t"
    "vm_pending m = Some p \<Longrightarrow> \<not> t_at (ck_time e) < t_at (ac_issued p)" "\<not> predates_resolution e m"
  using assms by (force simp: recorded_times_def predates_resolution_def list_ex_iff not_less split: option.splits)+

lemma deletion_go:
  assumes c: "vm_case m = Some c" "vm_created m = Some t" and late: "\<forall>t \<in> recorded_times m. t_at t \<le> t_at (ck_time e)"
  shows "ck_kind e = DELETION_REQUESTED \<Longrightarrow> sv_deletion (vm_state m) = Deletion_NOT_REQUESTED \<Longrightarrow>
      wp_of (dispatch P e) (\<lambda>_ t. sv_deletion (vm_state t) = Deletion_PENDING) (\<lambda>_ _. False) m"
    "ck_kind e = DELETION_VERIFIED \<Longrightarrow> sv_deletion (vm_state m) = Deletion_PENDING \<Longrightarrow>
      wp_of (dispatch P e) (\<lambda>_ t. sv_deletion (vm_state t) = Deletion_VERIFIED) (\<lambda>_ _. False) m"
  using c not_predating [OF late]
  by (simp_all add: dispatch_def deletion_requested_def deletion_verified_def script_defs wp split: option.splits)

lemma deletion_advances:
  assumes ok: "hex_digest P" "case_ok m" "vm_case m \<noteq> None" and k: "k \<in> set DELETION_KINDS"
    and live: "sv_deletion (vm_state m) \<noteq> Deletion_VERIFIED"
    and go: "\<And>e c t. vm_case m = Some c \<Longrightarrow> vm_created m = Some t \<Longrightarrow>
      \<forall>t \<in> recorded_times m. t_at t \<le> t_at (ck_time e) \<Longrightarrow> ck_kind e = k \<Longrightarrow>
      wp_of (dispatch P e) (\<lambda>_ t. sv_deletion (vm_state t) = d) (\<lambda>_ _. False) m"
  shows "\<exists>oe. sv_deletion (vm_state (fst (case_step P m oe))) = d"
proof -
  obtain c t where c: "vm_case m = Some c" "vm_created m = Some t"
    using ok(2,3) by (auto simp: case_ok_def machine_ok_def identity_ok_def)
  obtain tm :: pytime where tm: "t_aware tm" "\<forall>t \<in> recorded_times m. t_at t \<le> t_at tm" using late_time by blast
  have "wp_of (dispatch P e) (\<lambda>_ t. sv_deletion (vm_state t) = d) (\<lambda>_ _. False) m"
    if "ck_kind e = k" "ck_time e = tm" for e
    using that tm by (intro go [OF c]) simp_all
  from deletion_step [OF ok(1,2) c(1) k live tm(1) this] obtain oe r t where
    "fst (case_step P m oe) = record_receipt r t" "sv_deletion (vm_state t) = d" by blast
  then show ?thesis by (intro exI [of _ oe]) (simp add: record_simps)
qed

lemma deletion_requestable:
  "hex_digest P \<Longrightarrow> case_ok m \<Longrightarrow> vm_case m \<noteq> None \<Longrightarrow> sv_deletion (vm_state m) = Deletion_NOT_REQUESTED \<Longrightarrow>
   \<exists>oe. sv_deletion (vm_state (fst (case_step P m oe))) = Deletion_PENDING"
  by (rule deletion_advances [where k = DELETION_REQUESTED]; (rule deletion_go(1))?; simp add: DELETION_KINDS_def)

lemma deletion_verifiable:
  "hex_digest P \<Longrightarrow> case_ok m \<Longrightarrow> vm_case m \<noteq> None \<Longrightarrow> sv_deletion (vm_state m) = Deletion_PENDING \<Longrightarrow>
   \<exists>oe. sv_deletion (vm_state (fst (case_step P m oe))) = Deletion_VERIFIED"
  by (rule deletion_advances [where k = DELETION_VERIFIED]; (rule deletion_go(2))?; simp add: DELETION_KINDS_def)

end
