(* ===== verification/Visual_Properties.thy ===== *)
theory Visual_Properties
  imports Visual_Safety
begin

text \<open>
  The properties of the visual diagnosis case, over every sequence of events its machine may be given, and a sample
  case of nine events at which those with hypotheses are applied.
\<close>

section \<open>A sample case\<close>

definition sample_platform :: platform where
  "sample_platform = \<lparr>sha256 = \<lambda>_. replicate 64 (CHR ''0''), float_text = \<lambda>_. [], iso = \<lambda>_. None\<rparr>"

definition sample_time :: pytime where
  "sample_time = \<lparr>t_at = 0, t_iso = ''2026-01-01T00:00:00+00:00'', t_aware = True\<rparr>"

definition sample_event :: "string \<Rightarrow> event_kind \<Rightarrow> (string \<times> pyval) list \<Rightarrow> int \<Rightarrow> triage_event" where
  "sample_event i kind kvs n = event_of sample_platform ''case1'' ''pro1'' i kind kvs n sample_time"

definition sample_checked :: "string \<Rightarrow> event_kind \<Rightarrow> (string \<times> pyval) list \<Rightarrow> int \<Rightarrow> checked_event" where
  "sample_checked i kind kvs n =
     \<lparr>ck_case = ''case1'', ck_contractor = ''pro1'', ck_id = i, ck_kind = kind, ck_payload = kvs,
      ck_fingerprint = replicate 64 (CHR ''0''), ck_revision = n, ck_source = Source_SYNTHETIC, ck_time = sample_time,
      ck_stage = PNone, ck_attempt = PNone\<rparr>"

lemma sample_digest: "printable v \<Longrightarrow> digest_of sample_platform v = replicate 64 (CHR ''0'')"
  using printable_json [of v sample_platform] by (auto simp: digest_of_def sha_def sample_platform_def)

lemma sample_hex: "hex_digest sample_platform"
  by (simp add: hex_digest_def sample_platform_def fingerprint_def digit_def char_in_def list_all_iff)

lemma sample_refs: "opaque_ref ''case1''" "opaque_ref ''pro1''"
  by (simp_all add: opaque_ref_def matches_def alnum_def lower_def digit_def char_in_def)

lemma sample_integrity:
  assumes "opaque_ref i" "structural 5 (PDict kvs)" "set (map fst kvs) \<subseteq> set (event_payload_keys kind)"
    "printable (PDict kvs)" "\<bar>n\<bar> < 1000000000"
  shows "assert_integrity sample_platform (sample_event i kind kvs n) = Inr (sample_checked i kind kvs n)"
proof -
  have "assert_integrity sample_platform (sample_event i kind kvs n) =
      Inr (checked_of sample_platform ''case1'' ''pro1'' i kind kvs n sample_time)"
    unfolding sample_event_def using assms by (intro event_of_integrity sample_refs) (simp_all add: sample_time_def)
  also have "checked_of sample_platform ''case1'' ''pro1'' i kind kvs n sample_time = sample_checked i kind kvs n"
    using assms(4,5) by (simp add: checked_of_def sample_checked_def sample_digest envelope_def)
  finally show ?thesis .
qed

definition payload_ok :: "event_kind \<Rightarrow> (string \<times> pyval) list \<Rightarrow> bool" where
  "payload_ok kind kvs = (structural 5 (PDict kvs) \<and> set (map fst kvs) \<subseteq> set (event_payload_keys kind) \<and>
     printable (PDict kvs))"

lemma sample_step:
  assumes "opaque_ref i" "payload_ok kind kvs" "\<bar>n\<bar> < 1000000000"
    and "if vm_case m = None then kind = CASE_CREATED else vm_case m = Some ''case1'' \<and> vm_contractor m = Some ''pro1''"
    and "vm_ledger m i = None" "refusal (sample_checked i kind kvs n) m = None"
    and d: "\<not> isl (fst (dispatch sample_platform (sample_checked i kind kvs n) m))" "vm_revision m = n" "0 \<le> n"
  shows "fst (apply_event sample_platform (Some (sample_event i kind kvs n)) m) =
    record_receipt \<lparr>rc_event = i, rc_kind = kind, rc_fingerprint = replicate 64 (CHR ''0''),
      rc_code = event_kind_value kind, rc_revision = n + 1\<rparr> (snd (dispatch sample_platform (sample_checked i kind kvs n) m))"
proof -
  let ?ck = "sample_checked i kind kvs n"
  obtain c t where dt: "dispatch sample_platform ?ck m = (Inr c, t)"
    using d(1) by (metis eq_fst_iff isl_def sum.exhaust_sel surj_pair)
  have int: "assert_integrity sample_platform (sample_event i kind kvs n) = Inr ?ck"
    using assms(1-3) by (intro sample_integrity) (simp_all add: payload_ok_def)
  have c: "c = event_kind_value kind" using dispatch_code [OF dt] by (simp add: sample_checked_def)
  have o: "vm_revision t = n"
    using dispatch_outer [of sample_platform ?ck] dt d(2) by (simp add: leaves_def same_outer_def outer_def) (metis snd_conv)
  have f: "fingerprint (replicate 64 (CHR ''0''))"
    by (simp add: fingerprint_def digit_def char_in_def list_all_iff)
  have "transition sample_platform ?ck m = (Inr \<lparr>rc_event = i, rc_kind = kind, rc_fingerprint = replicate 64 (CHR ''0''),
      rc_code = event_kind_value kind, rc_revision = n + 1\<rparr>, t)"
    using dt d(3) o assms(1) f c
    by (simp add: transition_def bind_script_def reading_def lift_sum_def constructing_def done_with_def make_receipt_def
        sample_checked_def)
  with int dt assms(4-6) integrity_fields(2,3) [OF int] show ?thesis
    by (simp add: apply_event_def apply_checked_def sample_checked_def split: if_splits)
qed

lemmas sample_simps = sample_checked_def sample_time_def new_machine_def initial_vector_def record_receipt_def
  refusal_def CONTROL_KINDS_def CONTROL_TERMINALS_def DELETION_KINDS_def CONTROL_RECEIPT_CAP_def ORDINARY_RECEIPT_CAP_def
  opaque_ref_def matches_def alnum_def lower_def digit_def char_in_def dispatch_def done_with_def raising_def bind_script_def reading_def assign_def
  lift_sum_def raise_if_def script_defs handler_defs predates_resolution_def evidence_def finished_analysis_def


definition sample_upload :: "(string \<times> pyval) list" where
  "sample_upload = [(''asset_id'', PStr ''a1''), (''media_type'', PStr ''video/mp4''),
     (''byte_size'', PInt 1000), (''digest'', PStr (replicate 64 (CHR ''0'')))]"

lemma empty_payload: "payload_ok kind []"
  by (simp add: payload_ok_def numeral_eq_Suc)

lemma sample_payloads:
  "payload_ok UPLOAD_STARTED sample_upload" "payload_ok UPLOAD_FINALIZED [(''asset_id'', PStr ''a1'')]"
  "payload_ok MEDIA_VALIDATED [(''asset_id'', PStr ''a1''), (''validation'', PStr ''validated'')]"
  "payload_ok ANALYSIS_COMPLETED [(''outcome'', PStr ''complete'')]"
  by code_simp+

definition sample_asset :: media_asset where
  "sample_asset = \<lparr>ma_id = ''a1'', ma_role = Role_SYMPTOM_VIDEO, ma_type = ''video/mp4'', ma_bytes = 1000,
     ma_duration = None, ma_width = None, ma_height = None, ma_digest = replicate 64 (CHR ''0''),
     ma_validation = Validation_PENDING\<rparr>"

lemma sample_values:
  "make_asset ''a1'' Role_SYMPTOM_VIDEO ''video/mp4'' (PInt 1000) PNone PNone PNone (replicate 64 (CHR ''0'')) = Inr sample_asset"
  "media_type_ok ''video/mp4''" "enum_of validation_value validations (PStr ''validated'') = Inr Validation_VALIDATED"
  by code_simp+

definition sample_events :: "triage_event option list" where
  "sample_events = map Some
     [sample_event ''e1'' CASE_CREATED [] 0, sample_event ''e2'' CONSENT_REQUESTED [] 1,
      sample_event ''e3'' CONSENT_GRANTED [] 2, sample_event ''e4'' UPLOAD_STARTED sample_upload 3,
      sample_event ''e5'' UPLOAD_FINALIZED [(''asset_id'', PStr ''a1'')] 4,
      sample_event ''e6'' MEDIA_VALIDATED [(''asset_id'', PStr ''a1''), (''validation'', PStr ''validated'')] 5,
      sample_event ''e7'' ANALYSIS_STARTED [] 6,
      sample_event ''e8'' ANALYSIS_COMPLETED [(''outcome'', PStr ''complete'')] 7,
      sample_event ''e9'' CONTRACTOR_PACKET_READY_RECORDED [] 8]"

lemmas run_simps = case_run_def case_step_def Let_def sample_step sample_simps case_fields_def get_or_def
  dots_to_colons_def code_def empty_payload sample_payloads [unfolded sample_upload_def] sample_values value_of_def text_of_def member_of_def
  constructing_def sample_asset_def

lemma answered:
  assumes ok: "case_ok m"
  shows "\<exists>d. snd (apply_event P oe m) = Inr d \<and>
     (if dn_accepted d \<and> \<not> dn_replayed d
      then vm_revision (fst (apply_event P oe m)) = vm_revision m + 1 \<and> dn_revision d = vm_revision m + 1
      else fst (apply_event P oe m) = m)"
proof (cases rule: apply_event_cases [of P oe m])
  case (1 reveal c)
  with refuse_ok [OF ok 1(2), of reveal] show ?thesis by auto
next
  case (2 e ck prior)
  with replay_ok [OF ok 2(2)] show ?thesis by auto
next
  case (3 e ck r t)
  have "rc_code r = event_kind_value (ck_kind ck)" by (simp add: transition_dispatch(3) [OF 3(6)])
  from accepted_decision_ok [OF accepted_ok(1) [OF ok integrity_fields(1) [OF 3(2)] 3(3-6)] this] 3
  show ?thesis by (auto simp: transition_revision)
qed

lemma sample_run: "output_begun (case_run sample_platform sample_events)"
  by (simp add: sample_events_def run_simps sample_upload_def output_begun_def)

lemma sample_created: "vm_case (case_run sample_platform [Some (sample_event ''e1'' CASE_CREATED [] 0)]) = Some ''case1''"
  by (simp add: run_simps)

definition sample_deletion :: "triage_event option" where
  "sample_deletion = Some (sample_event ''e2'' DELETION_REQUESTED [] 1)"

lemma sample_deleting:
  "sv_deletion (vm_state (case_run sample_platform [Some (sample_event ''e1'' CASE_CREATED [] 0), sample_deletion])) = Deletion_PENDING"
  by (simp add: sample_deletion_def run_simps)

lemma sample_accepted:
  "\<exists>d. snd (apply_event sample_platform (Some (sample_event ''e1'' CASE_CREATED [] 0)) (case_run sample_platform [])) = Inr d \<and>
     dn_accepted d \<and> \<not> dn_replayed d"
proof -
  let ?e = "Some (sample_event ''e1'' CASE_CREATED [] 0)"
  have "fst (apply_event sample_platform ?e (case_run sample_platform [])) \<noteq> case_run sample_platform []"
    by (rule notI, drule arg_cong [where f = vm_revision]) (simp add: run_simps)
  then show ?thesis
    using answered [where P = sample_platform and oe = ?e and m = "case_run sample_platform []", OF case_run_ok] by (auto split: if_splits)
qed

section \<open>The properties\<close>

text \<open>C22: Whatever event is applied after whatever events (well formed or not, in any order), \<open>apply\<close> returns a decision and raises nothing; unless the decision says the event was newly accepted, the machine is left exactly as it was, and a newly accepted event moves the revision by one.\<close>

theorem every_event_is_answered:
  "\<exists>d. snd (apply_event P oe (case_run P es)) = Inr d \<and>
     (if dn_accepted d \<and> \<not> dn_replayed d
      then vm_revision (fst (apply_event P oe (case_run P es))) = vm_revision (case_run P es) + 1 \<and>
           dn_revision d = vm_revision (case_run P es) + 1
      else fst (apply_event P oe (case_run P es)) = case_run P es)"
  by (rule answered) (rule case_run_ok)

text \<open>C23: After any events, \<open>snapshot\<close> returns a case that passes every check of the \<open>VisualTriageCase\<close> model (or nothing, before the case exists); it has at most three assets, its revision is the number of its receipts, and the receipts carry the revisions from one to that number, each once.\<close>

theorem snapshot_is_valid:
  "case snapshot (case_run P es) of Inl _ \<Rightarrow> False
   | Inr None \<Rightarrow> case_run P es = new_machine
   | Inr (Some c) \<Rightarrow> make_case c = Inr c \<and> length (tc_assets c) \<le> 3 \<and>
       tc_revision c = int (length (tc_ordinary c) + length (tc_control c)) \<and>
       rc_revision ` set (tc_ordinary c @ tc_control c) = {1..tc_revision c}"
  using snapshot_of_ok [OF case_run_ok, of P es] case_run_ok [of P es] assets_bound [of "case_run P es"]
  by (auto simp: case_ok_def ledger_ok_def receipts_def)

text \<open>Optimistic concurrency: the newly accepted events of a run carry the expected revisions 0, 1, 2 and so on without a gap or a repetition, the revision counts them, and there are at most 70, so no two events with the same expected revision are ever both accepted.\<close>

theorem accepted_events_are_numbered:
  "map (map_option ev_revision) (accepted_events (case_step P) new_machine es) =
     map (\<lambda>n. Some (PInt (int n))) [0..<length (accepted_events (case_step P) new_machine es)] \<and>
   vm_revision (case_run P es) = int (length (accepted_events (case_step P) new_machine es)) \<and>
   length (accepted_events (case_step P) new_machine es) \<le> ORDINARY_RECEIPT_CAP + CONTROL_RECEIPT_CAP"
proof -
  have "numbered [] new_machine" by (simp add: numbered_def new_machine_ok) (simp add: new_machine_def)
  from numbering.run_rel0 [OF this, of P es]
  have n: "numbered (accepted_events (case_step P) new_machine es) (case_run P es)" by (simp add: case_run_def)
  moreover have "vm_revision (case_run P es) \<le> int (ORDINARY_RECEIPT_CAP + CONTROL_RECEIPT_CAP)"
    using case_run_ok [of P es] control_budget_cap [of "case_run P es"]
    by (simp add: case_ok_def machine_ok_def ledger_ok_def)
  ultimately show ?thesis by (simp add: numbered_def)
qed

text \<open>C21: Idempotence: an event that was newly accepted, applied again after any further events, changes nothing and is answered with the revision and the code of its first decision, except that after a verified deletion only the event that verified it is still replayed.\<close>

theorem accepted_event_replays:
  assumes a: "snd (apply_event P (Some e) (case_run P es)) = Inr d" "dn_accepted d" "\<not> dn_replayed d"
    and u: "u = case_run P (es @ Some e # fs)"
  shows "fst (apply_event P (Some e) u) = u \<and>
    (\<exists>d'. snd (apply_event P (Some e) u) = Inr d' \<and>
       (if sv_deletion (vm_state u) = Deletion_VERIFIED \<and> ev_kind e \<noteq> Some DELETION_VERIFIED
        then \<not> dn_accepted d' \<and> dn_code d' = ''verified_deletion_terminal''
        else dn_accepted d' \<and> dn_replayed d' \<and> dn_old_revision d' = Some (dn_revision d) \<and> dn_old_code d' = Some (dn_code d)))"
proof (cases rule: apply_event_cases [of P "Some e" "case_run P es"])
  case (1 reveal c)
  obtain d' where "refuse reveal c (case_run P es) = Inr d'" "\<not> dn_accepted d'"
    using refuse_ok [OF case_run_ok 1(2)] by blast
  with a 1 show ?thesis by simp
next
  case (2 e' ck prior)
  obtain d' where "replay prior (case_run P es) = Inr d'" "dn_replayed d'"
    using replay_ok [OF case_run_ok 2(2)] by blast
  with a 2 show ?thesis by simp
next
  case (3 e' ck r t)
  then have i: "assert_integrity P e = Inr ck" by simp
  note d = transition_dispatch [OF 3(6)]
  note acc = accepted_ok [OF case_run_ok integrity_fields(1) [OF i] 3(3-6)]
  have now: "fst (case_step P (case_run P es) (Some e)) = record_receipt r t" using 3 by (simp add: case_step_def Let_def)
  have "lasting (ck_id ck) r (ck_case ck) (ck_contractor ck) (record_receipt r t)"
    using acc by (simp add: lasting_def record_simps d(3))
  from last.run_inv [OF this, of P fs] have l: "lasting (ck_id ck) r (ck_case ck) (ck_contractor ck) u"
    using u now by (simp add: case_run_def run_steps_append)
  have okd: "dn_revision d = rc_revision r" "dn_code d = rc_code r"
    using accepted_decision_ok [OF acc(1), of r "ck_kind ck"] a 3 d(3) by (auto simp: record_simps same_outerD [OF d(2)])
  have "case_ok u" "vm_ledger u (ck_id ck) = Some r" using l by (simp_all add: lasting_def)
  with replay_ok [of u "ck_id ck" r] refuse_ok [of u "''verified_deletion_terminal''" True]
  show ?thesis
    using replayed_receipt [OF l i] okd integrity_fields(6) [OF i] by (auto simp: d(3))
qed

lemma accepted_event_replays_witness:
  "\<exists>d. snd (apply_event sample_platform (Some (sample_event ''e1'' CASE_CREATED [] 0))
        (case_run sample_platform [Some (sample_event ''e1'' CASE_CREATED [] 0), sample_deletion])) = Inr d \<and> dn_replayed d"
proof -
  let ?e = "sample_event ''e1'' CASE_CREATED [] 0"
  obtain d where "snd (apply_event sample_platform (Some ?e) (case_run sample_platform [])) = Inr d" "dn_accepted d" "\<not> dn_replayed d"
    using sample_accepted by blast
  from accepted_event_replays [OF this refl, of "[sample_deletion]"] sample_deleting show ?thesis by auto
qed

text \<open>C6: Once a deletion has been requested no later event undoes it or touches the case: whatever is applied, the state but for the deletion status, the pending and the resolved actions, the assets and the ordinary receipts stay as they are, and once the deletion is verified the machine never changes again.\<close>

theorem deletion_freezes_the_case:
  assumes "sv_deletion (vm_state (case_run P es)) \<noteq> Deletion_NOT_REQUESTED"
  shows "frozen (case_run P es) (case_run P (es @ fs))"
proof -
  have "ending (case_run P es) (case_run P es)" using assms case_run_ok by (simp add: ending_def frozen_def)
  from deletion.run_inv [OF this, of P fs] show ?thesis by (simp add: ending_def case_run_def run_steps_append)
qed

lemma deletion_freezes_the_case_witness:
  "frozen (case_run sample_platform [Some (sample_event ''e1'' CASE_CREATED [] 0), sample_deletion])
     (case_run sample_platform ([Some (sample_event ''e1'' CASE_CREATED [] 0), sample_deletion] @
        [Some (sample_event ''e3'' CONSENT_REQUESTED [] 2)]))"
  by (rule deletion_freezes_the_case) (simp add: sample_deleting)

text \<open>C34: A deletion can always be completed: from any state a case can reach, whatever receipts it has used up, at most two further events bring it to the verified deletion, given that the digest function returns 64 hexadecimal digits.\<close>

theorem deletion_can_be_completed:
  assumes "hex_digest P" and "vm_case (case_run P es) \<noteq> None"
  shows "\<exists>fs. length fs \<le> 2 \<and> sv_deletion (vm_state (case_run P (es @ fs))) = Deletion_VERIFIED"
proof -
  have verify: "\<exists>oe. sv_deletion (vm_state (case_run P (hs @ [oe]))) = Deletion_VERIFIED"
    if "vm_case (case_run P hs) \<noteq> None" "sv_deletion (vm_state (case_run P hs)) = Deletion_PENDING" for hs
    using deletion_verifiable [OF assms(1) case_run_ok that] by (simp add: case_run_def run_steps_append)
  show ?thesis
  proof (cases "sv_deletion (vm_state (case_run P es))")
    case Deletion_NOT_REQUESTED
    then obtain oe where oe: "sv_deletion (vm_state (case_run P (es @ [oe]))) = Deletion_PENDING"
      using deletion_requestable [OF assms(1) case_run_ok assms(2)] by (auto simp: case_run_def run_steps_append)
    have "vm_case (case_run P (es @ [oe])) \<noteq> None"
      using case_run_ok [of P "es @ [oe]"] oe
      by (auto simp: case_ok_def machine_ok_def identity_ok_def new_machine_def initial_vector_def split: option.splits)
    from verify [OF this oe] obtain oe' where "sv_deletion (vm_state (case_run P (es @ [oe, oe']))) = Deletion_VERIFIED" by auto
    then show ?thesis by (intro exI [of _ "[oe, oe']"]) simp
  next
    case Deletion_PENDING
    with verify [OF assms(2)] obtain oe where "sv_deletion (vm_state (case_run P (es @ [oe]))) = Deletion_VERIFIED" by blast
    then show ?thesis by (intro exI [of _ "[oe]"]) simp
  next
    case Deletion_VERIFIED
    then show ?thesis by (intro exI [of _ "[]"]) simp
  qed
qed

lemma deletion_can_be_completed_witness:
  "\<exists>fs. length fs \<le> 2 \<and> sv_deletion (vm_state (case_run sample_platform ([Some (sample_event ''e1'' CASE_CREATED [] 0)] @ fs))) = Deletion_VERIFIED"
  by (rule deletion_can_be_completed) (simp_all add: sample_hex sample_created)

text \<open>C7: A contractor packet or a delivery to the customer is only ever prepared once the analysis has ended, complete or abstained, after the customer gave consent and with no action pending; a complete analysis rests on validated media with a validated symptom video or recapture.\<close>

theorem outputs_rest_on_evidence:
  assumes "output_begun (case_run P es)"
  shows "sv_analysis (vm_state (case_run P es)) \<in> {Analysis_COMPLETE, Analysis_ABSTAINED} \<and>
    sv_consent (vm_state (case_run P es)) \<in> {Consent_GRANTED, Consent_WITHDRAWN} \<and> vm_pending (case_run P es) = None \<and>
    (if sv_analysis (vm_state (case_run P es)) = Analysis_COMPLETE
     then sv_media (vm_state (case_run P es)) = Media_VALIDATED \<and> has_symptom_evidence (case_run P es) else True)"
proof -
  have m: "machine_ok (case_run P es)" using case_run_ok by (simp add: case_ok_def)
  then have "evidence_ok (case_run P es)" "phases_ok (case_run P es)" by (simp_all add: machine_ok_def)
  with assms show ?thesis by (auto simp: evidence_ok_def phases_ok_def finished_analysis_def uploaded_def)
qed

lemma outputs_rest_on_evidence_witness:
  "sv_analysis (vm_state (case_run sample_platform sample_events)) \<in> {Analysis_COMPLETE, Analysis_ABSTAINED}"
  using outputs_rest_on_evidence [OF sample_run] by blast

end
