(* ===== verification/Service_Request.thy ===== *)
theory Service_Request
  imports Visual_Contracts
begin

text \<open>
  The service-request aggregate, app/services/service_request.py: validation and normalisation of its fields, the
  create, cancel, reschedule and add-service commands with their idempotency records, the check of the whole command
  history that every construction makes, and the dictionary form. \<open>to_json\<close> and \<open>from_json\<close> are not modelled.
  SHA-256, NFKC normalisation and \<open>datetime.fromisoformat\<close> are parameters; \<open>isoformat\<close> is modelled.
\<close>

section \<open>Errors, times and enumerations\<close>

text \<open>\<open>Value_Err\<close> is a \<open>ValueError\<close> that is no \<open>ServiceRequestError\<close>.\<close>

datatype sr_error = Type_Err | Value_Err | Validation | Concurrency int int | Idempotency_Conflict | Transition

text \<open>A datetime: its instant in microseconds since the year 1, in UTC, and its offset, \<open>None\<close> when it is naive.\<close>

record moment =
  mo_at :: int
  mo_offset :: "int option"

record sr_platform =
  base :: platform
  nfkc :: "string \<Rightarrow> string"
  unstamp :: "string \<Rightarrow> moment option"

datatype sr_status = SR_OPEN | SR_CANCELLED

fun sr_status_value :: "sr_status \<Rightarrow> string" where
  "sr_status_value SR_OPEN = ''open''"
| "sr_status_value SR_CANCELLED = ''cancelled''"

datatype sr_operation = OP_CREATE | OP_CANCEL | OP_RESCHEDULE | OP_ADD_SERVICE

fun operation_value :: "sr_operation \<Rightarrow> string" where
  "operation_value OP_CREATE = ''create''"
| "operation_value OP_CANCEL = ''cancel''"
| "operation_value OP_RESCHEDULE = ''reschedule''"
| "operation_value OP_ADD_SERVICE = ''add_service''"

definition MAX_SERVICE_LABEL_LENGTH :: nat where
  "MAX_SERVICE_LABEL_LENGTH = 120"

definition MAX_SERVICE_COUNT :: nat where
  "MAX_SERVICE_COUNT = 20"

definition MAX_REQUEST_ID_LENGTH :: nat where
  "MAX_REQUEST_ID_LENGTH = 160"

definition MAX_IDEMPOTENCY_KEY_LENGTH :: nat where
  "MAX_IDEMPOTENCY_KEY_LENGTH = 200"

section \<open>Fields\<close>

text \<open>The year 10000 begins this many microseconds after the year 1.\<close>

definition END_OF_TIME :: int where
  "END_OF_TIME = 315537897600000000"

text \<open>The argument is \<open>None\<close> when it is no datetime.\<close>

definition normalize_utc :: "moment option \<Rightarrow> sr_error + moment" where
  "normalize_utc v = (case v of None \<Rightarrow> Inl Type_Err
     | Some t \<Rightarrow> if mo_offset t = None \<or> mo_at t < 0 \<or> END_OF_TIME \<le> mo_at t then Inl Validation
         else Inr \<lparr>mo_at = mo_at t, mo_offset = Some 0\<rparr>)"

definition validate_canonical_utc :: "moment \<Rightarrow> sr_error + unit" where
  "validate_canonical_utc t =
     ebind (normalize_utc (Some t)) (\<lambda>n. if mo_at n \<noteq> mo_at t \<or> mo_offset t \<noteq> Some 0 then Inl Validation else Inr ())"

text \<open>\<open>isoformat(timespec='microseconds')\<close> of a datetime in UTC, with a \<open>Z\<close> for its offset.\<close>

fun padded :: "nat \<Rightarrow> nat \<Rightarrow> string" where
  "padded 0 n = []"
| "padded (Suc k) n = padded k (n div 10) @ [char_of (48 + n mod 10)]"

fun month_and_day :: "nat list \<Rightarrow> nat \<Rightarrow> nat \<Rightarrow> nat \<times> nat" where
  "month_and_day [] m n = (m, n + 1)"
| "month_and_day (l # ls) m n = (if n < l then (m, n + 1) else month_and_day ls (m + 1) (n - l))"

definition civil :: "nat \<Rightarrow> nat \<times> nat \<times> nat" where
  "civil days =
     (let n400 = days div 146097; a = days mod 146097; n100 = a div 36524; b = a mod 36524;
          n4 = b div 1461; c = b mod 1461; n1 = c div 365; d = c mod 365;
          year = n400 * 400 + n100 * 100 + n4 * 4 + n1 + 1;
          leap = (n1 = 3 \<and> (n4 \<noteq> 24 \<or> n100 = 3)) in
      if n1 = 4 \<or> n100 = 4 then (year - 1, 12, 31)
      else (year, month_and_day [31, if leap then 29 else 28, 31, 30, 31, 30, 31, 31, 30, 31, 30, 31] 1 d))"

definition stamp :: "int \<Rightarrow> string" where
  "stamp t =
     (let day = nat (t div 86400000000); us = nat (t mod 86400000000); (y, m, d) = civil day in
      padded 4 y @ ''-'' @ padded 2 m @ ''-'' @ padded 2 d @ ''T'' @ padded 2 (us div 3600000000) @ '':'' @
      padded 2 (us div 60000000 mod 60) @ '':'' @ padded 2 (us div 1000000 mod 60) @ ''.'' @
      padded 6 (us mod 1000000) @ ''Z'')"

definition serialize_datetime :: "moment \<Rightarrow> sr_error + string" where
  "serialize_datetime t = ebind (validate_canonical_utc t) (\<lambda>_. Inr (stamp (mo_at t)))"

definition parse_datetime :: "sr_platform \<Rightarrow> pyval \<Rightarrow> sr_error + moment" where
  "parse_datetime W v = (case v of
       PStr s \<Rightarrow> (case unstamp W s of None \<Rightarrow> Inl Validation | Some t \<Rightarrow> normalize_utc (Some t))
     | _ \<Rightarrow> Inl Validation)"

text \<open>Unicode category Cc, among the characters below 256.\<close>

definition control :: "char \<Rightarrow> bool" where
  "control c = (let n = (of_char c :: nat) in n < 32 \<or> 127 \<le> n \<and> n \<le> 159)"

definition validate_identifier :: "string \<Rightarrow> nat \<Rightarrow> sr_error + unit" where
  "validate_identifier s n =
     (if s = [] \<or> s \<noteq> py_strip s \<or> n < length s \<or> list_ex control s then Inl Validation else Inr ())"

definition normalize_identifier :: "pyval \<Rightarrow> nat \<Rightarrow> sr_error + string" where
  "normalize_identifier v n = (case v of
       PStr s \<Rightarrow> ebind (validate_identifier (py_strip s) n) (\<lambda>_. Inr (py_strip s))
     | _ \<Rightarrow> Inl Type_Err)"

definition validate_revision :: "int \<Rightarrow> pyval \<Rightarrow> sr_error + int" where
  "validate_revision least v = (case v of PInt i \<Rightarrow> if i < least then Inl Validation else Inr i | _ \<Rightarrow> Inl Type_Err)"

definition single_spaced :: "string \<Rightarrow> string" where
  "single_spaced s = join '' '' (words_after [] s)"

definition normalize_service_label :: "sr_platform \<Rightarrow> pyval \<Rightarrow> sr_error + string" where
  "normalize_service_label W v = (case v of
       PStr s \<Rightarrow>
         if list_ex control (nfkc W s) then Inl Validation
         else let t = single_spaced (nfkc W s) in
           if t = [] \<or> MAX_SERVICE_LABEL_LENGTH < length t then Inl Validation else Inr t
     | _ \<Rightarrow> Inl Type_Err)"

definition normalize_services :: "sr_platform \<Rightarrow> pyval \<Rightarrow> sr_error + string list" where
  "normalize_services W v = (case v of
       PList vs \<Rightarrow>
         if vs = [] \<or> MAX_SERVICE_COUNT < length vs then Inl Validation
         else ebind (collect (map (normalize_service_label W) vs)) (\<lambda>ls.
           if distinct (map casefold ls) then Inr ls else Inl Validation)
     | _ \<Rightarrow> Inl Type_Err)"

definition validate_canonical_services :: "sr_platform \<Rightarrow> string list \<Rightarrow> sr_error + unit" where
  "validate_canonical_services W ls =
     ebind (normalize_services W (PList (map PStr ls))) (\<lambda>n. if n \<noteq> ls then Inl Validation else Inr ())"

definition normalize_schedule :: "moment option \<Rightarrow> moment option \<Rightarrow> sr_error + moment \<times> moment" where
  "normalize_schedule start stop =
     ebind (normalize_utc start) (\<lambda>s. ebind (normalize_utc stop) (\<lambda>e.
       if mo_at e \<le> mo_at s then Inl Validation else Inr (s, e)))"

definition validate_canonical_schedule :: "moment \<Rightarrow> moment \<Rightarrow> sr_error + unit" where
  "validate_canonical_schedule s e =
     ebind (validate_canonical_utc s) (\<lambda>_. ebind (validate_canonical_utc e) (\<lambda>_.
       if mo_at e \<le> mo_at s then Inl Validation else Inr ()))"

definition command_fingerprint :: "sr_platform \<Rightarrow> sr_operation \<Rightarrow> int \<Rightarrow> pyval \<Rightarrow> sr_error + string" where
  "command_fingerprint W operation revision payload =
     (case canonical_json (base W) (PDict [(''operation'', PStr (operation_value operation)),
             (''expected_revision'', PInt revision), (''payload'', payload)]) of
        Inl _ \<Rightarrow> Inl Value_Err | Inr t \<Rightarrow> Inr (sha256 (base W) t))"

section \<open>Outcomes, records and the aggregate\<close>

record outcome =
  oc_request :: string
  oc_operation :: sr_operation
  oc_revision :: int
  oc_status :: sr_status
  oc_services :: "string list"
  oc_start :: moment
  oc_end :: moment
  oc_applied :: moment

definition make_outcome :: "sr_platform \<Rightarrow> outcome \<Rightarrow> sr_error + outcome" where
  "make_outcome W o1 =
     ebind (validate_identifier (oc_request o1) MAX_REQUEST_ID_LENGTH) (\<lambda>_.
     ebind (validate_revision 1 (PInt (oc_revision o1))) (\<lambda>_.
     ebind (validate_canonical_services W (oc_services o1)) (\<lambda>_.
     ebind (validate_canonical_schedule (oc_start o1) (oc_end o1)) (\<lambda>_.
     ebind (validate_canonical_utc (oc_applied o1)) (\<lambda>_. Inr o1)))))"

record idem_record =
  ir_key :: string
  ir_fingerprint :: string
  ir_outcome :: outcome

definition make_record :: "idem_record \<Rightarrow> sr_error + idem_record" where
  "make_record r =
     ebind (validate_identifier (ir_key r) MAX_IDEMPOTENCY_KEY_LENGTH) (\<lambda>_.
       if fingerprint (ir_fingerprint r) then Inr r else Inl Validation)"

record service_request =
  sq_id :: string
  sq_status :: sr_status
  sq_revision :: int
  sq_services :: "string list"
  sq_start :: moment
  sq_end :: moment
  sq_created :: moment
  sq_updated :: moment
  sq_records :: "idem_record list"
  sq_schema :: int

text \<open>One step of the history: the outcome of a command after the one before it, if there is one.\<close>

definition history_transition :: "outcome option \<Rightarrow> outcome \<Rightarrow> sr_error + unit" where
  "history_transition previous cur = (case previous of
       None \<Rightarrow> if oc_revision cur \<noteq> 1 \<or> oc_status cur \<noteq> SR_OPEN then Inl Validation else Inr ()
     | Some prev \<Rightarrow>
         if mo_at (oc_applied cur) < mo_at (oc_applied prev) then Inl Validation
         else if oc_status prev \<noteq> SR_OPEN then Inl Validation
         else (case oc_operation cur of
             OP_CREATE \<Rightarrow> Inl Validation
           | OP_CANCEL \<Rightarrow>
               if oc_status cur \<noteq> SR_CANCELLED \<or> oc_services cur \<noteq> oc_services prev \<or> oc_start cur \<noteq> oc_start prev \<or>
                  oc_end cur \<noteq> oc_end prev then Inl Validation else Inr ()
           | OP_RESCHEDULE \<Rightarrow>
               if oc_status cur \<noteq> SR_OPEN \<or> oc_services cur \<noteq> oc_services prev \<or>
                  (oc_start cur, oc_end cur) = (oc_start prev, oc_end prev) then Inl Validation else Inr ()
           | OP_ADD_SERVICE \<Rightarrow>
               if oc_status cur \<noteq> SR_OPEN \<or> oc_start cur \<noteq> oc_start prev \<or> oc_end cur \<noteq> oc_end prev \<or>
                  length (oc_services cur) \<noteq> length (oc_services prev) + 1 \<or>
                  butlast (oc_services cur) \<noteq> oc_services prev then Inl Validation else Inr ()))"

fun history_from :: "service_request \<Rightarrow> outcome option \<Rightarrow> outcome list \<Rightarrow> sr_error + outcome option" where
  "history_from r previous [] = Inr previous"
| "history_from r previous (c # cs) =
     (if oc_request c \<noteq> sq_id r then Inl Validation
      else if \<not> (mo_at (sq_created r) \<le> mo_at (oc_applied c) \<and> mo_at (oc_applied c) \<le> mo_at (sq_updated r))
      then Inl Validation
      else ebind (history_transition previous c) (\<lambda>_. history_from r (Some c) cs))"

definition validate_history :: "service_request \<Rightarrow> sr_error + unit" where
  "validate_history r =
     (let records = map ir_outcome (sort_key (oc_revision \<circ> ir_outcome) (sq_records r)) in
      if int (length (sq_records r)) \<noteq> sq_revision r then Inl Validation
      else if \<not> distinct (map ir_key (sq_records r)) then Inl Validation
      else if map oc_revision records \<noteq> [1..sq_revision r] then Inl Validation
      else if oc_operation (hd records) \<noteq> OP_CREATE then Inl Validation
      else ebind (history_from r None records) (\<lambda>last.
        case last of None \<Rightarrow> Inl Validation
        | Some previous \<Rightarrow>
           if sq_created r \<noteq> oc_applied (hd records) then Inl Validation
           else if sq_updated r \<noteq> oc_applied previous then Inl Validation
           else if (sq_status r, sq_services r, sq_start r, sq_end r) \<noteq>
                   (oc_status previous, oc_services previous, oc_start previous, oc_end previous) then Inl Validation
           else Inr ()))"

definition SERVICE_REQUEST_SCHEMA_VERSION :: int where
  "SERVICE_REQUEST_SCHEMA_VERSION = 1"

definition make_request :: "sr_platform \<Rightarrow> service_request \<Rightarrow> sr_error + service_request" where
  "make_request W r =
     (if sq_schema r \<noteq> SERVICE_REQUEST_SCHEMA_VERSION then Inl Validation
      else ebind (validate_identifier (sq_id r) MAX_REQUEST_ID_LENGTH) (\<lambda>_.
      ebind (validate_revision 1 (PInt (sq_revision r))) (\<lambda>_.
      ebind (validate_canonical_services W (sq_services r)) (\<lambda>_.
      ebind (validate_canonical_schedule (sq_start r) (sq_end r)) (\<lambda>_.
      ebind (validate_canonical_utc (sq_created r)) (\<lambda>_.
      ebind (validate_canonical_utc (sq_updated r)) (\<lambda>_.
      if mo_at (sq_updated r) < mo_at (sq_created r) then Inl Validation
      else ebind (validate_history r) (\<lambda>_. Inr r))))))))"

section \<open>Commands\<close>

type_synonym command_result = "service_request \<times> outcome"

definition replay_command :: "service_request \<Rightarrow> string \<Rightarrow> string \<Rightarrow> sr_error + command_result option" where
  "replay_command r key fp = (case List.find (\<lambda>x. ir_key x = key) (sq_records r) of
       None \<Rightarrow> Inr None
     | Some x \<Rightarrow> if ir_fingerprint x \<noteq> fp then Inl Idempotency_Conflict else Inr (Some (r, ir_outcome x)))"

definition require_revision :: "service_request \<Rightarrow> int \<Rightarrow> sr_error + unit" where
  "require_revision r expected = (if expected \<noteq> sq_revision r then Inl (Concurrency expected (sq_revision r)) else Inr ())"

definition require_open :: "service_request \<Rightarrow> sr_error + unit" where
  "require_open r = (if sq_status r \<noteq> SR_OPEN then Inl Transition else Inr ())"

definition next_request ::
    "sr_platform \<Rightarrow> service_request \<Rightarrow> sr_operation \<Rightarrow> string \<Rightarrow> string \<Rightarrow> moment \<Rightarrow> sr_status \<Rightarrow> string list \<Rightarrow>
     moment \<Rightarrow> moment \<Rightarrow> sr_error + command_result" where
  "next_request W r operation key fp applied status services start stop =
     (if mo_at applied < mo_at (sq_updated r) then Inl Validation
      else ebind (make_outcome W \<lparr>oc_request = sq_id r, oc_operation = operation, oc_revision = sq_revision r + 1,
        oc_status = status, oc_services = services, oc_start = start, oc_end = stop, oc_applied = applied\<rparr>) (\<lambda>out.
      ebind (make_record \<lparr>ir_key = key, ir_fingerprint = fp, ir_outcome = out\<rparr>) (\<lambda>x.
      ebind (make_request W \<lparr>sq_id = sq_id r, sq_status = status, sq_revision = sq_revision r + 1, sq_services = services,
        sq_start = start, sq_end = stop, sq_created = sq_created r, sq_updated = applied, sq_records = sq_records r @ [x],
        sq_schema = SERVICE_REQUEST_SCHEMA_VERSION\<rparr>) (\<lambda>q. Inr (q, out)))))"

definition create ::
    "sr_platform \<Rightarrow> pyval \<Rightarrow> pyval \<Rightarrow> moment option \<Rightarrow> moment option \<Rightarrow> pyval \<Rightarrow> pyval \<Rightarrow> moment option \<Rightarrow>
     service_request option \<Rightarrow> sr_error + command_result" where
  "create W request_id services start stop expected key occurred existing =
     ebind (normalize_identifier request_id MAX_REQUEST_ID_LENGTH) (\<lambda>rid.
     ebind (normalize_services W services) (\<lambda>labels.
     ebind (normalize_schedule start stop) (\<lambda>(s, e).
     ebind (validate_revision 0 expected) (\<lambda>revision.
     ebind (normalize_identifier key MAX_IDEMPOTENCY_KEY_LENGTH) (\<lambda>k.
     ebind (normalize_utc occurred) (\<lambda>applied.
     ebind (serialize_datetime s) (\<lambda>st. ebind (serialize_datetime e) (\<lambda>et.
     ebind (command_fingerprint W OP_CREATE revision (PDict [(''request_id'', PStr rid),
         (''services'', PList (map PStr labels)), (''scheduled_start'', PStr st), (''scheduled_end'', PStr et)])) (\<lambda>fp.
     case existing of
       Some r \<Rightarrow> ebind (replay_command r k fp) (\<lambda>again. case again of Some x \<Rightarrow> Inr x | None \<Rightarrow> Inl Transition)
     | None \<Rightarrow>
       if revision \<noteq> 0 then Inl (Concurrency revision 0)
       else ebind (make_outcome W \<lparr>oc_request = rid, oc_operation = OP_CREATE, oc_revision = 1, oc_status = SR_OPEN,
           oc_services = labels, oc_start = s, oc_end = e, oc_applied = applied\<rparr>) (\<lambda>out.
         ebind (make_record \<lparr>ir_key = k, ir_fingerprint = fp, ir_outcome = out\<rparr>) (\<lambda>x.
         ebind (make_request W \<lparr>sq_id = rid, sq_status = SR_OPEN, sq_revision = 1, sq_services = labels, sq_start = s,
           sq_end = e, sq_created = applied, sq_updated = applied, sq_records = [x],
           sq_schema = SERVICE_REQUEST_SCHEMA_VERSION\<rparr>) (\<lambda>q. Inr (q, out)))))))))))))"

definition cancel :: "sr_platform \<Rightarrow> pyval \<Rightarrow> pyval \<Rightarrow> moment option \<Rightarrow> service_request \<Rightarrow> sr_error + command_result" where
  "cancel W expected key occurred r =
     ebind (validate_revision 0 expected) (\<lambda>revision.
     ebind (normalize_identifier key MAX_IDEMPOTENCY_KEY_LENGTH) (\<lambda>k.
     ebind (normalize_utc occurred) (\<lambda>applied.
     ebind (command_fingerprint W OP_CANCEL revision (PDict [])) (\<lambda>fp.
     ebind (replay_command r k fp) (\<lambda>again. case again of Some x \<Rightarrow> Inr x
     | None \<Rightarrow>
       ebind (require_revision r revision) (\<lambda>_.
       ebind (require_open r) (\<lambda>_.
         next_request W r OP_CANCEL k fp applied SR_CANCELLED (sq_services r) (sq_start r) (sq_end r))))))))"

definition reschedule ::
    "sr_platform \<Rightarrow> moment option \<Rightarrow> moment option \<Rightarrow> pyval \<Rightarrow> pyval \<Rightarrow> moment option \<Rightarrow> service_request \<Rightarrow>
     sr_error + command_result" where
  "reschedule W start stop expected key occurred r =
     ebind (normalize_schedule start stop) (\<lambda>(s, e).
     ebind (validate_revision 0 expected) (\<lambda>revision.
     ebind (normalize_identifier key MAX_IDEMPOTENCY_KEY_LENGTH) (\<lambda>k.
     ebind (normalize_utc occurred) (\<lambda>applied.
     ebind (serialize_datetime s) (\<lambda>st. ebind (serialize_datetime e) (\<lambda>et.
     ebind (command_fingerprint W OP_RESCHEDULE revision
       (PDict [(''scheduled_start'', PStr st), (''scheduled_end'', PStr et)])) (\<lambda>fp.
     ebind (replay_command r k fp) (\<lambda>again. case again of Some x \<Rightarrow> Inr x
     | None \<Rightarrow>
       ebind (require_revision r revision) (\<lambda>_.
       ebind (require_open r) (\<lambda>_.
         if s = sq_start r \<and> e = sq_end r then Inl Transition
         else next_request W r OP_RESCHEDULE k fp applied (sq_status r) (sq_services r) s e))))))))))"

definition add_service ::
    "sr_platform \<Rightarrow> pyval \<Rightarrow> pyval \<Rightarrow> pyval \<Rightarrow> moment option \<Rightarrow> service_request \<Rightarrow> sr_error + command_result" where
  "add_service W service expected key occurred r =
     ebind (normalize_service_label W service) (\<lambda>label.
     ebind (validate_revision 0 expected) (\<lambda>revision.
     ebind (normalize_identifier key MAX_IDEMPOTENCY_KEY_LENGTH) (\<lambda>k.
     ebind (normalize_utc occurred) (\<lambda>applied.
     ebind (command_fingerprint W OP_ADD_SERVICE revision (PDict [(''service'', PStr label)])) (\<lambda>fp.
     ebind (replay_command r k fp) (\<lambda>again. case again of Some x \<Rightarrow> Inr x
     | None \<Rightarrow>
       ebind (require_revision r revision) (\<lambda>_.
       ebind (require_open r) (\<lambda>_.
         if MAX_SERVICE_COUNT \<le> length (sq_services r) then Inl Validation
         else if casefold label \<in> casefold ` set (sq_services r) then Inl Transition
         else next_request W r OP_ADD_SERVICE k fp applied (sq_status r) (sq_services r @ [label]) (sq_start r)
           (sq_end r)))))))))"

section \<open>The dictionary form\<close>

definition outcome_to_dict :: "outcome \<Rightarrow> sr_error + pyval" where
  "outcome_to_dict o1 =
     ebind (serialize_datetime (oc_start o1)) (\<lambda>s.
     ebind (serialize_datetime (oc_end o1)) (\<lambda>e.
     ebind (serialize_datetime (oc_applied o1)) (\<lambda>a.
       Inr (PDict [(''request_id'', PStr (oc_request o1)), (''operation'', PStr (operation_value (oc_operation o1))),
         (''revision'', PInt (oc_revision o1)), (''status'', PStr (sr_status_value (oc_status o1))),
         (''services'', PList (map PStr (oc_services o1))), (''scheduled_start'', PStr s), (''scheduled_end'', PStr e),
         (''applied_at'', PStr a)]))))"

definition record_to_dict :: "idem_record \<Rightarrow> sr_error + pyval" where
  "record_to_dict r = ebind (outcome_to_dict (ir_outcome r)) (\<lambda>o1.
     Inr (PDict [(''idempotency_key'', PStr (ir_key r)), (''command_fingerprint'', PStr (ir_fingerprint r)),
       (''outcome'', o1)]))"

definition request_to_dict :: "service_request \<Rightarrow> sr_error + pyval" where
  "request_to_dict r =
     ebind (serialize_datetime (sq_start r)) (\<lambda>s.
     ebind (serialize_datetime (sq_end r)) (\<lambda>e.
     ebind (serialize_datetime (sq_created r)) (\<lambda>c.
     ebind (serialize_datetime (sq_updated r)) (\<lambda>u.
     ebind (collect (map record_to_dict (sort_key (oc_revision \<circ> ir_outcome) (sq_records r)))) (\<lambda>rs.
       Inr (PDict [(''schema_version'', PInt (sq_schema r)), (''request_id'', PStr (sq_id r)),
         (''status'', PStr (sr_status_value (sq_status r))), (''revision'', PInt (sq_revision r)),
         (''services'', PList (map PStr (sq_services r))), (''scheduled_start'', PStr s), (''scheduled_end'', PStr e),
         (''created_at'', PStr c), (''updated_at'', PStr u), (''idempotency_records'', PList rs)]))))))"

text \<open>The entries of a dictionary with exactly the given keys, looked up by key.\<close>

definition require_exact_keys :: "string list \<Rightarrow> pyval \<Rightarrow> sr_error + (string \<Rightarrow> pyval)" where
  "require_exact_keys keys v = (case v of
       PDict kvs \<Rightarrow> if set (map fst kvs) \<noteq> set keys then Inl Validation else Inr (\<lambda>k. the (map_of kvs k))
     | _ \<Rightarrow> Inl Validation)"

definition require_text :: "pyval \<Rightarrow> sr_error + string" where
  "require_text v = (case v of PStr s \<Rightarrow> Inr s | _ \<Rightarrow> Inl Validation)"

definition require_integer :: "pyval \<Rightarrow> sr_error + int" where
  "require_integer v = (case v of PInt i \<Rightarrow> Inr i | _ \<Rightarrow> Inl Validation)"

definition parse_operation :: "pyval \<Rightarrow> sr_error + sr_operation" where
  "parse_operation v = (case enum_of operation_value [OP_CREATE, OP_CANCEL, OP_RESCHEDULE, OP_ADD_SERVICE] v of
     Inl _ \<Rightarrow> Inl Validation | Inr x \<Rightarrow> Inr x)"

definition parse_status :: "pyval \<Rightarrow> sr_error + sr_status" where
  "parse_status v = (case enum_of sr_status_value [SR_OPEN, SR_CANCELLED] v of
     Inl _ \<Rightarrow> Inl Validation | Inr x \<Rightarrow> Inr x)"

definition restore_services :: "sr_platform \<Rightarrow> pyval \<Rightarrow> sr_error + string list" where
  "restore_services W v = (case v of PList vs \<Rightarrow> normalize_services W v | _ \<Rightarrow> Inl Validation)"

definition OUTCOME_KEYS :: "string list" where
  "OUTCOME_KEYS = [''request_id'', ''operation'', ''revision'', ''status'', ''services'', ''scheduled_start'',
     ''scheduled_end'', ''applied_at'']"

definition outcome_from_dict :: "sr_platform \<Rightarrow> pyval \<Rightarrow> sr_error + outcome" where
  "outcome_from_dict W v =
     ebind (require_exact_keys OUTCOME_KEYS v) (\<lambda>d.
     ebind (require_text (d ''request_id'')) (\<lambda>rid.
     ebind (parse_operation (d ''operation'')) (\<lambda>operation.
     ebind (require_integer (d ''revision'')) (\<lambda>revision.
     ebind (parse_status (d ''status'')) (\<lambda>status.
     ebind (restore_services W (d ''services'')) (\<lambda>services.
     ebind (parse_datetime W (d ''scheduled_start'')) (\<lambda>s.
     ebind (parse_datetime W (d ''scheduled_end'')) (\<lambda>e.
     ebind (parse_datetime W (d ''applied_at'')) (\<lambda>a.
       make_outcome W \<lparr>oc_request = rid, oc_operation = operation, oc_revision = revision, oc_status = status,
         oc_services = services, oc_start = s, oc_end = e, oc_applied = a\<rparr>)))))))))"

definition record_from_dict :: "sr_platform \<Rightarrow> pyval \<Rightarrow> sr_error + idem_record" where
  "record_from_dict W v =
     ebind (require_exact_keys [''idempotency_key'', ''command_fingerprint'', ''outcome''] v) (\<lambda>d.
     (case d ''outcome'' of
        PDict _ \<Rightarrow>
          ebind (require_text (d ''idempotency_key'')) (\<lambda>key.
          ebind (require_text (d ''command_fingerprint'')) (\<lambda>fp.
          ebind (outcome_from_dict W (d ''outcome'')) (\<lambda>out.
            make_record \<lparr>ir_key = key, ir_fingerprint = fp, ir_outcome = out\<rparr>)))
      | _ \<Rightarrow> Inl Validation))"

definition REQUEST_KEYS :: "string list" where
  "REQUEST_KEYS = [''schema_version'', ''request_id'', ''status'', ''revision'', ''services'', ''scheduled_start'',
     ''scheduled_end'', ''created_at'', ''updated_at'', ''idempotency_records'']"

fun dict_value :: "pyval \<Rightarrow> bool" where
  "dict_value (PDict kvs) = True"
| "dict_value v = False"

definition request_from_dict :: "sr_platform \<Rightarrow> pyval \<Rightarrow> sr_error + service_request" where
  "request_from_dict W v =
     ebind (require_exact_keys REQUEST_KEYS v) (\<lambda>d.
     (case d ''idempotency_records'' of
        PList rs \<Rightarrow>
          if \<not> list_all dict_value rs then Inl Validation
          else ebind (require_integer (d ''schema_version'')) (\<lambda>schema.
          ebind (require_text (d ''request_id'')) (\<lambda>rid.
          ebind (parse_status (d ''status'')) (\<lambda>status.
          ebind (require_integer (d ''revision'')) (\<lambda>revision.
          ebind (restore_services W (d ''services'')) (\<lambda>services.
          ebind (parse_datetime W (d ''scheduled_start'')) (\<lambda>s.
          ebind (parse_datetime W (d ''scheduled_end'')) (\<lambda>e.
          ebind (parse_datetime W (d ''created_at'')) (\<lambda>c.
          ebind (parse_datetime W (d ''updated_at'')) (\<lambda>u.
          ebind (collect (map (record_from_dict W) rs)) (\<lambda>records.
            make_request W \<lparr>sq_id = rid, sq_status = status, sq_revision = revision, sq_services = services,
              sq_start = s, sq_end = e, sq_created = c, sq_updated = u, sq_records = records, sq_schema = schema\<rparr>))))))))))
      | _ \<Rightarrow> Inl Validation))"

section \<open>Canonical fields\<close>

definition canonical :: "moment \<Rightarrow> bool" where
  "canonical t = (mo_offset t = Some 0 \<and> 0 \<le> mo_at t \<and> mo_at t < END_OF_TIME)"

lemma normalize_utc_canonical: "normalize_utc v = Inr t \<Longrightarrow> canonical t"
  by (auto simp: normalize_utc_def canonical_def split: option.splits if_splits)

lemma canonical_fixed: "canonical t \<Longrightarrow> normalize_utc (Some t) = Inr t"
  by (cases t) (simp add: normalize_utc_def canonical_def)

lemma validate_canonical_utc [simp]: "validate_canonical_utc t = (if canonical t then Inr () else Inl Validation)"
  by (auto simp: validate_canonical_utc_def canonical_def normalize_utc_def split: option.splits)

lemma serialize_canonical [simp]: "canonical t \<Longrightarrow> serialize_datetime t = Inr (stamp (mo_at t))"
  by (simp add: serialize_datetime_def)

lemma normalize_schedule_canonical:
  "normalize_schedule a b = Inr (s, e) \<Longrightarrow> canonical s \<and> canonical e \<and> mo_at s < mo_at e"
  by (auto simp: normalize_schedule_def ebind_eq_Inr normalize_utc_canonical split: if_splits)

lemma validate_canonical_schedule [simp]:
  "validate_canonical_schedule s e = (if canonical s \<and> canonical e \<and> mo_at s < mo_at e then Inr () else Inl Validation)"
  by (auto simp: validate_canonical_schedule_def)

text \<open>Splitting and joining again: the words of a text have no white space and are not empty.\<close>

definition word :: "string \<Rightarrow> bool" where
  "word w = (w \<noteq> [] \<and> \<not> list_ex py_space w)"

lemma words_are_words: "\<not> list_ex py_space w \<Longrightarrow> list_all word (words_after w s)"
  by (induction s arbitrary: w) (auto simp: word_def)

lemma words_after_word: "\<not> list_ex py_space v \<Longrightarrow> words_after w (v @ s) = words_after (w @ v) s"
  by (induction v arbitrary: w) auto

lemma words_join:
  assumes "list_all word ws"
  shows "words_after [] (join '' '' ws) = ws"
proof -
  have sp: "py_space (CHR '' '')" by (simp add: py_space_def)
  show ?thesis
    using assms
  proof (induction "'' ''" ws rule: join.induct)
    case (2 w)
    then show ?case using words_after_word [of w "[]" "[]"] by (simp add: word_def)
  next
    case (3 w x ws)
    then show ?case using words_after_word [of w "[]" "'' '' @ join '' '' (x # ws)"] sp by (simp add: word_def)
  qed simp
qed

lemma single_spaced_idem: "single_spaced (single_spaced s) = single_spaced s"
  using words_join [of "words_after [] s"] words_are_words [of "[]" s]
  by (simp add: single_spaced_def)

lemma set_join: "set (join sep ws) \<subseteq> set sep \<union> \<Union> (set ` set ws)"
  by (induction sep ws rule: join.induct) auto

lemma set_words: "\<Union> (set ` set (words_after w s)) \<subseteq> set w \<union> set s"
  by (induction s arbitrary: w) (auto split: if_splits, fastforce+)

lemma single_spaced_control: "\<not> list_ex control s \<Longrightarrow> \<not> list_ex control (single_spaced s)"
proof -
  assume s: "\<not> list_ex control s"
  have "set (single_spaced s) \<subseteq> {CHR '' ''} \<union> set s"
    using set_join [of "'' ''" "words_after [] s"] set_words [of "[]" s] by (auto simp: single_spaced_def)
  moreover have "\<not> control (CHR '' '')" by (simp add: control_def)
  ultimately show ?thesis using s by (auto simp: list_ex_iff)
qed

text \<open>NFKC normalisation leaves a normalised text alone, also after its white space has been collapsed.\<close>

definition stable_nfkc :: "sr_platform \<Rightarrow> bool" where
  "stable_nfkc W = (\<forall>s. nfkc W (single_spaced (nfkc W s)) = single_spaced (nfkc W s))"

definition label_ok :: "sr_platform \<Rightarrow> string \<Rightarrow> bool" where
  "label_ok W l = (normalize_service_label W (PStr l) = Inr l)"

lemma normalized_label_ok:
  assumes "stable_nfkc W" and "normalize_service_label W v = Inr l"
  shows "label_ok W l"
proof -
  from assms(2) obtain s where v: "v = PStr s" and l: "l = single_spaced (nfkc W s)" "l \<noteq> []"
    "length l \<le> MAX_SERVICE_LABEL_LENGTH" and c: "\<not> list_ex control (nfkc W s)"
    by (auto simp: normalize_service_label_def Let_def split: pyval.splits if_splits)
  have "nfkc W l = l" using assms(1) by (simp add: stable_nfkc_def l(1))
  moreover have "\<not> list_ex control l" using single_spaced_control [OF c] by (simp add: l(1))
  moreover have "single_spaced l = l" by (simp add: l(1) single_spaced_idem)
  ultimately show ?thesis using l(2,3) by (simp add: label_ok_def normalize_service_label_def)
qed

definition services_ok :: "sr_platform \<Rightarrow> string list \<Rightarrow> bool" where
  "services_ok W ls = (ls \<noteq> [] \<and> length ls \<le> MAX_SERVICE_COUNT \<and> list_all (label_ok W) ls \<and> distinct (map casefold ls))"

lemma collect_fixed: "list_all (\<lambda>x. f x = Inr x) xs \<Longrightarrow> collect (map f xs) = Inr xs"
  by (induction xs) simp_all

lemma collect_Inr_iff: "collect rs = Inr xs \<longleftrightarrow> rs = map Inr xs"
  by (induction rs arbitrary: xs) (auto simp: ebind_eq_Inr)

lemma services_fixed: "services_ok W ls \<Longrightarrow> normalize_services W (PList (map PStr ls)) = Inr ls"
  using collect_fixed [of "normalize_service_label W \<circ> PStr" ls]
  by (auto simp: normalize_services_def services_ok_def label_ok_def list_all_iff)

lemma normalized_services_ok:
  assumes "stable_nfkc W" and "normalize_services W v = Inr ls"
  shows "services_ok W ls"
proof -
  from assms(2) obtain vs where v: "vs \<noteq> []" "length vs \<le> MAX_SERVICE_COUNT" "distinct (map casefold ls)"
    and c: "collect (map (normalize_service_label W) vs) = Inr ls"
    by (auto simp: normalize_services_def ebind_eq_Inr split: pyval.splits if_splits)
  from c have m: "map (normalize_service_label W) vs = map Inr ls" by (simp add: collect_Inr_iff)
  then have n: "length vs = length ls" by (metis length_map)
  have "label_ok W l" if "l \<in> set ls" for l
  proof -
    from that have "Inr l \<in> set (map (normalize_service_label W) vs)" by (simp add: m)
    then show ?thesis using normalized_label_ok [OF assms(1)] by auto
  qed
  with v n show ?thesis by (auto simp: services_ok_def list_all_iff)
qed

lemma validate_services_ok [simp]: "services_ok W ls \<Longrightarrow> validate_canonical_services W ls = Inr ()"
  by (simp add: validate_canonical_services_def services_fixed)

lemma services_add:
  "services_ok W ls \<Longrightarrow> label_ok W l \<Longrightarrow> length ls < MAX_SERVICE_COUNT \<Longrightarrow> casefold l \<notin> casefold ` set ls \<Longrightarrow>
   services_ok W (ls @ [l])"
  by (simp add: services_ok_def)

definition identifier_ok :: "nat \<Rightarrow> string \<Rightarrow> bool" where
  "identifier_ok n s = (s \<noteq> [] \<and> s = py_strip s \<and> length s \<le> n \<and> \<not> list_ex control s)"

lemma validate_identifier [simp]: "validate_identifier s n = (if identifier_ok n s then Inr () else Inl Validation)"
  by (auto simp: validate_identifier_def identifier_ok_def)

lemma normalized_identifier_ok: "normalize_identifier v n = Inr s \<Longrightarrow> identifier_ok n s"
  by (auto simp: normalize_identifier_def split: pyval.splits if_splits)

section \<open>The history of a request\<close>

fun trail :: "outcome option \<Rightarrow> outcome list \<Rightarrow> bool" where
  "trail p [] = True"
| "trail p (c # cs) = (history_transition p c = Inr () \<and> trail (Some c) cs)"

definition final :: "outcome option \<Rightarrow> outcome list \<Rightarrow> outcome option" where
  "final p cs = (if cs = [] then p else Some (last cs))"

lemma trail_append: "trail p (cs @ ds) \<longleftrightarrow> trail p cs \<and> trail (final p cs) ds"
  by (induction cs arbitrary: p) (auto simp: final_def)

definition belongs :: "service_request \<Rightarrow> outcome \<Rightarrow> bool" where
  "belongs r c = (oc_request c = sq_id r \<and> mo_at (sq_created r) \<le> mo_at (oc_applied c) \<and> mo_at (oc_applied c) \<le> mo_at (sq_updated r))"

lemma history_from_ok: "list_all (belongs r) cs \<Longrightarrow> trail p cs \<Longrightarrow> history_from r p cs = Inr (final p cs)"
  by (induction cs arbitrary: p) (auto simp: belongs_def final_def)

definition outcome_ok :: "sr_platform \<Rightarrow> outcome \<Rightarrow> bool" where
  "outcome_ok W c = (identifier_ok MAX_REQUEST_ID_LENGTH (oc_request c) \<and> 1 \<le> oc_revision c \<and> services_ok W (oc_services c) \<and>
     canonical (oc_start c) \<and> canonical (oc_end c) \<and> mo_at (oc_start c) < mo_at (oc_end c) \<and> canonical (oc_applied c))"

lemma make_outcome_ok [simp]: "outcome_ok W c \<Longrightarrow> make_outcome W c = Inr c"
  by (simp add: outcome_ok_def make_outcome_def validate_revision_def)

definition record_ok :: "sr_platform \<Rightarrow> idem_record \<Rightarrow> bool" where
  "record_ok W x = (identifier_ok MAX_IDEMPOTENCY_KEY_LENGTH (ir_key x) \<and> fingerprint (ir_fingerprint x) \<and> outcome_ok W (ir_outcome x))"

lemma make_record_ok [simp]: "record_ok W x \<Longrightarrow> make_record x = Inr x"
  by (simp add: record_ok_def make_record_def)

definition outcomes :: "service_request \<Rightarrow> outcome list" where
  "outcomes r = map ir_outcome (sq_records r)"

definition request_ok :: "sr_platform \<Rightarrow> service_request \<Rightarrow> bool" where
  "request_ok W r = (sq_schema r = SERVICE_REQUEST_SCHEMA_VERSION \<and> identifier_ok MAX_REQUEST_ID_LENGTH (sq_id r) \<and>
     1 \<le> sq_revision r \<and> services_ok W (sq_services r) \<and> canonical (sq_start r) \<and> canonical (sq_end r) \<and>
     mo_at (sq_start r) < mo_at (sq_end r) \<and> canonical (sq_created r) \<and> canonical (sq_updated r) \<and>
     mo_at (sq_created r) \<le> mo_at (sq_updated r) \<and>
     list_all (record_ok W) (sq_records r) \<and> distinct (map ir_key (sq_records r)) \<and>
     map oc_revision (outcomes r) = [1..sq_revision r] \<and> oc_operation (hd (outcomes r)) = OP_CREATE \<and>
     oc_applied (hd (outcomes r)) = sq_created r \<and> list_all (belongs r) (outcomes r) \<and> trail None (outcomes r) \<and>
     oc_applied (last (outcomes r)) = sq_updated r \<and> oc_status (last (outcomes r)) = sq_status r \<and>
     oc_services (last (outcomes r)) = sq_services r \<and> oc_start (last (outcomes r)) = sq_start r \<and>
     oc_end (last (outcomes r)) = sq_end r)"

lemma records_sorted: "request_ok W r \<Longrightarrow> sort_key (oc_revision \<circ> ir_outcome) (sq_records r) = sq_records r"
  by (rule sort_key_id_if_sorted) (simp add: request_ok_def outcomes_def comp_def)

lemma request_ok_nonempty: "request_ok W r \<Longrightarrow> outcomes r \<noteq> [] \<and> int (length (sq_records r)) = sq_revision r"
proof -
  assume r: "request_ok W r"
  then have "length (map oc_revision (outcomes r)) = length [1..sq_revision r]" and "1 \<le> sq_revision r"
    by (auto simp: request_ok_def)
  then show ?thesis by (auto simp: outcomes_def)
qed

lemma make_request_ok [simp]: "request_ok W r \<Longrightarrow> make_request W r = Inr r"
proof -
  assume r: "request_ok W r"
  have "validate_history r = Inr ()"
    using r request_ok_nonempty [OF r] history_from_ok [of r "outcomes r" None] records_sorted [OF r]
    by (simp add: validate_history_def request_ok_def final_def Let_def) (simp add: outcomes_def)
  then show ?thesis using r by (simp add: make_request_def request_ok_def validate_revision_def)
qed

end
