(* ===== verification/Service_Commands.thy ===== *)
theory Service_Commands
  imports Service_Request
begin

text \<open>
  The commands on a service request, app/services/service_request.py, against the plain changes of a booking they stand
  for (\<open>book\<close>): what a command does on each of its branches, the requests that commands lead to and their
  validity, repeated commands, and the dictionary form read back. The example at the end is what the witnesses run on.
\<close>

section \<open>Commands as changes of a booking\<close>

text \<open>
  The abstract specification: a booking is what the customer sees, and a command is a change of it. It knows no
  revisions, keys, records or validators.
\<close>

record booking =
  bk_status :: sr_status
  bk_services :: "string list"
  bk_start :: moment
  bk_end :: moment

definition booking_of :: "service_request \<Rightarrow> booking" where
  "booking_of r = \<lparr>bk_status = sq_status r, bk_services = sq_services r, bk_start = sq_start r, bk_end = sq_end r\<rparr>"

datatype change = To_Cancel | To_Schedule moment moment | To_Service string

fun operation_of :: "change \<Rightarrow> sr_operation" where
  "operation_of To_Cancel = OP_CANCEL"
| "operation_of (To_Schedule s e) = OP_RESCHEDULE"
| "operation_of (To_Service l) = OP_ADD_SERVICE"

fun book :: "change \<Rightarrow> booking \<Rightarrow> sr_error + booking" where
  "book To_Cancel b = (if bk_status b = SR_OPEN then Inr (b\<lparr>bk_status := SR_CANCELLED\<rparr>) else Inl Transition)"
| "book (To_Schedule s e) b =
     (if bk_status b = SR_OPEN \<and> (s, e) \<noteq> (bk_start b, bk_end b) then Inr (b\<lparr>bk_start := s, bk_end := e\<rparr>) else Inl Transition)"
| "book (To_Service l) b =
     (if bk_status b \<noteq> SR_OPEN then Inl Transition else if MAX_SERVICE_COUNT \<le> length (bk_services b) then Inl Validation
      else if casefold l \<in> casefold ` set (bk_services b) then Inl Transition
      else Inr (b\<lparr>bk_services := bk_services b @ [l]\<rparr>))"

text \<open>The three commands, and the change each stands for.\<close>

datatype command = Cancel | Reschedule "moment option" "moment option" | Add_Service pyval

fun run_command ::
    "sr_platform \<Rightarrow> command \<Rightarrow> pyval \<Rightarrow> pyval \<Rightarrow> moment option \<Rightarrow> service_request \<Rightarrow> sr_error + command_result" where
  "run_command W Cancel expected key occurred r = cancel W expected key occurred r"
| "run_command W (Reschedule start stop) expected key occurred r = reschedule W start stop expected key occurred r"
| "run_command W (Add_Service v) expected key occurred r = add_service W v expected key occurred r"

fun change_of :: "sr_platform \<Rightarrow> command \<Rightarrow> sr_error + change" where
  "change_of W Cancel = Inr To_Cancel"
| "change_of W (Reschedule start stop) = ebind (normalize_schedule start stop) (\<lambda>(s, e). Inr (To_Schedule s e))"
| "change_of W (Add_Service v) = ebind (normalize_service_label W v) (\<lambda>l. Inr (To_Service l))"

fun payload_of :: "change \<Rightarrow> pyval" where
  "payload_of To_Cancel = PDict []"
| "payload_of (To_Schedule s e) = PDict [(''scheduled_start'', PStr (stamp (mo_at s))), (''scheduled_end'', PStr (stamp (mo_at e)))]"
| "payload_of (To_Service l) = PDict [(''service'', PStr l)]"

fun attempt :: "sr_platform \<Rightarrow> service_request \<Rightarrow> change \<Rightarrow> string \<Rightarrow> string \<Rightarrow> moment \<Rightarrow> sr_error + command_result" where
  "attempt W r To_Cancel k fp t = next_request W r OP_CANCEL k fp t SR_CANCELLED (sq_services r) (sq_start r) (sq_end r)"
| "attempt W r (To_Schedule s e) k fp t =
     (if s = sq_start r \<and> e = sq_end r then Inl Transition
      else next_request W r OP_RESCHEDULE k fp t (sq_status r) (sq_services r) s e)"
| "attempt W r (To_Service l) k fp t =
     (if MAX_SERVICE_COUNT \<le> length (sq_services r) then Inl Validation
      else if casefold l \<in> casefold ` set (sq_services r) then Inl Transition
      else next_request W r OP_ADD_SERVICE k fp t (sq_status r) (sq_services r @ [l]) (sq_start r) (sq_end r))"

lemma run_command_form:
  "run_command W c expected key occurred r =
     ebind (change_of W c) (\<lambda>ch. ebind (validate_revision 0 expected) (\<lambda>n.
     ebind (normalize_identifier key MAX_IDEMPOTENCY_KEY_LENGTH) (\<lambda>k. ebind (normalize_utc occurred) (\<lambda>t.
     ebind (command_fingerprint W (operation_of ch) n (payload_of ch)) (\<lambda>fp.
     ebind (replay_command r k fp) (\<lambda>again. case again of Some x \<Rightarrow> Inr x
       | None \<Rightarrow> ebind (require_revision r n) (\<lambda>_. ebind (require_open r) (\<lambda>_. attempt W r ch k fp t))))))))"
proof (cases c)
  case Cancel
  then show ?thesis by (simp add: cancel_def)
next
  case (Reschedule a b)
  then show ?thesis
  proof (cases "normalize_schedule a b")
    case (Inr se)
    then obtain s e where "se = (s, e)" "canonical s" "canonical e"
      using normalize_schedule_canonical [of a b] by (cases se) simp
    with Inr Reschedule show ?thesis by (simp add: reschedule_def)
  qed (simp add: reschedule_def)
next
  case (Add_Service v)
  then show ?thesis by (cases "normalize_service_label W v") (simp_all add: add_service_def)
qed

text \<open>A request with one more command.\<close>

definition extended ::
    "service_request \<Rightarrow> sr_operation \<Rightarrow> string \<Rightarrow> string \<Rightarrow> moment \<Rightarrow> booking \<Rightarrow> command_result" where
  "extended r operation k fp t b =
     (let out = \<lparr>oc_request = sq_id r, oc_operation = operation, oc_revision = sq_revision r + 1, oc_status = bk_status b,
            oc_services = bk_services b, oc_start = bk_start b, oc_end = bk_end b, oc_applied = t\<rparr> in
      (r\<lparr>sq_status := bk_status b, sq_revision := sq_revision r + 1, sq_services := bk_services b, sq_start := bk_start b,
         sq_end := bk_end b, sq_updated := t, sq_records := sq_records r @ [\<lparr>ir_key = k, ir_fingerprint = fp, ir_outcome = out\<rparr>]\<rparr>,
       out))"

definition change_ok :: "sr_platform \<Rightarrow> change \<Rightarrow> bool" where
  "change_ok W ch = (case ch of To_Cancel \<Rightarrow> True | To_Schedule s e \<Rightarrow> canonical s \<and> canonical e \<and> mo_at s < mo_at e
     | To_Service l \<Rightarrow> label_ok W l)"

lemma change_of_ok: "stable_nfkc W \<Longrightarrow> change_of W c = Inr ch \<Longrightarrow> change_ok W ch"
  by (cases c) (auto simp: change_ok_def ebind_eq_Inr normalized_label_ok dest: normalize_schedule_canonical)

lemma booked:
  assumes r: "request_ok W r" and ch: "change_ok W ch" and b: "book ch (booking_of r) = Inr b"
    and t: "canonical t" "mo_at (sq_updated r) \<le> mo_at t"
  shows "services_ok W (bk_services b)" "canonical (bk_start b)" "canonical (bk_end b)" "mo_at (bk_start b) < mo_at (bk_end b)"
    "history_transition (Some (last (outcomes r))) (snd (extended r (operation_of ch) k fp t b)) = Inr ()"
  using assms
  by (cases ch; auto simp: booking_of_def request_ok_def change_ok_def extended_def Let_def history_transition_def
      services_add split: if_splits)+

lemma extended_ok:
  assumes r: "request_ok W r" and ch: "change_ok W ch" and b: "book ch (booking_of r) = Inr b"
    and t: "canonical t" "mo_at (sq_updated r) \<le> mo_at t"
    and k: "identifier_ok MAX_IDEMPOTENCY_KEY_LENGTH k" "k \<notin> ir_key ` set (sq_records r)" "fingerprint fp"
  shows "request_ok W (fst (extended r (operation_of ch) k fp t b))" "outcome_ok W (snd (extended r (operation_of ch) k fp t b))"
proof -
  let ?q = "fst (extended r (operation_of ch) k fp t b)" and ?o = "snd (extended r (operation_of ch) k fp t b)"
  note bk = booked [OF r ch b t]
  have o: "outcome_ok W ?o" using r bk(1-4) t by (simp add: outcome_ok_def extended_def Let_def request_ok_def)
  have q: "outcomes ?q = outcomes r @ [?o]" by (simp add: outcomes_def extended_def Let_def)
  have n: "outcomes r \<noteq> []" using request_ok_nonempty [OF r] by simp
  have "list_all (belongs ?q) (outcomes r)"
    using r t by (auto simp: request_ok_def list_all_iff belongs_def extended_def Let_def)
  moreover have "belongs ?q ?o" using r t by (auto simp: belongs_def extended_def Let_def request_ok_def)
  moreover have "trail None (outcomes ?q)" using r n bk(5) by (simp add: q trail_append final_def request_ok_def)
  moreover have "[1..sq_revision r + 1] = [1..sq_revision r] @ [sq_revision r + 1]"
    using r upto_rec2 [of 1 "sq_revision r + 1"] by (simp add: request_ok_def)
  ultimately show "request_ok W ?q"
    using r bk(1-4) t k o n unfolding request_ok_def q
    by (simp add: extended_def Let_def record_ok_def)
  show "outcome_ok W ?o" by (rule o)
qed

lemma next_extended:
  assumes ext: "request_ok W (fst (extended r op k fp t b))" "outcome_ok W (snd (extended r op k fp t b))"
    and k: "identifier_ok MAX_IDEMPOTENCY_KEY_LENGTH k" "fingerprint fp" and t: "mo_at (sq_updated r) \<le> mo_at t"
    and schema: "sq_schema r = SERVICE_REQUEST_SCHEMA_VERSION"
  shows "next_request W r op k fp t (bk_status b) (bk_services b) (bk_start b) (bk_end b) = Inr (extended r op k fp t b)"
proof -
  let ?o = "snd (extended r op k fp t b)" and ?q = "fst (extended r op k fp t b)"
  have o: "?o = \<lparr>oc_request = sq_id r, oc_operation = op, oc_revision = sq_revision r + 1, oc_status = bk_status b,
      oc_services = bk_services b, oc_start = bk_start b, oc_end = bk_end b, oc_applied = t\<rparr>"
    by (simp add: extended_def Let_def)
  have q: "?q = \<lparr>sq_id = sq_id r, sq_status = bk_status b, sq_revision = sq_revision r + 1, sq_services = bk_services b,
      sq_start = bk_start b, sq_end = bk_end b, sq_created = sq_created r, sq_updated = t,
      sq_records = sq_records r @ [\<lparr>ir_key = k, ir_fingerprint = fp, ir_outcome = ?o\<rparr>],
      sq_schema = SERVICE_REQUEST_SCHEMA_VERSION\<rparr>"
    using schema by (cases r) (simp add: extended_def Let_def)
  have "make_record \<lparr>ir_key = k, ir_fingerprint = fp, ir_outcome = ?o\<rparr> = Inr \<lparr>ir_key = k, ir_fingerprint = fp, ir_outcome = ?o\<rparr>"
    by (rule make_record_ok [of W]) (simp add: record_ok_def k ext(2))
  moreover have "make_outcome W ?o = Inr ?o" by (rule make_outcome_ok) (rule ext(2))
  moreover have "make_request W ?q = Inr ?q" by (rule make_request_ok) (rule ext(1))
  ultimately show ?thesis using t unfolding next_request_def o [symmetric] by (simp add: q [symmetric])
qed

lemma attempt_booked:
  assumes r: "request_ok W r" and ch: "change_ok W ch"
    and t: "canonical t" and k: "identifier_ok MAX_IDEMPOTENCY_KEY_LENGTH k" "k \<notin> ir_key ` set (sq_records r)" "fingerprint fp"
  shows "ebind (require_open r) (\<lambda>_. attempt W r ch k fp t) = ebind (book ch (booking_of r)) (\<lambda>b.
     if mo_at t < mo_at (sq_updated r) then Inl Validation else Inr (extended r (operation_of ch) k fp t b))"
proof (cases "book ch (booking_of r)")
  case (Inl e)
  then show ?thesis by (cases ch) (auto simp: booking_of_def require_open_def split: if_splits)
next
  case b: (Inr b)
  have open_r: "require_open r = Inr ()"
    using b by (cases ch) (auto simp: booking_of_def require_open_def split: if_splits)
  have a: "attempt W r ch k fp t = next_request W r (operation_of ch) k fp t (bk_status b) (bk_services b) (bk_start b) (bk_end b)"
    using b by (cases ch) (auto simp: booking_of_def split: if_splits)
  show ?thesis
  proof (cases "mo_at t < mo_at (sq_updated r)")
    case True
    then show ?thesis using b open_r by (simp add: a next_request_def)
  next
    case False
    with extended_ok [OF r ch b t _ k] next_extended [of W r "operation_of ch" k fp t b] k r
    show ?thesis using b open_r by (simp add: a request_ok_def)
  qed
qed

definition hex_sha :: "sr_platform \<Rightarrow> bool" where
  "hex_sha W = (\<forall>s. fingerprint (sha256 (base W) s))"

lemma fingerprint_ok: "hex_sha W \<Longrightarrow> command_fingerprint W op n p = Inr fp \<Longrightarrow> fingerprint fp"
  by (auto simp: command_fingerprint_def hex_sha_def split: sum.splits)

lemma find_key:
  "List.find (\<lambda>x. ir_key x = k) rs = Some y \<Longrightarrow> y \<in> set rs \<and> ir_key y = k"
  "List.find (\<lambda>x. ir_key x = k) rs = None \<longleftrightarrow> k \<notin> ir_key ` set rs"
  by (induction rs) (auto split: if_splits)

lemma replay_fresh: "k \<notin> ir_key ` set (sq_records r) \<Longrightarrow> replay_command r k fp = Inr None"
  using find_key(2) [of k "sq_records r"] by (simp add: replay_command_def)

lemma replayD:
  "replay_command r k fp = Inr None \<Longrightarrow> k \<notin> ir_key ` set (sq_records r)"
  "replay_command r k fp = Inr (Some (q, out)) \<Longrightarrow> q = r \<and> (\<exists>x \<in> set (sq_records r). ir_key x = k \<and> ir_fingerprint x = fp \<and> out = ir_outcome x)"
  using find_key [of k "sq_records r"] by (auto simp: replay_command_def split: option.splits if_splits)

text \<open>What a command returns on a valid request: a stored outcome, or the request with one more command.\<close>

lemma run_command_cases:
  assumes W: "stable_nfkc W" "hex_sha W" and r: "request_ok W r"
    and run: "run_command W c expected key occurred r = Inr (q, out)"
  obtains (replayed) x where "q = r" "x \<in> set (sq_records r)" "out = ir_outcome x"
  | (applied) ch k fp t b where "change_of W c = Inr ch" "book ch (booking_of r) = Inr b"
      "(q, out) = extended r (operation_of ch) k fp t b" "request_ok W q" "outcome_ok W out"
      "k \<notin> ir_key ` set (sq_records r)" "normalize_identifier key MAX_IDEMPOTENCY_KEY_LENGTH = Inr k"
proof -
  from run obtain ch n k t fp again where c: "change_of W c = Inr ch" and k: "normalize_identifier key MAX_IDEMPOTENCY_KEY_LENGTH = Inr k"
    and t: "normalize_utc occurred = Inr t" and fp: "command_fingerprint W (operation_of ch) n (payload_of ch) = Inr fp"
    and again: "replay_command r k fp = Inr again"
    and rest: "(case again of Some x \<Rightarrow> Inr x
       | None \<Rightarrow> ebind (require_revision r n) (\<lambda>_. ebind (require_open r) (\<lambda>_. attempt W r ch k fp t))) = Inr (q, out)"
    unfolding run_command_form ebind_eq_Inr by blast
  show ?thesis
  proof (cases again)
    case (Some x)
    with rest have "replay_command r k fp = Inr (Some (q, out))" using again by simp
    from replayD(2) [OF this] show ?thesis using that(1) by blast
  next
    case None
    with again have fresh: "k \<notin> ir_key ` set (sq_records r)" using replayD(1) by blast
    note ok = change_of_ok [OF W(1) c] normalize_utc_canonical [OF t] normalized_identifier_ok [OF k] fresh fingerprint_ok [OF W(2) fp]
    from rest None obtain b where b: "book ch (booking_of r) = Inr b" "\<not> mo_at t < mo_at (sq_updated r)"
      "extended r (operation_of ch) k fp t b = (q, out)"
      using attempt_booked [OF r ok] by (auto simp: ebind_eq_Inr split: if_splits)
    from extended_ok [OF r ok(1) b(1) ok(2) _ ok(3-5)] b(2,3) have "request_ok W q" "outcome_ok W out" by auto
    moreover note fresh k
    ultimately show ?thesis by (rule that(2) [OF c b(1) b(3) [symmetric]])
  qed
qed

section \<open>The requests that commands lead to\<close>

inductive reached :: "sr_platform \<Rightarrow> service_request \<Rightarrow> bool" for W where
  created: "create W rid services start stop expected key occurred None = Inr (r, out) \<Longrightarrow> reached W r"
| commanded: "reached W r \<Longrightarrow> run_command W c expected key occurred r = Inr (q, out) \<Longrightarrow> reached W q"

lemma created_ok:
  assumes W: "stable_nfkc W" "hex_sha W" and c: "create W rid services start stop expected key occurred None = Inr (r, out)"
  shows "request_ok W r"
proof -
  from c obtain i ls s e k t st et fp where ids: "normalize_identifier rid MAX_REQUEST_ID_LENGTH = Inr i"
      "normalize_services W services = Inr ls" "normalize_schedule start stop = Inr (s, e)"
      "normalize_identifier key MAX_IDEMPOTENCY_KEY_LENGTH = Inr k" "normalize_utc occurred = Inr t"
    and fp: "command_fingerprint W OP_CREATE 0 (PDict [(''request_id'', PStr i),
         (''services'', PList (map PStr ls)), (''scheduled_start'', PStr st), (''scheduled_end'', PStr et)]) = Inr fp"
    and r: "r = \<lparr>sq_id = i, sq_status = SR_OPEN, sq_revision = 1, sq_services = ls, sq_start = s,
           sq_end = e, sq_created = t, sq_updated = t, sq_records = [\<lparr>ir_key = k, ir_fingerprint = fp, ir_outcome =
           \<lparr>oc_request = i, oc_operation = OP_CREATE, oc_revision = 1, oc_status = SR_OPEN,
           oc_services = ls, oc_start = s, oc_end = e, oc_applied = t\<rparr>\<rparr>], sq_schema = SERVICE_REQUEST_SCHEMA_VERSION\<rparr>"
    by (auto simp: create_def ebind_eq_Inr make_outcome_def make_record_def make_request_def split: if_splits)
  note ok = normalized_identifier_ok [OF ids(1)] normalized_services_ok [OF W(1) ids(2)] normalize_schedule_canonical [OF ids(3)]
    normalized_identifier_ok [OF ids(4)] normalize_utc_canonical [OF ids(5)] fingerprint_ok [OF W(2) fp]
  have "[1..1 :: int] = [1]" by simp
  then show ?thesis
    using ok by (simp add: r request_ok_def record_ok_def outcome_ok_def outcomes_def belongs_def history_transition_def)
qed

lemma reached_ok: "reached W r \<Longrightarrow> stable_nfkc W \<Longrightarrow> hex_sha W \<Longrightarrow> request_ok W r"
proof (induction rule: reached.induct)
  case created
  then show ?case using created_ok by blast
next
  case (commanded r c expected key occurred q out)
  then have r: "request_ok W r" by simp
  show ?case
    by (rule run_command_cases [OF commanded(4,5) r commanded(2)]) (simp_all add: r)
qed

lemma fingerprint_prints:
  assumes "int_prints n"
  shows "\<exists>fp. command_fingerprint W (operation_of ch) n (payload_of ch) = Inr fp"
proof -
  have "\<exists>s. canonical_json (base W) (payload_of ch) = Inr s" by (cases ch) simp_all
  then show ?thesis using assms by (auto simp: command_fingerprint_def)
qed

text \<open>A new command on a valid request.\<close>

lemma run_fresh:
  assumes W: "stable_nfkc W" "hex_sha W" and r: "request_ok W r"
    and c: "change_of W c = Inr ch" and n: "0 \<le> n" "int_prints n"
    and k: "normalize_identifier key MAX_IDEMPOTENCY_KEY_LENGTH = Inr k" "k \<notin> ir_key ` set (sq_records r)"
    and t: "normalize_utc occurred = Inr t"
  shows "\<exists>fp. run_command W c (PInt n) key occurred r =
    (if n \<noteq> sq_revision r then Inl (Concurrency n (sq_revision r))
     else ebind (book ch (booking_of r)) (\<lambda>b. if mo_at t < mo_at (sq_updated r) then Inl Validation
       else Inr (extended r (operation_of ch) k fp t b)))"
proof -
  obtain fp where fp: "command_fingerprint W (operation_of ch) n (payload_of ch) = Inr fp"
    using fingerprint_prints [OF n(2)] by blast
  have v: "validate_revision 0 (PInt n) = Inr n" using n(1) by (simp add: validate_revision_def)
  note a = attempt_booked [OF r change_of_ok [OF W(1) c] normalize_utc_canonical [OF t] normalized_identifier_ok [OF k(1)] k(2)
      fingerprint_ok [OF W(2) fp]]
  show ?thesis
    by (rule exI [of _ fp]) (simp add: run_command_form c v k(1) t fp replay_fresh [OF k(2)] require_revision_def a)
qed

text \<open>
  C5: A command with a new key, on any request that commands lead to, does to the booking what the plain change does:
  it fails with the stale and the current revision when another command came first, and as the change does when it is
  not allowed; otherwise it succeeds unless its time lies before the last command's, the booking is the changed one, the
  revision goes up by one and the history ends with the outcome that is returned.
\<close>

theorem commands_refine_bookings:
  assumes "reached W r" "stable_nfkc W" "hex_sha W"
    and "change_of W c = Inr ch" "0 \<le> n" "int_prints n"
    and "normalize_identifier key MAX_IDEMPOTENCY_KEY_LENGTH = Inr k" "k \<notin> ir_key ` set (sq_records r)"
    and "normalize_utc occurred = Inr t"
  shows "map_sum id (\<lambda>(q, out). booking_of q) (run_command W c (PInt n) key occurred r) =
      (if n \<noteq> sq_revision r then Inl (Concurrency n (sq_revision r))
       else ebind (book ch (booking_of r)) (\<lambda>b. if mo_at t < mo_at (sq_updated r) then Inl Validation else Inr b)) \<and>
    (\<forall>q out. run_command W c (PInt n) key occurred r = Inr (q, out) \<longrightarrow>
       sq_revision q = sq_revision r + 1 \<and> outcomes q = outcomes r @ [out] \<and> oc_applied out = t \<and> make_request W q = Inr q)"
proof -
  have r: "request_ok W r" by (rule reached_ok [OF assms(1-3)])
  obtain fp where run: "run_command W c (PInt n) key occurred r =
    (if n \<noteq> sq_revision r then Inl (Concurrency n (sq_revision r))
     else ebind (book ch (booking_of r)) (\<lambda>b. if mo_at t < mo_at (sq_updated r) then Inl Validation
       else Inr (extended r (operation_of ch) k fp t b)))"
    using run_fresh [OF assms(2,3) r assms(4-9)] by blast
  have "request_ok W q" if "run_command W c (PInt n) key occurred r = Inr (q, out)" for q out
    using reached_ok [OF reached.commanded [OF assms(1) that] assms(2,3)] .
  then show ?thesis
    unfolding run
    by (cases "book ch (booking_of r)") (auto simp: extended_def Let_def booking_of_def outcomes_def)
qed

section \<open>Repeated commands\<close>

inductive later :: "sr_platform \<Rightarrow> service_request \<Rightarrow> service_request \<Rightarrow> bool" for W r where
  now: "later W r r"
| more: "later W r q \<Longrightarrow> run_command W c expected key occurred q = Inr (q', out) \<Longrightarrow> later W r q'"

lemma later_reached: "later W r q \<Longrightarrow> reached W r \<Longrightarrow> reached W q"
  by (induction rule: later.induct) (auto intro: reached.commanded)

lemma records_stay:
  assumes W: "stable_nfkc W" "hex_sha W"
  shows "later W r q \<Longrightarrow> reached W r \<Longrightarrow> set (sq_records r) \<subseteq> set (sq_records q)"
proof (induction rule: later.induct)
  case (more q c expected key occurred q' out)
  have q: "request_ok W q" by (rule reached_ok [OF later_reached [OF more(1,4)] W])
  have "set (sq_records q) \<subseteq> set (sq_records q')"
    by (rule run_command_cases [OF W q more(2)]) (auto simp: extended_def Let_def)
  with more show ?case by blast
qed simp

definition fingerprint_of :: "sr_platform \<Rightarrow> command \<Rightarrow> pyval \<Rightarrow> sr_error + string" where
  "fingerprint_of W c expected = ebind (change_of W c) (\<lambda>ch. ebind (validate_revision 0 expected) (\<lambda>n.
     command_fingerprint W (operation_of ch) n (payload_of ch)))"

lemma recorded:
  assumes W: "stable_nfkc W" "hex_sha W" and r: "request_ok W r"
    and run: "run_command W c expected key occurred r = Inr (q, out)"
  shows "\<exists>k fp. normalize_identifier key MAX_IDEMPOTENCY_KEY_LENGTH = Inr k \<and> fingerprint_of W c expected = Inr fp \<and>
    \<lparr>ir_key = k, ir_fingerprint = fp, ir_outcome = out\<rparr> \<in> set (sq_records q)"
proof -
  from run obtain ch n k t fp again where c: "change_of W c = Inr ch" "validate_revision 0 expected = Inr n"
    and k: "normalize_identifier key MAX_IDEMPOTENCY_KEY_LENGTH = Inr k"
    and t: "normalize_utc occurred = Inr t" and fp: "command_fingerprint W (operation_of ch) n (payload_of ch) = Inr fp"
    and again: "replay_command r k fp = Inr again"
    and rest: "(case again of Some x \<Rightarrow> Inr x
       | None \<Rightarrow> ebind (require_revision r n) (\<lambda>_. ebind (require_open r) (\<lambda>_. attempt W r ch k fp t))) = Inr (q, out)"
    unfolding run_command_form ebind_eq_Inr by blast
  have "\<lparr>ir_key = k, ir_fingerprint = fp, ir_outcome = out\<rparr> \<in> set (sq_records q)"
  proof (cases again)
    case (Some x)
    with rest again have "replay_command r k fp = Inr (Some (q, out))" by simp
    from replayD(2) [OF this] obtain x where "q = r" "x \<in> set (sq_records r)" "ir_key x = k" "ir_fingerprint x = fp"
      "ir_outcome x = out" by auto
    then show ?thesis by (cases x) auto
  next
    case None
    with again have fresh: "k \<notin> ir_key ` set (sq_records r)" using replayD(1) by blast
    note a = attempt_booked [OF r change_of_ok [OF W(1) c(1)] normalize_utc_canonical [OF t] normalized_identifier_ok [OF k] fresh
        fingerprint_ok [OF W(2) fp]]
    from rest None a show ?thesis by (auto simp: ebind_eq_Inr extended_def Let_def split: if_splits)
  qed
  then show ?thesis using c k fp by (auto simp: fingerprint_of_def)
qed

lemma find_distinct: "distinct (map ir_key rs) \<Longrightarrow> x \<in> set rs \<Longrightarrow> List.find (\<lambda>y. ir_key y = ir_key x) rs = Some x"
  by (induction rs) auto

lemma run_recorded:
  assumes q: "request_ok W q" and x: "\<lparr>ir_key = k, ir_fingerprint = fp, ir_outcome = out\<rparr> \<in> set (sq_records q)"
    and k: "normalize_identifier key MAX_IDEMPOTENCY_KEY_LENGTH = Inr k" and t: "normalize_utc occurred = Inr t"
    and fp': "fingerprint_of W c expected = Inr fp'"
  shows "run_command W c expected key occurred q = (if fp' = fp then Inr (q, out) else Inl Idempotency_Conflict)"
proof -
  from fp' obtain ch n where c: "change_of W c = Inr ch" "validate_revision 0 expected = Inr n"
    "command_fingerprint W (operation_of ch) n (payload_of ch) = Inr fp'"
    by (auto simp: fingerprint_of_def ebind_eq_Inr)
  have "distinct (map ir_key (sq_records q))" using q by (simp add: request_ok_def)
  from find_distinct [OF this x] have "replay_command q k fp' = (if fp' = fp then Inr (Some (q, out)) else Inl Idempotency_Conflict)"
    by (simp add: replay_command_def)
  then show ?thesis by (simp add: run_command_form c k t)
qed

text \<open>
  C24: Once a command has been accepted, sending it again with the same key at any later time, after any further
  commands, changes nothing and returns the first outcome; another command under that key is a conflict.
\<close>

theorem accepted_command_replays:
  assumes "reached W r" "stable_nfkc W" "hex_sha W" "run_command W c expected key occurred r = Inr (q, out)"
    and "later W q q'" "normalize_utc occurred' = Inr t"
    and "fingerprint_of W c' expected' = Inr fp"
  shows "run_command W c' expected' key occurred' q' =
    (if fingerprint_of W c expected = Inr fp then Inr (q', out) else Inl Idempotency_Conflict)"
proof -
  have r: "request_ok W r" by (rule reached_ok [OF assms(1-3)])
  have rq: "reached W q" by (rule reached.commanded [OF assms(1,4)])
  have q': "request_ok W q'" by (rule reached_ok [OF later_reached [OF assms(5) rq] assms(2,3)])
  from recorded [OF assms(2,3) r assms(4)] obtain k fp0 where k: "normalize_identifier key MAX_IDEMPOTENCY_KEY_LENGTH = Inr k"
    and f: "fingerprint_of W c expected = Inr fp0" and x: "\<lparr>ir_key = k, ir_fingerprint = fp0, ir_outcome = out\<rparr> \<in> set (sq_records q)"
    by blast
  have "\<lparr>ir_key = k, ir_fingerprint = fp0, ir_outcome = out\<rparr> \<in> set (sq_records q')"
    using records_stay [OF assms(2,3,5) rq] x by blast
  from run_recorded [OF q' this k assms(6,7)] show ?thesis by (simp add: f eq_commute)
qed

section \<open>The dictionary form\<close>

text \<open>A time that \<open>fromisoformat\<close> reads back from its \<open>isoformat\<close>.\<close>

definition reads_back :: "sr_platform \<Rightarrow> moment \<Rightarrow> bool" where
  "reads_back W t = (unstamp W (stamp (mo_at t)) = Some t)"

definition outcome_times :: "outcome \<Rightarrow> moment list" where
  "outcome_times c = [oc_start c, oc_end c, oc_applied c]"

definition times_of :: "service_request \<Rightarrow> moment list" where
  "times_of r = [sq_start r, sq_end r, sq_created r, sq_updated r] @ concat (map outcome_times (outcomes r))"

lemma parse_stamp: "canonical t \<Longrightarrow> reads_back W t \<Longrightarrow> parse_datetime W (PStr (stamp (mo_at t))) = Inr t"
  by (simp add: parse_datetime_def reads_back_def canonical_fixed)

lemma parse_operation_value: "parse_operation (PStr (operation_value x)) = Inr x"
  by (cases x) (simp_all add: parse_operation_def enum_of_def)

lemma parse_status_value: "parse_status (PStr (sr_status_value x)) = Inr x"
  by (cases x) (simp_all add: parse_status_def enum_of_def)

lemma restore_services_ok: "services_ok W ls \<Longrightarrow> restore_services W (PList (map PStr ls)) = Inr ls"
  by (simp add: restore_services_def services_fixed)

lemmas reading = parse_stamp parse_operation_value parse_status_value restore_services_ok require_text_def require_integer_def

lemma outcome_roundtrip:
  assumes "outcome_ok W c" "list_all (reads_back W) (outcome_times c)"
  shows "\<exists>kvs. outcome_to_dict c = Inr (PDict kvs) \<and> outcome_from_dict W (PDict kvs) = Inr c"
  using assms make_outcome_ok [OF assms(1)]
  by (simp add: outcome_to_dict_def outcome_from_dict_def outcome_ok_def outcome_times_def require_exact_keys_def OUTCOME_KEYS_def
      reading)

lemma record_roundtrip:
  assumes "record_ok W x" "list_all (reads_back W) (outcome_times (ir_outcome x))"
  shows "\<exists>d. record_to_dict x = Inr d \<and> dict_value d \<and> record_from_dict W d = Inr x"
proof -
  from assms outcome_roundtrip [of W "ir_outcome x"] obtain kvs where
    "outcome_to_dict (ir_outcome x) = Inr (PDict kvs)" "outcome_from_dict W (PDict kvs) = Inr (ir_outcome x)"
    by (auto simp: record_ok_def)
  moreover have "make_record \<lparr>ir_key = ir_key x, ir_fingerprint = ir_fingerprint x, ir_outcome = ir_outcome x\<rparr> = Inr x"
    using make_record_ok [OF assms(1)] by (cases x) simp
  ultimately show ?thesis
    by (simp add: record_to_dict_def record_from_dict_def require_exact_keys_def require_text_def)
qed

lemma records_roundtrip:
  assumes "list_all (record_ok W) xs" "list_all (\<lambda>x. list_all (reads_back W) (outcome_times (ir_outcome x))) xs"
  shows "\<exists>ds. collect (map record_to_dict xs) = Inr ds \<and> list_all dict_value ds \<and> collect (map (record_from_dict W) ds) = Inr xs"
  using assms
proof (induction xs)
  case (Cons x xs)
  then obtain ds where "collect (map record_to_dict xs) = Inr ds" "list_all dict_value ds" "collect (map (record_from_dict W) ds) = Inr xs"
    by auto
  moreover from Cons(2,3) obtain d where "record_to_dict x = Inr d" "dict_value d" "record_from_dict W d = Inr x"
    using record_roundtrip [of W x] by auto
  ultimately show ?case by simp
qed simp

text \<open>
  C29: The dictionary form of every request that commands lead to reads back as the same request: no check of the
  constructors refuses it, whatever the commands were.
\<close>

theorem request_dict_roundtrip:
  assumes "reached W r" "stable_nfkc W" "hex_sha W" "list_all (reads_back W) (times_of r)"
  shows "ebind (request_to_dict r) (request_from_dict W) = Inr r"
proof -
  have r: "request_ok W r" by (rule reached_ok [OF assms(1-3)])
  have "list_all (record_ok W) (sq_records r)" using r by (simp add: request_ok_def)
  moreover have "list_all (\<lambda>x. list_all (reads_back W) (outcome_times (ir_outcome x))) (sq_records r)"
    using assms(4) by (auto simp: times_of_def outcomes_def list_all_iff)
  ultimately obtain ds where ds: "collect (map record_to_dict (sq_records r)) = Inr ds" "list_all dict_value ds"
    "collect (map (record_from_dict W) ds) = Inr (sq_records r)"
    using records_roundtrip by blast
  have "make_request W \<lparr>sq_id = sq_id r, sq_status = sq_status r, sq_revision = sq_revision r, sq_services = sq_services r,
      sq_start = sq_start r, sq_end = sq_end r, sq_created = sq_created r, sq_updated = sq_updated r, sq_records = sq_records r,
      sq_schema = sq_schema r\<rparr> = Inr r"
    using make_request_ok [OF r] by (cases r) simp
  then show ?thesis
    using r assms(4) ds records_sorted [OF r]
    by (simp add: request_to_dict_def request_from_dict_def request_ok_def times_of_def require_exact_keys_def REQUEST_KEYS_def
        reading)
qed

section \<open>An example\<close>

text \<open>A plumber's visit, and a platform whose digest is constant and that reads the three times of the example.\<close>

definition sample_hour :: "int \<Rightarrow> moment" where
  "sample_hour h = \<lparr>mo_at = 63900000000000000 + h * 3600000000, mo_offset = Some 0\<rparr>"

definition sample_sr :: sr_platform where
  "sample_sr = \<lparr>base = \<lparr>sha256 = \<lambda>s. replicate 64 (CHR ''0''), float_text = \<lambda>q. [], iso = \<lambda>s. None\<rparr>, nfkc = \<lambda>s. s,
     unstamp = \<lambda>s. List.find (\<lambda>t. stamp (mo_at t) = s) (map sample_hour [0, 1, 24, 25])\<rparr>"

definition sample_outcome :: outcome where
  "sample_outcome = \<lparr>oc_request = ''req-1'', oc_operation = OP_CREATE, oc_revision = 1, oc_status = SR_OPEN,
     oc_services = [''Tap repair''], oc_start = sample_hour 24, oc_end = sample_hour 25, oc_applied = sample_hour 0\<rparr>"

definition sample_request :: service_request where
  "sample_request = \<lparr>sq_id = ''req-1'', sq_status = SR_OPEN, sq_revision = 1, sq_services = [''Tap repair''],
     sq_start = sample_hour 24, sq_end = sample_hour 25, sq_created = sample_hour 0, sq_updated = sample_hour 0,
     sq_records = [\<lparr>ir_key = ''k1'', ir_fingerprint = replicate 64 (CHR ''0''), ir_outcome = sample_outcome\<rparr>], sq_schema = 1\<rparr>"

lemma sample_platform_ok: "stable_nfkc sample_sr" "hex_sha sample_sr"
  by (simp_all add: stable_nfkc_def single_spaced_idem sample_sr_def hex_sha_def fingerprint_def char_in_def digit_def list_all_iff)

lemma sample_fingerprint:
  "int_prints n \<Longrightarrow> \<exists>s. canonical_json (base sample_sr) p = Inr s \<Longrightarrow>
   command_fingerprint sample_sr operation n p = Inr (replicate 64 (CHR ''0''))"
  by (auto simp: command_fingerprint_def sample_sr_def)

lemma sample_label: "normalize_service_label sample_sr (PStr ''Tap repair'') = Inr ''Tap repair''"
  by (simp add: normalize_service_label_def sample_sr_def control_def py_space_def single_spaced_def MAX_SERVICE_LABEL_LENGTH_def)

lemma padded_suc: "padded 6 n = padded 5 (n div 10) @ [char_of (48 + n mod 10)]"
  "padded 5 n = padded 4 (n div 10) @ [char_of (48 + n mod 10)]"
  "padded 4 n = padded 3 (n div 10) @ [char_of (48 + n mod 10)]"
  "padded 3 n = padded 2 (n div 10) @ [char_of (48 + n mod 10)]"
  using padded.simps(2) [of 5 n] padded.simps(2) [of 4 n] padded.simps(2) [of 3 n] padded.simps(2) [of 2 n]
  by simp_all

lemma padded_two: "padded 2 n = [char_of (48 + n div 10 mod 10), char_of (48 + n mod 10)]"
  by (simp add: numeral_2_eq_2)

lemma digit_chars:
  "char_of (48 :: nat) = CHR ''0''" "char_of (49 :: nat) = CHR ''1''" "char_of (50 :: nat) = CHR ''2''"
  "char_of (51 :: nat) = CHR ''3''" "char_of (53 :: nat) = CHR ''5''" "char_of (56 :: nat) = CHR ''8''"
  "char_of (57 :: nat) = CHR ''9''"
  by code_simp+

lemma sample_stamps:
  "stamp (mo_at (sample_hour 0)) = ''2025-11-29T08:00:00.000000Z''"
  "stamp (mo_at (sample_hour 1)) = ''2025-11-29T09:00:00.000000Z''"
  "stamp (mo_at (sample_hour 24)) = ''2025-11-30T08:00:00.000000Z''"
  "stamp (mo_at (sample_hour 25)) = ''2025-11-30T09:00:00.000000Z''"
  by (simp_all add: stamp_def sample_hour_def civil_def Let_def padded_suc padded_two digit_chars)

lemma sample_reads: "reads_back sample_sr (sample_hour 0)" "reads_back sample_sr (sample_hour 24)"
  "reads_back sample_sr (sample_hour 25)"
  by (simp_all add: reads_back_def sample_sr_def sample_stamps)

lemma sample_ids:
  "normalize_identifier (PStr ''req-1'') MAX_REQUEST_ID_LENGTH = Inr ''req-1''"
  "normalize_identifier (PStr ''k1'') MAX_IDEMPOTENCY_KEY_LENGTH = Inr ''k1''"
  "normalize_identifier (PStr ''k2'') MAX_IDEMPOTENCY_KEY_LENGTH = Inr ''k2''"
  by code_simp+

lemma sample_canonical: "0 \<le> h \<Longrightarrow> h < 1000 \<Longrightarrow> canonical (sample_hour h)"
  by (simp add: canonical_def sample_hour_def END_OF_TIME_def)

lemma sample_services: "normalize_services sample_sr (PList [PStr ''Tap repair'']) = Inr [''Tap repair'']"
  by (simp add: normalize_services_def sample_label MAX_SERVICE_COUNT_def)

lemma sample_ok: "request_ok sample_sr sample_request" "outcome_ok sample_sr sample_outcome"
proof -
  have ids: "identifier_ok MAX_REQUEST_ID_LENGTH ''req-1''" "identifier_ok MAX_IDEMPOTENCY_KEY_LENGTH ''k1''"
    using sample_ids normalized_identifier_ok by blast+
  have "services_ok sample_sr [''Tap repair'']"
    by (rule normalized_services_ok [OF sample_platform_ok(1) sample_services])
  moreover have c: "canonical (sample_hour 0)" "canonical (sample_hour 24)" "canonical (sample_hour 25)"
    by (simp_all add: sample_canonical)
  moreover have "mo_at (sample_hour 24) < mo_at (sample_hour 25)" by (simp add: sample_hour_def)
  ultimately show o: "outcome_ok sample_sr sample_outcome" by (simp add: outcome_ok_def sample_outcome_def ids)
  have f: "fingerprint (replicate 64 (CHR ''0''))" using sample_platform_ok(2) by (simp add: hex_sha_def sample_sr_def)
  have "[1..1 :: int] = [1]" by simp
  with o c ids f show "request_ok sample_sr sample_request"
    by (simp add: request_ok_def sample_request_def record_ok_def outcomes_def belongs_def history_transition_def
        outcome_ok_def sample_outcome_def SERVICE_REQUEST_SCHEMA_VERSION_def)
qed

lemma sample_request_created:
  "create sample_sr (PStr ''req-1'') (PList [PStr ''Tap repair'']) (Some (sample_hour 24)) (Some (sample_hour 25)) (PInt 0)
     (PStr ''k1'') (Some (sample_hour 0)) None = Inr (sample_request, sample_outcome)"
proof -
  have r: "make_record \<lparr>ir_key = ''k1'', ir_fingerprint = replicate 64 (CHR ''0''), ir_outcome = sample_outcome\<rparr> =
    Inr \<lparr>ir_key = ''k1'', ir_fingerprint = replicate 64 (CHR ''0''), ir_outcome = sample_outcome\<rparr>"
    by (rule make_record_ok [of sample_sr]) (use sample_ok(1) in \<open>simp add: request_ok_def sample_request_def\<close>)
  have s: "normalize_schedule (Some (sample_hour 24)) (Some (sample_hour 25)) = Inr (sample_hour 24, sample_hour 25)"
    by (simp add: normalize_schedule_def canonical_fixed sample_canonical) (simp add: sample_hour_def)
  have n: "normalize_utc (Some (sample_hour 0)) = Inr (sample_hour 0)" by (simp add: canonical_fixed sample_canonical)
  have v: "validate_revision 0 (PInt 0) = Inr 0" by (simp add: validate_revision_def)
  have st: "serialize_datetime (sample_hour 24) = Inr (stamp (mo_at (sample_hour 24)))"
    "serialize_datetime (sample_hour 25) = Inr (stamp (mo_at (sample_hour 25)))" by (simp_all add: sample_canonical)
  have f: "command_fingerprint sample_sr OP_CREATE 0 (PDict [(''request_id'', PStr ''req-1''),
      (''services'', PList (map PStr [''Tap repair''])), (''scheduled_start'', PStr (stamp (mo_at (sample_hour 24)))),
      (''scheduled_end'', PStr (stamp (mo_at (sample_hour 25))))]) = Inr (replicate 64 (CHR ''0''))"
    by (rule sample_fingerprint) (simp_all add: small_prints)
  note o = make_outcome_ok [OF sample_ok(2), unfolded sample_outcome_def]
    and q = make_request_ok [OF sample_ok(1), unfolded sample_request_def]
  show ?thesis
    using o q r by (simp add: create_def sample_ids sample_services s n v st f [simplified] sample_outcome_def
        sample_request_def SERVICE_REQUEST_SCHEMA_VERSION_def del: make_outcome_ok make_request_ok make_record_ok)
qed

lemma sample_reached: "reached sample_sr sample_request"
  by (rule reached.created [OF sample_request_created])

lemma sample_next: "normalize_utc (Some (sample_hour 1)) = Inr (sample_hour 1)"
  by (simp add: canonical_fixed sample_canonical)

theorem commands_refine_bookings_witness:
  "map_sum id (\<lambda>(q, out). booking_of q) (run_command sample_sr Cancel (PInt 1) (PStr ''k2'') (Some (sample_hour 1)) sample_request) =
     Inr \<lparr>bk_status = SR_CANCELLED, bk_services = [''Tap repair''], bk_start = sample_hour 24, bk_end = sample_hour 25\<rparr>"
  using commands_refine_bookings [OF sample_reached sample_platform_ok, of Cancel To_Cancel 1 "PStr ''k2''" "''k2''"
      "Some (sample_hour 1)" "sample_hour 1"]
  by (simp add: small_prints sample_ids sample_next) (simp add: sample_request_def booking_of_def sample_hour_def)

lemma sample_cancelled:
  "\<exists>q out. run_command sample_sr Cancel (PInt 1) (PStr ''k2'') (Some (sample_hour 1)) sample_request = Inr (q, out)"
proof -
  have "\<exists>fp. run_command sample_sr Cancel (PInt 1) (PStr ''k2'') (Some (sample_hour 1)) sample_request =
    (if 1 \<noteq> sq_revision sample_request then Inl (Concurrency 1 (sq_revision sample_request))
     else ebind (book To_Cancel (booking_of sample_request)) (\<lambda>b.
       if mo_at (sample_hour 1) < mo_at (sq_updated sample_request) then Inl Validation
       else Inr (extended sample_request (operation_of To_Cancel) ''k2'' fp (sample_hour 1) b)))"
    by (rule run_fresh [OF sample_platform_ok sample_ok(1) _ _ _ sample_ids(3) _ sample_next])
       (simp_all add: small_prints sample_request_def)
  then show ?thesis
    by (auto simp: sample_request_def booking_of_def extended_def Let_def sample_hour_def)
qed

theorem accepted_command_replays_witness:
  "\<exists>q out. run_command sample_sr Cancel (PInt 1) (PStr ''k2'') (Some (sample_hour 1)) sample_request = Inr (q, out) \<and>
     run_command sample_sr Cancel (PInt 1) (PStr ''k2'') (Some (sample_hour 24)) q = Inr (q, out)"
proof -
  obtain q out where run: "run_command sample_sr Cancel (PInt 1) (PStr ''k2'') (Some (sample_hour 1)) sample_request = Inr (q, out)"
    using sample_cancelled by blast
  have "fingerprint_of sample_sr Cancel (PInt 1) = Inr (replicate 64 (CHR ''0''))"
    using sample_fingerprint [of 1 "PDict []" OP_CANCEL] by (simp add: fingerprint_of_def validate_revision_def small_prints)
  moreover have "normalize_utc (Some (sample_hour 24)) = Inr (sample_hour 24)" by (simp add: canonical_fixed sample_canonical)
  ultimately show ?thesis
    using accepted_command_replays [OF sample_reached sample_platform_ok run later.now] run by (simp del: run_command.simps)
qed

theorem request_dict_roundtrip_witness: "ebind (request_to_dict sample_request) (request_from_dict sample_sr) = Inr sample_request"
proof (rule request_dict_roundtrip [OF sample_reached sample_platform_ok])
  show "list_all (reads_back sample_sr) (times_of sample_request)"
    by (simp add: sample_reads times_of_def outcomes_def outcome_times_def sample_request_def sample_outcome_def)
qed

end
