(* ===== verification/Firestore.thy ===== *)
theory Firestore
  imports Prelude
begin

text \<open>
  What the stores on Firestore share: documents, the outcome of a transaction's commit, batch reads, and the facts about
  runs of operations of which a condition on the store is left only by some of them (locale \<open>fence\<close>).
\<close>

section \<open>Documents and transactions\<close>

text \<open>A document that does not exist is \<open>None\<close>; \<open>snapshot.to_dict() or {}\<close> reads it as an empty one.\<close>

type_synonym document = "pydict option"

definition fields_of :: "document \<Rightarrow> pydict" where
  "fields_of s = (case s of None \<Rightarrow> Map.empty | Some d \<Rightarrow> d)"

lemma fields_of_simps [simp]: "fields_of None = Map.empty" "fields_of (Some d) = d"
  by (simp_all add: fields_of_def)

datatype store_error = Raised py_error | Rpc_failed

text \<open>
  The commit of a transaction is applied, is refused, or is applied although the caller sees an error because the answer
  is lost. A body that raises is rolled back.
\<close>

datatype commit = Applied | Refused | Unconfirmed

fun transact :: "commit \<Rightarrow> 's \<Rightarrow> (py_error + 'a \<times> 's) \<Rightarrow> 's \<times> (store_error + 'a)" where
  "transact c s (Inl e) = (s, Inl (Raised e))"
| "transact Applied s (Inr (a, s')) = (s', Inr a)"
| "transact Refused s (Inr (a, s')) = (s, Inl Rpc_failed)"
| "transact Unconfirmed s (Inr (a, s')) = (s', Inl Rpc_failed)"

lemma transact_state: "fst (transact c s r) = s \<or> (\<exists>a. r = Inr (a, fst (transact c s r)))"
  by (cases "(c, s, r)" rule: transact.cases) auto

lemma transact_answer: "transact c s r = (s', Inr a) \<Longrightarrow> r = Inr (a, s')"
  by (cases "(c, s, r)" rule: transact.cases) auto

lemma transact_to: "fst (transact c s r) = t \<Longrightarrow> t = s \<or> (\<exists>a. r = Inr (a, t))"
  using transact_state [of c s r] by auto

section \<open>Numbers in documents\<close>

text \<open>The value of a number, \<open>v + n\<close> for an integer \<open>n\<close>, and \<open>v == n\<close>, which holds for equal floats and booleans too.\<close>

fun num :: "pyval \<Rightarrow> rat" where
  "num (PInt i) = of_int i"
| "num (PFloat (Fin q)) = q"
| "num v = 0"

fun plus_int :: "pyval \<Rightarrow> int \<Rightarrow> pyval" where
  "plus_int (PInt i) n = PInt (i + n)"
| "plus_int (PFloat f) n = PFloat (fplus f (Fin (of_int n)))"
| "plus_int v n = v"

definition equals_int :: "pyval \<Rightarrow> int \<Rightarrow> bool" where
  "equals_int v n = (py_number v = Some (Fin (of_int n)))"

lemma finite_number_num: "finite_number v = Some q \<Longrightarrow> num v = q"
  by (cases v rule: num.cases) (auto simp: finite_number_def)

lemma plus_int_finite: "finite_number v = Some q \<Longrightarrow> finite_number (plus_int v n) = Some (q + of_int n)"
  by (cases v rule: num.cases) (auto simp: finite_number_def)

lemma equals_int_PInt [simp]: "equals_int (PInt i) n \<longleftrightarrow> i = n"
  by (simp add: equals_int_def)

section \<open>Texts\<close>

text \<open>\<open>str\<close> of a value; of a float, a list or a dictionary it is the parameter \<open>repr\<close>.\<close>

fun str_of :: "(pyval \<Rightarrow> string) \<Rightarrow> pyval \<Rightarrow> string" where
  "str_of repr (PStr s) = s"
| "str_of repr (PInt i) = int_str i"
| "str_of repr (PBool b) = (if b then ''True'' else ''False'')"
| "str_of repr PNone = ''None''"
| "str_of repr v = repr v"

text \<open>\<open>str(v or '')\<close>.\<close>

definition str_or_empty :: "(pyval \<Rightarrow> string) \<Rightarrow> pyval \<Rightarrow> string" where
  "str_or_empty repr v = (if truthy v then str_of repr v else '''')"

definition lower_char :: "char \<Rightarrow> char" where
  "lower_char c = (let n = (of_char c :: nat) in
     if 65 \<le> n \<and> n \<le> 90 \<or> 192 \<le> n \<and> n \<le> 222 \<and> n \<noteq> 215 then char_of (n + 32) else c)"

section \<open>Runs of operations\<close>

text \<open>
  A condition on the store, for each key, that only the operations that open it can end. Operations come in any order
  and with any outcome of their commits: whatever does not open the condition keeps it.
\<close>

locale fence =
  fixes apply_op :: "'s \<Rightarrow> 'o \<Rightarrow> 's"
    and holds :: "'k \<Rightarrow> 's \<Rightarrow> bool"
    and opens :: "'k \<Rightarrow> 'o \<Rightarrow> bool"
  assumes kept: "holds k s \<Longrightarrow> \<not> opens k op \<Longrightarrow> holds k (apply_op s op)"
begin

lemma run_kept: "holds k s \<Longrightarrow> \<forall>op \<in> set es. \<not> opens k op \<Longrightarrow> holds k (foldl apply_op s es)"
  by (induction es arbitrary: s) (simp_all add: kept)

lemma first_break:
  assumes "holds k s" and "\<not> holds k (foldl apply_op s es)"
  obtains xs op ys where "es = xs @ op # ys" "opens k op" "holds k (foldl apply_op s xs)"
    "\<not> holds k (apply_op (foldl apply_op s xs) op)"
proof -
  have "\<exists>xs op ys. es = xs @ op # ys \<and> opens k op \<and> holds k (foldl apply_op s xs) \<and>
      \<not> holds k (apply_op (foldl apply_op s xs) op)"
    using assms
  proof (induction es rule: rev_induct)
    case (snoc op es)
    show ?case
    proof (cases "holds k (foldl apply_op s es)")
      case True
      moreover from this snoc(3) have "\<not> holds k (apply_op (foldl apply_op s es) op)" by simp
      moreover from this True have "opens k op" using kept by blast
      ultimately show ?thesis by blast
    next
      case False
      with snoc obtain xs op' ys where "es = xs @ op' # ys \<and> opens k op' \<and> holds k (foldl apply_op s xs) \<and>
        \<not> holds k (apply_op (foldl apply_op s xs) op')" by blast
      then have "es @ [op] = xs @ op' # (ys @ [op]) \<and> opens k op' \<and> holds k (foldl apply_op s xs) \<and>
        \<not> holds k (apply_op (foldl apply_op s xs) op')" by simp
      then show ?thesis by blast
    qed
  qed simp
  then show thesis using that by blast
qed

end

end
