(* ===== verification/Job_Ledger.thy ===== *)
theory Job_Ledger
  imports Visual_Contracts Firestore
begin

text \<open>
  The admission ledger of the private background jobs and the hand-over between embedded and external workers,
  app/db/background_jobs.py. The state is the content of the two collections. Each operation is one transaction; its
  environment says which snapshots a batch read delivers and in which order, what the trusted clock says and what
  becomes of the commit. The bounds on the RPCs (\<open>BoundedTransaction\<close>) and the log labels are not modelled; the random
  nonce is an argument.
\<close>

section \<open>The ledger\<close>

definition JOB_INTERVALS :: "(string \<times> int) list" where
  "JOB_INTERVALS = [(''orphan_calls'', 300), (''call_retention'', 21600), (''lapsed_trials'', 21600),
     (''expired_contractors'', 21600), (''data_purge'', 21600), (''post_calls'', 60), (''estimates'', 60),
     (''service_requests'', 60), (''jobber_disconnect'', 60)]"

definition MAX_CONTINUATION_BYTES :: nat where
  "MAX_CONTINUATION_BYTES = 4096"

definition CUTOVER_PROTOCOL_VERSION :: int where
  "CUTOVER_PROTOCOL_VERSION = 1"

definition CUTOVER_MIN_LEASE_SECONDS :: int where
  "CUTOVER_MIN_LEASE_SECONDS = 60"

definition CUTOVER_MAX_LEASE_SECONDS :: int where
  "CUTOVER_MAX_LEASE_SECONDS = 86400"

text \<open>The control document and the document of each job.\<close>

datatype doc_ref = Cutover | Job string

type_synonym ledger = "doc_ref \<Rightarrow> document"

record environment =
  arrivals :: "doc_ref list"
  clock :: pyval
  commits :: commit

text \<open>\<open>get_all\<close> delivers snapshots of requested documents, in any order; some may be missing, some repeated.\<close>

definition get_all :: "environment \<Rightarrow> ledger \<Rightarrow> doc_ref list \<Rightarrow> (doc_ref \<times> document) list" where
  "get_all v s refs = map (\<lambda>r. (r, s r)) (filter (\<lambda>r. r \<in> set refs) (arrivals v))"

fun by_path :: "doc_ref list \<Rightarrow> (doc_ref \<times> document) list \<Rightarrow> (doc_ref \<times> document) list \<Rightarrow> (doc_ref \<times> document) list res" where
  "by_path expected seen [] = Inr seen"
| "by_path expected seen ((r, d) # xs) =
     (if r \<notin> set expected \<or> r \<in> set (map fst seen) then Inl ValueError else by_path expected (seen @ [(r, d)]) xs)"

definition authoritative_batch_snapshots :: "environment \<Rightarrow> ledger \<Rightarrow> doc_ref list \<Rightarrow> document list res" where
  "authoritative_batch_snapshots v s refs =
     (if \<not> distinct refs then Inl ValueError
      else ebind (by_path refs [] (get_all v s refs)) (\<lambda>found.
        if set (map fst found) \<noteq> set refs then Inl ValueError
        else Inr (map (\<lambda>r. the (map_of found r)) refs)))"

definition single_snapshot :: "environment \<Rightarrow> ledger \<Rightarrow> doc_ref \<Rightarrow> document res" where
  "single_snapshot v s r = (case get_all v s [r] of [(p, d)] \<Rightarrow> Inr d | _ \<Rightarrow> Inl ValueError)"

section \<open>Validation\<close>

definition server_now :: "environment \<Rightarrow> pyval res" where
  "server_now v = (case finite_number (clock v) of None \<Rightarrow> Inl ValueError | Some q \<Rightarrow> Inr (clock v))"

definition validate_cutover_generation :: "pyval \<Rightarrow> string res" where
  "validate_cutover_generation v = (case v of
       PStr s \<Rightarrow> if matches alnum (\<lambda>c. alnum c \<or> c \<in> set ''._-'') 128 s \<and> 16 \<le> length s then Inr s else Inl ValueError
     | _ \<Rightarrow> Inl ValueError)"

definition valid_timestamp :: "pyval \<Rightarrow> pyval \<Rightarrow> bool" where
  "valid_timestamp v now = (case finite_number v of None \<Rightarrow> False | Some q \<Rightarrow> 0 \<le> q \<and> q \<le> num now)"

definition allowed_keys :: "string \<Rightarrow> string list" where
  "allowed_keys job =
     (if job \<in> set [''orphan_calls'', ''lapsed_trials'', ''expired_contractors''] then [''cursor'']
      else if job = ''post_calls'' then [''pending'', ''in_progress''] else if job = ''estimates'' then [''processing''] else [])"

definition cursor :: "pyval \<Rightarrow> bool" where
  "cursor v = (case v of PNone \<Rightarrow> True
     | PStr s \<Rightarrow> 1 \<le> length s \<and> length s \<le> 512 \<and> CHR ''/'' \<notin> set s \<and> \<not> list_ex (\<lambda>c. (of_char c :: nat) < 32) s
     | _ \<Rightarrow> False)"

text \<open>\<open>json.dumps\<close> with its defaults: entries are spaced.\<close>

fun dumps_entry :: "string \<times> pyval \<Rightarrow> string" where
  "dumps_entry (k, PStr s) = ascii_string k @ '': '' @ ascii_string s"
| "dumps_entry (k, v) = ascii_string k @ '': null''"

definition dumps :: "(string \<times> pyval) list \<Rightarrow> string" where
  "dumps kvs = ''{'' @ join '', '' (map dumps_entry kvs) @ ''}''"

definition validate_continuation :: "string \<Rightarrow> pyval \<Rightarrow> pyval res" where
  "validate_continuation job v = (case v of
       PDict kvs \<Rightarrow>
         if job \<notin> set (map fst JOB_INTERVALS) then Inl ValueError
         else if \<not> set (map fst kvs) \<subseteq> set (allowed_keys job) then Inl ValueError
         else if \<not> list_all (\<lambda>(k, x). cursor x) kvs then Inl ValueError
         else if MAX_CONTINUATION_BYTES < length (dumps kvs) then Inl ValueError
         else Inr v
     | _ \<Rightarrow> Inl ValueError)"

text \<open>The continuation of a row, an empty one when it has none, and whether its time of being due is a proper one.\<close>

definition continuation_of :: "pydict \<Rightarrow> pyval" where
  "continuation_of d = pget_or d ''continuation'' (PDict [])"

definition due_of :: "pydict \<Rightarrow> rat option" where
  "due_of d = (case finite_number (pget d ''next_due_at'') of None \<Rightarrow> None | Some q \<Rightarrow> if q < 0 then None else Some q)"

definition settled_job_snapshot :: "string \<Rightarrow> document \<Rightarrow> bool" where
  "settled_job_snapshot job row = (case row of None \<Rightarrow> True
     | Some d \<Rightarrow>
         if pget d ''status'' \<noteq> PStr ''completed'' then False
         else if due_of d = None then False
         else (case validate_continuation job (continuation_of d) of Inl e \<Rightarrow> False | Inr c \<Rightarrow> True))"

definition job_hold_reason :: "string \<Rightarrow> document \<Rightarrow> string option" where
  "job_hold_reason job row =
     (if settled_job_snapshot job row then None
      else Some (let status = pget (fields_of row) ''status'' in
        if status = PStr ''running'' then ''running'' else if status = PStr ''needs_attention'' then ''needs_attention''
        else ''malformed''))"

section \<open>The hand-over\<close>

definition unexpired :: "pydict \<Rightarrow> pyval \<Rightarrow> bool" where
  "unexpired d now = (case finite_number (pget d ''lease_expires_at'') of None \<Rightarrow> False | Some q \<Rightarrow> num now < q)"

definition active :: "pydict \<Rightarrow> string \<Rightarrow> pyval \<Rightarrow> bool" where
  "active d generation now =
     (pget d ''state'' = PStr ''external_active'' \<and> equals_int (pget d ''protocol_version'') CUTOVER_PROTOCOL_VERSION \<and>
      pget d ''generation'' = PStr generation \<and> valid_timestamp (pget d ''api_acknowledged_at'') now \<and> unexpired d now)"

definition requested_control :: "string \<Rightarrow> pyval \<Rightarrow> int \<Rightarrow> pydict" where
  "requested_control generation now lease =
     [''state'' \<mapsto> PStr ''external_requested'', ''protocol_version'' \<mapsto> PInt CUTOVER_PROTOCOL_VERSION,
      ''generation'' \<mapsto> PStr generation, ''lease_expires_at'' \<mapsto> plus_int now lease,
      ''embedded_drained_at'' \<mapsto> now, ''scheduler_verified_at'' \<mapsto> now]"

text \<open>\<open>type(lease_seconds) is not int\<close>: a boolean is refused as well.\<close>

definition prepare_external ::
    "environment \<Rightarrow> pyval \<Rightarrow> pyval \<Rightarrow> pyval \<Rightarrow> pyval \<Rightarrow> ledger \<Rightarrow> ledger \<times> (store_error + unit)" where
  "prepare_external v generation lease drained verified s = transact (commits v) s
     (ebind (validate_cutover_generation generation) (\<lambda>g.
      case lease of
        PInt n \<Rightarrow>
          if \<not> (CUTOVER_MIN_LEASE_SECONDS \<le> n \<and> n \<le> CUTOVER_MAX_LEASE_SECONDS) then Inl ValueError
          else if drained \<noteq> PBool True \<or> verified \<noteq> PBool True then Inl ValueError
          else ebind (authoritative_batch_snapshots v s [Cutover]) (\<lambda>snaps.
            ebind (server_now v) (\<lambda>now.
              let d = fields_of (hd snaps) in
              if hd snaps = None \<or> pget d ''state'' \<noteq> PStr ''embedded'' \<or>
                 \<not> equals_int (pget d ''protocol_version'') CUTOVER_PROTOCOL_VERSION then Inl ValueError
              else Inr ((), s(Cutover := Some (requested_control g now n)))))
      | _ \<Rightarrow> Inl ValueError))"

definition prepared :: "pydict \<Rightarrow> string \<Rightarrow> pyval \<Rightarrow> bool" where
  "prepared d generation now =
     (pget d ''state'' = PStr ''external_requested'' \<and> equals_int (pget d ''protocol_version'') CUTOVER_PROTOCOL_VERSION \<and>
      pget d ''generation'' = PStr generation \<and> valid_timestamp (pget d ''embedded_drained_at'') now \<and>
      valid_timestamp (pget d ''scheduler_verified_at'') now \<and> unexpired d now)"

definition activate_external :: "environment \<Rightarrow> pyval \<Rightarrow> ledger \<Rightarrow> ledger \<times> (store_error + bool)" where
  "activate_external v generation s = transact (commits v) s
     (ebind (validate_cutover_generation generation) (\<lambda>g.
      ebind (authoritative_batch_snapshots v s [Cutover]) (\<lambda>snaps.
      ebind (server_now v) (\<lambda>now.
        let d = fields_of (hd snaps) in
        if active d g now then Inr (True, s)
        else if \<not> prepared d g now then Inr (False, s)
        else Inr (True, s(Cutover := Some (d(''state'' \<mapsto> PStr ''external_active'', ''api_acknowledged_at'' \<mapsto> now))))))))"

definition job_refs :: "doc_ref list" where
  "job_refs = map (Job \<circ> fst) JOB_INTERVALS"

definition held_jobs :: "document list \<Rightarrow> (string \<times> string) list" where
  "held_jobs rows = concat (map (\<lambda>(job, row). case job_hold_reason job row of None \<Rightarrow> [] | Some r \<Rightarrow> [(job, r)])
     (zip (map fst JOB_INTERVALS) rows))"

text \<open>\<open>v in {...}\<close> for a set: a list or a dictionary cannot be hashed.\<close>

definition hashable :: "pyval \<Rightarrow> bool" where
  "hashable v = (case v of PList xs \<Rightarrow> False | PDict kvs \<Rightarrow> False | _ \<Rightarrow> True)"

text \<open>The answer, with the jobs that hold the ledger (the attribute \<open>held_jobs\<close>).\<close>

definition begin_embedded :: "environment \<Rightarrow> ledger \<Rightarrow> ledger \<times> (store_error + bool \<times> (string \<times> string) list)" where
  "begin_embedded v s = transact (commits v) s
     (ebind (authoritative_batch_snapshots v s (Cutover # job_refs)) (\<lambda>snaps.
        let d = fields_of (hd snaps); held = held_jobs (tl snaps); state = pget d ''state'';
            draining = s(Cutover := Some (d(''state'' \<mapsto> PStr ''external_draining''))) in
        if held \<noteq> [] then
          Inr ((False, held), if hd snaps = None \<or> state \<noteq> PStr ''external_draining'' then draining else s)
        else if \<not> hashable state then Inl TypeError
        else if state \<in> {PStr ''external_requested'', PStr ''external_active''} then Inr ((False, held), draining)
        else if hd snaps \<noteq> None \<and> state = PStr ''embedded'' \<and>
                equals_int (pget d ''protocol_version'') CUTOVER_PROTOCOL_VERSION then Inr ((True, held), s)
        else Inr ((True, held), s(Cutover := Some
          [''state'' \<mapsto> PStr ''embedded'', ''protocol_version'' \<mapsto> PInt CUTOVER_PROTOCOL_VERSION]))))"

definition external_active :: "environment \<Rightarrow> pyval \<Rightarrow> ledger \<Rightarrow> bool res" where
  "external_active v generation s =
     ebind (validate_cutover_generation generation) (\<lambda>g.
     ebind (authoritative_batch_snapshots v s [Cutover]) (\<lambda>snaps.
     ebind (server_now v) (\<lambda>now. Inr (hd snaps \<noteq> None \<and> active (fields_of (hd snaps)) g now))))"

section \<open>Admission\<close>

record admission =
  ad_status :: string
  ad_nonce :: string
  ad_continuation :: "pyval option"

definition waiting :: "string \<Rightarrow> admission" where
  "waiting status = \<lparr>ad_status = status, ad_nonce = '''', ad_continuation = None\<rparr>"

definition interval_of :: "string \<Rightarrow> int" where
  "interval_of job = (case map_of JOB_INTERVALS job of None \<Rightarrow> 1 | Some n \<Rightarrow> n)"

text \<open>\<open>(math.floor(now / interval) + 1) * interval\<close>.\<close>

definition next_slot :: "string \<Rightarrow> pyval \<Rightarrow> int" where
  "next_slot job now = (\<lfloor>num now / of_int (interval_of job)\<rfloor> + 1) * interval_of job"

definition running_row :: "string \<Rightarrow> pyval \<Rightarrow> string \<Rightarrow> pyval \<Rightarrow> pydict" where
  "running_row job now nonce c =
     [''status'' \<mapsto> PStr ''running'', ''nonce'' \<mapsto> PStr nonce, ''started_at'' \<mapsto> now,
      ''next_due_at'' \<mapsto> PInt (next_slot job now), ''continuation'' \<mapsto> c]"

text \<open>Started within the last five minutes.\<close>

definition fresh_start :: "pydict \<Rightarrow> pyval \<Rightarrow> bool" where
  "fresh_start d now = (case finite_number (pget d ''started_at'') of None \<Rightarrow> False
     | Some q \<Rightarrow> 0 \<le> num now - q \<and> num now - q < 300)"

text \<open>The decision on a row: what the row becomes, if it is written, and the answer.\<close>

definition admit_from_snapshot :: "string \<Rightarrow> document \<Rightarrow> pyval \<Rightarrow> string \<Rightarrow> pydict option \<times> admission" where
  "admit_from_snapshot job row now nonce =
     (let d = fields_of row in
      case validate_continuation job (continuation_of d) of
        Inl e \<Rightarrow> (None, waiting ''needs_attention'')
      | Inr c \<Rightarrow>
          let admitted = (Some (running_row job now nonce c),
            \<lparr>ad_status = ''admitted'', ad_nonce = nonce, ad_continuation = Some c\<rparr>) in
          if row = None then admitted
          else if pget d ''status'' = PStr ''running'' then
            (None, waiting (if fresh_start d now then ''in_progress'' else ''needs_attention''))
          else if pget d ''status'' \<noteq> PStr ''completed'' then (None, waiting ''needs_attention'')
          else (case due_of d of None \<Rightarrow> (None, waiting ''needs_attention'')
            | Some due \<Rightarrow> if num now < due then (None, waiting ''not_due'') else admitted))"

definition write_row :: "ledger \<Rightarrow> string \<Rightarrow> pydict option \<times> admission \<Rightarrow> admission \<times> ledger" where
  "write_row s job = (\<lambda>(w, a). (a, case w of None \<Rightarrow> s | Some d \<Rightarrow> s(Job job := Some d)))"

text \<open>\<open>admit\<close> of a store that was made with the given external generation, or with none.\<close>

definition admission_body ::
    "environment \<Rightarrow> string option \<Rightarrow> string \<Rightarrow> string \<Rightarrow> ledger \<Rightarrow> (admission \<times> ledger) res" where
  "admission_body v generation job nonce s = (case generation of
       Some g \<Rightarrow>
         ebind (authoritative_batch_snapshots v s [Cutover, Job job]) (\<lambda>snaps.
         ebind (server_now v) (\<lambda>now.
           let d = fields_of (hd snaps) in
           if \<not> active d g now then
             Inr (if pget d ''state'' = PStr ''external_requested'' \<and> pget d ''generation'' = PStr g
                  then waiting ''cutover_pending'' else waiting ''cutover_blocked'', s)
           else Inr (write_row s job (admit_from_snapshot job (snaps ! 1) now nonce))))
     | None \<Rightarrow>
         ebind (single_snapshot v s (Job job)) (\<lambda>row.
         ebind (server_now v) (\<lambda>now. Inr (write_row s job (admit_from_snapshot job row now nonce)))))"

definition admit :: "environment \<Rightarrow> string option \<Rightarrow> string \<Rightarrow> string \<Rightarrow> ledger \<Rightarrow> ledger \<times> (store_error + admission)" where
  "admit v generation job nonce s = transact (commits v) s
     (if job \<notin> set (map fst JOB_INTERVALS) then Inl ValueError else admission_body v generation job nonce s)"

definition finish :: "environment \<Rightarrow> string \<Rightarrow> string \<Rightarrow> bool \<Rightarrow> pyval \<Rightarrow> ledger \<Rightarrow> ledger \<times> (store_error + bool)" where
  "finish v job nonce completed continuation s = transact (commits v) s
     (if job \<notin> set (map fst JOB_INTERVALS) then Inl ValueError
      else ebind (single_snapshot v s (Job job)) (\<lambda>row.
        let d = fields_of row in
        if row = None \<or> pget d ''status'' \<noteq> PStr ''running'' \<or> pget d ''nonce'' \<noteq> PStr nonce then Inr (False, s)
        else ebind (server_now v) (\<lambda>now. Inr (True, s(Job job := Some
          (if completed
           then d(''status'' \<mapsto> PStr ''completed'',
                  ''continuation'' \<mapsto> (if truthy continuation then continuation else PDict []))
           else d(''status'' \<mapsto> PStr ''needs_attention'')))))))"

end
