(* ===== verification/Job_Safety.thy ===== *)
theory Job_Safety
  imports Job_Ledger
begin

text \<open>
  The admission ledger of app/db/background_jobs.py under any sequence of operations of the workers and of the hand-over,
  each with its own reads, clock and outcome of the commit: what every operation writes, four conditions on the store
  that only certain operations end (interpretations of \<open>fence\<close>), and the properties. The example at the end is what
  the witnesses run on.
\<close>

section \<open>Reads\<close>

lemma by_path_Inr: "by_path refs seen xs = Inr found \<Longrightarrow> found = seen @ xs"
  by (induction refs seen xs rule: by_path.induct) (auto split: if_splits)

lemma get_all_reads: "(r, d) \<in> set (get_all v s refs) \<Longrightarrow> d = s r \<and> r \<in> set refs"
  by (auto simp: get_all_def)

lemma batch_reads:
  assumes "authoritative_batch_snapshots v s refs = Inr snaps"
  shows "snaps = map s refs"
proof -
  from assms obtain found where f: "by_path refs [] (get_all v s refs) = Inr found" "set (map fst found) = set refs"
    and snaps: "snaps = map (\<lambda>r. the (map_of found r)) refs"
    by (auto simp: authoritative_batch_snapshots_def ebind_eq_Inr split: if_splits)
  have "the (map_of found r) = s r" if "r \<in> set refs" for r
  proof -
    from that f(2) obtain d where "map_of found r = Some d" by (metis map_of_eq_None_iff not_None_eq set_map)
    then show ?thesis using map_of_SomeD by_path_Inr [OF f(1)] get_all_reads by fastforce
  qed
  then show ?thesis by (simp add: snaps)
qed

lemma single_reads:
  assumes "single_snapshot v s r = Inr d"
  shows "d = s r"
proof -
  from assms obtain p where "get_all v s [r] = [(p, d)]" by (auto simp: single_snapshot_def split: list.splits)
  then have "(p, d) \<in> set (get_all v s [r])" by simp
  then show ?thesis using get_all_reads by fastforce
qed

lemma by_path_complete:
  "distinct (map fst seen @ map fst xs) \<Longrightarrow> set (map fst xs) \<subseteq> set refs \<Longrightarrow> by_path refs seen xs = Inr (seen @ xs)"
  by (induction refs seen xs rule: by_path.induct) auto

text \<open>A batch read that delivers every requested document once is answered in the order of the request.\<close>

lemma batch_served:
  assumes "distinct refs" "distinct (filter (\<lambda>r. r \<in> set refs) (arrivals v))" "set refs \<subseteq> set (arrivals v)"
  shows "authoritative_batch_snapshots v s refs = Inr (map s refs)"
proof -
  have m: "map fst (get_all v s refs) = filter (\<lambda>r. r \<in> set refs) (arrivals v)" by (simp add: get_all_def comp_def)
  then have "by_path refs [] (get_all v s refs) = Inr (get_all v s refs)"
    using by_path_complete [of "[]" "get_all v s refs" refs] assms(2) by auto
  moreover have "set (map fst (get_all v s refs)) = set refs" using assms(3) by (auto simp: m)
  ultimately have "\<exists>snaps. authoritative_batch_snapshots v s refs = Inr snaps"
    using assms(1) by (simp add: authoritative_batch_snapshots_def)
  then show ?thesis using batch_reads by fastforce
qed

section \<open>What the operations write\<close>

text \<open>The rows that an admission at the given time takes.\<close>

definition admissible :: "string \<Rightarrow> document \<Rightarrow> pyval \<Rightarrow> bool" where
  "admissible job row now = (settled_job_snapshot job row \<and> (\<forall>d due. row = Some d \<longrightarrow> due_of d = Some due \<longrightarrow> due \<le> num now))"

lemma empty_continuation: "job \<in> set (map fst JOB_INTERVALS) \<Longrightarrow> validate_continuation job (PDict []) = Inr (PDict [])"
  by (simp add: validate_continuation_def dumps_def MAX_CONTINUATION_BYTES_def)

lemma admission_cases:
  assumes "job \<in> set (map fst JOB_INTERVALS)"
  shows "admit_from_snapshot job row now nonce =
     (if admissible job row now
      then (Some (running_row job now nonce (continuation_of (fields_of row))),
        \<lparr>ad_status = ''admitted'', ad_nonce = nonce, ad_continuation = Some (continuation_of (fields_of row))\<rparr>)
      else (None, snd (admit_from_snapshot job row now nonce))) \<and>
     (\<not> admissible job row now \<longrightarrow> ad_status (snd (admit_from_snapshot job row now nonce)) \<in>
        (if settled_job_snapshot job row then {''not_due''} else {''in_progress'', ''needs_attention''}))"
proof (cases row)
  case None
  then show ?thesis using empty_continuation [OF assms]
    by (simp add: admit_from_snapshot_def admissible_def settled_job_snapshot_def continuation_of_def)
next
  case (Some d)
  have c: "c = continuation_of d" if "validate_continuation job (continuation_of d) = Inr c" for c
    using that by (auto simp: validate_continuation_def split: pyval.splits if_splits)
  show ?thesis
    using Some c
    by (auto simp: admit_from_snapshot_def admissible_def settled_job_snapshot_def waiting_def Let_def
        split: sum.splits option.splits if_splits)
qed

text \<open>The row an admission leaves behind, and the admission it hands out.\<close>

definition taken_row :: "ledger \<Rightarrow> string \<Rightarrow> pyval \<Rightarrow> string \<Rightarrow> ledger" where
  "taken_row s job now nonce =
     s(Job job := Some (running_row job now nonce (continuation_of (fields_of (s (Job job))))))"

definition handed :: "ledger \<Rightarrow> string \<Rightarrow> string \<Rightarrow> admission" where
  "handed s job nonce =
     \<lparr>ad_status = ''admitted'', ad_nonce = nonce, ad_continuation = Some (continuation_of (fields_of (s (Job job))))\<rparr>"

lemma write_row_cases:
  assumes "job \<in> set (map fst JOB_INTERVALS)" "write_row s job (admit_from_snapshot job (s (Job job)) now nonce) = (a, s')"
  shows "if admissible job (s (Job job)) now then a = handed s job nonce \<and> s' = taken_row s job now nonce
    else ad_status a \<in> {''not_due'', ''in_progress'', ''needs_attention''} \<and> s' = s"
proof (cases "admissible job (s (Job job)) now")
  case True
  then show ?thesis using assms(2) admission_cases [OF assms(1), of "s (Job job)" now nonce]
    by (simp add: write_row_def handed_def taken_row_def)
next
  case False
  obtain w x where x: "admit_from_snapshot job (s (Job job)) now nonce = (w, x)" by fastforce
  with False admission_cases [OF assms(1), of "s (Job job)" now nonce]
  have "w = None" "ad_status x \<in> {''not_due'', ''in_progress'', ''needs_attention''}" by (auto split: if_splits)
  then show ?thesis using False assms(2) x by (simp add: write_row_def)
qed

definition NOT_ADMITTED :: "string set" where
  "NOT_ADMITTED = {''not_due'', ''in_progress'', ''needs_attention'', ''cutover_pending'', ''cutover_blocked''}"

lemma body_cases:
  assumes job: "job \<in> set (map fst JOB_INTERVALS)" and b: "admission_body v g job nonce s = Inr (a, s')"
  obtains (taken) now where "server_now v = Inr now" "admissible job (s (Job job)) now"
      "\<And>h. g = Some h \<Longrightarrow> active (fields_of (s Cutover)) h now" "a = handed s job nonce" "s' = taken_row s job now nonce"
  | (left_alone) "ad_status a \<in> NOT_ADMITTED" "s' = s"
proof (cases g)
  case None
  with b obtain row now where r: "single_snapshot v s (Job job) = Inr row" "server_now v = Inr now"
    "write_row s job (admit_from_snapshot job row now nonce) = (a, s')"
    by (auto simp: admission_body_def ebind_eq_Inr)
  from single_reads [OF r(1)] write_row_cases [OF job] r(3)
  have "if admissible job (s (Job job)) now then a = handed s job nonce \<and> s' = taken_row s job now nonce
    else ad_status a \<in> {''not_due'', ''in_progress'', ''needs_attention''} \<and> s' = s" by blast
  with that None r(2) show thesis by (auto simp: NOT_ADMITTED_def split: if_splits)
next
  case (Some h)
  with b obtain snaps now where sn: "authoritative_batch_snapshots v s [Cutover, Job job] = Inr snaps"
    and now: "server_now v = Inr now"
    and c: "(if \<not> active (fields_of (hd snaps)) h now then
              (if pget (fields_of (hd snaps)) ''state'' = PStr ''external_requested'' \<and>
                      pget (fields_of (hd snaps)) ''generation'' = PStr h
                   then waiting ''cutover_pending'' else waiting ''cutover_blocked'', s)
            else write_row s job (admit_from_snapshot job (snaps ! 1) now nonce)) = (a, s')"
    by (auto simp: admission_body_def ebind_eq_Inr Let_def split: if_splits)
  show thesis
  proof (cases "active (fields_of (s Cutover)) h now")
    case True
    with c batch_reads [OF sn] have "write_row s job (admit_from_snapshot job (s (Job job)) now nonce) = (a, s')" by simp
    from write_row_cases [OF job this] that now Some True show thesis by (auto simp: NOT_ADMITTED_def split: if_splits)
  next
    case False
    with c batch_reads [OF sn] have "ad_status a \<in> NOT_ADMITTED" "s' = s"
      by (auto simp: NOT_ADMITTED_def waiting_def split: if_splits)
    then show thesis by (rule that(2))
  qed
qed

lemma admit_body: "fst (admit v g job nonce s) \<noteq> s \<or> (\<exists>a. snd (admit v g job nonce s) = Inr a) \<Longrightarrow>
    job \<in> set (map fst JOB_INTERVALS) \<and> (\<exists>a. admission_body v g job nonce s = Inr (a, fst (admit v g job nonce s)) \<and>
      (\<forall>b. snd (admit v g job nonce s) = Inr b \<longrightarrow> b = a))"
  unfolding admit_def
  by (cases "admission_body v g job nonce s"; cases "commits v"; auto split: if_splits)

text \<open>What an admission does to the store, and what it answers.\<close>

lemma admit_cases:
  obtains (taken) now where "server_now v = Inr now" "admissible job (s (Job job)) now" "job \<in> set (map fst JOB_INTERVALS)"
      "\<And>h. g = Some h \<Longrightarrow> active (fields_of (s Cutover)) h now" "fst (admit v g job nonce s) = taken_row s job now nonce"
      "\<And>a. snd (admit v g job nonce s) = Inr a \<Longrightarrow> a = handed s job nonce"
  | (left_alone) "fst (admit v g job nonce s) = s" "\<And>a. snd (admit v g job nonce s) = Inr a \<Longrightarrow> ad_status a \<in> NOT_ADMITTED"
proof (cases "fst (admit v g job nonce s) \<noteq> s \<or> (\<exists>a. snd (admit v g job nonce s) = Inr a)")
  case True
  from admit_body [OF this] obtain a where job: "job \<in> set (map fst JOB_INTERVALS)"
    and b: "admission_body v g job nonce s = Inr (a, fst (admit v g job nonce s))"
    and a: "\<And>b. snd (admit v g job nonce s) = Inr b \<Longrightarrow> b = a" by blast
  show thesis
  proof (cases rule: body_cases [OF job b])
    case (1 now)
    show thesis by (rule that(1) [OF 1(1,2) job 1(3,5)]) (use a 1(4) in auto)
  next
    case 2
    show thesis by (rule that(2) [OF 2(2)]) (use a 2(1) in blast)
  qed
next
  case False
  then show thesis using that(2) by blast
qed

definition draining :: "ledger \<Rightarrow> ledger" where
  "draining s = s(Cutover := Some ((fields_of (s Cutover))(''state'' \<mapsto> PStr ''external_draining'')))"

definition embedded_control :: pydict where
  "embedded_control = [''state'' \<mapsto> PStr ''embedded'', ''protocol_version'' \<mapsto> PInt CUTOVER_PROTOCOL_VERSION]"

lemma generation_PStr: "validate_cutover_generation v = Inr g \<Longrightarrow> v = PStr g"
  by (auto simp: validate_cutover_generation_def split: pyval.splits if_splits)

lemma prepare_writes:
  "fst (prepare_external v generation lease drained verified s) = t \<Longrightarrow> t = s \<or>
   (\<exists>g now n. generation = PStr g \<and> lease = PInt n \<and> CUTOVER_MIN_LEASE_SECONDS \<le> n \<and> drained = PBool True \<and> verified = PBool True \<and>
     server_now v = Inr now \<and> pget (fields_of (s Cutover)) ''state'' = PStr ''embedded'' \<and>
     t = s(Cutover := Some (requested_control g now n)))"
  unfolding prepare_external_def
  by (drule transact_to)
     (cases lease; auto simp: ebind_eq_Inr Let_def split: if_splits dest!: generation_PStr batch_reads)

lemma activate_writes:
  "fst (activate_external v generation s) = t \<Longrightarrow> t = s \<or>
   (\<exists>g now. generation = PStr g \<and> server_now v = Inr now \<and> prepared (fields_of (s Cutover)) g now \<and>
     t = s(Cutover := Some ((fields_of (s Cutover))(''state'' \<mapsto> PStr ''external_active'', ''api_acknowledged_at'' \<mapsto> now))))"
  unfolding activate_external_def
  by (drule transact_to)
     (auto simp: ebind_eq_Inr Let_def split: if_splits dest!: generation_PStr batch_reads)

lemma finish_writes:
  "fst (finish v job nonce completed c s) = t \<Longrightarrow> t = s \<or>
   (\<exists>d. s (Job job) = Some d \<and> pget d ''status'' = PStr ''running'' \<and> pget d ''nonce'' = PStr nonce \<and>
     t = s(Job job := Some
       (if completed then d(''status'' \<mapsto> PStr ''completed'', ''continuation'' \<mapsto> (if truthy c then c else PDict []))
        else d(''status'' \<mapsto> PStr ''needs_attention''))))"
  unfolding finish_def
  by (drule transact_to)
     (auto simp: ebind_eq_Inr Let_def split: if_splits dest!: single_reads [symmetric])

text \<open>\<open>held_jobs\<close> is empty exactly when every row is settled.\<close>

lemma none_held:
  "held_jobs (map (\<lambda>r. s r) job_refs) = [] \<longleftrightarrow> (\<forall>job \<in> set (map fst JOB_INTERVALS). settled_job_snapshot job (s (Job job)))"
proof -
  have "zip (map fst JOB_INTERVALS) (map s job_refs) = map (\<lambda>job. (job, s (Job job))) (map fst JOB_INTERVALS)"
    by (simp add: job_refs_def JOB_INTERVALS_def)
  then show ?thesis
    by (auto simp: held_jobs_def job_hold_reason_def split: option.splits if_splits)
qed

definition all_settled :: "ledger \<Rightarrow> bool" where
  "all_settled s = (\<forall>job \<in> set (map fst JOB_INTERVALS). settled_job_snapshot job (s (Job job)))"

definition begin_body :: "ledger \<Rightarrow> (bool \<times> (string \<times> string) list) \<times> ledger" where
  "begin_body s =
     (let state = pget (fields_of (s Cutover)) ''state''; held = held_jobs (map s job_refs) in
      if held \<noteq> [] then ((False, held), if s Cutover = None \<or> state \<noteq> PStr ''external_draining'' then draining s else s)
      else if state \<in> {PStr ''external_requested'', PStr ''external_active''} then ((False, []), draining s)
      else if state = PStr ''embedded'' \<and> equals_int (pget (fields_of (s Cutover)) ''protocol_version'') CUTOVER_PROTOCOL_VERSION
        then ((True, []), s)
      else ((True, []), s(Cutover := Some embedded_control)))"

lemma begin_form:
  "begin_embedded v s = transact (commits v) s
     (ebind (authoritative_batch_snapshots v s (Cutover # job_refs)) (\<lambda>snaps.
        if held_jobs (map s job_refs) = [] \<and> \<not> hashable (pget (fields_of (s Cutover)) ''state'') then Inl TypeError
        else Inr (begin_body s)))"
proof (cases "authoritative_batch_snapshots v s (Cutover # job_refs)")
  case (Inr snaps)
  then have "snaps = s Cutover # map s job_refs" using batch_reads by fastforce
  with Inr show ?thesis
    by (cases "s Cutover") (simp_all add: begin_embedded_def begin_body_def draining_def embedded_control_def Let_def)
qed (simp add: begin_embedded_def)

lemma begin_writes: "fst (begin_embedded v s) = t \<Longrightarrow> t = s \<or> t = snd (begin_body s)"
  unfolding begin_form by (drule transact_to) (auto simp: ebind_eq_Inr split: if_splits)

lemma begin_ready:
  assumes "begin_embedded v s = (s', Inr (True, held))"
  shows "all_settled s \<and> s' = snd (begin_body s) \<and> pget (fields_of (s' Cutover)) ''state'' = PStr ''embedded''"
proof -
  from assms have b: "begin_body s = ((True, held), s')"
    unfolding begin_form by (auto dest!: transact_answer simp: ebind_eq_Inr split: if_splits)
  then show ?thesis
    by (auto simp: begin_body_def Let_def all_settled_def none_held embedded_control_def split: if_splits)
qed

section \<open>Runs\<close>

datatype job_op =
    Prepare pyval pyval pyval pyval
  | Activate pyval
  | Begin_embedded
  | Admit "string option" string string
  | Finish string string bool pyval

type_synonym job_event = "environment \<times> job_op"

fun apply_op :: "ledger \<Rightarrow> job_event \<Rightarrow> ledger" where
  "apply_op s (v, Prepare g lease drained verified) = fst (prepare_external v g lease drained verified s)"
| "apply_op s (v, Activate g) = fst (activate_external v g s)"
| "apply_op s (v, Begin_embedded) = fst (begin_embedded v s)"
| "apply_op s (v, Admit g job nonce) = fst (admit v g job nonce s)"
| "apply_op s (v, Finish job nonce completed c) = fst (finish v job nonce completed c s)"

abbreviation run_ops :: "ledger \<Rightarrow> job_event list \<Rightarrow> ledger" where
  "run_ops \<equiv> foldl apply_op"

text \<open>A row that some worker has: the admission with this nonce has not been reported completed.\<close>

definition claimed :: "string \<times> string \<Rightarrow> ledger \<Rightarrow> bool" where
  "claimed = (\<lambda>(job, nonce) s. \<exists>d. s (Job job) = Some d \<and> pget d ''nonce'' = PStr nonce \<and>
     pget d ''status'' \<in> {PStr ''running'', PStr ''needs_attention''})"

definition completes :: "string \<times> string \<Rightarrow> job_event \<Rightarrow> bool" where
  "completes = (\<lambda>(job, nonce) (v, op). \<exists>c. op = Finish job nonce True c)"

lemma claimed_not_admissible: "claimed (job, nonce) s \<Longrightarrow> \<not> settled_job_snapshot job (s (Job job))"
  by (auto simp: claimed_def settled_job_snapshot_def)

lemma begin_rows: "fst (begin_embedded v s) (Job job) = s (Job job)"
  using begin_writes [of v s "fst (begin_embedded v s)"] by (auto simp: begin_body_def draining_def Let_def)

lemma prepare_rows: "fst (prepare_external v g l d r s) (Job job) = s (Job job)"
  using prepare_writes [of v g l d r s "fst (prepare_external v g l d r s)"] by auto

lemma activate_rows: "fst (activate_external v g s) (Job job) = s (Job job)"
  using activate_writes [of v g s "fst (activate_external v g s)"] by auto

lemmas other_rows = begin_rows prepare_rows activate_rows

interpretation claim: fence apply_op claimed completes
proof
  fix k :: "string \<times> string" and s :: ledger and e :: job_event
  assume k: "claimed k s" and e: "\<not> completes k e"
  obtain job nonce where jn: "k = (job, nonce)" by (cases k)
  obtain v op where vo: "e = (v, op)" by (cases e)
  show "claimed k (apply_op s e)"
  proof (cases op)
    case (Admit g job' nonce')
    then show ?thesis
      using k claimed_not_admissible [of job nonce s] 
      by (cases rule: admit_cases [where v = v and s = s and job = job' and g = g and nonce = nonce'])
         (auto simp: jn vo claimed_def admissible_def taken_row_def)
  next
    case (Finish job' nonce' completed c)
    then show ?thesis
      using k e finish_writes [OF refl, of v job' nonce' completed c s] by (auto simp: jn vo claimed_def completes_def split: if_splits)
  qed (use k in \<open>simp_all add: jn vo claimed_def other_rows\<close>)
qed

text \<open>A written admission, told from what it did to the row; the answer \<open>admitted\<close> tells of one.\<close>

lemma admission_written:
  assumes "fst (admit v g job nonce s) \<noteq> s \<or> (\<exists>a. snd (admit v g job nonce s) = Inr a \<and> ad_status a = ''admitted'')"
  shows "\<exists>now. server_now v = Inr now \<and> admissible job (s (Job job)) now \<and> job \<in> set (map fst JOB_INTERVALS) \<and>
    (\<forall>h. g = Some h \<longrightarrow> active (fields_of (s Cutover)) h now) \<and> fst (admit v g job nonce s) = taken_row s job now nonce"
proof (cases rule: admit_cases [where v = v and s = s and job = job and g = g and nonce = nonce])
  case (taken now)
  then show ?thesis by blast
next
  case left_alone
  with assms show ?thesis by (auto simp: NOT_ADMITTED_def)
qed

lemmas written = admission_written [OF disjI1] admission_written [OF disjI2]

lemma taken_claimed: "claimed (job, nonce) (taken_row s job now nonce)"
  by (simp add: claimed_def taken_row_def running_row_def)

section \<open>Slots\<close>

lemma interval_pos: "0 < interval_of job"
  by (simp add: interval_of_def JOB_INTERVALS_def)

lemma slot_after: "num now < of_int (next_slot job now)"
proof -
  have p: "(0::rat) < of_int (interval_of job)" using interval_pos by simp
  have "num now / of_int (interval_of job) < of_int (\<lfloor>num now / of_int (interval_of job)\<rfloor> + 1)" by linarith
  then show ?thesis using p by (simp add: next_slot_def pos_divide_less_eq)
qed

lemma slot_order: "of_int (next_slot job now) \<le> num now' \<Longrightarrow>
   \<lfloor>num now / of_int (interval_of job)\<rfloor> < \<lfloor>num now' / of_int (interval_of job)\<rfloor>"
proof -
  assume a: "of_int (next_slot job now) \<le> num now'"
  have p: "(0::rat) < of_int (interval_of job)" using interval_pos by simp
  have "of_int (\<lfloor>num now / of_int (interval_of job)\<rfloor> + 1) * of_int (interval_of job) \<le> num now'"
    using a by (simp add: next_slot_def)
  then have "of_int (\<lfloor>num now / of_int (interval_of job)\<rfloor> + 1) \<le> num now' / of_int (interval_of job)"
    by (simp only: pos_le_divide_eq [OF p])
  then have "\<lfloor>num now / of_int (interval_of job)\<rfloor> + 1 \<le> \<lfloor>num now' / of_int (interval_of job)\<rfloor>" by (simp only: le_floor_iff)
  then show ?thesis by simp
qed

definition slot_used :: "string \<times> int \<Rightarrow> ledger \<Rightarrow> bool" where
  "slot_used = (\<lambda>(job, slot) s. \<exists>d i. s (Job job) = Some d \<and> pget d ''next_due_at'' = PInt i \<and> slot \<le> i)"

lemma slot_due:
  assumes "slot_used (job, slot) s" "admissible job (s (Job job)) now"
  shows "of_int slot \<le> num now"
proof -
  from assms(1) obtain d i where d: "s (Job job) = Some d" "pget d ''next_due_at'' = PInt i" "slot \<le> i"
    by (auto simp: slot_used_def)
  with assms(2) have "of_int i \<le> num now"
    by (auto simp: admissible_def settled_job_snapshot_def due_of_def split: if_splits)
  with d(3) show ?thesis by (meson of_int_le_iff order_trans)
qed

interpretation slots: fence apply_op slot_used "\<lambda>k e. False"
proof
  fix k :: "string \<times> int" and s :: ledger and e :: job_event
  assume k: "slot_used k s"
  obtain job slot where js: "k = (job, slot)" by (cases k)
  obtain v op where vo: "e = (v, op)" by (cases e)
  show "slot_used k (apply_op s e)"
  proof (cases op)
    case (Admit g job' nonce')
    show ?thesis
    proof (cases rule: admit_cases [where v = v and s = s and job = job' and g = g and nonce = nonce'])
      case (taken now)
      have "slot \<le> next_slot job now" if "job' = job"
        using slot_due [of job slot s now] slot_after [of now job] k taken(2) that by (auto simp: js)
      then show ?thesis using k taken Admit by (auto simp: js vo slot_used_def taken_row_def running_row_def)
    next
      case left_alone
      then show ?thesis using k left_alone Admit by (simp add: vo)
    qed
  next
    case (Finish job' nonce' completed c)
    then show ?thesis
      using k finish_writes [OF refl, of v job' nonce' completed c s] by (auto simp: js vo slot_used_def)
  qed (use k in \<open>simp_all add: js vo slot_used_def other_rows\<close>)
qed

section \<open>The control document\<close>

definition serving :: "string \<Rightarrow> ledger \<Rightarrow> bool" where
  "serving g s = (pget (fields_of (s Cutover)) ''state'' = PStr ''external_active'' \<and>
     pget (fields_of (s Cutover)) ''generation'' = PStr g)"

definition asked :: "string \<Rightarrow> ledger \<Rightarrow> bool" where
  "asked g s = (pget (fields_of (s Cutover)) ''state'' = PStr ''external_requested'' \<and>
     pget (fields_of (s Cutover)) ''generation'' = PStr g)"

definition activates :: "string \<Rightarrow> job_event \<Rightarrow> bool" where
  "activates g e = (snd e = Activate (PStr g))"

definition prepares :: "string \<Rightarrow> job_event \<Rightarrow> bool" where
  "prepares g e = (\<exists>n. snd e = Prepare (PStr g) (PInt n) (PBool True) (PBool True))"

lemma admit_control: "fst (admit v g job nonce s) Cutover = s Cutover"
  by (cases rule: admit_cases [where v = v and s = s and job = job and g = g and nonce = nonce]) (auto simp: taken_row_def)

lemma finish_control: "fst (finish v job nonce completed c s) Cutover = s Cutover"
  using finish_writes [OF refl, of v job nonce completed c s] by auto

interpretation service: fence apply_op "\<lambda>g s. \<not> serving g s" activates
proof
  fix g :: string and s :: ledger and e :: job_event
  assume k: "\<not> serving g s" "\<not> activates g e"
  obtain v op where vo: "e = (v, op)" by (cases e)
  show "\<not> serving g (apply_op s e)"
  proof (cases op)
    case (Prepare g' l d r)
    then show ?thesis using k prepare_writes [OF refl, of v g' l d r s] by (auto simp: vo serving_def requested_control_def)
  next
    case (Activate g')
    then show ?thesis using k activate_writes [OF refl, of v g' s] by (auto simp: vo serving_def activates_def prepared_def)
  next
    case Begin_embedded
    then show ?thesis using k begin_writes [OF refl, of v s]
      by (auto simp: vo serving_def begin_body_def draining_def embedded_control_def Let_def split: if_splits)
  qed (use k in \<open>simp_all add: vo serving_def admit_control finish_control\<close>)
qed

interpretation request: fence apply_op "\<lambda>g s. \<not> asked g s" prepares
proof
  fix g :: string and s :: ledger and e :: job_event
  assume k: "\<not> asked g s" "\<not> prepares g e"
  obtain v op where vo: "e = (v, op)" by (cases e)
  show "\<not> asked g (apply_op s e)"
  proof (cases op)
    case (Prepare g' l d r)
    then show ?thesis using k prepare_writes [OF refl, of v g' l d r s] by (auto simp: vo asked_def prepares_def requested_control_def)
  next
    case (Activate g')
    then show ?thesis using k activate_writes [OF refl, of v g' s] by (auto simp: vo asked_def)
  next
    case Begin_embedded
    then show ?thesis using k begin_writes [OF refl, of v s]
      by (auto simp: vo asked_def begin_body_def draining_def embedded_control_def Let_def split: if_splits)
  qed (use k in \<open>simp_all add: vo asked_def admit_control finish_control\<close>)
qed

section \<open>Completed rows\<close>

definition finished :: "string \<times> pyval \<Rightarrow> ledger \<Rightarrow> bool" where
  "finished = (\<lambda>(job, c) s. \<exists>d. s (Job job) = Some d \<and> pget d ''status'' = PStr ''completed'' \<and> d ''continuation'' = Some c)"

definition admits :: "string \<times> pyval \<Rightarrow> job_event \<Rightarrow> bool" where
  "admits = (\<lambda>(job, c) (v, op). \<exists>g nonce. op = Admit g job nonce)"

interpretation completion: fence apply_op finished admits
proof
  fix k :: "string \<times> pyval" and s :: ledger and e :: job_event
  assume k: "finished k s" and e: "\<not> admits k e"
  obtain job c where jc: "k = (job, c)" by (cases k)
  obtain v op where vo: "e = (v, op)" by (cases e)
  show "finished k (apply_op s e)"
  proof (cases op)
    case (Admit g job' nonce')
    then show ?thesis
      using k e by (cases rule: admit_cases [where v = v and s = s and job = job' and g = g and nonce = nonce'])
        (auto simp: jc vo finished_def admits_def taken_row_def)
  next
    case (Finish job' nonce' completed c')
    then show ?thesis
      using k finish_writes [OF refl, of v job' nonce' completed c' s] by (auto simp: jc vo finished_def)
  qed (use k in \<open>simp_all add: jc vo finished_def other_rows\<close>)
qed

section \<open>Properties\<close>

text \<open>
  C3: Once an admission has been written, whether its worker heard of it or not, the job is not admitted again in any
  sequence of operations of the workers and of the hand-over, with any outcome of their commits, until a \<open>finish\<close> with
  its nonce reports it completed; a failed or abandoned run is never replayed.
\<close>

theorem admitted_work_is_not_repeated:
  assumes "fst (admit v g job nonce s) \<noteq> s"
    and "\<forall>e \<in> set es. \<not> completes (job, nonce) e"
    and "s' = run_ops s ((v, Admit g job nonce) # es)"
  shows "fst (admit v' g' job nonce' s') = s' \<and> (\<forall>a. snd (admit v' g' job nonce' s') = Inr a \<longrightarrow> ad_status a \<noteq> ''admitted'')"
proof (rule ccontr)
  assume c: "\<not> ?thesis"
  obtain now where "fst (admit v g job nonce s) = taken_row s job now nonce"
    using written(1) [OF assms(1)] by blast
  with claim.run_kept [OF taken_claimed assms(2)] have k: "claimed (job, nonce) s'" by (simp add: assms(3))
  from c have "fst (admit v' g' job nonce' s') \<noteq> s' \<or> (\<exists>a. snd (admit v' g' job nonce' s') = Inr a \<and> ad_status a = ''admitted'')"
    by blast
  from admission_written [OF this] obtain now' where "admissible job (s' (Job job)) now'" by blast
  with claimed_not_admissible [OF k] show False by (simp add: admissible_def)
qed

text \<open>
  C16: \<open>begin_embedded\<close> answers True only when every admission written before
  has been completed with its nonce; after it has, an external worker is admitted only when its generation has since
  been prepared with both confirmations and activated, in this order.
\<close>

theorem handover_is_exclusive:
  assumes "begin_embedded v s = (s', Inr (True, held))"
  shows "(fst (admit v0 g0 job nonce s0) \<noteq> s0 \<and> s = run_ops s0 ((v0, Admit g0 job nonce) # es) \<longrightarrow>
      (\<exists>e \<in> set es. completes (job, nonce) e)) \<and>
    (snd (admit v1 (Some g) job1 nonce1 (run_ops s' fs)) = Inr a \<and> ad_status a = ''admitted'' \<longrightarrow>
      (\<exists>xs p ys q zs. fs = xs @ p # ys @ q # zs \<and> prepares g p \<and> activates g q))"
proof (intro conjI impI)
  assume a: "fst (admit v0 g0 job nonce s0) \<noteq> s0 \<and> s = run_ops s0 ((v0, Admit g0 job nonce) # es)"
  then obtain now where r: "job \<in> set (map fst JOB_INTERVALS)" "fst (admit v0 g0 job nonce s0) = taken_row s0 job now nonce"
    using written(1) by blast
  show "\<exists>e \<in> set es. completes (job, nonce) e"
  proof (rule ccontr)
    assume "\<not> ?thesis"
    with claim.run_kept [OF taken_claimed] a r(2) have "claimed (job, nonce) s" by simp
    with claimed_not_admissible begin_ready [OF assms] r(1) show False by (auto simp: all_settled_def)
  qed
next
  assume a: "snd (admit v1 (Some g) job1 nonce1 (run_ops s' fs)) = Inr a \<and> ad_status a = ''admitted''"
  then obtain now where "active (fields_of (run_ops s' fs Cutover)) g now" using written(2) by blast
  then have on: "serving g (run_ops s' fs)" by (simp add: active_def serving_def)
  have off: "\<not> serving g s'" "\<not> asked g s'" using begin_ready [OF assms] by (auto simp: serving_def asked_def)
  from service.first_break [OF off(1)] on obtain xs q zs where q: "fs = xs @ q # zs" "activates g q"
    "serving g (apply_op (run_ops s' xs) q)" "\<not> serving g (run_ops s' xs)" by blast
  obtain v2 where "q = (v2, Activate (PStr g))" using q(2) by (cases q) (auto simp: activates_def)
  with q(3,4) activate_writes [OF refl, of v2 "PStr g" "run_ops s' xs"] have "asked g (run_ops s' xs)"
    by (auto simp: asked_def prepared_def)
  with request.first_break [OF off(2)] obtain us p ys where "xs = us @ p # ys" "prepares g p" by blast
  with q(1,2) show "\<exists>xs p ys q zs. fs = xs @ p # ys @ q # zs \<and> prepares g p \<and> activates g q" by fastforce
qed

text \<open>
  The continuation a worker reports with its completed run is the one the job's next admission hands out, whatever
  operations on other jobs, on the hand-over and by late workers lie between.
\<close>

theorem finished_cursor_is_handed_on:
  assumes "finish v job nonce True c s = (s', Inr True)"
    and "\<forall>(v1, op) \<in> set es. \<forall>g1 nonce1. op \<noteq> Admit g1 job nonce1"
    and "snd (admit v' g job nonce' (run_ops s' es)) = Inr a" "ad_status a = ''admitted''"
  shows "ad_continuation a = Some (if truthy c then c else PDict [])"
proof -
  from assms(1) obtain d where d: "s' (Job job) = Some d" "pget d ''status'' = PStr ''completed''"
    "d ''continuation'' = Some (if truthy c then c else PDict [])"
    unfolding finish_def by (auto dest!: transact_answer simp: ebind_eq_Inr Let_def split: if_splits)
  then have "finished (job, if truthy c then c else PDict []) s'" by (simp add: finished_def)
  from completion.run_kept [OF this] assms(2)
  have f: "finished (job, if truthy c then c else PDict []) (run_ops s' es)" by (fastforce simp: admits_def)
  have "a = handed (run_ops s' es) job nonce'"
    using assms(3,4)
    by (cases rule: admit_cases [where v = v' and s = "run_ops s' es" and job = job and g = g and nonce = nonce'])
       (auto simp: NOT_ADMITTED_def)
  with f show ?thesis by (auto simp: handed_def finished_def continuation_of_def pget_or_def)
qed

text \<open>
  A job is admitted at most once in each of its intervals: of two written admissions, by any workers and with any
  operations between them, the later one lies in a later interval of the server's time.
\<close>

theorem one_admission_per_slot:
  assumes "fst (admit v g job nonce s) \<noteq> s" and "s' = run_ops s ((v, Admit g job nonce) # es)"
    and "fst (admit v' g' job nonce' s') \<noteq> s'"
  shows "\<lfloor>num (clock v) / of_int (interval_of job)\<rfloor> < \<lfloor>num (clock v') / of_int (interval_of job)\<rfloor>"
proof -
  from written(1) [OF assms(1)] obtain now where t: "server_now v = Inr now"
    "fst (admit v g job nonce s) = taken_row s job now nonce" by blast
  have "slot_used (job, next_slot job now) (taken_row s job now nonce)"
    by (simp add: slot_used_def taken_row_def running_row_def)
  from slots.run_kept [OF this, of es] t(2) have u: "slot_used (job, next_slot job now) s'" by (simp add: assms(2))
  from written(1) [OF assms(3)] obtain now' where t': "server_now v' = Inr now'" "admissible job (s' (Job job)) now'" by blast
  from slot_order [OF slot_due [OF u t'(2)]] t(1) t'(1) show ?thesis by (simp add: server_now_def split: option.splits)
qed

text \<open>
  The ledger row that the fallback to embedded workers takes for settled is the row that an admission accepts: at
  every time it answers \<open>admitted\<close> or \<open>not_due\<close> and at some time \<open>admitted\<close>. Every other row is one that no admission
  accepts at any time.
\<close>

theorem settled_is_admissible:
  assumes "job \<in> set (map fst JOB_INTERVALS)"
  shows "(settled_job_snapshot job row \<longleftrightarrow> (\<exists>now. ad_status (snd (admit_from_snapshot job row now nonce)) = ''admitted'')) \<and>
    (settled_job_snapshot job row \<longleftrightarrow>
      (\<forall>now. ad_status (snd (admit_from_snapshot job row now nonce)) \<in> {''admitted'', ''not_due''}))"
proof -
  note c = admission_cases [OF assms, of row _ nonce]
  have yes: "admissible job row now \<Longrightarrow> ad_status (snd (admit_from_snapshot job row now nonce)) = ''admitted''" for now
    using c [of now] by (cases "admit_from_snapshot job row now nonce") auto
  have no: "\<not> admissible job row now \<Longrightarrow> ad_status (snd (admit_from_snapshot job row now nonce)) \<in>
      (if settled_job_snapshot job row then {''not_due''} else {''in_progress'', ''needs_attention''})" for now
    using c [of now] by blast
  have "\<exists>now. admissible job row now" if s: "settled_job_snapshot job row"
  proof (cases row)
    case (Some d)
    with s obtain due where "due_of d = Some due" by (auto simp: settled_job_snapshot_def split: if_splits)
    with s Some have "admissible job row (PFloat (Fin due))" by (simp add: admissible_def)
    then show ?thesis ..
  qed (use s in \<open>simp add: admissible_def\<close>)
  then have some: "settled_job_snapshot job row \<Longrightarrow> \<exists>now. ad_status (snd (admit_from_snapshot job row now nonce)) = ''admitted''"
    using yes by blast
  have good: "settled_job_snapshot job row \<Longrightarrow> ad_status (snd (admit_from_snapshot job row now nonce)) \<in> {''admitted'', ''not_due''}"
    for now using yes [of now] no [of now] by (cases "admissible job row now") auto
  have bad: "\<not> settled_job_snapshot job row \<Longrightarrow> ad_status (snd (admit_from_snapshot job row now nonce)) \<notin> {''admitted'', ''not_due''}"
    for now using no [of now] by (auto simp: admissible_def)
  show ?thesis using some good bad by (cases "settled_job_snapshot job row") blast+
qed

definition served :: "environment \<Rightarrow> bool" where
  "served v = (commits v = Applied \<and> distinct (arrivals v) \<and> set (arrivals v) = set (Cutover # job_refs))"

lemma begin_served:
  assumes "served v" "all_settled s" "hashable (pget (fields_of (s Cutover)) ''state'')"
  shows "begin_embedded v s = (snd (begin_body s), Inr (fst (begin_body s)))"
proof -
  have "distinct (Cutover # job_refs)" by (auto simp: job_refs_def JOB_INTERVALS_def)
  then have "authoritative_batch_snapshots v s (Cutover # job_refs) = Inr (map s (Cutover # job_refs))"
    using assms(1) by (intro batch_served) (auto simp: served_def)
  then show ?thesis using assms by (cases "begin_body s") (simp add: begin_form served_def)
qed

lemma begin_settled:
  "all_settled s \<Longrightarrow> begin_body s =
     (let state = pget (fields_of (s Cutover)) ''state'' in
      if state \<in> {PStr ''external_requested'', PStr ''external_active''} then ((False, []), draining s)
      else if state = PStr ''embedded'' \<and> equals_int (pget (fields_of (s Cutover)) ''protocol_version'') CUTOVER_PROTOCOL_VERSION
        then ((True, []), s)
      else ((True, []), s(Cutover := Some embedded_control)))"
  using none_held [of s] by (simp add: begin_body_def all_settled_def Let_def)

text \<open>
  When every job's row is settled, two turns of \<open>begin_embedded\<close> whose reads and commits succeed hand the work to
  the embedded loops, whatever state the control document is in.
\<close>

theorem drained_handover_completes:
  assumes "all_settled s" "hashable (pget (fields_of (s Cutover)) ''state'')" "served v" "served v'"
  shows "snd (begin_embedded v' (fst (begin_embedded v s))) = Inr (True, [])"
proof -
  let ?s = "snd (begin_body s)"
  have f: "fst (begin_embedded v s) = ?s" by (simp add: begin_served [OF assms(3,1,2)])
  have a: "all_settled ?s" using assms(1) begin_rows [of v s] by (simp add: all_settled_def f)
  have st: "pget (fields_of (?s Cutover)) ''state'' = PStr ''external_draining'' \<or>
      pget (fields_of (?s Cutover)) ''state'' = PStr ''embedded'' \<and>
      equals_int (pget (fields_of (?s Cutover)) ''protocol_version'') CUTOVER_PROTOCOL_VERSION"
    using begin_settled [OF assms(1)] by (auto simp: Let_def draining_def embedded_control_def)
  then have "hashable (pget (fields_of (?s Cutover)) ''state'')" by (auto simp: hashable_def)
  from begin_served [OF assms(4) a this] begin_settled [OF a] st show ?thesis by (auto simp: f Let_def)
qed

section \<open>Examples\<close>

definition sample_env :: "doc_ref list \<Rightarrow> int \<Rightarrow> environment" where
  "sample_env refs t = \<lparr>arrivals = refs, clock = PInt t, commits = Applied\<rparr>"

abbreviation estimates_env :: "int \<Rightarrow> environment" where
  "estimates_env \<equiv> sample_env [Job ''estimates'']"

lemma sample_served: "served (sample_env (Cutover # job_refs) t)"
  by (simp add: served_def sample_env_def job_refs_def JOB_INTERVALS_def)

lemma sample_job: "''estimates'' \<in> set (map fst JOB_INTERVALS)"
  by (simp add: JOB_INTERVALS_def)

lemma sample_body: "admission_body (estimates_env t) None ''estimates'' nonce s =
    Inr (write_row s ''estimates'' (admit_from_snapshot ''estimates'' (s (Job ''estimates'')) (PInt t) nonce))"
  by (simp add: admission_body_def single_snapshot_def get_all_def sample_env_def server_now_def)

lemma sample_admit:
  assumes "admissible ''estimates'' (s (Job ''estimates'')) (PInt t)"
  shows "fst (admit (estimates_env t) None ''estimates'' nonce s) = taken_row s ''estimates'' (PInt t) nonce"
proof (cases "write_row s ''estimates'' (admit_from_snapshot ''estimates'' (s (Job ''estimates'')) (PInt t) nonce)")
  case (Pair a s')
  with write_row_cases [OF sample_job Pair] assms have "s' = taken_row s ''estimates'' (PInt t) nonce" by simp
  with Pair show ?thesis using sample_job by (simp add: admit_def sample_body) (simp add: sample_env_def)
qed

lemma sample_answer:
  assumes "admissible ''estimates'' (s (Job ''estimates'')) (PInt t)"
  obtains a where "snd (admit (estimates_env t) None ''estimates'' nonce s) = Inr a" "ad_status a = ''admitted''"
proof (cases "write_row s ''estimates'' (admit_from_snapshot ''estimates'' (s (Job ''estimates'')) (PInt t) nonce)")
  case (Pair a s')
  with write_row_cases [OF sample_job Pair] assms have "ad_status a = ''admitted''" by (simp add: handed_def)
  moreover have "snd (admit (estimates_env t) None ''estimates'' nonce s) = Inr a"
    using Pair sample_job by (simp add: admit_def sample_body) (simp add: sample_env_def)
  ultimately show thesis by (rule that [rotated])
qed

text \<open>The ledger is new; an admission, its completion ten seconds later.\<close>

definition new_ledger :: ledger where
  "new_ledger = (\<lambda>r. None)"

lemma sample_first:
  "fst (admit (estimates_env t) None ''estimates'' nonce new_ledger) = taken_row new_ledger ''estimates'' (PInt t) nonce"
  by (rule sample_admit) (simp add: admissible_def settled_job_snapshot_def new_ledger_def)

lemma sample_changes: "taken_row new_ledger job now nonce \<noteq> new_ledger"
  by (auto simp: taken_row_def new_ledger_def fun_eq_iff)

theorem admitted_work_is_not_repeated_witness:
  "fst (admit (estimates_env 5000) None ''estimates'' ''n2''
     (fst (admit (estimates_env 1000) None ''estimates'' ''n1'' new_ledger))) =
   fst (admit (estimates_env 1000) None ''estimates'' ''n1'' new_ledger)"
  using admitted_work_is_not_repeated [of "estimates_env 1000" None "''estimates''" "''n1''" new_ledger "[]"]
  by (simp add: sample_first sample_changes)

lemma sample_settled: "all_settled new_ledger"
  by (simp add: all_settled_def settled_job_snapshot_def new_ledger_def)

lemma sample_begin: "\<exists>s'. begin_embedded (sample_env (Cutover # job_refs) t) new_ledger = (s', Inr (True, []))"
proof -
  have "hashable (pget (fields_of (new_ledger Cutover)) ''state'')" by (simp add: new_ledger_def hashable_def)
  from begin_served [OF sample_served sample_settled this] begin_settled [OF sample_settled]
  show ?thesis by (simp add: new_ledger_def)
qed

theorem handover_is_exclusive_witness:
  "\<exists>s'. begin_embedded (sample_env (Cutover # job_refs) 1000) new_ledger = (s', Inr (True, [])) \<and>
     (case snd (admit (sample_env [Job ''estimates'', Cutover] 1001) (Some ''generation-000001'') ''estimates'' ''n1'' s') of
        Inl e \<Rightarrow> True | Inr a \<Rightarrow> ad_status a \<noteq> ''admitted'')"
proof -
  obtain s' where b: "begin_embedded (sample_env (Cutover # job_refs) 1000) new_ledger = (s', Inr (True, []))"
    using sample_begin by blast
  have "ad_status a \<noteq> ''admitted''"
    if "snd (admit (sample_env [Job ''estimates'', Cutover] 1001) (Some ''generation-000001'') ''estimates'' ''n1'' s') = Inr a" for a
    using handover_is_exclusive [OF b, of undefined None "''estimates''" "''n1''" new_ledger "[]"
        "sample_env [Job ''estimates'', Cutover] 1001" "''generation-000001''" "''estimates''" "''n1''" "[]" a] that
    by auto
  with b show ?thesis by (auto split: sum.splits)
qed

lemma sample_finished:
  "run_ops new_ledger [(estimates_env 1000, Admit None ''estimates'' ''n1''),
     (estimates_env 1010, Finish ''estimates'' ''n1'' True PNone)] =
   new_ledger(Job ''estimates'' := Some ((running_row ''estimates'' (PInt 1000) ''n1'' (PDict []))
     (''status'' \<mapsto> PStr ''completed'', ''continuation'' \<mapsto> PDict [])))"
proof -
  have "''estimates'' \<in> fst ` set JOB_INTERVALS" using sample_job by simp
  then show ?thesis
    by (simp add: sample_first) (simp add: finish_def single_snapshot_def get_all_def sample_env_def server_now_def taken_row_def
        running_row_def continuation_of_def new_ledger_def Let_def)
qed

lemma sample_slot: "next_slot ''estimates'' (PInt 1000) = 1020"
proof -
  have "\<lfloor>num (PInt 1000) / of_int (interval_of ''estimates'')\<rfloor> = 16"
    by (rule floor_unique) (simp_all add: interval_of_def JOB_INTERVALS_def)
  then show ?thesis by (simp only: next_slot_def) (simp add: interval_of_def JOB_INTERVALS_def)
qed

theorem one_admission_per_slot_witness:
  "\<lfloor>num (clock (estimates_env 1000)) / of_int (interval_of ''estimates'')\<rfloor> <
   \<lfloor>num (clock (estimates_env 1080)) / of_int (interval_of ''estimates'')\<rfloor>"
proof -
  let ?s = "run_ops new_ledger [(estimates_env 1000, Admit None ''estimates'' ''n1''),
     (estimates_env 1010, Finish ''estimates'' ''n1'' True PNone)]"
  have "admissible ''estimates'' (?s (Job ''estimates'')) (PInt 1080)"
    using empty_continuation [OF sample_job]
    by (simp only: sample_finished)
       (simp add: admissible_def settled_job_snapshot_def due_of_def running_row_def sample_slot continuation_of_def)
  then have "fst (admit (estimates_env 1080) None ''estimates'' ''n2'' ?s) = taken_row ?s ''estimates'' (PInt 1080) ''n2''"
    by (rule sample_admit)
  then have "fst (admit (estimates_env 1080) None ''estimates'' ''n2'' ?s) \<noteq> ?s"
    by (simp only: sample_finished) (auto simp: taken_row_def running_row_def fun_eq_iff)
  moreover have "fst (admit (estimates_env 1000) None ''estimates'' ''n1'' new_ledger) \<noteq> new_ledger"
    by (simp only: sample_first) (rule sample_changes)
  ultimately show ?thesis
    using one_admission_per_slot [of "estimates_env 1000" None "''estimates''" "''n1''" new_ledger ?s] by blast
qed

theorem settled_is_admissible_witness:
  "\<exists>now. ad_status (snd (admit_from_snapshot ''estimates'' None now ''n1'')) = ''admitted''"
  using settled_is_admissible [OF sample_job, of None "''n1''"] by (simp add: settled_job_snapshot_def)

theorem drained_handover_completes_witness:
  "snd (begin_embedded (sample_env (Cutover # job_refs) 1001) (fst (begin_embedded (sample_env (Cutover # job_refs) 1000)
     (new_ledger(Cutover := Some [''state'' \<mapsto> PStr ''external_active'']))))) = Inr (True, [])"
  by (rule drained_handover_completes [OF _ _ sample_served sample_served])
     (simp_all add: all_settled_def settled_job_snapshot_def new_ledger_def hashable_def)

lemma sample_finish:
  "finish (estimates_env 1010) ''estimates'' ''n1'' True (PDict [(''processing'', PStr ''e-7'')])
     (taken_row new_ledger ''estimates'' (PInt 1000) ''n1'') =
   (new_ledger(Job ''estimates'' := Some ((running_row ''estimates'' (PInt 1000) ''n1'' (PDict []))
     (''status'' \<mapsto> PStr ''completed'', ''continuation'' \<mapsto> PDict [(''processing'', PStr ''e-7'')]))), Inr True)"
proof -
  have "''estimates'' \<in> fst ` set JOB_INTERVALS" using sample_job by simp
  then show ?thesis
    by (simp add: finish_def single_snapshot_def get_all_def sample_env_def server_now_def taken_row_def
        running_row_def continuation_of_def new_ledger_def Let_def)
qed

theorem finished_cursor_is_handed_on_witness:
  "\<exists>a. snd (admit (estimates_env 1080) None ''estimates'' ''n2'' (fst (finish (estimates_env 1010) ''estimates'' ''n1'' True
       (PDict [(''processing'', PStr ''e-7'')]) (taken_row new_ledger ''estimates'' (PInt 1000) ''n1'')))) = Inr a \<and>
     ad_continuation a = Some (PDict [(''processing'', PStr ''e-7'')])"
proof -
  let ?s = "new_ledger(Job ''estimates'' := Some ((running_row ''estimates'' (PInt 1000) ''n1'' (PDict []))
     (''status'' \<mapsto> PStr ''completed'', ''continuation'' \<mapsto> PDict [(''processing'', PStr ''e-7'')])))"
  have "validate_continuation ''estimates'' (PDict [(''processing'', PStr ''e-7'')]) = Inr (PDict [(''processing'', PStr ''e-7'')])"
    using sample_job by (simp add: validate_continuation_def allowed_keys_def cursor_def MAX_CONTINUATION_BYTES_def dumps_def
        ascii_string_def ascii_char_def json_char_def Let_def)
  then have "admissible ''estimates'' (?s (Job ''estimates'')) (PInt 1080)"
    by (simp add: admissible_def settled_job_snapshot_def due_of_def running_row_def sample_slot continuation_of_def)
  then obtain a where a: "snd (admit (estimates_env 1080) None ''estimates'' ''n2'' ?s) = Inr a" "ad_status a = ''admitted''"
    by (rule sample_answer)
  from finished_cursor_is_handed_on [OF sample_finish, of "[]" "estimates_env 1080" None "''n2''" a] a
  show ?thesis by (simp add: sample_finish)
qed

end
