(* ===== verification/Post_Call.thy ===== *)
theory Post_Call
  imports Firestore
begin

text \<open>
  The outbox of post-call work, app/db/post_call_handoffs.py: one document per call, its transitions, the transactions
  that run them, and the summary shown to operators. Times are the results of \<open>time.time()\<close>, given to each operation; a
  stored datetime is represented by its timestamp. The listing queries are not modelled.
\<close>

section \<open>Texts\<close>

definition safe_char :: "char \<Rightarrow> bool" where
  "safe_char c = (let n = (of_char c :: nat) in 48 \<le> n \<and> n \<le> 58 \<or> 65 \<le> n \<and> n \<le> 90 \<or> 97 \<le> n \<and> n \<le> 122 \<or>
     c \<in> set ''_.-'')"

text \<open>Every longest run of other characters becomes one underscore; the flag says that such a run has begun.\<close>

fun squash :: "bool \<Rightarrow> string \<Rightarrow> string" where
  "squash run [] = []"
| "squash run (c # cs) =
     (if safe_char c then c # squash False cs else if run then squash True cs else CHR ''_'' # squash True cs)"

definition trim :: "char set \<Rightarrow> string \<Rightarrow> string" where
  "trim cs s = rev (dropWhile (\<lambda>c. c \<in> cs) (rev (dropWhile (\<lambda>c. c \<in> cs) s)))"

definition bounded_string :: "(pyval \<Rightarrow> string) \<Rightarrow> pyval \<Rightarrow> string" where
  "bounded_string repr v = trim (set ''_.:-'') (squash False (take 128 (str_or_empty repr v)))"

section \<open>Statuses and codes\<close>

definition RETENTION_SECONDS :: rat where
  "RETENTION_SECONDS = 90 * 86400"

definition DEFAULT_LEASE_SECONDS :: int where
  "DEFAULT_LEASE_SECONDS = 180"

definition TERMINAL_STATUSES :: "string list" where
  "TERMINAL_STATUSES = [''completed'', ''needs_attention'', ''acknowledged'']"

definition VALID_HANDOFF_STATUSES :: "string list" where
  "VALID_HANDOFF_STATUSES = [''pending'', ''in_progress''] @ TERMINAL_STATUSES"

definition ACKNOWLEDGEMENT_RESOLUTIONS :: "string list" where
  "ACKNOWLEDGEMENT_RESOLUTIONS =
     [''verified_complete'', ''customer_contacted_manually'', ''no_action_required'', ''false_alarm'']"

definition SAFE_EFFECTS :: "string list" where
  "SAFE_EFFECTS = [''call_record'', ''caller_auto_reply'', ''caller_confirmation'', ''caller_contact'', ''caller_vcard'',
     ''job_record'', ''jobber_lead'', ''owner_sms'', ''processing'', ''summary_push'']"

definition SAFE_FAILURE_CODES :: "string list" where
  "SAFE_FAILURE_CODES = ['''', ''call_end_unconfirmed'', ''contractor_mismatch'', ''enqueue_failed'',
     ''handoff_finish_failed'', ''invalid_reclaim'', ''lease_expired_uncertain'', ''partial_delivery'',
     ''processing_cancelled'', ''processing_error'', ''processing_failed'', ''processing_timeout'', ''uncertain'']"

section \<open>The summary\<close>

definition safe_timestamp :: "pyval \<Rightarrow> pyfloat option" where
  "safe_timestamp v = (if is_pybool v then None else py_number v)"

definition safe_effects :: "pyval \<Rightarrow> string list" where
  "safe_effects v = (case v of
       PList xs \<Rightarrow> sort (remdups (concat (map (\<lambda>x. case x of PStr s \<Rightarrow> if s \<in> set SAFE_EFFECTS then [s] else [] | _ \<Rightarrow> []) xs)))
     | _ \<Rightarrow> [])"

definition one_of :: "string list \<Rightarrow> string \<Rightarrow> pyval \<Rightarrow> string" where
  "one_of allowed other v = (case v of PStr s \<Rightarrow> if s \<in> set allowed then s else other | _ \<Rightarrow> other)"

record handoff_summary =
  hs_call_sid :: string
  hs_contractor :: string
  hs_status :: string
  hs_failure :: string
  hs_attempts :: int
  hs_created :: "pyfloat option"
  hs_started :: "pyfloat option"
  hs_finished :: "pyfloat option"
  hs_acknowledged :: "pyfloat option"
  hs_resolution :: string
  hs_completed_effects :: "string list"
  hs_failed_effects :: "string list"

definition safe_handoff_summary :: "(pyval \<Rightarrow> string) \<Rightarrow> string \<Rightarrow> pydict \<Rightarrow> handoff_summary" where
  "safe_handoff_summary repr sid d =
     \<lparr>hs_call_sid = bounded_string repr (PStr sid), hs_contractor = bounded_string repr (pget d ''contractor_id''),
      hs_status = one_of VALID_HANDOFF_STATUSES ''unknown'' (pget d ''status''),
      hs_failure = one_of SAFE_FAILURE_CODES ''unknown'' (pget_or d ''failure_code'' (PStr '''')),
      hs_attempts = (case pget_or d ''attempts'' (PInt 0) of PInt i \<Rightarrow> if 0 \<le> i then i else 0 | _ \<Rightarrow> 0),
      hs_created = safe_timestamp (pget d ''created_at''), hs_started = safe_timestamp (pget d ''started_at''),
      hs_finished = safe_timestamp (pget d ''finished_at''), hs_acknowledged = safe_timestamp (pget d ''acknowledged_at''),
      hs_resolution = one_of ACKNOWLEDGEMENT_RESOLUTIONS '''' (pget_or d ''resolution'' (PStr '''')),
      hs_completed_effects = safe_effects (pget d ''completed_effects''),
      hs_failed_effects = safe_effects (pget d ''failed_effects'')\<rparr>"

section \<open>Transitions\<close>

text \<open>A transition answers and says what to write; an empty update is \<open>None\<close>.\<close>

type_synonym handoff_change = "bool \<times> pydict option"

definition stamp_of :: "rat \<Rightarrow> pyval" where
  "stamp_of now = PFloat (Fin now)"

definition attempts_of :: "pyval \<Rightarrow> int" where
  "attempts_of v = (case v of PInt i \<Rightarrow> if i < 0 then 0 else i | PBool b \<Rightarrow> if b then 1 else 0 | _ \<Rightarrow> 0)"

definition claim_transition :: "pydict \<Rightarrow> rat \<Rightarrow> int \<Rightarrow> handoff_change" where
  "claim_transition d now lease = (case pget d ''status'' of
       PStr status \<Rightarrow>
         if status \<in> set TERMINAL_STATUSES then (False, None)
         else if status = ''in_progress'' then
           (case py_number (pget d ''lease_expires_at'') of
              Some f \<Rightarrow> if fleq f (Fin now) then (False, Some [''status'' \<mapsto> PStr ''needs_attention'', ''finished_at'' \<mapsto> stamp_of now,
                  ''lease_expires_at'' \<mapsto> PInt 0, ''failure_code'' \<mapsto> PStr ''lease_expired_uncertain''])
                else (False, None)
            | None \<Rightarrow> (False, Some [''status'' \<mapsto> PStr ''needs_attention'', ''finished_at'' \<mapsto> stamp_of now,
                  ''lease_expires_at'' \<mapsto> PInt 0, ''failure_code'' \<mapsto> PStr ''lease_expired_uncertain'']))
         else if status \<noteq> ''pending'' then (False, None)
         else (True, Some [''status'' \<mapsto> PStr ''in_progress'', ''attempts'' \<mapsto> PInt (attempts_of (pget_or d ''attempts'' (PInt 0)) + 1),
           ''started_at'' \<mapsto> stamp_of now, ''lease_expires_at'' \<mapsto> stamp_of (now + of_int lease)])
     | _ \<Rightarrow> (False, None))"

record processed =
  pr_status :: string
  pr_completed :: "string list"
  pr_failed :: "string list"

definition terminal_outcome :: "string \<Rightarrow> string \<times> string" where
  "terminal_outcome status =
     (if status = ''complete'' then (''completed'', '''') else if status = ''partial'' then (''needs_attention'', ''partial_delivery'')
      else (''needs_attention'', ''processing_failed''))"

definition retention_deadline :: "rat \<Rightarrow> pyval" where
  "retention_deadline now = stamp_of (now + RETENTION_SECONDS)"

definition finish_updates :: "processed \<Rightarrow> rat \<Rightarrow> pydict" where
  "finish_updates r now =
     (let (status, failure) = terminal_outcome (pr_status r);
          u = [''status'' \<mapsto> PStr status, ''finished_at'' \<mapsto> stamp_of now, ''lease_expires_at'' \<mapsto> PInt 0,
               ''failure_code'' \<mapsto> PStr failure, ''completed_effects'' \<mapsto> PList (map PStr (pr_completed r)),
               ''failed_effects'' \<mapsto> PList (map PStr (pr_failed r))] in
      if status = ''completed'' then u(''expires_at'' \<mapsto> retention_deadline now) else u)"

definition finish_transition :: "pydict \<Rightarrow> pydict \<Rightarrow> handoff_change" where
  "finish_transition d u = (case pget d ''status'' of
       PStr status \<Rightarrow>
         if PStr status = pget u ''status'' \<and> status \<in> set TERMINAL_STATUSES then (True, None)
         else if status \<in> set TERMINAL_STATUSES \<or> status \<noteq> ''in_progress'' then (False, None)
         else (True, Some u)
     | _ \<Rightarrow> (False, None))"

definition attention_transition :: "pydict \<Rightarrow> pydict \<Rightarrow> handoff_change" where
  "attention_transition d u = (case pget d ''status'' of
       PStr status \<Rightarrow>
         if status = ''needs_attention'' then (True, None)
         else if status = ''completed'' then (False, None)
         else if status \<notin> set [''pending'', ''in_progress''] then (False, None)
         else (True, Some u)
     | _ \<Rightarrow> (False, None))"

definition acknowledge_transition :: "pydict \<Rightarrow> string \<Rightarrow> rat \<Rightarrow> handoff_change" where
  "acknowledge_transition d resolution now =
     (if resolution \<notin> set ACKNOWLEDGEMENT_RESOLUTIONS then (False, None)
      else if pget d ''status'' \<noteq> PStr ''needs_attention'' then (False, None)
      else (True, Some [''status'' \<mapsto> PStr ''acknowledged'', ''resolution'' \<mapsto> PStr resolution,
        ''acknowledged_at'' \<mapsto> stamp_of now, ''expires_at'' \<mapsto> retention_deadline now]))"

definition attention_updates :: "rat \<Rightarrow> string \<Rightarrow> pydict" where
  "attention_updates now failure =
     [''status'' \<mapsto> PStr ''needs_attention'', ''finished_at'' \<mapsto> stamp_of now, ''lease_expires_at'' \<mapsto> PInt 0,
      ''failure_code'' \<mapsto> PStr failure]"

section \<open>Operations\<close>

type_synonym handoffs = "string \<Rightarrow> document"

text \<open>The transaction that all operations on an existing document share.\<close>

definition change_txn :: "commit \<Rightarrow> string \<Rightarrow> (pydict \<Rightarrow> handoff_change) \<Rightarrow> handoffs \<Rightarrow> handoffs \<times> (store_error + bool)" where
  "change_txn c sid f s = transact c s (case s sid of
       None \<Rightarrow> Inr (False, s)
     | Some d \<Rightarrow> Inr (fst (f d), case snd (f d) of None \<Rightarrow> s | Some u \<Rightarrow> s(sid := Some (d ++ u))))"

text \<open>\<open>except Exception: ... return False\<close>.\<close>

definition or_false :: "handoffs \<times> (store_error + bool) \<Rightarrow> handoffs \<times> bool" where
  "or_false = (\<lambda>(s, r). (s, case r of Inl e \<Rightarrow> False | Inr b \<Rightarrow> b))"

definition enqueue_handoff :: "commit \<Rightarrow> rat \<Rightarrow> string \<Rightarrow> string \<Rightarrow> string \<Rightarrow> handoffs \<Rightarrow> handoffs \<times> bool" where
  "enqueue_handoff c now sid contractor language s =
     (if sid = [] then (s, False)
      else or_false (transact c s (case s sid of
          Some d \<Rightarrow> Inr (True, s)
        | None \<Rightarrow> Inr (True, s(sid := Some [''call_sid'' \<mapsto> PStr sid, ''contractor_id'' \<mapsto> PStr contractor,
            ''caller_language'' \<mapsto> PStr (if language = [] then ''en'' else language), ''status'' \<mapsto> PStr ''pending'',
            ''attempts'' \<mapsto> PInt 0, ''created_at'' \<mapsto> stamp_of now])))))"

definition claim_handoff :: "commit \<Rightarrow> rat \<Rightarrow> int \<Rightarrow> string \<Rightarrow> handoffs \<Rightarrow> handoffs \<times> (store_error + bool)" where
  "claim_handoff c now lease sid = change_txn c sid (\<lambda>d. claim_transition d now lease)"

definition finish_handoff :: "commit \<Rightarrow> rat \<Rightarrow> string \<Rightarrow> processed \<Rightarrow> handoffs \<Rightarrow> handoffs \<times> bool" where
  "finish_handoff c now sid r s = or_false (change_txn c sid (\<lambda>d. finish_transition d (finish_updates r now)) s)"

definition mark_needs_attention :: "commit \<Rightarrow> rat \<Rightarrow> string \<Rightarrow> string \<Rightarrow> handoffs \<Rightarrow> handoffs \<times> bool" where
  "mark_needs_attention c now sid failure s =
     or_false (change_txn c sid (\<lambda>d. attention_transition d (attention_updates now failure)) s)"

text \<open>A day or less since the document was created.\<close>

definition created_within_a_day :: "pydict \<Rightarrow> rat \<Rightarrow> bool" where
  "created_within_a_day d now = (case finite_number (pget d ''created_at'') of None \<Rightarrow> False | Some t \<Rightarrow> now - t \<le> 86400)"

definition TERMINAL_CALL_STATUSES :: "string list" where
  "TERMINAL_CALL_STATUSES = [''completed'', ''busy'', ''no-answer'', ''canceled'', ''failed'']"

definition contractor_of :: "(pyval \<Rightarrow> string) \<Rightarrow> pydict \<Rightarrow> string" where
  "contractor_of repr d = py_strip (str_or_empty repr (pget d ''contractor_id''))"

definition call_status_of :: "(pyval \<Rightarrow> string) \<Rightarrow> pydict \<Rightarrow> string" where
  "call_status_of repr d = map lower_char (py_strip (str_or_empty repr (pget d ''call_status'')))"

text \<open>The decision inside the transaction, on the handoff and the call's document.\<close>

definition quarantine_transition :: "(pyval \<Rightarrow> string) \<Rightarrow> string \<Rightarrow> document \<Rightarrow> rat \<Rightarrow> pydict \<Rightarrow> handoff_change" where
  "quarantine_transition repr failure call now d =
     (if pget d ''status'' \<noteq> PStr ''pending'' then (False, None)
      else if failure = ''call_end_unconfirmed'' \<and>
        (created_within_a_day d now \<or>
         (case call of None \<Rightarrow> False | Some k \<Rightarrow>
            call_status_of repr k \<in> set TERMINAL_CALL_STATUSES \<and> contractor_of repr d \<noteq> [] \<and> contractor_of repr k \<noteq> [] \<and>
            contractor_of repr d = contractor_of repr k)) then (False, None)
      else if failure = ''contractor_mismatch'' \<and>
        (case call of None \<Rightarrow> True | Some k \<Rightarrow>
            contractor_of repr d = [] \<or> contractor_of repr k = [] \<or> contractor_of repr d = contractor_of repr k)
        then (False, None)
      else (True, Some (attention_updates now failure)))"

definition quarantine_pending_handoff ::
    "(pyval \<Rightarrow> string) \<Rightarrow> commit \<Rightarrow> rat \<Rightarrow> string \<Rightarrow> string \<Rightarrow> document \<Rightarrow> handoffs \<Rightarrow> handoffs \<times> bool" where
  "quarantine_pending_handoff repr c now sid failure call s =
     (if failure \<notin> set [''call_end_unconfirmed'', ''contractor_mismatch''] then (s, False)
      else or_false (change_txn c sid (quarantine_transition repr failure call now) s))"

definition acknowledge_handoff :: "commit \<Rightarrow> rat \<Rightarrow> string \<Rightarrow> string \<Rightarrow> handoffs \<Rightarrow> handoffs \<times> bool" where
  "acknowledge_handoff c now sid resolution s =
     (if resolution \<notin> set ACKNOWLEDGEMENT_RESOLUTIONS then (s, False)
      else or_false (change_txn c sid (\<lambda>d. acknowledge_transition d resolution now) s))"

section \<open>The life of a handoff\<close>

text \<open>
  The abstract machine: a handoff waits, is being processed, and ends completed or before an operator, who can only
  acknowledge it.
\<close>

datatype life = Absent | Pending | In_progress | Completed | Needs_attention | Acknowledged

fun life_value :: "life \<Rightarrow> string" where
  "life_value Pending = ''pending''"
| "life_value In_progress = ''in_progress''"
| "life_value Completed = ''completed''"
| "life_value Needs_attention = ''needs_attention''"
| "life_value Acknowledged = ''acknowledged''"
| "life_value Absent = ''''"

definition lives :: "document \<Rightarrow> life \<Rightarrow> bool" where
  "lives s l = (case s of None \<Rightarrow> l = Absent | Some d \<Rightarrow> l \<noteq> Absent \<and> pget d ''status'' = PStr (life_value l))"

datatype handoff_op =
    Enqueue string string
  | Claim int
  | Finished processed
  | Attention string
  | Quarantine string document
  | Acknowledge string

text \<open>The step that an operation may take.\<close>

fun life_step :: "handoff_op \<Rightarrow> life \<Rightarrow> life \<Rightarrow> bool" where
  "life_step (Enqueue k l) a b = (a = Absent \<and> b = Pending)"
| "life_step (Claim n) a b = (a = Pending \<and> b = In_progress \<or> a = In_progress \<and> b = Needs_attention)"
| "life_step (Finished r) a b =
     (a = In_progress \<and> b = (if pr_status r = ''complete'' then Completed else Needs_attention))"
| "life_step (Attention f) a b = (a \<in> {Pending, In_progress} \<and> b = Needs_attention)"
| "life_step (Quarantine f k) a b = (a = Pending \<and> b = Needs_attention)"
| "life_step (Acknowledge r) a b = (a = Needs_attention \<and> b = Acknowledged \<and> r \<in> set ACKNOWLEDGEMENT_RESOLUTIONS)"

text \<open>What the caller of the operation is told, \<open>None\<close> for an exception.\<close>

fun perform :: "(pyval \<Rightarrow> string) \<Rightarrow> commit \<Rightarrow> rat \<Rightarrow> string \<Rightarrow> handoff_op \<Rightarrow> handoffs \<Rightarrow> handoffs \<times> bool option" where
  "perform repr c now sid (Enqueue k l) s = map_prod id Some (enqueue_handoff c now sid k l s)"
| "perform repr c now sid (Claim n) s =
     map_prod id (\<lambda>r. case r of Inl e \<Rightarrow> None | Inr b \<Rightarrow> Some b) (claim_handoff c now n sid s)"
| "perform repr c now sid (Finished r) s = map_prod id Some (finish_handoff c now sid r s)"
| "perform repr c now sid (Attention f) s = map_prod id Some (mark_needs_attention c now sid f s)"
| "perform repr c now sid (Quarantine f k) s = map_prod id Some (quarantine_pending_handoff repr c now sid f k s)"
| "perform repr c now sid (Acknowledge r) s = map_prod id Some (acknowledge_handoff c now sid r s)"

lemma transition_writes:
  "fst (change_txn c sid f s) = t \<Longrightarrow>
   t = s \<or> (\<exists>d u. s sid = Some d \<and> snd (f d) = Some u \<and> t = s(sid := Some (d ++ u)))"
  unfolding change_txn_def by (drule transact_to) (auto split: option.splits)

lemma fst_or_false [simp]: "fst (or_false p) = fst p"
  by (cases p) (simp add: or_false_def)

section \<open>The operations follow the abstract machine\<close>

lemma lives_Some: "s = Some d \<Longrightarrow> lives s l \<longleftrightarrow> l \<noteq> Absent \<and> pget d ''status'' = PStr (life_value l)"
  by (simp add: lives_def)

lemma pget_add: "pget (d ++ u) k = (if u k = None then pget d k else pget u k)"
  by (simp add: pget_def map_add_def split: option.splits)

lemmas transition_defs = claim_transition_def finish_transition_def attention_transition_def quarantine_transition_def
  acknowledge_transition_def finish_updates_def attention_updates_def terminal_outcome_def

text \<open>What each transition writes.\<close>

lemma claim_life:
  "snd (claim_transition d now n) = Some u \<Longrightarrow> pget d ''status'' = PStr (life_value a) \<Longrightarrow>
   \<exists>b. life_step (Claim n) a b \<and> lives (Some (d ++ u)) b"
  by (cases a) (auto simp: claim_transition_def lives_def pget_add TERMINAL_STATUSES_def split: option.splits if_splits)

lemma finish_life:
  "snd (finish_transition d (finish_updates r now)) = Some u \<Longrightarrow> pget d ''status'' = PStr (life_value a) \<Longrightarrow>
   \<exists>b. life_step (Finished r) a b \<and> lives (Some (d ++ u)) b"
  by (cases a) (auto simp: finish_transition_def finish_updates_def terminal_outcome_def Let_def lives_def pget_add
      TERMINAL_STATUSES_def split: if_splits)

lemma attention_life:
  "snd (attention_transition d (attention_updates now f)) = Some u \<Longrightarrow> pget d ''status'' = PStr (life_value a) \<Longrightarrow>
   \<exists>b. life_step (Attention f) a b \<and> lives (Some (d ++ u)) b"
  by (cases a) (auto simp: attention_transition_def attention_updates_def lives_def pget_add split: if_splits)

lemma quarantine_life:
  "snd (quarantine_transition repr f k now d) = Some u \<Longrightarrow> pget d ''status'' = PStr (life_value a) \<Longrightarrow>
   \<exists>b. life_step (Quarantine f k) a b \<and> lives (Some (d ++ u)) b"
  by (cases a) (auto simp: quarantine_transition_def attention_updates_def lives_def pget_add split: if_splits)

lemma acknowledge_life:
  "snd (acknowledge_transition d r now) = Some u \<Longrightarrow> pget d ''status'' = PStr (life_value a) \<Longrightarrow>
   \<exists>b. life_step (Acknowledge r) a b \<and> lives (Some (d ++ u)) b"
  by (cases a) (auto simp: acknowledge_transition_def lives_def pget_add split: if_splits)

text \<open>An operation leaves the store alone or writes one document, as its transition says or as a new one.\<close>

fun transition_of :: "(pyval \<Rightarrow> string) \<Rightarrow> rat \<Rightarrow> handoff_op \<Rightarrow> pydict \<Rightarrow> handoff_change" where
  "transition_of repr now (Enqueue k l) d = (True, None)"
| "transition_of repr now (Claim n) d = claim_transition d now n"
| "transition_of repr now (Finished r) d = finish_transition d (finish_updates r now)"
| "transition_of repr now (Attention f) d = attention_transition d (attention_updates now f)"
| "transition_of repr now (Quarantine f k) d = quarantine_transition repr f k now d"
| "transition_of repr now (Acknowledge r) d = acknowledge_transition d r now"

lemma enqueue_writes:
  assumes "fst (enqueue_handoff c now sid k l s) = t"
  shows "t = s \<or> (s sid = None \<and> (\<exists>d. pget d ''status'' = PStr ''pending'' \<and> t = s(sid := Some d)))"
proof (cases "sid = []")
  case False
  let ?d = "[''call_sid'' \<mapsto> PStr sid, ''contractor_id'' \<mapsto> PStr k,
            ''caller_language'' \<mapsto> PStr (if l = [] then ''en'' else l), ''status'' \<mapsto> PStr ''pending'',
            ''attempts'' \<mapsto> PInt 0, ''created_at'' \<mapsto> stamp_of now]"
  have p: "pget ?d ''status'' = PStr ''pending''" by simp
  from False assms have "fst (transact c s (case s sid of Some d \<Rightarrow> Inr (True, s) | None \<Rightarrow> Inr (True, s(sid := Some ?d)))) = t"
    by (simp add: enqueue_handoff_def)
  from transact_to [OF this] have "t = s \<or> s sid = None \<and> t = s(sid := Some ?d)" by (auto split: option.splits)
  with p show ?thesis by blast
qed (use assms in \<open>simp add: enqueue_handoff_def\<close>)

lemma perform_writes:
  assumes "perform repr c now sid op s = (s', r)"
  shows "s' = s \<or> (\<exists>d u. s sid = Some d \<and> snd (transition_of repr now op d) = Some u \<and> s' = s(sid := Some (d ++ u))) \<or>
    (\<exists>k l d. op = Enqueue k l \<and> s sid = None \<and> pget d ''status'' = PStr ''pending'' \<and> s' = s(sid := Some d))"
proof (cases op)
  case (Enqueue k l)
  with assms enqueue_writes [OF refl, of c now sid k l s] show ?thesis
    by (cases "enqueue_handoff c now sid k l s") auto
next
  case (Claim n)
  with assms transition_writes [OF refl, of c sid "\<lambda>d. claim_transition d now n" s] show ?thesis
    by (cases "claim_handoff c now n sid s") (auto simp: claim_handoff_def)
next
  case (Finished q)
  with assms transition_writes [OF refl, of c sid "\<lambda>d. finish_transition d (finish_updates q now)" s] show ?thesis
    by (cases "finish_handoff c now sid q s") (auto simp: finish_handoff_def dest: arg_cong [where f = fst])
next
  case (Attention f)
  with assms transition_writes [OF refl, of c sid "\<lambda>d. attention_transition d (attention_updates now f)" s] show ?thesis
    by (cases "mark_needs_attention c now sid f s") (auto simp: mark_needs_attention_def dest: arg_cong [where f = fst])
next
  case (Quarantine f k)
  with assms transition_writes [OF refl, of c sid "quarantine_transition repr f k now" s] show ?thesis
    by (cases "quarantine_pending_handoff repr c now sid f k s")
       (auto simp: quarantine_pending_handoff_def dest: arg_cong [where f = fst] split: if_splits)
next
  case (Acknowledge q)
  with assms transition_writes [OF refl, of c sid "\<lambda>d. acknowledge_transition d q now" s] show ?thesis
    by (cases "acknowledge_handoff c now sid q s")
       (auto simp: acknowledge_handoff_def dest: arg_cong [where f = fst] split: if_splits)
qed

lemma transition_life:
  "snd (transition_of repr now op d) = Some u \<Longrightarrow> pget d ''status'' = PStr (life_value a) \<Longrightarrow>
   \<exists>b. life_step op a b \<and> lives (Some (d ++ u)) b"
  by (cases op) (simp_all add: claim_life finish_life attention_life quarantine_life acknowledge_life del: life_step.simps)

text \<open>
  C26: Every operation on the outbox refines the abstract life of a handoff: on a handoff in some state of it, the
  operation leaves everything as it was, or moves this handoff alone, along a step that the abstract machine has for the
  operation; also when the commit fails or its answer is lost.
\<close>

theorem handoffs_refine_life:
  assumes "lives (s sid) a" and "perform repr c now sid op s = (s', r)"
  shows "s' = s \<or> (\<exists>b. life_step op a b \<and> lives (s' sid) b \<and> (\<forall>other. other \<noteq> sid \<longrightarrow> s' other = s other))"
  using perform_writes [OF assms(2)]
proof (elim disjE exE conjE)
  fix d u
  assume w: "s sid = Some d" "snd (transition_of repr now op d) = Some u" "s' = s(sid := Some (d ++ u))"
  with assms(1) have "pget d ''status'' = PStr (life_value a)" by (simp add: lives_def)
  from transition_life [OF w(2) this] w(3) show ?thesis by auto
next
  fix k l d
  assume "op = Enqueue k l" "s sid = None" "pget d ''status'' = PStr ''pending''" "s' = s(sid := Some d)"
  with assms(1) show ?thesis by (auto simp: lives_def intro!: exI [of _ Pending])
qed simp

section \<open>Runs\<close>

record handoff_event =
  he_commit :: commit
  he_now :: rat
  he_sid :: string
  he_op :: handoff_op

definition run_event :: "(pyval \<Rightarrow> string) \<Rightarrow> handoffs \<Rightarrow> handoff_event \<Rightarrow> handoffs" where
  "run_event repr s e = fst (perform repr (he_commit e) (he_now e) (he_sid e) (he_op e) s)"

lemma run_event_writes:
  "run_event repr s e = s \<or>
   (\<exists>d u. s (he_sid e) = Some d \<and> snd (transition_of repr (he_now e) (he_op e) d) = Some u \<and>
     run_event repr s e = s(he_sid e := Some (d ++ u))) \<or>
   (\<exists>k l d. he_op e = Enqueue k l \<and> s (he_sid e) = None \<and> pget d ''status'' = PStr ''pending'' \<and>
     run_event repr s e = s(he_sid e := Some d))"
  using perform_writes [OF prod.collapse [symmetric], of repr "he_commit e" "he_now e" "he_sid e" "he_op e" s]
  unfolding run_event_def .

text \<open>A final document: completed or acknowledged, or waiting for an operator.\<close>

definition final_doc :: "string \<times> pydict \<Rightarrow> handoffs \<Rightarrow> bool" where
  "final_doc = (\<lambda>(sid, d) s. s sid = Some d \<and>
     pget d ''status'' \<in> {PStr ''completed'', PStr ''acknowledged'', PStr ''needs_attention''})"

definition acknowledges :: "string \<times> pydict \<Rightarrow> handoff_event \<Rightarrow> bool" where
  "acknowledges = (\<lambda>(sid, d) e. he_sid e = sid \<and> pget d ''status'' = PStr ''needs_attention'' \<and>
     (\<exists>r \<in> set ACKNOWLEDGEMENT_RESOLUTIONS. he_op e = Acknowledge r))"

lemma final_transition:
  assumes "pget d ''status'' \<in> {PStr ''completed'', PStr ''acknowledged'', PStr ''needs_attention''}"
    and "snd (transition_of repr now op d) = Some u"
  shows "pget d ''status'' = PStr ''needs_attention'' \<and> (\<exists>r \<in> set ACKNOWLEDGEMENT_RESOLUTIONS. op = Acknowledge r)"
  using assms
  by (cases op) (auto simp: transition_defs TERMINAL_STATUSES_def Let_def split: if_splits)

interpretation final_docs: fence "run_event repr" final_doc acknowledges for repr
proof
  fix k :: "string \<times> pydict" and s :: handoffs and e :: handoff_event
  assume k: "final_doc k s" and e: "\<not> acknowledges k e"
  obtain sid d where kd: "k = (sid, d)" by (cases k)
  show "final_doc k (run_event repr s e)"
    using run_event_writes [of repr s e]
  proof (elim disjE exE conjE)
    fix d' u
    assume w: "s (he_sid e) = Some d'" "snd (transition_of repr (he_now e) (he_op e) d') = Some u"
      "run_event repr s e = s(he_sid e := Some (d' ++ u))"
    show ?thesis
    proof (cases "he_sid e = sid")
      case True
      with w k final_transition [OF _ w(2)] e show ?thesis by (auto simp: kd final_doc_def acknowledges_def)
    qed (use w k in \<open>simp add: kd final_doc_def\<close>)
  qed (use k in \<open>auto simp: kd final_doc_def\<close>)
qed

text \<open>
  A result is final. Whatever operations follow, in any order and with any outcome of their commits, a completed or
  acknowledged handoff is never written again, and one that needs attention is written by an acknowledgement with one of
  the four resolutions only.
\<close>

theorem handoff_results_are_final:
  assumes "s sid = Some d" "pget d ''status'' \<in> {PStr ''completed'', PStr ''acknowledged'', PStr ''needs_attention''}"
    and "pget d ''status'' = PStr ''needs_attention'' \<longrightarrow>
      (\<forall>e \<in> set es. he_sid e = sid \<longrightarrow> he_op e \<notin> Acknowledge ` set ACKNOWLEDGEMENT_RESOLUTIONS)"
  shows "foldl (run_event repr) s es sid = Some d"
proof -
  have "final_doc (sid, d) s" using assms(1,2) by (simp add: final_doc_def)
  moreover have "\<forall>e \<in> set es. \<not> acknowledges (sid, d) e" using assms(3) by (auto simp: acknowledges_def)
  ultimately have "final_doc (sid, d) (foldl (run_event repr) s es)" by (rule final_docs.run_kept)
  then show ?thesis by (simp add: final_doc_def)
qed

section \<open>The summary shows no free text\<close>

lemma squash_safe: "set (squash run s) \<subseteq> {c. safe_char c} \<union> {CHR ''_''}"
  by (induction run s rule: squash.induct) auto

lemma squash_length: "length (squash run s) \<le> length s"
  by (induction run s rule: squash.induct) auto

lemma trim_set: "set (trim cs s) \<subseteq> set s"
  by (auto simp: trim_def dest!: set_dropWhileD)

lemma trim_length: "length (trim cs s) \<le> length s"
  unfolding trim_def by (metis length_dropWhile_le length_rev order_trans)

definition identifier_text :: "string \<Rightarrow> bool" where
  "identifier_text s = (length s \<le> 128 \<and> list_all safe_char s)"

lemma bounded_string_safe: "identifier_text (bounded_string repr v)"
proof -
  have "safe_char (CHR ''_'')" by (simp add: safe_char_def)
  then have "set (bounded_string repr v) \<subseteq> {c. safe_char c}"
    using trim_set [of "set ''_.:-''" "squash False (take 128 (str_or_empty repr v))"]
      squash_safe [of False "take 128 (str_or_empty repr v)"]
    unfolding bounded_string_def by auto
  moreover have "length (bounded_string repr v) \<le> 128"
    using trim_length [of "set ''_.:-''" "squash False (take 128 (str_or_empty repr v))"]
      squash_length [of False "take 128 (str_or_empty repr v)"]
    unfolding bounded_string_def by auto
  ultimately show ?thesis by (auto simp: identifier_text_def list_all_iff)
qed

lemma one_of_in: "one_of allowed other v \<in> insert other (set allowed)"
  by (simp add: one_of_def split: pyval.splits)

lemma safe_effects_ok:
  "sorted (safe_effects v) \<and> distinct (safe_effects v) \<and> set (safe_effects v) \<subseteq> set SAFE_EFFECTS"
  by (cases v) (auto simp: safe_effects_def split: pyval.splits if_splits)

text \<open>
  The summary of a handoff shows operators no text of a caller, whatever the stored document holds: the two
  identifiers have at most 128 characters of a closed set, the codes and effects come from their closed lists, the effects in
  order and once each, and the count of attempts is not negative.
\<close>

theorem handoff_summary_is_safe:
  "identifier_text (hs_call_sid (safe_handoff_summary repr sid d)) \<and>
   identifier_text (hs_contractor (safe_handoff_summary repr sid d)) \<and>
   hs_status (safe_handoff_summary repr sid d) \<in> insert ''unknown'' (set VALID_HANDOFF_STATUSES) \<and>
   hs_failure (safe_handoff_summary repr sid d) \<in> insert ''unknown'' (set SAFE_FAILURE_CODES) \<and>
   hs_resolution (safe_handoff_summary repr sid d) \<in> insert '''' (set ACKNOWLEDGEMENT_RESOLUTIONS) \<and>
   0 \<le> hs_attempts (safe_handoff_summary repr sid d) \<and>
   sorted (hs_completed_effects (safe_handoff_summary repr sid d)) \<and>
   distinct (hs_completed_effects (safe_handoff_summary repr sid d)) \<and>
   set (hs_completed_effects (safe_handoff_summary repr sid d)) \<subseteq> set SAFE_EFFECTS \<and>
   sorted (hs_failed_effects (safe_handoff_summary repr sid d)) \<and>
   distinct (hs_failed_effects (safe_handoff_summary repr sid d)) \<and>
   set (hs_failed_effects (safe_handoff_summary repr sid d)) \<subseteq> set SAFE_EFFECTS"
  unfolding safe_handoff_summary_def
  using safe_effects_ok
  by (simp add: bounded_string_safe one_of_in del: insert_iff split: pyval.splits)

section \<open>Examples\<close>

definition sample_outbox :: handoffs where
  "sample_outbox = (\<lambda>sid. if sid = ''CA1'' then Some [''status'' \<mapsto> PStr ''pending''] else None)"

definition no_repr :: "pyval \<Rightarrow> string" where
  "no_repr v = []"

lemma sample_claim:
  "perform no_repr Applied 0 ''CA1'' (Claim 180) sample_outbox =
   (sample_outbox(''CA1'' := Some ([''status'' \<mapsto> PStr ''pending''] ++ [''status'' \<mapsto> PStr ''in_progress'',
      ''attempts'' \<mapsto> PInt 1, ''started_at'' \<mapsto> stamp_of 0, ''lease_expires_at'' \<mapsto> stamp_of 180])), Some True)"
  by (simp add: claim_handoff_def change_txn_def sample_outbox_def claim_transition_def TERMINAL_STATUSES_def attempts_of_def
      pget_or_def)

theorem handoffs_refine_life_witness:
  "\<exists>b. life_step (Claim 180) Pending b \<and>
     lives (fst (perform no_repr Applied 0 ''CA1'' (Claim 180) sample_outbox) ''CA1'') b"
proof -
  have "lives (sample_outbox ''CA1'') Pending" by (simp add: lives_def sample_outbox_def)
  moreover have "fst (perform no_repr Applied 0 ''CA1'' (Claim 180) sample_outbox) \<noteq> sample_outbox"
    unfolding sample_claim by (auto simp: sample_outbox_def fun_eq_iff map_add_def dest!: spec [of _ "''CA1''"])
  ultimately show ?thesis
    using handoffs_refine_life [OF _ prod.collapse [symmetric], of sample_outbox "''CA1''" Pending no_repr Applied 0 "Claim 180"]
    by blast
qed

theorem handoff_results_are_final_witness:
  "foldl (run_event no_repr) (\<lambda>sid. Some [''status'' \<mapsto> PStr ''completed''])
     [\<lparr>he_commit = Applied, he_now = 0, he_sid = ''CA1'', he_op = Attention ''uncertain''\<rparr>] ''CA1'' =
   Some [''status'' \<mapsto> PStr ''completed'']"
  by (rule handoff_results_are_final) simp_all

end
