(* ===== verification/Post_Call_Run.thy ===== *)
theory Post_Call_Run
  imports Post_Call
begin

text \<open>
  The execution of post-call work, \<open>enqueue_and_run_post_call\<close> and \<open>run_post_call_handoff\<close> of
  app/services/post_call_handoff.py, as one step per awaited operation (the reads of \<open>_hydrate_handoff\<close> are one), so that any number of runs, on any instances, interleave. A step performs its operation on the
  outbox with the given outcome of the commit and then goes on, or stops because the run has been cancelled meanwhile (an
  operation in the executor is not stopped by that). What \<open>process_post_call\<close> does is outside: it returns a result,
  raises or exceeds its time. Logging is not modelled.
\<close>

section \<open>The decision before the claim\<close>

record inline_args =
  ia_lines :: "string list option"
  ia_caller :: string
  ia_owner :: string
  ia_number :: string
  ia_contractor :: "pydict option"
  ia_language :: string

datatype run_choice = Answer string | Quarantine_for string string | Claim_it

definition inline_contractor :: "(pyval \<Rightarrow> string) \<Rightarrow> inline_args \<Rightarrow> string" where
  "inline_contractor repr a = (case ia_contractor a of None \<Rightarrow> [] | Some k \<Rightarrow> contractor_of repr k)"

text \<open>The second text of \<open>Quarantine_for\<close> is the answer when the handoff has not been quarantined.\<close>

definition decide_run :: "(pyval \<Rightarrow> string) \<Rightarrow> rat \<Rightarrow> inline_args \<Rightarrow> pydict \<Rightarrow> document \<Rightarrow> run_choice" where
  "decide_run repr now a handoff call =
     (let unconfirmed = (if created_within_a_day handoff now then Answer ''pending''
            else Quarantine_for ''call_end_unconfirmed'' ''pending'') in
      case call of
        None \<Rightarrow> unconfirmed
      | Some k \<Rightarrow>
          let h = contractor_of repr handoff; c = contractor_of repr k; i = inline_contractor repr a in
          if h \<noteq> [] \<and> c \<noteq> [] \<and> h \<noteq> c then Quarantine_for ''contractor_mismatch'' ''needs_attention''
          else if i \<noteq> [] \<and> (h \<noteq> [] \<and> i \<noteq> h \<or> c \<noteq> [] \<and> i \<noteq> c) then
            Quarantine_for ''contractor_mismatch'' ''needs_attention''
          else if h = [] \<or> c = [] then unconfirmed
          else if call_status_of repr k \<notin> set TERMINAL_CALL_STATUSES then unconfirmed
          else Claim_it)"

section \<open>What is processed\<close>

record post_args =
  pa_lines :: "string list"
  pa_caller :: string
  pa_owner :: string
  pa_number :: string
  pa_contractor :: pydict
  pa_language :: string

text \<open>\<open>str.splitlines()\<close>: the flag says that the last character was a carriage return, the text is the line being read.\<close>

definition line_break :: "char \<Rightarrow> bool" where
  "line_break c = ((of_char c :: nat) \<in> {10, 11, 12, 13, 28, 29, 30, 133})"

fun lines_after :: "bool \<Rightarrow> string \<Rightarrow> string \<Rightarrow> string list" where
  "lines_after cr l [] = (if l = [] then [] else [l])"
| "lines_after cr l (c # cs) =
     (if cr \<and> c = CHR 10 then lines_after False l cs
      else if line_break c then l # lines_after (c = CHR 13) [] cs
      else lines_after False (l @ [c]) cs)"

text \<open>\<open>_hydrate_handoff\<close> on the documents it reads; \<open>None\<close> when it raises.\<close>

definition hydrate :: "(pyval \<Rightarrow> string) \<Rightarrow> pydict \<Rightarrow> pydict \<Rightarrow> (string \<Rightarrow> document) \<Rightarrow> post_args option" where
  "hydrate repr handoff call contractors = (case pget call ''transcript'' of
       PStr t \<Rightarrow>
         if py_strip t = [] then None
         else
           let h = str_or_empty repr (pget handoff ''contractor_id''); c = str_or_empty repr (pget call ''contractor_id'');
               k = (if h \<noteq> [] then h else c) in
           if h \<noteq> [] \<and> c \<noteq> [] \<and> h \<noteq> c then None
           else if k = [] then None
           else (case contractors k of
               None \<Rightarrow> None
             | Some d \<Rightarrow>
                 Some \<lparr>pa_lines = lines_after False [] t, pa_caller = str_or_empty repr (pget call ''caller_phone''),
                   pa_owner = str_or_empty repr (pget d ''owner_phone''),
                   pa_number = str_or_empty repr (pget d ''twilio_number''), pa_contractor = d,
                   pa_language = (if truthy (pget handoff ''caller_language'')
                     then str_of repr (pget handoff ''caller_language'') else ''en'')\<rparr>)
     | _ \<Rightarrow> None)"

definition inline_post_args :: "inline_args \<Rightarrow> string list \<Rightarrow> post_args" where
  "inline_post_args a ls =
     \<lparr>pa_lines = ls, pa_caller = ia_caller a, pa_owner = ia_owner a, pa_number = ia_number a,
      pa_contractor = fields_of (ia_contractor a), pa_language = ia_language a\<rparr>"

text \<open>
  The condition under which a persisted result schedules the conversation measurement; a missing contractor is an empty
  one.
\<close>

definition measured :: "pydict \<Rightarrow> pydict \<Rightarrow> pydict option \<Rightarrow> processed \<Rightarrow> bool" where
  "measured handoff call contractor r =
     (''call_record'' \<in> set (pr_completed r) \<and> ''call_record'' \<notin> set (pr_failed r) \<and>
      (case pget call ''contractor_id'' of
         PStr c \<Rightarrow> py_strip c \<noteq> [] \<and> py_strip c = c \<and> pget handoff ''contractor_id'' = PStr c \<and>
           pget (fields_of contractor) ''contractor_id'' \<in> {PNone, PStr c}
       | _ \<Rightarrow> False))"

section \<open>The run\<close>

record mirror =
  mi_status :: string
  mi_failure :: string
  mi_completed :: "string list"
  mi_failed :: "string list"

definition attention_mirror :: "string \<Rightarrow> mirror" where
  "attention_mirror failure = \<lparr>mi_status = ''needs_attention'', mi_failure = failure, mi_completed = [], mi_failed = []\<rparr>"

definition pending_mirror :: mirror where
  "pending_mirror = \<lparr>mi_status = ''pending'', mi_failure = '''', mi_completed = [], mi_failed = []\<rparr>"

datatype run_ending = Returned string | Cancelled | Raised_error

text \<open>
  Where a run is: what it awaits next. A run with its own transcript begins at \<open>Enqueueing\<close>, one of the worker at
  \<open>Reading\<close>; \<open>Telling\<close> mirrors a status and answers. From \<open>Claimed_it\<close> on it is inside the \<open>try\<close>; \<open>Failing\<close> and \<open>Failed\<close> are its
  handlers.
\<close>

datatype run_phase =
    Enqueueing
  | Telling mirror string
  | Reading
  | Looking pydict
  | Quarantining string string
  | Claiming pydict pydict
  | Claimed_it pydict pydict
  | Processing pydict pydict "pydict option" post_args
  | Finishing pydict pydict "pydict option" processed
  | Unfinished processed
  | Closing bool mirror
  | Failing string run_ending
  | Failed string run_ending
  | Over run_ending

text \<open>What the run does besides writing the outbox: it starts the processing, mirrors a status, schedules the measurement.\<close>

datatype action =
    Process string pydict pydict post_args
  | Mirror string mirror
  | Measure string

datatype outcome_of_processing = Gave processed | Timed_out | Broke

record step_input =
  in_commit :: commit
  in_now :: rat
  in_read_fails :: bool
  in_call :: document
  in_contractors :: "string \<Rightarrow> document"
  in_outcome :: outcome_of_processing
  in_mirror_fails :: bool
  in_cancelled :: bool

type_synonym step_result = "run_phase \<times> handoffs \<times> action list"

text \<open>Cancellation before the claim ends the run; inside the \<open>try\<close> it is recorded unless a terminal state has been persisted.\<close>

definition stop_before :: "step_input \<Rightarrow> step_result \<Rightarrow> step_result" where
  "stop_before i r = (if in_cancelled i then (Over Cancelled, snd r) else r)"

definition stop_inside :: "step_input \<Rightarrow> step_result \<Rightarrow> step_result" where
  "stop_inside i r = (if in_cancelled i then (Failing ''processing_cancelled'' Cancelled, snd r) else r)"

fun run_step :: "(pyval \<Rightarrow> string) \<Rightarrow> string \<Rightarrow> inline_args \<Rightarrow> step_input \<Rightarrow> run_phase \<Rightarrow> handoffs \<Rightarrow> step_result" where
  "run_step repr sid a i Enqueueing s =
     (let contractor = str_or_empty repr (pget (fields_of (ia_contractor a)) ''contractor_id'');
          (s', done) = enqueue_handoff (in_commit i) (in_now i) sid contractor (ia_language a) s in
      stop_before i
       (if \<not> done then Telling (attention_mirror ''enqueue_failed'') ''needs_attention''
        else if contractor = [] then Telling pending_mirror ''pending'' else Reading, s', []))"
| "run_step repr sid a i (Telling m status) s = stop_before i
     (Over (if in_mirror_fails i then Raised_error else Returned status), s, [Mirror sid m])"
| "run_step repr sid a i Reading s = stop_before i
     (if in_read_fails i then (Over (Returned ''pending''), s, [])
      else (case s sid of
          None \<Rightarrow> (Over (Returned ''pending''), s, [])
        | Some d \<Rightarrow>
            if pget d ''status'' \<noteq> PStr ''pending'' then (Over (Returned ''deduplicated''), s, [])
            else (Looking d, s, [])))"
| "run_step repr sid a i (Looking d) s = stop_before i
     (let call = (if in_read_fails i then None else in_call i) in
      case decide_run repr (in_now i) a d call of
        Answer status \<Rightarrow> (Over (Returned status), s, [])
      | Quarantine_for failure otherwise \<Rightarrow> (Quarantining failure otherwise, s, [])
      | Claim_it \<Rightarrow> (Claiming d (fields_of call), s, []))"
| "run_step repr sid a i (Quarantining failure otherwise) s =
     (let (s', done) = quarantine_pending_handoff repr (in_commit i) (in_now i) sid failure (in_call i) s in
      stop_before i (if done then Telling (attention_mirror failure) ''needs_attention'' else Over (Returned otherwise), s', []))"
| "run_step repr sid a i (Claiming d k) s =
     (let (s', r) = claim_handoff (in_commit i) (in_now i) DEFAULT_LEASE_SECONDS sid s in
      stop_before i (case r of
          Inl e \<Rightarrow> (Over (Returned ''pending''), s', [])
        | Inr claimed \<Rightarrow> (if claimed then Claimed_it d k else Over (Returned ''deduplicated''), s', [])))"
| "run_step repr sid a i (Claimed_it d k) s =
     (case ia_lines a of
        Some ls \<Rightarrow> (Processing d k (ia_contractor a) (inline_post_args a ls), s, [Process sid d k (inline_post_args a ls)])
      | None \<Rightarrow>
          if in_cancelled i then (Failing ''processing_cancelled'' Cancelled, s, [])
          else (case if in_read_fails i then None
                  else hydrate repr (fields_of (s sid)) (fields_of (in_call i)) (in_contractors i) of
             None \<Rightarrow> (Failing ''processing_error'' (Returned ''needs_attention''), s, [])
           | Some p \<Rightarrow> (Processing d k (Some (pa_contractor p)) p, s, [Process sid d k p])))"
| "run_step repr sid a i (Processing d k c p) s = stop_inside i
     (case in_outcome i of
        Gave r \<Rightarrow> (Finishing d k c r, s, [])
      | Timed_out \<Rightarrow> (Failing ''processing_timeout'' (Returned ''needs_attention''), s, [])
      | Broke \<Rightarrow> (Failing ''processing_error'' (Returned ''needs_attention''), s, []))"
| "run_step repr sid a i (Finishing d k c r) s =
     (let (s', persisted) = finish_handoff (in_commit i) (in_now i) sid r s; (status, failure) = terminal_outcome (pr_status r) in
      stop_inside i
       (if persisted
        then (Closing True \<lparr>mi_status = status, mi_failure = failure, mi_completed = pr_completed r, mi_failed = pr_failed r\<rparr>,
              s', if in_cancelled i then [] else if measured d k c r then [Measure sid] else [])
        else (Unfinished r, s', [])))"
| "run_step repr sid a i (Unfinished r) s =
     (let (s', marked) = mark_needs_attention (in_commit i) (in_now i) sid ''handoff_finish_failed'' s in
      stop_inside i (Closing marked \<lparr>mi_status = ''needs_attention'', mi_failure = ''handoff_finish_failed'',
        mi_completed = pr_completed r, mi_failed = pr_failed r\<rparr>, s', []))"
| "run_step repr sid a i (Closing persisted m) s =
     (if in_cancelled i then
        (if persisted then Over Cancelled else Failing ''processing_cancelled'' Cancelled, s, [Mirror sid m])
      else if in_mirror_fails i then
        (if persisted then Over (Returned ''needs_attention'')
         else Failing ''processing_error'' (Returned ''needs_attention''), s, [Mirror sid m])
      else (Over (Returned (mi_status m)), s, [Mirror sid m]))"
| "run_step repr sid a i (Failing failure e) s =
     (let (s', marked) = mark_needs_attention (in_commit i) (in_now i) sid failure s in stop_before i (Failed failure e, s', []))"
| "run_step repr sid a i (Failed failure e) s = stop_before i
     (Over (if in_mirror_fails i then Raised_error else e), s, [Mirror sid (attention_mirror failure)])"
| "run_step repr sid a i (Over e) s = (Over e, s, [])"

end
