(* ===== verification/Post_Call_Safety.thy ===== *)
theory Post_Call_Safety
  imports Post_Call_Run
begin

text \<open>
  Interleaved runs of post-call work, app/services/post_call_handoff.py, over one outbox: what a step writes and starts,
  the invariant that a claim is exclusive, the reasons a processing may begin, and the end of every run.
\<close>

section \<open>What a step writes\<close>

text \<open>A handoff that is no longer waiting: it exists and some claim or quarantine has moved it on.\<close>

definition taken_on :: "string \<Rightarrow> handoffs \<Rightarrow> bool" where
  "taken_on sid s = (\<exists>d. s sid = Some d \<and> pget d ''status'' \<noteq> PStr ''pending'')"

definition moves_on :: "pydict \<Rightarrow> bool" where
  "moves_on u = (u ''status'' \<in> Some ` PStr ` {''in_progress'', ''completed'', ''needs_attention'', ''acknowledged''})"

lemma moves_on_add: "moves_on u \<Longrightarrow> pget (d ++ u) ''status'' \<noteq> PStr ''pending''"
  by (auto simp: moves_on_def pget_def map_add_def)

lemma attention_moves_on: "moves_on (attention_updates now f)"
  by (simp add: moves_on_def attention_updates_def)

lemma finish_moves_on: "moves_on (finish_updates r now)"
  by (simp add: moves_on_def finish_updates_def terminal_outcome_def Let_def)

lemma transition_leaves_pending:
  assumes "snd (transition_of repr now op d) = Some u"
  shows "moves_on u"
proof (cases op)
  case (Claim n)
  with assms show ?thesis
    by (auto simp: claim_transition_def moves_on_def split: pyval.splits option.splits if_splits)
next
  case (Finished r)
  with assms have "u = finish_updates r now" by (auto simp: finish_transition_def split: pyval.splits if_splits)
  then show ?thesis by (simp add: finish_moves_on)
next
  case (Attention f)
  with assms have "u = attention_updates now f" by (auto simp: attention_transition_def split: pyval.splits if_splits)
  then show ?thesis by (simp add: attention_moves_on)
next
  case (Quarantine f k)
  with assms have "u = attention_updates now f" by (auto simp: quarantine_transition_def split: if_splits)
  then show ?thesis by (simp add: attention_moves_on)
next
  case (Acknowledge r)
  with assms show ?thesis by (auto simp: acknowledge_transition_def moves_on_def split: if_splits)
qed (use assms in simp)

interpretation taking: fence "run_event repr" taken_on "\<lambda>k e. False" for repr
proof
  fix sid :: string and s :: handoffs and e :: handoff_event
  assume k: "taken_on sid s"
  show "taken_on sid (run_event repr s e)"
    using run_event_writes [of repr s e]
  proof (elim disjE exE conjE)
    fix d u
    assume w: "s (he_sid e) = Some d" "snd (transition_of repr (he_now e) (he_op e) d) = Some u"
      "run_event repr s e = s(he_sid e := Some (d ++ u))"
    from moves_on_add [OF transition_leaves_pending [OF w(2)], of d] w(3) k show ?thesis by (auto simp: taken_on_def)
  qed (use k in \<open>auto simp: taken_on_def\<close>)
qed

text \<open>The events on the outbox that a step amounts to.\<close>

fun step_events :: "string \<Rightarrow> inline_args \<Rightarrow> step_input \<Rightarrow> (pyval \<Rightarrow> string) \<Rightarrow> run_phase \<Rightarrow> handoff_event list" where
  "step_events sid a i repr Enqueueing = [\<lparr>he_commit = in_commit i, he_now = in_now i, he_sid = sid,
     he_op = Enqueue (str_or_empty repr (pget (fields_of (ia_contractor a)) ''contractor_id'')) (ia_language a)\<rparr>]"
| "step_events sid a i repr (Quarantining f other) = [\<lparr>he_commit = in_commit i, he_now = in_now i, he_sid = sid,
     he_op = Quarantine f (in_call i)\<rparr>]"
| "step_events sid a i repr (Claiming d k) = [\<lparr>he_commit = in_commit i, he_now = in_now i, he_sid = sid,
     he_op = Claim DEFAULT_LEASE_SECONDS\<rparr>]"
| "step_events sid a i repr (Finishing d k c r) = [\<lparr>he_commit = in_commit i, he_now = in_now i, he_sid = sid, he_op = Finished r\<rparr>]"
| "step_events sid a i repr (Unfinished r) = [\<lparr>he_commit = in_commit i, he_now = in_now i, he_sid = sid,
     he_op = Attention ''handoff_finish_failed''\<rparr>]"
| "step_events sid a i repr (Failing f e) = [\<lparr>he_commit = in_commit i, he_now = in_now i, he_sid = sid, he_op = Attention f\<rparr>]"
| "step_events sid a i repr p = []"

lemma stop_state [simp]: "fst (snd (stop_before i r)) = fst (snd r)" "fst (snd (stop_inside i r)) = fst (snd r)"
  "snd (snd (stop_before i r)) = snd (snd r)" "snd (snd (stop_inside i r)) = snd (snd r)"
  by (simp_all add: stop_before_def stop_inside_def)

lemma run_step_store:
  "fst (snd (run_step repr sid a i p s)) = foldl (run_event repr) s (step_events sid a i repr p)"
  by (cases p)
     (simp_all add: run_event_def Let_def fst_map_prod split: prod.split option.split sum.split run_choice.split outcome_of_processing.split)

text \<open>A run starts processing in one step only, and goes on without another claim.\<close>

lemma run_step_log:
  assumes "Process sid' d k p \<in> set (snd (snd (run_step repr sid a i ph s)))"
  shows "sid' = sid \<and> ph = Claimed_it d k \<and> snd (snd (run_step repr sid a i ph s)) = [Process sid d k p]"
  using assms
  by (cases ph)
     (auto simp: Let_def split: prod.splits option.splits sum.splits run_choice.splits outcome_of_processing.splits if_splits)

lemma stop_phase: "fst (stop_before i r) = Claimed_it d k \<Longrightarrow> fst r = Claimed_it d k"
  "fst (stop_inside i r) = Claimed_it d k \<Longrightarrow> fst r = Claimed_it d k"
  by (auto simp: stop_before_def stop_inside_def split: if_splits)

lemma run_step_claims:
  assumes "fst (run_step repr sid a i ph s) = Claimed_it d k"
  shows "ph = Claiming d k \<and> \<not> taken_on sid s \<and> taken_on sid (fst (snd (run_step repr sid a i ph s)))"
proof -
  from assms have ph: "ph = Claiming d k"
    by (cases ph)
       (auto simp: Let_def dest!: stop_phase split: prod.splits option.splits sum.splits run_choice.splits
         outcome_of_processing.splits if_splits)
  obtain s' r where c: "claim_handoff (in_commit i) (in_now i) DEFAULT_LEASE_SECONDS sid s = (s', r)" by fastforce
  with assms ph have r: "r = Inr True" by (auto dest!: stop_phase split: sum.splits if_splits)
  with c have "(case s sid of None \<Rightarrow> Inr (False, s) | Some x \<Rightarrow> Inr (fst (claim_transition x (in_now i) DEFAULT_LEASE_SECONDS),
      case snd (claim_transition x (in_now i) DEFAULT_LEASE_SECONDS) of None \<Rightarrow> s | Some u \<Rightarrow> s(sid := Some (x ++ u)))) =
      (Inr (True, s') :: (bool \<times> handoffs) res)"
    by (auto simp: claim_handoff_def change_txn_def dest!: transact_answer)
  then obtain x where x: "s sid = Some x" "fst (claim_transition x (in_now i) DEFAULT_LEASE_SECONDS)"
    "s' = (case snd (claim_transition x (in_now i) DEFAULT_LEASE_SECONDS) of None \<Rightarrow> s | Some u \<Rightarrow> s(sid := Some (x ++ u)))"
    by (cases "s sid") auto
  have "pget x ''status'' = PStr ''pending''"
    using x(2) by (auto simp: claim_transition_def split: pyval.splits option.splits if_splits)
  moreover from this x(3) have "taken_on sid s'"
    by (auto simp: claim_transition_def TERMINAL_STATUSES_def taken_on_def)
  ultimately show ?thesis using x(1) ph c r by (auto simp: taken_on_def)
qed

section \<open>Interleaved runs\<close>

record run_worker =
  wk_sid :: string
  wk_args :: inline_args
  wk_phase :: run_phase

record outbox_world =
  wd_store :: handoffs
  wd_workers :: "nat \<Rightarrow> run_worker option"
  wd_log :: "action list"

text \<open>
  A run begins, with its own transcript or from the worker; a run takes its next step; or some other operation touches
  the outbox: an operator's, or the worker's scan of claims in progress.
\<close>

datatype world_event = Start nat string inline_args bool | Step nat step_input | Outbox handoff_event

fun outbox_step :: "(pyval \<Rightarrow> string) \<Rightarrow> outbox_world \<Rightarrow> world_event \<Rightarrow> outbox_world" where
  "outbox_step repr w (Start n sid a enqueue) =
     (case wd_workers w n of
        Some x \<Rightarrow> w
      | None \<Rightarrow> w\<lparr>wd_workers := (wd_workers w)(n := Some \<lparr>wk_sid = sid, wk_args = a,
          wk_phase = (if enqueue then Enqueueing else Reading)\<rparr>)\<rparr>)"
| "outbox_step repr w (Step n i) =
     (case wd_workers w n of
        None \<Rightarrow> w
      | Some x \<Rightarrow>
          let (p, s, acts) = run_step repr (wk_sid x) (wk_args x) i (wk_phase x) (wd_store w) in
          \<lparr>wd_store = s, wd_workers = (wd_workers w)(n := Some (x\<lparr>wk_phase := p\<rparr>)), wd_log = wd_log w @ acts\<rparr>)"
| "outbox_step repr w (Outbox e) = w\<lparr>wd_store := run_event repr (wd_store w) e\<rparr>"

definition quiet_world :: "handoffs \<Rightarrow> outbox_world" where
  "quiet_world s = \<lparr>wd_store = s, wd_workers = (\<lambda>n. None), wd_log = []\<rparr>"

fun processed_sid :: "action \<Rightarrow> string list" where
  "processed_sid (Process sid d k p) = [sid]"
| "processed_sid (Mirror sid m) = []"
| "processed_sid (Measure sid) = []"

definition processed_sids :: "action list \<Rightarrow> string list" where
  "processed_sids acts = concat (map processed_sid acts)"

text \<open>The run that holds the claim of a handoff and has not begun to process it.\<close>

definition about_to_process :: "outbox_world \<Rightarrow> nat \<Rightarrow> string \<Rightarrow> bool" where
  "about_to_process w n sid = (\<exists>x d k. wd_workers w n = Some x \<and> wk_sid x = sid \<and> wk_phase x = Claimed_it d k)"

definition claims_are_exclusive :: "outbox_world \<Rightarrow> bool" where
  "claims_are_exclusive w =
     (distinct (processed_sids (wd_log w)) \<and> (\<forall>sid \<in> set (processed_sids (wd_log w)). taken_on sid (wd_store w)) \<and>
      (\<forall>n sid. about_to_process w n sid \<longrightarrow> sid \<notin> set (processed_sids (wd_log w)) \<and> taken_on sid (wd_store w) \<and>
        (\<forall>m. about_to_process w m sid \<longrightarrow> m = n)))"

lemma processed_sids_append [simp]: "processed_sids (xs @ ys) = processed_sids xs @ processed_sids ys"
  by (simp add: processed_sids_def)

lemma no_process: "(\<And>sid d k p. Process sid d k p \<notin> set acts) \<Longrightarrow> processed_sids acts = []"
proof (induction acts)
  case (Cons x acts)
  then have "processed_sids acts = []" by (meson list.set_intros(2))
  moreover have "processed_sid x = []" using Cons(2) by (cases x) auto
  ultimately show ?case by (simp add: processed_sids_def)
qed (simp add: processed_sids_def)

lemma step_taken:
  "taken_on sid s \<Longrightarrow> taken_on sid (fst (snd (run_step repr sid' a i ph s)))"
  unfolding run_step_store by (rule taking.run_kept) auto

text \<open>
  A step begins to process with the claim it holds, wins a claim of a handoff that nobody had, or does neither; the
  three cases of the invariant.
\<close>

lemma run_step_kinds:
  obtains (processing) d k p where "ph = Claimed_it d k" "snd (snd (run_step repr sid a i ph s)) = [Process sid d k p]"
      "\<And>d k. fst (run_step repr sid a i ph s) \<noteq> Claimed_it d k"
  | (claiming) d k where "fst (run_step repr sid a i ph s) = Claimed_it d k" "ph = Claiming d k" "\<not> taken_on sid s"
      "taken_on sid (fst (snd (run_step repr sid a i ph s)))" "processed_sids (snd (snd (run_step repr sid a i ph s))) = []"
  | (neither) "\<And>d k. fst (run_step repr sid a i ph s) \<noteq> Claimed_it d k"
      "processed_sids (snd (snd (run_step repr sid a i ph s))) = []"
proof (cases "\<exists>sid' d k p. Process sid' d k p \<in> set (snd (snd (run_step repr sid a i ph s)))")
  case True
  then obtain sid' d k p where "Process sid' d k p \<in> set (snd (snd (run_step repr sid a i ph s)))" by blast
  from run_step_log [OF this] run_step_claims [of repr sid a i ph s] show thesis by (intro that(1)) blast+
next
  case False
  then have n: "processed_sids (snd (snd (run_step repr sid a i ph s))) = []" by (intro no_process) blast
  show thesis
  proof (cases "\<exists>d k. fst (run_step repr sid a i ph s) = Claimed_it d k")
    case True
    then obtain d k where c: "fst (run_step repr sid a i ph s) = Claimed_it d k" by blast
    from run_step_claims [OF c] show thesis by (intro that(2) [OF c _ _ _ n]) auto
  next
    case False
    then show thesis by (intro that(3) [OF _ n]) blast
  qed
qed

lemma world_step_exclusive:
  assumes w: "claims_are_exclusive w"
  shows "claims_are_exclusive (outbox_step repr w e)"
proof (cases e)
  case (Start n sid a enqueue)
  then show ?thesis using w
    by (cases "wd_workers w n") (auto simp: claims_are_exclusive_def about_to_process_def)
next
  case (Outbox oe)
  then show ?thesis using w taking.kept
    by (auto simp: claims_are_exclusive_def about_to_process_def)
next
  case (Step n i)
  show ?thesis
  proof (cases "wd_workers w n")
    case (Some x)
    let ?s = "wd_store w" and ?r = "run_step repr (wk_sid x) (wk_args x) i (wk_phase x) (wd_store w)"
    have v: "outbox_step repr w e = \<lparr>wd_store = fst (snd ?r), wd_workers = (wd_workers w)(n := Some (x\<lparr>wk_phase := fst ?r\<rparr>)),
        wd_log = wd_log w @ snd (snd ?r)\<rparr>"
      using Step Some by (simp add: Let_def case_prod_beta)
    have others: "about_to_process (outbox_step repr w e) m sid = about_to_process w m sid" if "m \<noteq> n" for m sid
      using that by (simp add: v about_to_process_def)
    have self: "about_to_process (outbox_step repr w e) n sid \<longleftrightarrow> sid = wk_sid x \<and> (\<exists>d k. fst ?r = Claimed_it d k)" for sid
      by (auto simp: v about_to_process_def)
    have kept: "taken_on sid ?s \<Longrightarrow> taken_on sid (wd_store (outbox_step repr w e))" for sid
      by (simp add: v step_taken)
    have logged: "processed_sids (wd_log (outbox_step repr w e)) = processed_sids (wd_log w) @ processed_sids (snd (snd ?r))"
      by (simp add: v)
    show ?thesis
    proof (cases rule: run_step_kinds [of "wk_phase x" repr "wk_sid x" "wk_args x" i ?s])
      case (processing d k p)
      have held: "about_to_process w n (wk_sid x)" using Some processing(1) by (simp add: about_to_process_def)
      have gone: "\<not> about_to_process (outbox_step repr w e) n sid" for sid using processing(3) by (simp add: self)
      have sub: "about_to_process (outbox_step repr w e) m sid \<Longrightarrow> about_to_process w m sid" for m sid
        using others gone by (cases "m = n") auto
      have single: "processed_sids (snd (snd ?r)) = [wk_sid x]" using processing(2) by (simp add: processed_sids_def)
      have "about_to_process (outbox_step repr w e) m sid \<Longrightarrow> about_to_process w m sid \<and> sid \<noteq> wk_sid x" for m sid
        using w held sub [of m sid] gone [of sid] by (cases "m = n") (auto simp: claims_are_exclusive_def)
      note sub' = this
      show ?thesis using w kept held single unfolding claims_are_exclusive_def logged by (auto dest!: sub')
    next
      case (claiming d k)
      have "\<not> about_to_process w m (wk_sid x)" for m using w claiming(3) by (auto simp: claims_are_exclusive_def)
      moreover have "wk_sid x \<notin> set (processed_sids (wd_log w))" using w claiming(3) by (auto simp: claims_are_exclusive_def)
      moreover have "taken_on (wk_sid x) (wd_store (outbox_step repr w e))" using claiming(4) by (simp add: v)
      moreover have "about_to_process (outbox_step repr w e) m sid \<longleftrightarrow>
          (if m = n then sid = wk_sid x else about_to_process w m sid)" for m sid
        using others self claiming(1) by auto
      ultimately show ?thesis using w kept claiming(5) unfolding claims_are_exclusive_def logged by auto
    next
      case neither
      then have "\<not> about_to_process (outbox_step repr w e) n sid" for sid by (simp add: self)
      then have sub: "about_to_process (outbox_step repr w e) m sid \<Longrightarrow> about_to_process w m sid" for m sid
        using others by (cases "m = n") auto
      show ?thesis using w kept neither(2) unfolding claims_are_exclusive_def logged by (auto dest!: sub)
    qed
  qed (use Step w in simp)
qed

section \<open>Every processing is due\<close>

text \<open>What the run has read: a waiting handoff, and a call that has ended and belongs to the same contractor.\<close>

definition due :: "(pyval \<Rightarrow> string) \<Rightarrow> pydict \<Rightarrow> pydict \<Rightarrow> bool" where
  "due repr handoff call = (pget handoff ''status'' = PStr ''pending'' \<and> contractor_of repr handoff \<noteq> [] \<and>
     contractor_of repr call = contractor_of repr handoff \<and> call_status_of repr call \<in> set TERMINAL_CALL_STATUSES)"

fun phase_due :: "(pyval \<Rightarrow> string) \<Rightarrow> run_phase \<Rightarrow> bool" where
  "phase_due repr (Looking d) = (pget d ''status'' = PStr ''pending'')"
| "phase_due repr (Claiming d k) = due repr d k"
| "phase_due repr (Claimed_it d k) = due repr d k"
| "phase_due repr p = True"

fun action_due :: "(pyval \<Rightarrow> string) \<Rightarrow> action \<Rightarrow> bool" where
  "action_due repr (Process sid d k p) = due repr d k"
| "action_due repr a = True"

lemma decided_due: "decide_run repr now a d call = Claim_it \<Longrightarrow> pget d ''status'' = PStr ''pending'' \<Longrightarrow>
    \<exists>k. call = Some k \<and> due repr d k"
  by (cases call) (auto simp: decide_run_def due_def Let_def split: if_splits)

lemma stop_due: "phase_due repr (fst (stop_before i r)) \<longleftrightarrow> in_cancelled i \<or> phase_due repr (fst r)"
  "phase_due repr (fst (stop_inside i r)) \<longleftrightarrow> in_cancelled i \<or> phase_due repr (fst r)"
  by (simp_all add: stop_before_def stop_inside_def)

lemma run_step_due:
  assumes "phase_due repr ph"
  shows "phase_due repr (fst (run_step repr sid a i ph s)) \<and> (\<forall>x \<in> set (snd (snd (run_step repr sid a i ph s))). action_due repr x)"
proof (cases ph)
  case (Looking d)
  then show ?thesis using assms decided_due [of repr "in_now i" a d]
    by (cases "decide_run repr (in_now i) a d (if in_read_fails i then None else in_call i)")
       (fastforce simp: stop_due Let_def)+
qed (use assms in \<open>auto simp: stop_due Let_def split: prod.splits option.splits sum.splits outcome_of_processing.splits if_splits\<close>)

definition world_due :: "(pyval \<Rightarrow> string) \<Rightarrow> outbox_world \<Rightarrow> bool" where
  "world_due repr w = ((\<forall>n x. wd_workers w n = Some x \<longrightarrow> phase_due repr (wk_phase x)) \<and> (\<forall>x \<in> set (wd_log w). action_due repr x))"

lemma world_step_due:
  assumes "world_due repr w"
  shows "world_due repr (outbox_step repr w e)"
proof (cases e)
  case (Step n i)
  show ?thesis
  proof (cases "wd_workers w n")
    case (Some x)
    with assms have "phase_due repr (wk_phase x)" by (auto simp: world_due_def)
    from run_step_due [OF this, of "wk_sid x" "wk_args x" i "wd_store w"] Some assms Step show ?thesis
      by (auto simp: world_due_def Let_def case_prod_beta)
  qed (use Step assms in simp)
qed (use assms in \<open>auto simp: world_due_def split: option.splits\<close>)

text \<open>
  C1: Whatever runs of the same calls begin on any instances and however their steps, cancellations, failed and lost
  commits and the other operations on the outbox interleave, the processing of a call begins at most once, and only for
  a handoff that was read as waiting with a call of the same contractor that has ended. The purge of a deleted account, which
  deletes its handoffs (theory Account_Purge), is not among the operations.
\<close>

theorem post_call_work_at_most_once:
  "distinct (processed_sids (wd_log (foldl (outbox_step repr) (quiet_world s) es))) \<and>
   list_all (action_due repr) (wd_log (foldl (outbox_step repr) (quiet_world s) es))"
proof -
  have "claims_are_exclusive (foldl (outbox_step repr) w es)" if "claims_are_exclusive w" for w
    using that by (induction es arbitrary: w) (simp_all add: world_step_exclusive)
  moreover have "claims_are_exclusive (quiet_world s)"
    by (simp add: claims_are_exclusive_def quiet_world_def processed_sids_def about_to_process_def)
  moreover have "world_due repr (foldl (outbox_step repr) w es)" if "world_due repr w" for w
    using that by (induction es arbitrary: w) (simp_all add: world_step_due)
  moreover have "world_due repr (quiet_world s)" by (simp add: world_due_def quiet_world_def)
  ultimately have "claims_are_exclusive (foldl (outbox_step repr) (quiet_world s) es)"
    "world_due repr (foldl (outbox_step repr) (quiet_world s) es)" by blast+
  then show ?thesis by (simp add: claims_are_exclusive_def world_due_def list_all_iff)
qed

text \<open>
  A run whose own contractor is not the one that handoff and call agree on asks for a quarantine that the transaction
  refuses: the run answers \<open>needs_attention\<close>, and the handoff stays as it was, pending.
\<close>

lemma inline_mismatch_stays_pending:
  assumes "contractor_of repr d \<noteq> []" "contractor_of repr k = contractor_of repr d"
    and "inline_contractor repr a \<notin> {[], contractor_of repr d}"
    and "s sid = Some d" "in_call i = Some k" "\<not> in_read_fails i" "\<not> in_cancelled i"
  shows "run_step repr sid a i (Looking d) s = (Quarantining ''contractor_mismatch'' ''needs_attention'', s, []) \<and>
    run_step repr sid a i (Quarantining ''contractor_mismatch'' ''needs_attention'') s = (Over (Returned ''needs_attention''), s, [])"
proof -
  have "change_txn (in_commit i) sid (quarantine_transition repr ''contractor_mismatch'' (Some k) (in_now i)) s =
      transact (in_commit i) s (Inr (False, s))"
    using assms(2,4) by (simp add: change_txn_def quarantine_transition_def)
  moreover have "or_false (transact (in_commit i) s (Inr (False, s))) = (s, False)"
    by (cases "in_commit i") (simp_all add: or_false_def)
  ultimately show ?thesis
    using assms by (simp add: decide_run_def Let_def stop_before_def quarantine_pending_handoff_def)
qed

section \<open>Every run ends\<close>

fun phase_rank :: "run_phase \<Rightarrow> nat" where
  "phase_rank (Over e) = 0"
| "phase_rank (Failed f e) = 1"
| "phase_rank (Telling m r) = 1"
| "phase_rank (Failing f e) = 2"
| "phase_rank (Closing b m) = 3"
| "phase_rank (Unfinished r) = 4"
| "phase_rank (Finishing d k c r) = 5"
| "phase_rank (Processing d k c p) = 6"
| "phase_rank (Claimed_it d k) = 7"
| "phase_rank (Claiming d k) = 8"
| "phase_rank (Quarantining f r) = 8"
| "phase_rank (Looking d) = 9"
| "phase_rank Reading = 10"
| "phase_rank Enqueueing = 11"

lemma run_step_rank: "phase_rank (fst (run_step repr sid a i ph s)) < phase_rank ph \<or> (\<exists>e. ph = Over e)"
  by (cases ph)
     (auto simp: stop_before_def stop_inside_def Let_def split: prod.splits option.splits sum.splits run_choice.splits
       outcome_of_processing.splits)

text \<open>
  Every run ends: eleven of its own steps bring it from its beginning to a result, an exception or the
  cancellation, whatever the steps find in the outbox and whatever fails.
\<close>

theorem post_call_runs_end:
  assumes "11 \<le> length xs"
  shows "\<exists>e. foldl (\<lambda>ph (i, s). fst (run_step repr sid a i ph s)) Enqueueing xs = Over e"
proof -
  have "phase_rank (foldl (\<lambda>ph (i, s). fst (run_step repr sid a i ph s)) ph xs) \<le> phase_rank ph - length xs" for ph
  proof (induction xs arbitrary: ph)
    case (Cons x xs)
    obtain i s where x: "x = (i, s)" by (cases x)
    have "phase_rank (fst (run_step repr sid a i ph s)) \<le> phase_rank ph - 1"
      using run_step_rank [of repr sid a i ph s] by auto
    with Cons.IH [of "fst (run_step repr sid a i ph s)"] show ?case by (simp add: x)
  qed simp
  from this [of Enqueueing] assms
  have "phase_rank (foldl (\<lambda>ph (i, s). fst (run_step repr sid a i ph s)) Enqueueing xs) = 0" by simp
  then show ?thesis
    by (cases "foldl (\<lambda>ph (i, s). fst (run_step repr sid a i ph s)) Enqueueing xs") auto
qed

definition sample_input :: step_input where
  "sample_input = \<lparr>in_commit = Refused, in_now = 0, in_read_fails = False, in_call = None, in_contractors = (\<lambda>k. None),
     in_outcome = Broke, in_mirror_fails = False, in_cancelled = False\<rparr>"

definition sample_args :: inline_args where
  "sample_args = \<lparr>ia_lines = None, ia_caller = '''', ia_owner = '''', ia_number = '''', ia_contractor = None, ia_language = ''en''\<rparr>"

theorem post_call_runs_end_witness:
  "\<exists>e. foldl (\<lambda>ph (i, s). fst (run_step no_repr ''CA1'' sample_args i ph s)) Enqueueing
     (replicate 11 (sample_input, sample_outbox)) = Over e"
  by (rule post_call_runs_end) simp

end
