(* ===== verification/Caller_Turns.thy ===== *)
theory Caller_Turns
  imports Prelude
begin

text \<open>
  The assembly of a caller's turns from transcript fragments and session events, app/services/caller_turns.py. Characters
  are code points below 256; texts of these are in NFC already and always encode, so the normalisation is the identity.
  Times are integers of milliseconds.
\<close>

section \<open>Events and turns\<close>

datatype turn_kind =
    TK_FRAGMENT | TK_MODEL_OUTPUT | TK_GENERATION_COMPLETE | TK_TURN_COMPLETE | TK_INTERRUPTED | TK_TOOL_STARTED
  | TK_TOOL_CANCELLED | TK_CLOSED | TK_RECONNECT | TK_STOPPED

fun turn_kind_value :: "turn_kind \<Rightarrow> string" where
  "turn_kind_value TK_FRAGMENT = ''input_transcript_fragment''"
| "turn_kind_value TK_MODEL_OUTPUT = ''model_output_started''"
| "turn_kind_value TK_GENERATION_COMPLETE = ''generation_complete''"
| "turn_kind_value TK_TURN_COMPLETE = ''turn_complete''"
| "turn_kind_value TK_INTERRUPTED = ''interrupted''"
| "turn_kind_value TK_TOOL_STARTED = ''tool_call_started''"
| "turn_kind_value TK_TOOL_CANCELLED = ''tool_call_cancelled''"
| "turn_kind_value TK_CLOSED = ''connection_closed''"
| "turn_kind_value TK_RECONNECT = ''reconnect_started''"
| "turn_kind_value TK_STOPPED = ''pipeline_stopped''"

definition turn_kinds :: "turn_kind list" where
  "turn_kinds = [TK_FRAGMENT, TK_MODEL_OUTPUT, TK_GENERATION_COMPLETE, TK_TURN_COMPLETE, TK_INTERRUPTED, TK_TOOL_STARTED,
     TK_TOOL_CANCELLED, TK_CLOSED, TK_RECONNECT, TK_STOPPED]"

datatype turn_status = TS_COMPLETE | TS_PARTIAL | TS_CANCELLED | TS_DROPPED

fun turn_status_value :: "turn_status \<Rightarrow> string" where
  "turn_status_value TS_COMPLETE = ''retrospective_complete''"
| "turn_status_value TS_PARTIAL = ''partial''"
| "turn_status_value TS_CANCELLED = ''cancelled''"
| "turn_status_value TS_DROPPED = ''dropped''"

datatype close_reason =
    CR_MODEL_OUTPUT | CR_GENERATION_COMPLETE | CR_TURN_COMPLETE | CR_INTERRUPTED | CR_TOOL_STARTED | CR_TOOL_CANCELLED
  | CR_CLOSED | CR_RECONNECT | CR_STOPPED | CR_RESOURCE_LIMIT

fun close_reason_value :: "close_reason \<Rightarrow> string" where
  "close_reason_value CR_MODEL_OUTPUT = ''model_output_started''"
| "close_reason_value CR_GENERATION_COMPLETE = ''generation_complete''"
| "close_reason_value CR_TURN_COMPLETE = ''turn_complete''"
| "close_reason_value CR_INTERRUPTED = ''interrupted''"
| "close_reason_value CR_TOOL_STARTED = ''tool_call_started''"
| "close_reason_value CR_TOOL_CANCELLED = ''tool_call_cancelled''"
| "close_reason_value CR_CLOSED = ''connection_closed''"
| "close_reason_value CR_RECONNECT = ''reconnect_started''"
| "close_reason_value CR_STOPPED = ''pipeline_stopped''"
| "close_reason_value CR_RESOURCE_LIMIT = ''resource_limit''"

fun terminal_reason :: "turn_kind \<Rightarrow> close_reason option" where
  "terminal_reason TK_MODEL_OUTPUT = Some CR_MODEL_OUTPUT"
| "terminal_reason TK_GENERATION_COMPLETE = Some CR_GENERATION_COMPLETE"
| "terminal_reason TK_TURN_COMPLETE = Some CR_TURN_COMPLETE"
| "terminal_reason TK_INTERRUPTED = Some CR_INTERRUPTED"
| "terminal_reason TK_TOOL_STARTED = Some CR_TOOL_STARTED"
| "terminal_reason k = None"

fun immediate_reason :: "turn_kind \<Rightarrow> close_reason option" where
  "immediate_reason TK_TOOL_CANCELLED = Some CR_TOOL_CANCELLED"
| "immediate_reason TK_CLOSED = Some CR_CLOSED"
| "immediate_reason TK_RECONNECT = Some CR_RECONNECT"
| "immediate_reason TK_STOPPED = Some CR_STOPPED"
| "immediate_reason k = None"

definition MAX_FRAGMENT_CODEPOINTS :: int where
  "MAX_FRAGMENT_CODEPOINTS = 4000"

definition MAX_FRAGMENT_BYTES :: int where
  "MAX_FRAGMENT_BYTES = 16000"

definition bounded_nonnegative :: "pyval \<Rightarrow> int res" where
  "bounded_nonnegative v = (case v of PInt i \<Rightarrow> if i < 0 then Inl ValueError else Inr i | _ \<Rightarrow> Inl TypeError)"

fun utf8_length :: "string \<Rightarrow> int" where
  "utf8_length [] = 0"
| "utf8_length (c # cs) = (if (of_char c :: nat) < 128 then 1 else 2) + utf8_length cs"

definition fits :: "int \<Rightarrow> int \<Rightarrow> string \<Rightarrow> bool" where
  "fits points bytes s = (int (length s) \<le> points \<and> utf8_length s \<le> bytes)"

definition normalize_fragment :: "pyval \<Rightarrow> string res" where
  "normalize_fragment v = (case v of
       PStr s \<Rightarrow>
         if list_ex (\<lambda>c. (of_char c :: nat) < 32) s then Inl ValueError
         else if \<not> fits MAX_FRAGMENT_CODEPOINTS MAX_FRAGMENT_BYTES s then Inl ValueError else Inr s
     | _ \<Rightarrow> Inl TypeError)"

record turn_event =
  te_kind :: turn_kind
  te_at :: int
  te_sequence :: int
  te_epoch :: int
  te_text :: string

definition make_turn_event :: "turn_kind \<Rightarrow> pyval \<Rightarrow> pyval \<Rightarrow> pyval \<Rightarrow> pyval \<Rightarrow> turn_event res" where
  "make_turn_event kind t sequence epoch txt =
     ebind (bounded_nonnegative t) (\<lambda>t. ebind (bounded_nonnegative sequence) (\<lambda>n. ebind (bounded_nonnegative epoch) (\<lambda>e.
     ebind (normalize_fragment txt) (\<lambda>s.
       if kind \<noteq> TK_FRAGMENT \<and> s \<noteq> [] then Inl ValueError
       else Inr \<lparr>te_kind = kind, te_at = t, te_sequence = n, te_epoch = e, te_text = s\<rparr>))))"

definition item_of :: "(string \<times> pyval) list \<Rightarrow> string \<Rightarrow> pyval res" where
  "item_of kvs k = (case map_of kvs k of None \<Rightarrow> Inl KeyError | Some v \<Rightarrow> Inr v)"

definition turn_event_from_dict :: "pyval \<Rightarrow> turn_event res" where
  "turn_event_from_dict v = (case v of
       PDict kvs \<Rightarrow>
         if \<not> set (map fst kvs) \<subseteq> set [''kind'', ''at_ms'', ''sequence'', ''epoch'', ''text''] then Inl ValueError
         else (case (case map_of kvs ''text'' of None \<Rightarrow> PStr '''' | Some t \<Rightarrow> t) of
             PStr s \<Rightarrow>
               ebind (item_of kvs ''kind'') (\<lambda>k. ebind (enum_of turn_kind_value turn_kinds k) (\<lambda>kind.
               ebind (item_of kvs ''at_ms'') (\<lambda>t. ebind (item_of kvs ''sequence'') (\<lambda>n.
               ebind (item_of kvs ''epoch'') (\<lambda>e. make_turn_event kind t n e (PStr s))))))
           | _ \<Rightarrow> Inl TypeError)
     | _ \<Rightarrow> Inl TypeError)"

record caller_turn =
  ct_epoch :: int
  ct_id :: int
  ct_transcript :: string
  ct_status :: turn_status
  ct_reason :: close_reason
  ct_first :: int
  ct_last_transcript :: int
  ct_terminal :: int
  ct_finalized :: int
  ct_events :: int

definition CALLER_TURN_SCHEMA_VERSION :: int where
  "CALLER_TURN_SCHEMA_VERSION = 1"

text \<open>The fields that the full and the redacted form share.\<close>

definition turn_head :: "caller_turn \<Rightarrow> (string \<times> pyval) list" where
  "turn_head t = [(''schema_version'', PInt CALLER_TURN_SCHEMA_VERSION), (''epoch'', PInt (ct_epoch t)), (''turn_id'', PInt (ct_id t))]"

definition turn_tail :: "caller_turn \<Rightarrow> (string \<times> pyval) list" where
  "turn_tail t = [(''status'', PStr (turn_status_value (ct_status t))), (''close_reason'', PStr (close_reason_value (ct_reason t))),
     (''first_event_at_ms'', PInt (ct_first t)), (''last_transcript_at_ms'', PInt (ct_last_transcript t)),
     (''terminal_at_ms'', PInt (ct_terminal t)), (''finalized_at_ms'', PInt (ct_finalized t)), (''event_count'', PInt (ct_events t))]"

definition turn_to_dict :: "caller_turn \<Rightarrow> pyval" where
  "turn_to_dict t = PDict (turn_head t @ [(''transcript'', PStr (ct_transcript t))] @ turn_tail t)"

definition redacted_report_dict :: "caller_turn \<Rightarrow> pyval" where
  "redacted_report_dict t = PDict (turn_head t @ turn_tail t @ [(''transcript_codepoints'', PInt (int (length (ct_transcript t)))),
     (''transcript_utf8_bytes'', PInt (utf8_length (ct_transcript t)))])"

definition retrospective_turn_observation :: "caller_turn \<Rightarrow> pyval" where
  "retrospective_turn_observation t = PDict [(''scope'', PStr ''retrospective_telemetry_only''),
     (''status'', PStr (turn_status_value (ct_status t))), (''close_reason'', PStr (close_reason_value (ct_reason t))),
     (''epoch'', PInt (ct_epoch t)), (''turn_id'', PInt (ct_id t)), (''event_count'', PInt (ct_events t))]"

section \<open>The assembler\<close>

record assembler =
  as_epoch :: int
  as_quiescence :: int
  as_max_events :: int
  as_max_points :: int
  as_max_bytes :: int
  as_max_retained :: int
  as_next_id :: int
  as_seen :: "int set"
  as_order :: "int list"
  as_last_at :: int
  as_duplicates :: int
  as_stale :: int
  as_fragments :: "string list"
  as_count :: int
  as_first :: "int option"
  as_last_transcript :: "int option"
  as_terminal :: "int option"
  as_reason :: "close_reason option"
  as_deadline :: "int option"

definition new_assembler :: "pyval \<Rightarrow> pyval \<Rightarrow> pyval \<Rightarrow> pyval \<Rightarrow> pyval \<Rightarrow> pyval \<Rightarrow> assembler res" where
  "new_assembler epoch quiescence events points bytes retained =
     ebind (bounded_nonnegative epoch) (\<lambda>e. ebind (bounded_nonnegative quiescence) (\<lambda>q.
       if q = 0 then Inl ValueError
       else ebind (bounded_nonnegative events) (\<lambda>n. ebind (bounded_nonnegative points) (\<lambda>p.
       ebind (bounded_nonnegative bytes) (\<lambda>b.
         if min n (min p b) = 0 then Inl ValueError
         else ebind (bounded_nonnegative retained) (\<lambda>r.
           if r = 0 then Inl ValueError
           else Inr \<lparr>as_epoch = e, as_quiescence = q, as_max_events = n, as_max_points = p, as_max_bytes = b, as_max_retained = r,
             as_next_id = 1, as_seen = {}, as_order = [], as_last_at = 0, as_duplicates = 0, as_stale = 0, as_fragments = [],
             as_count = 0, as_first = None, as_last_transcript = None, as_terminal = None, as_reason = None,
             as_deadline = None\<rparr>))))))"

definition reset_pending :: "assembler \<Rightarrow> assembler" where
  "reset_pending s = s\<lparr>as_fragments := [], as_count := 0, as_first := None, as_last_transcript := None, as_terminal := None,
     as_reason := None, as_deadline := None\<rparr>"

definition has_pending :: "assembler \<Rightarrow> bool" where
  "has_pending s = (0 < as_count s \<or> as_fragments s \<noteq> [])"

definition or_else :: "'a option \<Rightarrow> 'a \<Rightarrow> 'a" where
  "or_else x d = (case x of None \<Rightarrow> d | Some y \<Rightarrow> y)"

definition finalize :: "int \<Rightarrow> turn_status \<Rightarrow> close_reason \<Rightarrow> bool \<Rightarrow> assembler \<Rightarrow> caller_turn list \<times> assembler" where
  "finalize t status reason retain s =
     (let transcript = py_strip (concat (as_fragments s)) in
      if transcript = [] \<and> status \<noteq> TS_DROPPED then ([], reset_pending s)
      else if \<not> has_pending s then ([], s)
      else let first = or_else (as_first s) t in
        ([\<lparr>ct_epoch = as_epoch s, ct_id = as_next_id s, ct_transcript = (if retain then transcript else ''''), ct_status = status,
           ct_reason = reason, ct_first = first, ct_last_transcript = or_else (as_last_transcript s) first,
           ct_terminal = or_else (as_terminal s) t, ct_finalized = t, ct_events = as_count s\<rparr>],
         reset_pending (s\<lparr>as_next_id := as_next_id s + 1\<rparr>)))"

definition finalize_expired :: "int \<Rightarrow> assembler \<Rightarrow> caller_turn list \<times> assembler" where
  "finalize_expired observed s = (case as_deadline s of
       None \<Rightarrow> ([], s)
     | Some d \<Rightarrow> if observed < d then ([], s)
         else finalize d TS_COMPLETE (or_else (as_reason s) CR_TURN_COMPLETE) True s)"

definition drop_for_resource_limit :: "int \<Rightarrow> assembler \<Rightarrow> caller_turn list \<times> assembler" where
  "drop_for_resource_limit t = finalize t TS_DROPPED CR_RESOURCE_LIMIT False"

definition record_event :: "turn_event \<Rightarrow> assembler \<Rightarrow> assembler" where
  "record_event e s = s\<lparr>as_first := Some (or_else (as_first s) (te_at e)), as_count := as_count s + 1\<rparr>"

definition closing_status :: "turn_kind \<Rightarrow> turn_status" where
  "closing_status k = (if k = TK_TOOL_CANCELLED then TS_CANCELLED else TS_PARTIAL)"

text \<open>The event is new in its epoch, and its time has been noted.\<close>

definition take_event :: "turn_event \<Rightarrow> assembler \<Rightarrow> caller_turn list \<times> assembler" where
  "take_event e s =
     (if te_kind e = TK_RECONNECT then
        (if has_pending s then finalize (te_at e) TS_PARTIAL CR_RECONNECT True s else ([], s))
      else
        let s = record_event e s in
        if as_max_events s < as_count s then drop_for_resource_limit (te_at e) s
        else if te_kind e = TK_FRAGMENT then
          (let s = s\<lparr>as_fragments := as_fragments s @ [te_text e], as_last_transcript := Some (te_at e)\<rparr> in
           if \<not> fits (as_max_points s) (as_max_bytes s) (concat (as_fragments s)) then drop_for_resource_limit (te_at e) s
           else if as_terminal s \<noteq> None then ([], s\<lparr>as_deadline := Some (te_at e + as_quiescence s)\<rparr>)
           else ([], s))
        else (case terminal_reason (te_kind e) of
            Some reason \<Rightarrow>
              ([], s\<lparr>as_terminal := Some (te_at e), as_reason := Some reason, as_deadline := Some (te_at e + as_quiescence s)\<rparr>)
          | None \<Rightarrow> (case immediate_reason (te_kind e) of
              Some reason \<Rightarrow> finalize (te_at e) (closing_status (te_kind e)) reason True s
            | None \<Rightarrow> ([], s))))"

definition remember :: "int \<Rightarrow> assembler \<Rightarrow> assembler" where
  "remember n s =
     (let s = s\<lparr>as_seen := insert n (as_seen s), as_order := as_order s @ [n]\<rparr> in
      if as_max_retained s < int (length (as_order s))
      then s\<lparr>as_seen := as_seen s - {hd (as_order s)}, as_order := tl (as_order s)\<rparr> else s)"

definition enter_epoch :: "turn_event \<Rightarrow> assembler \<Rightarrow> caller_turn list \<times> assembler" where
  "enter_epoch e s =
     (if as_epoch s < te_epoch e then
        (let (out, s) = finalize (te_at e) TS_PARTIAL CR_RECONNECT True s in
         (out, s\<lparr>as_epoch := te_epoch e, as_seen := {}, as_order := [], as_last_at := te_at e\<rparr>))
      else ([], s))"

definition out_of_epoch :: "turn_event \<Rightarrow> assembler \<Rightarrow> bool" where
  "out_of_epoch e s = (te_epoch e < as_epoch s \<or> as_epoch s < te_epoch e \<and> te_kind e \<noteq> TK_RECONNECT)"

definition ingest_event :: "turn_event \<Rightarrow> assembler \<Rightarrow> (caller_turn list \<times> assembler) res" where
  "ingest_event e s =
     (if out_of_epoch e s then Inr ([], s\<lparr>as_stale := as_stale s + 1\<rparr>)
      else if te_at e < as_last_at s then Inl ValueError
      else
        let (out1, s) = finalize_expired (te_at e) s;
            (out2, s) = enter_epoch e s;
            s = s\<lparr>as_last_at := te_at e\<rparr> in
        if te_sequence e \<in> as_seen s then Inr (out1 @ out2, s\<lparr>as_duplicates := as_duplicates s + 1\<rparr>)
        else let (out3, s) = take_event e (remember (te_sequence e) s) in Inr (out1 @ out2 @ out3, s))"

definition advance_time :: "pyval \<Rightarrow> assembler \<Rightarrow> (caller_turn list \<times> assembler) res" where
  "advance_time v s = ebind (bounded_nonnegative v) (\<lambda>t.
     if t < as_last_at s then Inl ValueError else Inr (finalize_expired t (s\<lparr>as_last_at := t\<rparr>)))"

definition finish_turns :: "pyval \<Rightarrow> close_reason \<Rightarrow> assembler \<Rightarrow> (caller_turn list \<times> assembler) res" where
  "finish_turns v reason s = ebind (bounded_nonnegative v) (\<lambda>t.
     if t < as_last_at s then Inl ValueError
     else Inr (finalize t (if reason = CR_TOOL_CANCELLED then TS_CANCELLED else TS_PARTIAL) reason True
       (s\<lparr>as_last_at := t\<rparr>)))"

end
