(* ===== verification/Caller_Turn_Safety.thy ===== *)
theory Caller_Turn_Safety
  imports Caller_Turns
begin

text \<open>
  The turns that app/services/caller_turns.py assembles: the invariant of the assembler and of the turns it has given out, kept
  by every operation, and the account of every fragment heard. A run is any sequence of calls of ingest, advance_time and finish.
\<close>

section \<open>The invariant of the assembler\<close>

definition settings_ok :: "assembler \<Rightarrow> bool" where
  "settings_ok s = (0 < as_quiescence s \<and> 0 < as_max_events s \<and> 0 < as_max_points s \<and> 0 < as_max_bytes s \<and> 0 < as_max_retained s)"

definition memory_ok :: "assembler \<Rightarrow> bool" where
  "memory_ok s = (as_seen s = set (as_order s) \<and> distinct (as_order s) \<and> int (length (as_order s)) \<le> as_max_retained s)"

text \<open>The pending turn: its counts and limits, and the order of its times.\<close>

definition times_ok :: "assembler \<Rightarrow> bool" where
  "times_ok s = (\<forall>f. as_first s = Some f \<longrightarrow> f \<le> as_last_at s \<and>
     (\<forall>l. as_last_transcript s = Some l \<longrightarrow> f \<le> l \<and> l \<le> as_last_at s \<and> (\<forall>d. as_deadline s = Some d \<longrightarrow> l \<le> d)) \<and>
     (\<forall>t. as_terminal s = Some t \<longrightarrow> f \<le> t \<and> t \<le> as_last_at s \<and> (\<forall>d. as_deadline s = Some d \<longrightarrow> t \<le> d)))"

definition pending_ok :: "assembler \<Rightarrow> bool" where
  "pending_ok s =
     (0 \<le> as_count s \<and> as_count s \<le> as_max_events s \<and> fits (as_max_points s) (as_max_bytes s) (concat (as_fragments s)) \<and>
      (as_first s = None \<longleftrightarrow> as_count s = 0) \<and> (as_count s = 0 \<longrightarrow> as_fragments s = [] \<and> as_terminal s = None \<and> as_last_transcript s = None) \<and>
      (as_terminal s = None \<longleftrightarrow> as_deadline s = None) \<and> times_ok s)"

definition assembler_ok :: "assembler \<Rightarrow> bool" where
  "assembler_ok s = (settings_ok s \<and> memory_ok s \<and> pending_ok s)"

text \<open>A turn within the limits of the assembler, with its times in order.\<close>

definition turn_ok :: "assembler \<Rightarrow> caller_turn \<Rightarrow> bool" where
  "turn_ok s t =
     (ct_first t \<le> ct_last_transcript t \<and> ct_last_transcript t \<le> ct_finalized t \<and> ct_first t \<le> ct_terminal t \<and>
      ct_terminal t \<le> ct_finalized t \<and> 0 < ct_events t \<and> ct_events t \<le> as_max_events s + 1 \<and>
      fits (as_max_points s) (as_max_bytes s) (ct_transcript t) \<and>
      (if ct_status t = TS_DROPPED then ct_reason t = CR_RESOURCE_LIMIT \<and> ct_transcript t = []
       else ct_transcript t \<noteq> [] \<and> py_strip (ct_transcript t) = ct_transcript t \<and> ct_events t \<le> as_max_events s))"

lemma utf8_nonneg: "0 \<le> utf8_length s"
  by (induction s) auto

lemma utf8_append [simp]: "utf8_length (xs @ ys) = utf8_length xs + utf8_length ys"
  by (induction xs) auto

lemma utf8_rev [simp]: "utf8_length (rev s) = utf8_length s"
  by (induction s) auto

lemma utf8_dropWhile: "utf8_length (dropWhile P s) \<le> utf8_length s"
  using utf8_nonneg by (induction s) (auto intro: order_trans)

lemma fits_strip: "fits p b s \<Longrightarrow> fits p b (py_strip s)"
proof -
  assume "fits p b s"
  moreover have "utf8_length (py_strip s) \<le> utf8_length s"
    using utf8_dropWhile [of py_space "rev (dropWhile py_space s)"] utf8_dropWhile [of py_space s] by (simp add: py_strip_def)
  ultimately show ?thesis using length_py_strip [of s] by (simp add: fits_def)
qed

lemma fits_empty: "settings_ok s \<Longrightarrow> fits (as_max_points s) (as_max_bytes s) []"
  by (simp add: fits_def settings_ok_def)

definition same_settings :: "assembler \<Rightarrow> assembler \<Rightarrow> bool" where
  "same_settings s s' = (as_quiescence s' = as_quiescence s \<and> as_max_events s' = as_max_events s \<and>
     as_max_points s' = as_max_points s \<and> as_max_bytes s' = as_max_bytes s \<and> as_max_retained s' = as_max_retained s)"

lemma reset_ok: "settings_ok s \<Longrightarrow> pending_ok (reset_pending s)"
  by (simp add: pending_ok_def times_ok_def reset_pending_def fits_def settings_ok_def)

section \<open>Turns in their order\<close>

text \<open>The turns so far are numbered from one, follow each other in time, and lie before what is pending.\<close>

definition follows :: "caller_turn \<Rightarrow> caller_turn \<Rightarrow> bool" where
  "follows a b = (ct_finalized a \<le> ct_first b \<and> ct_epoch a \<le> ct_epoch b)"

definition turns_ok :: "caller_turn list \<Rightarrow> assembler \<Rightarrow> bool" where
  "turns_ok ts s =
     (assembler_ok s \<and> as_next_id s = int (length ts) + 1 \<and> map ct_id ts = [1..int (length ts)] \<and> sorted_wrt follows ts \<and>
      (\<forall>t \<in> set ts. turn_ok s t \<and> ct_epoch t \<le> as_epoch s \<and> ct_finalized t \<le> as_last_at s \<and>
         (\<forall>f. as_first s = Some f \<longrightarrow> ct_finalized t \<le> f)))"

text \<open>Finalising a pending turn, whose count and times are in order, at a time that is not before them.\<close>

lemma finalize_turns:
  assumes s: "turns_ok ts s0" "settings_ok s" "memory_ok s" "same_settings s0 s" "as_next_id s = as_next_id s0"
      "as_epoch s = as_epoch s0" "as_last_at s0 \<le> as_last_at s"
    and pend: "0 < as_count s" "as_count s \<le> as_max_events s + 1" "as_first s = Some f" "\<And>t. t \<in> set ts \<Longrightarrow> ct_finalized t \<le> f"
      "times_ok s"
    and t: "t \<le> as_last_at s" "f \<le> t" "\<And>l. as_last_transcript s = Some l \<Longrightarrow> l \<le> t" "\<And>l. as_terminal s = Some l \<Longrightarrow> l \<le> t"
    and st: "(status = TS_DROPPED \<and> \<not> retain \<and> reason = CR_RESOURCE_LIMIT) \<or>
      (status \<noteq> TS_DROPPED \<and> retain \<and> as_count s \<le> as_max_events s \<and> fits (as_max_points s) (as_max_bytes s) (concat (as_fragments s)))"
    and out: "finalize t status reason retain s = (out, s')"
  shows "turns_ok (ts @ out) s'"
proof -
  have set': "settings_ok s'" "memory_ok s'" "same_settings s0 s'" "as_epoch s' = as_epoch s0" "as_last_at s' = as_last_at s"
      "as_first s' = None" "pending_ok s'"
    using out pend(1) assms(2-6) reset_ok [OF assms(2)] reset_ok [of "s\<lparr>as_next_id := as_next_id s + 1\<rparr>"]
    by (auto simp: finalize_def has_pending_def Let_def reset_pending_def settings_ok_def memory_ok_def same_settings_def
        split: if_splits)
  have ok: "turn_ok s' x = turn_ok s0 x" for x
    using set'(3) by (simp add: turn_ok_def same_settings_def)
  show ?thesis
  proof (cases "py_strip (concat (as_fragments s)) = [] \<and> status \<noteq> TS_DROPPED")
    case True
    with out have "out = []" "s' = reset_pending s" by (auto simp: finalize_def)
    then show ?thesis using s set' ok by (auto simp: turns_ok_def assembler_ok_def reset_pending_def)
  next
    case False
    let ?x = "\<lparr>ct_epoch = as_epoch s, ct_id = as_next_id s, ct_transcript = (if retain then py_strip (concat (as_fragments s)) else ''''),
        ct_status = status, ct_reason = reason, ct_first = f, ct_last_transcript = or_else (as_last_transcript s) f,
        ct_terminal = or_else (as_terminal s) t, ct_finalized = t, ct_events = as_count s\<rparr>"
    from False out pend(1,3) have o: "out = [?x]" "s' = reset_pending (s\<lparr>as_next_id := as_next_id s + 1\<rparr>)"
      by (auto simp: finalize_def has_pending_def Let_def or_else_def)
    have "f \<le> or_else (as_last_transcript s) f" "or_else (as_last_transcript s) f \<le> t" "f \<le> or_else (as_terminal s) t"
      "or_else (as_terminal s) t \<le> t"
      using pend(3,5) t by (auto simp: times_ok_def or_else_def split: option.splits)
    then have x: "turn_ok s' ?x"
      using pend(1,2) st False set'(1,3) assms(4) fits_strip fits_empty [OF assms(2)]
      by (auto simp: turn_ok_def same_settings_def)
    have "[1..1 + int (length ts)] = [1..int (length ts)] @ [1 + int (length ts)]"
      using upto_rec2 [of 1 "1 + int (length ts)"] by simp
    then show ?thesis
      using s set' x ok pend(4) t(1)
      by (auto simp: turns_ok_def assembler_ok_def o reset_pending_def sorted_wrt_append follows_def)
  qed
qed


lemma finalize_frame:
  "finalize t status reason retain s = (out, s') \<Longrightarrow>
   as_epoch s' = as_epoch s \<and> as_last_at s' = as_last_at s \<and> as_seen s' = as_seen s \<and> as_order s' = as_order s \<and>
   same_settings s s'"
  by (auto simp: finalize_def Let_def reset_pending_def same_settings_def split: if_splits)

lemma finalize_later:
  "finalize t status reason retain (s\<lparr>as_last_at := n\<rparr>) =
     (fst (finalize t status reason retain s), (snd (finalize t status reason retain s))\<lparr>as_last_at := n\<rparr>)"
  by (simp add: finalize_def Let_def reset_pending_def has_pending_def)

lemma turns_later: "turns_ok ts s \<Longrightarrow> as_last_at s \<le> n \<Longrightarrow> turns_ok ts (s\<lparr>as_last_at := n\<rparr>)"
  unfolding turns_ok_def assembler_ok_def settings_ok_def memory_ok_def pending_ok_def times_ok_def turn_ok_def by fastforce

text \<open>Whatever is pending can be closed now.\<close>

lemma finalize_now:
  assumes "turns_ok ts s" "status \<noteq> TS_DROPPED" "finalize (as_last_at s) status reason True s = (out, s')"
  shows "turns_ok (ts @ out) s'"
proof (cases "as_count s = 0")
  case True
  with assms have "out = []" "s' = reset_pending s"
    by (auto simp: turns_ok_def assembler_ok_def pending_ok_def finalize_def py_strip_def)
  then show ?thesis
    using assms(1) reset_ok [of s]
    by (auto simp: turns_ok_def assembler_ok_def reset_pending_def settings_ok_def memory_ok_def turn_ok_def)
next
  case False
  from assms(1) have ok: "settings_ok s" "memory_ok s" "pending_ok s" by (auto simp: turns_ok_def assembler_ok_def)
  with False obtain f where f: "as_first s = Some f" by (auto simp: pending_ok_def)
  show ?thesis
    by (rule finalize_turns [OF assms(1) ok(1,2) _ _ _ _ _ _ f _ _ _ _ _ _ _ assms(3)])
      (use ok False assms(1,2) f in \<open>auto simp: pending_ok_def same_settings_def times_ok_def turns_ok_def\<close>)
qed

lemma finalize_expired_turns:
  assumes "turns_ok ts s" "finalize_expired (as_last_at s) s = (out, s')"
  shows "turns_ok (ts @ out) s'"
proof (cases "\<exists>d. as_deadline s = Some d \<and> d \<le> as_last_at s")
  case False
  with assms show ?thesis by (auto simp: finalize_expired_def split: option.splits if_splits)
next
  case True
  then obtain d where d: "as_deadline s = Some d" "d \<le> as_last_at s" by blast
  from assms(1) have ok: "settings_ok s" "memory_ok s" "pending_ok s" by (auto simp: turns_ok_def assembler_ok_def)
  from ok(3) d have t: "as_terminal s \<noteq> None" "as_count s \<noteq> 0" by (auto simp: pending_ok_def)
  with ok(3) obtain f where f: "as_first s = Some f" by (auto simp: pending_ok_def)
  have out: "finalize d TS_COMPLETE (or_else (as_reason s) CR_TURN_COMPLETE) True s = (out, s')"
    using assms(2) d by (simp add: finalize_expired_def)
  show ?thesis
    by (rule finalize_turns [OF assms(1) ok(1,2) _ _ _ _ _ _ f _ _ _ _ _ _ _ out])
      (use ok t assms(1) f d in \<open>auto simp: pending_ok_def same_settings_def times_ok_def turns_ok_def\<close>)
qed

lemma finalize_expired_frame:
  "finalize_expired n s = (out, s') \<Longrightarrow>
   as_epoch s' = as_epoch s \<and> as_last_at s' = as_last_at s \<and> as_seen s' = as_seen s \<and> as_order s' = as_order s \<and> same_settings s s'"
  by (auto simp: finalize_expired_def same_settings_def dest!: finalize_frame split: option.splits if_splits)

lemma enter_epoch_turns:
  assumes "turns_ok ts s" "te_at e = as_last_at s" "enter_epoch e s = (out, s')"
  shows "turns_ok (ts @ out) s' \<and> as_last_at s' = as_last_at s"
proof (cases "as_epoch s < te_epoch e")
  case True
  obtain out1 s1 where f: "finalize (te_at e) TS_PARTIAL CR_RECONNECT True s = (out1, s1)" by fastforce
  with True assms have s': "out = out1" "s' = s1\<lparr>as_epoch := te_epoch e, as_seen := {}, as_order := [], as_last_at := te_at e\<rparr>"
    by (auto simp: enter_epoch_def)
  have "turns_ok (ts @ out1) s1" using finalize_now [OF assms(1), of TS_PARTIAL CR_RECONNECT] f assms(2) by simp
  moreover have "as_epoch s1 = as_epoch s" "as_last_at s1 = te_at e" using finalize_frame [OF f] assms(2) by simp_all
  ultimately show ?thesis
    using True assms(2) unfolding s' turns_ok_def assembler_ok_def settings_ok_def memory_ok_def pending_ok_def times_ok_def turn_ok_def
    by fastforce
qed (use assms in \<open>simp add: enter_epoch_def\<close>)

lemma remember_turns:
  assumes "turns_ok ts s" "n \<notin> as_seen s"
  shows "turns_ok ts (remember n s)"
proof -
  have m: "memory_ok s" and r: "0 < as_max_retained s" using assms(1) by (auto simp: turns_ok_def assembler_ok_def settings_ok_def)
  have "memory_ok (remember n s)"
  proof (cases "as_order s")
    case Nil
    with m r show ?thesis by (auto simp: memory_ok_def remember_def Let_def)
  next
    case (Cons a xs)
    with m assms(2) show ?thesis by (auto simp: memory_ok_def remember_def Let_def)
  qed
  then show ?thesis
    using assms(1) by (auto simp: turns_ok_def assembler_ok_def settings_ok_def pending_ok_def times_ok_def turn_ok_def remember_def Let_def)
qed


lemma record_event_frame:
  "as_epoch (record_event e s) = as_epoch s" "as_last_at (record_event e s) = as_last_at s"
  "as_seen (record_event e s) = as_seen s" "as_order (record_event e s) = as_order s" "as_next_id (record_event e s) = as_next_id s"
  "as_fragments (record_event e s) = as_fragments s" "same_settings s (record_event e s)"
  "as_count (record_event e s) = as_count s + 1" "as_first (record_event e s) = Some (or_else (as_first s) (te_at e))"
  "as_terminal (record_event e s) = as_terminal s" "as_last_transcript (record_event e s) = as_last_transcript s"
  "as_deadline (record_event e s) = as_deadline s" "as_max_events (record_event e s) = as_max_events s"
  "as_max_points (record_event e s) = as_max_points s" "as_max_bytes (record_event e s) = as_max_bytes s"
  "as_quiescence (record_event e s) = as_quiescence s" "as_max_retained (record_event e s) = as_max_retained s"
  by (simp_all add: record_event_def same_settings_def)

text \<open>A state that has taken one more event into what is pending, before its limits are checked.\<close>

definition grown :: "turn_event \<Rightarrow> caller_turn list \<Rightarrow> assembler \<Rightarrow> assembler \<Rightarrow> bool" where
  "grown e ts s s1 =
     (turns_ok ts s \<and> settings_ok s1 \<and> memory_ok s1 \<and> same_settings s s1 \<and> as_next_id s1 = as_next_id s \<and> as_epoch s1 = as_epoch s \<and>
      as_last_at s1 = as_last_at s \<and> as_last_at s = te_at e \<and> as_count s1 = as_count s + 1 \<and>
      as_first s1 = Some (or_else (as_first s) (te_at e)) \<and> times_ok s1 \<and> (as_terminal s1 = None \<longleftrightarrow> as_deadline s1 = None))"

lemma grown_first:
  assumes "grown e ts s s1"
  shows "0 < as_count s1" "as_count s1 \<le> as_max_events s1 + 1" "or_else (as_first s) (te_at e) \<le> te_at e"
    "\<And>t. t \<in> set ts \<Longrightarrow> ct_finalized t \<le> or_else (as_first s) (te_at e)"
    "\<And>l. as_last_transcript s1 = Some l \<Longrightarrow> l \<le> te_at e" "\<And>l. as_terminal s1 = Some l \<Longrightarrow> l \<le> te_at e"
  using assms by (auto simp: grown_def turns_ok_def assembler_ok_def pending_ok_def times_ok_def same_settings_def or_else_def
      split: option.splits)

lemma grown_keeps:
  assumes "grown e ts s s1" "as_count s1 \<le> as_max_events s1" "fits (as_max_points s1) (as_max_bytes s1) (concat (as_fragments s1))"
  shows "turns_ok ts s1"
proof -
  have "pending_ok s1" using assms grown_first(1) [OF assms(1)] by (auto simp: grown_def pending_ok_def)
  then show ?thesis
    using assms(1) grown_first(4) [OF assms(1)]
    by (auto simp: grown_def turns_ok_def assembler_ok_def turn_ok_def same_settings_def)
qed

lemma grown_closes:
  assumes "grown e ts s s1"
    and st: "(status = TS_DROPPED \<and> \<not> retain \<and> reason = CR_RESOURCE_LIMIT) \<or>
      (status \<noteq> TS_DROPPED \<and> retain \<and> as_count s1 \<le> as_max_events s1 \<and> fits (as_max_points s1) (as_max_bytes s1) (concat (as_fragments s1)))"
    and out: "finalize (te_at e) status reason retain s1 = (out, s')"
  shows "turns_ok (ts @ out) s'"
proof -
  note g = grown_first [OF assms(1)]
  show ?thesis
    by (rule finalize_turns [OF _ _ _ _ _ _ _ g(1,2) _ g(4) _ _ g(3,5,6) st out])
      (use assms(1) in \<open>auto simp: grown_def\<close>)
qed

lemma recorded_grown:
  assumes "turns_ok ts s" "as_last_at s = te_at e"
  shows "grown e ts s (record_event e s)"
proof -
  have "times_ok s" "memory_ok s" "settings_ok s" "pending_ok s"
    using assms(1) by (auto simp: turns_ok_def assembler_ok_def pending_ok_def)
  then show ?thesis using assms
    by (auto simp: grown_def record_event_def same_settings_def settings_ok_def memory_ok_def pending_ok_def times_ok_def or_else_def
        split: option.splits)
qed



lemma take_event_turns:
  assumes "turns_ok ts s" "as_last_at s = te_at e" "take_event e s = (out, s')"
      "\<And>d. as_deadline s = Some d \<Longrightarrow> te_at e < d"
  shows "turns_ok (ts @ out) s'"
proof (cases "te_kind e = TK_RECONNECT")
  case True
  with assms show ?thesis using finalize_now [OF assms(1), of TS_PARTIAL CR_RECONNECT out s'] by (auto simp: take_event_def split: if_splits)
next
  case no_reconnect: False
  let ?r = "record_event e s"
  let ?f = "?r\<lparr>as_fragments := as_fragments s @ [te_text e], as_last_transcript := Some (te_at e)\<rparr>"
  note g = recorded_grown [OF assms(1,2)]
  have lim: "as_max_events ?r < as_count ?r \<or> (as_count ?r \<le> as_max_events ?r \<and>
      fits (as_max_points ?r) (as_max_bytes ?r) (concat (as_fragments ?r)))"
    using assms(1) by (auto simp: record_event_frame turns_ok_def assembler_ok_def pending_ok_def)
  have gf: "grown e ts s ?f"
    using g assms(4) by (auto simp: grown_def settings_ok_def memory_ok_def same_settings_def times_ok_def record_event_frame or_else_def split: option.splits)
  consider (events) "as_max_events ?r < as_count ?r"
    | (fragment) "as_count ?r \<le> as_max_events ?r" "te_kind e = TK_FRAGMENT"
    | (ends) reason where "as_count ?r \<le> as_max_events ?r" "terminal_reason (te_kind e) = Some reason"
    | (immediate) reason where "as_count ?r \<le> as_max_events ?r" "te_kind e \<noteq> TK_FRAGMENT" "terminal_reason (te_kind e) = None"
        "immediate_reason (te_kind e) = Some reason"
    using no_reconnect by (cases "te_kind e") (fastforce simp: not_less)+
  then show ?thesis
  proof cases
    case events
    with assms(3) no_reconnect have "drop_for_resource_limit (te_at e) ?r = (out, s')" by (simp add: take_event_def Let_def)
    then show ?thesis using grown_closes [OF g, of TS_DROPPED False CR_RESOURCE_LIMIT] by (simp add: drop_for_resource_limit_def)
  next
    case ends
    then have "te_kind e \<noteq> TK_FRAGMENT" by auto
    with ends assms(3) no_reconnect have o: "out = []"
      "s' = ?r\<lparr>as_terminal := Some (te_at e), as_reason := Some reason, as_deadline := Some (te_at e + as_quiescence ?r)\<rparr>"
      by (auto simp: take_event_def Let_def)
    have "grown e ts s s'"
      using g unfolding o
      by (auto simp: grown_def settings_ok_def memory_ok_def same_settings_def times_ok_def record_event_frame or_else_def split: option.splits)
    then show ?thesis using lim ends(1) grown_keeps [of e ts s s'] by (auto simp: o record_event_frame)
  next
    case immediate
    with assms(3) no_reconnect have "finalize (te_at e) (closing_status (te_kind e)) reason True ?r = (out, s')"
      by (simp add: take_event_def Let_def)
    then show ?thesis using grown_closes [OF g, of "closing_status (te_kind e)"] lim immediate(1) by (auto simp: closing_status_def split: if_splits)
  next
    case fragment
    show ?thesis
    proof (cases "fits (as_max_points ?f) (as_max_bytes ?f) (concat (as_fragments ?f))")
      case False
      with fragment assms(3) have "drop_for_resource_limit (te_at e) ?f = (out, s')"
        by (auto simp: take_event_def Let_def record_event_frame split: if_splits)
      then show ?thesis using grown_closes [OF gf, of TS_DROPPED False CR_RESOURCE_LIMIT] by (simp add: drop_for_resource_limit_def)
    next
      case True
      with fragment assms(3) have o: "out = []"
        "s' = (if as_terminal s \<noteq> None then ?f\<lparr>as_deadline := Some (te_at e + as_quiescence s)\<rparr> else ?f)"
        by (auto simp: take_event_def Let_def record_event_frame split: if_splits)
      have "grown e ts s s'"
        using gf assms(2) unfolding o
        by (auto simp: grown_def settings_ok_def memory_ok_def same_settings_def times_ok_def record_event_frame or_else_def split: option.splits)
      then show ?thesis using True fragment grown_keeps [of e ts s s'] by (auto simp: o record_event_frame)
    qed
  qed
qed


section \<open>The operations keep the turns in order\<close>

lemma finalize_resets:
  "status \<noteq> TS_DROPPED \<Longrightarrow> finalize t status reason retain s = (out, s') \<Longrightarrow> as_deadline s' = None"
  by (auto simp: finalize_def Let_def reset_pending_def has_pending_def py_strip_def split: if_splits)

lemma finalize_expired_deadline:
  "finalize_expired n s = (out, s') \<Longrightarrow> as_deadline s' = Some d \<Longrightarrow> n < d"
  by (auto simp: finalize_expired_def dest!: finalize_resets [rotated] split: option.splits if_splits)

lemma enter_epoch_deadline: "enter_epoch e s = (out, s') \<Longrightarrow> as_deadline s' = Some d \<Longrightarrow> as_deadline s = Some d"
  by (auto simp: enter_epoch_def dest!: finalize_resets [rotated] split: prod.splits if_splits)

text \<open>The time of an event can be noted before the expired turn is closed.\<close>

lemma finalize_expired_later:
  "finalize_expired t s = (out, s') \<Longrightarrow> finalize_expired t (s\<lparr>as_last_at := n\<rparr>) = (out, s'\<lparr>as_last_at := n\<rparr>)"
  by (auto simp: finalize_expired_def finalize_later split: option.splits)

lemma enter_epoch_later:
  "enter_epoch e s = (out, s') \<Longrightarrow> enter_epoch e (s\<lparr>as_last_at := te_at e\<rparr>) = (out, s'\<lparr>as_last_at := te_at e\<rparr>)"
  by (auto simp: enter_epoch_def finalize_later split: prod.splits if_splits)

lemma ingest_event_cases:
  assumes "ingest_event e s = Inr (out, s')"
  obtains (stale) "out_of_epoch e s" "out = []" "s' = s\<lparr>as_stale := as_stale s + 1\<rparr>"
  | (fresh) out1 s1 out2 s2 where "\<not> out_of_epoch e s" "as_last_at s \<le> te_at e"
      "finalize_expired (te_at e) (s\<lparr>as_last_at := te_at e\<rparr>) = (out1, s1)" "enter_epoch e s1 = (out2, s2)"
      "if te_sequence e \<in> as_seen s2 then out = out1 @ out2 \<and> s' = s2\<lparr>as_duplicates := as_duplicates s2 + 1\<rparr>
       else \<exists>out3. take_event e (remember (te_sequence e) s2) = (out3, s') \<and> out = out1 @ out2 @ out3"
proof -
  consider (o) "out_of_epoch e s" | (r) "\<not> out_of_epoch e s" "te_at e < as_last_at s" | (n) "\<not> out_of_epoch e s" "as_last_at s \<le> te_at e"
    by linarith
  then show ?thesis
  proof cases
    case n
    obtain out1 s1 where f: "finalize_expired (te_at e) s = (out1, s1)" by fastforce
    obtain out2 s2 where g: "enter_epoch e s1 = (out2, s2)" by fastforce
    show ?thesis
      by (rule fresh [OF n finalize_expired_later [OF f] enter_epoch_later [OF g]])
        (use assms n f g in \<open>auto simp: ingest_event_def split: prod.splits if_splits\<close>)
  qed (use assms stale in \<open>auto simp: ingest_event_def\<close>)
qed

lemma ingest_event_turns:
  assumes "turns_ok ts s" "ingest_event e s = Inr (out, s')"
  shows "turns_ok (ts @ out) s'"
  using assms(2)
proof (cases rule: ingest_event_cases)
  case stale
  then show ?thesis using assms(1)
    by (auto simp: turns_ok_def assembler_ok_def settings_ok_def memory_ok_def pending_ok_def times_ok_def turn_ok_def)
next
  case (fresh out1 s1 out2 s2)
  let ?s = "s\<lparr>as_last_at := te_at e\<rparr>"
  have 1: "turns_ok (ts @ out1) s1" "as_last_at s1 = te_at e"
    using finalize_expired_turns [OF turns_later [OF assms(1) fresh(2)]] finalize_expired_frame [OF fresh(3)] fresh(3) by simp_all
  have 2: "turns_ok (ts @ out1 @ out2) s2" "as_last_at s2 = te_at e"
    using enter_epoch_turns [OF 1(1) _ fresh(4)] 1(2) by simp_all
  show ?thesis
  proof (cases "te_sequence e \<in> as_seen s2")
    case True
    with fresh(5) 2(1) show ?thesis
      by (auto simp: turns_ok_def assembler_ok_def settings_ok_def memory_ok_def pending_ok_def times_ok_def turn_ok_def)
  next
    case False
    then obtain out3 where t: "take_event e (remember (te_sequence e) s2) = (out3, s')" "out = out1 @ out2 @ out3"
      using fresh(5) by auto
    have "as_last_at (remember (te_sequence e) s2) = te_at e" using 2(2) by (simp add: remember_def Let_def)
    moreover have "te_at e < d" if "as_deadline (remember (te_sequence e) s2) = Some d" for d
    proof -
      from that have "as_deadline s2 = Some d" by (simp add: remember_def Let_def split: if_splits)
      then show ?thesis using finalize_expired_deadline [OF fresh(3)] enter_epoch_deadline [OF fresh(4)] by blast
    qed
    ultimately show ?thesis using take_event_turns [OF remember_turns [OF 2(1) False] _ t(1)] t(2) by simp
  qed
qed

lemma advance_time_turns:
  assumes "turns_ok ts s" "advance_time v s = Inr (out, s')"
  shows "turns_ok (ts @ out) s'"
proof -
  from assms(2) obtain t where "as_last_at s \<le> t" "finalize_expired t (s\<lparr>as_last_at := t\<rparr>) = (out, s')"
    by (fastforce simp: advance_time_def ebind_def not_less split: sum.splits if_splits)
  then show ?thesis using finalize_expired_turns [OF turns_later [OF assms(1)], of t] by simp
qed

lemma finish_turns_turns:
  assumes "turns_ok ts s" "finish_turns v reason s = Inr (out, s')"
  shows "turns_ok (ts @ out) s'"
proof -
  from assms(2) obtain t where "as_last_at s \<le> t"
    "finalize t (if reason = CR_TOOL_CANCELLED then TS_CANCELLED else TS_PARTIAL) reason True (s\<lparr>as_last_at := t\<rparr>) = (out, s')"
    by (fastforce simp: finish_turns_def ebind_def not_less split: sum.splits if_splits)
  then show ?thesis using finalize_now [OF turns_later [OF assms(1)], of t "if reason = CR_TOOL_CANCELLED then TS_CANCELLED else TS_PARTIAL"]
    by (auto split: if_splits)
qed

section \<open>Runs\<close>

datatype turn_input = In_Event turn_event | In_Time pyval | In_Finish pyval close_reason

fun turn_input_result :: "turn_input \<Rightarrow> assembler \<Rightarrow> (caller_turn list \<times> assembler) res" where
  "turn_input_result (In_Event e) s = ingest_event e s"
| "turn_input_result (In_Time v) s = advance_time v s"
| "turn_input_result (In_Finish v r) s = finish_turns v r s"

text \<open>The turns so far and the state; a call that raises leaves both.\<close>

fun run_turns :: "turn_input list \<Rightarrow> caller_turn list \<Rightarrow> assembler \<Rightarrow> caller_turn list \<times> assembler" where
  "run_turns [] ts s = (ts, s)"
| "run_turns (i # is) ts s = (case turn_input_result i s of
       Inl _ \<Rightarrow> run_turns is ts s
     | Inr (out, s') \<Rightarrow> run_turns is (ts @ out) s')"

lemma turn_input_turns: "turns_ok ts s \<Longrightarrow> turn_input_result i s = Inr (out, s') \<Longrightarrow> turns_ok (ts @ out) s'"
  by (cases i) (simp_all add: ingest_event_turns advance_time_turns finish_turns_turns)

lemma same_settings_trans: "same_settings a b \<Longrightarrow> same_settings b c \<Longrightarrow> same_settings a c"
  by (simp add: same_settings_def)

lemma take_event_settings: "take_event e s = (out, s') \<Longrightarrow> same_settings s s'"
  by (auto simp: take_event_def drop_for_resource_limit_def Let_def same_settings_def record_event_def dest!: finalize_frame
      split: if_splits option.splits)

lemma turn_input_settings:
  assumes "turn_input_result i s = Inr (out, s')"
  shows "same_settings s s'"
proof (cases i)
  case (In_Event e)
  with assms have "ingest_event e s = Inr (out, s')" by simp
  then show ?thesis
  proof (cases rule: ingest_event_cases)
    case (fresh out1 s1 out2 s2)
    have "same_settings s s1" using finalize_expired_frame [OF fresh(3)] by (simp add: same_settings_def)
    moreover have "same_settings s1 s2" using fresh(4)
      by (auto simp: enter_epoch_def same_settings_def dest!: finalize_frame split: prod.splits if_splits)
    moreover have "same_settings s2 s'" using fresh(5)
      by (auto simp: same_settings_def remember_def Let_def dest!: take_event_settings split: if_splits)
    ultimately show ?thesis by (blast intro: same_settings_trans)
  qed (simp add: same_settings_def)
qed (use assms in \<open>auto simp: advance_time_def finish_turns_def ebind_def same_settings_def dest!: finalize_expired_frame finalize_frame
      split: sum.splits if_splits\<close>)

lemma run_turns_settings: "run_turns is ts s = (ts', s') \<Longrightarrow> same_settings s s'"
proof (induction "is" ts s rule: run_turns.induct)
  case (2 i "is" ts s)
  show ?case
  proof (cases "turn_input_result i s")
    case (Inr r)
    then obtain out s1 where r: "turn_input_result i s = Inr (out, s1)" by (cases r) simp
    with 2 show ?thesis using same_settings_trans [OF turn_input_settings [OF r]] by simp
  qed (use 2 in simp)
qed (simp add: same_settings_def)

lemma run_turns_ok: "turns_ok ts s \<Longrightarrow> run_turns is ts s = (ts', s') \<Longrightarrow> turns_ok ts' s'"
  by (induction "is" ts s rule: run_turns.induct) (auto split: sum.splits dest: turn_input_turns)

lemma new_assembler_ok: "new_assembler e q n p b r = Inr s \<Longrightarrow> turns_ok [] s"
  by (auto simp: new_assembler_def ebind_def bounded_nonnegative_def turns_ok_def assembler_ok_def settings_ok_def memory_ok_def
      pending_ok_def times_ok_def fits_def split: sum.splits pyval.splits if_splits)


section \<open>What was heard\<close>

text \<open>
  The abstract life of the words: a fragment is heard and pends; what pends becomes the text of one turn, is silence, or is
  dropped with its turn when a limit is passed.
\<close>

inductive accounted :: "assembler \<Rightarrow> string list \<Rightarrow> caller_turn list \<Rightarrow> string list \<Rightarrow> bool" for s0 where
  nothing: "accounted s0 [] [] []"
| hear: "accounted s0 h ts p \<Longrightarrow> accounted s0 (h @ [x]) ts (p @ [x])"
| turn: "accounted s0 h ts p \<Longrightarrow> ct_status t \<noteq> TS_DROPPED \<Longrightarrow> ct_transcript t = py_strip (concat p) \<Longrightarrow> py_strip (concat p) \<noteq> [] \<Longrightarrow>
    accounted s0 h (ts @ [t]) []"
| silence: "accounted s0 h ts p \<Longrightarrow> py_strip (concat p) = [] \<Longrightarrow> accounted s0 h ts []"
| dropped: "accounted s0 h ts p \<Longrightarrow> ct_status t = TS_DROPPED \<Longrightarrow>
    as_max_events s0 < ct_events t \<or> \<not> fits (as_max_points s0) (as_max_bytes s0) (concat p) \<Longrightarrow>
    accounted s0 h (ts @ [t]) []"

text \<open>The fragments that an input adds to what was heard: those of the current epoch, in time, not seen before.\<close>

fun heard_now :: "turn_input \<Rightarrow> assembler \<Rightarrow> string list" where
  "heard_now (In_Event e) s =
     (if te_kind e = TK_FRAGMENT \<and> te_epoch e = as_epoch s \<and> as_last_at s \<le> te_at e \<and> te_sequence e \<notin> as_seen s then [te_text e] else [])"
| "heard_now i s = []"

fun heard :: "turn_input list \<Rightarrow> assembler \<Rightarrow> string list" where
  "heard [] s = []"
| "heard (i # is) s = heard_now i s @ (case turn_input_result i s of Inl _ \<Rightarrow> heard is s | Inr (_, s') \<Rightarrow> heard is s')"

lemma finalize_accounted:
  assumes "accounted s0 h ts (as_fragments s)" "status \<noteq> TS_DROPPED" "finalize t status reason True s = (out, s')"
  shows "accounted s0 h (ts @ out) (as_fragments s')"
proof (cases "py_strip (concat (as_fragments s)) = []")
  case True
  with assms(2,3) have "out = []" "as_fragments s' = []" by (auto simp: finalize_def reset_pending_def)
  then show ?thesis using silence [OF assms(1) True] by simp
next
  case False
  then have "has_pending s" by (auto simp: has_pending_def py_strip_def)
  with False assms(3) obtain t where "out = [t]" "ct_status t = status" "ct_transcript t = py_strip (concat (as_fragments s))"
      "as_fragments s' = []"
    by (auto simp: finalize_def reset_pending_def Let_def)
  then show ?thesis using turn [OF assms(1), of t] False assms(2) by simp
qed

lemma drop_accounted:
  assumes "accounted s0 h ts p" "drop_for_resource_limit t s = (out, s')" "0 < as_count s"
    "as_max_events s0 < as_count s \<or> \<not> fits (as_max_points s0) (as_max_bytes s0) (concat p)"
  shows "accounted s0 h (ts @ out) (as_fragments s')"
proof -
  obtain x where "out = [x]" "ct_status x = TS_DROPPED" "ct_events x = as_count s" "as_fragments s' = []"
    using assms(2,3) by (auto simp: drop_for_resource_limit_def finalize_def reset_pending_def Let_def has_pending_def)
  then show ?thesis using dropped [OF assms(1), of x] assms(4) by simp
qed

lemma finalize_expired_accounted:
  "accounted s0 h ts (as_fragments s) \<Longrightarrow> finalize_expired n s = (out, s') \<Longrightarrow> accounted s0 h (ts @ out) (as_fragments s')"
  by (auto simp: finalize_expired_def dest: finalize_accounted [rotated 2] split: option.splits if_splits)

lemma enter_epoch_accounted:
  "accounted s0 h ts (as_fragments s) \<Longrightarrow> enter_epoch e s = (out, s') \<Longrightarrow> accounted s0 h (ts @ out) (as_fragments s')"
  by (auto simp: enter_epoch_def dest: finalize_accounted [rotated 2] split: prod.splits if_splits)

lemma take_event_accounted:
  assumes a: "accounted s0 h ts (as_fragments s)" and c: "0 \<le> as_count s" and set: "same_settings s0 s"
    and t: "take_event e s = (out, s')"
  shows "accounted s0 (h @ (if te_kind e = TK_FRAGMENT then [te_text e] else [])) (ts @ out) (as_fragments s')"
proof -
  let ?r = "record_event e s"
  have r: "as_fragments ?r = as_fragments s" "0 < as_count ?r" "as_max_events ?r = as_max_events s0" "as_max_points ?r = as_max_points s0"
      "as_max_bytes ?r = as_max_bytes s0"
    using c set by (simp_all add: record_event_frame same_settings_def)
  consider (reconnect) "te_kind e = TK_RECONNECT" | (fragment) "te_kind e = TK_FRAGMENT"
    | (events) "te_kind e \<notin> {TK_RECONNECT, TK_FRAGMENT}" "as_max_events ?r < as_count ?r"
    | (other) "te_kind e \<notin> {TK_RECONNECT, TK_FRAGMENT}" "\<not> as_max_events ?r < as_count ?r"
    by blast
  then show ?thesis
  proof cases
    case reconnect
    with t a show ?thesis using finalize_accounted [OF a, of TS_PARTIAL] by (auto simp: take_event_def split: if_splits)
  next
    case fragment
    let ?f = "?r\<lparr>as_fragments := as_fragments ?r @ [te_text e], as_last_transcript := Some (te_at e)\<rparr>"
    have h: "accounted s0 (h @ [te_text e]) ts (as_fragments s @ [te_text e])" using hear [OF a] .
    consider "as_max_events ?r < as_count ?r" | "\<not> as_max_events ?r < as_count ?r" "\<not> fits (as_max_points s0) (as_max_bytes s0) (concat (as_fragments s @ [te_text e]))"
      | "\<not> as_max_events ?r < as_count ?r" "fits (as_max_points s0) (as_max_bytes s0) (concat (as_fragments s @ [te_text e]))" by blast
    then show ?thesis
    proof cases
      case 1
      with fragment t have "drop_for_resource_limit (te_at e) ?r = (out, s')" by (simp add: take_event_def Let_def)
      then show ?thesis using drop_accounted [OF h] r 1 fragment by simp
    next
      case 2
      with fragment t r have "drop_for_resource_limit (te_at e) ?f = (out, s')" by (simp add: take_event_def Let_def)
      then show ?thesis using drop_accounted [OF h] r 2 fragment by simp
    next
      case 3
      with fragment t r have "out = []" "as_fragments s' = as_fragments s @ [te_text e]"
        by (auto simp: take_event_def Let_def split: if_splits)
      then show ?thesis using h fragment by simp
    qed
  next
    case events
    with t have "drop_for_resource_limit (te_at e) ?r = (out, s')" by (simp add: take_event_def Let_def)
    then show ?thesis using drop_accounted [OF a] r events by simp
  next
    case other
    note d = finalize_accounted [of s0 h ts ?r "closing_status (te_kind e)", unfolded r(1), OF a]
    have "closing_status (te_kind e) \<noteq> TS_DROPPED" by (simp add: closing_status_def)
    with other t a r d show ?thesis by (auto simp: take_event_def Let_def split: option.splits)
  qed
qed


lemma ingest_accounted:
  assumes a: "accounted s0 h ts (as_fragments s)" and ok: "turns_ok ts s" and set: "same_settings s0 s"
    and out: "ingest_event e s = Inr (out, s')"
  shows "accounted s0 (h @ heard_now (In_Event e) s) (ts @ out) (as_fragments s')"
  using out
proof (cases rule: ingest_event_cases)
  case stale
  then have "heard_now (In_Event e) s = []" by (auto simp: out_of_epoch_def)
  then show ?thesis using a stale by simp
next
  case (fresh out1 s1 out2 s2)
  let ?s = "s\<lparr>as_last_at := te_at e\<rparr>"
  note f1 = finalize_expired_frame [OF fresh(3), simplified]
  have ok1: "turns_ok (ts @ out1) s1" "as_last_at s1 = te_at e"
    using finalize_expired_turns [OF turns_later [OF ok fresh(2)]] fresh(3) f1 by simp_all
  have ok2: "turns_ok ((ts @ out1) @ out2) s2" using enter_epoch_turns [OF ok1(1) _ fresh(4)] ok1(2) by simp
  have a1: "accounted s0 h (ts @ out1) (as_fragments s1)" using finalize_expired_accounted [OF _ fresh(3)] a by simp
  have a2: "accounted s0 h (ts @ out1 @ out2) (as_fragments s2)" using enter_epoch_accounted [OF a1 fresh(4)] by simp
  have set2: "same_settings s0 s2"
    using set f1 fresh(4) by (auto simp: enter_epoch_def same_settings_def dest!: finalize_frame split: prod.splits if_splits)
  have now: "heard_now (In_Event e) s = (if te_kind e = TK_FRAGMENT \<and> te_sequence e \<notin> as_seen s2 then [te_text e] else [])"
    using fresh(1,2,4) f1 by (auto simp: out_of_epoch_def enter_epoch_def)
  show ?thesis
  proof (cases "te_sequence e \<in> as_seen s2")
    case True
    then show ?thesis using fresh(5) a2 now by simp
  next
    case False
    then obtain out3 where t: "take_event e (remember (te_sequence e) s2) = (out3, s')" "out = out1 @ out2 @ out3"
      using fresh(5) by auto
    have "as_fragments (remember (te_sequence e) s2) = as_fragments s2" "0 \<le> as_count (remember (te_sequence e) s2)"
      "same_settings s0 (remember (te_sequence e) s2)"
      using ok2 set2 by (auto simp: remember_def Let_def same_settings_def turns_ok_def assembler_ok_def pending_ok_def)
    then show ?thesis using take_event_accounted [OF _ _ _ t(1), of s0 h "ts @ out1 @ out2"] a2 now False t(2) by simp
  qed
qed

lemma turn_input_accounted:
  assumes "accounted s0 h ts (as_fragments s)" "turns_ok ts s" "same_settings s0 s" "turn_input_result i s = Inr (out, s')"
  shows "accounted s0 (h @ heard_now i s) (ts @ out) (as_fragments s')"
proof (cases i)
  case (In_Event e)
  then show ?thesis using ingest_accounted assms by simp
next
  case (In_Time v)
  with assms(4) obtain t where "finalize_expired t (s\<lparr>as_last_at := t\<rparr>) = (out, s')"
    by (auto simp: advance_time_def ebind_def split: sum.splits if_splits)
  then show ?thesis using finalize_expired_accounted [of s0 h ts "s\<lparr>as_last_at := t\<rparr>"] assms(1) In_Time by simp
next
  case (In_Finish v r)
  with assms(4) obtain t st where "finalize t st r True (s\<lparr>as_last_at := t\<rparr>) = (out, s')" "st \<noteq> TS_DROPPED"
    by (auto simp: finish_turns_def ebind_def split: sum.splits if_splits)
  then show ?thesis using finalize_accounted [of s0 h ts "s\<lparr>as_last_at := t\<rparr>"] assms(1) In_Finish by simp
qed

lemma heard_nothing: "turn_input_result i s = Inl x \<Longrightarrow> heard_now i s = []"
  by (cases i) (auto simp: ingest_event_def Let_def split: prod.splits if_splits)

lemma run_turns_accounted:
  "accounted s0 h ts (as_fragments s) \<Longrightarrow> turns_ok ts s \<Longrightarrow> same_settings s0 s \<Longrightarrow> run_turns is ts s = (ts', s') \<Longrightarrow>
   accounted s0 (h @ heard is s) ts' (as_fragments s')"
proof (induction "is" ts s arbitrary: h rule: run_turns.induct)
  case (2 i "is" ts s)
  show ?case
  proof (cases "turn_input_result i s")
    case (Inl x)
    with 2 show ?thesis using heard_nothing [OF Inl] by simp
  next
    case (Inr r)
    then obtain out s1 where r: "turn_input_result i s = Inr (out, s1)" by (cases r) simp
    note step = turn_input_accounted [OF 2(3-5) r] turn_input_turns [OF 2(4) r] same_settings_trans [OF 2(5) turn_input_settings [OF r]]
    from 2(2) [OF r refl step] 2(6) r show ?thesis by simp
  qed
qed simp

text \<open>
  C35: Whatever events, clock readings and ends of the session are put into an assembler, the turns that come out are numbered
  from one without gaps; each begins no earlier than the one before it was closed, in the same or a later epoch; each has its
  times in order and stays within the configured numbers of events, characters and bytes, a dropped turn without text, any
  other with a stripped text that is not empty; and never more than the configured number of event sequences is remembered.
\<close>

theorem caller_turns_in_order:
  assumes "new_assembler epoch quiescence events points bytes retained = Inr s0" "run_turns is [] s0 = (ts, s)"
  shows "map ct_id ts = [1..int (length ts)] \<and> sorted_wrt follows ts \<and> list_all (turn_ok s0) ts \<and>
    as_next_id s = int (length ts) + 1 \<and> card (as_seen s) = length (as_order s) \<and> int (length (as_order s)) \<le> as_max_retained s0"
proof -
  have ok: "turns_ok ts s" using run_turns_ok [OF new_assembler_ok [OF assms(1)] assms(2)] .
  have "turn_ok s0 = turn_ok s" using run_turns_settings [OF assms(2)] by (simp add: fun_eq_iff turn_ok_def same_settings_def)
  then show ?thesis
    using ok run_turns_settings [OF assms(2)]
    by (auto simp: turns_ok_def assembler_ok_def memory_ok_def same_settings_def list_all_iff distinct_card)
qed

text \<open>
  C8: No word is lost, repeated or moved between turns: along every run, the fragments that were heard are accounted for in
  order, each in the text of exactly one turn, in silence that made no turn, in a turn dropped because a limit was passed, or in
  what still pends.
\<close>

theorem caller_words_accounted:
  assumes "new_assembler epoch quiescence events points bytes retained = Inr s0" "run_turns is [] s0 = (ts, s)"
  shows "accounted s0 (heard is s0) ts (as_fragments s)"
proof -
  have "as_fragments s0 = []" using assms(1)
    by (auto simp: new_assembler_def ebind_def split: sum.splits if_splits)
  then show ?thesis
    using run_turns_accounted [of s0 "[]" "[]" s0] accounted.nothing [of s0] new_assembler_ok [OF assms(1)] assms(2)
    by (simp add: same_settings_def)
qed

definition say :: "int \<Rightarrow> int \<Rightarrow> string \<Rightarrow> turn_input" where
  "say n t s = In_Event \<lparr>te_kind = TK_FRAGMENT, te_at = t, te_sequence = n, te_epoch = 0, te_text = s\<rparr>"

definition tell :: "int \<Rightarrow> int \<Rightarrow> turn_kind \<Rightarrow> turn_input" where
  "tell n t k = In_Event \<lparr>te_kind = k, te_at = t, te_sequence = n, te_epoch = 0, te_text = ''''\<rparr>"

definition sample_inputs :: "turn_input list" where
  "sample_inputs = [say 1 10 ''my tap '', say 1 11 ''again'', say 2 20 ''leaks'', tell 3 30 TK_TURN_COMPLETE, In_Time (PInt 5), In_Time (PInt 280),
     say 4 300 ''please'', In_Finish (PInt 310) CR_STOPPED]"

definition sample_assembler :: assembler where
  "sample_assembler = (case new_assembler (PInt 0) (PInt 250) (PInt 128) (PInt 4000) (PInt 16000) (PInt 1024) of Inr s \<Rightarrow> s | _ \<Rightarrow> undefined)"


lemma sample_assembler_new:
  "new_assembler (PInt 0) (PInt 250) (PInt 128) (PInt 4000) (PInt 16000) (PInt 1024) = Inr sample_assembler"
  by (simp add: sample_assembler_def new_assembler_def ebind_def bounded_nonnegative_def)

lemma sample_turns:
  "map (\<lambda>t. (ct_transcript t, ct_status t, ct_finalized t)) (fst (run_turns sample_inputs [] sample_assembler)) =
     [(''my tap leaks'', TS_COMPLETE, 280), (''please'', TS_PARTIAL, 310)]"
  by code_simp

lemma sample_heard: "heard sample_inputs sample_assembler = [''my tap '', ''leaks'', ''please'']"
  by code_simp

lemma caller_turns_in_order_witness:
  "map ct_id (fst (run_turns sample_inputs [] sample_assembler)) = [1..2] \<and>
   sorted_wrt follows (fst (run_turns sample_inputs [] sample_assembler)) \<and>
   map ct_transcript (fst (run_turns sample_inputs [] sample_assembler)) = [''my tap leaks'', ''please'']"
proof -
  have t: "map ct_transcript (fst (run_turns sample_inputs [] sample_assembler)) = [''my tap leaks'', ''please'']"
    using arg_cong [OF sample_turns, of "map fst"] by (simp add: comp_def)
  from arg_cong [OF this, of length] have "length (fst (run_turns sample_inputs [] sample_assembler)) = 2" by simp
  then show ?thesis
    using caller_turns_in_order [OF sample_assembler_new surjective_pairing [of "run_turns sample_inputs [] sample_assembler"]] t by simp
qed

lemma caller_words_accounted_witness:
  "accounted sample_assembler [''my tap '', ''leaks'', ''please''] (fst (run_turns sample_inputs [] sample_assembler)) [] \<and>
   map ct_transcript (fst (run_turns sample_inputs [] sample_assembler)) = [''my tap leaks'', ''please'']"
proof -
  have "as_fragments (snd (run_turns sample_inputs [] sample_assembler)) = []" by code_simp
  then show ?thesis
    using caller_words_accounted [OF sample_assembler_new surjective_pairing [of "run_turns sample_inputs [] sample_assembler"]]
      arg_cong [OF sample_turns, of "map fst"]
    by (simp add: sample_heard comp_def)
qed

end
