(* ===== verification/Subscription_Access.thy ===== *)
theory Subscription_Access
  imports Firestore
begin

text \<open>
  Who is served and whose number may go, the decisions of app/services/subscription.py on a contractor's profile: the end of a
  trial, the access of an inbound call, the expiry of lapsed trials, and the two guards of a number's release. A profile that
  does not exist is \<open>None\<close> (so would an empty one be, which is never stored); \<open>now\<close> is the result of \<open>time.time()\<close>.
\<close>

section \<open>Trials and access\<close>

definition TRIAL_PERIOD_DAYS :: rat where
  "TRIAL_PERIOD_DAYS = 14"

definition LOCALLY_MANAGED_STATUSES :: "string list" where
  "LOCALLY_MANAGED_STATUSES = [''trial'']"

definition APPLE_MANAGED_STATUSES :: "string list" where
  "APPLE_MANAGED_STATUSES = [''active'']"

definition TERMINAL_SUBSCRIPTIONS :: "string list" where
  "TERMINAL_SUBSCRIPTIONS = [''expired'', ''cancelled'']"

definition subscription_status :: "(pyval \<Rightarrow> string) \<Rightarrow> pydict \<Rightarrow> string" where
  "subscription_status repr d = map lower_char (py_strip (str_or_empty repr (pget d ''subscription_status'')))"

definition trial_expires_at :: "pydict \<Rightarrow> pyfloat" where
  "trial_expires_at d =
     (let stored = (case py_number (pget d ''subscription_expires'') of None \<Rightarrow> Fin 0 | Some f \<Rightarrow> f) in
      case py_number (pget d ''trial_start'') of
        None \<Rightarrow> stored
      | Some t \<Rightarrow> if t = Fin 0 then stored else pymax stored (fplus t (Fin (TRIAL_PERIOD_DAYS * 86400))))"

definition evaluate_subscription_access :: "(pyval \<Rightarrow> string) \<Rightarrow> document \<Rightarrow> rat \<Rightarrow> bool \<times> string" where
  "evaluate_subscription_access repr contractor now = (case contractor of
       None \<Rightarrow> (True, ''no_contractor'')
     | Some d \<Rightarrow>
         let status = subscription_status repr d;
             expires = (case py_number (pget d ''subscription_expires'') of None \<Rightarrow> Fin 0 | Some f \<Rightarrow> f) in
         if expires = Fin 0 then
           (if status \<in> set TERMINAL_SUBSCRIPTIONS then (False, ''expired'') else (True, ''missing_expiry''))
         else if status \<in> set LOCALLY_MANAGED_STATUSES then
           (if fless (Fin now) (trial_expires_at d) then (True, ''trial_active'') else (False, ''trial_expired''))
         else if status \<in> set APPLE_MANAGED_STATUSES then
           (if fless (Fin now) expires then (True, ''subscription_active'')
            else (True, ''active_stale_expiry_needs_reconciliation''))
         else if status \<in> set TERMINAL_SUBSCRIPTIONS then
           (if fless (Fin now) expires then (True, ''expired_grace_period'') else (False, ''expired''))
         else (True, ''unrecognized_status''))"

definition should_expire_trial :: "(pyval \<Rightarrow> string) \<Rightarrow> document \<Rightarrow> rat \<Rightarrow> bool" where
  "should_expire_trial repr contractor now = (case contractor of
       None \<Rightarrow> False
     | Some d \<Rightarrow> subscription_status repr d \<in> set LOCALLY_MANAGED_STATUSES \<and> trial_expires_at d \<noteq> Fin 0 \<and>
         fleq (trial_expires_at d) (Fin now))"

section \<open>The guards of a release\<close>

definition NUMBER_RELEASE_QUIET_DAYS :: rat where
  "NUMBER_RELEASE_QUIET_DAYS = 14"

definition LAPSED_NUMBER_RELEASE_DAYS :: rat where
  "LAPSED_NUMBER_RELEASE_DAYS = 30"

definition readable_timestamp :: "pyval \<Rightarrow> pyfloat option" where
  "readable_timestamp v = (if is_pybool v then None else (case py_number v of
       None \<Rightarrow> None | Some f \<Rightarrow> if fleq f (Fin 0) then None else Some f))"

text \<open>\<open>now - f < window\<close>.\<close>

definition inside_window :: "pyfloat \<Rightarrow> rat \<Rightarrow> rat \<Rightarrow> bool" where
  "inside_window f now window = fless (fplus (Fin now) (fneg f)) (Fin window)"

text \<open>A time that blocks a release: unreadable or inside the window.\<close>

definition recent_or_unreadable :: "pyval \<Rightarrow> rat \<Rightarrow> rat \<Rightarrow> bool" where
  "recent_or_unreadable v now window = (case readable_timestamp v of None \<Rightarrow> True | Some f \<Rightarrow> inside_window f now window)"

definition inbound_stamp_blocks :: "pydict \<Rightarrow> rat \<Rightarrow> rat \<Rightarrow> bool" where
  "inbound_stamp_blocks d now window =
     (pget d ''last_inbound_call_at'' \<noteq> PNone \<and> recent_or_unreadable (pget d ''last_inbound_call_at'') now window)"

definition forwarding_blocks :: "pydict \<Rightarrow> rat \<Rightarrow> rat \<Rightarrow> bool" where
  "forwarding_blocks d now window =
     (pget d ''forwarding_last_seen_at'' \<noteq> PNone \<and> recent_or_unreadable (pget d ''forwarding_last_seen_at'') now window)"

definition is_safe_to_release_number :: "document \<Rightarrow> rat \<Rightarrow> bool" where
  "is_safe_to_release_number contractor now = (case contractor of
       None \<Rightarrow> False
     | Some d \<Rightarrow> let window = NUMBER_RELEASE_QUIET_DAYS * 86400 in
         \<not> recent_or_unreadable (pget d ''deleted_app_detected_at'') now window \<and>
         \<not> forwarding_blocks d now window \<and> \<not> inbound_stamp_blocks d now window)"

definition is_safe_to_release_lapsed_number :: "(pyval \<Rightarrow> string) \<Rightarrow> document \<Rightarrow> rat \<Rightarrow> pyval \<Rightarrow> bool" where
  "is_safe_to_release_lapsed_number repr contractor now last_call_at = (case contractor of
       None \<Rightarrow> False
     | Some d \<Rightarrow> let window = LAPSED_NUMBER_RELEASE_DAYS * 86400 in
         if subscription_status repr d \<noteq> ''expired'' then False
         else if py_strip (str_or_empty repr (pget d ''twilio_number'')) = [] then False
         else if trial_expires_at d = Fin 0 then False
         else if inside_window (trial_expires_at d) now window then False
         else \<not> forwarding_blocks d now window \<and> \<not> inbound_stamp_blocks d now window \<and>
           (last_call_at = PNone \<or> \<not> recent_or_unreadable last_call_at now window))"

section \<open>What the guards promise\<close>

lemma inside_window_Fin [simp]: "inside_window (Fin q) now w \<longleftrightarrow> now - q < w"
  by (simp add: inside_window_def)

lemma not_recent_finite: "\<not> recent_or_unreadable v now w \<Longrightarrow> finite_number v = Some q \<Longrightarrow> q \<le> now - w"
  by (cases v) (auto simp: recent_or_unreadable_def readable_timestamp_def finite_number_def inside_window_def split: option.splits if_splits
      elim!: finite_of.elims)

lemma fless_trans_Fin: "\<not> fless (Fin a) x \<Longrightarrow> a \<le> b \<Longrightarrow> \<not> fless (Fin b) x"
  by (cases x) auto

text \<open>A term that ended a window ago is over now and for good; so is every stored expiry before it.\<close>

lemma outside_window: "\<not> inside_window f now w \<Longrightarrow> 0 \<le> w \<Longrightarrow> \<not> fless (Fin now) f"
  by (cases f) (auto simp: inside_window_def)

lemma stored_before_term:
  assumes "\<not> fless (Fin now) (trial_expires_at d)" "py_number (pget d ''subscription_expires'') = Some e"
  shows "\<not> fless (Fin now) e"
proof (cases "py_number (pget d ''trial_start'')")
  case (Some t)
  with assms show ?thesis
    by (cases "(Fin now, e)" rule: fless.cases; cases t) (auto simp: trial_expires_at_def pymax_def split: if_splits)
qed (use assms in \<open>simp add: trial_expires_at_def\<close>)

lemma expired_stays_out:
  assumes "subscription_status repr d = ''expired''" "\<not> fless (Fin now) (trial_expires_at d)" "now \<le> later"
  shows "evaluate_subscription_access repr (Some d) later = (False, ''expired'')"
proof (cases "py_number (pget d ''subscription_expires'')")
  case (Some e)
  have "\<not> fless (Fin later) e" using fless_trans_Fin [OF stored_before_term [OF assms(2) Some] assms(3)] .
  with Some assms(1) show ?thesis
    by (simp add: evaluate_subscription_access_def Let_def TERMINAL_SUBSCRIPTIONS_def LOCALLY_MANAGED_STATUSES_def APPLE_MANAGED_STATUSES_def)
qed (use assms(1) in \<open>simp add: evaluate_subscription_access_def TERMINAL_SUBSCRIPTIONS_def\<close>)

text \<open>
  C37: A number that may be released as lapsed belongs to an account that the gate refuses now and at every later time, and every
  readable sign of life, a forwarded call, an inbound call or a call on record, is at least thirty days old.
\<close>

theorem lapsed_release_is_sound:
  assumes "is_safe_to_release_lapsed_number repr (Some d) now last_call_at"
  shows "(\<forall>later. now \<le> later \<longrightarrow> evaluate_subscription_access repr (Some d) later = (False, ''expired'')) \<and>
    (\<forall>v q. v \<in> set [pget d ''forwarding_last_seen_at'', pget d ''last_inbound_call_at'', last_call_at] \<longrightarrow>
       finite_number v = Some q \<longrightarrow> q \<le> now - 30 * 86400)"
proof -
  from assms have s: "subscription_status repr d = ''expired''" "\<not> inside_window (trial_expires_at d) now (30 * 86400)"
    and b: "\<not> forwarding_blocks d now (30 * 86400)" "\<not> inbound_stamp_blocks d now (30 * 86400)"
      "last_call_at = PNone \<or> \<not> recent_or_unreadable last_call_at now (30 * 86400)"
    by (simp_all add: is_safe_to_release_lapsed_number_def LAPSED_NUMBER_RELEASE_DAYS_def Let_def split: if_splits)
  have none: "finite_number PNone = None" by (simp add: finite_number_def)
  have "v = PNone \<or> \<not> recent_or_unreadable v now (30 * 86400)"
    if "v \<in> set [pget d ''forwarding_last_seen_at'', pget d ''last_inbound_call_at'', last_call_at]" for v
    using that b by (auto simp: forwarding_blocks_def inbound_stamp_blocks_def)
  then show ?thesis
    using expired_stays_out [OF s(1) outside_window [OF s(2)]] not_recent_finite none by fastforce
qed

definition sample_lapsed :: pydict where
  "sample_lapsed = [''subscription_status'' \<mapsto> PStr ''expired'', ''twilio_number'' \<mapsto> PStr ''+15550100'', ''trial_start'' \<mapsto> PInt 1000000,
     ''subscription_expires'' \<mapsto> PInt 1259200, ''last_inbound_call_at'' \<mapsto> PInt 1300000]"

lemma lapsed_release_is_sound_witness:
  "is_safe_to_release_lapsed_number (\<lambda>v. []) (Some sample_lapsed) 9000000 PNone \<and>
   evaluate_subscription_access (\<lambda>v. []) (Some sample_lapsed) 9000001 = (False, ''expired'')"
proof -
  have s: "is_safe_to_release_lapsed_number (\<lambda>v. []) (Some sample_lapsed) 9000000 PNone" by code_simp
  then show ?thesis using lapsed_release_is_sound [OF s] by simp
qed

lemma marked_expired: "subscription_status repr (d(''subscription_status'' \<mapsto> PStr ''expired'')) = ''expired''"
proof -
  have "map lower_char (py_strip ''expired'') = ''expired''" by code_simp
  then show ?thesis by (simp add: subscription_status_def str_or_empty_def)
qed

lemma fleq_real: "fleq x (Fin now) \<Longrightarrow> x \<noteq> NaN \<and> \<not> fless (Fin now) x"
  by (cases x) (auto simp: fleq_def)

lemma lapsed_real: "x \<noteq> NaN \<Longrightarrow> \<not> fless (Fin now) x \<Longrightarrow> fleq x (Fin now)"
  by (cases x) (auto simp: fleq_def)

text \<open>The stored expiry as the gate reads it; where it is zero or no number, the end of a trial rests on its start alone.\<close>

definition stored_expiry :: "pydict \<Rightarrow> pyfloat" where
  "stored_expiry d = (case py_number (pget d ''subscription_expires'') of None \<Rightarrow> Fin 0 | Some f \<Rightarrow> f)"

lemma end_without_expiry:
  assumes "stored_expiry d = Fin 0"
  shows "trial_expires_at d \<noteq> Fin 0 \<and> fleq (trial_expires_at d) (Fin now) \<longleftrightarrow>
    (\<exists>t. py_number (pget d ''trial_start'') = Some (Fin t) \<and> t \<noteq> 0 \<and> 0 < t + 14 * 86400 \<and> t + 14 * 86400 \<le> now)"
proof (cases "py_number (pget d ''trial_start'')")
  case (Some x)
  have e: "(case py_number (pget d ''subscription_expires'') of None \<Rightarrow> Fin 0 | Some f \<Rightarrow> f) = Fin 0"
    using assms by (simp add: stored_expiry_def)
  show ?thesis
  proof (cases x)
    case (Fin t)
    have "trial_expires_at d = Fin (if t = 0 then 0 else max 0 (t + 14 * 86400))"
      by (simp add: trial_expires_at_def Some Fin e pymax_def TRIAL_PERIOD_DAYS_def Let_def max_def)
    then show ?thesis by (auto simp: Some Fin max_def split: if_splits)
  qed (simp_all add: trial_expires_at_def Some e pymax_def TRIAL_PERIOD_DAYS_def fleq_def Let_def)
qed (use assms in \<open>simp add: trial_expires_at_def stored_expiry_def\<close>)

text \<open>
  C38: The sweep of lapsed trials beside the gate, for any stored values. Where an expiry is stored, the sweep expires exactly the
  trials that the gate already refuses, those aside whose end is NaN or zero, which it leaves. Where none is stored (or zero),
  it expires exactly the trials whose start lies fourteen days back, although the gate still serves every one of them. Whoever
  it marks as expired is refused at every later time.
\<close>

theorem trial_sweep_matches_gate:
  "(stored_expiry d \<noteq> Fin 0 \<longrightarrow> (should_expire_trial repr (Some d) now \<longleftrightarrow>
      evaluate_subscription_access repr (Some d) now = (False, ''trial_expired'') \<and> trial_expires_at d \<notin> {NaN, Fin 0})) \<and>
   (stored_expiry d = Fin 0 \<longrightarrow> (should_expire_trial repr (Some d) now \<longleftrightarrow> subscription_status repr d = ''trial'' \<and>
        (\<exists>t. py_number (pget d ''trial_start'') = Some (Fin t) \<and> t \<noteq> 0 \<and> 0 < t + 14 * 86400 \<and> t + 14 * 86400 \<le> now)) \<and>
      (subscription_status repr d = ''trial'' \<longrightarrow> evaluate_subscription_access repr (Some d) now = (True, ''missing_expiry''))) \<and>
   (should_expire_trial repr (Some d) now \<longrightarrow> (\<forall>later. now \<le> later \<longrightarrow>
      evaluate_subscription_access repr (Some (d(''subscription_status'' \<mapsto> PStr ''expired''))) later = (False, ''expired'')))"
proof (intro conjI)
  let ?te = "trial_expires_at d"
  have sweep: "should_expire_trial repr (Some d) now \<longleftrightarrow> subscription_status repr d = ''trial'' \<and> ?te \<noteq> Fin 0 \<and> fleq ?te (Fin now)"
    by (simp add: should_expire_trial_def LOCALLY_MANAGED_STATUSES_def)
  have gate: "evaluate_subscription_access repr (Some d) now = (False, ''trial_expired'') \<longleftrightarrow>
      subscription_status repr d = ''trial'' \<and> \<not> fless (Fin now) ?te" if "stored_expiry d \<noteq> Fin 0"
    using that by (simp add: evaluate_subscription_access_def stored_expiry_def LOCALLY_MANAGED_STATUSES_def APPLE_MANAGED_STATUSES_def
        TERMINAL_SUBSCRIPTIONS_def Let_def)
  show "stored_expiry d \<noteq> Fin 0 \<longrightarrow> (should_expire_trial repr (Some d) now \<longleftrightarrow>
      evaluate_subscription_access repr (Some d) now = (False, ''trial_expired'') \<and> ?te \<notin> {NaN, Fin 0})"
    using fleq_real [of ?te now] lapsed_real [of ?te now] by (simp add: sweep gate) blast
  show "stored_expiry d = Fin 0 \<longrightarrow> (should_expire_trial repr (Some d) now \<longleftrightarrow> subscription_status repr d = ''trial'' \<and>
        (\<exists>t. py_number (pget d ''trial_start'') = Some (Fin t) \<and> t \<noteq> 0 \<and> 0 < t + 14 * 86400 \<and> t + 14 * 86400 \<le> now)) \<and>
      (subscription_status repr d = ''trial'' \<longrightarrow> evaluate_subscription_access repr (Some d) now = (True, ''missing_expiry''))"
    using end_without_expiry [of d now]
    by (simp add: sweep evaluate_subscription_access_def stored_expiry_def TERMINAL_SUBSCRIPTIONS_def Let_def)
  have "trial_expires_at (d(''subscription_status'' \<mapsto> PStr ''expired'')) = ?te"
    by (simp add: trial_expires_at_def)
  then show "should_expire_trial repr (Some d) now \<longrightarrow> (\<forall>later. now \<le> later \<longrightarrow>
      evaluate_subscription_access repr (Some (d(''subscription_status'' \<mapsto> PStr ''expired''))) later = (False, ''expired''))"
    using expired_stays_out [OF marked_expired, of now d] fleq_real [of ?te now] by (simp add: sweep)
qed

definition sample_trial :: pydict where
  "sample_trial = [''subscription_status'' \<mapsto> PStr ''Trial'', ''trial_start'' \<mapsto> PInt 1000000, ''subscription_expires'' \<mapsto> PInt 1259200]"

text \<open>Three days of trial were stored, fourteen are granted; without the stored expiry the gate and the sweep disagree.\<close>

lemma trial_sweep_matches_gate_witness:
  "should_expire_trial (\<lambda>v. []) (Some sample_trial) 3000000 \<and> \<not> should_expire_trial (\<lambda>v. []) (Some sample_trial) 2000000 \<and>
   evaluate_subscription_access (\<lambda>v. []) (Some sample_trial) 3000000 = (False, ''trial_expired'') \<and>
   evaluate_subscription_access (\<lambda>v. []) (Some (sample_trial(''subscription_status'' \<mapsto> PStr ''expired''))) 3000001 = (False, ''expired'') \<and>
   should_expire_trial (\<lambda>v. []) (Some (sample_trial(''subscription_expires'' \<mapsto> PNone))) 3000000 \<and>
   evaluate_subscription_access (\<lambda>v. []) (Some (sample_trial(''subscription_expires'' \<mapsto> PNone))) 3000000 = (True, ''missing_expiry'')"
proof -
  have s: "should_expire_trial (\<lambda>v. []) (Some sample_trial) 3000000" "\<not> should_expire_trial (\<lambda>v. []) (Some sample_trial) 2000000"
    "should_expire_trial (\<lambda>v. []) (Some (sample_trial(''subscription_expires'' \<mapsto> PNone))) 3000000"
    "stored_expiry sample_trial \<noteq> Fin 0" "stored_expiry (sample_trial(''subscription_expires'' \<mapsto> PNone)) = Fin 0"
    by code_simp+
  from trial_sweep_matches_gate [of sample_trial "\<lambda>v. []" 3000000] s
    trial_sweep_matches_gate [of "sample_trial(''subscription_expires'' \<mapsto> PNone)" "\<lambda>v. []" 3000000]
  show ?thesis by simp
qed

text \<open>A stored NaN is read as a time that is long past, although the guards mean to refuse what they cannot read.\<close>

lemma nan_counts_as_quiet:
  "is_safe_to_release_number
     (Some [''deleted_app_detected_at'' \<mapsto> PFloat NaN, ''last_inbound_call_at'' \<mapsto> PFloat NaN]) now"
  by (simp add: is_safe_to_release_number_def recent_or_unreadable_def readable_timestamp_def fleq_def inside_window_def
      inbound_stamp_blocks_def forwarding_blocks_def)

end
