(* ===== verification/Number_Release.thy ===== *)
theory Number_Release
  imports Subscription_Access
begin

text \<open>
  The release of a contractor's phone number, the claim that fences it in the profile, and the profile's writes that respect
  the claim: app/db/contractors.py and the snapshot guard of app/services/number_release.py. A profile is one document; \<open>now\<close> is
  the result of \<open>time.time()\<close> in the operation. A nonce is the text that \<open>secrets.token_urlsafe\<close> gave.
\<close>

section \<open>Python's equality\<close>

text \<open>Numbers compare by value, a NaN with nothing; dictionaries without regard to order.\<close>

fun py_eq :: "pyval \<Rightarrow> pyval \<Rightarrow> bool" and py_eqs :: "pyval list \<Rightarrow> pyval list \<Rightarrow> bool"
  and py_eq_items :: "(string \<times> pyval) list \<Rightarrow> (string \<times> pyval) list \<Rightarrow> bool" where
  "py_eq (PStr a) w = (w = PStr a)"
| "py_eq PNone w = (w = PNone)"
| "py_eq (PList xs) w = (case w of PList ys \<Rightarrow> py_eqs xs ys | _ \<Rightarrow> False)"
| "py_eq (PDict xs) w = (case w of PDict ys \<Rightarrow> length xs = length ys \<and> py_eq_items xs ys | _ \<Rightarrow> False)"
| "py_eq v w = (case (py_number v, py_number w) of (Some a, Some b) \<Rightarrow> a = b \<and> a \<noteq> NaN | _ \<Rightarrow> False)"
| "py_eqs [] ys = (ys = [])"
| "py_eqs (x # xs) ys = (case ys of [] \<Rightarrow> False | y # ys \<Rightarrow> py_eq x y \<and> py_eqs xs ys)"
| "py_eq_items [] ys = True"
| "py_eq_items ((k, v) # xs) ys = ((case map_of ys k of None \<Rightarrow> False | Some w \<Rightarrow> py_eq v w) \<and> py_eq_items xs ys)"

text \<open>\<open>e.get(k, MISSING) == a.get(k, MISSING)\<close>.\<close>

definition same_field :: "pydict \<Rightarrow> pydict \<Rightarrow> string \<Rightarrow> bool" where
  "same_field e a k = (case (e k, a k) of (None, None) \<Rightarrow> True | (Some v, Some w) \<Rightarrow> py_eq v w | _ \<Rightarrow> False)"

section \<open>The claim\<close>

definition CLAIM_FIELD :: string where
  "CLAIM_FIELD = ''number_release_claim''"

definition CONFLICT_FIELD :: string where
  "CONFLICT_FIELD = ''number_release_conflict''"

definition RESERVATION_TTL_SECONDS :: rat where
  "RESERVATION_TTL_SECONDS = 5 * 60"

definition STRICT_RELEASE_GUARD_FIELDS :: "string list" where
  "STRICT_RELEASE_GUARD_FIELDS = [''active'', ''subscription_status'', ''subscription_expires'', ''trial_start'',
     ''subscription_original_transaction_id'', ''twilio_number'', ''owner_phone'', ''deleted_app_detected_at'',
     ''forwarding_last_seen_at'', ''last_inbound_call_at'']"

definition same_strict_release_snapshot :: "pydict \<Rightarrow> pydict \<Rightarrow> bool" where
  "same_strict_release_snapshot e a = list_all (same_field e a) STRICT_RELEASE_GUARD_FIELDS"

text \<open>A write to the profile: its fields in order.\<close>

type_synonym updates = "(string \<times> pyval) list"

definition seconds :: "rat \<Rightarrow> pyval" where
  "seconds now = PInt \<lfloor>now\<rfloor>"

text \<open>\<open>dict(d).update(us)\<close>.\<close>

definition updated :: "(string \<times> pyval) list \<Rightarrow> updates \<Rightarrow> (string \<times> pyval) list" where
  "updated kvs us = foldl (\<lambda>kvs (k, v). AList.update k v kvs) kvs us"

definition claim_state :: "(string \<times> pyval) list \<Rightarrow> pyval" where
  "claim_state claim = (case map_of claim ''state'' of None \<Rightarrow> PStr ''reserved'' | Some v \<Rightarrow> v)"

record release_token =
  rt_nonce :: string
  rt_state :: string

definition claim_nonce_matches :: "pydict \<Rightarrow> string \<Rightarrow> string \<Rightarrow> bool" where
  "claim_nonce_matches d nonce state = (case pget d CLAIM_FIELD of
       PDict claim \<Rightarrow> map_of claim ''nonce'' = Some (PStr nonce) \<and> claim_state claim = PStr state
     | _ \<Rightarrow> False)"

definition reserved_claim_is_reclaimable :: "rat \<Rightarrow> (string \<times> pyval) list \<Rightarrow> bool" where
  "reserved_claim_is_reclaimable now claim =
     (if claim_state claim \<noteq> PStr ''reserved'' then False
      else (case map_of claim ''claimed_at'' of
          None \<Rightarrow> False
        | Some v \<Rightarrow> (case finite_number v of None \<Rightarrow> False | Some q \<Rightarrow> RESERVATION_TTL_SECONDS \<le> now - q)))"

definition cancel_release_claim :: "rat \<Rightarrow> (string \<times> pyval) list \<Rightarrow> string \<Rightarrow> updates" where
  "cancel_release_claim now claim kind =
     [(CLAIM_FIELD, PDict (updated claim [(''state'', PStr ''cancelled''), (''cancelled_at'', seconds now)])),
      (CONFLICT_FIELD, PDict [(''at'', seconds now), (''phase'', PStr ''reserved''), (''kind'', PStr kind)])]"

definition hold_release_claim :: "rat \<Rightarrow> (string \<times> pyval) list \<Rightarrow> string \<Rightarrow> updates \<Rightarrow> updates" where
  "hold_release_claim now claim kind extra =
     updated [(CLAIM_FIELD, PDict (updated claim [(''state'', PStr ''needs_attention''), (''held_at'', seconds now)])),
      (CONFLICT_FIELD, PDict [(''at'', seconds now), (''phase'', case map_of claim ''state'' of None \<Rightarrow> PNone | Some v \<Rightarrow> v),
         (''kind'', PStr kind)])] extra"

text \<open>What a transaction on the profile does: it answers and says what to write, if anything.\<close>

type_synonym 'a profile_change = "'a \<times> updates option"

definition claim_change :: "rat \<Rightarrow> string \<Rightarrow> (pydict \<Rightarrow> bool) \<Rightarrow> pydict \<Rightarrow> bool profile_change" where
  "claim_change now nonce eligible d =
     (let free = (case pget d CLAIM_FIELD of
            PDict claim \<Rightarrow> claim_state claim = PStr ''cancelled'' \<or> reserved_claim_is_reclaimable now claim
          | PNone \<Rightarrow> True | _ \<Rightarrow> False) in
      if \<not> free then (False, None)
      else (case pget d ''twilio_number'' of
          PStr number \<Rightarrow>
            if number = [] then (False, None)
            else if \<not> eligible d then (False, None)
            else (True, Some [(CLAIM_FIELD, PDict [(''nonce'', PStr nonce), (''state'', PStr ''reserved''), (''claimed_at'', seconds now),
              (''expected_twilio_number'', PStr number)])])
        | _ \<Rightarrow> (False, None)))"

text \<open>The number that a stored claim expects, where it is a text that the profile has as its number.\<close>

definition bound_number :: "pydict \<Rightarrow> (string \<times> pyval) list \<Rightarrow> string option" where
  "bound_number d claim = (case map_of claim ''expected_twilio_number'' of
       Some (PStr number) \<Rightarrow> if pget d ''twilio_number'' = PStr number then Some number else None
     | _ \<Rightarrow> None)"

definition begin_change :: "rat \<Rightarrow> string \<Rightarrow> (pydict \<Rightarrow> bool) \<Rightarrow> pydict \<Rightarrow> bool profile_change" where
  "begin_change now nonce eligible d =
     (case pget d CLAIM_FIELD of
        PDict claim \<Rightarrow>
          if \<not> claim_nonce_matches d nonce ''reserved'' then (False, None)
          else if bound_number d claim \<in> {None, Some []} then (False, Some (cancel_release_claim now claim ''release_binding_changed''))
          else if \<not> eligible d then (False, Some (cancel_release_claim now claim ''release_precondition_changed''))
          else (True, Some [(CLAIM_FIELD, PDict (updated claim [(''state'', PStr ''deleting''), (''deleting_at'', seconds now)]))])
      | _ \<Rightarrow> (False, None))"

definition hold_change :: "rat \<Rightarrow> release_token \<Rightarrow> updates \<Rightarrow> pydict \<Rightarrow> bool profile_change" where
  "hold_change now token extra d = (case pget d CLAIM_FIELD of
       PDict claim \<Rightarrow>
         if \<not> claim_nonce_matches d (rt_nonce token) (rt_state token) then (False, None)
         else (True, Some (hold_release_claim now claim ''provider_outcome_uncertain'' extra))
     | _ \<Rightarrow> (False, None))"

definition finalize_change ::
    "rat \<Rightarrow> release_token \<Rightarrow> updates \<Rightarrow> (pydict \<Rightarrow> bool) \<Rightarrow> bool \<Rightarrow> updates \<Rightarrow> pydict \<Rightarrow> bool profile_change" where
  "finalize_change now token release eligible deactivate deactivation d =
     (if rt_state token \<noteq> ''deleting'' then (False, None)
      else (case pget d CLAIM_FIELD of
          PDict claim \<Rightarrow>
            if \<not> claim_nonce_matches d (rt_nonce token) ''deleting'' then (False, None)
            else if bound_number d claim = None \<or> \<not> eligible d
            then (False, Some (hold_release_claim now claim ''release_finalization_conflict'' []))
            else (True, Some (let us = updated release [(CLAIM_FIELD, PNone)] in
              if deactivate then updated us ([(''active'', PBool False), (''deactivated_at'', seconds now)] @ deactivation) else us))
        | _ \<Rightarrow> (False, None)))"

section \<open>Writes that respect the claim\<close>

datatype mutation_result = MR_APPLIED | MR_CANCELLED | MR_HELD

definition ENTITLEMENT_FIELDS :: "string list" where
  "ENTITLEMENT_FIELDS = [''subscription_status'', ''subscription_tier'', ''subscription_expires'',
     ''subscription_original_transaction_id'', ''subscription_auto_renews'', ''subscription_renewal_status_signed_at_ms'',
     ''subscription_forwarded_from'']"

definition DEFERRED_FIELDS :: "string list" where
  "DEFERRED_FIELDS = [''active''] @ ENTITLEMENT_FIELDS @ [''deleted_app_detected_at'', ''forwarding_last_seen_at'', ''last_inbound_call_at'']"

definition EVENT_LIMIT :: nat where
  "EVENT_LIMIT = 8"

text \<open>\<open>{f: d[f] for f in fields if f in d}\<close> and \<open>xs[-n:]\<close>.\<close>

definition picked :: "string list \<Rightarrow> (string \<times> pyval) list \<Rightarrow> (string \<times> pyval) list" where
  "picked names kvs = List.map_filter (\<lambda>f. map_option (Pair f) (map_of kvs f)) names"

definition last_ones :: "nat \<Rightarrow> 'a list \<Rightarrow> 'a list" where
  "last_ones n xs = drop (length xs - n) xs"

definition prior_deferred :: "pyval \<Rightarrow> (string \<times> pyval) list" where
  "prior_deferred prior = (case prior of
       PDict kvs \<Rightarrow> (case map_of kvs ''deferred_updates'' of Some (PDict us) \<Rightarrow> us | _ \<Rightarrow> []) | _ \<Rightarrow> [])"

definition kept_event :: "pyval \<Rightarrow> (pyval \<times> (string \<times> pyval) list) option" where
  "kept_event v = (case v of
       PDict kvs \<Rightarrow> (case map_of kvs ''updates'' of
           Some (PDict us) \<Rightarrow>
             if picked ENTITLEMENT_FIELDS us = [] then None
             else Some (case map_of kvs ''at'' of Some n \<Rightarrow> if py_number n \<noteq> None then n else PNone | None \<Rightarrow> PNone, picked ENTITLEMENT_FIELDS us)
         | _ \<Rightarrow> None)
     | _ \<Rightarrow> None)"

definition prior_events :: "pyval \<Rightarrow> (pyval \<times> (string \<times> pyval) list) list" where
  "prior_events prior = (case prior of
       PDict kvs \<Rightarrow> (case map_of kvs ''deferred_subscription_events'' of
           Some (PList vs) \<Rightarrow> List.map_filter kept_event (last_ones EVENT_LIMIT vs) | _ \<Rightarrow> [])
     | _ \<Rightarrow> [])"

definition deferred_event :: "pyval \<times> (string \<times> pyval) list \<Rightarrow> pyval" where
  "deferred_event e = PDict [(''at'', fst e), (''updates'', PDict (snd e))]"

text \<open>\<open>phase\<close> is the state read from the claim, whatever value it is.\<close>

definition release_conflict_payload :: "rat \<Rightarrow> pyval \<Rightarrow> updates \<Rightarrow> pyval \<Rightarrow> pyval" where
  "release_conflict_payload now phase us prior =
     (let deferred = updated (prior_deferred prior) (picked DEFERRED_FIELDS us);
          entitlement = picked ENTITLEMENT_FIELDS us;
          past = prior_events prior;
          events = (if entitlement \<noteq> [] \<and> (past = [] \<or> \<not> py_eq (PDict (snd (last past))) (PDict entitlement))
            then past @ [(seconds now, entitlement)] else past) in
      PDict ([(''at'', seconds now), (''phase'', phase), (''kind'', PStr ''profile_mutation''),
         (''fields'', PList (map PStr (take 32 (sort (map fst us)))))] @
         (if deferred = [] then [] else [(''deferred_updates'', PDict deferred)]) @
         (if events = [] then [] else [(''deferred_subscription_events'', PList (map deferred_event (last_ones EVENT_LIMIT events)))])))"

definition apply_release_aware :: "rat \<Rightarrow> updates \<Rightarrow> pydict \<Rightarrow> mutation_result profile_change" where
  "apply_release_aware now us d =
     (if CLAIM_FIELD \<in> set (map fst us) then (MR_HELD, None)
      else (case pget d CLAIM_FIELD of
          PNone \<Rightarrow> (MR_APPLIED, Some us)
        | PDict claim \<Rightarrow>
            if claim_state claim = PStr ''reserved'' then
              (MR_CANCELLED, Some (updated us
                 [(CLAIM_FIELD, PDict (updated claim [(''state'', PStr ''cancelled''), (''cancelled_at'', seconds now)]))]))
            else if claim_state claim = PStr ''cancelled'' then (MR_APPLIED, Some us)
            else (MR_HELD, Some
              [(CLAIM_FIELD, PDict (if claim_state claim = PStr ''deleting''
                  then updated claim [(''state'', PStr ''needs_attention''), (''held_at'', seconds now)] else claim)),
               (CONFLICT_FIELD, release_conflict_payload now (claim_state claim) us (pget d CONFLICT_FIELD))])
        | _ \<Rightarrow> (MR_HELD, Some [(CONFLICT_FIELD, release_conflict_payload now (PStr ''malformed'') us PNone)])))"

section \<open>Transactions on the profile\<close>

definition profile_after :: "pydict \<Rightarrow> updates option \<Rightarrow> pydict" where
  "profile_after d u = (case u of None \<Rightarrow> d | Some us \<Rightarrow> d ++ map_of us)"

definition profile_txn :: "commit \<Rightarrow> 'a \<Rightarrow> (pydict \<Rightarrow> 'a profile_change) \<Rightarrow> document \<Rightarrow> document \<times> (store_error + 'a)" where
  "profile_txn c missing f s = transact c s (case s of
       None \<Rightarrow> Inr (missing, s) | Some d \<Rightarrow> Inr (fst (f d), Some (profile_after d (snd (f d)))))"

definition claim_strict_number_release :: "commit \<Rightarrow> rat \<Rightarrow> string \<Rightarrow> (pydict \<Rightarrow> bool) \<Rightarrow> document \<Rightarrow> document \<times> (store_error + bool)" where
  "claim_strict_number_release c now nonce eligible = profile_txn c False (claim_change now nonce eligible)"

definition begin_strict_number_release_delete ::
    "commit \<Rightarrow> rat \<Rightarrow> release_token \<Rightarrow> (pydict \<Rightarrow> bool) \<Rightarrow> document \<Rightarrow> document \<times> (store_error + bool)" where
  "begin_strict_number_release_delete c now token eligible s =
     (if rt_state token \<noteq> ''reserved'' then (s, Inr False)
      else profile_txn c False (begin_change now (rt_nonce token) eligible) s)"

definition hold_strict_number_release :: "commit \<Rightarrow> rat \<Rightarrow> release_token \<Rightarrow> updates \<Rightarrow> document \<Rightarrow> document \<times> (store_error + bool)" where
  "hold_strict_number_release c now token extra = profile_txn c False (hold_change now token extra)"

definition finalize_strict_number_release ::
    "commit \<Rightarrow> rat \<Rightarrow> release_token \<Rightarrow> updates \<Rightarrow> (pydict \<Rightarrow> bool) \<Rightarrow> bool \<Rightarrow> updates \<Rightarrow> document \<Rightarrow> document \<times> (store_error + bool)" where
  "finalize_strict_number_release c now token release eligible deactivate deactivation =
     profile_txn c False (finalize_change now token release eligible deactivate deactivation)"

definition update_contractor :: "commit \<Rightarrow> rat \<Rightarrow> updates \<Rightarrow> document \<Rightarrow> document \<times> (store_error + bool)" where
  "update_contractor c now us s =
     (if CLAIM_FIELD \<in> set (map fst us) then (s, Inr False)
      else let (s', r) = profile_txn c MR_HELD (apply_release_aware now us) s in
        (s', case r of Inl e \<Rightarrow> Inl e | Inr m \<Rightarrow> Inr (m \<noteq> MR_HELD)))"

section \<open>The writers of a profile\<close>

text \<open>
  A live call, with \<open>seen\<close> its time: a first read may find a fresh stamp and no claim; otherwise the write goes through one
  transaction. Any failure answers that the call was not recorded. \<open>first\<close> is the result of that read, \<open>None\<close> where it fails.
\<close>

definition record_inbound_call_evidence :: "commit \<Rightarrow> rat \<Rightarrow> rat \<Rightarrow> document option \<Rightarrow> document \<Rightarrow> document \<times> bool" where
  "record_inbound_call_evidence c now seen first s = (case first of
       None \<Rightarrow> (s, False)
     | Some None \<Rightarrow> (s, False)
     | Some (Some d) \<Rightarrow>
         let previous = (if truthy (pget d ''last_inbound_call_at'') then pget d ''last_inbound_call_at'' else PInt 0);
             recent = (case py_number previous of None \<Rightarrow> False | Some f \<Rightarrow> fless (fplus (Fin seen) (fneg f)) (Fin 3600)) in
         if pget d CLAIM_FIELD = PNone \<and> recent then (s, True)
         else let (s', r) = profile_txn c MR_HELD (apply_release_aware now [(''last_inbound_call_at'', PFloat (Fin seen))]) s in
           (s', case r of Inl e \<Rightarrow> False | Inr m \<Rightarrow> m \<noteq> MR_HELD))"

datatype stale_result = STALE_APPLIED | STALE_MOVED_ON | STALE_HELD

definition stale_change :: "rat \<Rightarrow> pyval \<Rightarrow> updates \<Rightarrow> pydict \<Rightarrow> stale_result profile_change" where
  "stale_change now expires us d =
     (if pget d ''active'' \<noteq> PBool True \<or> pget d ''subscription_status'' \<noteq> PStr ''active'' \<or>
         \<not> py_eq (pget d ''subscription_expires'') expires then (STALE_MOVED_ON, None)
      else let (m, u) = apply_release_aware now us d in (if m = MR_HELD then STALE_HELD else STALE_APPLIED, u))"

definition update_stale_subscription :: "commit \<Rightarrow> rat \<Rightarrow> pyval \<Rightarrow> updates \<Rightarrow> document \<Rightarrow> document \<times> (store_error + stale_result)" where
  "update_stale_subscription c now expires us = profile_txn c STALE_MOVED_ON (stale_change now expires us)"

datatype entitlement_result = ENTITLEMENT_APPLIED | ENTITLEMENT_CONFLICT | ENTITLEMENT_REJECTED

definition entitlement_change :: "rat \<Rightarrow> string \<Rightarrow> rat \<Rightarrow> string \<Rightarrow> string \<Rightarrow> pydict \<Rightarrow> entitlement_result profile_change" where
  "entitlement_change now tier expires original uuid d =
     (if pget d ''active'' \<noteq> PBool True \<or> pget d ''subscription_uuid'' \<noteq> PStr uuid then (ENTITLEMENT_REJECTED, None)
      else let us = [(''subscription_tier'', PStr tier), (''subscription_status'', PStr ''active''),
             (''subscription_expires'', PFloat (Fin expires)), (''subscription_original_transaction_id'', PStr original),
             (''subscription_forwarded_from'', PNone)] @
             (if pget d ''subscription_original_transaction_id'' = PStr original then []
              else [(''subscription_auto_renews'', PNone), (''subscription_renewal_status_signed_at_ms'', PNone)]);
           (m, u) = apply_release_aware now us d in
        (if m = MR_HELD then ENTITLEMENT_CONFLICT else ENTITLEMENT_APPLIED, u))"

definition activate_subscription_entitlement ::
    "commit \<Rightarrow> rat \<Rightarrow> string \<Rightarrow> rat \<Rightarrow> string \<Rightarrow> string \<Rightarrow> document \<Rightarrow> document \<times> (store_error + entitlement_result)" where
  "activate_subscription_entitlement c now tier expires original uuid s =
     (if uuid = [] \<or> original = [] \<or> tier = [] \<or> expires \<le> 0 then (s, Inr ENTITLEMENT_REJECTED)
      else profile_txn c ENTITLEMENT_REJECTED (entitlement_change now tier expires original uuid) s)"

datatype backfill_result = BF_REPAIRED | BF_IDEMPOTENT_SAME | BF_SUPERSEDED | BF_FINGERPRINT_MISMATCH | BF_UUID_MISMATCH
  | BF_NOT_FOUND_OR_INACTIVE | BF_RELEASE_CONFLICT

definition is_missing_or_malformed_binding :: "pyval \<Rightarrow> bool" where
  "is_missing_or_malformed_binding v = (case v of PStr s \<Rightarrow> py_strip s = [] \<or> s \<noteq> py_strip s | _ \<Rightarrow> True)"

definition backfill_change :: "rat \<Rightarrow> string \<Rightarrow> string \<Rightarrow> string \<Rightarrow> rat \<Rightarrow> pydict \<Rightarrow> backfill_result profile_change" where
  "backfill_change now uuid original tier expires d =
     (let repair = (let (m, u) = apply_release_aware now [(''subscription_original_transaction_id'', PStr (py_strip original)),
            (''subscription_auto_renews'', PNone), (''subscription_renewal_status_signed_at_ms'', PNone)] d in
          (if m = MR_HELD then BF_RELEASE_CONFLICT else BF_REPAIRED, u)) in
      if pget d ''active'' \<noteq> PBool True then (BF_NOT_FOUND_OR_INACTIVE, None)
      else if pget d ''subscription_status'' \<noteq> PStr ''active'' then (BF_FINGERPRINT_MISMATCH, None)
      else if pget d ''subscription_uuid'' \<noteq> PStr uuid then (BF_UUID_MISMATCH, None)
      else if pget d ''subscription_tier'' \<noteq> PStr tier then (BF_FINGERPRINT_MISMATCH, None)
      else if (case finite_number (pget d ''subscription_expires'') of None \<Rightarrow> True | Some q \<Rightarrow> 1 \<le> \<bar>q - expires\<bar>)
        then (BF_FINGERPRINT_MISMATCH, None)
      else (case pget d ''subscription_original_transaction_id'' of
          PStr current \<Rightarrow>
            if py_strip current = [] then repair
            else if py_strip current = py_strip original
              then (if current = py_strip original then (BF_IDEMPOTENT_SAME, None) else repair)
            else (BF_SUPERSEDED, None)
        | _ \<Rightarrow> repair))"

definition conditionally_backfill_subscription_binding ::
    "commit \<Rightarrow> rat \<Rightarrow> string \<Rightarrow> string \<Rightarrow> string \<Rightarrow> rat \<Rightarrow> document \<Rightarrow> document \<times> (store_error + backfill_result)" where
  "conditionally_backfill_subscription_binding c now uuid original tier expires s =
     (if uuid = [] \<or> py_strip original = [] \<or> tier = [] \<or> expires \<le> 0 then (s, Inr BF_FINGERPRINT_MISMATCH)
      else profile_txn c BF_NOT_FOUND_OR_INACTIVE (backfill_change now uuid original tier expires) s)"

definition renewal_change :: "rat \<Rightarrow> string \<Rightarrow> string \<Rightarrow> bool \<Rightarrow> int \<Rightarrow> pydict \<Rightarrow> bool profile_change" where
  "renewal_change now uuid original renews signed d =
     (if pget d ''active'' \<noteq> PBool True \<or> pget d ''subscription_uuid'' \<noteq> PStr uuid \<or>
         pget d ''subscription_original_transaction_id'' \<noteq> PStr original then (False, None)
      else if (case pget d ''subscription_renewal_status_signed_at_ms'' of PNone \<Rightarrow> False | PInt i \<Rightarrow> i \<le> 0 \<or> signed \<le> i | _ \<Rightarrow> True)
        then (False, None)
      else let (m, u) = apply_release_aware now [(''subscription_auto_renews'', PBool renews),
             (''subscription_renewal_status_signed_at_ms'', PInt signed)] d in (m \<noteq> MR_HELD, u))"

definition record_active_renewal_status ::
    "commit \<Rightarrow> rat \<Rightarrow> string \<Rightarrow> string \<Rightarrow> bool \<Rightarrow> int \<Rightarrow> document \<Rightarrow> document \<times> (store_error + bool)" where
  "record_active_renewal_status c now uuid original renews signed s =
     (if uuid = [] \<or> original = [] \<or> signed \<le> 0 then (s, Inr False)
      else profile_txn c False (renewal_change now uuid original renews signed) s)"

text \<open>One account of the sweep of lapsed trials; \<open>started\<close> is the time at which the sweep began.\<close>

definition expire_change :: "(pyval \<Rightarrow> string) \<Rightarrow> rat \<Rightarrow> rat \<Rightarrow> pydict \<Rightarrow> bool profile_change" where
  "expire_change repr now started d =
     (if \<not> should_expire_trial repr (Some d) started then (False, None)
      else let (m, u) = apply_release_aware now [(''subscription_status'', PStr ''expired'')] d in (m \<noteq> MR_HELD, u))"

definition expire_trial :: "(pyval \<Rightarrow> string) \<Rightarrow> commit \<Rightarrow> rat \<Rightarrow> rat \<Rightarrow> document \<Rightarrow> document \<times> (store_error + bool)" where
  "expire_trial repr c now started = profile_txn c False (expire_change repr now started)"

end
