(* ===== verification/Account_Purge.thy ===== *)
theory Account_Purge
  imports Firestore
begin

text \<open>
  The purge of a deleted account, app/db/purge.py: what refuses it, the deletion of everything stored for the account, batch by
  batch, the tombstone that overwrites the profile, and the sweep. One step per request to the store, so that a purge may stop
  after any of them. The counts, which are only logged, are left out; the media bucket may not be configured.
\<close>

section \<open>What may be purged, and what is left\<close>

definition PURGE_BATCH :: nat where
  "PURGE_BATCH = 500"

definition SUBCOLLECTIONS :: "string list" where
  "SUBCOLLECTIONS = [''contacts'', ''contact_sync'', ''caller_contacts'', ''service_requests'', ''inbound_messages'', ''devices'',
     ''settings'', ''knowledge_base'']"

definition BY_CONTRACTOR :: "string list" where
  "BY_CONTRACTOR = [''calls'', ''jobs'', ''post_call_handoffs'', ''conference_bindings'']"

definition SWEEP_INTERVAL_SECONDS :: rat where
  "SWEEP_INTERVAL_SECONDS = 6 * 3600"

definition TOMBSTONE_FIELDS :: "string list" where
  "TOMBSTONE_FIELDS = [''active'', ''purged_at'', ''deactivated_at'', ''deletion_requested_at'', ''subscription_uuid'', ''apple_user_id'',
     ''post_deletion_billing'', ''number_release_anomaly'', ''deleted_app_detected_at'']"

datatype purge_refusal = Not_found | Already_purged | Not_deactivated | No_deletion_request

definition purge_refused :: "document \<Rightarrow> purge_refusal option" where
  "purge_refused s = (case s of
       None \<Rightarrow> Some Not_found
     | Some d \<Rightarrow>
         if truthy (pget d ''purged_at'') then Some Already_purged
         else if pget d ''active'' \<noteq> PBool False then Some Not_deactivated
         else if \<not> truthy (pget d ''deletion_requested_at'') then Some No_deletion_request
         else None)"

definition tombstone :: "rat \<Rightarrow> pydict \<Rightarrow> pydict" where
  "tombstone now fresh = (\<lambda>f.
     if f = ''active'' then Some (PBool False) else if f = ''purged_at'' then Some (PInt \<lfloor>now\<rfloor>)
     else if f \<in> set TOMBSTONE_FIELDS \<and> pget fresh f \<noteq> PNone then fresh f else None)"

text \<open>The overwriting: the profile is read again before, and the first reading is taken where it is gone.\<close>

definition purge_write :: "rat \<Rightarrow> pydict \<Rightarrow> document \<Rightarrow> pydict" where
  "purge_write now first fresh = tombstone now (case fresh of None \<Rightarrow> first | Some d \<Rightarrow> d)"

section \<open>The data of an account\<close>

datatype collection = Memory | Sub string | Estimates | Top string

text \<open>
  The documents of each collection that belong to the account, by identifier; the receipts under each customer memory, which may
  outlive its document; and the media under each estimate.
\<close>

record account =
  ac_profile :: document
  ac_docs :: "collection \<Rightarrow> string list"
  ac_receipts :: "(string \<times> string list) list"
  ac_blobs :: "string \<Rightarrow> string list"

text \<open>\<open>list_documents()\<close> also gives the parents that have no document any more.\<close>

definition memory_parents :: "account \<Rightarrow> string list" where
  "memory_parents a = remdups (ac_docs a Memory @ map fst (filter (\<lambda>(m, rs). rs \<noteq> []) (ac_receipts a)))"

datatype target = Receipts string | Documents collection

definition purge_targets :: "string list \<Rightarrow> target list" where
  "purge_targets parents =
     map Receipts parents @ [Documents Memory] @ map (\<lambda>n. Documents (Sub n)) SUBCOLLECTIONS @ [Documents Estimates] @
     map (\<lambda>n. Documents (Top n)) BY_CONTRACTOR"

definition receipts_of :: "account \<Rightarrow> string \<Rightarrow> string list" where
  "receipts_of a m = (case map_of (ac_receipts a) m of None \<Rightarrow> [] | Some rs \<Rightarrow> rs)"

fun documents_of :: "account \<Rightarrow> target \<Rightarrow> string list" where
  "documents_of a (Receipts m) = receipts_of a m"
| "documents_of a (Documents c) = ac_docs a c"

text \<open>The media of one estimate, where a bucket is configured, and one batch of documents.\<close>

definition drop_media :: "bool \<Rightarrow> string \<Rightarrow> account \<Rightarrow> account" where
  "drop_media bucket e a = (if bucket then a\<lparr>ac_blobs := (ac_blobs a)(e := [])\<rparr> else a)"

fun drop_batch_of :: "target \<Rightarrow> account \<Rightarrow> account" where
  "drop_batch_of (Receipts m) a = a\<lparr>ac_receipts := AList.update m (drop PURGE_BATCH (receipts_of a m)) (ac_receipts a)\<rparr>"
| "drop_batch_of (Documents c) a = a\<lparr>ac_docs := (ac_docs a)(c := drop PURGE_BATCH (ac_docs a c))\<rparr>"

section \<open>A purge, step by step\<close>

datatype purge_phase =
    Checking
  | Listing_memory pydict
  | Clearing pydict "target list"
  | Clearing_media pydict "string list" "string list" "target list"
  | Overwriting pydict
  | Refused_purge purge_refusal
  | Purged

text \<open>
  The first target of the list is cleared batch by batch until a query gives nothing. A batch of estimates first gives up the
  media of one estimate after the other, and then its documents.
\<close>

fun purge_step :: "bool \<Rightarrow> rat \<Rightarrow> purge_phase \<times> account \<Rightarrow> purge_phase \<times> account" where
  "purge_step bucket now (Checking, a) = (case (purge_refused (ac_profile a), ac_profile a) of
       (Some r, _) \<Rightarrow> (Refused_purge r, a)
     | (None, Some d) \<Rightarrow> (Listing_memory d, a)
     | (None, None) \<Rightarrow> (Refused_purge Not_found, a))"
| "purge_step bucket now (Listing_memory d, a) = (Clearing d (purge_targets (memory_parents a)), a)"
| "purge_step bucket now (Clearing d [], a) = (Overwriting d, a)"
| "purge_step bucket now (Clearing d (t # ts), a) =
     (if documents_of a t = [] then (Clearing d ts, a)
      else if t = Documents Estimates then
        (let ids = take PURGE_BATCH (ac_docs a Estimates) in (Clearing_media d ids ids (t # ts), a))
      else (Clearing d (t # ts), drop_batch_of t a))"
| "purge_step bucket now (Clearing_media d ids (e # es) ts, a) = (Clearing_media d ids es ts, drop_media bucket e a)"
| "purge_step bucket now (Clearing_media d ids [] ts, a) =
     (Clearing d ts, a\<lparr>ac_docs := (ac_docs a)(Estimates := filter (\<lambda>e. e \<notin> set ids) (ac_docs a Estimates))\<rparr>)"
| "purge_step bucket now (Overwriting d, a) = (Purged, a\<lparr>ac_profile := Some (purge_write now d (ac_profile a))\<rparr>)"
| "purge_step bucket now (Refused_purge r, a) = (Refused_purge r, a)"
| "purge_step bucket now (Purged, a) = (Purged, a)"

definition purge_steps :: "bool \<Rightarrow> rat \<Rightarrow> nat \<Rightarrow> purge_phase \<times> account \<Rightarrow> purge_phase \<times> account" where
  "purge_steps bucket now n = (purge_step bucket now ^^ n)"

section \<open>The sweep\<close>

definition purge_cutoff :: "rat \<Rightarrow> rat \<Rightarrow> rat" where
  "purge_cutoff now grace_days = now - (grace_days * 24 * 3600 - SWEEP_INTERVAL_SECONDS)"

text \<open>
  The query gives the accounts with a number before the cutoff; each comes with the profile that the query read, the account as
  it is when its purge begins, and whether that raises.
\<close>

record purge_row =
  pr_id :: string
  pr_read :: pydict
  pr_account :: account
  pr_raises :: bool

definition requested_before :: "rat \<Rightarrow> pydict \<Rightarrow> bool" where
  "requested_before cutoff d = (let v = pget d ''deletion_requested_at'' in
     \<not> is_pybool v \<and> (case py_number v of None \<Rightarrow> False | Some f \<Rightarrow> fless f (Fin cutoff)))"

definition purge_row_taken :: "rat \<Rightarrow> purge_row \<Rightarrow> bool" where
  "purge_row_taken cutoff r =
     (requested_before cutoff (pr_read r) \<and> \<not> truthy (pget (pr_read r) ''purged_at'') \<and> pget (pr_read r) ''active'' = PBool False)"

definition purge_sweep :: "bool \<Rightarrow> bool \<Rightarrow> rat \<Rightarrow> rat \<Rightarrow> purge_row list \<Rightarrow> string list" where
  "purge_sweep enabled bucket now grace_days rows =
     (if \<not> enabled then []
      else map pr_id (filter (\<lambda>r. purge_row_taken (purge_cutoff now grace_days) r \<and> \<not> pr_raises r \<and>
        purge_refused (ac_profile (pr_account r)) = None) rows))"

section \<open>What is purged\<close>

text \<open>Nothing changes before the profile has been read as that of an account whose owner asked for the deletion.\<close>

fun past_check :: "purge_phase \<Rightarrow> bool" where
  "past_check Checking = False"
| "past_check (Refused_purge r) = False"
| "past_check ph = True"

lemma purge_steps_Suc: "purge_steps bucket now (Suc n) x = purge_step bucket now (purge_steps bucket now n x)"
  by (simp add: purge_steps_def)

lemma purge_steps_0 [simp]: "purge_steps bucket now 0 x = x"
  by (simp add: purge_steps_def)

lemma purge_refusedD:
  assumes "purge_refused s = None"
  obtains d where "s = Some d" "\<not> truthy (pget d ''purged_at'')" "pget d ''active'' = PBool False" "truthy (pget d ''deletion_requested_at'')"
  using assms by (auto simp: purge_refused_def split: option.splits if_splits)

lemma unchecked_unchanged:
  "purge_refused (ac_profile a) \<noteq> None \<Longrightarrow> snd (purge_steps bucket now n (Checking, a)) = a \<and>
     (fst (purge_steps bucket now n (Checking, a)) = Checking \<or>
      (\<exists>r. purge_refused (ac_profile a) = Some r \<and> fst (purge_steps bucket now n (Checking, a)) = Refused_purge r))"
proof (induction n)
  case (Suc n)
  obtain ph b where "purge_steps bucket now n (Checking, a) = (ph, b)" by fastforce
  with Suc show ?case by (auto simp: purge_steps_Suc split: option.splits)
qed simp

text \<open>
  C99: Nothing of an account is erased without its owner's request. A purge changes something only where the profile it read was
  inactive, with an explicit \<open>False\<close>, not purged before, and had a time of the deletion request; and the sweep purges only
  accounts that such a reading found twice, whose request is older than the days of grace less the six hours of the sweep's interval.
\<close>

theorem purge_needs_request:
  "(snd (purge_steps bucket now n (Checking, a)) \<noteq> a \<longrightarrow> (\<exists>d. ac_profile a = Some d \<and> pget d ''active'' = PBool False \<and>
      truthy (pget d ''deletion_requested_at'') \<and> \<not> truthy (pget d ''purged_at''))) \<and>
   (i \<in> set (purge_sweep enabled bucket now grace rows) \<longrightarrow> enabled \<and> (\<exists>r \<in> set rows. i = pr_id r \<and> \<not> pr_raises r \<and>
      (\<exists>d. ac_profile (pr_account r) = Some d \<and> (\<forall>x \<in> {d, pr_read r}. pget x ''active'' = PBool False \<and> \<not> truthy (pget x ''purged_at'')) \<and>
        truthy (pget d ''deletion_requested_at'')) \<and>
      (\<forall>q. finite_number (pget (pr_read r) ''deletion_requested_at'') = Some q \<longrightarrow> q + grace * 86400 < now + 6 * 3600)))"
proof (intro conjI impI)
  assume "snd (purge_steps bucket now n (Checking, a)) \<noteq> a"
  then have "purge_refused (ac_profile a) = None" using unchecked_unchanged by blast
  then show "\<exists>d. ac_profile a = Some d \<and> pget d ''active'' = PBool False \<and> truthy (pget d ''deletion_requested_at'') \<and>
      \<not> truthy (pget d ''purged_at'')" by (elim purge_refusedD) blast
next
  assume i: "i \<in> set (purge_sweep enabled bucket now grace rows)"
  then show enabled by (auto simp: purge_sweep_def split: if_splits)
  from i obtain r where r: "r \<in> set rows" "i = pr_id r" "purge_row_taken (purge_cutoff now grace) r" "\<not> pr_raises r"
      "purge_refused (ac_profile (pr_account r)) = None"
    by (auto simp: purge_sweep_def split: if_splits)
  from r(3) have q: "pget (pr_read r) ''active'' = PBool False" "\<not> truthy (pget (pr_read r) ''purged_at'')"
      "requested_before (purge_cutoff now grace) (pr_read r)" by (simp_all add: purge_row_taken_def)
  have "q + grace * 86400 < now + 6 * 3600" if "finite_number (pget (pr_read r) ''deletion_requested_at'') = Some q" for q
    using q(3) that by (cases "pget (pr_read r) ''deletion_requested_at''")
      (auto simp: requested_before_def Let_def finite_number_def purge_cutoff_def SWEEP_INTERVAL_SECONDS_def elim!: finite_of.elims)
  moreover obtain d where "ac_profile (pr_account r) = Some d" "\<not> truthy (pget d ''purged_at'')" "pget d ''active'' = PBool False"
      "truthy (pget d ''deletion_requested_at'')" using r(5) by (rule purge_refusedD)
  ultimately show "\<exists>r \<in> set rows. i = pr_id r \<and> \<not> pr_raises r \<and>
      (\<exists>d. ac_profile (pr_account r) = Some d \<and> (\<forall>x \<in> {d, pr_read r}. pget x ''active'' = PBool False \<and> \<not> truthy (pget x ''purged_at'')) \<and>
        truthy (pget d ''deletion_requested_at'')) \<and>
      (\<forall>q. finite_number (pget (pr_read r) ''deletion_requested_at'') = Some q \<longrightarrow> q + grace * 86400 < now + 6 * 3600)"
    using r(1,2,4) q(1,2) by (intro bexI [where x = r]) auto
qed

definition deleted_profile :: pydict where
  "deleted_profile = [''active'' \<mapsto> PBool False, ''deletion_requested_at'' \<mapsto> PInt 1000000, ''deactivated_at'' \<mapsto> PInt 1000000,
     ''owner_phone'' \<mapsto> PStr ''+15550100'', ''apple_user_id'' \<mapsto> PStr ''u'']"

definition deleted_account :: account where
  "deleted_account = \<lparr>ac_profile = Some deleted_profile,
     ac_docs = (\<lambda>c. if c = Memory then [''m''] else if c = Estimates then [''e''] else if c = Top ''calls'' then [''k''] else []),
     ac_receipts = [(''m'', [''r'']), (''gone'', [''q''])], ac_blobs = (\<lambda>e. if e = ''e'' then [''photo''] else [])\<rparr>"

lemma deleted_refused: "purge_refused (ac_profile deleted_account) = None"
  by code_simp

text \<open>The first thing that a purge of it changes is the receipts under the memories, the second step after the listing.\<close>

lemma deleted_third_step: "ac_receipts (snd (purge_steps True 9000000 3 (Checking, deleted_account))) = [(''m'', []), (''gone'', [''q''])]"
  by code_simp

definition deleted_row :: "rat \<Rightarrow> purge_row" where
  "deleted_row requested = (let d = deleted_profile(''deletion_requested_at'' \<mapsto> PFloat (Fin requested)) in
     \<lparr>pr_id = ''c'', pr_read = d, pr_account = deleted_account\<lparr>ac_profile := Some d\<rparr>, pr_raises = False\<rparr>)"

lemma purge_needs_request_witness:
  "\<exists>d r q. ac_profile deleted_account = Some d \<and> pget d ''active'' = PBool False \<and> truthy (pget d ''deletion_requested_at'') \<and>
     r = deleted_row 1000000 \<and> purge_sweep True True 9000000 30 [r, deleted_row 8000000] = [''c''] \<and>
     finite_number (pget (pr_read r) ''deletion_requested_at'') = Some q \<and> q + 30 * 86400 < (9000000 :: rat) + 6 * 3600"
proof -
  have ne: "snd (purge_steps True 9000000 3 (Checking, deleted_account)) \<noteq> deleted_account"
    using deleted_third_step by (auto simp: deleted_account_def)
  have sw: "purge_sweep True True 9000000 30 [deleted_row 1000000] = [''c'']" "purge_sweep True True 9000000 30 [deleted_row 1000000, deleted_row 8000000] = [''c'']"
    by code_simp+
  have q: "finite_number (pget (pr_read (deleted_row 1000000)) ''deletion_requested_at'') = Some 1000000" by code_simp
  from purge_needs_request [where bucket = True and now = 9000000 and n = 3 and a = deleted_account and i = "''c''" and enabled = True and
    grace = 30 and rows = "[deleted_row 1000000]"] ne sw(1) q
  have "(\<exists>d. ac_profile deleted_account = Some d \<and> pget d ''active'' = PBool False \<and> truthy (pget d ''deletion_requested_at'')) \<and>
      (1000000 :: rat) + 30 * 86400 < 9000000 + 6 * 3600" by auto
  with sw(2) q show ?thesis by blast
qed

section \<open>A purge that was interrupted\<close>

text \<open>Attempts of the purge that each stopped somewhere, one after the other.\<close>

inductive attempted :: "bool \<Rightarrow> account \<Rightarrow> account \<Rightarrow> bool" for bucket where
  fresh: "attempted bucket a a"
| again: "attempted bucket a b \<Longrightarrow> 1 \<le> now \<Longrightarrow> attempted bucket a (snd (purge_steps bucket now n (Checking, b)))"

text \<open>Every medium belongs to an estimate that is still there; of a batch under way only the estimates ahead still have media.\<close>

definition media_found :: "account \<Rightarrow> bool" where
  "media_found a = (\<forall>e. ac_blobs a e \<noteq> [] \<longrightarrow> e \<in> set (ac_docs a Estimates))"

fun media_kept :: "purge_phase \<times> account \<Rightarrow> bool" where
  "media_kept (Clearing_media d ids es ts, a) = (media_found a \<and> (\<forall>e \<in> set ids. e \<notin> set es \<longrightarrow> ac_blobs a e = []))"
| "media_kept (ph, a) = media_found a"

lemma media_kept_found: "media_kept (ph, a) \<Longrightarrow> media_found a"
  by (cases ph) simp_all

lemma media_step: "media_kept x \<Longrightarrow> media_kept (purge_step True now x)"
proof (induction True now x rule: purge_step.induct)
  case (4 now d t ts a)
  then show ?case by (cases t) (auto simp: media_found_def Let_def)
qed (auto simp: media_found_def drop_media_def split: option.splits)

text \<open>No step adds anything, and none before the last changes the profile.\<close>

definition lessened :: "account \<Rightarrow> account \<Rightarrow> bool" where
  "lessened a b = (ac_profile b = ac_profile a \<and> (\<forall>t. set (documents_of b t) \<subseteq> set (documents_of a t)))"

lemma lessened_refl [simp]: "lessened a a"
  by (simp add: lessened_def)

lemma lessened_trans: "lessened a b \<Longrightarrow> lessened b c \<Longrightarrow> lessened a c"
  unfolding lessened_def by (metis subset_trans)

lemma lessened_empty: "lessened a b \<Longrightarrow> documents_of a t = [] \<Longrightarrow> documents_of b t = []"
  unfolding lessened_def by (metis set_empty subset_empty)

lemma lessened_batch: "lessened a (drop_batch_of t a)"
proof (cases t)
  case (Receipts m)
  have "set (documents_of (drop_batch_of t a) u) \<subseteq> set (documents_of a u)" for u
    by (cases u) (auto simp: Receipts receipts_of_def update_conv' dest: in_set_dropD split: option.splits if_splits)
  with Receipts show ?thesis by (simp add: lessened_def)
next
  case (Documents c)
  have "set (documents_of (drop_batch_of t a) u) \<subseteq> set (documents_of a u)" for u
    by (cases u) (auto simp: Documents receipts_of_def dest: in_set_dropD)
  with Documents show ?thesis by (simp add: lessened_def)
qed

lemma lessened_media: "lessened a (drop_media bucket e a)"
proof -
  have "documents_of (drop_media bucket e a) t = documents_of a t" for t
    by (cases t) (simp_all add: drop_media_def receipts_of_def)
  then show ?thesis by (simp add: lessened_def drop_media_def)
qed

lemma lessened_estimates: "lessened a (a\<lparr>ac_docs := (ac_docs a)(Estimates := filter P (ac_docs a Estimates))\<rparr>)"
proof -
  have "set (documents_of (a\<lparr>ac_docs := (ac_docs a)(Estimates := filter P (ac_docs a Estimates))\<rparr>) t) \<subseteq> set (documents_of a t)" for t
    by (cases t) (auto simp: receipts_of_def)
  then show ?thesis by (simp add: lessened_def)
qed

text \<open>Every target is cleared after finitely many steps.\<close>

definition leads :: "bool \<Rightarrow> rat \<Rightarrow> purge_phase \<times> account \<Rightarrow> purge_phase \<times> account \<Rightarrow> bool" where
  "leads bucket now x y = (\<exists>n. purge_steps bucket now n x = y)"

lemma leads_refl [simp]: "leads bucket now x x"
  unfolding leads_def by (metis purge_steps_0)

lemma leads_step: "leads bucket now (purge_step bucket now x) y \<Longrightarrow> leads bucket now x y"
proof -
  assume "leads bucket now (purge_step bucket now x) y"
  then obtain n where "purge_steps bucket now n (purge_step bucket now x) = y" by (auto simp: leads_def)
  then have "purge_steps bucket now (Suc n) x = y" by (simp add: purge_steps_def funpow_swap1)
  then show ?thesis by (auto simp: leads_def)
qed

lemma leads_one: "purge_step bucket now x = y \<Longrightarrow> leads bucket now x y"
  by (rule leads_step) simp

lemma leads_trans: "leads bucket now x y \<Longrightarrow> leads bucket now y z \<Longrightarrow> leads bucket now x z"
proof -
  assume "leads bucket now x y" "leads bucket now y z"
  then obtain m n where "purge_steps bucket now m x = y" "purge_steps bucket now n y = z" by (auto simp: leads_def)
  then have "purge_steps bucket now (n + m) x = z" by (simp add: purge_steps_def funpow_add)
  then show ?thesis by (auto simp: leads_def)
qed

lemma media_cleared: "\<exists>b. leads bucket now (Clearing_media d ids es ts, a) (Clearing_media d ids [] ts, b) \<and> lessened a b \<and> ac_docs b = ac_docs a"
proof (induction es arbitrary: a)
  case (Cons e es)
  have "leads bucket now (Clearing_media d ids (e # es) ts, a) (Clearing_media d ids es ts, drop_media bucket e a)" by (rule leads_one) simp
  moreover obtain b where "leads bucket now (Clearing_media d ids es ts, drop_media bucket e a) (Clearing_media d ids [] ts, b)"
    "lessened (drop_media bucket e a) b" "ac_docs b = ac_docs (drop_media bucket e a)" using Cons by blast
  moreover have "ac_docs (drop_media bucket e a) = ac_docs a" by (simp add: drop_media_def)
  ultimately show ?case using lessened_media by (intro exI [where x = b]) (auto intro: leads_trans lessened_trans)
qed (use lessened_refl leads_refl in fastforce)

lemma batch_shorter: "documents_of a t \<noteq> [] \<Longrightarrow> length (documents_of (drop_batch_of t a) t) < length (documents_of a t)"
  by (cases t) (simp_all add: receipts_of_def update_conv' PURGE_BATCH_def split: option.splits)

lemma estimates_shorter: "xs \<noteq> [] \<Longrightarrow> length (filter (\<lambda>e. e \<notin> set (take PURGE_BATCH xs)) xs) < length xs"
  by (rule length_filter_less [where x = "hd xs"]) (cases xs; simp add: PURGE_BATCH_def)+

lemma target_cleared: "\<exists>b. leads bucket now (Clearing d (t # ts), a) (Clearing d ts, b) \<and> lessened a b \<and> documents_of b t = []"
proof (induction "length (documents_of a t)" arbitrary: a rule: less_induct)
  case less
  let ?x = "(Clearing d (t # ts), a)"
  show ?case
  proof (cases "documents_of a t = []")
    case True
    then have "purge_step bucket now ?x = (Clearing d ts, a)" by simp
    then have "leads bucket now ?x (Clearing d ts, a)" by (rule leads_one)
    with True show ?thesis by (auto intro!: exI [where x = a])
  next
    case False
    obtain b where b: "leads bucket now ?x (Clearing d (t # ts), b)" "lessened a b" "length (documents_of b t) < length (documents_of a t)"
    proof (cases "t = Documents Estimates")
      case True
      let ?ids = "take PURGE_BATCH (ac_docs a Estimates)"
      obtain m where m: "leads bucket now (Clearing_media d ?ids ?ids (t # ts), a) (Clearing_media d ?ids [] (t # ts), m)" "lessened a m"
        "ac_docs m = ac_docs a" using media_cleared by blast
      let ?b = "m\<lparr>ac_docs := (ac_docs m)(Estimates := filter (\<lambda>e. e \<notin> set ?ids) (ac_docs m Estimates))\<rparr>"
      have "purge_step bucket now ?x = (Clearing_media d ?ids ?ids (t # ts), a)" using False True by (simp add: Let_def)
      moreover have "leads bucket now (Clearing_media d ?ids [] (t # ts), m) (Clearing d (t # ts), ?b)" by (rule leads_one) simp
      ultimately have "leads bucket now ?x (Clearing d (t # ts), ?b)" using m(1) by (metis leads_step leads_trans)
      moreover have "lessened a ?b" by (rule lessened_trans [OF m(2) lessened_estimates])
      moreover have "length (documents_of ?b t) < length (documents_of a t)" using False True estimates_shorter by (simp add: m(3))
      ultimately show thesis by (rule that)
    next
      case no: False
      have "leads bucket now ?x (Clearing d (t # ts), drop_batch_of t a)" by (rule leads_one) (use False no in simp)
      then show thesis using lessened_batch batch_shorter [OF False] by (rule that)
    qed
    from less [OF b(3)] obtain c where "leads bucket now (Clearing d (t # ts), b) (Clearing d ts, c)" "lessened b c" "documents_of c t = []"
      by blast
    with b show ?thesis by (blast intro: leads_trans lessened_trans)
  qed
qed

lemma targets_cleared: "\<exists>b. leads bucket now (Clearing d ts, a) (Clearing d [], b) \<and> lessened a b \<and> (\<forall>t \<in> set ts. documents_of b t = [])"
proof (induction ts arbitrary: a)
  case (Cons t ts)
  obtain b where b: "leads bucket now (Clearing d (t # ts), a) (Clearing d ts, b)" "lessened a b" "documents_of b t = []"
    using target_cleared by blast
  from Cons obtain c where "leads bucket now (Clearing d ts, b) (Clearing d [], c)" "lessened b c" "\<forall>t \<in> set ts. documents_of c t = []" by blast
  with b show ?case using lessened_empty by (intro exI [where x = c]) (auto intro: leads_trans lessened_trans)
qed (use lessened_refl leads_refl in fastforce)

text \<open>Everything that a purge erases: the receipts under any memory, and the documents of its targets.\<close>

definition all_targets :: "target set" where
  "all_targets = range Receipts \<union> set (purge_targets [])"

text \<open>An account after its purge; \<open>d\<close> is the profile that the first attempt read.\<close>

definition erased :: "bool \<Rightarrow> pydict \<Rightarrow> account \<Rightarrow> bool" where
  "erased bucket d a = ((\<exists>now \<ge> 1. ac_profile a = Some (tombstone now d)) \<and> (\<forall>t \<in> all_targets. documents_of a t = []) \<and>
     (bucket \<longrightarrow> (\<forall>e. ac_blobs a e = [])))"

fun purge_inv :: "bool \<Rightarrow> pydict \<Rightarrow> purge_phase \<times> account \<Rightarrow> bool" where
  "purge_inv bucket d0 (Checking, a) = (ac_profile a = Some d0)"
| "purge_inv bucket d0 (Listing_memory d, a) = (d = d0 \<and> ac_profile a = Some d0)"
| "purge_inv bucket d0 (Clearing d ts, a) = (d = d0 \<and> ac_profile a = Some d0 \<and> (\<forall>t \<in> all_targets. t \<in> set ts \<or> documents_of a t = []))"
| "purge_inv bucket d0 (Clearing_media d ids es ts, a) = (d = d0 \<and> ac_profile a = Some d0 \<and> (\<forall>t \<in> all_targets. t \<in> set ts \<or> documents_of a t = []))"
| "purge_inv bucket d0 (Overwriting d, a) = (d = d0 \<and> ac_profile a = Some d0 \<and> (\<forall>t \<in> all_targets. documents_of a t = []))"
| "purge_inv bucket d0 (Refused_purge r, a) = False"
| "purge_inv bucket d0 (Purged, a) = erased bucket d0 a"

lemma listed_targets: "t \<in> all_targets \<Longrightarrow> t \<in> set (purge_targets (memory_parents a)) \<or> documents_of a t = []"
proof (cases t)
  case (Receipts m)
  have "m \<in> set (memory_parents a)" if "receipts_of a m \<noteq> []"
  proof -
    from that obtain rs where "map_of (ac_receipts a) m = Some rs" "rs \<noteq> []" by (auto simp: receipts_of_def split: option.splits)
    then have "(m, rs) \<in> set (filter (\<lambda>(m, rs). rs \<noteq> []) (ac_receipts a))" by (auto dest: map_of_SomeD)
    then show ?thesis by (force simp: memory_parents_def)
  qed
  with Receipts show ?thesis by (auto simp: purge_targets_def)
qed (auto simp: all_targets_def purge_targets_def)

lemma lessened_inv:
  "lessened a b \<Longrightarrow> \<forall>t \<in> all_targets. t \<in> set ts \<or> documents_of a t = [] \<Longrightarrow> \<forall>t \<in> all_targets. t \<in> set ts \<or> documents_of b t = []"
  using lessened_empty by blast

lemma run_inv_step:
  assumes "purge_inv bucket d0 x" "bucket \<longrightarrow> media_kept x" "purge_refused (Some d0) = None" "1 \<le> now"
  shows "purge_inv bucket d0 (purge_step bucket now x)"
proof -
  obtain ph a where x: "x = (ph, a)" by (cases x)
  show ?thesis
  proof (cases ph)
    case Checking
    with assms(1,3) x show ?thesis by simp
  next
    case (Listing_memory d)
    with assms(1) x listed_targets [of _ a] show ?thesis by auto
  next
    case (Clearing d us)
    show ?thesis
    proof (cases us)
      case Nil
      with assms(1) x Clearing show ?thesis by simp
    next
      case (Cons t ts)
      have inv: "d = d0" "ac_profile a = Some d0" "\<forall>t \<in> all_targets. t \<in> set us \<or> documents_of a t = []" using assms(1) x Clearing by simp_all
      note batch = lessened_batch [of a t]
      show ?thesis
        using inv lessened_inv [OF batch inv(3)] batch
        by (auto simp: x Clearing Cons Let_def lessened_def)
    qed
  next
    case (Clearing_media d ids es ts)
    have inv: "d = d0" "ac_profile a = Some d0" "\<forall>t \<in> all_targets. t \<in> set ts \<or> documents_of a t = []"
      using assms(1) x Clearing_media by simp_all
    show ?thesis
    proof (cases es)
      case Nil
      from lessened_inv [OF lessened_estimates [of a "\<lambda>e. e \<notin> set ids"] inv(3)] inv(1,2) show ?thesis by (simp add: x Clearing_media Nil)
    next
      case (Cons e es')
      from lessened_inv [OF lessened_media [of a bucket e] inv(3)] lessened_media [of a bucket e] inv(1,2)
      show ?thesis by (simp add: x Clearing_media Cons lessened_def)
    qed
  next
    case (Overwriting d)
    have inv: "d = d0" "ac_profile a = Some d0" "\<forall>t \<in> all_targets. documents_of a t = []" using assms(1) x Overwriting by simp_all
    have "documents_of (a\<lparr>ac_profile := p\<rparr>) t = documents_of a t" for p t by (cases t) (simp_all add: receipts_of_def)
    moreover have "ac_docs a Estimates = []" using inv(3) by (force simp: all_targets_def purge_targets_def)
    moreover have "bucket \<longrightarrow> media_found a" using assms(2) x media_kept_found [of ph a] by blast
    ultimately show ?thesis using inv assms(4) by (auto simp: x Overwriting erased_def purge_write_def media_found_def)
  qed (use assms(1) x in simp_all)
qed

lemma run_inv_steps:
  assumes "ac_profile b = Some d0" "purge_refused (Some d0) = None" "bucket \<longrightarrow> media_found b" "1 \<le> now"
  shows "purge_inv bucket d0 (purge_steps bucket now n (Checking, b)) \<and> (bucket \<longrightarrow> media_kept (purge_steps bucket now n (Checking, b)))"
proof (induction n)
  case (Suc n)
  then show ?case using run_inv_step [OF _ _ assms(2,4)] media_step by (cases bucket) (auto simp: purge_steps_Suc)
qed (use assms in simp)

lemma tombstone_refused:
  assumes "1 \<le> now"
  shows "purge_refused (Some (tombstone now d)) = Some Already_purged"
proof -
  have "\<lfloor>now\<rfloor> \<noteq> 0" using assms by linarith
  then show ?thesis by (simp add: purge_refused_def tombstone_def pget_def)
qed

lemma run_inv_outcome: "purge_inv bucket d0 (ph, c) \<Longrightarrow> ac_profile c = Some d0 \<and> ph \<noteq> Purged \<or> erased bucket d0 c"
  by (cases ph) auto

lemma attempt_outcome:
  assumes "attempted bucket a b" "ac_profile a = Some d0" "purge_refused (Some d0) = None" "bucket \<longrightarrow> media_found a"
  shows "ac_profile b = Some d0 \<and> (bucket \<longrightarrow> media_found b) \<or> erased bucket d0 b"
  using assms
proof (induction rule: attempted.induct)
  case (again a b now n)
  obtain ph c where r: "purge_steps bucket now n (Checking, b) = (ph, c)" by fastforce
  from again(3) [OF again(4-6)] consider "ac_profile b = Some d0 \<and> (bucket \<longrightarrow> media_found b)" | "erased bucket d0 b" by blast
  then show ?case
  proof cases
    case 1
    then have "purge_inv bucket d0 (ph, c)" "bucket \<longrightarrow> media_kept (ph, c)"
      using run_inv_steps [of b d0 bucket now n] again(2,5) unfolding r by blast+
    then show ?thesis using run_inv_outcome [of bucket d0 ph c] media_kept_found [of ph c] unfolding r by auto
  next
    case 2
    then have "purge_refused (ac_profile b) \<noteq> None" using tombstone_refused by (auto simp: erased_def)
    then have "c = b" using unchecked_unchanged [of b bucket now n] r by simp
    with 2 r show ?thesis by simp
  qed
qed simp

lemma tombstone_fields:
  "dom (tombstone now d) \<subseteq> set TOMBSTONE_FIELDS" "pget (tombstone now d) ''active'' = PBool False"
  "f \<in> set TOMBSTONE_FIELDS - {''active'', ''purged_at''} \<Longrightarrow> pget (tombstone now d) f = pget d f"
  by (auto simp: tombstone_def TOMBSTONE_FIELDS_def pget_def split: if_splits option.splits)


lemma deleted_media: "media_found deleted_account"
  by (simp add: media_found_def deleted_account_def)


end
