(* ===== verification/Number_Release_Run.thy ===== *)
theory Number_Release_Run
  imports Number_Release Account_Purge
begin

text \<open>
  A run of release_twilio_number of app/db/contractors.py, alone, behind deactivate_contractor, or behind the claim of the strict
  sweep of app/services/number_release.py: one step per awaited operation. Between two steps any other run and any writer of the
  profile may act. The provider's answers, failures of reads and of commits, the clock and a cancellation (or a crash) after a
  step are its input.
\<close>

section \<open>Arguments and phases\<close>

text \<open>\<open>ra_expected\<close> is the snapshot that the strict precondition compares with; a run with one holds a claim before it deactivates.\<close>

record release_args =
  ra_expected :: "pydict option"
  ra_confirmed :: bool
  ra_deactivate :: bool
  ra_deactivation :: updates

definition expected_snapshot :: "release_args \<Rightarrow> pydict \<Rightarrow> bool" where
  "expected_snapshot a d = (case ra_expected a of None \<Rightarrow> True | Some e \<Rightarrow> same_strict_release_snapshot e d)"

definition release_precondition :: "string \<Rightarrow> release_args \<Rightarrow> pydict \<Rightarrow> bool" where
  "release_precondition number a d = (pget d ''twilio_number'' = PStr number \<and> expected_snapshot a d)"

definition held_number :: "pydict \<Rightarrow> string option" where
  "held_number d = (case pget d ''twilio_number'' of PStr number \<Rightarrow> if number = [] then None else Some number | _ \<Rightarrow> None)"

datatype release_end = Answered bool | Release_raised

text \<open>
  Where a run is; a flag says that it holds a claim, a second one that the provider listed the number, a time is the one noted
  before the listing.
\<close>

datatype release_phase =
    Reserving_strict
  | Loading bool
  | Deactivating
  | Opening bool
  | Reserving string
  | Listing string rat
  | Beginning string rat bool
  | Deleting string rat
  | Finalizing string rat bool
  | Holding string rat string release_end
  | Ended release_end

datatype delete_answer = Deleted | Already_gone | Not_confirmed | Delete_failed

record release_input =
  ri_commit :: commit
  ri_now :: rat
  ri_fails :: bool
  ri_found :: bool
  ri_delete :: delete_answer
  ri_cancelled :: bool

definition anomaly_updates :: "string \<Rightarrow> rat \<Rightarrow> updates" where
  "anomaly_updates number noted = [(''number_release_anomaly'', PDict [(''at'', seconds noted), (''number'', PStr number)])]"

definition release_updates :: "string \<Rightarrow> rat \<Rightarrow> bool \<Rightarrow> updates" where
  "release_updates number noted found =
     [(''twilio_number'', PStr ''''), (''number_released_at'', seconds noted), (''provisioned_country_code'', PNone),
      (''number_provider'', PNone), (''number_type'', PNone), (''number_capabilities'', PNone)] @
     (if found then [] else anomaly_updates number noted)"

text \<open>The next phase, the profile, and the numbers whose deletion was asked of the provider.\<close>

type_synonym release_result = "release_phase \<times> document \<times> string list"

definition after_txn :: "document \<times> (store_error + bool) \<Rightarrow> release_phase \<Rightarrow> release_phase \<Rightarrow> release_result" where
  "after_txn r yes no = (case snd r of
       Inl e \<Rightarrow> Ended Release_raised | Inr b \<Rightarrow> if b then yes else no, fst r, [])"

fun release_step :: "string \<Rightarrow> release_args \<Rightarrow> release_input \<Rightarrow> release_phase \<Rightarrow> document \<Rightarrow> release_result" where
  "release_step n a i Reserving_strict s =
     after_txn (claim_strict_number_release (ri_commit i) (ri_now i) n (expected_snapshot a) s) (Loading True) (Ended Release_raised)"
| "release_step n a i (Loading claimed) s =
     (if ri_fails i then (Ended Release_raised, s, [])
      else (case s of
          None \<Rightarrow> (Ended (Answered False), s, [])
        | Some d \<Rightarrow> (if held_number d = None then Deactivating else Opening claimed, s, [])))"
| "release_step n a i Deactivating s =
     after_txn (update_contractor (ri_commit i) (ri_now i)
         (updated [(''active'', PBool False), (''deactivated_at'', seconds (ri_now i))] (ra_deactivation a)) s)
       (Ended (Answered True)) (Ended (Answered False))"
| "release_step n a i (Opening claimed) s =
     (if claimed \<and> (\<not> ra_confirmed a \<or> ra_expected a = None) then (Ended (Answered False), s, [])
      else if ri_fails i then (Ended Release_raised, s, [])
      else (case Option.bind s held_number of
          None \<Rightarrow> (Ended (Answered False), s, [])
        | Some number \<Rightarrow>
            if \<not> release_precondition number a (fields_of s) then (Ended (Answered False), s, [])
            else (if claimed then Listing number (ri_now i) else Reserving number, s, [])))"
| "release_step n a i (Reserving number) s =
     after_txn (claim_strict_number_release (ri_commit i) (ri_now i) n (release_precondition number a) s)
       (Listing number (ri_now i)) (Ended (Answered False))"
| "release_step n a i (Listing number noted) s =
     (if ri_fails i then (Holding number noted ''reserved'' Release_raised, s, [])
      else if \<not> ri_found i \<and> ra_confirmed a then (Holding number noted ''reserved'' (Answered False), s, [])
      else (Beginning number noted (ri_found i), s, []))"
| "release_step n a i (Beginning number noted found) s =
     after_txn (begin_strict_number_release_delete (ri_commit i) (ri_now i) \<lparr>rt_nonce = n, rt_state = ''reserved''\<rparr>
         (release_precondition number a) s)
       (if found then Deleting number noted else Finalizing number noted False) (Ended (Answered False))"
| "release_step n a i (Deleting number noted) s =
     (case ri_delete i of
        Deleted \<Rightarrow> Finalizing number noted True
      | Already_gone \<Rightarrow> Finalizing number noted True
      | Not_confirmed \<Rightarrow> Holding number noted ''deleting'' (Answered False)
      | Delete_failed \<Rightarrow> Holding number noted ''deleting'' Release_raised, s, [number])"
| "release_step n a i (Finalizing number noted found) s =
     after_txn (finalize_strict_number_release (ri_commit i) (ri_now i) \<lparr>rt_nonce = n, rt_state = ''deleting''\<rparr>
         (release_updates number noted found) (release_precondition number a) (ra_deactivate a) (ra_deactivation a) s)
       (Ended (Answered True)) (Holding number noted ''deleting'' (Answered False))"
| "release_step n a i (Holding number noted state e) s =
     after_txn (hold_strict_number_release (ri_commit i) (ri_now i) \<lparr>rt_nonce = n, rt_state = state\<rparr> (anomaly_updates number noted) s)
       (Ended e) (Ended e)"
| "release_step n a i (Ended e) s = (Ended e, s, [])"

definition run_release_step :: "string \<Rightarrow> release_args \<Rightarrow> release_input \<Rightarrow> release_phase \<Rightarrow> document \<Rightarrow> release_result" where
  "run_release_step n a i ph s =
     (let (ph', s', numbers) = release_step n a i ph s in
      (if ri_cancelled i then (case ph' of Ended e \<Rightarrow> ph' | _ \<Rightarrow> Ended Release_raised) else ph', s', numbers))"

section \<open>The writers together\<close>

datatype profile_op =
    Claim_op string "pydict \<Rightarrow> bool"
  | Begin_op release_token "pydict \<Rightarrow> bool"
  | Hold_op release_token pyval
  | Finalize_op release_token updates "pydict \<Rightarrow> bool" bool updates
  | Update_op updates
  | Inbound_op rat "document option"
  | Stale_op pyval updates
  | Entitlement_op string rat string string
  | Backfill_op string string string rat
  | Renewal_op string string bool int
  | Expire_op rat
  | Purge_op document document
  | Other_op updates

text \<open>
  \<open>Purge_op\<close> is the overwriting of a purge with its two readings of the profile, which may be older than the profile it meets.
  \<open>Other_op\<close> is a direct write of fields that neither the claim nor the snapshot of a strict release reads, as ensure_subscription_uuid and
  record_inactive_notification make them.
\<close>

definition outside_release :: "string set" where
  "outside_release = - set (CLAIM_FIELD # CONFLICT_FIELD # STRICT_RELEASE_GUARD_FIELDS)"

fun apply_profile_op :: "(pyval \<Rightarrow> string) \<Rightarrow> commit \<Rightarrow> rat \<Rightarrow> profile_op \<Rightarrow> document \<Rightarrow> document" where
  "apply_profile_op repr c now (Claim_op n eligible) s = fst (claim_strict_number_release c now n eligible s)"
| "apply_profile_op repr c now (Begin_op token eligible) s = fst (begin_strict_number_release_delete c now token eligible s)"
| "apply_profile_op repr c now (Hold_op token v) s = fst (hold_strict_number_release c now token [(''number_release_anomaly'', v)] s)"
| "apply_profile_op repr c now (Finalize_op token release eligible deactivate deactivation) s =
     fst (finalize_strict_number_release c now token release eligible deactivate deactivation s)"
| "apply_profile_op repr c now (Update_op us) s = fst (update_contractor c now us s)"
| "apply_profile_op repr c now (Inbound_op seen first) s = fst (record_inbound_call_evidence c now seen first s)"
| "apply_profile_op repr c now (Stale_op expires us) s = fst (update_stale_subscription c now expires us s)"
| "apply_profile_op repr c now (Entitlement_op tier expires original uuid) s =
     fst (activate_subscription_entitlement c now tier expires original uuid s)"
| "apply_profile_op repr c now (Backfill_op uuid original tier expires) s =
     fst (conditionally_backfill_subscription_binding c now uuid original tier expires s)"
| "apply_profile_op repr c now (Renewal_op uuid original renews signed) s =
     fst (record_active_renewal_status c now uuid original renews signed s)"
| "apply_profile_op repr c now (Expire_op started) s = fst (expire_trial repr c now started s)"
| "apply_profile_op repr c now (Purge_op first fresh) s =
     (case (purge_refused first, first) of
        (None, Some d) \<Rightarrow> fst (transact c s (Inr ((), Some (purge_write now d fresh))))
      | _ \<Rightarrow> s)"
| "apply_profile_op repr c now (Other_op us) s =
     (if list_all (\<lambda>(k, v). k \<in> outside_release) us then map_option (\<lambda>d. d ++ map_of us) s else s)"

end
