(* ===== verification/Number_Release_Safety.thy ===== *)
theory Number_Release_Safety
  imports Number_Release_Run
begin

text \<open>
  What the fence of a number's release guarantees, for any runs, writers, lost commits, provider answers and cancellations in any
  order: a run that has crossed the point of no return owns the profile's number until its own finalisation.
\<close>

section \<open>A claim past the point of no return\<close>

text \<open>The claim is \<open>n\<close>'s, deleting or held for an operator.\<close>

definition beyond :: "string \<Rightarrow> pydict \<Rightarrow> bool" where
  "beyond n d = (\<exists>claim. pget d CLAIM_FIELD = PDict claim \<and> map_of claim ''nonce'' = Some (PStr n) \<and>
     claim_state claim \<in> {PStr ''deleting'', PStr ''needs_attention''})"

definition same_guard :: "pydict \<Rightarrow> pydict \<Rightarrow> bool" where
  "same_guard d d' = (\<forall>k \<in> set STRICT_RELEASE_GUARD_FIELDS. d' k = d k)"

lemma claim_field_neq [simp]: "CLAIM_FIELD \<noteq> CONFLICT_FIELD" "CONFLICT_FIELD \<noteq> CLAIM_FIELD"
  by (simp_all add: CLAIM_FIELD_def CONFLICT_FIELD_def)

lemma guard_fields_neq: "CLAIM_FIELD \<notin> set STRICT_RELEASE_GUARD_FIELDS" "CONFLICT_FIELD \<notin> set STRICT_RELEASE_GUARD_FIELDS"
    "''number_release_anomaly'' \<notin> set STRICT_RELEASE_GUARD_FIELDS" "CLAIM_FIELD \<noteq> ''number_release_anomaly''"
    "CONFLICT_FIELD \<noteq> ''number_release_anomaly''"
  by (simp_all add: CLAIM_FIELD_def CONFLICT_FIELD_def STRICT_RELEASE_GUARD_FIELDS_def)

definition upd_all :: "pydict \<Rightarrow> updates \<Rightarrow> pydict" where
  "upd_all m us = foldl (\<lambda>m (k, v). m(k \<mapsto> v)) m us"

lemma upd_all_simps [simp]: "upd_all m [] = m" "upd_all m ((k, v) # us) = upd_all (m(k \<mapsto> v)) us"
  by (simp_all add: upd_all_def)

lemma map_of_updated: "map_of (updated kvs us) = upd_all (map_of kvs) us"
proof (induction us arbitrary: kvs)
  case (Cons u us)
  then show ?case by (cases u) (simp add: updated_def update_conv' del: fun_upd_apply)
qed (simp add: updated_def)

lemma upd_all_None: "f \<notin> set (map fst us) \<Longrightarrow> upd_all m us f = m f"
proof (induction us arbitrary: m)
  case (Cons u us)
  then show ?case by (cases u) auto
qed simp

lemma upd_all_Some: "distinct (map fst us) \<Longrightarrow> map_of us f = Some v \<Longrightarrow> upd_all m us f = Some v"
proof (induction us arbitrary: m)
  case (Cons u us)
  then show ?case by (cases u) (auto simp: upd_all_None split: if_splits)
qed simp

lemma written_simps [simp]: "profile_after d None = d" "profile_after d (Some us) = d ++ map_of us"
  by (simp_all add: profile_after_def)

lemma pget_map_add: "pget (d ++ m) k = (case m k of None \<Rightarrow> pget d k | Some v \<Rightarrow> v)"
  by (simp add: pget_def map_add_def split: option.splits)

lemma same_guard_refl [simp]: "same_guard d d"
  by (simp add: same_guard_def)

lemma same_guard_trans: "same_guard a b \<Longrightarrow> same_guard b c \<Longrightarrow> same_guard a c"
  by (simp add: same_guard_def)

lemma same_guard_write: "\<forall>k \<in> set STRICT_RELEASE_GUARD_FIELDS. map_of us k = None \<Longrightarrow> same_guard d (d ++ map_of us)"
  by (simp add: same_guard_def map_add_def)

lemma same_guard_number: "same_guard d d' \<Longrightarrow> pget d' ''twilio_number'' = pget d ''twilio_number''"
  by (simp add: same_guard_def pget_def STRICT_RELEASE_GUARD_FIELDS_def)

lemma same_guard_snapshot: "same_guard d d' \<Longrightarrow> same_strict_release_snapshot e d' = same_strict_release_snapshot e d"
  by (simp add: same_guard_def same_strict_release_snapshot_def same_field_def list_all_iff)

lemma same_guard_precondition: "same_guard d d' \<Longrightarrow> release_precondition number a d' = release_precondition number a d"
  by (simp add: release_precondition_def expected_snapshot_def same_guard_number same_guard_snapshot split: option.splits)

text \<open>A profile whose claim is \<open>n\<close>'s and past the point of no return, and that has not changed since \<open>d0\<close> in what a release reads.\<close>

definition frozen_profile :: "string \<times> pydict \<Rightarrow> document \<Rightarrow> bool" where
  "frozen_profile k s = (\<exists>d. s = Some d \<and> beyond (fst k) d \<and> same_guard (snd k) d)"

text \<open>A change keeps the freeze of \<open>n\<close> if what it writes does.\<close>

definition keeps_claim :: "string \<Rightarrow> (pydict \<Rightarrow> 'a profile_change) \<Rightarrow> bool" where
  "keeps_claim n f = (\<forall>d. beyond n d \<longrightarrow> beyond n (profile_after d (snd (f d))) \<and> same_guard d (profile_after d (snd (f d))))"

lemma keepsI: "(\<And>d. beyond n d \<Longrightarrow> beyond n (profile_after d (snd (f d))) \<and> same_guard d (profile_after d (snd (f d)))) \<Longrightarrow> keeps_claim n f"
  by (simp add: keeps_claim_def)

lemma keeps_txn:
  assumes "keeps_claim n f" "frozen_profile (n, d0) s"
  shows "frozen_profile (n, d0) (fst (profile_txn c missing f s))"
proof -
  from assms(2) obtain d where d: "s = Some d" "beyond n d" "same_guard d0 d" by (auto simp: frozen_profile_def)
  with assms(1) have "frozen_profile (n, d0) (Some (profile_after d (snd (f d))))" by (auto simp: keeps_claim_def frozen_profile_def intro: same_guard_trans)
  with assms(2) d(1) show ?thesis by (cases c) (simp_all add: profile_txn_def)
qed

lemma beyond_write:
  assumes "map_of us CLAIM_FIELD = Some (PDict claim)" "map_of claim ''nonce'' = Some (PStr n)"
    "claim_state claim \<in> {PStr ''deleting'', PStr ''needs_attention''}" "\<forall>k \<in> set STRICT_RELEASE_GUARD_FIELDS. map_of us k = None"
  shows "beyond n (d ++ map_of us) \<and> same_guard d (d ++ map_of us)"
  using assms by (auto simp: beyond_def pget_map_add same_guard_write)

lemma held_claim: "map_of (updated claim [(''state'', PStr ''needs_attention''), (''held_at'', v)]) ''nonce'' = map_of claim ''nonce''"
    "claim_state (updated claim [(''state'', PStr ''needs_attention''), (''held_at'', v)]) = PStr ''needs_attention''"
  by (simp_all add: map_of_updated claim_state_def)

lemma apply_release_aware_keeps: "keeps_claim n (apply_release_aware now us)"
proof (rule keepsI)
  fix d assume b: "beyond n d"
  then obtain claim where c: "pget d CLAIM_FIELD = PDict claim" "map_of claim ''nonce'' = Some (PStr n)"
      "claim_state claim \<in> {PStr ''deleting'', PStr ''needs_attention''}"
    by (auto simp: beyond_def)
  let ?c = "if claim_state claim = PStr ''deleting'' then updated claim [(''state'', PStr ''needs_attention''), (''held_at'', seconds now)] else claim"
  have "beyond n (d ++ map_of [(CLAIM_FIELD, PDict ?c), (CONFLICT_FIELD, v)]) \<and>
      same_guard d (d ++ map_of [(CLAIM_FIELD, PDict ?c), (CONFLICT_FIELD, v)])" for v
    by (rule beyond_write [where claim = ?c]) (use c guard_fields_neq held_claim in auto)
  moreover have "snd (apply_release_aware now us d) = None \<or>
      (\<exists>v. snd (apply_release_aware now us d) = Some [(CLAIM_FIELD, PDict ?c), (CONFLICT_FIELD, v)])"
    using c by (auto simp: apply_release_aware_def)
  ultimately show "beyond n (profile_after d (snd (apply_release_aware now us d))) \<and> same_guard d (profile_after d (snd (apply_release_aware now us d)))"
    using b by auto
qed

lemma claim_change_keeps: "keeps_claim n (claim_change now m eligible)"
  by (rule keepsI) (auto simp: claim_change_def beyond_def reserved_claim_is_reclaimable_def Let_def split: pyval.splits)

lemma begin_change_keeps: "keeps_claim n (begin_change now m eligible)"
  by (rule keepsI) (auto simp: begin_change_def beyond_def claim_nonce_matches_def split: pyval.splits)

lemma hold_change_keeps: "keeps_claim n (hold_change now token [(''number_release_anomaly'', v)])"
proof (rule keepsI)
  fix d assume "beyond n d"
  then obtain claim where c: "pget d CLAIM_FIELD = PDict claim" "map_of claim ''nonce'' = Some (PStr n)"
    by (auto simp: beyond_def)
  have "beyond n (d ++ map_of (hold_release_claim now claim kind [(''number_release_anomaly'', v)])) \<and>
      same_guard d (d ++ map_of (hold_release_claim now claim kind [(''number_release_anomaly'', v)]))" for kind
    by (rule beyond_write [where claim = "updated claim [(''state'', PStr ''needs_attention''), (''held_at'', seconds now)]"])
      (use c(2) guard_fields_neq held_claim in \<open>auto simp: hold_release_claim_def map_of_updated [of "[_, _]"]\<close>)
  then show "beyond n (profile_after d (snd (hold_change now token [(''number_release_anomaly'', v)] d))) \<and>
      same_guard d (profile_after d (snd (hold_change now token [(''number_release_anomaly'', v)] d)))"
    using \<open>beyond n d\<close> c by (simp add: hold_change_def)
qed

lemma finalize_change_keeps: "rt_nonce token \<noteq> n \<Longrightarrow> keeps_claim n (finalize_change now token release eligible deactivate deactivation)"
  by (rule keepsI) (auto simp: finalize_change_def beyond_def claim_nonce_matches_def split: pyval.splits)

text \<open>Every writer goes through a change that keeps the freeze.\<close>

lemma keeps_pair: "keeps_claim n (\<lambda>d. case f d of (m, u) \<Rightarrow> (g m, u)) = keeps_claim n f"
  by (simp add: keeps_claim_def split_beta)

lemma keeps_if: "keeps_claim n f \<Longrightarrow> keeps_claim n g \<Longrightarrow> keeps_claim n (\<lambda>d. if P d then f d else g d)"
  by (simp add: keeps_claim_def)

lemma keeps_none: "keeps_claim n (\<lambda>d. (g d, None))"
  by (simp add: keeps_claim_def)

lemma stale_change_keeps: "keeps_claim n (stale_change now expires us)"
  unfolding stale_change_def by (intro keeps_if keeps_none) (simp add: keeps_pair apply_release_aware_keeps)

lemma entitlement_change_keeps: "keeps_claim n (entitlement_change now tier expires original uuid)"
proof (rule keepsI)
  fix d assume "beyond n d"
  then show "beyond n (profile_after d (snd (entitlement_change now tier expires original uuid d))) \<and>
      same_guard d (profile_after d (snd (entitlement_change now tier expires original uuid d)))"
    using apply_release_aware_keeps [of n now] by (auto simp: entitlement_change_def keeps_claim_def split_beta Let_def)
qed

lemma backfill_change_keeps: "keeps_claim n (backfill_change now uuid original tier expires)"
proof (rule keepsI)
  fix d assume "beyond n d"
  then show "beyond n (profile_after d (snd (backfill_change now uuid original tier expires d))) \<and>
      same_guard d (profile_after d (snd (backfill_change now uuid original tier expires d)))"
    using apply_release_aware_keeps [of n now] by (auto simp: backfill_change_def keeps_claim_def split_beta Let_def split: pyval.splits)
qed

lemma renewal_change_keeps: "keeps_claim n (renewal_change now uuid original renews signed)"
  unfolding renewal_change_def by (intro keeps_if keeps_none) (simp add: keeps_pair apply_release_aware_keeps)

lemma expire_change_keeps: "keeps_claim n (expire_change repr now started)"
  unfolding expire_change_def by (intro keeps_if keeps_none) (simp add: keeps_pair apply_release_aware_keeps)

fun opens_number :: "string \<times> pydict \<Rightarrow> commit \<times> rat \<times> profile_op \<Rightarrow> bool" where
  "opens_number k (c, now, Finalize_op token release eligible deactivate deactivation) = (rt_nonce token = fst k)"
| "opens_number k (c, now, Purge_op first fresh) = (purge_refused first = None)"
| "opens_number k op = False"

lemma frozen_kept:
  assumes "frozen_profile k s" "\<not> opens_number k (c, now, op)"
  shows "frozen_profile k (apply_profile_op repr c now op s)"
proof -
  obtain n d0 where k: "k = (n, d0)" by (cases k)
  note txn = keeps_txn [of n _ d0, OF _ assms(1) [unfolded k]]
  show ?thesis
  proof (cases op)
    case (Finalize_op token release eligible deactivate deactivation)
    with assms(2) k show ?thesis by (simp add: finalize_strict_number_release_def txn finalize_change_keeps)
  next
    case (Purge_op first fresh)
    with assms show ?thesis by (auto split: option.splits)
  next
    case (Other_op us)
    have "frozen_profile k (Some (d ++ map_of us))" if "list_all (\<lambda>(k, v). k \<in> outside_release) us" "s = Some d" for d
    proof -
      have "map_of us f = None" if "f \<in> set (CLAIM_FIELD # CONFLICT_FIELD # STRICT_RELEASE_GUARD_FIELDS)" for f
        using \<open>list_all _ us\<close> that by (auto simp: map_of_eq_None_iff list_all_iff outside_release_def)
      then show ?thesis
        using assms(1) that(2) same_guard_write [of us d] by (auto simp: frozen_profile_def beyond_def pget_map_add intro: same_guard_trans)
    qed
    moreover from assms(1) obtain d where "s = Some d" by (auto simp: frozen_profile_def)
    ultimately show ?thesis using assms(1) Other_op by simp
  qed (use assms(1) k in \<open>auto simp: claim_strict_number_release_def begin_strict_number_release_delete_def hold_strict_number_release_def
        update_contractor_def record_inbound_call_evidence_def update_stale_subscription_def activate_subscription_entitlement_def
        conditionally_backfill_subscription_binding_def record_active_renewal_status_def expire_trial_def split_beta Let_def
        split: option.splits
        intro!: txn claim_change_keeps begin_change_keeps hold_change_keeps apply_release_aware_keeps stale_change_keeps
        entitlement_change_keeps backfill_change_keeps renewal_change_keeps expire_change_keeps\<close>)
qed

interpretation release: fence "\<lambda>s (c, now, op). apply_profile_op repr c now op s" frozen_profile opens_number for repr
  by unfold_locales (auto intro: frozen_kept)

text \<open>The purge of a deleted account ignores the claim; its owner's request gave the number back before it set the profile inactive.\<close>

lemma purge_ignores_claim:
  assumes "purge_refused first = None"
  shows "\<exists>d. apply_profile_op repr Applied now (Purge_op first fresh) s = Some d \<and> pget d CLAIM_FIELD = PNone \<and> pget d ''twilio_number'' = PNone"
proof -
  from assms obtain d where "first = Some d" by (rule purge_refusedD)
  with assms show ?thesis by (simp add: purge_write_def tombstone_def pget_def CLAIM_FIELD_def TOMBSTONE_FIELDS_def)
qed

lemma beyond_owner: "beyond n d \<Longrightarrow> beyond m d \<Longrightarrow> m = n"
  by (auto simp: beyond_def)

lemma beyond_excludes:
  assumes "beyond n d"
  shows "\<not> fst (claim_change now m eligible d)" "\<not> fst (begin_change now m eligible d)"
    "m \<noteq> n \<Longrightarrow> \<not> fst (finalize_change now \<lparr>rt_nonce = m, rt_state = st\<rparr> us eligible b vs d)"
  using assms by (auto simp: beyond_def claim_change_def begin_change_def finalize_change_def claim_nonce_matches_def
      reserved_claim_is_reclaimable_def Let_def split: pyval.splits)


section \<open>Runs and writers\<close>

text \<open>The number that a run at this point has been allowed to delete.\<close>

fun past_return :: "release_phase \<Rightarrow> string option" where
  "past_return (Deleting number noted) = Some number"
| "past_return (Finalizing number noted found) = Some number"
| "past_return (Holding number noted state e) = (if state = ''deleting'' then Some number else None)"
| "past_return ph = None"

fun writer_op :: "profile_op \<Rightarrow> bool" where
  "writer_op (Claim_op n eligible) = False"
| "writer_op (Begin_op token eligible) = False"
| "writer_op (Hold_op token v) = False"
| "writer_op (Finalize_op token release eligible deactivate deactivation) = False"
| "writer_op (Purge_op first fresh) = (purge_refused first \<noteq> None)"
| "writer_op op = True"

record release_world =
  rw_doc :: document
  rw_phase :: "string \<Rightarrow> release_phase"

inductive release_reachable :: "(pyval \<Rightarrow> string) \<Rightarrow> (string \<Rightarrow> release_args) \<Rightarrow> release_world \<Rightarrow> bool" for repr args where
  initial: "\<forall>n. ph n \<in> {Reserving_strict, Loading False, Opening False} \<Longrightarrow> release_reachable repr args \<lparr>rw_doc = s, rw_phase = ph\<rparr>"
| run: "release_reachable repr args w \<Longrightarrow> run_release_step n (args n) i (rw_phase w n) (rw_doc w) = (ph, s, numbers) \<Longrightarrow>
    release_reachable repr args \<lparr>rw_doc = s, rw_phase = (rw_phase w)(n := ph)\<rparr>"
| writer: "release_reachable repr args w \<Longrightarrow> writer_op op \<Longrightarrow>
    release_reachable repr args (w\<lparr>rw_doc := apply_profile_op repr c now op (rw_doc w)\<rparr>)"

definition may_delete :: "string \<Rightarrow> release_args \<Rightarrow> string \<Rightarrow> document \<Rightarrow> bool" where
  "may_delete n a number s = (\<exists>d. s = Some d \<and> beyond n d \<and> release_precondition number a d)"

lemma may_delete_frozen: "may_delete n a number s \<Longrightarrow> \<exists>d0. frozen_profile (n, d0) s \<and> release_precondition number a d0"
  unfolding may_delete_def frozen_profile_def by (metis same_guard_refl fst_conv snd_conv)

lemma frozen_may_delete: "frozen_profile (n, d0) s \<Longrightarrow> release_precondition number a d0 \<Longrightarrow> may_delete n a number s"
  by (auto simp: may_delete_def frozen_profile_def same_guard_precondition)

lemma may_delete_kept:
  assumes "may_delete n a number s" "\<And>d0. \<not> opens_number (n, d0) (c, now, op)"
  shows "may_delete n a number (apply_profile_op repr c now op s)"
  using may_delete_frozen [OF assms(1)] frozen_may_delete frozen_kept [OF _ assms(2)] by blast

lemma writer_opens: "writer_op op \<Longrightarrow> \<not> opens_number k (c, now, op)"
  by (cases op) auto

text \<open>What a run writes is one operation under its own nonce.\<close>

lemma release_step_op:
  assumes "release_step n a i ph s = (ph', s', numbers)"
  shows "s' = s \<or> (\<exists>op. s' = apply_profile_op repr (ri_commit i) (ri_now i) op s \<and>
    (\<forall>m d0. m \<noteq> n \<longrightarrow> \<not> opens_number (m, d0) (ri_commit i, ri_now i, op)) \<and>
    (\<forall>d0. past_return ph = None \<longrightarrow> \<not> opens_number (n, d0) (ri_commit i, ri_now i, op)))"
proof (cases ph)
  case Reserving_strict
  with assms have "s' = apply_profile_op repr (ri_commit i) (ri_now i) (Claim_op n (expected_snapshot a)) s" by (auto simp: after_txn_def)
  then show ?thesis by (metis opens_number.simps(3))
next
  case Deactivating
  with assms have "s' = apply_profile_op repr (ri_commit i) (ri_now i) (Update_op (updated [(''active'', PBool False),
    (''deactivated_at'', seconds (ri_now i))] (ra_deactivation a))) s" by (auto simp: after_txn_def)
  then show ?thesis by (metis opens_number.simps(6))
next
  case (Reserving number)
  with assms have "s' = apply_profile_op repr (ri_commit i) (ri_now i) (Claim_op n (release_precondition number a)) s"
    by (auto simp: after_txn_def)
  then show ?thesis by (metis opens_number.simps(3))
next
  case (Beginning number noted found)
  with assms have "s' = apply_profile_op repr (ri_commit i) (ri_now i)
    (Begin_op \<lparr>rt_nonce = n, rt_state = ''reserved''\<rparr> (release_precondition number a)) s" by (auto simp: after_txn_def)
  then show ?thesis by (metis opens_number.simps(4))
next
  case (Finalizing number noted found)
  with assms have "s' = apply_profile_op repr (ri_commit i) (ri_now i) (Finalize_op \<lparr>rt_nonce = n, rt_state = ''deleting''\<rparr>
    (release_updates number noted found) (release_precondition number a) (ra_deactivate a) (ra_deactivation a)) s"
    by (auto simp: after_txn_def)
  then show ?thesis using Finalizing
    by (intro disjI2 exI [where x = "Finalize_op \<lparr>rt_nonce = n, rt_state = ''deleting''\<rparr> (release_updates number noted found)
        (release_precondition number a) (ra_deactivate a) (ra_deactivation a)"]) auto
next
  case (Holding number noted st e)
  with assms have "s' = apply_profile_op repr (ri_commit i) (ri_now i) (Hold_op \<lparr>rt_nonce = n, rt_state = st\<rparr>
    (PDict [(''at'', seconds noted), (''number'', PStr number)])) s" by (auto simp: after_txn_def anomaly_updates_def)
  then show ?thesis by (metis opens_number.simps(5))
qed (use assms in \<open>auto split: if_splits option.splits\<close>)

text \<open>A finalisation that answers no, and an answer of the beginning, say what the profile holds.\<close>

lemma finalize_refused_keeps:
  assumes "beyond n d" "\<not> fst (finalize_change now token release eligible deactivate deactivation d)"
  shows "beyond n (profile_after d (snd (finalize_change now token release eligible deactivate deactivation d))) \<and>
    same_guard d (profile_after d (snd (finalize_change now token release eligible deactivate deactivation d)))"
proof -
  from assms(1) obtain claim where c: "pget d CLAIM_FIELD = PDict claim" "map_of claim ''nonce'' = Some (PStr n)"
    by (auto simp: beyond_def)
  have "beyond n (d ++ map_of (hold_release_claim now claim kind [])) \<and> same_guard d (d ++ map_of (hold_release_claim now claim kind []))" for kind
    by (rule beyond_write [where claim = "updated claim [(''state'', PStr ''needs_attention''), (''held_at'', seconds now)]"])
      (use c(2) guard_fields_neq held_claim in \<open>auto simp: hold_release_claim_def map_of_updated [of "[_, _]"]\<close>)
  then show ?thesis using assms c by (auto simp: finalize_change_def split: if_splits)
qed

lemma begin_grants:
  assumes "fst (begin_change now n eligible d)"
  shows "beyond n (profile_after d (snd (begin_change now n eligible d))) \<and> same_guard d (profile_after d (snd (begin_change now n eligible d))) \<and> eligible d"
proof -
  from assms obtain claim where c: "pget d CLAIM_FIELD = PDict claim" "map_of claim ''nonce'' = Some (PStr n)" "eligible d"
      "snd (begin_change now n eligible d) = Some [(CLAIM_FIELD, PDict (updated claim [(''state'', PStr ''deleting''), (''deleting_at'', seconds now)]))]"
    by (auto simp: begin_change_def claim_nonce_matches_def split: pyval.splits if_splits)
  have "beyond n (d ++ map_of [(CLAIM_FIELD, PDict (updated claim [(''state'', PStr ''deleting''), (''deleting_at'', seconds now)]))]) \<and>
      same_guard d (d ++ map_of [(CLAIM_FIELD, PDict (updated claim [(''state'', PStr ''deleting''), (''deleting_at'', seconds now)]))])"
    by (rule beyond_write [where claim = "updated claim [(''state'', PStr ''deleting''), (''deleting_at'', seconds now)]"])
      (use c guard_fields_neq in \<open>auto simp: map_of_updated claim_state_def\<close>)
  then show ?thesis using c by simp
qed

lemma profile_txn_answer:
  assumes "profile_txn c missing f s = (s', Inr b)" "b \<noteq> missing \<or> s \<noteq> None"
  obtains d where "s = Some d" "b = fst (f d)" "s' = Some (profile_after d (snd (f d)))"
  using assms by (cases s) (auto simp: profile_txn_def dest!: transact_answer)

lemma after_txn_past:
  assumes "after_txn r yes no = (ph', s', numbers)" "past_return ph' = Some number"
  shows "\<exists>b. r = (s', Inr b) \<and> ph' = (if b then yes else no)"
proof -
  obtain t q where r: "r = (t, q)" by (cases r)
  show ?thesis
  proof (cases q)
    case (Inl e)
    with assms(1) r have "ph' = Ended Release_raised" by (simp add: after_txn_def)
    with assms(2) show ?thesis by simp
  next
    case (Inr b)
    with assms(1) r show ?thesis by (simp add: after_txn_def)
  qed
qed

text \<open>A run's own step: where it is past the point of no return, it may delete.\<close>

lemma own_step_may_delete:
  assumes step: "release_step n a i ph s = (ph', s', numbers)" and past: "past_return ph' = Some number"
    and inv: "\<And>x. past_return ph = Some x \<Longrightarrow> may_delete n a x s"
  shows "may_delete n a number s'"
proof (cases ph)
  case (Beginning x noted found)
  with step past obtain b where b: "begin_strict_number_release_delete (ri_commit i) (ri_now i) \<lparr>rt_nonce = n, rt_state = ''reserved''\<rparr>
      (release_precondition x a) s = (s', Inr b)" "ph' = (if b then if found then Deleting x noted else Finalizing x noted False else Ended (Answered False))"
    by (fastforce dest: after_txn_past)
  with past have bt: "b" "number = x" by (auto split: if_splits)
  with b(1) have "profile_txn (ri_commit i) False (begin_change (ri_now i) n (release_precondition x a)) s = (s', Inr True)"
    by (simp add: begin_strict_number_release_delete_def)
  then obtain d where d: "s = Some d" "fst (begin_change (ri_now i) n (release_precondition x a) d)"
      "s' = Some (profile_after d (snd (begin_change (ri_now i) n (release_precondition x a) d)))"
    by (rule profile_txn_answer) auto
  from begin_grants [OF d(2)] show ?thesis using d(3) bt(2) by (auto simp: may_delete_def same_guard_precondition)
next
  case (Finalizing x noted found)
  with step past obtain b where b: "finalize_strict_number_release (ri_commit i) (ri_now i) \<lparr>rt_nonce = n, rt_state = ''deleting''\<rparr>
      (release_updates x noted found) (release_precondition x a) (ra_deactivate a) (ra_deactivation a) s = (s', Inr b)"
      "ph' = (if b then Ended (Answered True) else Holding x noted ''deleting'' (Answered False))"
    by (fastforce dest: after_txn_past)
  with past have bf: "\<not> b" "number = x" by (auto split: if_splits)
  from inv [of x] Finalizing obtain d where d: "s = Some d" "beyond n d" "release_precondition x a d" by (auto simp: may_delete_def)
  let ?f = "finalize_change (ri_now i) \<lparr>rt_nonce = n, rt_state = ''deleting''\<rparr> (release_updates x noted found)
    (release_precondition x a) (ra_deactivate a) (ra_deactivation a)"
  from b(1) bf(1) have "profile_txn (ri_commit i) False ?f s = (s', Inr False)" by (simp add: finalize_strict_number_release_def)
  then obtain d' where "s = Some d'" "\<not> fst (?f d')" "s' = Some (profile_after d' (snd (?f d')))"
    by (rule profile_txn_answer) (use d(1) in auto)
  with d(1) have f: "\<not> fst (?f d)" "s' = Some (profile_after d (snd (?f d)))" by simp_all
  from finalize_refused_keeps [OF d(2) f(1)] have k: "beyond n (profile_after d (snd (?f d)))" "same_guard d (profile_after d (snd (?f d)))" by simp_all
  from same_guard_precondition [OF k(2)] d(3) have "release_precondition x a (profile_after d (snd (?f d)))" by simp
  with k(1) f(2) bf(2) show ?thesis by (simp add: may_delete_def)
next
  case (Deleting x noted)
  with step past have "s' = s" "number = x" by (auto split: delete_answer.splits)
  then show ?thesis using inv [of x] Deleting by simp
next
  case (Holding x noted st e)
  with step past show ?thesis by (auto simp: after_txn_def split: sum.splits)
qed (use step past in \<open>auto simp: after_txn_def split: sum.splits if_splits option.splits\<close>)

lemma run_step_cases:
  assumes "run_release_step n a i ph s = (ph', s', numbers)"
  obtains q where "release_step n a i ph s = (q, s', numbers)" "ph' = q \<or> past_return ph' = None"
  using assms by (auto simp: run_release_step_def split: prod.splits if_splits release_phase.splits)

lemma reachable_may_delete:
  "release_reachable repr args w \<Longrightarrow> past_return (rw_phase w n) = Some number \<Longrightarrow> may_delete n (args n) number (rw_doc w)"
proof (induction arbitrary: n number rule: release_reachable.induct)
  case (initial ph s)
  then have "past_return (ph n) = None" by (metis empty_iff insert_iff past_return.simps(4) past_return.simps(5) past_return.simps(7))
  with initial show ?case by simp
next
  case (run w m i ph s numbers)
  from run(2) obtain q where q: "release_step m (args m) i (rw_phase w m) (rw_doc w) = (q, s, numbers)" "ph = q \<or> past_return ph = None"
    by (rule run_step_cases)
  show ?case
  proof (cases "n = m")
    case True
    with run(4) q(2) have "past_return q = Some number" by auto
    with own_step_may_delete [OF q(1) _ run(3)] True show ?thesis by simp
  next
    case False
    with run(4) run(3) have "may_delete n (args n) number (rw_doc w)" by simp
    then show ?thesis using release_step_op [OF q(1), of repr] False may_delete_kept by auto
  qed
next
  case (writer w op c now)
  then show ?case using may_delete_kept writer_opens by simp
qed

text \<open>
  C4: Whatever runs, writers, lost commits, answers of the provider and cancellations come in whatever order, a run asks the provider
  to delete a number only while the profile still has that number under the run's own claim, with every field that the
  strict guard compares as in the snapshot that was found eligible, and while no other run is past the point of no return.
  Among the writers is no purge of a deleted account, which ignores the claim (lemma \<open>purge_ignores_claim\<close>).
\<close>

theorem numbers_deleted_only_by_owner:
  assumes "release_reachable repr args w" "run_release_step n (args n) i (rw_phase w n) (rw_doc w) = (ph, s, numbers)" "number \<in> set numbers"
  shows "\<exists>d. rw_doc w = Some d \<and> beyond n d \<and> pget d ''twilio_number'' = PStr number \<and>
    (\<forall>e. ra_expected (args n) = Some e \<longrightarrow> same_strict_release_snapshot e d) \<and> (\<forall>m. m \<noteq> n \<longrightarrow> past_return (rw_phase w m) = None)"
proof -
  from assms(2) obtain q where q: "release_step n (args n) i (rw_phase w n) (rw_doc w) = (q, s, numbers)" by (rule run_step_cases)
  with assms(3) have "past_return (rw_phase w n) = Some number"
    by (cases "rw_phase w n") (auto simp: after_txn_def split: if_splits option.splits sum.splits)
  from reachable_may_delete [OF assms(1) this] obtain d where d: "rw_doc w = Some d" "beyond n d" "release_precondition number (args n) d"
    by (auto simp: may_delete_def)
  moreover have "past_return (rw_phase w m) = None" if "m \<noteq> n" for m
  proof (rule ccontr)
    assume "past_return (rw_phase w m) \<noteq> None"
    then obtain x where "past_return (rw_phase w m) = Some x" by blast
    from reachable_may_delete [OF assms(1) this] d(1) have "beyond m d" by (auto simp: may_delete_def)
    with d(2) that show False using beyond_owner by blast
  qed
  ultimately show ?thesis by (auto simp: release_precondition_def expected_snapshot_def)
qed

definition sample_release_args :: release_args where
  "sample_release_args = \<lparr>ra_expected = None, ra_confirmed = False, ra_deactivate = True, ra_deactivation = []\<rparr>"

definition sample_release_input :: release_input where
  "sample_release_input = \<lparr>ri_commit = Applied, ri_now = 1000, ri_fails = False, ri_found = True, ri_delete = Deleted, ri_cancelled = False\<rparr>"

definition sample_deleting :: pydict where
  "sample_deleting = [''active'' \<mapsto> PBool True, ''twilio_number'' \<mapsto> PStr ''+15550100'',
     CLAIM_FIELD \<mapsto> PDict [(''nonce'', PStr ''a''), (''state'', PStr ''deleting''), (''claimed_at'', PInt 1000),
       (''expected_twilio_number'', PStr ''+15550100''), (''deleting_at'', PInt 1000)]]"

definition sample_profile :: pydict where
  "sample_profile = [''active'' \<mapsto> PBool True, ''twilio_number'' \<mapsto> PStr ''+15550100'']"

lemma sample_release_run:
  "run_release_step ''a'' sample_release_args sample_release_input (Opening False) (Some sample_profile) = (Reserving ''+15550100'', Some sample_profile, [])"
  "run_release_step ''a'' sample_release_args sample_release_input (Reserving ''+15550100'') (Some sample_profile) =
     (Listing ''+15550100'' 1000, Some (sample_profile(CLAIM_FIELD \<mapsto> PDict [(''nonce'', PStr ''a''), (''state'', PStr ''reserved''),
       (''claimed_at'', PInt 1000), (''expected_twilio_number'', PStr ''+15550100'')])), [])"
  "run_release_step ''a'' sample_release_args sample_release_input (Listing ''+15550100'' 1000) s = (Beginning ''+15550100'' 1000 True, s, [])"
  "run_release_step ''a'' sample_release_args sample_release_input (Deleting ''+15550100'' 1000) s = (Finalizing ''+15550100'' 1000 True, s, [''+15550100''])"
  by (simp_all add: run_release_step_def sample_release_input_def sample_release_args_def sample_profile_def held_number_def pget_def
      release_precondition_def expected_snapshot_def after_txn_def claim_strict_number_release_def profile_txn_def claim_change_def CLAIM_FIELD_def
      seconds_def)

lemma sample_run_begins:
  "run_release_step ''a'' sample_release_args sample_release_input (Beginning ''+15550100'' 1000 True)
     (Some (sample_profile(CLAIM_FIELD \<mapsto> PDict [(''nonce'', PStr ''a''), (''state'', PStr ''reserved''),
       (''claimed_at'', PInt 1000), (''expected_twilio_number'', PStr ''+15550100'')]))) = (Deleting ''+15550100'' 1000, Some sample_deleting, [])"
  by (simp add: run_release_step_def sample_release_input_def sample_release_args_def sample_profile_def pget_def sample_deleting_def
      release_precondition_def expected_snapshot_def after_txn_def begin_strict_number_release_delete_def profile_txn_def begin_change_def
      claim_nonce_matches_def claim_state_def bound_number_def updated_def CLAIM_FIELD_def seconds_def)

lemma sample_reachable:
  "\<exists>ph. release_reachable (\<lambda>v. []) (\<lambda>n. sample_release_args) \<lparr>rw_doc = Some sample_deleting, rw_phase = ph\<rparr> \<and> ph ''a'' = Deleting ''+15550100'' 1000"
proof -
  note runs = release_reachable.run [of "\<lambda>v. []" "\<lambda>n. sample_release_args" _ "''a''" sample_release_input]
  have "release_reachable (\<lambda>v. []) (\<lambda>n. sample_release_args) \<lparr>rw_doc = Some sample_profile, rw_phase = \<lambda>n. Opening False\<rparr>"
    by (rule release_reachable.initial) simp
  note 1 = runs [OF this, simplified, OF sample_release_run(1)]
  note 2 = runs [OF 1, simplified, OF sample_release_run(2)]
  note 3 = runs [OF 2, simplified, OF sample_release_run(3)]
  note 4 = runs [OF 3, simplified, OF sample_run_begins]
  show ?thesis by (rule exI conjI 4)+ simp
qed

lemma numbers_deleted_only_by_owner_witness:
  "\<exists>w. release_reachable (\<lambda>v. []) (\<lambda>n. sample_release_args) w \<and> (\<exists>d. rw_doc w = Some d \<and> beyond ''a'' d \<and>
     pget d ''twilio_number'' = PStr ''+15550100'' \<and> (\<forall>m. m \<noteq> ''a'' \<longrightarrow> past_return (rw_phase w m) = None))"
proof -
  obtain ph where r: "release_reachable (\<lambda>v. []) (\<lambda>n. sample_release_args) \<lparr>rw_doc = Some sample_deleting, rw_phase = ph\<rparr>"
    "ph ''a'' = Deleting ''+15550100'' 1000" using sample_reachable by blast
  from numbers_deleted_only_by_owner [OF r(1), where n = "''a''" and number = "''+15550100''"] r(2) sample_release_run(4) [of "Some sample_deleting"]
  have "\<exists>d. rw_doc \<lparr>rw_doc = Some sample_deleting, rw_phase = ph\<rparr> = Some d \<and> beyond ''a'' d \<and> pget d ''twilio_number'' = PStr ''+15550100'' \<and>
     (\<forall>m. m \<noteq> ''a'' \<longrightarrow> past_return (rw_phase \<lparr>rw_doc = Some sample_deleting, rw_phase = ph\<rparr> m) = None)" by fastforce
  with r(1) show ?thesis by blast
qed


section \<open>What a write of the profile promises\<close>

lemma picked_Nil [simp]: "picked [] kvs = []"
  by (simp add: picked_def List.map_filter_def)

lemma picked_Cons [simp]: "picked (a # names) kvs = (case map_of kvs a of None \<Rightarrow> picked names kvs | Some v \<Rightarrow> (a, v) # picked names kvs)"
  by (simp add: picked_def List.map_filter_def split: option.splits)

lemma picked_names: "set (map fst (picked names kvs)) \<subseteq> set names"
  by (induction names) (auto split: option.splits)

lemma picked_distinct: "distinct names \<Longrightarrow> distinct (map fst (picked names kvs))"
proof (induction names)
  case (Cons a names)
  then have "a \<notin> set (map fst (picked names kvs))" using picked_names [of names kvs] by auto
  with Cons show ?case by (simp split: option.splits)
qed simp

lemma map_of_picked: "f \<in> set names \<Longrightarrow> distinct names \<Longrightarrow> map_of (picked names kvs) f = map_of kvs f"
proof (induction names)
  case (Cons a names)
  have "map_of (picked names kvs) a = None" if "a \<notin> set names"
    using that picked_names [of names kvs] by (auto simp: map_of_eq_None_iff)
  with Cons show ?case by (auto split: option.splits)
qed simp

lemma deferred_distinct: "distinct DEFERRED_FIELDS"
  by code_simp

text \<open>What a conflict record holds of a field that an operator needs.\<close>

definition deferred_value :: "pydict \<Rightarrow> string \<Rightarrow> pyval option" where
  "deferred_value d f = (case pget d CONFLICT_FIELD of
       PDict kvs \<Rightarrow> (case map_of kvs ''deferred_updates'' of Some (PDict us) \<Rightarrow> map_of us f | _ \<Rightarrow> None) | _ \<Rightarrow> None)"

lemma payload_defers:
  assumes "f \<in> set DEFERRED_FIELDS" "map_of us f = Some v"
  shows "\<exists>kvs us'. release_conflict_payload now phase us prior = PDict kvs \<and> map_of kvs ''deferred_updates'' = Some (PDict us') \<and> map_of us' f = Some v"
proof -
  let ?us = "updated (prior_deferred prior) (picked DEFERRED_FIELDS us)"
  have "map_of (picked DEFERRED_FIELDS us) f = Some v" using map_of_picked [OF assms(1) deferred_distinct] assms(2) by simp
  then have f: "map_of ?us f = Some v" using upd_all_Some picked_distinct [OF deferred_distinct] by (simp add: map_of_updated)
  then have "?us \<noteq> []" by auto
  with f show ?thesis by (auto simp: release_conflict_payload_def Let_def)
qed

lemma updated_written:
  assumes "distinct (map fst us)" "CLAIM_FIELD \<notin> set (map fst us)" "map_of us k = Some v"
  shows "map_of (updated us [(CLAIM_FIELD, c)]) k = Some v"
proof -
  have "k \<in> set (map fst us)" using map_of_SomeD [OF assms(3)] by force
  with assms(2) have "k \<noteq> CLAIM_FIELD" by blast
  with assms(3) show ?thesis by (simp add: map_of_updated)
qed

text \<open>
  C9: A write of the profile is either applied, and then all its fields hold their new values and no reservation made before it can
  lead to a deletion; or it is held, and then the profile keeps all its fields, every field that an operator needs is kept in the
  record of the conflict with its new value, and no deletion under way can be finalised.
\<close>

theorem profile_write_respects_release:
  assumes "apply_release_aware now us d = (m, u)" "CLAIM_FIELD \<notin> set (map fst us)" "CONFLICT_FIELD \<notin> set (map fst us)" "distinct (map fst us)"
  shows "(m \<noteq> MR_HELD \<longrightarrow> (\<forall>k v. map_of us k = Some v \<longrightarrow> profile_after d u k = Some v) \<and>
      (\<forall>now n eligible. \<not> fst (begin_change now n eligible (profile_after d u)))) \<and>
    (m = MR_HELD \<longrightarrow> (\<forall>k. k \<notin> {CLAIM_FIELD, CONFLICT_FIELD} \<longrightarrow> profile_after d u k = d k) \<and>
      (\<forall>f v. f \<in> set DEFERRED_FIELDS \<longrightarrow> map_of us f = Some v \<longrightarrow> deferred_value (profile_after d u) f = Some v) \<and>
      (\<forall>now token release eligible b vs. \<not> fst (finalize_change now token release eligible b vs (profile_after d u))))"
proof -
  have none: "map_of us CLAIM_FIELD = None" using assms(2) by (simp add: map_of_eq_None_iff)
  have kept: "deferred_value (d ++ map_of (c # [(CONFLICT_FIELD, release_conflict_payload now ph us prior)])) f = Some v"
    if "f \<in> set DEFERRED_FIELDS" "map_of us f = Some v" "fst c = CLAIM_FIELD" for f v c ph prior
    using payload_defers [OF that(1,2), of now ph prior] that(3) by (cases c) (auto simp: deferred_value_def pget_map_add)
  have kept1: "deferred_value (d ++ map_of [(CONFLICT_FIELD, release_conflict_payload now ph us prior)]) f = Some v"
    if "f \<in> set DEFERRED_FIELDS" "map_of us f = Some v" for f v ph prior
    using payload_defers [OF that, of now ph prior] by (auto simp: deferred_value_def pget_map_add)
  consider (unclaimed) "pget d CLAIM_FIELD = PNone"
    | (reserved) claim where "pget d CLAIM_FIELD = PDict claim" "claim_state claim = PStr ''reserved''"
    | (cancelled) claim where "pget d CLAIM_FIELD = PDict claim" "claim_state claim = PStr ''cancelled''"
    | (held) claim where "pget d CLAIM_FIELD = PDict claim" "claim_state claim \<noteq> PStr ''reserved''" "claim_state claim \<noteq> PStr ''cancelled''"
    | (malformed) "pget d CLAIM_FIELD \<noteq> PNone" "\<forall>claim. pget d CLAIM_FIELD \<noteq> PDict claim"
    by (cases "pget d CLAIM_FIELD") auto
  then show ?thesis
  proof cases
    case unclaimed
    with assms(1,2) have "m = MR_APPLIED" "u = Some us" by (auto simp: apply_release_aware_def)
    then show ?thesis using unclaimed none by (simp add: begin_change_def pget_map_add)
  next
    case reserved
    let ?c = "PDict (updated claim [(''state'', PStr ''cancelled''), (''cancelled_at'', seconds now)])"
    from reserved assms(1,2) have mu: "m = MR_CANCELLED" "u = Some (updated us [(CLAIM_FIELD, ?c)])" by (auto simp: apply_release_aware_def)
    have "pget (profile_after d u) CLAIM_FIELD = ?c" by (simp add: mu pget_map_add map_of_updated upd_all_None)
    then have "\<not> fst (begin_change now n eligible (profile_after d u))" for now n eligible
      by (auto simp: begin_change_def claim_nonce_matches_def claim_state_def map_of_updated)
    then show ?thesis using updated_written [OF assms(4,2)] mu by simp
  next
    case cancelled
    with assms(1,2) have "m = MR_APPLIED" "u = Some us" by (auto simp: apply_release_aware_def)
    then show ?thesis using cancelled none by (simp add: begin_change_def pget_map_add claim_nonce_matches_def)
  next
    case held
    let ?c = "if claim_state claim = PStr ''deleting'' then updated claim [(''state'', PStr ''needs_attention''), (''held_at'', seconds now)] else claim"
    from held assms(1,2) have mu: "m = MR_HELD" "u = Some [(CLAIM_FIELD, PDict ?c),
        (CONFLICT_FIELD, release_conflict_payload now (claim_state claim) us (pget d CONFLICT_FIELD))]"
      by (auto simp: apply_release_aware_def)
    have "pget (profile_after d u) CLAIM_FIELD = PDict ?c" by (simp add: mu pget_map_add)
    then have "\<not> fst (finalize_change now token release eligible b vs (profile_after d u))" for now token release eligible b vs
      using held_claim(2) [of claim] by (auto simp: finalize_change_def claim_nonce_matches_def)
    moreover have "profile_after d u k = d k" if "k \<notin> {CLAIM_FIELD, CONFLICT_FIELD}" for k using mu that by (simp add: map_add_def)
    moreover have "deferred_value (profile_after d u) f = Some v" if "f \<in> set DEFERRED_FIELDS" "map_of us f = Some v" for f v
      using kept [OF that, of "(CLAIM_FIELD, PDict ?c)"] by (simp add: mu)
    ultimately show ?thesis using mu by blast
  next
    case malformed
    with assms(1,2) have mu: "m = MR_HELD" "u = Some [(CONFLICT_FIELD, release_conflict_payload now (PStr ''malformed'') us PNone)]"
      by (auto simp: apply_release_aware_def split: pyval.splits)
    have "pget (profile_after d u) CLAIM_FIELD = pget d CLAIM_FIELD" by (simp add: mu pget_map_add)
    then have "\<not> fst (finalize_change now token release eligible b vs (profile_after d u))" for now token release eligible b vs
      using malformed by (auto simp: finalize_change_def split: pyval.splits)
    moreover have "profile_after d u k = d k" if "k \<notin> {CLAIM_FIELD, CONFLICT_FIELD}" for k using mu that by (simp add: map_add_def)
    moreover have "deferred_value (profile_after d u) f = Some v" if "f \<in> set DEFERRED_FIELDS" "map_of us f = Some v" for f v
      using kept1 [OF that] by (simp add: mu)
    ultimately show ?thesis using mu by blast
  qed
qed

lemma profile_write_respects_release_witness:
  "deferred_value (profile_after sample_deleting (snd (apply_release_aware 1001 [(''last_inbound_call_at'', PInt 1001)] sample_deleting)))
     ''last_inbound_call_at'' = Some (PInt 1001)"
proof -
  let ?r = "apply_release_aware 1001 [(''last_inbound_call_at'', PInt 1001)] sample_deleting"
  have "fst ?r = MR_HELD" by (simp add: apply_release_aware_def sample_deleting_def pget_def CLAIM_FIELD_def claim_state_def)
  then show ?thesis
    using profile_write_respects_release [OF surjective_pairing [of ?r]] by (simp add: CLAIM_FIELD_def CONFLICT_FIELD_def DEFERRED_FIELDS_def)
qed

end
