(* ===== verification/Release_Sweep.thy ===== *)
theory Release_Sweep
  imports Number_Release
begin

text \<open>
  The sweep that releases the numbers of accounts that no longer need them, app/services/number_release.py: the reason for a
  release, the observation window, and the pass over a page of expired accounts. What the pass reads and what its notice and its
  deactivation answer is its input; its claim is the transaction of Number_Release on the profile that it meets.
\<close>

section \<open>The reason for a release\<close>

definition LAPSED_RELEASE_MAX_PER_RUN :: nat where
  "LAPSED_RELEASE_MAX_PER_RUN = 5"

definition APPLE_HOLD_STATUSES :: "int list" where
  "APPLE_HOLD_STATUSES = [1, 3, 4]"

text \<open>\<open>for x in v\<close>, \<open>None\<close> where it raises.\<close>

fun py_iter :: "pyval \<Rightarrow> pyval list option" where
  "py_iter (PList xs) = Some xs"
| "py_iter (PDict kvs) = Some (map (\<lambda>(k, v). PStr k) kvs)"
| "py_iter (PStr s) = Some (map (\<lambda>c. PStr [c]) s)"
| "py_iter v = None"

fun collected :: "'a list option list \<Rightarrow> 'a list option" where
  "collected [] = Some []"
| "collected (None # rs) = None"
| "collected (Some xs # rs) = map_option (\<lambda>ys. xs @ ys) (collected rs)"

text \<open>\<open>for x in v.get(k, [])\<close> with a body that adds to a list.\<close>

definition each_of :: "string \<Rightarrow> (pyval \<Rightarrow> 'a list option) \<Rightarrow> pyval \<Rightarrow> 'a list option" where
  "each_of k body v = (case v of
       PDict kvs \<Rightarrow> (case py_iter (case map_of kvs k of None \<Rightarrow> PList [] | Some x \<Rightarrow> x) of
           None \<Rightarrow> None | Some xs \<Rightarrow> collected (map body xs))
     | _ \<Rightarrow> None)"

definition status_code :: "pyval \<Rightarrow> int list option" where
  "status_code v = (case v of PDict kvs \<Rightarrow> Some (case map_of kvs ''status'' of Some (PInt code) \<Rightarrow> [code] | _ \<Rightarrow> []) | _ \<Rightarrow> None)"

datatype apple_response = Statuses pyval | Transaction_not_found | Request_failed

fun apple_subscription_statuses :: "apple_response list \<Rightarrow> int list option" where
  "apple_subscription_statuses [] = None"
| "apple_subscription_statuses (Statuses v # rs) = each_of ''data'' (each_of ''lastTransactions'' status_code) v"
| "apple_subscription_statuses (Transaction_not_found # rs) = apple_subscription_statuses rs"
| "apple_subscription_statuses (Request_failed # rs) = None"

definition apple_blocks_release :: "(pyval \<Rightarrow> string) \<Rightarrow> apple_response list \<Rightarrow> pydict \<Rightarrow> bool" where
  "apple_blocks_release repr rs d =
     (if py_strip (str_or_empty repr (pget d ''subscription_original_transaction_id'')) = [] then False
      else (case apple_subscription_statuses rs of None \<Rightarrow> True | Some codes \<Rightarrow> list_ex (\<lambda>code. code \<in> set APPLE_HOLD_STATUSES) codes))"

datatype release_reason = Deleted_app | Lapsed

text \<open>What an evaluation sees beside the profile: the clock, the newest call (\<open>None\<close> where the look-up fails) and Apple's answers.\<close>

record release_evidence =
  ev_now :: rat
  ev_last_call :: "pyval option"
  ev_apple :: "apple_response list"

definition release_reason_of :: "(pyval \<Rightarrow> string) \<Rightarrow> release_evidence \<Rightarrow> bool \<Rightarrow> pydict \<Rightarrow> release_reason option" where
  "release_reason_of repr ev allow_lapsed d =
     (if is_safe_to_release_number (Some d) (ev_now ev) then Some Deleted_app
      else if \<not> allow_lapsed then None
      else (case ev_last_call ev of
          None \<Rightarrow> None
        | Some last_call \<Rightarrow>
            if \<not> is_safe_to_release_lapsed_number repr (Some d) (ev_now ev) last_call then None
            else if apple_blocks_release repr (ev_apple ev) d then None
            else Some Lapsed))"

text \<open>\<open>_fresh_release_candidate\<close> on the profile that was read.\<close>

definition fresh_reason :: "(pyval \<Rightarrow> string) \<Rightarrow> release_evidence \<Rightarrow> bool \<Rightarrow> pydict \<Rightarrow> release_reason option" where
  "fresh_reason repr ev allow_lapsed d =
     (if \<not> truthy (pget d ''active'') then None else release_reason_of repr ev allow_lapsed d)"

section \<open>The observation window\<close>

text \<open>The marker's document, and whether a whole window has passed; the first run writes the marker.\<close>

definition observation_window_elapsed :: "rat \<Rightarrow> document \<Rightarrow> document \<times> bool" where
  "observation_window_elapsed now marker =
     (case readable_timestamp (pget (fields_of marker) ''observation_started_at'') of
        None \<Rightarrow> (Some (fields_of marker ++ [''observation_started_at'' \<mapsto> PFloat (Fin now)]), False)
      | Some started \<Rightarrow> (marker, \<not> fless (Fin 0)
          (fplus (Fin (LAPSED_NUMBER_RELEASE_DAYS * 86400)) (fneg (fplus (Fin now) (fneg started))))))"

section \<open>One pass\<close>

datatype sms_answer = Sms_sent | Sms_uncertain | Sms_raised
datatype deactivation = Deactivated | Not_deactivated | Deactivation_raised

text \<open>
  One account of the page: what each read gives, \<open>None\<close> where it fails, what each evaluation sees (the first at the time of the pass), and what the
  effects answer.
  The last two reads and the claim belong to the strict worker; \<open>ca_profile\<close> is the profile in the claim's transaction.
\<close>

record candidate =
  ca_id :: string
  ca_snapshot :: pydict
  ca_fresh :: "pydict option"
  ca_fresh_evidence :: release_evidence
  ca_sms :: sms_answer
  ca_later :: "pydict option"
  ca_later_evidence :: release_evidence
  ca_boundary :: "pydict option"
  ca_profile :: document
  ca_claim_commit :: commit
  ca_claim_now :: rat
  ca_nonce :: string
  ca_deactivation :: deactivation
  ca_snapshot_evidence :: release_evidence

datatype sweep_action = Notice string release_reason | Deactivate string release_reason

record sweep_counts =
  sc_deleted_app :: nat
  sc_lapsed :: nat
  sc_skipped :: nat

definition counted :: "release_reason \<Rightarrow> sweep_counts \<Rightarrow> sweep_counts" where
  "counted reason n = (case reason of Deleted_app \<Rightarrow> n\<lparr>sc_deleted_app := sc_deleted_app n + 1\<rparr> | Lapsed \<Rightarrow> n\<lparr>sc_lapsed := sc_lapsed n + 1\<rparr>)"

text \<open>The claim, with the last snapshot as its precondition, on the profile that its transaction reads.\<close>

definition release_claim :: "candidate \<Rightarrow> pydict \<Rightarrow> document \<times> (store_error + bool)" where
  "release_claim ca boundary = claim_strict_number_release (ca_claim_commit ca) (ca_claim_now ca) (ca_nonce ca)
     (same_strict_release_snapshot boundary) (ca_profile ca)"

text \<open>After the notice, the strict worker reads and evaluates again, reads once more, and claims.\<close>

definition strict_boundary :: "(pyval \<Rightarrow> string) \<Rightarrow> bool \<Rightarrow> release_reason \<Rightarrow> candidate \<Rightarrow> bool" where
  "strict_boundary repr allow_lapsed reason ca = (case (ca_later ca, ca_boundary ca) of
       (Some later, Some boundary) \<Rightarrow>
         fresh_reason repr (ca_later_evidence ca) allow_lapsed later = Some reason \<and> same_strict_release_snapshot later boundary \<and>
         snd (release_claim ca boundary) = Inr True
     | _ \<Rightarrow> False)"

text \<open>One account: the actions, the counts, and whether the pass goes on; an uncertain outcome of the strict worker ends it.\<close>

definition sweep_one :: "(pyval \<Rightarrow> string) \<Rightarrow> bool \<Rightarrow> bool \<Rightarrow> rat \<Rightarrow> candidate \<Rightarrow> sweep_counts \<Rightarrow> sweep_action list \<times> sweep_counts \<times> bool" where
  "sweep_one repr strict lapsed_enabled now ca n =
     (let allow = (lapsed_enabled \<and> sc_lapsed n < LAPSED_RELEASE_MAX_PER_RUN) in
      if release_reason_of repr (ca_snapshot_evidence ca\<lparr>ev_now := now\<rparr>) allow (ca_snapshot ca) = None then ([], n, True)
      else (case ca_fresh ca of
          None \<Rightarrow> ([], n, False)
        | Some d \<Rightarrow> (case fresh_reason repr (ca_fresh_evidence ca) allow d of
            None \<Rightarrow> ([], n\<lparr>sc_skipped := sc_skipped n + 1\<rparr>, True)
          | Some reason \<Rightarrow>
              let owner = truthy (pget_or d ''owner_phone'' (PStr ''''));
                  notice = (if owner then [Notice (ca_id ca) reason] else []) in
              if strict \<and> owner \<and> ca_sms ca \<noteq> Sms_sent then (notice, n, False)
              else if strict \<and> \<not> strict_boundary repr allow reason ca then (notice, n, False)
              else (let acts = notice @ [Deactivate (ca_id ca) reason] in
                if ca_deactivation ca = Deactivated then (acts, counted reason n, True)
                else (acts, n, \<not> strict)))))"

fun sweep_page :: "(pyval \<Rightarrow> string) \<Rightarrow> bool \<Rightarrow> bool \<Rightarrow> rat \<Rightarrow> candidate list \<Rightarrow> sweep_counts \<Rightarrow> sweep_action list \<times> sweep_counts \<times> bool" where
  "sweep_page repr strict lapsed_enabled now [] n = ([], n, True)"
| "sweep_page repr strict lapsed_enabled now (ca # cas) n =
     (let (acts, n, goes_on) = sweep_one repr strict lapsed_enabled now ca n in
      if goes_on then (let (acts', n, done) = sweep_page repr strict lapsed_enabled now cas n in (acts @ acts', n, done)) else (acts, n, False))"

definition process_expired_contractors ::
    "(pyval \<Rightarrow> string) \<Rightarrow> bool \<Rightarrow> bool \<Rightarrow> bool \<Rightarrow> rat \<Rightarrow> candidate list \<Rightarrow> document \<Rightarrow> document \<times> sweep_action list \<times> sweep_counts \<times> bool" where
  "process_expired_contractors repr strict marker_fails flag now cas marker =
     (let (marker', elapsed) = (if marker_fails then (marker, False) else observation_window_elapsed now marker) in
      (marker', sweep_page repr strict (elapsed \<and> flag) now cas \<lparr>sc_deleted_app = 0, sc_lapsed = 0, sc_skipped = 0\<rparr>))"

section \<open>What a pass promises\<close>

text \<open>The guard of a reason, on a profile and what an evaluation saw.\<close>

definition guarded :: "(pyval \<Rightarrow> string) \<Rightarrow> release_reason \<Rightarrow> release_evidence \<Rightarrow> pydict \<Rightarrow> bool" where
  "guarded repr reason ev d = (truthy (pget d ''active'') \<and> (case reason of
       Deleted_app \<Rightarrow> is_safe_to_release_number (Some d) (ev_now ev)
     | Lapsed \<Rightarrow> (\<exists>last_call. ev_last_call ev = Some last_call \<and> is_safe_to_release_lapsed_number repr (Some d) (ev_now ev) last_call) \<and>
         \<not> apple_blocks_release repr (ev_apple ev) d))"

lemma fresh_reason_guarded: "fresh_reason repr ev allow d = Some reason \<Longrightarrow> guarded repr reason ev d \<and> (reason = Lapsed \<longrightarrow> allow)"
  by (auto simp: fresh_reason_def release_reason_of_def guarded_def split: if_splits option.splits)

text \<open>A profile whose number is reserved under a nonce, as the beginning of a deletion demands it.\<close>

definition reserved_by :: "string \<Rightarrow> document \<Rightarrow> bool" where
  "reserved_by nonce s = (\<exists>d claim. s = Some d \<and> pget d CLAIM_FIELD = PDict claim \<and> claim_nonce_matches d nonce ''reserved'' \<and>
     bound_number d claim \<notin> {None, Some []})"

text \<open>The checks that an account has passed when its number is given up.\<close>

definition checked :: "(pyval \<Rightarrow> string) \<Rightarrow> bool \<Rightarrow> release_reason \<Rightarrow> candidate \<Rightarrow> bool" where
  "checked repr strict reason ca =
     ((\<exists>d. ca_fresh ca = Some d \<and> guarded repr reason (ca_fresh_evidence ca) d) \<and>
      (strict \<longrightarrow> (\<exists>later boundary d. ca_later ca = Some later \<and> ca_boundary ca = Some boundary \<and> ca_profile ca = Some d \<and>
         guarded repr reason (ca_later_evidence ca) later \<and> same_strict_release_snapshot later boundary \<and>
         same_strict_release_snapshot boundary d \<and> reserved_by (ca_nonce ca) (fst (release_claim ca boundary)))))"

lemma release_claimed:
  assumes "snd (release_claim ca boundary) = Inr True"
  shows "\<exists>d. ca_profile ca = Some d \<and> same_strict_release_snapshot boundary d \<and> reserved_by (ca_nonce ca) (fst (release_claim ca boundary))"
proof -
  let ?f = "claim_change (ca_claim_now ca) (ca_nonce ca) (same_strict_release_snapshot boundary)"
  let ?s = "fst (release_claim ca boundary)"
  have "transact (ca_claim_commit ca) (ca_profile ca) (case ca_profile ca of None \<Rightarrow> Inr (False, ca_profile ca)
      | Some d \<Rightarrow> Inr (fst (?f d), Some (profile_after d (snd (?f d))))) = (?s, Inr True)"
    using assms by (simp add: release_claim_def claim_strict_number_release_def profile_txn_def prod_eq_iff)
  from transact_answer [OF this] obtain d where d: "ca_profile ca = Some d" "fst (?f d)" "?s = Some (profile_after d (snd (?f d)))"
    by (auto split: option.splits)
  from d(2) obtain number where "pget d ''twilio_number'' = PStr number" "number \<noteq> []" "same_strict_release_snapshot boundary d"
      "snd (?f d) = Some [(CLAIM_FIELD, PDict [(''nonce'', PStr (ca_nonce ca)), (''state'', PStr ''reserved''),
         (''claimed_at'', seconds (ca_claim_now ca)), (''expected_twilio_number'', PStr number)])]"
    by (auto simp: claim_change_def Let_def split: if_splits pyval.splits)
  with d(1,3) show ?thesis
    by (auto simp: reserved_by_def profile_after_def pget_def claim_nonce_matches_def claim_state_def bound_number_def CLAIM_FIELD_def)
qed

lemma sweep_one_checked:
  assumes "sweep_one repr strict lapsed now ca n = (acts, n', goes_on)" "Deactivate i reason \<in> set acts"
  shows "i = ca_id ca \<and> checked repr strict reason ca \<and> (reason = Lapsed \<longrightarrow> lapsed)"
  using assms by (auto simp: sweep_one_def Let_def checked_def strict_boundary_def dest!: fresh_reason_guarded release_claimed split: if_splits option.splits)

lemma sweep_one_counts:
  assumes "sweep_one repr strict lapsed now ca n = (acts, n', goes_on)" "sc_lapsed n \<le> LAPSED_RELEASE_MAX_PER_RUN"
  shows "sc_lapsed n' \<le> LAPSED_RELEASE_MAX_PER_RUN \<and> (\<not> lapsed \<longrightarrow> sc_lapsed n' = sc_lapsed n)"
  using assms by (auto simp: sweep_one_def Let_def counted_def dest!: fresh_reason_guarded split: if_splits option.splits release_reason.splits)

lemma sweep_page_counts:
  "sweep_page repr strict lapsed now cas n = (acts, n', over) \<Longrightarrow> sc_lapsed n \<le> LAPSED_RELEASE_MAX_PER_RUN \<Longrightarrow>
   sc_lapsed n' \<le> LAPSED_RELEASE_MAX_PER_RUN \<and> (\<not> lapsed \<longrightarrow> sc_lapsed n' = sc_lapsed n)"
proof (induction cas arbitrary: n acts over)
  case (Cons ca cas)
  obtain a m g where one: "sweep_one repr strict lapsed now ca n = (a, m, g)" by (metis prod_cases3)
  from sweep_one_counts [OF one Cons(3)] Cons(1) [of m] Cons(2) one show ?case by (fastforce split: prod.splits if_splits)
qed simp

lemma sweep_page_checked:
  "sweep_page repr strict lapsed now cas n = (acts, n', over) \<Longrightarrow> Deactivate i reason \<in> set acts \<Longrightarrow>
   (\<exists>ca \<in> set cas. i = ca_id ca \<and> checked repr strict reason ca) \<and> (reason = Lapsed \<longrightarrow> lapsed)"
proof (induction cas arbitrary: n acts over)
  case (Cons ca cas)
  obtain a m g where one: "sweep_one repr strict lapsed now ca n = (a, m, g)" by (metis prod_cases3)
  show ?case
  proof (cases "Deactivate i reason \<in> set a")
    case True
    then show ?thesis using sweep_one_checked [OF one] by auto
  next
    case False
    with Cons(2,3) one obtain acts' where "sweep_page repr strict lapsed now cas m = (acts', n', over)" "Deactivate i reason \<in> set acts'"
      by (auto split: prod.splits if_splits)
    from Cons(1) [OF this] show ?thesis by auto
  qed
qed simp

text \<open>
  C20: Every number that a pass gives up belongs to an account of the page that was active and safe to release on a fresh read. In
  the strict worker it was safe also on a read after the notice; the profile still compared equal to that read, by way of the
  last snapshot, inside the transaction of the claim; and that transaction left the number reserved under the claim's nonce.
  Numbers of lapsed accounts are given up only while the feature is on and a full observation window has passed, only where
  Apple holds no live subscription, and at most five in a pass are counted.
\<close>

theorem sweep_releases_are_checked:
  assumes "process_expired_contractors repr strict marker_fails flag now cas marker = (marker', acts, n, over)"
  shows "sc_lapsed n \<le> 5 \<and>
    (\<forall>i reason. Deactivate i reason \<in> set acts \<longrightarrow> (\<exists>ca \<in> set cas. i = ca_id ca \<and> checked repr strict reason ca) \<and>
       (reason = Lapsed \<longrightarrow> flag \<and> \<not> marker_fails \<and> snd (observation_window_elapsed now marker)))"
proof -
  obtain lapsed where l: "sweep_page repr strict lapsed now cas \<lparr>sc_deleted_app = 0, sc_lapsed = 0, sc_skipped = 0\<rparr> = (acts, n, over)"
    "lapsed \<longrightarrow> flag \<and> \<not> marker_fails \<and> snd (observation_window_elapsed now marker)"
    using assms by (auto simp: process_expired_contractors_def split: prod.splits if_splits)
  show ?thesis using sweep_page_counts [OF l(1)] sweep_page_checked [OF l(1)] l(2) by (auto simp: LAPSED_RELEASE_MAX_PER_RUN_def)
qed

definition sample_candidate :: "deactivation \<Rightarrow> candidate" where
  "sample_candidate answer =
     (let d = sample_lapsed(''active'' \<mapsto> PBool True);
          ev = \<lparr>ev_now = 9000000, ev_last_call = Some PNone, ev_apple = []\<rparr> in
      \<lparr>ca_id = ''c'', ca_snapshot = d, ca_fresh = Some d, ca_fresh_evidence = ev, ca_sms = Sms_sent, ca_later = Some d,
       ca_later_evidence = ev, ca_boundary = Some d, ca_profile = Some d, ca_claim_commit = Applied, ca_claim_now = 9000000,
       ca_nonce = ''n'', ca_deactivation = answer, ca_snapshot_evidence = ev\<rparr>)"

definition sample_marker :: document where
  "sample_marker = Some [''observation_started_at'' \<mapsto> PInt 1000000]"

definition sample_pass :: "bool \<Rightarrow> candidate list \<Rightarrow> sweep_action list \<times> sweep_counts \<times> bool" where
  "sample_pass strict cas = snd (process_expired_contractors (\<lambda>v. []) strict False True 9000000 cas sample_marker)"

lemma sample_pass_releases:
  "sample_pass True [sample_candidate Deactivated] =
     ([Deactivate ''c'' Lapsed], \<lparr>sc_deleted_app = 0, sc_lapsed = 1, sc_skipped = 0\<rparr>, True)"
  by code_simp

lemma sweep_releases_are_checked_witness:
  "checked (\<lambda>v. []) True Lapsed (sample_candidate Deactivated) \<and> Deactivate ''c'' Lapsed \<in> set (fst (sample_pass True [sample_candidate Deactivated]))"
proof -
  let ?p = "process_expired_contractors (\<lambda>v. []) True False True 9000000 [sample_candidate Deactivated] sample_marker"
  have "?p = (fst ?p, [Deactivate ''c'' Lapsed], \<lparr>sc_deleted_app = 0, sc_lapsed = 1, sc_skipped = 0\<rparr>, True)"
    using sample_pass_releases by (metis prod.collapse sample_pass_def)
  from sweep_releases_are_checked [OF this] show ?thesis by (simp add: sample_pass_releases)
qed

text \<open>The limit of five counts confirmed releases only: a pass of the embedded loop goes on after any number of failures.\<close>

lemma failed_releases_are_not_counted:
  "length (filter (\<lambda>act. act = Deactivate ''c'' Lapsed) (fst (sample_pass False (replicate 7 (sample_candidate Deactivation_raised))))) = 7 \<and>
   sc_lapsed (fst (snd (sample_pass False (replicate 7 (sample_candidate Deactivation_raised))))) = 0"
  by code_simp

end
