(* ===== verification/Speech_Control.thy ===== *)
theory Speech_Control
  imports Voice_Lifecycle Firestore
begin

text \<open>
  The authority over what the assistant says, app/services/voice_speech_control.py: plans of semantic acts, the policy on their
  texts, the reservation, authorisation, binding and cancellation of each act, repairs and replays. Arguments are of their
  declared types, which the code checks. The parameter \<open>H\<close> maps a text to the hexadecimal SHA-256 digest of its
  encoding.
\<close>

section \<open>Texts and identifiers\<close>

definition identifier_char :: "char \<Rightarrow> bool" where
  "identifier_char c = (let n = (of_char c :: nat) in
     48 \<le> n \<and> n \<le> 57 \<or> 65 \<le> n \<and> n \<le> 90 \<or> 97 \<le> n \<and> n \<le> 122 \<or> c = CHR ''_'')"

definition is_identifier :: "string \<Rightarrow> bool" where
  "is_identifier s = (s \<noteq> [] \<and> length s \<le> 128 \<and> list_all identifier_char s)"

definition lower_word :: "nat \<Rightarrow> nat \<Rightarrow> string \<Rightarrow> bool" where
  "lower_word least most s = (least \<le> length s \<and> length s \<le> most \<and>
     list_all (\<lambda>c. 97 \<le> (of_char c :: nat) \<and> (of_char c :: nat) \<le> 122) s)"

definition is_locale :: "string \<Rightarrow> bool" where
  "is_locale s = (case split_on (CHR ''-'') s of
       [a] \<Rightarrow> lower_word 2 3 a | [a, b] \<Rightarrow> lower_word 2 3 a \<and> lower_word 2 8 b | _ \<Rightarrow> False)"

definition word_count :: "string \<Rightarrow> nat" where
  "word_count s = length (words_after [] s)"

text \<open>\<open>json.dumps\<close> without spaces on an object whose values are already texts.\<close>

definition json_object :: "(string \<times> string) list \<Rightarrow> string" where
  "json_object kts = ''{'' @ join '','' (map (\<lambda>(k, t). ascii_string k @ '':'' @ t) kts) @ ''}''"

text \<open>The members in the order of \<open>sort_keys\<close>.\<close>

definition binding_json :: "voice_binding \<Rightarrow> string" where
  "binding_json b = json_object [(''call_binding'', ascii_string (vb_call b)), (''contractor_binding'', ascii_string (vb_contractor b)),
     (''environment'', ascii_string (vb_environment b)), (''epoch'', int_str (vb_epoch b)), (''stream_binding'', ascii_string (vb_stream b))]"

type_synonym hash = "string \<Rightarrow> string"

definition speech_act_id :: "hash \<Rightarrow> voice_binding \<Rightarrow> string \<Rightarrow> string \<Rightarrow> nat \<Rightarrow> string" where
  "speech_act_id H b turn plan index = ''act_'' @ H (json_object
     [(''binding'', binding_json b), (''index'', int_str (int index)), (''plan_id'', ascii_string plan), (''turn_id'', ascii_string turn)])"

section \<open>Plans and policies\<close>

datatype failure_class = RECOVERABLE_FAILURE | SECURITY_FAILURE | UNCERTAIN_FAILURE | IRRECOVERABLE_FAILURE

datatype cancellation_reason = CALLER_ACTIVITY | INTERRUPTION | RECONNECT | EPOCH_SUPERSEDED

datatype replay_mode = EXACT | SLOWER

fun replay_mode_value :: "replay_mode \<Rightarrow> string" where
  "replay_mode_value EXACT = ''exact''"
| "replay_mode_value SLOWER = ''slower''"

definition TERMINAL_KINDS :: "act_kind list" where
  "TERMINAL_KINDS = [CLOSING, OPT_OUT, VOICEMAIL]"

definition NON_REPLAYABLE_KINDS :: "act_kind list" where
  "NON_REPLAYABLE_KINDS = TERMINAL_KINDS @ [LANGUAGE_CHOICE]"

record semantic_act =
  sa_kind :: act_kind
  sa_text :: string
  sa_slot :: "string option"
  sa_private :: bool
  sa_promise :: bool
  sa_complete :: bool

definition make_semantic_act :: "act_kind \<Rightarrow> string \<Rightarrow> string option \<Rightarrow> bool \<Rightarrow> bool \<Rightarrow> bool \<Rightarrow> semantic_act res" where
  "make_semantic_act kind s slot private promise whole =
     (if py_strip s = [] \<or> 4096 < length s then Inl ValueError
      else if (if kind = QUESTION then (case slot of None \<Rightarrow> True | Some q \<Rightarrow> \<not> is_identifier q) else slot \<noteq> None) then Inl ValueError
      else Inr \<lparr>sa_kind = kind, sa_text = s, sa_slot = slot, sa_private = private, sa_promise = promise, sa_complete = whole\<rparr>)"

record spoken_plan =
  pl_id :: string
  pl_acts :: "semantic_act list"

definition indices_of :: "act_kind \<Rightarrow> semantic_act list \<Rightarrow> nat list" where
  "indices_of kind acts = filter (\<lambda>i. sa_kind (acts ! i) = kind) [0..<length acts]"

definition make_spoken_plan :: "string \<Rightarrow> semantic_act list \<Rightarrow> spoken_plan res" where
  "make_spoken_plan plan acts =
     (if \<not> is_identifier plan then Inl ValueError
      else if acts = [] then Inl ValueError
      else if 1 < length (indices_of QUESTION acts) then Inl ValueError
      else (case (indices_of QUESTION acts, indices_of ANSWER acts) of
          (q # qs, a # as) \<Rightarrow> if q < a then Inl ValueError else Inr \<lparr>pl_id = plan, pl_acts = acts\<rparr>
        | _ \<Rightarrow> Inr \<lparr>pl_id = plan, pl_acts = acts\<rparr>))"

record speech_policy =
  po_normal :: nat
  po_safety :: nat
  po_required :: "string list"
  po_terminal :: "string list"
  po_localized :: "(string \<times> string list) list"

definition fragments_ok :: "string list \<Rightarrow> bool" where
  "fragments_ok fs = (fs \<noteq> [] \<and> list_all (\<lambda>f. py_strip f \<noteq> []) fs)"

definition make_speech_policy :: "nat \<Rightarrow> nat \<Rightarrow> string list \<Rightarrow> string list \<Rightarrow> (string \<times> string list) list \<Rightarrow> speech_policy res" where
  "make_speech_policy normal safety required terminal localized =
     (if normal < 1 \<or> safety < 1 \<or> \<not> fragments_ok required \<or> \<not> fragments_ok terminal \<or>
         \<not> list_all (\<lambda>(l, fs). is_locale l \<and> fragments_ok fs) localized \<or> \<not> distinct (map fst localized) then Inl ValueError
      else Inr \<lparr>po_normal = normal, po_safety = safety, po_required = required, po_terminal = terminal, po_localized = localized\<rparr>)"

definition safety_fragments :: "speech_policy \<Rightarrow> string \<Rightarrow> string list" where
  "safety_fragments policy l = (case map_of (po_localized policy) l of None \<Rightarrow> po_required policy | Some fs \<Rightarrow> fs)"

record speech_authorization =
  au_binding :: voice_binding
  au_turn :: string
  au_kinds :: "act_kind list"
  au_terminal :: bool
  au_answered :: "string list"
  au_locale :: string

definition make_speech_authorization ::
    "voice_binding \<Rightarrow> string \<Rightarrow> act_kind list \<Rightarrow> bool \<Rightarrow> string list \<Rightarrow> string \<Rightarrow> speech_authorization res" where
  "make_speech_authorization b turn kinds terminal answered l =
     (if \<not> is_identifier turn \<or> kinds = [] \<or> \<not> distinct kinds \<or> \<not> list_all is_identifier answered \<or> \<not> is_locale l then Inl ValueError
      else Inr \<lparr>au_binding = b, au_turn = turn, au_kinds = kinds, au_terminal = terminal, au_answered = answered, au_locale = l\<rparr>)"

definition valid_text :: "speech_policy \<Rightarrow> act_kind \<Rightarrow> string \<Rightarrow> bool" where
  "valid_text policy kind s =
     (py_strip s \<noteq> [] \<and> word_count s \<le> (if kind = SAFETY then po_safety policy else po_normal policy) \<and>
      (kind \<in> set TERMINAL_KINDS \<or> \<not> list_ex (\<lambda>f. contains (casefold f) (casefold s)) (po_terminal policy)))"

definition valid_act :: "speech_policy \<Rightarrow> semantic_act \<Rightarrow> speech_authorization \<Rightarrow> bool" where
  "valid_act policy act au =
     ((sa_kind act \<in> set TERMINAL_KINDS \<longrightarrow> au_terminal au) \<and> sa_kind act \<in> set (au_kinds au) \<and>
      \<not> sa_private act \<and> \<not> sa_promise act \<and> sa_complete act \<and> valid_text policy (sa_kind act) (sa_text act) \<and>
      (sa_kind act = SAFETY \<longrightarrow> list_all (\<lambda>f. contains (casefold f) (casefold (sa_text act))) (safety_fragments policy (au_locale au))))"

section \<open>Reservations and bindings\<close>

record reserved_speech =
  rs_act :: string
  rs_reservation :: "string option"
  rs_kind :: act_kind
  rs_text :: string
  rs_binding :: voice_binding
  rs_turn :: string

record audio_binding =
  ab_act :: string
  ab_digest :: string
  ab_audio :: string
  ab_binding :: voice_binding

record playout_binding =
  pb_act :: string
  pb_digest :: string
  pb_audio :: string
  pb_playout :: string
  pb_binding :: voice_binding

definition sha_hex :: "string \<Rightarrow> bool" where
  "sha_hex s = (length s = 64 \<and> set s \<subseteq> set ''0123456789abcdef'')"

record replay_source =
  rp_act :: string
  rp_kind :: act_kind
  rp_text :: string
  rp_digest :: string
  rp_binding :: voice_binding
  rp_turn :: string
  rp_slot :: "string option"
  rp_locale :: string

definition make_replay_source :: "hash \<Rightarrow> replay_source \<Rightarrow> replay_source res" where
  "make_replay_source H s =
     (if \<not> is_identifier (rp_act s) \<or> rp_kind s \<in> set NON_REPLAYABLE_KINDS \<or> rp_text s = [] \<or> \<not> sha_hex (rp_digest s) \<or>
         H (rp_text s) \<noteq> rp_digest s \<or> \<not> is_identifier (rp_turn s) \<or>
         (if rp_kind s = QUESTION then (case rp_slot s of None \<Rightarrow> True | Some q \<Rightarrow> \<not> is_identifier q) else rp_slot s \<noteq> None) \<or>
         \<not> is_locale (rp_locale s) then Inl ValueError else Inr s)"

record replay_binding =
  rb_act :: string
  rb_source :: string
  rb_request :: string
  rb_mode :: replay_mode
  rb_digest :: string
  rb_binding :: voice_binding

definition make_replay_binding :: "replay_binding \<Rightarrow> replay_binding res" where
  "make_replay_binding b =
     (if is_identifier (rb_act b) \<and> is_identifier (rb_source b) \<and> is_identifier (rb_request b) \<and> sha_hex (rb_digest b)
      then Inr b else Inl ValueError)"

record repair_intent =
  rn_original :: string
  rn_repair :: string
  rn_turn :: string
  rn_epoch :: int
  rn_facts :: "string list"

definition make_repair_intent :: "repair_intent \<Rightarrow> repair_intent res" where
  "make_repair_intent r =
     (if is_identifier (rn_original r) \<and> is_identifier (rn_repair r) \<and> is_identifier (rn_turn r) \<and> 0 \<le> rn_epoch r \<and>
         list_all is_identifier (rn_facts r) then Inr r else Inl ValueError)"

record speech_record =
  sp_reserved :: reserved_speech
  sp_slot :: "string option"
  sp_owns_slot :: bool
  sp_locale :: string
  sp_authorized :: bool
  sp_cancelled :: bool
  sp_audio :: "audio_binding option"
  sp_playout :: "playout_binding option"
  sp_streamed :: string
  sp_observed :: "nat option"
  sp_replay_mode :: "replay_mode option"
  sp_replay_source :: "string option"
  sp_replay_request :: "string option"

section \<open>The state\<close>

text \<open>\<open>SpeechControl\<close>. The records are a dictionary whose order is read; the other collections are sets.\<close>

record speech =
  sc_records :: "(string \<times> speech_record) list"
  sc_batches :: "string list set"
  sc_slots :: "(voice_binding \<times> string) set"
  sc_repairs :: "(voice_binding \<times> string) set"
  sc_replays :: "(voice_binding \<times> string) set"
  sc_counter :: nat

definition new_speech :: speech where
  "new_speech = \<lparr>sc_records = [], sc_batches = {}, sc_slots = {}, sc_repairs = {}, sc_replays = {}, sc_counter = 0\<rparr>"

definition record_of :: "speech \<Rightarrow> string \<Rightarrow> speech_record option" where
  "record_of s i = map_of (sc_records s) i"

definition put_record :: "string \<Rightarrow> speech_record \<Rightarrow> speech \<Rightarrow> speech" where
  "put_record i r s = s\<lparr>sc_records := AList.update i r (sc_records s)\<rparr>"

definition drop_record :: "string \<Rightarrow> speech \<Rightarrow> speech" where
  "drop_record i s = s\<lparr>sc_records := AList.delete i (sc_records s)\<rparr>"

text \<open>The question of a record gives its slot back.\<close>

definition free_slot :: "speech_record \<Rightarrow> speech \<Rightarrow> speech" where
  "free_slot r s =
     (case sp_slot r of Some q \<Rightarrow> if sp_owns_slot r then s\<lparr>sc_slots := sc_slots s - {(rs_binding (sp_reserved r), q)}\<rparr> else s
      | None \<Rightarrow> s)"

section \<open>Reserving\<close>

definition reservation_of :: "hash \<Rightarrow> spoken_plan \<Rightarrow> speech_authorization \<Rightarrow> nat \<Rightarrow> semantic_act \<Rightarrow> reserved_speech" where
  "reservation_of H plan au index act =
     (let i = speech_act_id H (au_binding au) (au_turn au) (pl_id plan) index in
      \<lparr>rs_act = i, rs_reservation = (if sa_kind act = QUESTION then Some (''reservation_'' @ i) else None), rs_kind = sa_kind act,
       rs_text = sa_text act, rs_binding = au_binding au, rs_turn = au_turn au\<rparr>)"

definition fresh_record :: "reserved_speech \<Rightarrow> semantic_act \<Rightarrow> speech_authorization \<Rightarrow> speech_record" where
  "fresh_record e act au =
     \<lparr>sp_reserved = e, sp_slot = sa_slot act, sp_owns_slot = (sa_slot act \<noteq> None), sp_locale = au_locale au, sp_authorized = False,
      sp_cancelled = False, sp_audio = None, sp_playout = None, sp_streamed = [], sp_observed = None, sp_replay_mode = None,
      sp_replay_source = None, sp_replay_request = None\<rparr>"

text \<open>The checks of one act before any is reserved.\<close>

definition act_reservable :: "hash \<Rightarrow> speech_policy \<Rightarrow> speech \<Rightarrow> spoken_plan \<Rightarrow> speech_authorization \<Rightarrow> nat \<times> semantic_act \<Rightarrow> bool" where
  "act_reservable H policy s plan au = (\<lambda>(index, act).
     valid_act policy act au \<and>
     record_of s (speech_act_id H (au_binding au) (au_turn au) (pl_id plan) index) = None \<and>
     (sa_kind act = QUESTION \<longrightarrow> (case sa_slot act of None \<Rightarrow> True
        | Some q \<Rightarrow> q \<notin> set (au_answered au) \<and> (au_binding au, q) \<notin> sc_slots s)))"

definition reserve_act :: "hash \<Rightarrow> spoken_plan \<Rightarrow> speech_authorization \<Rightarrow> nat \<times> semantic_act \<Rightarrow> speech \<Rightarrow> speech" where
  "reserve_act H plan au = (\<lambda>(index, act) s.
     let e = reservation_of H plan au index act;
         s' = (case sa_slot act of Some q \<Rightarrow> if sa_kind act = QUESTION then s\<lparr>sc_slots := insert (au_binding au, q) (sc_slots s)\<rparr> else s
                 | None \<Rightarrow> s) in
     put_record (rs_act e) (fresh_record e act au) s')"

definition reserve ::
    "hash \<Rightarrow> speech_policy \<Rightarrow> spoken_plan \<Rightarrow> speech_authorization \<Rightarrow> speech \<Rightarrow> speech \<times> reserved_speech list res" where
  "reserve H policy plan au s =
     (let acts = enumerate 0 (pl_acts plan); batch = map (\<lambda>(index, act). reservation_of H plan au index act) acts in
      if list_all (act_reservable H policy s plan au) acts
      then let s' = fold (reserve_act H plan au) acts s in (s'\<lparr>sc_batches := insert (map rs_act batch) (sc_batches s')\<rparr>, Inr batch)
      else (s, Inl ValueError))"

definition tracks_reservation_batch :: "reserved_speech list \<Rightarrow> speech \<Rightarrow> bool" where
  "tracks_reservation_batch batch s = (batch \<noteq> [] \<and> distinct (map rs_act batch) \<and> map rs_act batch \<in> sc_batches s)"

text \<open>A record nothing has happened to.\<close>

definition pristine :: "speech \<Rightarrow> reserved_speech \<Rightarrow> bool" where
  "pristine s item =
     (case record_of s (rs_act item) of None \<Rightarrow> False
      | Some r \<Rightarrow> sp_reserved r = item \<and> \<not> sp_authorized r \<and> \<not> sp_cancelled r \<and> sp_audio r = None \<and> sp_playout r = None \<and>
          sp_streamed r = [] \<and> (rs_binding (sp_reserved r), rs_act item) \<notin> sc_repairs s)"

definition roll_back :: "speech_record \<Rightarrow> speech \<Rightarrow> speech" where
  "roll_back r s =
     (let s' = free_slot r (drop_record (rs_act (sp_reserved r)) s) in
      case sp_replay_request r of None \<Rightarrow> s' | Some q \<Rightarrow> s'\<lparr>sc_replays := sc_replays s' - {(rs_binding (sp_reserved r), q)}\<rparr>)"

definition rollback_reservation :: "reserved_speech list \<Rightarrow> speech \<Rightarrow> speech \<times> bool" where
  "rollback_reservation batch s =
     (if tracks_reservation_batch batch s \<and> list_all (pristine s) batch
      then let s' = fold roll_back (List.map_filter (\<lambda>item. record_of s (rs_act item)) batch) s in
        (s'\<lparr>sc_batches := sc_batches s' - {map rs_act batch}\<rparr>, True)
      else (s, False))"

definition drop_batch :: "(speech_record \<Rightarrow> bool) \<Rightarrow> reserved_speech list \<Rightarrow> speech \<Rightarrow> speech \<times> bool" where
  "drop_batch ready batch s =
     (if map rs_act batch \<in> sc_batches s \<and>
         list_all (\<lambda>item. case record_of s (rs_act item) of None \<Rightarrow> False | Some r \<Rightarrow> sp_reserved r = item \<and> ready r) batch
      then (s\<lparr>sc_batches := sc_batches s - {map rs_act batch}\<rparr>, True) else (s, False))"

definition complete_reservation :: "reserved_speech list \<Rightarrow> speech \<Rightarrow> speech \<times> bool" where
  "complete_reservation batch s = drop_batch (\<lambda>r. \<not> sp_cancelled r) batch s"

definition retire_reservation :: "reserved_speech list \<Rightarrow> speech \<Rightarrow> speech \<times> bool" where
  "retire_reservation batch s = drop_batch (\<lambda>r. True) batch s"

definition force_retire_reservation :: "reserved_speech list \<Rightarrow> speech \<Rightarrow> speech \<times> bool" where
  "force_retire_reservation batch s = (if tracks_reservation_batch batch s then drop_batch sp_cancelled batch s else (s, False))"

definition reservation_batch_count :: "voice_binding \<Rightarrow> speech \<Rightarrow> nat" where
  "reservation_batch_count b s = card {ids \<in> sc_batches s.
     list_ex (\<lambda>i. case record_of s i of None \<Rightarrow> False | Some r \<Rightarrow> rs_binding (sp_reserved r) = b) ids}"

section \<open>Authority over one act\<close>

text \<open>An operation on the record of an act that changes it when the record passes its guard.\<close>

definition on_record :: "string \<Rightarrow> (speech_record \<Rightarrow> bool) \<Rightarrow> (speech_record \<Rightarrow> speech_record) \<Rightarrow> speech \<Rightarrow> speech \<times> bool" where
  "on_record i guard f s =
     (case record_of s i of None \<Rightarrow> (s, False) | Some r \<Rightarrow> if guard r then (put_record i (f r) s, True) else (s, False))"

definition authorize_text :: "speech_policy \<Rightarrow> string \<Rightarrow> string \<Rightarrow> speech \<Rightarrow> speech \<times> bool" where
  "authorize_text policy i t s = on_record i
     (\<lambda>r. \<not> sp_cancelled r \<and> \<not> sp_authorized r \<and> t = rs_text (sp_reserved r) \<and> valid_text policy (rs_kind (sp_reserved r)) t)
     (\<lambda>r. r\<lparr>sp_authorized := True\<rparr>) s"

definition UNSEGMENTED_KINDS :: "act_kind list" where
  "UNSEGMENTED_KINDS = TERMINAL_KINDS @ [QUESTION, SAFETY]"

definition accept_segment :: "speech_policy \<Rightarrow> string \<Rightarrow> string \<Rightarrow> bool \<Rightarrow> speech \<Rightarrow> speech \<times> bool" where
  "accept_segment policy i segment final s = on_record i
     (\<lambda>r. \<not> sp_cancelled r \<and> sp_authorized r \<and> rs_kind (sp_reserved r) \<notin> set UNSEGMENTED_KINDS \<and> segment \<noteq> [] \<and>
        has_prefix (sp_streamed r @ segment) (rs_text (sp_reserved r)) \<and>
        valid_text policy (rs_kind (sp_reserved r)) (sp_streamed r @ segment) \<and>
        final = (sp_streamed r @ segment = rs_text (sp_reserved r)))
     (\<lambda>r. r\<lparr>sp_streamed := sp_streamed r @ segment\<rparr>) s"

definition bind_tts :: "hash \<Rightarrow> string \<Rightarrow> string \<Rightarrow> speech \<Rightarrow> speech \<times> bool" where
  "bind_tts H i audio s = on_record i
     (\<lambda>r. \<not> sp_cancelled r \<and> sp_authorized r \<and> sp_audio r = None \<and> is_identifier audio)
     (\<lambda>r. r\<lparr>sp_audio := Some \<lparr>ab_act = i, ab_digest = H (rs_text (sp_reserved r)), ab_audio = audio,
        ab_binding = rs_binding (sp_reserved r)\<rparr>\<rparr>) s"

definition playout_for :: "string \<Rightarrow> string \<Rightarrow> audio_binding \<Rightarrow> playout_binding" where
  "playout_for i playout a =
     \<lparr>pb_act = i, pb_digest = ab_digest a, pb_audio = ab_audio a, pb_playout = playout, pb_binding = ab_binding a\<rparr>"

definition bind_playout :: "string \<Rightarrow> string \<Rightarrow> speech \<Rightarrow> speech \<times> bool" where
  "bind_playout i playout s = on_record i
     (\<lambda>r. \<not> sp_cancelled r \<and> sp_audio r \<noteq> None \<and> sp_playout r = None \<and> is_identifier playout)
     (\<lambda>r. r\<lparr>sp_playout := map_option (playout_for i playout) (sp_audio r)\<rparr>) s"

definition record_caller_playback_observed :: "string \<Rightarrow> string \<Rightarrow> speech \<Rightarrow> speech \<times> bool" where
  "record_caller_playback_observed i playout s =
     (case on_record i
         (\<lambda>r. \<not> sp_cancelled r \<and> sp_authorized r \<and> (case sp_playout r of None \<Rightarrow> False | Some p \<Rightarrow> pb_playout p = playout) \<and>
            sp_observed r = None)
         (\<lambda>r. r\<lparr>sp_observed := Some (Suc (sc_counter s))\<rparr>) s of
       (s', ok) \<Rightarrow> (if ok then s'\<lparr>sc_counter := Suc (sc_counter s)\<rparr> else s', ok))"

definition may_cancel :: "cancellation_reason \<Rightarrow> int option \<Rightarrow> speech_record \<Rightarrow> bool" where
  "may_cancel reason superseding r =
     (\<not> sp_cancelled r \<and>
      (if reason = EPOCH_SUPERSEDED then (case superseding of None \<Rightarrow> False | Some e \<Rightarrow> vb_epoch (rs_binding (sp_reserved r)) < e)
       else superseding = None))"

definition silence :: "string \<Rightarrow> speech_record \<Rightarrow> speech \<Rightarrow> speech" where
  "silence i r s = free_slot r (put_record i (r\<lparr>sp_cancelled := True\<rparr>) s)"

definition cancel_act :: "string \<Rightarrow> cancellation_reason \<Rightarrow> int option \<Rightarrow> speech \<Rightarrow> speech \<times> bool" where
  "cancel_act i reason superseding s =
     (case record_of s i of None \<Rightarrow> (s, False)
      | Some r \<Rightarrow> if may_cancel reason superseding r then (silence i r s, True) else (s, False))"

definition is_live :: "speech \<Rightarrow> string \<Rightarrow> bool" where
  "is_live s i = (case record_of s i of None \<Rightarrow> False | Some r \<Rightarrow> sp_authorized r \<and> \<not> sp_cancelled r)"

definition is_cancelled :: "speech \<Rightarrow> string \<Rightarrow> bool" where
  "is_cancelled s i = (case record_of s i of None \<Rightarrow> False | Some r \<Rightarrow> sp_cancelled r)"

definition hard_terminalize :: "string \<Rightarrow> speech \<Rightarrow> speech \<times> bool" where
  "hard_terminalize i s =
     (case record_of s i of None \<Rightarrow> (s, False) | Some r \<Rightarrow> let s' = silence i r s in (s', \<not> is_live s' i))"

definition act_ids_for_binding :: "voice_binding \<Rightarrow> speech \<Rightarrow> string list" where
  "act_ids_for_binding b s = map fst (filter (\<lambda>(i, r). rs_binding (sp_reserved r) = b) (sc_records s))"

definition hard_terminalize_binding :: "voice_binding \<Rightarrow> speech \<Rightarrow> speech \<times> bool" where
  "hard_terminalize_binding b s =
     (let ids = act_ids_for_binding b s; s' = fold (\<lambda>i s. fst (hard_terminalize i s)) ids s in
      (s', list_all (\<lambda>i. \<not> is_live s' i) ids))"

definition audio_of :: "speech \<Rightarrow> string \<Rightarrow> audio_binding option" where
  "audio_of s i = (case record_of s i of None \<Rightarrow> None | Some r \<Rightarrow> sp_audio r)"

definition playout_of :: "speech \<Rightarrow> string \<Rightarrow> playout_binding option" where
  "playout_of s i = (case record_of s i of None \<Rightarrow> None | Some r \<Rightarrow> sp_playout r)"

definition authorized_text_digest :: "hash \<Rightarrow> speech \<Rightarrow> string \<Rightarrow> string option" where
  "authorized_text_digest H s i =
     (case record_of s i of None \<Rightarrow> None
      | Some r \<Rightarrow> if sp_cancelled r \<or> \<not> sp_authorized r then None else Some (H (rs_text (sp_reserved r))))"

section \<open>Replays\<close>

definition replayable :: "voice_binding \<Rightarrow> speech_record \<Rightarrow> bool" where
  "replayable b r =
     (rs_binding (sp_reserved r) = b \<and> sp_observed r \<noteq> None \<and> sp_authorized r \<and> \<not> sp_cancelled r \<and> sp_playout r \<noteq> None \<and>
      rs_kind (sp_reserved r) \<notin> set NON_REPLAYABLE_KINDS)"

definition ordinal :: "speech_record \<Rightarrow> nat" where
  "ordinal r = (case sp_observed r of None \<Rightarrow> 0 | Some n \<Rightarrow> n)"

text \<open>\<open>max\<close> with a key: the first of the greatest.\<close>

fun latest_of :: "speech_record \<Rightarrow> speech_record list \<Rightarrow> speech_record" where
  "latest_of best [] = best"
| "latest_of best (r # rs) = latest_of (if ordinal best < ordinal r then r else best) rs"

definition source_of :: "speech_record \<Rightarrow> replay_source" where
  "source_of r =
     \<lparr>rp_act = rs_act (sp_reserved r), rp_kind = rs_kind (sp_reserved r), rp_text = rs_text (sp_reserved r),
      rp_digest = (case sp_playout r of Some p \<Rightarrow> pb_digest p | None \<Rightarrow> []), rp_binding = rs_binding (sp_reserved r),
      rp_turn = rs_turn (sp_reserved r), rp_slot = sp_slot r, rp_locale = sp_locale r\<rparr>"

definition latest_replay_source :: "hash \<Rightarrow> voice_binding \<Rightarrow> speech \<Rightarrow> replay_source option res" where
  "latest_replay_source H b s =
     (case filter (replayable b) (map snd (sc_records s)) of [] \<Rightarrow> Inr None
      | r # rs \<Rightarrow> ebind (make_replay_source H (source_of (latest_of r rs))) (\<lambda>x. Inr (Some x)))"

definition replay_act_id :: "hash \<Rightarrow> replay_source \<Rightarrow> string \<Rightarrow> string \<Rightarrow> replay_mode \<Rightarrow> string" where
  "replay_act_id H source request turn mode = ''act_'' @ H (json_object
     [(''binding'', binding_json (rp_binding source)), (''domain'', ascii_string ''hey-kevin/offline-speech-replay/v1''),
      (''mode'', ascii_string (replay_mode_value mode)), (''request_id'', ascii_string request),
      (''source_act_id'', ascii_string (rp_act source)), (''text_digest'', ascii_string (rp_digest source)),
      (''turn_id'', ascii_string turn)])"

definition replay_authorized :: "replay_source \<Rightarrow> speech_authorization \<Rightarrow> bool" where
  "replay_authorized source au =
     (au_binding au = rp_binding source \<and> au_turn au \<noteq> rp_turn source \<and> au_kinds au = [rp_kind source] \<and>
      \<not> au_terminal au \<and> au_answered au = [] \<and> au_locale au = rp_locale source)"

definition replay_reservation :: "replay_source \<Rightarrow> speech_authorization \<Rightarrow> string \<Rightarrow> reserved_speech" where
  "replay_reservation source au i =
     \<lparr>rs_act = i, rs_reservation = (if rp_kind source = QUESTION then Some (''reservation_'' @ i) else None),
      rs_kind = rp_kind source, rs_text = rp_text source, rs_binding = rp_binding source, rs_turn = au_turn au\<rparr>"

definition replay_record :: "replay_source \<Rightarrow> reserved_speech \<Rightarrow> string \<Rightarrow> replay_mode \<Rightarrow> speech_record" where
  "replay_record source e request mode =
     \<lparr>sp_reserved = e, sp_slot = rp_slot source, sp_owns_slot = False, sp_locale = rp_locale source, sp_authorized = False,
      sp_cancelled = False, sp_audio = None, sp_playout = None, sp_streamed = [], sp_observed = None, sp_replay_mode = Some mode,
      sp_replay_source = Some (rp_act source), sp_replay_request = Some request\<rparr>"

definition reserve_replay ::
    "hash \<Rightarrow> replay_source \<Rightarrow> string \<Rightarrow> replay_mode \<Rightarrow> speech_authorization \<Rightarrow> speech \<Rightarrow> speech \<times> reserved_speech list res" where
  "reserve_replay H source request mode au s =
     (if \<not> is_identifier request then (s, Inl ValueError)
      else case latest_replay_source H (rp_binding source) s of Inl err \<Rightarrow> (s, Inl err)
      | Inr latest \<Rightarrow>
          let i = replay_act_id H source request (au_turn au) mode; e = replay_reservation source au i in
          if latest \<noteq> Some source \<or> \<not> replay_authorized source au \<or> (rp_binding source, request) \<in> sc_replays s \<or>
             record_of s i \<noteq> None then (s, Inr [])
          else ((put_record i (replay_record source e request mode) s)
                  \<lparr>sc_batches := insert [i] (sc_batches s), sc_replays := insert (rp_binding source, request) (sc_replays s)\<rparr>, Inr [e]))"

definition replay_provenance :: "hash \<Rightarrow> speech \<Rightarrow> string \<Rightarrow> replay_binding option res" where
  "replay_provenance H s i =
     (case record_of s i of None \<Rightarrow> Inr None
      | Some r \<Rightarrow> (case (sp_replay_mode r, sp_replay_source r, sp_replay_request r) of
            (Some m, Some src, Some q) \<Rightarrow>
              ebind (make_replay_binding \<lparr>rb_act = i, rb_source = src, rb_request = q, rb_mode = m,
                 rb_digest = H (rs_text (sp_reserved r)), rb_binding = rs_binding (sp_reserved r)\<rparr>) (\<lambda>x. Inr (Some x))
          | _ \<Rightarrow> Inr None))"

section \<open>Repairs\<close>

definition repair_allowed :: "speech_record \<Rightarrow> spoken_plan \<Rightarrow> speech_authorization \<Rightarrow> bool" where
  "repair_allowed r plan au =
     (rs_kind (sp_reserved r) \<noteq> REPAIR \<and> (case pl_acts plan of [act] \<Rightarrow> sa_kind act = REPAIR | _ \<Rightarrow> False) \<and>
      au_binding au = rs_binding (sp_reserved r) \<and> au_turn au = rs_turn (sp_reserved r))"

definition reserve_repair ::
    "hash \<Rightarrow> speech_policy \<Rightarrow> string \<Rightarrow> failure_class \<Rightarrow> spoken_plan \<Rightarrow> speech_authorization \<Rightarrow> string list \<Rightarrow> speech \<Rightarrow>
     speech \<times> repair_intent option" where
  "reserve_repair H policy original failure plan au facts s =
     (case record_of s original of None \<Rightarrow> (s, None)
      | Some r \<Rightarrow>
          if failure \<noteq> RECOVERABLE_FAILURE \<or> (rs_binding (sp_reserved r), original) \<in> sc_repairs s \<or> \<not> repair_allowed r plan au
          then (s, None)
          else case reserve H policy plan au s of (s', Inl err) \<Rightarrow> (s', None)
          | (s', Inr batch) \<Rightarrow>
              (case make_repair_intent \<lparr>rn_original = original, rn_repair = rs_act (hd batch), rn_turn = rs_turn (sp_reserved r),
                      rn_epoch = vb_epoch (rs_binding (sp_reserved r)), rn_facts = facts\<rparr> of
                 Inl err \<Rightarrow> (s', None)
               | Inr intent \<Rightarrow>
                   (s'\<lparr>sc_repairs := insert (rs_binding (sp_reserved r), original) (sc_repairs s')\<rparr>, Some intent)))"

section \<open>Runs\<close>

datatype speech_op =
    Reserve spoken_plan speech_authorization
  | Rollback "reserved_speech list"
  | Complete_Batch "reserved_speech list"
  | Retire_Batch "reserved_speech list"
  | Force_Retire_Batch "reserved_speech list"
  | Authorize string string
  | Segment string string bool
  | Bind_Tts string string
  | Bind_Playout string string
  | Observe string string
  | Reserve_Replay replay_source string replay_mode speech_authorization
  | Cancel_Act string cancellation_reason "int option"
  | Hard_Terminalize string
  | Hard_Terminalize_Binding voice_binding
  | Reserve_Repair string failure_class spoken_plan speech_authorization "string list"

text \<open>The objects a caller passes were built by their constructors.\<close>

definition built_plan :: "spoken_plan \<Rightarrow> bool" where
  "built_plan plan = (make_spoken_plan (pl_id plan) (pl_acts plan) = Inr plan \<and>
     list_all (\<lambda>a. make_semantic_act (sa_kind a) (sa_text a) (sa_slot a) (sa_private a) (sa_promise a) (sa_complete a) = Inr a) (pl_acts plan))"

definition built_authorization :: "speech_authorization \<Rightarrow> bool" where
  "built_authorization au =
     (make_speech_authorization (au_binding au) (au_turn au) (au_kinds au) (au_terminal au) (au_answered au) (au_locale au) = Inr au)"

fun built_op :: "speech_op \<Rightarrow> bool" where
  "built_op (Reserve plan au) = (built_plan plan \<and> built_authorization au)"
| "built_op (Reserve_Replay source request mode au) = built_authorization au"
| "built_op (Reserve_Repair original failure plan au facts) = (built_plan plan \<and> built_authorization au)"
| "built_op _ = True"

fun speech_step :: "hash \<Rightarrow> speech_policy \<Rightarrow> speech \<Rightarrow> speech_op \<Rightarrow> speech" where
  "speech_step H policy s (Reserve plan au) = fst (reserve H policy plan au s)"
| "speech_step H policy s (Rollback batch) = fst (rollback_reservation batch s)"
| "speech_step H policy s (Complete_Batch batch) = fst (complete_reservation batch s)"
| "speech_step H policy s (Retire_Batch batch) = fst (retire_reservation batch s)"
| "speech_step H policy s (Force_Retire_Batch batch) = fst (force_retire_reservation batch s)"
| "speech_step H policy s (Authorize i t) = fst (authorize_text policy i t s)"
| "speech_step H policy s (Segment i t final) = fst (accept_segment policy i t final s)"
| "speech_step H policy s (Bind_Tts i audio) = fst (bind_tts H i audio s)"
| "speech_step H policy s (Bind_Playout i playout) = fst (bind_playout i playout s)"
| "speech_step H policy s (Observe i playout) = fst (record_caller_playback_observed i playout s)"
| "speech_step H policy s (Reserve_Replay source request mode au) = fst (reserve_replay H source request mode au s)"
| "speech_step H policy s (Cancel_Act i reason epoch) = fst (cancel_act i reason epoch s)"
| "speech_step H policy s (Hard_Terminalize i) = fst (hard_terminalize i s)"
| "speech_step H policy s (Hard_Terminalize_Binding b) = fst (hard_terminalize_binding b s)"
| "speech_step H policy s (Reserve_Repair original failure plan au facts) = fst (reserve_repair H policy original failure plan au facts s)"

definition speech_run :: "hash \<Rightarrow> speech_policy \<Rightarrow> speech_op list \<Rightarrow> speech" where
  "speech_run H policy ops = foldl (speech_step H policy) new_speech ops"

end
