(* ===== verification/Speech_Safety.thy ===== *)
theory Speech_Safety
  imports Speech_Control
begin

text \<open>
  What holds in every run of the operations of theory Speech_Control: what a record may say at any time, that a silenced act
  stays as it was, that a slot has one open question, and that a replay repeats the last act the caller heard.
\<close>

section \<open>Records\<close>

lemma record_of_put [simp]: "record_of (put_record i r s) j = (if j = i then Some r else record_of s j)"
  by (simp add: record_of_def put_record_def update_conv)

lemma record_of_drop [simp]: "record_of (drop_record i s) j = (if j = i then None else record_of s j)"
  by (simp add: record_of_def drop_record_def delete_conv)

lemma record_of_frame [simp]:
  "record_of (s\<lparr>sc_batches := B\<rparr>) i = record_of s i" "record_of (s\<lparr>sc_slots := S\<rparr>) i = record_of s i"
  "record_of (s\<lparr>sc_repairs := P\<rparr>) i = record_of s i" "record_of (s\<lparr>sc_replays := Q\<rparr>) i = record_of s i"
  "record_of (s\<lparr>sc_counter := n\<rparr>) i = record_of s i"
  by (simp_all add: record_of_def)

lemma record_of_free [simp]: "record_of (free_slot r s) i = record_of s i"
  by (simp add: free_slot_def split: option.splits)

lemma record_of_new [simp]: "record_of new_speech i = None"
  by (simp add: record_of_def new_speech_def)

lemma counter_frame [simp]:
  "sc_counter (put_record i r s) = sc_counter s" "sc_counter (drop_record i s) = sc_counter s"
  "sc_counter (free_slot r s) = sc_counter s" "sc_counter (silence i r s) = sc_counter s"
  by (simp_all add: put_record_def drop_record_def free_slot_def silence_def split: option.splits)

lemma record_of_silence [simp]: "record_of (silence i r s) j = (if j = i then Some (r\<lparr>sp_cancelled := True\<rparr>) else record_of s j)"
  by (simp add: silence_def)

lemma record_of_reserve_act:
  "record_of (reserve_act H plan au (k, act) s) j =
     (if j = rs_act (reservation_of H plan au k act) then Some (fresh_record (reservation_of H plan au k act) act au) else record_of s j)"
  by (simp add: reserve_act_def Let_def split: option.splits)

lemma record_of_roll_back: "record_of (roll_back r s) j = (if j = rs_act (sp_reserved r) then None else record_of s j)"
  by (simp add: roll_back_def Let_def split: option.splits)

lemma reservation_act [simp]: "rs_act (reservation_of H plan au k act) = speech_act_id H (au_binding au) (au_turn au) (pl_id plan) k"
  by (simp add: reservation_of_def Let_def)

lemma counter_fold: "(\<And>x s. sc_counter (g x s) = sc_counter s) \<Longrightarrow> sc_counter (fold g xs s) = sc_counter s"
  by (induction xs arbitrary: s) simp_all

lemma counter_on_record [simp]: "sc_counter (fst (on_record i guard f s)) = sc_counter s"
  by (simp add: on_record_def split: option.splits)

lemma counter_reserve [simp]: "sc_counter (fst (reserve H policy plan au s)) = sc_counter s"
proof -
  have "sc_counter (reserve_act H plan au x s) = sc_counter s" for x s
    by (cases x) (simp add: reserve_act_def Let_def split: option.splits)
  then have "sc_counter (fold (reserve_act H plan au) xs s) = sc_counter s" for xs by (rule counter_fold)
  then show ?thesis by (simp add: reserve_def Let_def)
qed

lemma counter_roll_back [simp]: "sc_counter (fold roll_back rs s) = sc_counter s"
  by (rule counter_fold) (simp add: roll_back_def Let_def split: option.splits)

lemma counter_rollback [simp]: "sc_counter (fst (rollback_reservation batch s)) = sc_counter s"
  by (simp add: rollback_reservation_def Let_def)

lemma counter_terminalize [simp]: "sc_counter (fst (hard_terminalize i s)) = sc_counter s"
  by (simp add: hard_terminalize_def Let_def split: option.splits)

lemma counter_terminalize_binding [simp]: "sc_counter (fst (hard_terminalize_binding b s)) = sc_counter s"
  by (simp add: hard_terminalize_binding_def Let_def counter_fold)

lemma counter_drop_batch [simp]: "sc_counter (fst (drop_batch ready batch s)) = sc_counter s"
  by (simp add: drop_batch_def)

lemma counter_replay [simp]: "sc_counter (fst (reserve_replay H source request mode au s)) = sc_counter s"
  by (simp add: reserve_replay_def Let_def split: sum.splits)

lemma counter_repair [simp]: "sc_counter (fst (reserve_repair H policy original failure plan au facts s)) = sc_counter s"
proof -
  have "reserve H policy plan au s = (s', x) \<Longrightarrow> sc_counter s' = sc_counter s" for s' x
    using counter_reserve [of H policy plan au s] by simp
  then show ?thesis by (auto simp: reserve_repair_def split: option.splits sum.splits prod.splits)
qed

text \<open>What an operation may do in place to the record of the act \<open>i\<close>, with \<open>n\<close> playouts observed before it and \<open>n'\<close> after.\<close>

inductive touched :: "hash \<Rightarrow> speech_policy \<Rightarrow> speech_op \<Rightarrow> nat \<Rightarrow> nat \<Rightarrow> string \<Rightarrow> speech_record \<Rightarrow> speech_record \<Rightarrow> bool"
  for H policy op n n' i where
  kept: "touched H policy op n n' i r r"
| authorized: "\<lbrakk>\<not> sp_cancelled r; valid_text policy (rs_kind (sp_reserved r)) (rs_text (sp_reserved r))\<rbrakk> \<Longrightarrow>
     touched H policy op n n' i r (r\<lparr>sp_authorized := True\<rparr>)"
| streamed: "\<lbrakk>\<not> sp_cancelled r; sp_authorized r; rs_kind (sp_reserved r) \<notin> set UNSEGMENTED_KINDS;
     has_prefix (sp_streamed r @ t) (rs_text (sp_reserved r)); valid_text policy (rs_kind (sp_reserved r)) (sp_streamed r @ t)\<rbrakk> \<Longrightarrow>
     touched H policy op n n' i r (r\<lparr>sp_streamed := sp_streamed r @ t\<rparr>)"
| bound: "\<lbrakk>\<not> sp_cancelled r; sp_authorized r; sp_audio r = None; is_identifier audio\<rbrakk> \<Longrightarrow>
     touched H policy op n n' i r (r\<lparr>sp_audio := Some \<lparr>ab_act = i, ab_digest = H (rs_text (sp_reserved r)), ab_audio = audio,
        ab_binding = rs_binding (sp_reserved r)\<rparr>\<rparr>)"
| played: "\<lbrakk>\<not> sp_cancelled r; sp_audio r = Some a; sp_playout r = None; is_identifier playout\<rbrakk> \<Longrightarrow>
     touched H policy op n n' i r (r\<lparr>sp_playout := Some (playout_for i playout a)\<rparr>)"
| heard: "\<lbrakk>\<not> sp_cancelled r; sp_authorized r; sp_playout r \<noteq> None; sp_observed r = None; op = Observe i playout; n' = Suc n\<rbrakk> \<Longrightarrow>
     touched H policy op n n' i r (r\<lparr>sp_observed := Some n'\<rparr>)"
| silenced: "touched H policy op n n' i r (r\<lparr>sp_cancelled := True\<rparr>)"

text \<open>The records an operation makes.\<close>

fun asked_by :: "speech_op \<Rightarrow> (spoken_plan \<times> speech_authorization) option" where
  "asked_by (Reserve plan au) = Some (plan, au)"
| "asked_by (Reserve_Repair original failure plan au facts) = Some (plan, au)"
| "asked_by _ = None"

inductive made :: "hash \<Rightarrow> speech_policy \<Rightarrow> speech \<Rightarrow> speech_op \<Rightarrow> speech_record \<Rightarrow> bool" for H policy s op where
  reserved: "\<lbrakk>asked_by op = Some (plan, au); (k, act) \<in> set (enumerate 0 (pl_acts plan));
     list_all (act_reservable H policy s plan au) (enumerate 0 (pl_acts plan))\<rbrakk> \<Longrightarrow>
     made H policy s op (fresh_record (reservation_of H plan au k act) act au)"
| replayed: "\<lbrakk>op = Reserve_Replay source request mode au; latest_replay_source H (rp_binding source) s = Inr (Some source);
     replay_authorized source au; is_identifier request; (rp_binding source, request) \<notin> sc_replays s\<rbrakk> \<Longrightarrow>
     made H policy s op (replay_record source (replay_reservation source au (replay_act_id H source request (au_turn au) mode)) request mode)"

definition stepped :: "hash \<Rightarrow> speech_policy \<Rightarrow> speech \<Rightarrow> speech_op \<Rightarrow> speech \<Rightarrow> bool" where
  "stepped H policy s op s' = (sc_counter s \<le> sc_counter s' \<and> (\<forall>i r'. record_of s' i = Some r' \<longrightarrow>
     (\<exists>r. record_of s i = Some r \<and> touched H policy op (sc_counter s) (sc_counter s') i r r') \<or>
     record_of s i = None \<and> rs_act (sp_reserved r') = i \<and> made H policy s op r'))"

lemma stepped_refl: "sc_counter s' = sc_counter s \<Longrightarrow> \<forall>i. record_of s' i = record_of s i \<Longrightarrow> stepped H policy s op s'"
  by (auto simp: stepped_def intro: touched.kept)

lemma stepped_on_record:
  assumes "\<And>r. record_of s i = Some r \<Longrightarrow> guard r \<Longrightarrow> touched H policy op (sc_counter s) (sc_counter s) i r (f r)"
  shows "stepped H policy s op (fst (on_record i guard f s))"
  using assms unfolding stepped_def by (simp add: on_record_def split: option.splits) (auto split: if_splits intro: touched.kept)

lemma record_of_fold_reserve:
  "record_of (fold (reserve_act H plan au) acts s) i = Some r \<Longrightarrow>
     record_of s i = Some r \<or> (\<exists>(k, act) \<in> set acts. r = fresh_record (reservation_of H plan au k act) act au \<and> rs_act (sp_reserved r) = i)"
proof (induction acts arbitrary: s)
  case (Cons x acts)
  obtain k act where x: "x = (k, act)" by (cases x)
  from Cons.IH [of "reserve_act H plan au x s"] Cons.prems show ?case
    by (auto simp: x record_of_reserve_act fresh_record_def split: if_splits)
qed simp

lemma record_of_fold_mono:
  "record_of s i \<noteq> None \<Longrightarrow> record_of (fold (reserve_act H plan au) acts s) i \<noteq> None"
proof (induction acts arbitrary: s)
  case (Cons x acts)
  obtain k act where x: "x = (k, act)" by (cases x)
  have "record_of (reserve_act H plan au x s) i \<noteq> None" using Cons.prems by (simp add: x record_of_reserve_act)
  from Cons.IH [OF this] show ?case by simp
qed simp

lemma reserve_cases:
  obtains "reserve H policy plan au s = (s, Inl ValueError)"
  | s' batch where "reserve H policy plan au s = (s', Inr batch)"
    "list_all (act_reservable H policy s plan au) (enumerate 0 (pl_acts plan))"
    "batch = map (\<lambda>(k, act). reservation_of H plan au k act) (enumerate 0 (pl_acts plan))"
    "s' = (fold (reserve_act H plan au) (enumerate 0 (pl_acts plan)) s)
        \<lparr>sc_batches := insert (map rs_act batch) (sc_batches (fold (reserve_act H plan au) (enumerate 0 (pl_acts plan)) s))\<rparr>"
proof (cases "list_all (act_reservable H policy s plan au) (enumerate 0 (pl_acts plan))")
  case True
  then show thesis by (intro that(2) [OF _ True refl refl]) (simp add: reserve_def Let_def)
qed (rule that(1), simp add: reserve_def Let_def)

lemma reserved_id_new:
  "list_all (act_reservable H policy s plan au) acts \<Longrightarrow> (k, act) \<in> set acts \<Longrightarrow>
     record_of s (speech_act_id H (au_binding au) (au_turn au) (pl_id plan) k) = None"
  by (auto simp: list_all_iff act_reservable_def)

lemma stepped_reserve: "asked_by op = Some (plan, au) \<Longrightarrow> stepped H policy s op (fst (reserve H policy plan au s))"
proof (cases rule: reserve_cases [of H policy plan au s])
  case (2 s' batch)
  assume op: "asked_by op = Some (plan, au)"
  have n: "sc_counter (fst (reserve H policy plan au s)) = sc_counter s" by simp
  show ?thesis
    unfolding stepped_def n
  proof (intro conjI allI impI order_refl)
    fix i r'
    assume "record_of (fst (reserve H policy plan au s)) i = Some r'"
    then have "record_of (fold (reserve_act H plan au) (enumerate 0 (pl_acts plan)) s) i = Some r'" by (simp add: 2(1,4))
    from record_of_fold_reserve [OF this]
    show "(\<exists>r. record_of s i = Some r \<and> touched H policy op (sc_counter s) (sc_counter s) i r r') \<or>
       record_of s i = None \<and> rs_act (sp_reserved r') = i \<and> made H policy s op r'"
    proof
      assume "\<exists>(k, act) \<in> set (enumerate 0 (pl_acts plan)). r' = fresh_record (reservation_of H plan au k act) act au \<and> rs_act (sp_reserved r') = i"
      then obtain k act where k: "(k, act) \<in> set (enumerate 0 (pl_acts plan))"
        "r' = fresh_record (reservation_of H plan au k act) act au" "rs_act (sp_reserved r') = i" by blast
      moreover from k reserved_id_new [OF 2(2) k(1)] have "record_of s i = None" by (simp add: fresh_record_def)
      ultimately show ?thesis using made.reserved [OF op k(1) 2(2)] by blast
    qed (blast intro: touched.kept)
  qed
qed (simp add: stepped_refl)

lemma stepped_new:
  assumes "\<forall>j. record_of s' j = (if j = i then Some r else record_of s j)" "record_of s i = None" "rs_act (sp_reserved r) = i"
    "made H policy s op r" "sc_counter s' = sc_counter s"
  shows "stepped H policy s op s'"
  unfolding stepped_def assms(5)
proof (intro conjI allI impI order_refl)
  fix j r'
  assume r': "record_of s' j = Some r'"
  show "(\<exists>r. record_of s j = Some r \<and> touched H policy op (sc_counter s) (sc_counter s) j r r') \<or>
     record_of s j = None \<and> rs_act (sp_reserved r') = j \<and> made H policy s op r'"
    using r' assms by (cases "j = i") (auto intro: touched.kept)
qed

lemma stepped_replay: "stepped H policy s (Reserve_Replay source request mode au) (fst (reserve_replay H source request mode au s))"
proof -
  let ?i = "replay_act_id H source request (au_turn au) mode"
  let ?r = "replay_record source (replay_reservation source au ?i) request mode"
  have cases: "(\<forall>j. record_of (fst (reserve_replay H source request mode au s)) j = record_of s j) \<or>
     (\<forall>j. record_of (fst (reserve_replay H source request mode au s)) j = (if j = ?i then Some ?r else record_of s j)) \<and>
     record_of s ?i = None \<and> made H policy s (Reserve_Replay source request mode au) ?r"
    by (auto simp: reserve_replay_def Let_def split: sum.splits if_splits intro: made.replayed)
  have "rs_act (sp_reserved ?r) = ?i" by (simp add: replay_record_def replay_reservation_def)
  with cases show ?thesis
    by (elim disjE conjE) (rule stepped_refl, simp, blast, rule stepped_new, assumption+, simp)
qed

lemma stepped_repair:
  "stepped H policy s (Reserve_Repair original failure plan au facts) (fst (reserve_repair H policy original failure plan au facts s))"
proof -
  let ?op = "Reserve_Repair original failure plan au facts"
  have "fst (reserve_repair H policy original failure plan au facts s) = s \<or>
     (\<forall>j. record_of (fst (reserve_repair H policy original failure plan au facts s)) j = record_of (fst (reserve H policy plan au s)) j)"
    by (auto simp: reserve_repair_def split: option.splits sum.splits prod.splits)
  then show ?thesis
  proof
    assume "\<forall>j. record_of (fst (reserve_repair H policy original failure plan au facts s)) j = record_of (fst (reserve H policy plan au s)) j"
    moreover have "stepped H policy s ?op (fst (reserve H policy plan au s))" by (rule stepped_reserve) simp
    ultimately show ?thesis by (simp add: stepped_def)
  qed (simp add: stepped_refl)
qed

lemma record_of_fold_roll_back: "record_of (fold roll_back rs s) i = (if i \<in> (\<lambda>r. rs_act (sp_reserved r)) ` set rs then None else record_of s i)"
  by (induction rs arbitrary: s) (auto simp: record_of_roll_back)

lemma stepped_rollback: "stepped H policy s op (fst (rollback_reservation batch s))"
  by (auto simp: stepped_def rollback_reservation_def Let_def record_of_fold_roll_back intro: touched.kept split: if_splits)

lemma record_of_terminalize:
  "record_of (fst (hard_terminalize i s)) j =
     (if j = i then map_option (\<lambda>r. r\<lparr>sp_cancelled := True\<rparr>) (record_of s i) else record_of s j)"
  by (simp add: hard_terminalize_def Let_def split: option.splits)

lemma record_of_terminalize_all:
  "record_of (fold (\<lambda>i s. fst (hard_terminalize i s)) ids s) j =
     (if j \<in> set ids then map_option (\<lambda>r. r\<lparr>sp_cancelled := True\<rparr>) (record_of s j) else record_of s j)"
  by (induction ids arbitrary: s) (auto simp: record_of_terminalize option.map_comp o_def)

lemma record_of_terminalize_binding:
  "record_of (fst (hard_terminalize_binding b s)) j =
     (if j \<in> set (act_ids_for_binding b s) then map_option (\<lambda>r. r\<lparr>sp_cancelled := True\<rparr>) (record_of s j) else record_of s j)"
  by (simp add: hard_terminalize_binding_def Let_def record_of_terminalize_all)

lemma drop_batch_record [simp]: "record_of (fst (drop_batch ready batch s)) i = record_of s i"
  by (simp add: drop_batch_def)

text \<open>Every operation, by the records it leaves.\<close>

lemma step_records: "stepped H policy s op (speech_step H policy s op)"
proof (cases op)
  case (Reserve plan au)
  then show ?thesis using stepped_reserve [of op plan au H policy s] by simp
next
  case (Authorize i t)
  then show ?thesis by (auto simp: authorize_text_def intro!: stepped_on_record touched.authorized)
next
  case (Segment i t final)
  then show ?thesis by (auto simp: accept_segment_def intro!: stepped_on_record touched.streamed)
next
  case (Bind_Tts i audio)
  then show ?thesis by (auto simp: bind_tts_def intro!: stepped_on_record touched.bound)
next
  case (Bind_Playout i playout)
  then show ?thesis by (auto simp: bind_playout_def intro!: stepped_on_record touched.played)
next
  case (Observe i playout)
  let ?guard = "\<lambda>r. \<not> sp_cancelled r \<and> sp_authorized r \<and>
    (case sp_playout r of None \<Rightarrow> False | Some p \<Rightarrow> pb_playout p = playout) \<and> sp_observed r = None"
  show ?thesis
  proof (cases "\<exists>r. record_of s i = Some r \<and> ?guard r")
    case True
    then obtain r where r: "record_of s i = Some r" "?guard r" by blast
    have eq: "speech_step H policy s op = (put_record i (r\<lparr>sp_observed := Some (Suc (sc_counter s))\<rparr>) s)\<lparr>sc_counter := Suc (sc_counter s)\<rparr>"
      using r by (simp add: Observe record_caller_playback_observed_def on_record_def)
    have "touched H policy op (sc_counter s) (Suc (sc_counter s)) i r (r\<lparr>sp_observed := Some (Suc (sc_counter s))\<rparr>)"
      using r(2) by (intro touched.heard [of r op i playout]) (auto simp: Observe split: option.splits)
    then show ?thesis using r(1) unfolding eq stepped_def by (auto intro: touched.kept)
  next
    case False
    then have "speech_step H policy s op = s"
      by (auto simp: Observe record_caller_playback_observed_def on_record_def split: option.splits)
    then show ?thesis by (simp add: stepped_refl)
  qed
next
  case (Cancel_Act i reason epoch)
  then show ?thesis
    by (auto simp: cancel_act_def stepped_def split: option.splits if_splits intro: touched.kept touched.silenced)
next
  case (Hard_Terminalize i)
  then show ?thesis by (auto simp: stepped_def record_of_terminalize split: if_splits intro: touched.kept touched.silenced)
next
  case (Hard_Terminalize_Binding b)
  then show ?thesis by (auto simp: stepped_def record_of_terminalize_binding split: if_splits intro: touched.kept touched.silenced)
qed (simp_all add: stepped_rollback stepped_replay stepped_repair stepped_refl complete_reservation_def retire_reservation_def
    force_retire_reservation_def)

section \<open>What a record may say\<close>

definition record_sound :: "hash \<Rightarrow> speech_policy \<Rightarrow> nat \<Rightarrow> string \<Rightarrow> speech_record \<Rightarrow> bool" where
  "record_sound H policy n i r =
     (rs_act (sp_reserved r) = i \<and> valid_text policy (rs_kind (sp_reserved r)) (rs_text (sp_reserved r)) \<and>
      (\<forall>a. sp_audio r = Some a \<longrightarrow> sp_authorized r \<and> is_identifier (ab_audio a) \<and>
         ab_act a = i \<and> ab_digest a = H (rs_text (sp_reserved r)) \<and> ab_binding a = rs_binding (sp_reserved r)) \<and>
      (\<forall>p. sp_playout r = Some p \<longrightarrow> is_identifier (pb_playout p) \<and>
         pb_act p = i \<and> (\<exists>a. sp_audio r = Some a \<and> pb_digest p = ab_digest a \<and> pb_audio p = ab_audio a \<and> pb_binding p = ab_binding a)) \<and>
      (\<forall>m. sp_observed r = Some m \<longrightarrow> sp_playout r \<noteq> None \<and> 0 < m \<and> m \<le> n) \<and>
      has_prefix (sp_streamed r) (rs_text (sp_reserved r)) \<and>
      (sp_streamed r \<noteq> [] \<longrightarrow> sp_authorized r \<and> rs_kind (sp_reserved r) \<notin> set UNSEGMENTED_KINDS \<and>
         valid_text policy (rs_kind (sp_reserved r)) (sp_streamed r)))"

definition heard_once :: "speech \<Rightarrow> bool" where
  "heard_once s = (\<forall>i j r q m. record_of s i = Some r \<longrightarrow> record_of s j = Some q \<longrightarrow> sp_observed r = Some m \<longrightarrow>
     sp_observed q = Some m \<longrightarrow> i = j)"

definition speech_sound :: "hash \<Rightarrow> speech_policy \<Rightarrow> speech \<Rightarrow> bool" where
  "speech_sound H policy s =
     ((\<forall>i r. record_of s i = Some r \<longrightarrow> record_sound H policy (sc_counter s) i r) \<and> heard_once s \<and> distinct (map fst (sc_records s)))"

lemma record_sound_mono: "record_sound H policy n i r \<Longrightarrow> n \<le> n' \<Longrightarrow> record_sound H policy n' i r"
  unfolding record_sound_def by (meson order_trans)

lemma touched_sound:
  assumes t: "touched H policy op n n' i r r'" and r: "record_sound H policy n i r" and n: "n \<le> n'"
  shows "record_sound H policy n' i r'"
  using t record_sound_mono [OF r n]
proof cases
  case (played a playout)
  then show ?thesis using record_sound_mono [OF r n] by (auto simp: record_sound_def playout_for_def)
next
  case (bound audio)
  then show ?thesis using record_sound_mono [OF r n] by (auto simp: record_sound_def)
qed (auto simp: record_sound_def)

lemma valid_actD: "valid_act policy act au \<Longrightarrow> valid_text policy (sa_kind act) (sa_text act)"
  by (simp add: valid_act_def)

lemma latest_of_in: "latest_of r rs \<in> set (r # rs)"
proof (induction rs arbitrary: r)
  case (Cons x rs)
  from Cons.IH [of "if ordinal r < ordinal x then x else r"] show ?case by (simp split: if_splits) blast+
qed simp

lemma latest_of_max: "\<forall>q \<in> set (r # rs). ordinal q \<le> ordinal (latest_of r rs)"
proof (induction rs arbitrary: r)
  case (Cons x rs)
  from Cons.IH [of "if ordinal r < ordinal x then x else r"] show ?case by (auto split: if_splits)
qed simp

lemma latest_sourceE:
  assumes "latest_replay_source H b s = Inr (Some source)" and "distinct (map fst (sc_records s))"
  obtains i r where "record_of s i = Some r" "replayable b r" "source = source_of r" "make_replay_source H source = Inr source"
    "\<And>j q. record_of s j = Some q \<Longrightarrow> replayable b q \<Longrightarrow> ordinal q \<le> ordinal r"
proof -
  from assms(1) obtain x rs where x: "filter (replayable b) (map snd (sc_records s)) = x # rs"
    and m: "make_replay_source H (source_of (latest_of x rs)) = Inr source"
    by (auto simp: latest_replay_source_def ebind_eq_Inr split: list.splits)
  have mem: "latest_of x rs \<in> set (filter (replayable b) (map snd (sc_records s)))" unfolding x by (rule latest_of_in)
  then obtain i where i: "(i, latest_of x rs) \<in> set (sc_records s)" "replayable b (latest_of x rs)" by auto
  have src: "source = source_of (latest_of x rs)" using m by (simp add: make_replay_source_def split: if_splits)
  show thesis
  proof (rule that [of i "latest_of x rs"])
    show "record_of s i = Some (latest_of x rs)" using i(1) assms(2) by (simp add: record_of_def)
    show "make_replay_source H source = Inr source" using m src by simp
    fix j q
    assume "record_of s j = Some q" "replayable b q"
    then have "q \<in> set (x # rs)" unfolding x [symmetric] by (force simp: record_of_def dest: map_of_SomeD)
    then show "ordinal q \<le> ordinal (latest_of x rs)" using latest_of_max by blast
  qed (use i src in auto)
qed

lemma made_sound:
  assumes m: "made H policy s op r" and s: "speech_sound H policy s" and i: "rs_act (sp_reserved r) = i"
  shows "record_sound H policy n i r" and "sp_observed r = None"
proof -
  show "record_sound H policy n i r"
    using m
  proof cases
    case (reserved plan au k act)
    then have "valid_text policy (sa_kind act) (sa_text act)"
      by (auto simp: list_all_iff act_reservable_def dest: valid_actD)
    with i reserved(1) show ?thesis by (simp add: record_sound_def fresh_record_def reservation_of_def Let_def has_prefix_def)
  next
    case (replayed source request mode au)
    from s have "distinct (map fst (sc_records s))" by (simp add: speech_sound_def)
    from latest_sourceE [OF replayed(3) this] obtain j q where "record_of s j = Some q" "source = source_of q" by metis
    then have "valid_text policy (rp_kind source) (rp_text source)"
      using s by (auto simp: speech_sound_def record_sound_def source_of_def)
    with i replayed(1) show ?thesis by (simp add: record_sound_def replay_record_def replay_reservation_def has_prefix_def)
  qed
  show "sp_observed r = None" using m by cases (simp_all add: fresh_record_def replay_record_def)
qed

lemma touched_observed: "touched H policy op n n' i r r' \<Longrightarrow> sp_observed r' = sp_observed r \<or> sp_observed r' = Some (Suc n) \<and> n' = Suc n \<and> (\<exists>p. op = Observe i p)"
  by (cases rule: touched.cases) auto

lemma heard_once_step:
  assumes s: "speech_sound H policy s" and step: "stepped H policy s op s'"
  shows "heard_once s'"
  unfolding heard_once_def
proof (intro allI impI)
  fix i j r q m
  assume r: "record_of s' i = Some r" "sp_observed r = Some m" and q: "record_of s' j = Some q" "sp_observed q = Some m"
  have old: "(\<exists>y. record_of s k = Some y \<and> sp_observed y = Some m) \<and> m \<le> sc_counter s \<or> m = Suc (sc_counter s) \<and> (\<exists>p. op = Observe k p)"
    if "record_of s' k = Some x" "sp_observed x = Some m" for k x
  proof -
    from step that(1) consider y where "record_of s k = Some y" "touched H policy op (sc_counter s) (sc_counter s') k y x"
      | "rs_act (sp_reserved x) = k" "made H policy s op x" unfolding stepped_def by blast
    then show ?thesis
    proof cases
      case 1
      with that(2) touched_observed [OF 1(2)] s show ?thesis by (auto simp: speech_sound_def record_sound_def)
    next
      case 2
      with made_sound(2) [OF 2(2) s 2(1)] that(2) show ?thesis by simp
    qed
  qed
  from old [OF r] old [OF q] s show "i = j" by (auto simp: speech_sound_def heard_once_def)
qed

text \<open>The keys of the dictionary stay distinct.\<close>

definition distinct_keys :: "speech \<Rightarrow> bool" where
  "distinct_keys s = distinct (map fst (sc_records s))"

lemma keyed_frame [simp]:
  "distinct_keys (s\<lparr>sc_batches := B\<rparr>) = distinct_keys s" "distinct_keys (s\<lparr>sc_slots := S\<rparr>) = distinct_keys s" "distinct_keys (s\<lparr>sc_repairs := P\<rparr>) = distinct_keys s"
  "distinct_keys (s\<lparr>sc_replays := Q\<rparr>) = distinct_keys s" "distinct_keys (s\<lparr>sc_counter := n\<rparr>) = distinct_keys s"
  by (simp_all add: distinct_keys_def)

lemma keyed_intros [simp]:
  "distinct_keys s \<Longrightarrow> distinct_keys (put_record i r s)" "distinct_keys s \<Longrightarrow> distinct_keys (drop_record i s)" "distinct_keys s \<Longrightarrow> distinct_keys (free_slot r s)"
  "distinct_keys s \<Longrightarrow> distinct_keys (silence i r s)"
  by (simp_all add: distinct_keys_def put_record_def drop_record_def free_slot_def silence_def distinct_update distinct_delete split: option.splits)

lemma keyed_fold: "(\<And>x s. distinct_keys s \<Longrightarrow> distinct_keys (g x s)) \<Longrightarrow> distinct_keys s \<Longrightarrow> distinct_keys (fold g xs s)"
  by (induction xs arbitrary: s) simp_all

lemma keyed_on_record: "distinct_keys s \<Longrightarrow> distinct_keys (fst (on_record i guard f s))"
  by (simp add: on_record_def split: option.splits)

lemma keyed_reserve: "distinct_keys s \<Longrightarrow> distinct_keys (fst (reserve H policy plan au s))"
proof -
  have "distinct_keys s \<Longrightarrow> distinct_keys (reserve_act H plan au x s)" for x s
    by (cases x) (simp add: reserve_act_def Let_def split: option.splits)
  then have "distinct_keys s \<Longrightarrow> distinct_keys (fold (reserve_act H plan au) xs s)" for xs by (rule keyed_fold)
  then show "distinct_keys s \<Longrightarrow> distinct_keys (fst (reserve H policy plan au s))" by (simp add: reserve_def Let_def)
qed

lemma keyed_repair: "distinct_keys s \<Longrightarrow> distinct_keys (fst (reserve_repair H policy original failure plan au facts s))"
proof -
  assume "distinct_keys s"
  then have "reserve H policy plan au s = (s', x) \<Longrightarrow> distinct_keys s'" for s' x
    using keyed_reserve [of s H policy plan au] by simp
  with \<open>distinct_keys s\<close> show ?thesis by (auto simp: reserve_repair_def split: option.splits sum.splits prod.splits)
qed

lemma keyed_rollback: "distinct_keys s \<Longrightarrow> distinct_keys (fst (rollback_reservation batch s))"
proof -
  have "distinct_keys s \<Longrightarrow> distinct_keys (roll_back r s)" for r s by (simp add: roll_back_def Let_def split: option.splits)
  then have "distinct_keys s \<Longrightarrow> distinct_keys (fold roll_back rs s)" for rs by (rule keyed_fold)
  then show "distinct_keys s \<Longrightarrow> distinct_keys (fst (rollback_reservation batch s))" by (simp add: rollback_reservation_def Let_def)
qed

lemma keyed_terminalize: "distinct_keys s \<Longrightarrow> distinct_keys (fst (hard_terminalize i s))"
  by (simp add: hard_terminalize_def Let_def split: option.splits)

lemma keyed_drop_batch: "distinct_keys s \<Longrightarrow> distinct_keys (fst (drop_batch ready batch s))"
  by (simp add: drop_batch_def)

lemma keyed_observed: "distinct_keys s \<Longrightarrow> distinct_keys (fst (record_caller_playback_observed i playout s))"
  by (simp add: record_caller_playback_observed_def case_prod_beta keyed_on_record)

lemma keyed_replay: "distinct_keys s \<Longrightarrow> distinct_keys (fst (reserve_replay H source request mode au s))"
  by (simp add: reserve_replay_def Let_def split: sum.split)

lemma keyed_cancel: "distinct_keys s \<Longrightarrow> distinct_keys (fst (cancel_act i reason epoch s))"
  by (simp add: cancel_act_def split: option.split)

lemma keyed_terminalize_binding: "distinct_keys s \<Longrightarrow> distinct_keys (fst (hard_terminalize_binding b s))"
  by (simp add: hard_terminalize_binding_def Let_def keyed_fold keyed_terminalize)

lemma keyed_step: "distinct_keys s \<Longrightarrow> distinct_keys (speech_step H policy s op)"
  by (cases op) (simp_all add: keyed_reserve keyed_repair keyed_rollback keyed_terminalize keyed_on_record keyed_drop_batch
    keyed_observed keyed_replay keyed_cancel keyed_terminalize_binding complete_reservation_def
    retire_reservation_def force_retire_reservation_def authorize_text_def accept_segment_def bind_tts_def bind_playout_def)

lemma sound_step: "speech_sound H policy s \<Longrightarrow> speech_sound H policy (speech_step H policy s op)"
proof -
  assume s: "speech_sound H policy s"
  have step: "stepped H policy s op (speech_step H policy s op)" by (rule step_records)
  have "record_sound H policy (sc_counter (speech_step H policy s op)) i r'" if r': "record_of (speech_step H policy s op) i = Some r'" for i r'
  proof -
    have n: "sc_counter s \<le> sc_counter (speech_step H policy s op)" using step by (simp add: stepped_def)
    from step r' consider r where "record_of s i = Some r"
        "touched H policy op (sc_counter s) (sc_counter (speech_step H policy s op)) i r r'"
      | "rs_act (sp_reserved r') = i" "made H policy s op r'" unfolding stepped_def by blast
    then show ?thesis
    proof cases
      case 1
      with s have "record_sound H policy (sc_counter s) i r" by (simp add: speech_sound_def)
      from touched_sound [OF 1(2) this n] show ?thesis .
    next
      case 2
      from made_sound(1) [OF 2(2) s 2(1)] show ?thesis .
    qed
  qed
  moreover have "distinct_keys (speech_step H policy s op)" using s keyed_step by (simp add: speech_sound_def distinct_keys_def)
  ultimately show ?thesis using heard_once_step [OF s step] by (simp add: speech_sound_def distinct_keys_def)
qed

interpretation sound_run: fence "speech_step H policy" "\<lambda>_::unit. speech_sound H policy" "\<lambda>_ _. False" for H policy
  by unfold_locales (rule sound_step)

lemma run_sound: "speech_sound H policy (speech_run H policy ops)"
proof -
  have "speech_sound H policy new_speech" by (simp add: speech_sound_def heard_once_def) (simp add: new_speech_def)
  from sound_run.run_kept [OF this, of ops] show ?thesis by (simp add: speech_run_def)
qed

text \<open>A call in which one answer is spoken and heard.\<close>

definition demo_hash :: hash where
  "demo_hash t = replicate 64 (if contains ''plan_id'' t then CHR ''a'' else CHR ''b'')"

definition demo_binding :: voice_binding where
  "demo_binding = \<lparr>vb_environment = ''e'', vb_contractor = ''c'', vb_call = ''k'', vb_stream = ''s'', vb_epoch = 1\<rparr>"

definition demo_policy :: speech_policy where
  "demo_policy = \<lparr>po_normal = 5, po_safety = 5, po_required = [''911''], po_terminal = [''bye''], po_localized = []\<rparr>"

definition demo_act :: "act_kind \<Rightarrow> string \<Rightarrow> string option \<Rightarrow> semantic_act" where
  "demo_act kind t slot = \<lparr>sa_kind = kind, sa_text = t, sa_slot = slot, sa_private = False, sa_promise = False, sa_complete = True\<rparr>"

definition demo_authorization :: "string \<Rightarrow> act_kind list \<Rightarrow> speech_authorization" where
  "demo_authorization turn kinds = \<lparr>au_binding = demo_binding, au_turn = turn, au_kinds = kinds, au_terminal = False, au_answered = [], au_locale = ''en''\<rparr>"

definition demo_answer :: spoken_plan where
  "demo_answer = \<lparr>pl_id = ''p'', pl_acts = [demo_act ANSWER ''Yes'' None]\<rparr>"

definition demo_id :: string where
  "demo_id = speech_act_id demo_hash demo_binding ''t'' ''p'' 0"

definition demo_heard :: "speech_op list" where
  "demo_heard = [Reserve demo_answer (demo_authorization ''t'' [ANSWER]), Authorize demo_id ''Yes'', Bind_Tts demo_id ''a'',
     Bind_Playout demo_id ''o'', Observe demo_id ''o'']"

definition demo_record :: speech_record where
  "demo_record = \<lparr>sp_reserved = \<lparr>rs_act = demo_id, rs_reservation = None, rs_kind = ANSWER, rs_text = ''Yes'', rs_binding = demo_binding,
      rs_turn = ''t''\<rparr>, sp_slot = None, sp_owns_slot = False, sp_locale = ''en'', sp_authorized = True, sp_cancelled = False,
     sp_audio = Some \<lparr>ab_act = demo_id, ab_digest = demo_hash ''Yes'', ab_audio = ''a'', ab_binding = demo_binding\<rparr>,
     sp_playout = Some \<lparr>pb_act = demo_id, pb_digest = demo_hash ''Yes'', pb_audio = ''a'', pb_playout = ''o'', pb_binding = demo_binding\<rparr>,
     sp_streamed = [], sp_observed = Some 1, sp_replay_mode = None, sp_replay_source = None, sp_replay_request = None\<rparr>"

lemma yes_valid: "valid_text demo_policy ANSWER ''Yes''"
  by (simp add: valid_text_def demo_policy_def word_count_def py_strip_def py_space_def TERMINAL_KINDS_def casefold_def casefold_char_def
      has_prefix_def Let_def)

lemma demo_state: "speech_run demo_hash demo_policy demo_heard =
    \<lparr>sc_records = [(demo_id, demo_record)], sc_batches = {[demo_id]}, sc_slots = {}, sc_repairs = {}, sc_replays = {}, sc_counter = 1\<rparr>"
  by (simp add: speech_run_def demo_heard_def reserve_def demo_answer_def demo_act_def demo_authorization_def act_reservable_def
      valid_act_def yes_valid TERMINAL_KINDS_def record_of_def new_speech_def reserve_act_def reservation_of_def demo_id_def [symmetric]
      fresh_record_def put_record_def authorize_text_def on_record_def bind_tts_def bind_playout_def is_identifier_def identifier_char_def
      playout_for_def record_caller_playback_observed_def demo_record_def Let_def)

text \<open>
  C12: Nothing is said without authority. In every run, whatever calls are made in whatever order with whatever arguments, the
  record of an act has a text that the policy allows for its kind. Audio is bound only to an authorised act and carries its
  own identifier, binding and the digest of exactly its text; a playout only to the audio of the same act, with the same
  digest; an observed playback presupposes a playout and its number is no other act's. What was handed to synthesis in
  segments is a beginning of the text, itself allowed by the policy, and never of a closing, an opt-out, a voicemail, a
  question or a safety act, which are spoken as a whole.
\<close>

theorem speech_records_sound:
  assumes "s = speech_run H policy ops" and "record_of s i = Some r"
  shows "rs_act (sp_reserved r) = i \<and> valid_text policy (rs_kind (sp_reserved r)) (rs_text (sp_reserved r)) \<and>
    (\<forall>a. audio_of s i = Some a \<longrightarrow> sp_authorized r \<and>
       ab_act a = i \<and> ab_digest a = H (rs_text (sp_reserved r)) \<and> ab_binding a = rs_binding (sp_reserved r)) \<and>
    (\<forall>p. playout_of s i = Some p \<longrightarrow> sp_authorized r \<and> (\<exists>a. audio_of s i = Some a \<and> pb_audio p = ab_audio a) \<and>
       pb_act p = i \<and> pb_digest p = H (rs_text (sp_reserved r)) \<and> pb_binding p = rs_binding (sp_reserved r)) \<and>
    (\<forall>m. sp_observed r = Some m \<longrightarrow> playout_of s i \<noteq> None \<and>
       (\<forall>j q. record_of s j = Some q \<and> sp_observed q = Some m \<longrightarrow> j = i)) \<and>
    has_prefix (sp_streamed r) (rs_text (sp_reserved r)) \<and>
    (sp_streamed r \<noteq> [] \<longrightarrow> sp_authorized r \<and> rs_kind (sp_reserved r) \<notin> set UNSEGMENTED_KINDS \<and>
       valid_text policy (rs_kind (sp_reserved r)) (sp_streamed r))"
proof -
  have s: "speech_sound H policy s" unfolding assms(1) by (rule run_sound)
  with assms(2) have r: "record_sound H policy (sc_counter s) i r" and once: "heard_once s" by (simp_all add: speech_sound_def)
  have other: "sp_observed r = Some m \<Longrightarrow> record_of s j = Some q \<Longrightarrow> sp_observed q = Some m \<Longrightarrow> j = i" for m j q
    using once assms(2) unfolding heard_once_def by blast
  have audio: "audio_of s i = sp_audio r" and playout: "playout_of s i = sp_playout r"
    using assms(2) by (simp_all add: audio_of_def playout_of_def)
  show ?thesis
    unfolding audio playout using r [unfolded record_sound_def] other by fastforce
qed

theorem speech_records_sound_witness:
  "valid_text demo_policy ANSWER ''Yes'' \<and>
   (\<exists>p. playout_of (speech_run demo_hash demo_policy demo_heard) demo_id = Some p \<and> pb_digest p = demo_hash ''Yes'')"
proof -
  have r: "record_of (speech_run demo_hash demo_policy demo_heard) demo_id = Some demo_record" by (simp add: demo_state record_of_def)
  have "playout_of (speech_run demo_hash demo_policy demo_heard) demo_id = sp_playout demo_record" by (simp add: playout_of_def r)
  with speech_records_sound [OF refl r] show ?thesis by (simp add: demo_record_def)
qed


section \<open>Silence is final\<close>

lemma touched_cancelled: "touched H policy op n n' i r r' \<Longrightarrow> sp_cancelled r \<Longrightarrow> r' = r"
  by (cases rule: touched.cases) auto

lemma record_survives_on: "record_of s i \<noteq> None \<Longrightarrow> record_of (fst (on_record j guard f s)) i \<noteq> None"
  by (simp add: on_record_def split: option.split)

lemma record_survives_reserve: "record_of s i \<noteq> None \<Longrightarrow> record_of (fst (reserve H policy plan au s)) i \<noteq> None"
  using record_of_fold_mono by (simp add: reserve_def Let_def)

lemma record_survives_repair:
  "record_of s i \<noteq> None \<Longrightarrow> record_of (fst (reserve_repair H policy original failure plan au facts s)) i \<noteq> None"
proof -
  assume s: "record_of s i \<noteq> None"
  then have "reserve H policy plan au s = (s', x) \<Longrightarrow> record_of s' i \<noteq> None" for s' x
    using record_survives_reserve [of s i H policy plan au] by simp
  with s show ?thesis by (auto simp: reserve_repair_def split: option.splits sum.splits prod.splits)
qed

lemma cancelled_survives_rollback:
  "record_of s i = Some r \<Longrightarrow> sp_cancelled r \<Longrightarrow> record_of (fst (rollback_reservation batch s)) i \<noteq> None"
proof (cases "tracks_reservation_batch batch s \<and> list_all (pristine s) batch")
  case True
  assume r: "record_of s i = Some r" "sp_cancelled r"
  have "rs_act (sp_reserved y) \<noteq> i" if "y \<in> set (List.map_filter (\<lambda>item. record_of s (rs_act item)) batch)" for y
  proof -
    from that obtain item where "item \<in> set batch" "record_of s (rs_act item) = Some y" by (auto simp: map_filter_def)
    moreover from this True have "sp_reserved y = item" "\<not> sp_cancelled y" by (auto simp: list_all_iff pristine_def)
    ultimately show ?thesis using r by auto
  qed
  then show ?thesis using True r by (auto simp: rollback_reservation_def Let_def record_of_fold_roll_back)
qed (auto simp: rollback_reservation_def)

lemma record_survives_terminalize: "record_of s i \<noteq> None \<Longrightarrow> record_of (fst (hard_terminalize j s)) i \<noteq> None"
  by (auto simp: record_of_terminalize)

lemma record_survives_replay: "record_of s i \<noteq> None \<Longrightarrow> record_of (fst (reserve_replay H source request mode au s)) i \<noteq> None"
  by (simp add: reserve_replay_def Let_def split: sum.split)

lemma record_survives_cancel: "record_of s i \<noteq> None \<Longrightarrow> record_of (fst (cancel_act j reason epoch s)) i \<noteq> None"
  by (simp add: cancel_act_def split: option.split)

lemma record_survives_observed: "record_of s i \<noteq> None \<Longrightarrow> record_of (fst (record_caller_playback_observed j playout s)) i \<noteq> None"
  using record_survives_on [of s i] by (simp add: record_caller_playback_observed_def case_prod_beta)

lemma silenced_step:
  assumes r: "record_of s i = Some r" "sp_cancelled r"
  shows "record_of (speech_step H policy s op) i = Some r"
proof -
  have "record_of (speech_step H policy s op) i \<noteq> None"
    using r by (cases op) (simp_all add: record_survives_on record_survives_reserve record_survives_repair record_survives_replay
      record_survives_cancel record_survives_observed cancelled_survives_rollback record_survives_terminalize record_of_terminalize_binding
      complete_reservation_def retire_reservation_def force_retire_reservation_def authorize_text_def accept_segment_def
      bind_tts_def bind_playout_def)
  then obtain r' where r': "record_of (speech_step H policy s op) i = Some r'" by blast
  with step_records [of H policy s op] r(1) have "touched H policy op (sc_counter s) (sc_counter (speech_step H policy s op)) i r r'"
    unfolding stepped_def by force
  from touched_cancelled [OF this r(2)] r' show ?thesis by simp
qed

interpretation silence_run: fence "speech_step H policy" "\<lambda>(i, r) s. record_of s i = Some r \<and> sp_cancelled r" "\<lambda>_ _. False"
  for H policy
  by unfold_locales (auto simp: silenced_step)

lemma on_record_refused: "record_of s i = Some r \<Longrightarrow> \<not> guard r \<Longrightarrow> on_record i guard f s = (s, False)"
  by (simp add: on_record_def)

text \<open>
  C10: Silence is final. Once an act is cancelled or sealed, no later call of any kind changes its record: it is never live
  again, its text is not given out, nothing more of it is authorised, streamed, synthesised, played or counted as heard, and
  no replay is taken from it.
\<close>

theorem silenced_speech_is_final:
  assumes "record_of (speech_run H policy ops) i = Some r" and "sp_cancelled r" and "s = speech_run H policy (ops @ later)"
  shows "record_of s i = Some r \<and> \<not> is_live s i \<and> is_cancelled s i \<and> authorized_text_digest H s i = None \<and>
    authorize_text policy i t s = (s, False) \<and> accept_segment policy i t final s = (s, False) \<and> bind_tts H i t s = (s, False) \<and>
    bind_playout i t s = (s, False) \<and> record_caller_playback_observed i t s = (s, False) \<and>
    (\<forall>b source. latest_replay_source H b s = Inr (Some source) \<longrightarrow> rp_act source \<noteq> i)"
proof -
  have r: "record_of s i = Some r"
    using silence_run.run_kept [of "(i, r)" "speech_run H policy ops" later] assms by (simp add: speech_run_def)
  have sound: "speech_sound H policy s" unfolding assms(3) by (rule run_sound)
  have "rp_act source \<noteq> i" if latest: "latest_replay_source H b s = Inr (Some source)" for b source
  proof -
    from sound have "distinct (map fst (sc_records s))" by (simp add: speech_sound_def)
    from latest_sourceE [OF latest this] obtain j q where q: "record_of s j = Some q" "replayable b q" "source = source_of q" by metis
    with sound have "rp_act source = j" by (auto simp: speech_sound_def record_sound_def source_of_def)
    with q r assms(2) show ?thesis by (auto simp: replayable_def)
  qed
  with r assms(2) show ?thesis
    by (simp add: is_live_def is_cancelled_def authorized_text_digest_def authorize_text_def accept_segment_def bind_tts_def
      bind_playout_def record_caller_playback_observed_def on_record_refused)
qed

theorem silenced_speech_is_final_witness:
  "\<not> is_live (speech_run demo_hash demo_policy ((demo_heard @ [Cancel_Act demo_id INTERRUPTION None]) @ [Bind_Playout demo_id ''o'']))
     demo_id"
proof -
  have "record_of (speech_run demo_hash demo_policy (demo_heard @ [Cancel_Act demo_id INTERRUPTION None])) demo_id =
      Some (demo_record\<lparr>sp_cancelled := True\<rparr>)"
    using demo_state
    by (simp add: speech_run_def cancel_act_def record_of_def may_cancel_def silence_def free_slot_def put_record_def demo_record_def)
  from silenced_speech_is_final [OF this _ refl] show ?thesis by simp
qed


section \<open>Replays\<close>

definition hex_digests :: "hash \<Rightarrow> bool" where
  "hex_digests H = (\<forall>t. sha_hex (H t))"

text \<open>What the constructors of the arguments guarantee of a record.\<close>

definition record_formed :: "speech_record \<Rightarrow> bool" where
  "record_formed r =
     (is_identifier (rs_act (sp_reserved r)) \<and> is_identifier (rs_turn (sp_reserved r)) \<and> is_locale (sp_locale r) \<and>
      (case sp_slot r of None \<Rightarrow> rs_kind (sp_reserved r) \<noteq> QUESTION \<and> \<not> sp_owns_slot r
       | Some q \<Rightarrow> rs_kind (sp_reserved r) = QUESTION \<and> is_identifier q))"

definition speech_formed :: "speech \<Rightarrow> bool" where
  "speech_formed s = (\<forall>i r. record_of s i = Some r \<longrightarrow> record_formed r)"

lemma hashed_identifier: "hex_digests H \<Longrightarrow> is_identifier (''act_'' @ H t)"
proof -
  assume "hex_digests H"
  then have h: "length (H t) = 64" "set (H t) \<subseteq> set ''0123456789abcdef''" by (simp_all add: hex_digests_def sha_hex_def)
  have "list_all identifier_char ''0123456789abcdef''" by (simp add: identifier_char_def Let_def)
  with h(2) have "list_all identifier_char (H t)" by (auto simp: list_all_iff)
  with h(1) show ?thesis by (simp add: is_identifier_def identifier_char_def Let_def)
qed

lemma act_identifiers:
  "hex_digests H \<Longrightarrow> is_identifier (speech_act_id H b turn plan k)"
  "hex_digests H \<Longrightarrow> is_identifier (replay_act_id H source request turn mode)"
  unfolding speech_act_id_def replay_act_id_def by (rule hashed_identifier, assumption)+

lemma touched_formed: "touched H policy op n n' i r r' \<Longrightarrow> record_formed r \<Longrightarrow> record_formed r'"
  by (cases rule: touched.cases) (auto simp: record_formed_def split: option.splits)

lemma built_act: "built_plan plan \<Longrightarrow> act \<in> set (pl_acts plan) \<Longrightarrow>
    (case sa_slot act of None \<Rightarrow> sa_kind act \<noteq> QUESTION | Some q \<Rightarrow> sa_kind act = QUESTION \<and> is_identifier q)"
  by (auto simp: built_plan_def list_all_iff make_semantic_act_def split: if_splits option.splits dest!: bspec)

lemma built_authorizationD: "built_authorization au \<Longrightarrow> is_identifier (au_turn au) \<and> is_locale (au_locale au)"
  by (simp add: built_authorization_def make_speech_authorization_def split: if_splits)

lemma asked_built: "built_op op \<Longrightarrow> asked_by op = Some (plan, au) \<Longrightarrow> built_plan plan \<and> built_authorization au"
  by (cases op) simp_all

lemma made_formed:
  assumes m: "made H policy s op r" and H: "hex_digests H" and op: "built_op op" and s: "speech_sound H policy s"
  shows "record_formed r"
  using m
proof cases
  case (reserved plan au k act)
  from asked_built [OF op reserved(2)] have b: "built_plan plan" "built_authorization au" by simp_all
  have "act \<in> set (pl_acts plan)" using reserved(3) by (auto simp: in_set_enumerate_eq)
  from built_act [OF b(1) this] built_authorizationD [OF b(2)] show ?thesis
    unfolding reserved(1)
    by (auto simp: record_formed_def fresh_record_def reservation_of_def Let_def act_identifiers [OF H] split: option.splits)
next
  case (replayed source request mode au)
  from s have "distinct (map fst (sc_records s))" by (simp add: speech_sound_def)
  from latest_sourceE [OF replayed(3) this] have "make_replay_source H source = Inr source" by metis
  moreover from op replayed(2) have "built_authorization au" by simp
  ultimately show ?thesis
    unfolding replayed(1) using built_authorizationD [of au]
    by (auto simp: record_formed_def replay_record_def replay_reservation_def act_identifiers [OF H]
        make_replay_source_def split: option.splits if_splits)
qed

lemma formed_step:
  assumes "hex_digests H" "built_op op" "speech_sound H policy s" "speech_formed s"
  shows "speech_formed (speech_step H policy s op)"
  unfolding speech_formed_def
proof (intro allI impI)
  fix i r'
  assume "record_of (speech_step H policy s op) i = Some r'"
  with step_records [of H policy s op] consider r where "record_of s i = Some r"
      "touched H policy op (sc_counter s) (sc_counter (speech_step H policy s op)) i r r'"
    | "made H policy s op r'" unfolding stepped_def by blast
  then show "record_formed r'"
  proof cases
    case 1
    with assms(4) touched_formed show ?thesis unfolding speech_formed_def by blast
  next
    case 2
    from made_formed [OF 2 assms(1-3)] show ?thesis .
  qed
qed

interpretation formed_run: fence "speech_step H policy" "\<lambda>_::unit. \<lambda>s. hex_digests H \<longrightarrow> speech_sound H policy s \<and> speech_formed s"
    "\<lambda>_ op. \<not> built_op op" for H policy
  by unfold_locales (auto simp: sound_step formed_step)

lemma run_formed: "hex_digests H \<Longrightarrow> list_all built_op ops \<Longrightarrow> speech_formed (speech_run H policy ops)"
proof -
  assume H: "hex_digests H" and ops: "list_all built_op ops"
  have "speech_formed new_speech" by (simp add: speech_formed_def)
  moreover have "speech_sound H policy new_speech" using run_sound [of H policy "[]"] by (simp add: speech_run_def)
  ultimately show ?thesis
    using formed_run.run_kept [of H policy new_speech ops] H ops by (simp add: speech_run_def list_all_iff)
qed

text \<open>The latest source never fails to be built.\<close>

lemma latest_source_total:
  assumes "hex_digests H" "speech_sound H policy s" "speech_formed s"
  shows "\<exists>latest. latest_replay_source H b s = Inr latest"
proof (cases "filter (replayable b) (map snd (sc_records s))")
  case (Cons x rs)
  let ?r = "latest_of x rs"
  have "?r \<in> set (filter (replayable b) (map snd (sc_records s)))" unfolding Cons by (rule latest_of_in)
  then obtain i where i: "(i, ?r) \<in> set (sc_records s)" "replayable b ?r" by auto
  with assms(2) have r: "record_of s i = Some ?r" by (simp add: record_of_def speech_sound_def)
  with assms have ok: "record_sound H policy (sc_counter s) i ?r" "record_formed ?r" by (simp_all add: speech_sound_def speech_formed_def)
  from i(2) obtain p where p: "sp_playout ?r = Some p" by (auto simp: replayable_def)
  with ok(1) have digest: "pb_digest p = H (rs_text (sp_reserved ?r))" "rs_text (sp_reserved ?r) \<noteq> []"
    by (auto simp: record_sound_def valid_text_def)
  have "sha_hex (H (rs_text (sp_reserved ?r)))" using assms(1) by (simp add: hex_digests_def)
  with ok(2) i(2) p digest have "make_replay_source H (source_of ?r) = Inr (source_of ?r)"
    by (auto simp: make_replay_source_def source_of_def record_formed_def replayable_def split: option.splits)
  with Cons show ?thesis by (simp add: latest_replay_source_def)
qed (simp add: latest_replay_source_def)

lemma replay_reservation_act [simp]: "rs_act (replay_reservation source au i) = i"
  by (simp add: replay_reservation_def)

lemma reserve_replay_accepted:
  assumes "reserve_replay H source request mode au s = (s', Inr (e # es))"
  shows "es = []" "latest_replay_source H (rp_binding source) s = Inr (Some source)" "replay_authorized source au"
    "e = replay_reservation source au (replay_act_id H source request (au_turn au) mode)" "record_of s (rs_act e) = None"
    "record_of s' j = (if j = rs_act e then Some (replay_record source e request mode) else record_of s j)"
    "(rp_binding source, request) \<in> sc_replays s'"
  using assms by (auto simp: reserve_replay_def Let_def split: if_splits sum.splits)

lemma replay_used: "(rp_binding source, request) \<in> sc_replays s \<Longrightarrow> is_identifier request \<Longrightarrow>
    latest_replay_source H (rp_binding source) s = Inr latest \<Longrightarrow> reserve_replay H source request mode au s = (s, Inr [])"
  by (simp add: reserve_replay_def Let_def)

text \<open>
  C39: A replay repeats the last thing the caller heard. With a well-formed request the call never raises. When it reserves
  something, that is one fresh act with the very text, kind and binding of the source, in another turn, not yet authorised;
  the source is live and was heard after every other act of that binding that could be repeated; no other record changes,
  the provenance of the new act names the source and the digest of its text, and the same request cannot be used again.
\<close>

theorem replay_repeats_last_heard:
  assumes "hex_digests H" and "list_all built_op ops" and "s = speech_run H policy ops"
    and "is_identifier request" and "built_authorization au" and "reserve_replay H source request mode au s = (s', out)"
  shows "\<exists>batch. out = Inr batch \<and> (batch \<noteq> [] \<longrightarrow> (\<exists>e r. batch = [e] \<and> record_of s (rp_act source) = Some r \<and>
      is_live s (rp_act source) \<and> rs_text e = rs_text (sp_reserved r) \<and> rs_kind e = rs_kind (sp_reserved r) \<and>
      rs_kind e \<notin> set NON_REPLAYABLE_KINDS \<and> rs_binding e = rs_binding (sp_reserved r) \<and> rs_turn e \<noteq> rs_turn (sp_reserved r) \<and>
      (\<forall>j q. record_of s j = Some q \<and> replayable (rs_binding e) q \<and> j \<noteq> rp_act source \<longrightarrow> ordinal q < ordinal r) \<and>
      record_of s (rs_act e) = None \<and> \<not> is_live s' (rs_act e) \<and> (\<forall>j. j \<noteq> rs_act e \<longrightarrow> record_of s' j = record_of s j) \<and>
      replay_provenance H s' (rs_act e) = Inr (Some \<lparr>rb_act = rs_act e, rb_source = rp_act source, rb_request = request, rb_mode = mode,
        rb_digest = H (rs_text (sp_reserved r)), rb_binding = rs_binding e\<rparr>) \<and>
      (\<forall>source2 mode2 au2. rp_binding source2 = rp_binding source \<longrightarrow> reserve_replay H source2 request mode2 au2 s' = (s', Inr []))))"
proof -
  have sound: "speech_sound H policy s" and formed: "speech_formed s"
    unfolding assms(3) using run_sound run_formed [OF assms(1,2)] by blast+
  from latest_source_total [OF assms(1) sound formed] obtain latest where "latest_replay_source H (rp_binding source) s = Inr latest" by blast
  then obtain batch where out: "out = Inr batch"
    using assms(4,6) by (auto simp: reserve_replay_def Let_def split: sum.splits if_splits)
  show ?thesis
  proof (cases batch)
    case Nil
    with out show ?thesis by simp
  next
    case (Cons e es)
    with assms(6) out have acc: "reserve_replay H source request mode au s = (s', Inr (e # es))" by simp
    note a = reserve_replay_accepted [OF acc]
    from sound have keys: "distinct (map fst (sc_records s))" by (simp add: speech_sound_def)
    from latest_sourceE [OF a(2) keys] obtain i r where r: "record_of s i = Some r" "replayable (rp_binding source) r"
      "source = source_of r" "make_replay_source H source = Inr source"
      and max: "\<And>j q. record_of s j = Some q \<Longrightarrow> replayable (rp_binding source) q \<Longrightarrow> ordinal q \<le> ordinal r" by blast
    have i: "i = rp_act source" using sound r(1,3) by (auto simp: speech_sound_def record_sound_def source_of_def)
    have later: "ordinal q < ordinal r" if q: "record_of s j = Some q" "replayable (rp_binding source) q" "j \<noteq> i" for j q
    proof -
      have "ordinal q \<noteq> ordinal r"
        using q r(1,2) sound unfolding speech_sound_def heard_once_def replayable_def ordinal_def by fastforce
      with max [OF q(1,2)] show ?thesis by simp
    qed
    let ?s = "speech_step H policy s (Reserve_Replay source request mode au)"
    have step: "?s = s'" using acc by simp
    have "speech_sound H policy s'" "speech_formed s'"
      using sound_step [OF sound, of "Reserve_Replay source request mode au"] step
        formed_step [OF assms(1) _ sound formed, of "Reserve_Replay source request mode au"] assms(5) by simp_all
    from latest_source_total [OF assms(1) this] have again: "\<exists>latest. latest_replay_source H b s' = Inr latest" for b .
    have e: "rs_text e = rs_text (sp_reserved r)" "rs_kind e = rs_kind (sp_reserved r)" "rs_binding e = rs_binding (sp_reserved r)"
      "rs_turn e \<noteq> rs_turn (sp_reserved r)" "rp_binding source = rs_binding e"
      using a(3,4) r(3) by (simp_all add: replay_reservation_def source_of_def replay_authorized_def)
    have "is_identifier (rs_act e)" using a(4) act_identifiers(2) [OF assms(1)] by (simp add: replay_reservation_def)
    then have prov: "replay_provenance H s' (rs_act e) = Inr (Some \<lparr>rb_act = rs_act e, rb_source = rp_act source, rb_request = request,
        rb_mode = mode, rb_digest = H (rs_text (sp_reserved r)), rb_binding = rs_binding e\<rparr>)"
      using a(6) [of "rs_act e"] assms(1,4) r(4) e
      by (simp add: replay_provenance_def replay_record_def make_replay_binding_def hex_digests_def make_replay_source_def split: if_splits)
    have live: "is_live s (rp_act source)" "rs_kind e \<notin> set NON_REPLAYABLE_KINDS"
      using r(1,2) e(2) by (simp_all add: is_live_def i replayable_def)
    have used: "reserve_replay H source2 request mode2 au2 s' = (s', Inr [])" if "rp_binding source2 = rp_binding source" for source2 mode2 au2
      using replay_used [of source2 request s' H _ mode2 au2] a(7) that assms(4) again by metis
    have "\<not> is_live s' (rs_act e)" using a(6) [of "rs_act e"] by (simp add: is_live_def replay_record_def)
    with r(1) i live e later prov used a(5,6) a(1) Cons out show ?thesis by auto
  qed
qed

lemma demo_latest: "latest_replay_source demo_hash demo_binding (speech_run demo_hash demo_policy demo_heard) =
   Inr (Some \<lparr>rp_act = demo_id, rp_kind = ANSWER, rp_text = ''Yes'', rp_digest = demo_hash ''Yes'', rp_binding = demo_binding, rp_turn = ''t'',
     rp_slot = None, rp_locale = ''en''\<rparr>)" (is "_ = Inr (Some ?s)")
proof -
  have "make_replay_source demo_hash ?s = Inr ?s" 
   by (simp add: make_replay_source_def demo_id_def speech_act_id_def demo_hash_def is_identifier_def identifier_char_def sha_hex_def
    NON_REPLAYABLE_KINDS_def TERMINAL_KINDS_def is_locale_def lower_word_def Let_def list_all_iff has_prefix_def)
  then show ?thesis
  by (simp add: demo_state latest_replay_source_def demo_record_def replayable_def NON_REPLAYABLE_KINDS_def TERMINAL_KINDS_def source_of_def)
qed
definition demo_source :: replay_source where
  "demo_source = \<lparr>rp_act = demo_id, rp_kind = ANSWER, rp_text = ''Yes'', rp_digest = demo_hash ''Yes'', rp_binding = demo_binding,
     rp_turn = ''t'', rp_slot = None, rp_locale = ''en''\<rparr>"

lemma contains_skip: "x \<noteq> c \<Longrightarrow> contains (x # m) (replicate n c @ s) = contains (x # m) s"
  by (induction n) (simp_all add: has_prefix_def)

lemmas demo_json = binding_json_def demo_binding_def json_object_def ascii_string_def ascii_char_def json_char_def demo_hash_def
  has_prefix_def int_str_def Let_def contains_skip

lemma demo_ids: "replay_act_id demo_hash demo_source ''q'' ''u'' SLOWER \<noteq> demo_id"
proof -
  have i: "demo_id = ''act_'' @ replicate 64 CHR ''a''" by (simp add: demo_id_def speech_act_id_def demo_json)
  show ?thesis unfolding i by (simp add: replay_act_id_def demo_source_def i demo_json)
qed

theorem replay_repeats_last_heard_witness:
  "\<exists>e. snd (reserve_replay demo_hash demo_source ''q'' SLOWER (demo_authorization ''u'' [ANSWER])
      (speech_run demo_hash demo_policy demo_heard)) = Inr [e] \<and> rs_text e = ''Yes''"
proof -
  let ?s = "speech_run demo_hash demo_policy demo_heard" and ?au = "demo_authorization ''u'' [ANSWER]"
  have H: "hex_digests demo_hash" by (simp add: hex_digests_def demo_hash_def sha_hex_def)
  have ops: "list_all built_op demo_heard"
    by (simp add: demo_heard_def built_plan_def demo_answer_def make_spoken_plan_def demo_act_def make_semantic_act_def indices_of_def
        is_identifier_def identifier_char_def built_authorization_def demo_authorization_def make_speech_authorization_def
        is_locale_def lower_word_def py_strip_def py_space_def Let_def)
  have au: "built_authorization ?au" and q: "is_identifier ''q''"
    by (simp_all add: built_authorization_def demo_authorization_def make_speech_authorization_def is_identifier_def
        identifier_char_def is_locale_def lower_word_def Let_def)
  have src: "latest_replay_source demo_hash demo_binding ?s = Inr (Some demo_source)" by (simp add: demo_latest demo_source_def)
  have ok: "replay_authorized demo_source ?au" "rp_binding demo_source = demo_binding"
    by (simp_all add: replay_authorized_def demo_source_def demo_authorization_def)
  obtain s' e where e: "reserve_replay demo_hash demo_source ''q'' SLOWER ?au ?s = (s', Inr [e])"
    using demo_ids src ok q by (simp add: reserve_replay_def demo_state record_of_def Let_def demo_authorization_def)
  from replay_repeats_last_heard [OF H ops refl q au e] have "\<exists>r. record_of ?s demo_id = Some r \<and> rs_text e = rs_text (sp_reserved r)"
    by (auto simp: demo_source_def)
  with e show ?thesis by (simp add: demo_state record_of_def demo_record_def)
qed


section \<open>One open question for a slot\<close>

definition open_question :: "speech \<Rightarrow> string \<Rightarrow> voice_binding \<Rightarrow> string \<Rightarrow> bool" where
  "open_question s i b q = (case record_of s i of None \<Rightarrow> False
     | Some r \<Rightarrow> \<not> sp_cancelled r \<and> sp_owns_slot r \<and> sp_slot r = Some q \<and> rs_binding (sp_reserved r) = b)"

definition slots_held :: "speech \<Rightarrow> bool" where
  "slots_held s = (\<forall>i b q. open_question s i b q \<longrightarrow> (b, q) \<in> sc_slots s \<and> (\<forall>j. open_question s j b q \<longrightarrow> j = i))"

text \<open>A single act is sealed only while it is not cancelled yet.\<close>

definition seals_open :: "speech \<Rightarrow> speech_op \<Rightarrow> bool" where
  "seals_open s op = (case op of Hard_Terminalize i \<Rightarrow> \<not> is_cancelled s i | _ \<Rightarrow> True)"

fun orderly :: "hash \<Rightarrow> speech_policy \<Rightarrow> speech \<Rightarrow> speech_op list \<Rightarrow> bool" where
  "orderly H policy s [] = True"
| "orderly H policy s (op # ops) = (built_op op \<and> seals_open s op \<and> orderly H policy (speech_step H policy s op) ops)"

lemma slots_frame [simp]:
  "sc_slots (put_record i r s) = sc_slots s" "sc_slots (drop_record i s) = sc_slots s"
  "sc_slots (free_slot r s) = sc_slots s - {x. sp_owns_slot r \<and> sp_slot r = Some (snd x) \<and> rs_binding (sp_reserved r) = fst x}"
  by (auto simp: put_record_def drop_record_def free_slot_def split: option.splits)

lemma slots_on_record [simp]: "sc_slots (fst (on_record i guard f s)) = sc_slots s"
  by (simp add: on_record_def split: option.split)

lemma slots_drop_batch [simp]: "sc_slots (fst (drop_batch ready batch s)) = sc_slots s"
  by (simp add: drop_batch_def)

lemma slots_observed [simp]: "sc_slots (fst (record_caller_playback_observed i playout s)) = sc_slots s"
  by (simp add: record_caller_playback_observed_def case_prod_beta)

lemma slots_replay [simp]: "sc_slots (fst (reserve_replay H source request mode au s)) = sc_slots s"
  by (simp add: reserve_replay_def Let_def split: sum.split)

lemma slots_silence: "sc_slots (silence i r s) = sc_slots s - {x. sp_owns_slot r \<and> sp_slot r = Some (snd x) \<and> rs_binding (sp_reserved r) = fst x}"
  by (simp add: silence_def)

lemma slots_roll_back: "sc_slots (fold roll_back rs s) =
    sc_slots s - {x. \<exists>r \<in> set rs. sp_owns_slot r \<and> sp_slot r = Some (snd x) \<and> rs_binding (sp_reserved r) = fst x}"
proof (induction rs arbitrary: s)
  case (Cons r rs)
  have "sc_slots (roll_back r s) = sc_slots (free_slot r (drop_record (rs_act (sp_reserved r)) s))"
    by (simp add: roll_back_def Let_def split: option.split)
  with Cons.IH [of "roll_back r s"] show ?case by auto
qed simp

lemma slots_reserve: "sc_slots (fold (reserve_act H plan au) acts s) =
    sc_slots s \<union> {x. \<exists>(k, act) \<in> set acts. sa_kind act = QUESTION \<and> sa_slot act = Some (snd x) \<and> fst x = au_binding au}"
proof (induction acts arbitrary: s)
  case (Cons a acts)
  obtain k act where a: "a = (k, act)" by (cases a)
  have "sc_slots (reserve_act H plan au a s) =
      sc_slots s \<union> {x. sa_kind act = QUESTION \<and> sa_slot act = Some (snd x) \<and> fst x = au_binding au}"
    by (auto simp: a reserve_act_def Let_def split: option.split)
  with Cons.IH [of "reserve_act H plan au a s"] show ?case by (auto simp: a)
qed simp

lemma slots_terminalize: "(b', q) \<in> sc_slots s \<Longrightarrow> (\<forall>r. record_of s i = Some r \<longrightarrow> rs_binding (sp_reserved r) \<noteq> b') \<Longrightarrow>
    (b', q) \<in> sc_slots (fst (hard_terminalize i s))"
  by (auto simp: hard_terminalize_def Let_def slots_silence split: option.splits)

lemma slots_terminalize_all:
  "(b', q) \<in> sc_slots s \<Longrightarrow> \<forall>i \<in> set ids. \<forall>r. record_of s i = Some r \<longrightarrow> rs_binding (sp_reserved r) \<noteq> b' \<Longrightarrow>
    (b', q) \<in> sc_slots (fold (\<lambda>i s. fst (hard_terminalize i s)) ids s)"
proof (induction ids arbitrary: s)
  case (Cons i ids)
  from Cons.prems have "(b', q) \<in> sc_slots (fst (hard_terminalize i s))" by (intro slots_terminalize) auto
  moreover have "\<forall>j \<in> set ids. \<forall>r. record_of (fst (hard_terminalize i s)) j = Some r \<longrightarrow> rs_binding (sp_reserved r) \<noteq> b'"
    using Cons.prems(2) by (auto simp: record_of_terminalize split: if_splits)
  ultimately show ?case using Cons.IH by simp
qed simp

lemma touched_owner: "touched H policy op n n' i r r' \<Longrightarrow>
    (sp_cancelled r \<longrightarrow> sp_cancelled r') \<and> sp_owns_slot r' = sp_owns_slot r \<and> sp_slot r' = sp_slot r \<and> sp_reserved r' = sp_reserved r"
  by (cases rule: touched.cases) auto

lemma open_question_before:
  assumes "open_question (speech_step H policy s op) i b q" and "asked_by op = None"
  shows "open_question s i b q"
proof -
  from assms(1) obtain r' where r': "record_of (speech_step H policy s op) i = Some r'" "\<not> sp_cancelled r'" "sp_owns_slot r'"
    "sp_slot r' = Some q" "rs_binding (sp_reserved r') = b" by (auto simp: open_question_def split: option.splits)
  from step_records [of H policy s op] r'(1) consider r where "record_of s i = Some r"
      "touched H policy op (sc_counter s) (sc_counter (speech_step H policy s op)) i r r'"
    | "made H policy s op r'" unfolding stepped_def by blast
  then show ?thesis
  proof cases
    case 1
    with touched_owner [OF 1(2)] r' show ?thesis by (auto simp: open_question_def)
  next
    case 2
    then show ?thesis using assms(2) r'(3) by cases (simp_all add: replay_record_def)
  qed
qed

lemma slots_held_mono:
  assumes "slots_held s" and "\<And>i b q. open_question s' i b q \<Longrightarrow> open_question s i b q \<and> ((b, q) \<in> sc_slots s \<longrightarrow> (b, q) \<in> sc_slots s')"
  shows "slots_held s'"
  using assms unfolding slots_held_def by blast

lemma slots_held_cong: "(\<And>i. record_of s' i = record_of s i) \<Longrightarrow> sc_slots s' = sc_slots s \<Longrightarrow> slots_held s \<Longrightarrow> slots_held s'"
  by (simp add: slots_held_def open_question_def)

lemma one_question:
  assumes "built_plan plan" "(k, act) \<in> set (enumerate 0 (pl_acts plan))" "(l, act') \<in> set (enumerate 0 (pl_acts plan))"
    and "sa_kind act = QUESTION" "sa_kind act' = QUESTION"
  shows "k = l"
proof -
  let ?qs = "indices_of QUESTION (pl_acts plan)"
  have "length ?qs \<le> 1" using assms(1) by (auto simp: built_plan_def make_spoken_plan_def split: if_splits)
  moreover have "k \<in> set ?qs" "l \<in> set ?qs" using assms(2-5) by (auto simp: indices_of_def in_set_enumerate_eq)
  moreover have "distinct ?qs" by (simp add: indices_of_def)
  ultimately show ?thesis by (cases ?qs) (auto split: if_splits)
qed

lemma held_reserve:
  assumes plan: "built_plan plan" and held: "slots_held s"
  shows "slots_held (fst (reserve H policy plan au s))"
proof (cases rule: reserve_cases [of H policy plan au s])
  case 1
  with held show ?thesis by simp
next
  case (2 s1 batch)
  let ?acts = "enumerate 0 (pl_acts plan)"
  let ?s = "fold (reserve_act H plan au) ?acts s"
  have new: "open_question s i b q \<or> b = au_binding au \<and> (\<exists>k act. (k, act) \<in> set ?acts \<and> sa_kind act = QUESTION \<and>
      sa_slot act = Some q \<and> i = speech_act_id H (au_binding au) (au_turn au) (pl_id plan) k)"
    if "open_question ?s i b q" for i b q
  proof -
    from that obtain r where r: "record_of ?s i = Some r" "\<not> sp_cancelled r" "sp_owns_slot r" "sp_slot r = Some q"
      "rs_binding (sp_reserved r) = b" by (auto simp: open_question_def split: option.splits)
    from record_of_fold_reserve [OF r(1)] show ?thesis
    proof
      assume "record_of s i = Some r"
      with r show ?thesis by (simp add: open_question_def)
    next
      assume "\<exists>(k, act) \<in> set ?acts. r = fresh_record (reservation_of H plan au k act) act au \<and> rs_act (sp_reserved r) = i"
      then obtain k act where k: "(k, act) \<in> set ?acts" "r = fresh_record (reservation_of H plan au k act) act au"
        "rs_act (sp_reserved r) = i" by blast
      have "act \<in> set (pl_acts plan)" using k(1) by (auto simp: in_set_enumerate_eq)
      from built_act [OF plan this] k r(4,5) show ?thesis by (auto simp: fresh_record_def reservation_of_def Let_def)
    qed
  qed
  have free: "(b, q) \<notin> sc_slots s" if "(k, act) \<in> set ?acts" "sa_kind act = QUESTION" "sa_slot act = Some q" "b = au_binding au" for k act b q
    using 2(2) that by (auto simp: list_all_iff act_reservable_def)
  have "slots_held ?s"
    unfolding slots_held_def slots_reserve
  proof (intro allI impI conjI)
    fix i b q assume o: "open_question ?s i b q"
    from new [OF o] held show "(b, q) \<in> sc_slots s \<union> {x. \<exists>(k, act) \<in> set ?acts. sa_kind act = QUESTION \<and> sa_slot act = Some (snd x) \<and> fst x = au_binding au}"
      unfolding slots_held_def by fastforce
    fix j assume o': "open_question ?s j b q"
    show "j = i"
    proof (cases "(b, q) \<in> sc_slots s")
      case True
      with new [OF o] new [OF o'] free have "open_question s i b q" "open_question s j b q" by blast+
      with held show ?thesis unfolding slots_held_def by blast
    next
      case False
      with held have none: "\<not> open_question s x b q" for x unfolding slots_held_def by blast
      from new [OF o] none obtain k act where k: "(k, act) \<in> set ?acts" "sa_kind act = QUESTION"
        "i = speech_act_id H (au_binding au) (au_turn au) (pl_id plan) k" by blast
      from new [OF o'] none obtain l act' where l: "(l, act') \<in> set ?acts" "sa_kind act' = QUESTION"
        "j = speech_act_id H (au_binding au) (au_turn au) (pl_id plan) l" by blast
      from one_question [OF plan k(1) l(1) k(2) l(2)] k(3) l(3) show ?thesis by simp
    qed
  qed
  with 2(1,4) show ?thesis by (simp add: slots_held_def open_question_def)
qed

lemma held_repair:
  assumes "built_plan plan" "slots_held s"
  shows "slots_held (fst (reserve_repair H policy original failure plan au facts s))"
proof -
  have r: "slots_held (fst (reserve H policy plan au s))" using assms by (rule held_reserve)
  have "fst (reserve_repair H policy original failure plan au facts s) = s \<or>
     (\<forall>j. record_of (fst (reserve_repair H policy original failure plan au facts s)) j = record_of (fst (reserve H policy plan au s)) j) \<and>
     sc_slots (fst (reserve_repair H policy original failure plan au facts s)) = sc_slots (fst (reserve H policy plan au s))"
    by (auto simp: reserve_repair_def split: option.splits sum.splits prod.splits)
  then show ?thesis using r assms(2) slots_held_cong by metis
qed

lemma held_silence:
  assumes r: "record_of s i = Some r" "\<not> sp_cancelled r" and held: "slots_held s"
  shows "slots_held (silence i r s)"
proof (rule slots_held_mono [OF held])
  fix j b q assume o: "open_question (silence i r s) j b q"
  then have j: "j \<noteq> i" "open_question s j b q" by (auto simp: open_question_def split: if_splits)
  moreover have "\<not> (sp_owns_slot r \<and> sp_slot r = Some q \<and> rs_binding (sp_reserved r) = b)"
  proof
    assume "sp_owns_slot r \<and> sp_slot r = Some q \<and> rs_binding (sp_reserved r) = b"
    with r have "open_question s i b q" by (simp add: open_question_def)
    with j held show False unfolding slots_held_def by blast
  qed
  ultimately show "open_question s j b q \<and> ((b, q) \<in> sc_slots s \<longrightarrow> (b, q) \<in> sc_slots (silence i r s))" by (simp add: slots_silence)
qed

lemma held_rollback:
  assumes held: "slots_held s"
  shows "slots_held (fst (rollback_reservation batch s))"
proof (cases "tracks_reservation_batch batch s \<and> list_all (pristine s) batch")
  case True
  let ?rs = "List.map_filter (\<lambda>item. record_of s (rs_act item)) batch"
  have eq: "record_of (fst (rollback_reservation batch s)) i = record_of (fold roll_back ?rs s) i"
    "sc_slots (fst (rollback_reservation batch s)) = sc_slots (fold roll_back ?rs s)" for i
    using True by (simp_all add: rollback_reservation_def Let_def)
  have item: "record_of s (rs_act (sp_reserved r)) = Some r \<and> \<not> sp_cancelled r" if r: "r \<in> set ?rs" for r
  proof -
    from r obtain x where x: "x \<in> set batch" "record_of s (rs_act x) = Some r" by (auto simp: map_filter_def)
    with True have "sp_reserved r = x" "\<not> sp_cancelled r" by (auto simp: list_all_iff pristine_def)
    with x show ?thesis by simp
  qed
  show ?thesis
  proof (rule slots_held_mono [OF held])
    fix i b q assume "open_question (fst (rollback_reservation batch s)) i b q"
    then have o: "open_question s i b q" "i \<notin> (\<lambda>r. rs_act (sp_reserved r)) ` set ?rs"
      by (auto simp: open_question_def eq record_of_fold_roll_back split: option.splits if_splits)
    have "\<not> (sp_owns_slot r \<and> sp_slot r = Some q \<and> rs_binding (sp_reserved r) = b)" if r: "r \<in> set ?rs" for r
    proof
      assume "sp_owns_slot r \<and> sp_slot r = Some q \<and> rs_binding (sp_reserved r) = b"
      with item [OF r] have "open_question s (rs_act (sp_reserved r)) b q" by (simp add: open_question_def)
      with o(1) held have "i = rs_act (sp_reserved r)" unfolding slots_held_def by blast
      with o(2) r show False by blast
    qed
    with o(1) show "open_question s i b q \<and> ((b, q) \<in> sc_slots s \<longrightarrow> (b, q) \<in> sc_slots (fst (rollback_reservation batch s)))"
      unfolding eq slots_roll_back by auto
  qed
qed (use held in \<open>auto simp: rollback_reservation_def\<close>)

lemma held_terminalize_binding:
  assumes held: "slots_held s" and distinct_keys: "distinct_keys s"
  shows "slots_held (fst (hard_terminalize_binding b s))"
proof (rule slots_held_mono [OF held])
  fix i b' q assume o: "open_question (fst (hard_terminalize_binding b s)) i b' q"
  then obtain r where r: "record_of s i = Some r" "i \<notin> set (act_ids_for_binding b s)" and o': "open_question s i b' q"
    by (auto simp: open_question_def record_of_terminalize_binding split: option.splits if_splits)
  have other: "b' \<noteq> b"
  proof
    assume "b' = b"
    with o' r(1) have "rs_binding (sp_reserved r) = b" by (simp add: open_question_def)
    with r show False by (force simp: act_ids_for_binding_def record_of_def dest: map_of_SomeD)
  qed
  have ids: "\<forall>j \<in> set (act_ids_for_binding b s). \<forall>r. record_of s j = Some r \<longrightarrow> rs_binding (sp_reserved r) \<noteq> b'"
  proof (intro ballI allI impI)
    fix j r assume j: "j \<in> set (act_ids_for_binding b s)" "record_of s j = Some r"
    then obtain x where "(j, x) \<in> set (sc_records s)" "rs_binding (sp_reserved x) = b" by (auto simp: act_ids_for_binding_def)
    with distinct_keys j(2) other show "rs_binding (sp_reserved r) \<noteq> b'" by (auto simp: distinct_keys_def record_of_def)
  qed
  show "open_question s i b' q \<and> ((b', q) \<in> sc_slots s \<longrightarrow> (b', q) \<in> sc_slots (fst (hard_terminalize_binding b s)))"
    using o' slots_terminalize_all [OF _ ids] by (simp add: hard_terminalize_binding_def Let_def)
qed

lemma slots_step: "asked_by op = None \<Longrightarrow> sc_slots s' = sc_slots s \<Longrightarrow> s' = speech_step H policy s op \<Longrightarrow> slots_held s \<Longrightarrow> slots_held s'"
  using open_question_before by (auto intro: slots_held_mono)

lemma held_step:
  assumes "built_op op" "seals_open s op" "distinct_keys s" and held: "slots_held s"
  shows "slots_held (speech_step H policy s op)"
proof (cases op)
  case (Reserve plan au)
  with assms show ?thesis by (simp add: held_reserve)
next
  case (Reserve_Repair original failure plan au facts)
  with assms show ?thesis by (simp add: held_repair)
next
  case (Rollback batch)
  with held show ?thesis by (simp add: held_rollback)
next
  case (Cancel_Act i reason epoch)
  with held show ?thesis by (auto simp: cancel_act_def may_cancel_def intro: held_silence split: option.split)
next
  case (Hard_Terminalize i)
  with assms show ?thesis
    by (auto simp: hard_terminalize_def Let_def seals_open_def is_cancelled_def intro: held_silence split: option.split)
next
  case (Hard_Terminalize_Binding b)
  with assms show ?thesis by (simp add: held_terminalize_binding)
qed (use held in \<open>auto intro!: slots_step [of op _ s H policy] simp: complete_reservation_def retire_reservation_def
    force_retire_reservation_def authorize_text_def accept_segment_def bind_tts_def bind_playout_def\<close>)

lemma orderly_held: "orderly H policy s ops \<Longrightarrow> distinct_keys s \<Longrightarrow> slots_held s \<Longrightarrow> slots_held (foldl (speech_step H policy) s ops)"
  by (induction ops arbitrary: s) (simp_all add: held_step keyed_step)

lemma slot_refused:
  assumes "(b, q) \<in> sc_slots s" "au_binding au = b" "act \<in> set (pl_acts plan)" "sa_kind act = QUESTION" "sa_slot act = Some q"
  shows "reserve H policy plan au s = (s, Inl ValueError)"
proof -
  from assms(3) obtain k where "k < length (pl_acts plan)" "pl_acts plan ! k = act" by (auto simp: in_set_conv_nth)
  then have "(k, act) \<in> set (enumerate 0 (pl_acts plan))" by (simp add: in_set_enumerate_eq)
  with assms have "\<not> list_all (act_reservable H policy s plan au) (enumerate 0 (pl_acts plan))"
    by (force simp: list_all_iff act_reservable_def)
  then show ?thesis by (simp add: reserve_def Let_def)
qed

text \<open>
  C18: A question is open once. In every run in which an act is sealed by \<open>hard_terminalize\<close> only while it is not cancelled
  yet, two acts that hold the same slot of the same binding are one act, and no plan that asks for the slot again is reserved,
  by whatever authorisation of that binding, until the act is cancelled, sealed or rolled back.
\<close>

theorem one_open_question_per_slot:
  assumes "orderly H policy new_speech ops" and "s = speech_run H policy ops" and "open_question s i b q"
  shows "(\<forall>j. open_question s j b q \<longrightarrow> j = i) \<and>
    (\<forall>plan au act. au_binding au = b \<and> act \<in> set (pl_acts plan) \<and> sa_kind act = QUESTION \<and> sa_slot act = Some q \<longrightarrow>
       reserve H policy plan au s = (s, Inl ValueError) \<and>
       (\<forall>original failure facts. reserve_repair H policy original failure plan au facts s = (s, None)))"
proof -
  have "slots_held new_speech" "distinct_keys new_speech" by (simp_all add: slots_held_def open_question_def distinct_keys_def) (simp add: new_speech_def)
  with assms(1,2) have "slots_held s" using orderly_held by (simp add: speech_run_def)
  with assms(3) have held: "(b, q) \<in> sc_slots s" "\<forall>j. open_question s j b q \<longrightarrow> j = i" by (auto simp: slots_held_def)
  from slot_refused [OF held(1)] have
    "reserve H policy plan au s = (s, Inl ValueError)" if "au_binding au = b" "act \<in> set (pl_acts plan)" "sa_kind act = QUESTION" "sa_slot act = Some q"
    for plan au act using that by blast
  with held(2) show ?thesis by (auto simp: reserve_repair_def split: option.split)
qed

definition demo_question :: spoken_plan where
  "demo_question = \<lparr>pl_id = ''p'', pl_acts = [demo_act QUESTION ''Where'' (Some ''address'')]\<rparr>"

theorem one_open_question_per_slot_witness:
  "reserve demo_hash demo_policy demo_question (demo_authorization ''u'' [QUESTION])
     (speech_run demo_hash demo_policy [Reserve demo_question (demo_authorization ''t'' [QUESTION])]) =
   (speech_run demo_hash demo_policy [Reserve demo_question (demo_authorization ''t'' [QUESTION])], Inl ValueError)"
proof -
  let ?ops = "[Reserve demo_question (demo_authorization ''t'' [QUESTION])]"
  have "orderly demo_hash demo_policy new_speech ?ops"
    by (simp add: seals_open_def built_plan_def demo_question_def make_spoken_plan_def demo_act_def make_semantic_act_def indices_of_def
        is_identifier_def identifier_char_def built_authorization_def demo_authorization_def make_speech_authorization_def
        is_locale_def lower_word_def py_strip_def py_space_def Let_def)
  moreover have "valid_text demo_policy QUESTION ''Where''"
    by (simp add: valid_text_def demo_policy_def word_count_def py_strip_def py_space_def TERMINAL_KINDS_def casefold_def
        casefold_char_def has_prefix_def Let_def)
  then have "open_question (speech_run demo_hash demo_policy ?ops) demo_id demo_binding ''address''"
    by (simp add: speech_run_def reserve_def demo_question_def demo_act_def demo_authorization_def act_reservable_def
      valid_act_def TERMINAL_KINDS_def record_of_def new_speech_def reserve_act_def reservation_of_def demo_id_def
      fresh_record_def put_record_def open_question_def Let_def)
  ultimately show ?thesis
    using one_open_question_per_slot [of demo_hash demo_policy ?ops _ demo_id demo_binding "''address''"]
    by (auto simp: demo_question_def demo_act_def demo_authorization_def)
qed


text \<open>
  Sealing an act that was cancelled before frees its slot a second time, also when another act holds it by then: a third
  act may then ask the same question while the second is open.
\<close>

lemma late_seal_frees_slot:
  assumes "record_of s i = Some r" "sp_cancelled r" "sp_owns_slot r" "sp_slot r = Some q" "rs_binding (sp_reserved r) = b"
    and "open_question s j b q"
  shows "open_question (fst (hard_terminalize i s)) j b q \<and> (b, q) \<notin> sc_slots (fst (hard_terminalize i s))"
  using assms by (auto simp: hard_terminalize_def Let_def open_question_def slots_silence split: option.splits)

text \<open>A repair whose confirmed facts are malformed is answered with \<open>None\<close>, but its act stays reserved.\<close>

lemma malformed_repair_stays_reserved:
  assumes "record_of s original = Some r" "(rs_binding (sp_reserved r), original) \<notin> sc_repairs s" "repair_allowed r plan au"
    and "reserve H policy plan au s = (s', Inr batch)" "\<not> list_all is_identifier facts"
  shows "reserve_repair H policy original RECOVERABLE_FAILURE plan au facts s = (s', None)"
  using assms by (simp add: reserve_repair_def make_repair_intent_def)

definition asks :: "string \<Rightarrow> speech_op" where
  "asks plan = Reserve (demo_question\<lparr>pl_id := plan\<rparr>) (demo_authorization ''t'' [QUESTION])"

lemma late_seal_run:
  assumes "distinct [a, b, c]" and "a = speech_act_id H demo_binding ''t'' ''p'' 0" and "b = speech_act_id H demo_binding ''t'' ''q'' 0"
    and "c = speech_act_id H demo_binding ''t'' ''r'' 0"
    and "s = speech_run H demo_policy [asks ''p'', Cancel_Act a INTERRUPTION None, asks ''q'', Hard_Terminalize a, asks ''r'']"
  shows "open_question s b demo_binding ''address'' \<and> open_question s c demo_binding ''address'' \<and> b \<noteq> c"
proof -
  have v: "valid_text demo_policy QUESTION ''Where''"
    by (simp add: valid_text_def demo_policy_def word_count_def py_strip_def py_space_def TERMINAL_KINDS_def casefold_def
        casefold_char_def has_prefix_def Let_def)
  have ne: "a \<noteq> b" "b \<noteq> a" "a \<noteq> c" "c \<noteq> a" "b \<noteq> c" "c \<noteq> b" using assms(1) by auto
  show ?thesis
    unfolding assms(5)
    by (simp add: ne speech_run_def asks_def reserve_def demo_question_def demo_act_def demo_authorization_def act_reservable_def v
      valid_act_def TERMINAL_KINDS_def record_of_def new_speech_def reserve_act_def reservation_of_def assms(2-4) [symmetric]
      fresh_record_def put_record_def open_question_def cancel_act_def may_cancel_def silence_def free_slot_def hard_terminalize_def Let_def)
qed

end
