(* ===== verification/Call_Silence.thy ===== *)
theory Call_Silence
  imports Voice_Lifecycle
begin

text \<open>
  What happens when the caller says nothing, app/services/voice_call_lifecycle.py: a question is asked and heard, a timer runs,
  the caller's presence is checked, a second timer runs, the call is closed; more time or a fixed fallback may come between.
  The reducer gives out intents, which are consumed by identity: as in theory Voice_Lifecycle the identity of an object is a
  field (\<open>ci_ref\<close>), here its number among the intents the reducer has made. Arguments have their declared types.
\<close>

section \<open>Intents and questions\<close>

datatype silence_phase =
    IDLE | QUESTION_RESERVED | QUESTION_CONFIRMED | FIRST_ARMED | PRESENCE_PENDING | SECOND_ARMED | MORE_TIME_PENDING
  | MORE_TIME_ARMED | FALLBACK_PENDING | CLOSING_PENDING | TERMINAL_ELIGIBLE | TERMINATED

datatype playback_evidence = OBSERVED | INFERRED

datatype intent_kind =
    ARM_TIMER | CANCEL_TIMER | CANCEL_ACT | REQUEST_PRESENCE_CHECK | REQUEST_MORE_TIME_ACKNOWLEDGEMENT
  | REQUEST_UNSUPPORTED_ACCESS_MODE | REQUEST_SIMULATED_VOICEMAIL | REQUEST_CLOSING | END_ELIGIBLE

fun intent_kind_value :: "intent_kind \<Rightarrow> string" where
  "intent_kind_value ARM_TIMER = ''arm_timer''"
| "intent_kind_value CANCEL_TIMER = ''cancel_timer''"
| "intent_kind_value CANCEL_ACT = ''cancel_act''"
| "intent_kind_value REQUEST_PRESENCE_CHECK = ''request_presence_check''"
| "intent_kind_value REQUEST_MORE_TIME_ACKNOWLEDGEMENT = ''request_more_time_acknowledgement''"
| "intent_kind_value REQUEST_UNSUPPORTED_ACCESS_MODE = ''request_unsupported_access_mode''"
| "intent_kind_value REQUEST_SIMULATED_VOICEMAIL = ''request_simulated_voicemail''"
| "intent_kind_value REQUEST_CLOSING = ''request_closing''"
| "intent_kind_value END_ELIGIBLE = ''terminal_eligible''"

definition call_id :: "string \<Rightarrow> bool" where
  "call_id s = (s \<noteq> [] \<and> length s \<le> 128 \<and>
     (let t = filter (\<lambda>c. c \<noteq> CHR ''_'') s in t \<noteq> [] \<and> list_all py_isalnum t))"

record call_intent =
  ci_ref :: nat
  ci_kind :: intent_kind
  ci_binding :: voice_binding
  ci_revision :: int
  ci_action :: string
  ci_act :: "string option"
  ci_deadline :: "int option"
  ci_turn :: "string option"
  ci_turn_sequence :: "int option"

definition absent_or :: "('a \<Rightarrow> bool) \<Rightarrow> 'a option \<Rightarrow> bool" where
  "absent_or P x = (case x of None \<Rightarrow> True | Some y \<Rightarrow> P y)"

definition make_intent :: "call_intent \<Rightarrow> call_intent res" where
  "make_intent i =
     (if 0 \<le> ci_revision i \<and> call_id (ci_action i) \<and> absent_or call_id (ci_act i) \<and> absent_or (\<lambda>d. 0 \<le> d) (ci_deadline i) \<and>
         absent_or call_id (ci_turn i) \<and> absent_or (\<lambda>q. 0 \<le> q) (ci_turn_sequence i) \<and>
         \<not> (ci_turn i = None \<and> ci_turn_sequence i \<noteq> None) then Inr i else Inl ValueError)"

record question_intent =
  qi_slot :: string
  qi_turn :: string
  qi_act :: string
  qi_turn_sequence :: "int option"

definition make_question :: "question_intent \<Rightarrow> question_intent res" where
  "make_question q =
     (if call_id (qi_slot q) \<and> call_id (qi_turn q) \<and> call_id (qi_act q) \<and> absent_or (\<lambda>n. 0 \<le> n) (qi_turn_sequence q)
      then Inr q else Inl ValueError)"

section \<open>The state\<close>

text \<open>\<open>CallLifecycle\<close>; the voice lifecycle it reads is an argument of the operations that read it.\<close>

record calls =
  cl_binding :: voice_binding
  cl_first_ms :: int
  cl_second_ms :: int
  cl_inference_ms :: int
  cl_extension_ms :: int
  cl_phase :: silence_phase
  cl_revision :: int
  cl_question :: "question_intent option"
  cl_origin :: "string option"
  cl_turn :: "string option"
  cl_turn_sequence :: "int option"
  cl_presence :: "string option"
  cl_presence_delivered :: bool
  cl_more_time_used :: bool
  cl_ack :: "string option"
  cl_fallback :: "string option"
  cl_fallback_kind :: "intent_kind option"
  cl_closing :: "string option"
  cl_deadline :: "int option"
  cl_timer :: "call_intent option"
  cl_seen :: "string set"
  cl_sequence :: int
  cl_at_ms :: int
  cl_transport :: "string \<rightharpoonup> int \<times> string"
  cl_issued :: "string \<rightharpoonup> call_intent"
  cl_materialized :: "string set"
  cl_made :: nat

definition new_calls :: "voice_binding \<Rightarrow> lifecycle \<Rightarrow> int \<Rightarrow> int \<Rightarrow> int \<Rightarrow> int \<Rightarrow> calls res" where
  "new_calls b v first second inference extension =
     (if first < 1 \<or> second < 1 \<or> inference < 1 \<or> extension < 1 \<or> lc_binding v \<noteq> b then Inl ValueError
      else Inr \<lparr>cl_binding = b, cl_first_ms = first, cl_second_ms = second, cl_inference_ms = inference, cl_extension_ms = extension,
        cl_phase = IDLE, cl_revision = 0, cl_question = None, cl_origin = None, cl_turn = None, cl_turn_sequence = None,
        cl_presence = None, cl_presence_delivered = False, cl_more_time_used = False, cl_ack = None, cl_fallback = None,
        cl_fallback_kind = None, cl_closing = None, cl_deadline = None, cl_timer = None, cl_seen = {}, cl_sequence = -1,
        cl_at_ms = -1, cl_transport = Map.empty, cl_issued = Map.empty, cl_materialized = {}, cl_made = 0\<rparr>)"

definition question_act :: "calls \<Rightarrow> string option" where
  "question_act s = map_option qi_act (cl_question s)"

definition can_accept_position :: "calls \<Rightarrow> voice_binding \<Rightarrow> string \<Rightarrow> int \<Rightarrow> int \<Rightarrow> bool" where
  "can_accept_position s b ev sequence at_ms =
     (b = cl_binding s \<and> call_id ev \<and> ev \<notin> cl_seen s \<and> cl_sequence s < sequence \<and> cl_at_ms s \<le> at_ms)"

definition take_position :: "calls \<Rightarrow> string \<Rightarrow> int \<Rightarrow> int \<Rightarrow> calls" where
  "take_position s ev sequence at_ms = s\<lparr>cl_seen := insert ev (cl_seen s), cl_sequence := sequence, cl_at_ms := at_ms\<rparr>"

definition next_call_position :: "calls \<Rightarrow> int \<Rightarrow> (int \<times> int) res" where
  "next_call_position s at_ms = (if at_ms < 0 then Inl ValueError else Inr (cl_sequence s + 1, max (cl_at_ms s) at_ms))"

definition clear_silence_cycle :: "calls \<Rightarrow> calls" where
  "clear_silence_cycle s =
     s\<lparr>cl_deadline := None, cl_question := None, cl_origin := None, cl_turn := None, cl_turn_sequence := None, cl_presence := None,
       cl_presence_delivered := False, cl_more_time_used := False, cl_ack := None, cl_fallback := None, cl_fallback_kind := None,
       cl_closing := None, cl_transport := Map.empty, cl_timer := None, cl_issued := Map.empty, cl_materialized := {}\<rparr>"

definition is_quiescent :: "calls \<Rightarrow> bool" where
  "is_quiescent s =
     (cl_phase s \<in> {IDLE, TERMINATED} \<and> cl_question s = None \<and> cl_origin s = None \<and> cl_turn s = None \<and> cl_turn_sequence s = None \<and>
      cl_presence s = None \<and> cl_ack s = None \<and> cl_fallback s = None \<and> cl_fallback_kind s = None \<and> cl_closing s = None \<and>
      cl_deadline s = None \<and> cl_timer s = None \<and> cl_transport s = Map.empty \<and> cl_issued s = Map.empty \<and> cl_materialized s = {})"

section \<open>Making intents\<close>

text \<open>An operation that raises leaves what it has changed by then; so its answer comes beside the state.\<close>

definition new_intent :: "calls \<Rightarrow> intent_kind \<Rightarrow> string \<Rightarrow> string option \<Rightarrow> int option \<Rightarrow> calls \<times> call_intent res" where
  "new_intent s kind action act deadline =
     (s\<lparr>cl_made := Suc (cl_made s)\<rparr>,
      make_intent \<lparr>ci_ref = cl_made s, ci_kind = kind, ci_binding = cl_binding s, ci_revision = cl_revision s, ci_action = action,
        ci_act = act, ci_deadline = deadline, ci_turn = cl_turn s, ci_turn_sequence = cl_turn_sequence s\<rparr>)"

fun new_intents :: "(intent_kind \<times> string \<times> string option) list \<Rightarrow> calls \<Rightarrow> calls \<times> call_intent list res" where
  "new_intents [] s = (s, Inr [])"
| "new_intents ((kind, action, act) # xs) s =
     (case new_intent s kind action act None of
        (s1, Inl err) \<Rightarrow> (s1, Inl err)
      | (s1, Inr i) \<Rightarrow> (case new_intents xs s1 of (s2, r) \<Rightarrow> (s2, ebind r (\<lambda>is. Inr (i # is)))))"

definition issue_intent :: "intent_kind \<Rightarrow> string \<Rightarrow> string \<Rightarrow> calls \<Rightarrow> calls \<times> call_intent list res" where
  "issue_intent kind action act s =
     (case new_intent s kind action (Some act) None of
        (s1, Inl err) \<Rightarrow> (s1, Inl err)
      | (s1, Inr i) \<Rightarrow> (s1\<lparr>cl_issued := (cl_issued s1)(action \<mapsto> i)\<rparr>, Inr [i]))"

definition timer_action_id :: "calls \<Rightarrow> int \<Rightarrow> string" where
  "timer_action_id s deadline = ''timer_'' @ int_str (cl_revision s) @ ''_'' @ int_str deadline"

definition arm :: "silence_phase \<Rightarrow> string \<Rightarrow> int \<Rightarrow> calls \<Rightarrow> calls \<times> call_intent list res" where
  "arm phase act deadline s =
     (let s1 = s\<lparr>cl_phase := phase, cl_deadline := Some deadline\<rparr> in
      case new_intent s1 ARM_TIMER (timer_action_id s1 deadline) (Some act) (Some deadline) of
        (s2, Inl err) \<Rightarrow> (s2, Inl err)
      | (s2, Inr t) \<Rightarrow> (s2\<lparr>cl_timer := Some t\<rparr>, Inr [t]))"

definition supersede_question :: "calls \<Rightarrow> calls" where
  "supersede_question s =
     s\<lparr>cl_transport := (case question_act s of None \<Rightarrow> cl_transport s | Some act \<Rightarrow> (cl_transport s)(act := None)),
       cl_question := None, cl_revision := cl_revision s + 1\<rparr>"

section \<open>The question\<close>

definition reserve_question :: "voice_binding \<Rightarrow> string \<Rightarrow> int \<Rightarrow> int \<Rightarrow> question_intent \<Rightarrow> calls \<Rightarrow> calls \<times> bool" where
  "reserve_question b ev sequence at_ms q s =
     (if cl_phase s \<noteq> IDLE \<or> \<not> can_accept_position s b ev sequence at_ms then (s, False)
      else ((take_position s ev sequence at_ms)
              \<lparr>cl_question := Some q, cl_origin := Some (qi_act q), cl_turn := Some (qi_turn q), cl_turn_sequence := qi_turn_sequence q,
               cl_presence_delivered := False, cl_more_time_used := False, cl_phase := QUESTION_RESERVED\<rparr>, True))"

definition rollback_question :: "voice_binding \<Rightarrow> question_intent \<Rightarrow> calls \<Rightarrow> calls \<times> bool" where
  "rollback_question b q s =
     (if b \<noteq> cl_binding s \<or> cl_phase s \<noteq> QUESTION_RESERVED \<or> cl_question s \<noteq> Some q \<or> cl_deadline s \<noteq> None \<or>
         cl_transport s \<noteq> Map.empty then (s, False)
      else ((clear_silence_cycle s)\<lparr>cl_phase := IDLE\<rparr>, True))"

definition can_semantic_confirm :: "lifecycle \<Rightarrow> calls \<Rightarrow> voice_event \<Rightarrow> bool" where
  "can_semantic_confirm v s e =
     (cl_phase s = QUESTION_RESERVED \<and>
      (case cl_question s of None \<Rightarrow> False
       | Some q \<Rightarrow> ve_act e = qi_act q \<and> ve_turn e = qi_turn q \<and> ve_act_kind e = QUESTION \<and> accepts_semantic_confirmation v e))"

definition semantic_confirmed :: "lifecycle \<Rightarrow> string \<Rightarrow> int \<Rightarrow> voice_event \<Rightarrow> calls \<Rightarrow> calls \<times> bool" where
  "semantic_confirmed v ev sequence e s =
     (if \<not> can_semantic_confirm v s e \<or> \<not> can_accept_position s (ve_binding e) ev sequence (ve_at_ms e) then (s, False)
      else ((take_position s ev sequence (ve_at_ms e))\<lparr>cl_phase := QUESTION_CONFIRMED\<rparr>, True))"

section \<open>Playback\<close>

definition FALLBACK_KINDS :: "intent_kind list" where
  "FALLBACK_KINDS = [REQUEST_UNSUPPORTED_ACCESS_MODE, REQUEST_SIMULATED_VOICEMAIL]"

definition awaited_transport :: "calls \<Rightarrow> voice_event \<Rightarrow> bool" where
  "awaited_transport s e =
     (let act = ve_act e; p = cl_phase s; made = act \<in> cl_materialized s in
      (case cl_question s of None \<Rightarrow> False
       | Some q \<Rightarrow> act = qi_act q \<and> ve_turn e = qi_turn q \<and> p = QUESTION_CONFIRMED \<and> ve_act_kind e = QUESTION) \<or>
      cl_presence s = Some act \<and> p = PRESENCE_PENDING \<and> ve_act_kind e = PRESENCE_CHECK \<and> made \<or>
      cl_ack s = Some act \<and> p = MORE_TIME_PENDING \<and> ve_act_kind e = ACKNOWLEDGEMENT \<and> made \<or>
      cl_closing s = Some act \<and> p = CLOSING_PENDING \<and> ve_act_kind e = CLOSING \<and> made \<or>
      cl_fallback s = Some act \<and> p = FALLBACK_PENDING \<and> (\<exists>k \<in> set FALLBACK_KINDS. cl_fallback_kind s = Some k) \<and>
        ve_act_kind e = ACKNOWLEDGEMENT \<and> made)"

definition transport_resolved :: "lifecycle \<Rightarrow> string \<Rightarrow> int \<Rightarrow> voice_event \<Rightarrow> calls \<Rightarrow> calls \<times> bool" where
  "transport_resolved v ev sequence e s =
     (if \<not> awaited_transport s e \<or> \<not> accepts_transport_resolution v e \<or>
         \<not> can_accept_position s (ve_binding e) ev sequence (ve_at_ms e) then (s, False)
      else let s1 = take_position s ev sequence (ve_at_ms e) in
        (s1\<lparr>cl_transport := (cl_transport s1)(ve_act e \<mapsto>
             (ve_at_ms e, case vp_playout (ve_payload e) of None \<Rightarrow> [] | Some p \<Rightarrow> p))\<rparr>, True))"

text \<open>The act whose playback moves the reducer on.\<close>

definition awaited_act :: "calls \<Rightarrow> string \<Rightarrow> bool" where
  "awaited_act s act =
     (question_act s = Some act \<and> cl_phase s = QUESTION_CONFIRMED \<or>
      act \<in> cl_materialized s \<and>
        (cl_presence s = Some act \<and> cl_phase s = PRESENCE_PENDING \<or> cl_ack s = Some act \<and> cl_phase s = MORE_TIME_PENDING \<or>
         cl_closing s = Some act \<and> cl_phase s = CLOSING_PENDING \<or> cl_fallback s = Some act \<and> cl_phase s = FALLBACK_PENDING))"

definition act_heard :: "string \<Rightarrow> int \<Rightarrow> calls \<Rightarrow> calls \<times> call_intent list res" where
  "act_heard act at_ms s =
     (let done = s\<lparr>cl_materialized := cl_materialized s - {act}\<rparr> in
      if question_act s = Some act \<and> cl_phase s = QUESTION_CONFIRMED then arm FIRST_ARMED act (at_ms + cl_first_ms s) s
      else if cl_presence s = Some act \<and> cl_phase s = PRESENCE_PENDING
      then arm SECOND_ARMED act (at_ms + cl_second_ms s) (done\<lparr>cl_presence := None, cl_presence_delivered := True\<rparr>)
      else if cl_ack s = Some act \<and> cl_phase s = MORE_TIME_PENDING
      then arm MORE_TIME_ARMED act (at_ms + cl_extension_ms s) (done\<lparr>cl_ack := None\<rparr>)
      else if cl_closing s = Some act \<and> cl_phase s = CLOSING_PENDING
      then issue_intent END_ELIGIBLE (''terminal_'' @ act) act (done\<lparr>cl_closing := None, cl_phase := TERMINAL_ELIGIBLE\<rparr>)
      else if cl_fallback s = Some act \<and> cl_phase s = FALLBACK_PENDING
      then ((clear_silence_cycle s)\<lparr>cl_phase := IDLE, cl_revision := cl_revision s + 1\<rparr>, Inr [])
      else (s, Inr []))"

definition playback ::
    "voice_binding \<Rightarrow> string \<Rightarrow> int \<Rightarrow> string \<Rightarrow> playback_evidence \<Rightarrow> int \<Rightarrow> string option \<Rightarrow> string option \<Rightarrow> calls \<Rightarrow>
     calls \<times> call_intent list res" where
  "playback b ev sequence act evidence at_ms inference transport s =
     (if evidence \<noteq> INFERRED then (s, Inr [])
      else case cl_transport s act of None \<Rightarrow> (s, Inr [])
      | Some (resolved_ms, playout) \<Rightarrow>
          if \<not> awaited_act s act \<or> (case inference of None \<Rightarrow> True | Some i \<Rightarrow> \<not> call_id i) \<or> transport \<noteq> Some playout \<or>
             at_ms < resolved_ms + cl_inference_ms s \<or> \<not> can_accept_position s b ev sequence at_ms then (s, Inr [])
          else let s1 = take_position s ev sequence at_ms in
            act_heard act at_ms (s1\<lparr>cl_transport := (cl_transport s1)(act := None)\<rparr>))"

definition expected_kind :: "calls \<Rightarrow> voice_event \<Rightarrow> act_kind option" where
  "expected_kind s e =
     (let act = Some (ve_act e) in
      if (case cl_question s of None \<Rightarrow> False | Some q \<Rightarrow> ve_act e = qi_act q \<and> ve_turn e = qi_turn q) then Some QUESTION
      else if act = cl_presence s then Some PRESENCE_CHECK else if act = cl_ack s then Some ACKNOWLEDGEMENT
      else if act = cl_closing s then Some CLOSING else if act = cl_fallback s then Some ACKNOWLEDGEMENT else None)"

definition observable :: "calls \<Rightarrow> voice_event \<Rightarrow> bool" where
  "observable s e =
     (let k = expected_kind s e; p = cl_phase s in
      k = Some QUESTION \<and> p = QUESTION_CONFIRMED \<or>
      ve_act e \<in> cl_materialized s \<and>
        (k = Some PRESENCE_CHECK \<and> p = PRESENCE_PENDING \<or> k = Some ACKNOWLEDGEMENT \<and> p = MORE_TIME_PENDING \<or>
         k = Some CLOSING \<and> p = CLOSING_PENDING \<or> k = Some ACKNOWLEDGEMENT \<and> p = FALLBACK_PENDING))"

definition observed_playback :: "lifecycle \<Rightarrow> string \<Rightarrow> int \<Rightarrow> voice_event \<Rightarrow> calls \<Rightarrow> calls \<times> call_intent list res" where
  "observed_playback v ev sequence e s =
     (if \<not> observable s e \<or> expected_kind s e \<noteq> Some (ve_act_kind e) \<or> \<not> accepts_caller_playback v e \<or>
         \<not> can_accept_position s (ve_binding e) ev sequence (ve_at_ms e) then (s, Inr [])
      else act_heard (ve_act e) (ve_at_ms e) (take_position s ev sequence (ve_at_ms e)))"

section \<open>Silence\<close>

definition ARMED_PHASES :: "silence_phase list" where
  "ARMED_PHASES = [FIRST_ARMED, SECOND_ARMED, MORE_TIME_ARMED]"

definition timer_receipt :: "calls \<Rightarrow> call_intent option" where
  "timer_receipt s = (if cl_phase s \<in> set ARMED_PHASES then cl_timer s else None)"

definition ask_presence :: "calls \<Rightarrow> calls \<times> call_intent list res" where
  "ask_presence s =
     (let s1 = supersede_question s; act = ''presence_'' @ int_str (cl_revision s1) in
      issue_intent REQUEST_PRESENCE_CHECK act act (s1\<lparr>cl_phase := PRESENCE_PENDING, cl_presence := Some act\<rparr>))"

definition ask_closing :: "calls \<Rightarrow> calls \<times> call_intent list res" where
  "ask_closing s =
     (let act = ''closing_'' @ int_str (cl_revision s) in
      issue_intent REQUEST_CLOSING act act (s\<lparr>cl_phase := CLOSING_PENDING, cl_closing := Some act\<rparr>))"

definition timer_fired :: "voice_binding \<Rightarrow> string \<Rightarrow> int \<Rightarrow> string \<Rightarrow> int \<Rightarrow> int \<Rightarrow> calls \<Rightarrow> calls \<times> call_intent list res" where
  "timer_fired b ev sequence action revision now_ms s =
     (case (cl_timer s, cl_deadline s) of
        (Some t, Some deadline) \<Rightarrow>
          if cl_phase s \<notin> set ARMED_PHASES \<or> revision \<noteq> cl_revision s \<or> now_ms < deadline \<or> action \<noteq> ci_action t \<or>
             revision \<noteq> ci_revision t \<or> \<not> can_accept_position s b ev sequence now_ms then (s, Inr [])
          else let s1 = (take_position s ev sequence now_ms)\<lparr>cl_deadline := None, cl_timer := None\<rparr> in
            if cl_phase s = FIRST_ARMED \<or> cl_phase s = MORE_TIME_ARMED \<and> \<not> cl_presence_delivered s then ask_presence s1
            else ask_closing s1
      | _ \<Rightarrow> (s, Inr []))"

definition deadline_expired :: "calls \<Rightarrow> int \<Rightarrow> bool" where
  "deadline_expired s at_ms =
     (cl_phase s \<in> set ARMED_PHASES \<and> (case cl_deadline s of None \<Rightarrow> False | Some d \<Rightarrow> d < at_ms))"

definition acts_in_hand :: "calls \<Rightarrow> string option list" where
  "acts_in_hand s = [question_act s, cl_presence s, cl_ack s, cl_fallback s, cl_closing s]"

text \<open>First the intents that withdraw what was given out, then what comes instead.\<close>

definition withdraw_then ::
    "(intent_kind \<times> string \<times> string option) list \<Rightarrow> (calls \<Rightarrow> calls \<times> call_intent list res) \<Rightarrow> calls \<Rightarrow> calls \<times> call_intent list res" where
  "withdraw_then xs f s =
     (case new_intents xs s of
        (s1, Inl err) \<Rightarrow> (s1, Inl err)
      | (s1, Inr is) \<Rightarrow> (case f s1 of (s2, r) \<Rightarrow> (s2, ebind r (\<lambda>js. Inr (is @ js)))))"

definition fallback_withdrawals :: "calls \<Rightarrow> (intent_kind \<times> string \<times> string option) list" where
  "fallback_withdrawals s =
     (let n = int_str (cl_revision s) in
      (if cl_deadline s = None then []
       else [(CANCEL_TIMER, ''fallback_cancel_timer_'' @ n, case question_act s of None \<Rightarrow> cl_origin s | Some act \<Rightarrow> Some act)]) @
      concat (map (\<lambda>(k, a). case a of None \<Rightarrow> []
         | Some act \<Rightarrow> [(CANCEL_ACT, ''fallback_cancel_act_'' @ n @ ''_'' @ int_str (int k), Some act)]) (enumerate 0 (acts_in_hand s))))"

definition start_fallback :: "intent_kind \<Rightarrow> string \<Rightarrow> int \<Rightarrow> calls \<Rightarrow> calls \<times> call_intent list res" where
  "start_fallback kind turn turn_sequence s =
     (let n = cl_revision s + 1; act = ''fallback_'' @ intent_kind_value kind @ ''_'' @ int_str n in
      issue_intent kind act act ((clear_silence_cycle s)\<lparr>cl_revision := n, cl_turn := Some turn, cl_turn_sequence := Some turn_sequence,
         cl_fallback_kind := Some kind, cl_fallback := Some act, cl_phase := FALLBACK_PENDING\<rparr>))"

definition fallback_allowed :: "intent_kind \<Rightarrow> int \<Rightarrow> string \<Rightarrow> int \<Rightarrow> calls \<Rightarrow> bool" where
  "fallback_allowed kind at_ms turn turn_sequence s =
     (kind \<in> set FALLBACK_KINDS \<and> call_id turn \<and> 0 \<le> turn_sequence \<and> cl_phase s \<in> set ARMED_PHASES \<and> cl_turn s = Some turn \<and>
      cl_turn_sequence s = Some turn_sequence \<and> \<not> deadline_expired s at_ms)"

definition request_fixed_fallback ::
    "intent_kind \<Rightarrow> voice_binding \<Rightarrow> string \<Rightarrow> int \<Rightarrow> int \<Rightarrow> string \<Rightarrow> int \<Rightarrow> calls \<Rightarrow> calls \<times> call_intent list res" where
  "request_fixed_fallback kind b ev sequence at_ms turn turn_sequence s =
     (if fallback_allowed kind at_ms turn turn_sequence s \<and> can_accept_position s b ev sequence at_ms
      then let s1 = take_position s ev sequence at_ms in
        withdraw_then (fallback_withdrawals s1) (start_fallback kind turn turn_sequence) s1
      else (s, Inr []))"

definition start_more_time :: "int \<Rightarrow> calls \<Rightarrow> calls \<times> call_intent list res" where
  "start_more_time sequence s =
     (let act = ''more_time_'' @ int_str (cl_revision s) @ ''_'' @ int_str sequence in
      issue_intent REQUEST_MORE_TIME_ACKNOWLEDGEMENT act act
        (s\<lparr>cl_deadline := None, cl_timer := None, cl_more_time_used := True, cl_ack := Some act, cl_phase := MORE_TIME_PENDING\<rparr>))"

definition request_more_time :: "voice_binding \<Rightarrow> string \<Rightarrow> int \<Rightarrow> int \<Rightarrow> calls \<Rightarrow> calls \<times> call_intent list res" where
  "request_more_time b ev sequence at_ms s =
     (if cl_phase s \<notin> {FIRST_ARMED, SECOND_ARMED, MORE_TIME_PENDING, MORE_TIME_ARMED} \<or> deadline_expired s at_ms \<or>
         \<not> can_accept_position s b ev sequence at_ms then (s, Inr [])
      else let s1 = take_position s ev sequence at_ms in
        if cl_more_time_used s1 \<or> cl_deadline s1 = None then (s1, Inr [])
        else withdraw_then [(CANCEL_TIMER, ''more_time_cancel_'' @ int_str (cl_revision s1), cl_origin s1)] (start_more_time sequence) s1)"

section \<open>The caller speaks, the call ends\<close>

text \<open>The intents that withdraw the timer and the acts in hand.\<close>

definition withdrawals :: "string \<Rightarrow> calls \<Rightarrow> (intent_kind \<times> string \<times> string option) list" where
  "withdrawals prefix s =
     (let n = int_str (cl_revision s) in
      (if cl_deadline s = None then [] else [(CANCEL_TIMER, prefix @ ''timer_'' @ n, question_act s)]) @
      concat (map (\<lambda>a. case a of None \<Rightarrow> [] | Some act \<Rightarrow> [(CANCEL_ACT, prefix @ act @ ''_'' @ n, Some act)]) (acts_in_hand s)))"

definition reset_calls :: "calls \<Rightarrow> calls" where
  "reset_calls s = (clear_silence_cycle s)\<lparr>cl_phase := IDLE, cl_revision := cl_revision s + 1\<rparr>"

definition cancel_silence :: "voice_binding \<Rightarrow> string \<Rightarrow> int \<Rightarrow> int \<Rightarrow> calls \<Rightarrow> calls \<times> call_intent list res" where
  "cancel_silence b ev sequence at_ms s =
     (if deadline_expired s at_ms \<or> \<not> can_accept_position s b ev sequence at_ms then (s, Inr [])
      else let s1 = take_position s ev sequence at_ms in
        if cl_phase s1 = TERMINATED then (s1, Inr [])
        else withdraw_then (withdrawals ''cancel_'' s1) (\<lambda>s. (reset_calls s, Inr [])) s1)"

definition seal_calls :: "calls \<Rightarrow> calls" where
  "seal_calls s = (clear_silence_cycle s)\<lparr>cl_phase := TERMINATED, cl_revision := cl_revision s + 1\<rparr>"

definition hard_terminalize_calls :: "calls \<Rightarrow> calls \<times> call_intent list res" where
  "hard_terminalize_calls s = withdraw_then (withdrawals ''hard_cancel_'' s) (\<lambda>s. (seal_calls s, Inr [])) s"

definition intent_current :: "calls \<Rightarrow> call_intent \<Rightarrow> bool" where
  "intent_current s i =
     (ci_kind i = REQUEST_PRESENCE_CHECK \<and> cl_phase s = PRESENCE_PENDING \<and> ci_act i = cl_presence s \<or>
      ci_kind i = REQUEST_MORE_TIME_ACKNOWLEDGEMENT \<and> cl_phase s = MORE_TIME_PENDING \<and> ci_act i = cl_ack s \<or>
      ci_kind i = REQUEST_CLOSING \<and> cl_phase s = CLOSING_PENDING \<and> ci_act i = cl_closing s \<or>
      ci_kind i \<in> set FALLBACK_KINDS \<and> cl_phase s = FALLBACK_PENDING \<and> cl_fallback_kind s = Some (ci_kind i) \<and>
        ci_act i = cl_fallback s)"

definition consume_intent :: "call_intent \<Rightarrow> string option \<Rightarrow> calls \<Rightarrow> calls \<times> bool" where
  "consume_intent i materialized s =
     (if \<not> absent_or call_id materialized then (s, False)
      else let expected = cl_issued s (ci_action i); s1 = s\<lparr>cl_issued := (cl_issued s)(ci_action i := None)\<rparr>;
          accepted = (expected = Some i \<and> ci_binding i = cl_binding s \<and> ci_revision i = cl_revision s \<and> intent_current s i) in
        case (accepted, ci_act i) of
          (True, Some act) \<Rightarrow>
            let actual = (case materialized of None \<Rightarrow> act | Some m \<Rightarrow> m);
              s2 = (if ci_kind i = REQUEST_PRESENCE_CHECK then s1\<lparr>cl_presence := Some actual\<rparr>
                    else if ci_kind i = REQUEST_MORE_TIME_ACKNOWLEDGEMENT then s1\<lparr>cl_ack := Some actual\<rparr>
                    else if ci_kind i \<in> set FALLBACK_KINDS then s1\<lparr>cl_fallback := Some actual\<rparr> else s1\<lparr>cl_closing := Some actual\<rparr>) in
            (s2\<lparr>cl_materialized := insert actual (cl_materialized s2)\<rparr>, True)
        | _ \<Rightarrow> (if expected = None then s1 else seal_calls s1, accepted))"

definition terminalize :: "call_intent \<Rightarrow> calls \<Rightarrow> calls \<times> bool" where
  "terminalize i s =
     (let expected = cl_issued s (ci_action i); s1 = s\<lparr>cl_issued := (cl_issued s)(ci_action i := None)\<rparr>;
        accepted = (expected = Some i \<and> ci_kind i = END_ELIGIBLE \<and> ci_binding i = cl_binding s \<and> ci_revision i = cl_revision s \<and>
          cl_phase s = TERMINAL_ELIGIBLE) in
      (if accepted \<or> expected \<noteq> None then seal_calls s1 else s1, accepted))"

section \<open>Runs\<close>

text \<open>The reducer beside the voice lifecycle it reads, which goes on by its own events.\<close>

datatype call_op =
    Voice voice_event
  | Reserve_Question voice_binding string int int question_intent
  | Rollback_Question voice_binding question_intent
  | Confirmed string int voice_event
  | Resolved string int voice_event
  | Playback voice_binding string int string playback_evidence int "string option" "string option"
  | Observed string int voice_event
  | Timer_Fired voice_binding string int string int int
  | Fallback intent_kind voice_binding string int int string int
  | More_Time voice_binding string int int
  | Caller_Active voice_binding string int int
  | Hard_Terminalize_Calls
  | Consume call_intent "string option"
  | Terminalize call_intent

datatype call_answer = Verdict bool | Intents "call_intent list res"

fun call_step :: "calls \<times> lifecycle \<Rightarrow> call_op \<Rightarrow> (calls \<times> lifecycle) \<times> call_answer" where
  "call_step (s, v) (Voice e) = (case ingest v e of (v', ok) \<Rightarrow> ((s, v'), Verdict ok))"
| "call_step (s, v) (Reserve_Question b ev n t q) = (case reserve_question b ev n t q s of (s', ok) \<Rightarrow> ((s', v), Verdict ok))"
| "call_step (s, v) (Rollback_Question b q) = (case rollback_question b q s of (s', ok) \<Rightarrow> ((s', v), Verdict ok))"
| "call_step (s, v) (Confirmed ev n e) = (case semantic_confirmed v ev n e s of (s', ok) \<Rightarrow> ((s', v), Verdict ok))"
| "call_step (s, v) (Resolved ev n e) = (case transport_resolved v ev n e s of (s', ok) \<Rightarrow> ((s', v), Verdict ok))"
| "call_step (s, v) (Playback b ev n act evidence t inferred tr) =
     (case playback b ev n act evidence t inferred tr s of (s', r) \<Rightarrow> ((s', v), Intents r))"
| "call_step (s, v) (Observed ev n e) = (case observed_playback v ev n e s of (s', r) \<Rightarrow> ((s', v), Intents r))"
| "call_step (s, v) (Timer_Fired b ev n action revision t) =
     (case timer_fired b ev n action revision t s of (s', r) \<Rightarrow> ((s', v), Intents r))"
| "call_step (s, v) (Fallback kind b ev n t turn tn) =
     (case request_fixed_fallback kind b ev n t turn tn s of (s', r) \<Rightarrow> ((s', v), Intents r))"
| "call_step (s, v) (More_Time b ev n t) = (case request_more_time b ev n t s of (s', r) \<Rightarrow> ((s', v), Intents r))"
| "call_step (s, v) (Caller_Active b ev n t) = (case cancel_silence b ev n t s of (s', r) \<Rightarrow> ((s', v), Intents r))"
| "call_step (s, v) Hard_Terminalize_Calls = (case hard_terminalize_calls s of (s', r) \<Rightarrow> ((s', v), Intents r))"
| "call_step (s, v) (Consume i m) = (case consume_intent i m s of (s', ok) \<Rightarrow> ((s', v), Verdict ok))"
| "call_step (s, v) (Terminalize i) = (case terminalize i s of (s', ok) \<Rightarrow> ((s', v), Verdict ok))"

definition call_run :: "calls \<times> lifecycle \<Rightarrow> call_op list \<Rightarrow> calls \<times> lifecycle" where
  "call_run x ops = foldl (\<lambda>y op. fst (call_step y op)) x ops"

end
