(* ===== verification/Call_Silence_Safety.thy ===== *)
theory Call_Silence_Safety
  imports Call_Silence Firestore
begin

text \<open>
  What holds in every run of the reducer of theory Call_Silence beside a voice lifecycle that goes on by itself: it refines an
  abstract clock of silence, so that a call ends for silence only after the caller was asked twice and had the time promised;
  an intent is used once; nothing given out outlives a reset.
\<close>

section \<open>The clock of silence\<close>

text \<open>What of the state decides how long the caller may be silent.\<close>

record silence_clock =
  sk_phase :: silence_phase
  sk_deadline :: "int option"
  sk_used :: bool
  sk_delivered :: bool
  sk_now :: int
  sk_first_ms :: int
  sk_second_ms :: int
  sk_extension_ms :: int

definition clock_of :: "calls \<Rightarrow> silence_clock" where
  "clock_of s = \<lparr>sk_phase = cl_phase s, sk_deadline = cl_deadline s, sk_used = cl_more_time_used s,
     sk_delivered = cl_presence_delivered s, sk_now = cl_at_ms s,
     sk_first_ms = cl_first_ms s, sk_second_ms = cl_second_ms s, sk_extension_ms = cl_extension_ms s\<rparr>"

definition stopped :: "silence_phase \<Rightarrow> silence_clock \<Rightarrow> silence_clock" where
  "stopped p c = c\<lparr>sk_phase := p, sk_deadline := None, sk_used := False, sk_delivered := False\<rparr>"

text \<open>The moves of the clock.\<close>

inductive clock_move :: "silence_clock \<Rightarrow> silence_clock \<Rightarrow> bool" where
  tick: "sk_now c \<le> t \<Longrightarrow> clock_move c (c\<lparr>sk_now := t\<rparr>)"
| asked: "\<lbrakk>sk_phase c = IDLE; sk_now c \<le> t\<rbrakk> \<Longrightarrow>
     clock_move c (c\<lparr>sk_phase := QUESTION_RESERVED, sk_used := False, sk_delivered := False, sk_now := t\<rparr>)"
| confirmed: "\<lbrakk>sk_phase c = QUESTION_RESERVED; sk_now c \<le> t\<rbrakk> \<Longrightarrow> clock_move c (c\<lparr>sk_phase := QUESTION_CONFIRMED, sk_now := t\<rparr>)"
| question_heard: "\<lbrakk>sk_phase c = QUESTION_CONFIRMED; sk_now c \<le> t\<rbrakk> \<Longrightarrow>
     clock_move c (c\<lparr>sk_phase := FIRST_ARMED, sk_deadline := Some (t + sk_first_ms c), sk_now := t\<rparr>)"
| presence_heard: "\<lbrakk>sk_phase c = PRESENCE_PENDING; sk_now c \<le> t\<rbrakk> \<Longrightarrow>
     clock_move c (c\<lparr>sk_phase := SECOND_ARMED, sk_deadline := Some (t + sk_second_ms c), sk_delivered := True, sk_now := t\<rparr>)"
| extension_heard: "\<lbrakk>sk_phase c = MORE_TIME_PENDING; sk_now c \<le> t\<rbrakk> \<Longrightarrow>
     clock_move c (c\<lparr>sk_phase := MORE_TIME_ARMED, sk_deadline := Some (t + sk_extension_ms c), sk_now := t\<rparr>)"
| closing_heard: "\<lbrakk>sk_phase c = CLOSING_PENDING; sk_now c \<le> t\<rbrakk> \<Longrightarrow> clock_move c (c\<lparr>sk_phase := TERMINAL_ELIGIBLE, sk_now := t\<rparr>)"
| presence_due: "\<lbrakk>sk_phase c = FIRST_ARMED \<or> sk_phase c = MORE_TIME_ARMED \<and> \<not> sk_delivered c; sk_deadline c = Some d; d \<le> t;
     sk_now c \<le> t\<rbrakk> \<Longrightarrow> clock_move c (c\<lparr>sk_phase := PRESENCE_PENDING, sk_deadline := None, sk_now := t\<rparr>)"
| closing_due: "\<lbrakk>sk_phase c = SECOND_ARMED \<or> sk_phase c = MORE_TIME_ARMED \<and> sk_delivered c; sk_deadline c = Some d; d \<le> t;
     sk_now c \<le> t\<rbrakk> \<Longrightarrow> clock_move c (c\<lparr>sk_phase := CLOSING_PENDING, sk_deadline := None, sk_now := t\<rparr>)"
| more_time: "\<lbrakk>sk_phase c \<in> {FIRST_ARMED, SECOND_ARMED, MORE_TIME_PENDING, MORE_TIME_ARMED}; \<not> sk_used c; sk_now c \<le> t\<rbrakk> \<Longrightarrow>
     clock_move c (c\<lparr>sk_phase := MORE_TIME_PENDING, sk_deadline := None, sk_used := True, sk_now := t\<rparr>)"
| fallback: "\<lbrakk>sk_phase c \<in> set ARMED_PHASES; sk_now c \<le> t\<rbrakk> \<Longrightarrow> clock_move c (stopped FALLBACK_PENDING (c\<lparr>sk_now := t\<rparr>))"
| reset: "\<lbrakk>sk_phase c \<noteq> TERMINATED; sk_now c \<le> t\<rbrakk> \<Longrightarrow> clock_move c (stopped IDLE (c\<lparr>sk_now := t\<rparr>))"
| sealed: "clock_move c (stopped TERMINATED c)"

lemma clock_kept [intro]: "clock_move c c"
  using clock_move.tick [of c "sk_now c"] by simp

section \<open>Every operation moves the clock\<close>

lemma clock_simps [simp]:
  "sk_phase (clock_of s) = cl_phase s" "sk_deadline (clock_of s) = cl_deadline s" "sk_used (clock_of s) = cl_more_time_used s"
  "sk_delivered (clock_of s) = cl_presence_delivered s" "sk_now (clock_of s) = cl_at_ms s"
  "sk_first_ms (clock_of s) = cl_first_ms s" "sk_second_ms (clock_of s) = cl_second_ms s" "sk_extension_ms (clock_of s) = cl_extension_ms s"
  by (simp_all add: clock_of_def)

lemma new_intent_state: "new_intent s kind action act d = (s1, r) \<Longrightarrow> s1 = s\<lparr>cl_made := Suc (cl_made s)\<rparr>"
  by (auto simp: new_intent_def)

lemma new_intents_state: "new_intents xs s = (s1, r) \<Longrightarrow> \<exists>n \<ge> cl_made s. s1 = s\<lparr>cl_made := n\<rparr>"
proof (induction xs s arbitrary: s1 r rule: new_intents.induct)
  case (1 s)
  then show ?case by (auto intro: exI [of _ "cl_made s"])
next
  case (2 kind action act xs s)
  obtain s2 x where x: "new_intent s kind action act None = (s2, x)" by (cases "new_intent s kind action act None")
  note s2 = new_intent_state [OF x]
  show ?case
  proof (cases x)
    case (Inl err)
    with 2(2) x s2 show ?thesis by (auto intro!: exI [of _ "Suc (cl_made s)"])
  next
    case (Inr i)
    obtain s3 y where y: "new_intents xs s2 = (s3, y)" by (cases "new_intents xs s2")
    from 2(1) [OF x [symmetric] Inr y] obtain n where "n \<ge> cl_made s2" "s3 = s2\<lparr>cl_made := n\<rparr>" by blast
    with 2(2) x s2 Inr y show ?thesis by (auto intro!: exI [of _ n])
  qed
qed

lemma make_intent_cases: "make_intent i = Inl ValueError \<or> make_intent i = Inr i"
  by (simp add: make_intent_def)

lemma issue_intent_cases:
  assumes "issue_intent kind action act s = (s1, r)"
  obtains err where "s1 = s\<lparr>cl_made := Suc (cl_made s)\<rparr>" "r = Inl err"
  | i where "s1 = s\<lparr>cl_made := Suc (cl_made s), cl_issued := (cl_issued s)(action \<mapsto> i)\<rparr>" "r = Inr [i]"
    "ci_ref i = cl_made s" "ci_action i = action"
proof -
  let ?i = "\<lparr>ci_ref = cl_made s, ci_kind = kind, ci_binding = cl_binding s, ci_revision = cl_revision s, ci_action = action,
    ci_act = Some act, ci_deadline = None, ci_turn = cl_turn s, ci_turn_sequence = cl_turn_sequence s\<rparr>"
  from make_intent_cases [of ?i] show thesis
  proof
    assume "make_intent ?i = Inl ValueError"
    with assms have "s1 = s\<lparr>cl_made := Suc (cl_made s)\<rparr>" "r = Inl ValueError" by (simp_all add: issue_intent_def new_intent_def)
    then show thesis by (rule that(1))
  next
    assume "make_intent ?i = Inr ?i"
    with assms have "s1 = s\<lparr>cl_made := Suc (cl_made s), cl_issued := (cl_issued s)(action \<mapsto> ?i)\<rparr>" "r = Inr [?i]"
      by (simp_all add: issue_intent_def new_intent_def)
    then show thesis by (rule that(2)) simp_all
  qed
qed

lemma clock_issue: "issue_intent kind action act s = (s1, r) \<Longrightarrow> clock_of s1 = clock_of s"
  by (erule issue_intent_cases) (simp_all add: clock_of_def)

lemma clock_new_intents: "new_intents xs s = (s1, r) \<Longrightarrow> clock_of s1 = clock_of s"
  by (drule new_intents_state) (auto simp: clock_of_def)

lemma clock_arm: "arm p act d s = (s1, r) \<Longrightarrow> clock_of s1 = (clock_of s)\<lparr>sk_phase := p, sk_deadline := Some d\<rparr>"
  by (auto simp: arm_def new_intent_def Let_def clock_of_def split: sum.splits)

lemma clock_take [simp]: "clock_of (take_position s ev n t) = (clock_of s)\<lparr>sk_now := t\<rparr>"
  by (simp add: take_position_def clock_of_def)

lemma position_at: "can_accept_position s b ev n t \<Longrightarrow> cl_at_ms s \<le> t"
  by (simp add: can_accept_position_def)

abbreviation moves :: "calls \<Rightarrow> calls \<Rightarrow> bool" where
  "moves s s' \<equiv> clock_move (clock_of s) (clock_of s')"

lemma act_heard_cases:
  assumes "act_heard act t s = (s', r)"
  obtains (question) "cl_phase s = QUESTION_CONFIRMED" "arm FIRST_ARMED act (t + cl_first_ms s) s = (s', r)"
  | (presence) "cl_phase s = PRESENCE_PENDING" "arm SECOND_ARMED act (t + cl_second_ms s)
      (s\<lparr>cl_materialized := cl_materialized s - {act}, cl_presence := None, cl_presence_delivered := True\<rparr>) = (s', r)"
  | (ack) "cl_phase s = MORE_TIME_PENDING" "arm MORE_TIME_ARMED act (t + cl_extension_ms s)
      (s\<lparr>cl_materialized := cl_materialized s - {act}, cl_ack := None\<rparr>) = (s', r)"
  | (closing) "cl_phase s = CLOSING_PENDING" "issue_intent END_ELIGIBLE (''terminal_'' @ act) act
      (s\<lparr>cl_materialized := cl_materialized s - {act}, cl_closing := None, cl_phase := TERMINAL_ELIGIBLE\<rparr>) = (s', r)"
  | (fallback) "cl_phase s = FALLBACK_PENDING" "s' = reset_calls s"
  | (nothing) "s' = s"
proof -
  let ?done = "s\<lparr>cl_materialized := cl_materialized s - {act}\<rparr>"
  let ?q = "question_act s = Some act \<and> cl_phase s = QUESTION_CONFIRMED" and ?p = "cl_presence s = Some act \<and> cl_phase s = PRESENCE_PENDING"
    and ?m = "cl_ack s = Some act \<and> cl_phase s = MORE_TIME_PENDING" and ?c = "cl_closing s = Some act \<and> cl_phase s = CLOSING_PENDING"
    and ?f = "cl_fallback s = Some act \<and> cl_phase s = FALLBACK_PENDING"
  have heard: "(if ?q then arm FIRST_ARMED act (t + cl_first_ms s) s
      else if ?p then arm SECOND_ARMED act (t + cl_second_ms s) (?done\<lparr>cl_presence := None, cl_presence_delivered := True\<rparr>)
      else if ?m then arm MORE_TIME_ARMED act (t + cl_extension_ms s) (?done\<lparr>cl_ack := None\<rparr>)
      else if ?c then issue_intent END_ELIGIBLE (''terminal_'' @ act) act (?done\<lparr>cl_closing := None, cl_phase := TERMINAL_ELIGIBLE\<rparr>)
      else if ?f then (reset_calls s, Inr []) else (s, Inr [])) = (s', r)"
    using assms(1) unfolding act_heard_def Let_def reset_calls_def .
  consider ?q | ?p | ?m | ?c | ?f | "\<not> ?q \<and> \<not> ?p \<and> \<not> ?m \<and> \<not> ?c \<and> \<not> ?f" by argo
  then show thesis
  proof cases
    case 1
    with heard show thesis by (intro question) simp_all
  next
    case 2
    with heard show thesis by (intro presence) simp_all
  next
    case 3
    with heard show thesis by (intro ack) simp_all
  next
    case 4
    with heard show thesis by (intro closing) simp_all
  next
    case 5
    with heard show thesis by (intro fallback) simp_all
  next
    case 6
    with heard have "s' = s" by simp
    then show thesis by (rule nothing)
  qed
qed

lemma clock_reset: "clock_of (reset_calls s) = stopped IDLE (clock_of s)" "clock_of (seal_calls s) = stopped TERMINATED (clock_of s)"
  by (simp_all add: reset_calls_def seal_calls_def clear_silence_cycle_def clock_of_def stopped_def)

lemma act_heard_moves:
  assumes "act_heard act t s = (s', r)" and c: "clock_of s = (clock_of s0)\<lparr>sk_now := t\<rparr>" and t: "cl_at_ms s0 \<le> t"
  shows "moves s0 s'"
proof -
  have phase: "cl_phase s = cl_phase s0" "cl_first_ms s = cl_first_ms s0" "cl_second_ms s = cl_second_ms s0"
    "cl_extension_ms s = cl_extension_ms s0" using c by (simp_all add: clock_of_def)
  show ?thesis
    using assms(1)
  proof (cases rule: act_heard_cases)
    case question
    from clock_arm [OF question(2)] c phase
    have "clock_of s' = (clock_of s0)\<lparr>sk_phase := FIRST_ARMED, sk_deadline := Some (t + cl_first_ms s0), sk_now := t\<rparr>" by simp
    with question(1) phase t show ?thesis using clock_move.question_heard [of "clock_of s0" t] by simp
  next
    case presence
    have "clock_of (s\<lparr>cl_materialized := cl_materialized s - {act}, cl_presence := None, cl_presence_delivered := True\<rparr>) =
        (clock_of s0)\<lparr>sk_now := t, sk_delivered := True\<rparr>" using c by (simp add: clock_of_def)
    with clock_arm [OF presence(2)] phase
    have "clock_of s' = (clock_of s0)\<lparr>sk_phase := SECOND_ARMED, sk_deadline := Some (t + cl_second_ms s0), sk_delivered := True, sk_now := t\<rparr>"
      by simp
    with presence(1) phase t show ?thesis using clock_move.presence_heard [of "clock_of s0" t] by simp
  next
    case ack
    have "clock_of (s\<lparr>cl_materialized := cl_materialized s - {act}, cl_ack := None\<rparr>) = (clock_of s0)\<lparr>sk_now := t\<rparr>"
      using c by (simp add: clock_of_def)
    with clock_arm [OF ack(2)] phase
    have "clock_of s' = (clock_of s0)\<lparr>sk_phase := MORE_TIME_ARMED, sk_deadline := Some (t + cl_extension_ms s0), sk_now := t\<rparr>" by simp
    with ack(1) phase t show ?thesis using clock_move.extension_heard [of "clock_of s0" t] by simp
  next
    case closing
    from clock_issue [OF closing(2)] c have "clock_of s' = (clock_of s0)\<lparr>sk_phase := TERMINAL_ELIGIBLE, sk_now := t\<rparr>"
      by (simp add: clock_of_def)
    with closing(1) phase t show ?thesis by (simp add: clock_move.closing_heard)
  next
    case fallback
    then have "clock_of s' = stopped IDLE ((clock_of s0)\<lparr>sk_now := t\<rparr>)" using c by (simp add: clock_reset)
    with fallback(1) phase t show ?thesis by (simp add: clock_move.reset)
  next
    case nothing
    with c t show ?thesis by (simp add: clock_move.tick)
  qed
qed

lemma playback_moves: "playback b ev n act evidence t inferred tr s = (s', r) \<Longrightarrow> moves s s'"
proof -
  assume p: "playback b ev n act evidence t inferred tr s = (s', r)"
  let ?s = "(take_position s ev n t)\<lparr>cl_transport := (cl_transport (take_position s ev n t))(act := None)\<rparr>"
  from p consider "s' = s" | "act_heard act t ?s = (s', r)" "can_accept_position s b ev n t"
    by (simp add: playback_def Let_def split: if_splits option.splits prod.splits)
  then show ?thesis
  proof cases
    case 2
    have "clock_of ?s = (clock_of s)\<lparr>sk_now := t\<rparr>" by (simp add: clock_of_def take_position_def)
    then show ?thesis using act_heard_moves [OF 2(1)] position_at [OF 2(2)] by blast
  qed auto
qed

lemma observed_moves: "observed_playback v ev n e s = (s', r) \<Longrightarrow> moves s s'"
proof -
  assume p: "observed_playback v ev n e s = (s', r)"
  then consider "s' = s" | "act_heard (ve_act e) (ve_at_ms e) (take_position s ev n (ve_at_ms e)) = (s', r)"
      "can_accept_position s (ve_binding e) ev n (ve_at_ms e)"
    by (simp add: observed_playback_def split: if_splits)
  then show ?thesis
  proof cases
    case 2
    then show ?thesis using act_heard_moves [OF 2(1)] position_at [OF 2(2)] by simp
  qed auto
qed

lemma clock_supersede [simp]: "clock_of (supersede_question s) = clock_of s"
  by (simp add: supersede_question_def clock_of_def)

lemma timer_moves: "timer_fired b ev n action revision t s = (s', r) \<Longrightarrow> moves s s'"
proof -
  assume p: "timer_fired b ev n action revision t s = (s', r)"
  let ?s = "(take_position s ev n t)\<lparr>cl_deadline := None, cl_timer := None\<rparr>"
  let ?ask = "cl_phase s = FIRST_ARMED \<or> cl_phase s = MORE_TIME_ARMED \<and> \<not> cl_presence_delivered s"
  from p consider "s' = s" | d where "cl_deadline s = Some d" "d \<le> t" "cl_phase s \<in> set ARMED_PHASES"
      "can_accept_position s b ev n t" "(if ?ask then ask_presence ?s else ask_closing ?s) = (s', r)"
    by (simp add: timer_fired_def Let_def split: if_splits option.splits)
  then show ?thesis
  proof cases
    case 2
    have c: "clock_of ?s = (clock_of s)\<lparr>sk_deadline := None, sk_now := t\<rparr>" by (simp add: clock_of_def take_position_def)
    show ?thesis
    proof (cases ?ask)
      case True
      with 2(5) have "ask_presence ?s = (s', r)" by simp
      then have "clock_of s' = (clock_of ?s)\<lparr>sk_phase := PRESENCE_PENDING\<rparr>"
        unfolding ask_presence_def Let_def by (drule_tac clock_issue) (simp add: clock_of_def supersede_question_def)
      with c have "clock_of s' = (clock_of s)\<lparr>sk_phase := PRESENCE_PENDING, sk_deadline := None, sk_now := t\<rparr>" by simp
      moreover have "clock_move (clock_of s)
          ((clock_of s)\<lparr>sk_phase := PRESENCE_PENDING, sk_deadline := None, sk_now := t\<rparr>)"
        by (rule clock_move.presence_due) (use True 2 position_at in \<open>simp_all\<close>)
      ultimately show ?thesis by simp
    next
      case False
      with 2(5) have "ask_closing ?s = (s', r)" by simp
      then have "clock_of s' = (clock_of ?s)\<lparr>sk_phase := CLOSING_PENDING\<rparr>"
        unfolding ask_closing_def Let_def by (drule_tac clock_issue) (simp add: clock_of_def)
      with c have "clock_of s' = (clock_of s)\<lparr>sk_phase := CLOSING_PENDING, sk_deadline := None, sk_now := t\<rparr>" by simp
      moreover have "clock_move (clock_of s)
          ((clock_of s)\<lparr>sk_phase := CLOSING_PENDING, sk_deadline := None, sk_now := t\<rparr>)"
        by (rule clock_move.closing_due) (use False 2 position_at in \<open>auto simp: ARMED_PHASES_def\<close>)
      ultimately show ?thesis by simp
    qed
  qed auto
qed

lemma question_moves: "reserve_question b ev n t q s = (s', ok) \<Longrightarrow> moves s s'"
proof (cases "cl_phase s = IDLE \<and> can_accept_position s b ev n t")
  case True
  assume "reserve_question b ev n t q s = (s', ok)"
  with True have "clock_of s' = (clock_of s)\<lparr>sk_phase := QUESTION_RESERVED, sk_used := False, sk_delivered := False, sk_now := t\<rparr>"
    by (auto simp: reserve_question_def clock_of_def take_position_def)
  then show ?thesis using True position_at [of s b ev n t] by (simp add: clock_move.asked)
qed (auto simp: reserve_question_def)

lemma rollback_moves: "rollback_question b q s = (s', ok) \<Longrightarrow> moves s s'"
proof (cases "s' = s")
  case False
  assume "rollback_question b q s = (s', ok)"
  with False have s': "cl_phase s = QUESTION_RESERVED" "s' = (clear_silence_cycle s)\<lparr>cl_phase := IDLE\<rparr>"
    by (auto simp: rollback_question_def split: if_splits)
  have "clock_of s' = stopped IDLE ((clock_of s)\<lparr>sk_now := cl_at_ms s\<rparr>)"
    by (simp add: s'(2) clear_silence_cycle_def clock_of_def stopped_def)
  then show ?thesis using s'(1) clock_move.reset [of "clock_of s" "cl_at_ms s"] by simp
qed auto

lemma confirmed_moves: "semantic_confirmed v ev n e s = (s', ok) \<Longrightarrow> moves s s'"
proof (cases "s' = s")
  case False
  assume "semantic_confirmed v ev n e s = (s', ok)"
  with False have s': "can_semantic_confirm v s e" "can_accept_position s (ve_binding e) ev n (ve_at_ms e)"
    "s' = (take_position s ev n (ve_at_ms e))\<lparr>cl_phase := QUESTION_CONFIRMED\<rparr>"
    by (auto simp: semantic_confirmed_def split: if_splits)
  have "clock_of s' = (clock_of s)\<lparr>sk_phase := QUESTION_CONFIRMED, sk_now := ve_at_ms e\<rparr>"
    by (simp add: s'(3) clock_of_def take_position_def)
  then show ?thesis using s'(1) position_at [OF s'(2)] by (simp add: clock_move.confirmed can_semantic_confirm_def)
qed auto

lemma transport_moves: "transport_resolved v ev n e s = (s', ok) \<Longrightarrow> moves s s'"
proof (cases "s' = s")
  case False
  assume "transport_resolved v ev n e s = (s', ok)"
  with False have s': "can_accept_position s (ve_binding e) ev n (ve_at_ms e)" "\<exists>T. s' = (take_position s ev n (ve_at_ms e))\<lparr>cl_transport := T\<rparr>"
    by (auto simp: transport_resolved_def Let_def split: if_splits)
  then have "clock_of s' = (clock_of s)\<lparr>sk_now := ve_at_ms e\<rparr>" by (auto simp: clock_of_def take_position_def)
  then show ?thesis using position_at [OF s'(1)] by (simp add: clock_move.tick)
qed auto

lemma withdraw_then_cases:
  assumes "withdraw_then xs f s = (s', r)"
  obtains n err where "s' = s\<lparr>cl_made := n\<rparr>" "r = Inl err" "cl_made s \<le> n"
  | n js0 y where "f (s\<lparr>cl_made := n\<rparr>) = (s', y)" "r = ebind y (\<lambda>js. Inr (js0 @ js))" "cl_made s \<le> n"
proof -
  obtain s2 x where x: "new_intents xs s = (s2, x)" by (cases "new_intents xs s")
  then obtain n where n: "cl_made s \<le> n" "s2 = s\<lparr>cl_made := n\<rparr>" using new_intents_state by blast
  show thesis
  proof (cases x)
    case (Inl err)
    with assms x n have "s' = s\<lparr>cl_made := n\<rparr>" "r = Inl err" by (simp_all add: withdraw_then_def)
    then show thesis using n(1) by (rule that(1))
  next
    case (Inr js0)
    obtain s3 y where "f s2 = (s3, y)" by (cases "f s2")
    with assms x n Inr show thesis by (intro that(2) [of n y js0]) (simp_all add: withdraw_then_def)
  qed
qed

lemma clock_made [simp]: "clock_of (s\<lparr>cl_made := n\<rparr>) = clock_of s"
  by (simp add: clock_of_def)

lemma fallback_moves: "request_fixed_fallback kind b ev n t turn tn s = (s', r) \<Longrightarrow> moves s s'"
proof (cases "fallback_allowed kind t turn tn s \<and> can_accept_position s b ev n t")
  case True
  have pos: "cl_at_ms s \<le> t" using True position_at by blast
  let ?s = "take_position s ev n t"
  assume "request_fixed_fallback kind b ev n t turn tn s = (s', r)"
  with True have "withdraw_then (fallback_withdrawals ?s) (start_fallback kind turn tn) ?s = (s', r)"
    by (simp add: request_fixed_fallback_def Let_def)
  then show ?thesis
  proof (cases rule: withdraw_then_cases)
    case (1 n err)
    then show ?thesis using pos True by (simp add: clock_move.tick)
  next
    case (2 n js0 y)
    then have "clock_of s' = stopped FALLBACK_PENDING ((clock_of s)\<lparr>sk_now := t\<rparr>)"
      unfolding start_fallback_def Let_def
      by (drule_tac clock_issue) (simp add: clear_silence_cycle_def clock_of_def stopped_def take_position_def)
    then show ?thesis using pos True by (simp add: clock_move.fallback fallback_allowed_def)
  qed
qed (auto simp: request_fixed_fallback_def)

lemma more_time_moves: "request_more_time b ev n t s = (s', r) \<Longrightarrow> moves s s'"
proof (cases "cl_phase s \<in> {FIRST_ARMED, SECOND_ARMED, MORE_TIME_PENDING, MORE_TIME_ARMED} \<and> \<not> deadline_expired s t \<and>
    can_accept_position s b ev n t")
  case True
  have pos: "cl_at_ms s \<le> t" using True position_at by blast
  let ?s = "take_position s ev n t"
  assume m: "request_more_time b ev n t s = (s', r)"
  show ?thesis
  proof (cases "cl_more_time_used ?s \<or> cl_deadline ?s = None")
    case used: True
    with m True have "s' = ?s" by (auto simp: request_more_time_def Let_def)
    then show ?thesis using pos True by (simp add: clock_move.tick)
  next
    case False
    with m True have w: "withdraw_then [(CANCEL_TIMER, ''more_time_cancel_'' @ int_str (cl_revision ?s), cl_origin ?s)] (start_more_time n) ?s = (s', r)"
      by (auto simp: request_more_time_def Let_def)
    have unused: "\<not> cl_more_time_used s" using False by (simp add: take_position_def)
    from w show ?thesis
    proof (cases rule: withdraw_then_cases)
      case (1 k err)
      then show ?thesis using pos True by (simp add: clock_move.tick)
    next
      case (2 k js0 y)
      then have "clock_of s' = (clock_of s)\<lparr>sk_phase := MORE_TIME_PENDING, sk_deadline := None, sk_used := True, sk_now := t\<rparr>"
        unfolding start_more_time_def Let_def by (drule_tac clock_issue) (simp add: clock_of_def take_position_def)
      then show ?thesis using pos True unused by (simp add: clock_move.more_time)
    qed
  qed
qed (auto simp: request_more_time_def)

lemma cancel_moves: "cancel_silence b ev n t s = (s', r) \<Longrightarrow> moves s s'"
proof (cases "deadline_expired s t \<or> \<not> can_accept_position s b ev n t")
  case False
  have pos: "cl_at_ms s \<le> t" using False position_at by blast
  let ?s = "take_position s ev n t"
  assume m: "cancel_silence b ev n t s = (s', r)"
  have p: "cl_phase ?s = cl_phase s" by (simp add: take_position_def)
  show ?thesis
  proof (cases "cl_phase s = TERMINATED")
    case True
    with m False p have "s' = ?s" by (simp add: cancel_silence_def Let_def)
    then show ?thesis using pos by (simp add: clock_move.tick)
  next
    case live: False
    with m False p have "withdraw_then (withdrawals ''cancel_'' ?s) (\<lambda>s. (reset_calls s, Inr [])) ?s = (s', r)"
      by (simp add: cancel_silence_def Let_def)
    then show ?thesis
    proof (cases rule: withdraw_then_cases)
      case (1 k err)
      then show ?thesis using pos by (simp add: clock_move.tick)
    next
      case (2 k js0 y)
      then have "clock_of s' = stopped IDLE ((clock_of s)\<lparr>sk_now := t\<rparr>)" by (auto simp: clock_reset)
      then show ?thesis using pos live by (simp add: clock_move.reset)
    qed
  qed
qed (auto simp: cancel_silence_def)

lemma hard_moves: "hard_terminalize_calls s = (s', r) \<Longrightarrow> moves s s'"
  unfolding hard_terminalize_calls_def
  by (erule withdraw_then_cases) (auto simp: clock_reset clock_move.sealed)

lemma consume_cases:
  assumes "consume_intent i m s = (s', ok)"
  obtains "s' = s" "\<not> ok"
  | P A F C M where "ok" "cl_issued s (ci_action i) = Some i" "ci_binding i = cl_binding s" "ci_revision i = cl_revision s"
      "intent_current s i"
      "s' = s\<lparr>cl_issued := (cl_issued s)(ci_action i := None), cl_presence := P, cl_ack := A, cl_fallback := F, cl_closing := C, cl_materialized := M\<rparr>"
  | "cl_issued s (ci_action i) \<noteq> None" "s' = seal_calls (s\<lparr>cl_issued := (cl_issued s)(ci_action i := None)\<rparr>)"
      "ok \<longrightarrow> cl_issued s (ci_action i) = Some i \<and> ci_binding i = cl_binding s \<and> ci_revision i = cl_revision s \<and> intent_current s i"
  | "cl_issued s (ci_action i) = None" "\<not> ok" "s' = s\<lparr>cl_issued := (cl_issued s)(ci_action i := None)\<rparr>"
proof -
  let ?s = "s\<lparr>cl_issued := (cl_issued s)(ci_action i := None)\<rparr>"
  let ?ok = "cl_issued s (ci_action i) = Some i \<and> ci_binding i = cl_binding s \<and> ci_revision i = cl_revision s \<and> intent_current s i"
  consider "\<not> absent_or call_id m" | "absent_or call_id m" "\<not> ?ok" | "absent_or call_id m" ?ok "ci_act i = None"
    | act where "absent_or call_id m" ?ok "ci_act i = Some act" by (cases "ci_act i") auto
  then show thesis
  proof cases
    case 1
    with assms show thesis by (intro that(1)) (auto simp: consume_intent_def)
  next
    case 2
    with assms have "s' = (if cl_issued s (ci_action i) = None then ?s else seal_calls ?s)" "ok = False"
      by (auto simp: consume_intent_def Let_def)
    then show thesis using that(3,4) by (cases "cl_issued s (ci_action i) = None") simp_all
  next
    case 3
    with assms have "s' = seal_calls ?s" by (simp add: consume_intent_def Let_def)
    with 3 show thesis by (intro that(3)) auto
  next
    case 4
    let ?a = "case m of None \<Rightarrow> act | Some x \<Rightarrow> x"
    from 4 assms have eq: "ok" "s' = (let s2 = (if ci_kind i = REQUEST_PRESENCE_CHECK then ?s\<lparr>cl_presence := Some ?a\<rparr>
                    else if ci_kind i = REQUEST_MORE_TIME_ACKNOWLEDGEMENT then ?s\<lparr>cl_ack := Some ?a\<rparr>
                    else if ci_kind i \<in> set FALLBACK_KINDS then ?s\<lparr>cl_fallback := Some ?a\<rparr> else ?s\<lparr>cl_closing := Some ?a\<rparr>) in
            s2\<lparr>cl_materialized := insert ?a (cl_materialized s2)\<rparr>)" by (auto simp: consume_intent_def Let_def)
    have "s' = s\<lparr>cl_issued := (cl_issued s)(ci_action i := None),
        cl_presence := if ci_kind i = REQUEST_PRESENCE_CHECK then Some ?a else cl_presence s,
        cl_ack := if ci_kind i = REQUEST_MORE_TIME_ACKNOWLEDGEMENT then Some ?a else cl_ack s,
        cl_fallback := if ci_kind i \<in> set FALLBACK_KINDS then Some ?a else cl_fallback s,
        cl_closing := if ci_kind i \<in> {REQUEST_PRESENCE_CHECK, REQUEST_MORE_TIME_ACKNOWLEDGEMENT} \<union> set FALLBACK_KINDS then cl_closing s else Some ?a,
        cl_materialized := insert ?a (cl_materialized s)\<rparr>"
      unfolding eq(2) Let_def by (cases "ci_kind i") (simp_all add: FALLBACK_KINDS_def)
    with 4 eq(1) show thesis by (intro that(2)) auto
  qed
qed

lemma clock_frame [simp]:
  "clock_of (s\<lparr>cl_issued := I\<rparr>) = clock_of s"
  "clock_of (s\<lparr>cl_issued := I, cl_presence := P, cl_ack := A, cl_fallback := F, cl_closing := C, cl_materialized := M\<rparr>) = clock_of s"
  by (simp_all add: clock_of_def)

lemma consume_moves: "consume_intent i m s = (s', ok) \<Longrightarrow> moves s s'"
  by (erule consume_cases) (auto simp: clock_reset clock_move.sealed)

lemma terminalize_moves: "terminalize i s = (s', ok) \<Longrightarrow> moves s s'"
proof -
  assume "terminalize i s = (s', ok)"
  then have "s' = s\<lparr>cl_issued := (cl_issued s)(ci_action i := None)\<rparr> \<or> s' = seal_calls (s\<lparr>cl_issued := (cl_issued s)(ci_action i := None)\<rparr>)"
    by (auto simp: terminalize_def Let_def split: if_splits)
  then show ?thesis by (auto simp: clock_reset clock_move.sealed)
qed

lemma step_moves: "call_step (s, v) op = ((s', v'), answer) \<Longrightarrow> moves s s'"
  by (cases op) (auto split: prod.splits intro: question_moves rollback_moves confirmed_moves transport_moves playback_moves observed_moves
    timer_moves fallback_moves more_time_moves cancel_moves hard_moves consume_moves terminalize_moves)

section \<open>The way to the end\<close>

text \<open>The phases entered in a run with their times, the last one first.\<close>

type_synonym phase_trail = "(silence_phase \<times> int) list"

definition entered :: "silence_clock \<Rightarrow> silence_clock \<Rightarrow> phase_trail \<Rightarrow> phase_trail" where
  "entered c c' h = (if sk_phase c' = sk_phase c then h else (sk_phase c', sk_now c') # h)"

definition asked_at :: "int \<Rightarrow> phase_trail \<Rightarrow> bool" where
  "asked_at t h = (\<exists>a b k. h = (FIRST_ARMED, t) # (QUESTION_CONFIRMED, a) # (QUESTION_RESERVED, b) # k)"

definition extended_at :: "int \<Rightarrow> phase_trail \<Rightarrow> phase_trail \<Rightarrow> bool" where
  "extended_at t k h = (\<exists>a. h = (MORE_TIME_ARMED, t) # (MORE_TIME_PENDING, a) # k)"

definition check_due_at :: "silence_clock \<Rightarrow> int \<Rightarrow> bool \<Rightarrow> phase_trail \<Rightarrow> bool" where
  "check_due_at c t used h = (\<exists>k. h = (PRESENCE_PENDING, t) # k \<and>
     ((\<exists>t0. asked_at t0 k \<and> t0 + sk_first_ms c \<le> t \<and> \<not> used) \<or>
      (\<exists>t0 k' x. extended_at x k' k \<and> asked_at t0 k' \<and> x + sk_extension_ms c \<le> t \<and> used)))"

definition checked_at :: "silence_clock \<Rightarrow> int \<Rightarrow> bool \<Rightarrow> phase_trail \<Rightarrow> bool" where
  "checked_at c t used h = (\<exists>k u. h = (SECOND_ARMED, t) # k \<and> check_due_at c u used k \<and> u \<le> t)"

definition closing_at :: "silence_clock \<Rightarrow> int \<Rightarrow> phase_trail \<Rightarrow> bool" where
  "closing_at c t h = (\<exists>k. h = (CLOSING_PENDING, t) # k \<and>
     ((\<exists>u used. checked_at c u used k \<and> u + sk_second_ms c \<le> t) \<or>
      (\<exists>u k' x. extended_at x k' k \<and> checked_at c u False k' \<and> x + sk_extension_ms c \<le> t)))"

definition half_way :: "silence_clock \<Rightarrow> phase_trail \<Rightarrow> bool" where
  "half_way c k = (if sk_delivered c then \<exists>t. checked_at c t False k else \<exists>t. asked_at t k)"

definition way :: "silence_clock \<Rightarrow> phase_trail \<Rightarrow> bool" where
  "way c h = (case sk_phase c of
     QUESTION_RESERVED \<Rightarrow> (\<exists>b k. h = (QUESTION_RESERVED, b) # k) \<and> \<not> sk_used c \<and> \<not> sk_delivered c
   | QUESTION_CONFIRMED \<Rightarrow> (\<exists>a b k. h = (QUESTION_CONFIRMED, a) # (QUESTION_RESERVED, b) # k) \<and> \<not> sk_used c \<and> \<not> sk_delivered c
   | FIRST_ARMED \<Rightarrow> (\<exists>t. asked_at t h \<and> sk_deadline c = Some (t + sk_first_ms c)) \<and> \<not> sk_used c \<and> \<not> sk_delivered c
   | PRESENCE_PENDING \<Rightarrow> (\<exists>t. check_due_at c t (sk_used c) h) \<and> \<not> sk_delivered c
   | SECOND_ARMED \<Rightarrow> (\<exists>t. checked_at c t (sk_used c) h \<and> sk_deadline c = Some (t + sk_second_ms c)) \<and> sk_delivered c
   | MORE_TIME_PENDING \<Rightarrow> sk_used c \<and> (\<exists>a k. h = (MORE_TIME_PENDING, a) # k \<and>
       half_way c k)
   | MORE_TIME_ARMED \<Rightarrow> sk_used c \<and> (\<exists>t k. extended_at t k h \<and> sk_deadline c = Some (t + sk_extension_ms c) \<and>
       half_way c k)
   | CLOSING_PENDING \<Rightarrow> (\<exists>t. closing_at c t h)
   | TERMINAL_ELIGIBLE \<Rightarrow> (\<exists>t u k. h = (TERMINAL_ELIGIBLE, t) # k \<and> closing_at c u k \<and> u \<le> t)
   | _ \<Rightarrow> True)"

definition on_way :: "silence_clock \<Rightarrow> phase_trail \<Rightarrow> bool" where
  "on_way c h = ((h = [] \<or> snd (hd h) \<le> sk_now c) \<and> way c h)"

lemma way_frame:
  "check_due_at (c\<lparr>sk_now := n\<rparr>) t u h = check_due_at c t u h" "check_due_at (c\<lparr>sk_phase := p\<rparr>) t u h = check_due_at c t u h" "check_due_at (c\<lparr>sk_deadline := d\<rparr>) t u h = check_due_at c t u h" "check_due_at (c\<lparr>sk_used := b\<rparr>) t u h = check_due_at c t u h" "check_due_at (c\<lparr>sk_delivered := b\<rparr>) t u h = check_due_at c t u h"
  "checked_at (c\<lparr>sk_now := n\<rparr>) t u h = checked_at c t u h" "checked_at (c\<lparr>sk_phase := p\<rparr>) t u h = checked_at c t u h" "checked_at (c\<lparr>sk_deadline := d\<rparr>) t u h = checked_at c t u h" "checked_at (c\<lparr>sk_used := b\<rparr>) t u h = checked_at c t u h" "checked_at (c\<lparr>sk_delivered := b\<rparr>) t u h = checked_at c t u h"
  "closing_at (c\<lparr>sk_now := n\<rparr>) t h = closing_at c t h" "closing_at (c\<lparr>sk_phase := p\<rparr>) t h = closing_at c t h" "closing_at (c\<lparr>sk_deadline := d\<rparr>) t h = closing_at c t h" "closing_at (c\<lparr>sk_used := b\<rparr>) t h = closing_at c t h" "closing_at (c\<lparr>sk_delivered := b\<rparr>) t h = closing_at c t h"
  by (simp_all add: check_due_at_def checked_at_def closing_at_def)

lemma move_delays: "clock_move c c' \<Longrightarrow> sk_first_ms c' = sk_first_ms c \<and> sk_second_ms c' = sk_second_ms c \<and> sk_extension_ms c' = sk_extension_ms c"
  by (induction rule: clock_move.induct) (simp_all add: stopped_def)

lemma half_way_frame:
  "half_way (c\<lparr>sk_now := n\<rparr>) k = half_way c k" "half_way (c\<lparr>sk_phase := p\<rparr>) k = half_way c k" "half_way (c\<lparr>sk_deadline := d\<rparr>) k = half_way c k"
  "half_way (c\<lparr>sk_used := b\<rparr>) k = half_way c k"
  by (simp_all add: half_way_def way_frame)

lemma way_tick: "way (c\<lparr>sk_now := t\<rparr>) h = way c h"
  by (simp add: way_def way_frame half_way_frame cong: silence_phase.case_cong)

lemma past: "on_way c h \<Longrightarrow> sk_now c \<le> t \<Longrightarrow> h = x # k \<Longrightarrow> snd x \<le> t"
  by (auto simp: on_way_def)

lemma entered_past: "snd (hd (entered c c' h)) \<le> sk_now c' \<or> entered c c' h = h"
  by (simp add: entered_def)

lemma on_way_move: "clock_move c c' \<Longrightarrow> on_way c h \<Longrightarrow> on_way c' (entered c c' h)"
proof (induction rule: clock_move.induct)
  case (tick c t)
  then show ?case by (auto simp: entered_def on_way_def way_tick)
next
  case (asked c t)
  then show ?case by (simp add: on_way_def entered_def way_def)
next
  case (confirmed c t)
  then have "\<exists>b k. h = (QUESTION_RESERVED, b) # k" "\<not> sk_used c" "\<not> sk_delivered c" by (simp_all add: on_way_def way_def)
  with confirmed show ?case by (simp add: on_way_def entered_def way_def)
next
  case (question_heard c t)
  then have "\<exists>a b k. h = (QUESTION_CONFIRMED, a) # (QUESTION_RESERVED, b) # k" "\<not> sk_used c" "\<not> sk_delivered c"
    by (simp_all add: on_way_def way_def)
  with question_heard show ?case by (simp add: on_way_def entered_def way_def asked_at_def)
next
  case (presence_heard c t)
  then obtain u where u: "check_due_at c u (sk_used c) h" by (auto simp: on_way_def way_def)
  then have "u \<le> t" using past [OF presence_heard(3,2)] by (auto simp: check_due_at_def)
  with u have "checked_at c t (sk_used c) ((SECOND_ARMED, t) # h)" by (auto simp: checked_at_def)
  with presence_heard(1) show ?case by (simp add: on_way_def entered_def way_def way_frame)
next
  case (extension_heard c t)
  then obtain a k where k: "h = (MORE_TIME_PENDING, a) # k" "half_way c k" "sk_used c" by (auto simp: on_way_def way_def)
  then have "extended_at t k ((MORE_TIME_ARMED, t) # h)" by (simp add: extended_at_def)
  with extension_heard(1) k show ?case by (auto simp: on_way_def entered_def way_def half_way_frame)
next
  case (closing_heard c t)
  then obtain u where u: "closing_at c u h" by (auto simp: on_way_def way_def)
  then have "u \<le> t" using past [OF closing_heard(3,2)] by (auto simp: closing_at_def)
  with u closing_heard(1) show ?case by (auto simp: on_way_def entered_def way_def way_frame)
next
  case (presence_due c d t)
  have "check_due_at c t (sk_used c) ((PRESENCE_PENDING, t) # h) \<and> \<not> sk_delivered c"
  proof (cases "sk_phase c = FIRST_ARMED")
    case True
    with presence_due show ?thesis by (auto simp: on_way_def way_def check_due_at_def)
  next
    case False
    with presence_due(1) have p: "sk_phase c = MORE_TIME_ARMED" "\<not> sk_delivered c" by simp_all
    with presence_due(5) obtain x k where "extended_at x k h" "sk_deadline c = Some (x + sk_extension_ms c)" "half_way c k" "sk_used c"
      by (auto simp: on_way_def way_def)
    with presence_due(2,3) p(2) show ?thesis by (auto simp: check_due_at_def half_way_def)
  qed
  with presence_due(1) show ?case by (auto simp: on_way_def entered_def way_def way_frame)
next
  case (closing_due c d t)
  have "closing_at c t ((CLOSING_PENDING, t) # h)"
  proof (cases "sk_phase c = SECOND_ARMED")
    case True
    with closing_due show ?thesis by (auto simp: on_way_def way_def closing_at_def)
  next
    case False
    with closing_due(1) have p: "sk_phase c = MORE_TIME_ARMED" "sk_delivered c" by simp_all
    with closing_due(5) obtain x k where "extended_at x k h" "sk_deadline c = Some (x + sk_extension_ms c)" "half_way c k"
      by (auto simp: on_way_def way_def)
    with closing_due(2,3) p(2) show ?thesis by (auto simp: closing_at_def half_way_def)
  qed
  with closing_due(1) show ?case by (auto simp: on_way_def entered_def way_def way_frame)
next
  case (more_time c t)
  have "half_way c h" "sk_phase c \<noteq> MORE_TIME_PENDING"
    using more_time by (auto simp: on_way_def way_def half_way_def)
  then show ?case by (simp add: on_way_def entered_def way_def half_way_frame)
next
  case (fallback c t)
  then have "h = [] \<or> snd (hd h) \<le> t" by (auto simp: on_way_def)
  then show ?case unfolding on_way_def by (simp add: entered_def stopped_def way_def)
next
  case (reset c t)
  then have "h = [] \<or> snd (hd h) \<le> t" by (auto simp: on_way_def)
  then show ?case unfolding on_way_def by (simp add: entered_def stopped_def way_def)
next
  case (sealed c)
  then have "h = [] \<or> snd (hd h) \<le> sk_now c" by (simp add: on_way_def)
  then show ?case unfolding on_way_def by (simp add: entered_def stopped_def way_def)
qed

text \<open>A run with the phases it enters.\<close>

definition trail_step :: "phase_trail \<times> calls \<times> lifecycle \<Rightarrow> call_op \<Rightarrow> phase_trail \<times> calls \<times> lifecycle" where
  "trail_step = (\<lambda>(h, x) op. let x' = fst (call_step x op) in (entered (clock_of (fst x)) (clock_of (fst x')) h, x'))"

definition call_trail :: "calls \<times> lifecycle \<Rightarrow> call_op list \<Rightarrow> phase_trail" where
  "call_trail x ops = fst (foldl trail_step ([], x) ops)"

lemma trail_run: "snd (foldl trail_step (h, x) ops) = call_run x ops"
  by (induction ops arbitrary: h x) (simp_all add: trail_step_def call_run_def Let_def)

definition way_holds :: "int \<times> int \<times> int \<Rightarrow> phase_trail \<times> calls \<times> lifecycle \<Rightarrow> bool" where
  "way_holds d y = (on_way (clock_of (fst (snd y))) (fst y) \<and>
     (cl_first_ms (fst (snd y)), cl_second_ms (fst (snd y)), cl_extension_ms (fst (snd y))) = d)"

lemma way_holds_step: "way_holds d y \<Longrightarrow> way_holds d (trail_step y op)"
proof -
  assume w: "way_holds d y"
  obtain h s v where y: "y = (h, s, v)" by (cases y)
  obtain s' v' a where x: "call_step (s, v) op = ((s', v'), a)" by (metis prod.exhaust)
  have m: "clock_move (clock_of s) (clock_of s')" using step_moves [OF x] .
  from on_way_move [OF m, of h] move_delays [OF m] w show ?thesis by (simp add: y x way_holds_def trail_step_def Let_def)
qed

interpretation way_run: fence trail_step way_holds "\<lambda>_ _. False"
  by unfold_locales (rule way_holds_step)

lemma new_callsD: "new_calls b v first second inference extension = Inr s \<Longrightarrow>
    clock_of s = \<lparr>sk_phase = IDLE, sk_deadline = None, sk_used = False, sk_delivered = False, sk_now = -1, sk_first_ms = first,
      sk_second_ms = second, sk_extension_ms = extension\<rparr>"
  by (auto simp: new_calls_def clock_of_def split: if_splits)

text \<open>The phases before an end: each list of phases with its times, the last phase first, in front of what was before.\<close>

definition two_silences :: "int \<Rightarrow> int \<Rightarrow> phase_trail \<Rightarrow> bool" where
  "two_silences first second h =
     (\<exists>r c t0 t1 t2 t3 t4 k. h = [(TERMINAL_ELIGIBLE, t4), (CLOSING_PENDING, t3), (SECOND_ARMED, t2), (PRESENCE_PENDING, t1),
         (FIRST_ARMED, t0), (QUESTION_CONFIRMED, c), (QUESTION_RESERVED, r)] @ k \<and>
        t0 + first \<le> t1 \<and> t1 \<le> t2 \<and> t2 + second \<le> t3 \<and> t3 \<le> t4)"

definition extension_first :: "int \<Rightarrow> int \<Rightarrow> phase_trail \<Rightarrow> bool" where
  "extension_first extension second h =
     (\<exists>r c t0 m x t1 t2 t3 t4 k. h = [(TERMINAL_ELIGIBLE, t4), (CLOSING_PENDING, t3), (SECOND_ARMED, t2), (PRESENCE_PENDING, t1),
         (MORE_TIME_ARMED, x), (MORE_TIME_PENDING, m), (FIRST_ARMED, t0), (QUESTION_CONFIRMED, c), (QUESTION_RESERVED, r)] @ k \<and>
        x + extension \<le> t1 \<and> t1 \<le> t2 \<and> t2 + second \<le> t3 \<and> t3 \<le> t4)"

definition extension_second :: "int \<Rightarrow> int \<Rightarrow> phase_trail \<Rightarrow> bool" where
  "extension_second first extension h =
     (\<exists>r c t0 m x t1 t2 t3 t4 k. h = [(TERMINAL_ELIGIBLE, t4), (CLOSING_PENDING, t3), (MORE_TIME_ARMED, x), (MORE_TIME_PENDING, m),
         (SECOND_ARMED, t2), (PRESENCE_PENDING, t1), (FIRST_ARMED, t0), (QUESTION_CONFIRMED, c), (QUESTION_RESERVED, r)] @ k \<and>
        t0 + first \<le> t1 \<and> t1 \<le> t2 \<and> x + extension \<le> t3 \<and> t3 \<le> t4)"


section \<open>Intents are used once\<close>

definition issues :: "calls \<Rightarrow> calls \<Rightarrow> bool" where
  "issues s s' = (cl_made s \<le> cl_made s' \<and> (\<forall>a i. cl_issued s' a = Some i \<longrightarrow>
     cl_issued s a = Some i \<or> cl_made s \<le> ci_ref i \<and> ci_ref i < cl_made s' \<and> ci_action i = a))"

lemma issues_same: "cl_issued s' = cl_issued s \<Longrightarrow> cl_made s \<le> cl_made s' \<Longrightarrow> issues s s'"
  by (simp add: issues_def)

lemma issues_cleared: "cl_issued s' = Map.empty \<Longrightarrow> cl_made s \<le> cl_made s' \<Longrightarrow> issues s s'"
  by (simp add: issues_def)

lemma issues_dropped: "cl_issued s' = (cl_issued s)(a := None) \<Longrightarrow> cl_made s \<le> cl_made s' \<Longrightarrow> issues s s'"
  by (simp add: issues_def)

lemma issues_issue:
  assumes "issue_intent kind action act s1 = (s', r)" and "cl_issued s1 = cl_issued s \<or> cl_issued s1 = Map.empty" and "cl_made s \<le> cl_made s1"
  shows "issues s s'"
  using assms(1)
proof (cases rule: issue_intent_cases)
  case (1 err)
  with assms(2,3) show ?thesis by (auto simp: issues_def)
next
  case (2 i)
  with assms(2,3) show ?thesis by (auto simp: issues_def split: if_splits)
qed

lemma issues_arm: "arm p act d s1 = (s', r) \<Longrightarrow> cl_issued s1 = cl_issued s \<Longrightarrow> cl_made s \<le> cl_made s1 \<Longrightarrow> issues s s'"
  by (auto simp: arm_def new_intent_def Let_def intro!: issues_same split: sum.splits)

lemma take_frame [simp]:
  "cl_issued (take_position s ev n t) = cl_issued s" "cl_made (take_position s ev n t) = cl_made s"
  "cl_phase (take_position s ev n t) = cl_phase s" "cl_question (take_position s ev n t) = cl_question s"
  by (simp_all add: take_position_def)

lemma cleared_frame [simp]:
  "cl_issued (clear_silence_cycle s) = Map.empty" "cl_made (clear_silence_cycle s) = cl_made s"
  "cl_issued (reset_calls s) = Map.empty" "cl_made (reset_calls s) = cl_made s" "cl_phase (reset_calls s) = IDLE"
  "cl_issued (seal_calls s) = Map.empty" "cl_made (seal_calls s) = cl_made s" "cl_phase (seal_calls s) = TERMINATED"
  by (simp_all add: clear_silence_cycle_def reset_calls_def seal_calls_def)

definition quiet :: "calls \<Rightarrow> bool" where
  "quiet s = (cl_phase s \<in> {IDLE, TERMINATED} \<longrightarrow> is_quiescent s)"

text \<open>What every operation does to the intents and, while nothing goes on, to the rest.\<close>

definition advances :: "calls \<Rightarrow> calls \<Rightarrow> bool" where
  "advances s s' = (issues s s' \<and> (quiet s \<longrightarrow> quiet s'))"

lemma advances_refl [intro]: "advances s s"
  by (simp add: advances_def issues_same)

lemma advances_position: "advances s (take_position s ev n t)" "cl_made s \<le> m \<Longrightarrow> advances s ((take_position s ev n t)\<lparr>cl_made := m\<rparr>)"
  "cl_made s \<le> m \<Longrightarrow> advances s (s\<lparr>cl_made := m\<rparr>)"
  by (simp_all add: advances_def issues_same quiet_def is_quiescent_def take_position_def)

lemma advances_live: "issues s s' \<Longrightarrow> cl_phase s' \<notin> {IDLE, TERMINATED} \<Longrightarrow> advances s s'"
  by (simp add: advances_def quiet_def)

lemma advances_reset:
  "cl_made s \<le> cl_made s1 \<Longrightarrow> advances s (reset_calls s1)" "cl_made s \<le> cl_made s1 \<Longrightarrow> advances s (seal_calls s1)"
  by (simp_all add: advances_def issues_cleared quiet_def is_quiescent_def)
     (simp_all add: reset_calls_def seal_calls_def clear_silence_cycle_def)

lemma arm_phase: "arm p act d s = (s', r) \<Longrightarrow> cl_phase s' = p"
  by (auto simp: arm_def new_intent_def Let_def split: sum.splits)

lemma issue_phase: "issue_intent kind action act s = (s', r) \<Longrightarrow> cl_phase s' = cl_phase s"
  by (erule issue_intent_cases) simp_all

lemma act_heard_advances:
  assumes "act_heard act t s1 = (s', r)" and "cl_issued s1 = cl_issued s" "cl_made s1 = cl_made s"
    and nothing: "s' = s1 \<Longrightarrow> advances s s'"
  shows "advances s s'"
  using assms(1)
proof (cases rule: act_heard_cases)
  case question
  then show ?thesis using assms(2,3) by (auto intro!: advances_live issues_arm [OF question(2)] simp: arm_phase [OF question(2)])
next
  case presence
  then show ?thesis using assms(2,3) by (auto intro!: advances_live issues_arm [OF presence(2)] simp: arm_phase [OF presence(2)])
next
  case ack
  then show ?thesis using assms(2,3) by (auto intro!: advances_live issues_arm [OF ack(2)] simp: arm_phase [OF ack(2)])
next
  case closing
  then show ?thesis using assms(2,3) by (auto intro!: advances_live issues_issue [OF closing(2)] simp: issue_phase [OF closing(2)])
next
  case fallback
  then show ?thesis using assms(3) by (simp add: advances_reset)
next
  case nothing
  then show ?thesis by (rule assms(4))
qed

lemma awaited_phase: "awaited_act s act \<Longrightarrow> cl_phase s \<notin> {IDLE, TERMINATED}"
  by (auto simp: awaited_act_def)

lemma playback_advances: "playback b ev n act evidence t inferred tr s = (s', r) \<Longrightarrow> advances s s'"
proof -
  assume p: "playback b ev n act evidence t inferred tr s = (s', r)"
  let ?s = "(take_position s ev n t)\<lparr>cl_transport := (cl_transport (take_position s ev n t))(act := None)\<rparr>"
  from p consider "s' = s" | "act_heard act t ?s = (s', r)" "awaited_act s act"
    by (simp add: playback_def Let_def split: if_splits option.splits prod.splits)
  then show ?thesis
  proof cases
    case 2
    show ?thesis
      by (rule act_heard_advances [OF 2(1)]) (use awaited_phase [OF 2(2)] in \<open>auto intro!: advances_live issues_same\<close>)
  qed auto
qed

lemma observed_advances: "observed_playback v ev n e s = (s', r) \<Longrightarrow> advances s s'"
proof -
  assume "observed_playback v ev n e s = (s', r)"
  then consider "s' = s" | "act_heard (ve_act e) (ve_at_ms e) (take_position s ev n (ve_at_ms e)) = (s', r)"
    by (simp add: observed_playback_def split: if_splits)
  then show ?thesis
  proof cases
    case 2
    show ?thesis by (rule act_heard_advances [OF 2]) (simp_all add: advances_position)
  qed auto
qed

lemma question_advances: "reserve_question b ev n t q s = (s', ok) \<Longrightarrow> advances s s'"
proof (cases "s' = s")
  case False
  assume "reserve_question b ev n t q s = (s', ok)"
  with False show ?thesis by (auto simp: reserve_question_def split: if_splits intro!: advances_live issues_same)
qed auto

lemma rollback_advances: "rollback_question b q s = (s', ok) \<Longrightarrow> advances s s'"
proof (cases "s' = s")
  case False
  assume "rollback_question b q s = (s', ok)"
  with False have "s' = (clear_silence_cycle s)\<lparr>cl_phase := IDLE\<rparr>" by (auto simp: rollback_question_def split: if_splits)
  then show ?thesis by (simp add: advances_def issues_cleared quiet_def is_quiescent_def) (simp add: clear_silence_cycle_def)
qed auto

lemma confirmed_advances: "semantic_confirmed v ev n e s = (s', ok) \<Longrightarrow> advances s s'"
proof (cases "s' = s")
  case False
  assume "semantic_confirmed v ev n e s = (s', ok)"
  with False show ?thesis by (auto simp: semantic_confirmed_def split: if_splits intro!: advances_live issues_same)
qed auto

lemma awaited_transport_phase: "awaited_transport s e \<Longrightarrow> cl_phase s \<notin> {IDLE, TERMINATED}"
  by (cases "cl_phase s") (simp_all add: awaited_transport_def Let_def split: option.splits)

lemma transport_advances: "transport_resolved v ev n e s = (s', ok) \<Longrightarrow> advances s s'"
proof (cases "s' = s")
  case False
  assume "transport_resolved v ev n e s = (s', ok)"
  with False have "awaited_transport s e" "cl_issued s' = cl_issued s" "cl_made s' = cl_made s" "cl_phase s' = cl_phase s"
    by (auto simp: transport_resolved_def Let_def split: if_splits)
  then show ?thesis using awaited_transport_phase [of s e] by (intro advances_live issues_same) simp_all
qed auto

lemma timer_advances: "timer_fired b ev n action revision t s = (s', r) \<Longrightarrow> advances s s'"
proof -
  assume p: "timer_fired b ev n action revision t s = (s', r)"
  let ?s = "(take_position s ev n t)\<lparr>cl_deadline := None, cl_timer := None\<rparr>"
  from p consider "s' = s" | "ask_presence ?s = (s', r)" | "ask_closing ?s = (s', r)"
    by (simp add: timer_fired_def Let_def split: if_splits option.splits)
  then show ?thesis
  proof cases
    case 2
    then have i: "\<exists>act s1. issue_intent REQUEST_PRESENCE_CHECK act act s1 = (s', r) \<and> cl_issued s1 = cl_issued s \<and> cl_made s1 = cl_made s \<and>
        cl_phase s1 = PRESENCE_PENDING" by (force simp: ask_presence_def Let_def supersede_question_def)
    then show ?thesis using issue_phase by (auto intro!: advances_live intro: issues_issue)
  next
    case 3
    then have "\<exists>act s1. issue_intent REQUEST_CLOSING act act s1 = (s', r) \<and> cl_issued s1 = cl_issued s \<and> cl_made s1 = cl_made s \<and>
        cl_phase s1 = CLOSING_PENDING" by (force simp: ask_closing_def Let_def)
    then show ?thesis using issue_phase by (auto intro!: advances_live intro: issues_issue)
  qed auto
qed

lemma fallback_advances: "request_fixed_fallback kind b ev n t turn tn s = (s', r) \<Longrightarrow> advances s s'"
proof (cases "fallback_allowed kind t turn tn s \<and> can_accept_position s b ev n t")
  case True
  let ?s = "take_position s ev n t"
  assume "request_fixed_fallback kind b ev n t turn tn s = (s', r)"
  with True have "withdraw_then (fallback_withdrawals ?s) (start_fallback kind turn tn) ?s = (s', r)"
    by (simp add: request_fixed_fallback_def Let_def)
  then show ?thesis
  proof (cases rule: withdraw_then_cases)
    case (1 m err)
    then show ?thesis by (simp add: advances_position)
  next
    case (2 m js0 y)
    then have "\<exists>act s1. issue_intent kind act act s1 = (s', y) \<and> cl_issued s1 = Map.empty \<and> cl_made s \<le> cl_made s1 \<and>
        cl_phase s1 = FALLBACK_PENDING" by (force simp: start_fallback_def Let_def)
    then show ?thesis using issue_phase by (auto intro!: advances_live intro: issues_issue)
  qed
qed (auto simp: request_fixed_fallback_def)

lemma more_time_advances: "request_more_time b ev n t s = (s', r) \<Longrightarrow> advances s s'"
proof -
  let ?s = "take_position s ev n t"
  assume m: "request_more_time b ev n t s = (s', r)"
  then consider "s' = s" | "s' = ?s" |
    "withdraw_then [(CANCEL_TIMER, ''more_time_cancel_'' @ int_str (cl_revision ?s), cl_origin ?s)] (start_more_time n) ?s = (s', r)"
    by (auto simp: request_more_time_def Let_def split: if_splits)
  then show ?thesis
  proof cases
    case 3
    then show ?thesis
    proof (cases rule: withdraw_then_cases)
      case (1 k err)
      then show ?thesis by (simp add: advances_position)
    next
      case (2 k js0 y)
      then have "\<exists>act s1. issue_intent REQUEST_MORE_TIME_ACKNOWLEDGEMENT act act s1 = (s', y) \<and> cl_issued s1 = cl_issued s \<and>
          cl_made s \<le> cl_made s1 \<and> cl_phase s1 = MORE_TIME_PENDING" by (force simp: start_more_time_def Let_def)
      then show ?thesis using issue_phase by (auto intro!: advances_live intro: issues_issue)
    qed
  qed (auto simp: advances_position)
qed

lemma cancel_advances: "cancel_silence b ev n t s = (s', r) \<Longrightarrow> advances s s'"
proof -
  let ?s = "take_position s ev n t"
  assume m: "cancel_silence b ev n t s = (s', r)"
  then consider "s' = s" | "s' = ?s" | "withdraw_then (withdrawals ''cancel_'' ?s) (\<lambda>s. (reset_calls s, Inr [])) ?s = (s', r)"
    by (auto simp: cancel_silence_def Let_def split: if_splits)
  then show ?thesis
  proof cases
    case 3
    then show ?thesis by (cases rule: withdraw_then_cases) (auto simp: advances_position intro!: advances_reset)
  qed (auto simp: advances_position)
qed

lemma hard_advances: "hard_terminalize_calls s = (s', r) \<Longrightarrow> advances s s'"
  unfolding hard_terminalize_calls_def
  by (erule withdraw_then_cases) (auto simp: advances_position intro!: advances_reset)

lemma consume_advances: "consume_intent i m s = (s', ok) \<Longrightarrow> advances s s'"
proof (erule consume_cases)
  fix P A F C M
  assume c: "intent_current s i" "s' = s\<lparr>cl_issued := (cl_issued s)(ci_action i := None), cl_presence := P, cl_ack := A, cl_fallback := F,
      cl_closing := C, cl_materialized := M\<rparr>"
  have "cl_phase s \<notin> {IDLE, TERMINATED}" using c(1) by (auto simp: intent_current_def)
  with c(2) show ?thesis by (intro advances_live) (simp_all add: issues_def)
next
  assume "s' = s\<lparr>cl_issued := (cl_issued s)(ci_action i := None)\<rparr>"
  then show ?thesis by (auto simp: advances_def issues_def quiet_def is_quiescent_def)
qed (auto intro!: advances_reset)

lemma terminalize_advances: "terminalize i s = (s', ok) \<Longrightarrow> advances s s'"
proof -
  let ?s = "s\<lparr>cl_issued := (cl_issued s)(ci_action i := None)\<rparr>"
  assume "terminalize i s = (s', ok)"
  then consider "s' = ?s" | "s' = seal_calls ?s" by (auto simp: terminalize_def Let_def split: if_splits)
  then show ?thesis
  proof cases
    case 1
    then show ?thesis by (auto simp: advances_def issues_def quiet_def is_quiescent_def)
  next
    case 2
    then show ?thesis by (simp add: advances_reset)
  qed
qed

lemma step_advances: "call_step (s, v) op = ((s', v'), answer) \<Longrightarrow> advances s s'"
  by (cases op) (auto split: prod.splits intro: question_advances rollback_advances confirmed_advances transport_advances playback_advances
    observed_advances timer_advances fallback_advances more_time_advances cancel_advances hard_advances consume_advances terminalize_advances)

section \<open>Spent intents and calls that are over\<close>

definition intents_numbered :: "calls \<Rightarrow> bool" where
  "intents_numbered s = (\<forall>a i. cl_issued s a = Some i \<longrightarrow> ci_ref i < cl_made s \<and> ci_action i = a)"

definition used_up :: "call_intent \<Rightarrow> calls \<Rightarrow> bool" where
  "used_up i s = (ci_ref i < cl_made s \<and> cl_issued s (ci_action i) \<noteq> Some i)"

abbreviation next_state :: "calls \<times> lifecycle \<Rightarrow> call_op \<Rightarrow> calls \<times> lifecycle" where
  "next_state x op \<equiv> fst (call_step x op)"

lemma next_advances: "advances (fst x) (fst (next_state x op))"
  by (metis step_advances prod.collapse)

interpretation sound_calls: fence next_state "\<lambda>_::unit. \<lambda>x :: calls \<times> lifecycle. intents_numbered (fst x) \<and> quiet (fst x)" "\<lambda>_ _. False"
proof
  fix x :: "calls \<times> lifecycle" and op
  assume "intents_numbered (fst x) \<and> quiet (fst x)"
  with next_advances [of x op] show "intents_numbered (fst (next_state x op)) \<and> quiet (fst (next_state x op))"
    unfolding advances_def issues_def intents_numbered_def by (meson dual_order.strict_trans1)
qed

interpretation spent_intents: fence next_state "\<lambda>i (x :: calls \<times> lifecycle). used_up i (fst x)" "\<lambda>_ _. False"
proof
  fix i and x :: "calls \<times> lifecycle" and op
  assume i: "used_up i (fst x)"
  have "issues (fst x) (fst (next_state x op))" using next_advances [of x op] by (simp add: advances_def)
  with i show "used_up i (fst (next_state x op))" unfolding used_up_def issues_def by (meson leD order_less_le_trans)
qed

lemma run_sound_calls:
  assumes "new_calls b v first second inference extension = Inr s0"
  shows "intents_numbered (fst (call_run (s0, v) ops)) \<and> quiet (fst (call_run (s0, v) ops))"
proof -
  have "intents_numbered s0 \<and> quiet s0" using assms by (auto simp: new_calls_def intents_numbered_def quiet_def is_quiescent_def split: if_splits)
  then show ?thesis using sound_calls.run_kept [of "(s0, v)" ops] by (simp add: call_run_def)
qed

lemma spent_refused: "used_up i s \<Longrightarrow> snd (consume_intent i m s) = False" "used_up i s \<Longrightarrow> snd (terminalize i s) = False"
proof -
  assume i: "used_up i s"
  obtain s' ok where "consume_intent i m s = (s', ok)" by (cases "consume_intent i m s")
  with i show "snd (consume_intent i m s) = False" by (auto simp: used_up_def elim!: consume_cases)
  show "snd (terminalize i s) = False" using i by (simp add: terminalize_def Let_def used_up_def)
qed

lemma spent_answers:
  "used_up i (fst x) \<Longrightarrow> snd (call_step x (Consume i m)) = Verdict False"
  "used_up i (fst x) \<Longrightarrow> snd (call_step x (Terminalize i)) = Verdict False"
  by (cases x; simp add: case_prod_beta spent_refused)+

lemma used_spent:
  assumes n: "intents_numbered (fst x)" and use: "use \<in> {Consume i m, Terminalize i}" "snd (call_step x use) = Verdict True"
  shows "used_up i (fst (next_state x use)) \<and> cl_issued (fst x) (ci_action i) = Some i \<and> ci_revision i = cl_revision (fst x)"
proof -
  obtain s v where x: "x = (s, v)" by (cases x)
  from use(1) consider "use = Consume i m" | "use = Terminalize i" by blast
  then show ?thesis
  proof cases
    case 1
    obtain s' ok where c: "consume_intent i m s = (s', ok)" by (cases "consume_intent i m s")
    with use(2) 1 x have ok: ok by simp
    from c ok have "cl_issued s (ci_action i) = Some i \<and> ci_revision i = cl_revision s \<and> cl_issued s' (ci_action i) = None \<and> cl_made s' = cl_made s"
      by (auto elim!: consume_cases)
    moreover from this n x have "ci_ref i < cl_made s" by (auto simp: intents_numbered_def)
    ultimately show ?thesis using c 1 x by (simp add: used_up_def)
  next
    case 2
    with use(2) x have "cl_issued s (ci_action i) = Some i \<and> ci_revision i = cl_revision s \<and>
        cl_issued (fst (terminalize i s)) (ci_action i) = None \<and> cl_made (fst (terminalize i s)) = cl_made s"
      by (auto simp: terminalize_def Let_def split: if_splits)
    moreover from this n x have "ci_ref i < cl_made s" by (auto simp: intents_numbered_def)
    ultimately show ?thesis using 2 x by (simp add: used_up_def case_prod_beta)
  qed
qed

text \<open>
  C40: An intent is used once. In every run an intent that was accepted, for an act to be spoken or for the end of the call,
  had been given out at the revision then current, and is refused whenever it is presented again, by either operation and
  whatever happens in between.
\<close>

theorem intents_are_used_once:
  assumes "new_calls b v first second inference extension = Inr s0" and "x = call_run (s0, v) before"
    and "use \<in> {Consume i m, Terminalize i}" and "snd (call_step x use) = Verdict True" and "y = call_run (s0, v) (before @ use # after)"
  shows "cl_issued (fst x) (ci_action i) = Some i \<and> ci_revision i = cl_revision (fst x) \<and>
    snd (call_step y (Consume i m')) = Verdict False \<and> snd (call_step y (Terminalize i)) = Verdict False"
proof -
  have u: "used_up i (fst (next_state x use)) \<and> cl_issued (fst x) (ci_action i) = Some i \<and> ci_revision i = cl_revision (fst x)"
    by (rule used_spent [OF _ assms(3,4)]) (use run_sound_calls [OF assms(1)] assms(2) in simp)
  then have "used_up i (fst y)"
    using spent_intents.run_kept [of i "next_state x use" after] by (simp add: assms(2,5) call_run_def)
  with u show ?thesis by (simp add: spent_answers)
qed

lemma no_withdrawals: "is_quiescent s \<Longrightarrow> withdrawals p s = []"
  by (simp add: withdrawals_def is_quiescent_def acts_in_hand_def question_act_def)

text \<open>An operation on a call that is over.\<close>

lemma over_step:
  assumes "cl_phase s = TERMINATED" "is_quiescent s" "call_step (s, v) op = ((s', v'), answer)"
  shows "cl_phase s' = TERMINATED \<and> (answer = Intents (Inr []) \<or> answer = Verdict False \<or> (\<exists>e. op = Voice e))"
proof -
  have none: "cl_issued s = Map.empty" "cl_question s = None" "cl_transport s = Map.empty" "cl_timer s = None"
    using assms(2) by (simp_all add: is_quiescent_def)
  have aw: "\<not> awaited_act s act" "\<not> awaited_transport s e" for act e
    using awaited_phase [of s act] awaited_transport_phase [of s e] assms(1) by auto
  have obs: "\<not> observable s e" for e using assms(1) by (simp add: observable_def Let_def)
  have unarmed: "TERMINATED \<notin> set ARMED_PHASES" by (simp add: ARMED_PHASES_def)
  have hard: "hard_terminalize_calls s = (seal_calls s, Inr [])"
    using assms(2) by (simp add: hard_terminalize_calls_def no_withdrawals withdraw_then_def)
  show ?thesis
    using assms(3,1)
    by (cases op) (auto simp: reserve_question_def rollback_question_def semantic_confirmed_def can_semantic_confirm_def transport_resolved_def
      playback_def observed_playback_def timer_fired_def request_fixed_fallback_def fallback_allowed_def request_more_time_def cancel_silence_def
      consume_intent_def terminalize_def hard none aw obs unarmed Let_def split: prod.splits if_splits)
qed

lemma over_run:
  assumes "cl_phase (fst x) = TERMINATED" "intents_numbered (fst x) \<and> quiet (fst x)"
  shows "cl_phase (fst (call_run x ops)) = TERMINATED"
  using assms
proof (induction ops arbitrary: x)
  case (Cons op ops)
  obtain s v s' v' a where x: "x = (s, v)" "call_step (s, v) op = ((s', v'), a)" by (metis prod.exhaust)
  from Cons.prems x have "is_quiescent s" by (simp add: quiet_def)
  with Cons.prems x over_step have "cl_phase s' = TERMINATED" by auto
  moreover have "intents_numbered s' \<and> quiet s'" using sound_calls.kept [of x op] Cons.prems(2) x by simp
  ultimately have "cl_phase (fst (call_run (s', v') ops)) = TERMINATED" by (intro Cons.IH) simp_all
  with x show ?case by (simp add: call_run_def)
qed (simp add: call_run_def)

text \<open>
  A call that is over stays over. Once terminated or sealed, whatever is called later, the reducer holds no question, timer,
  act or intent, gives out none, accepts none, and never leaves that phase.
\<close>

theorem terminated_call_is_final:
  assumes "new_calls b v first second inference extension = Inr s0" and "cl_phase (fst (call_run (s0, v) ops)) = TERMINATED"
    and "call_step (call_run (s0, v) (ops @ later)) op = (x', answer)"
  shows "cl_phase (fst x') = TERMINATED \<and> is_quiescent (fst x') \<and>
    (answer = Intents (Inr []) \<or> answer = Verdict False \<or> (\<exists>e. op = Voice e))"
proof -
  obtain s w s' w' where x: "call_run (s0, v) (ops @ later) = (s, w)" "x' = (s', w')" by (metis prod.exhaust)
  have split: "call_run (s0, v) (ops @ later) = call_run (call_run (s0, v) ops) later" by (simp add: call_run_def)
  have s: "intents_numbered s \<and> quiet s" using run_sound_calls [OF assms(1), of "ops @ later"] x by simp
  have over: "cl_phase s = TERMINATED" using over_run [OF assms(2) run_sound_calls [OF assms(1)], of later] split [symmetric] x by simp
  with s have "is_quiescent s" by (simp add: quiet_def)
  from over_step [OF over this] assms(3) x have r: "cl_phase s' = TERMINATED \<and> (answer = Intents (Inr []) \<or> answer = Verdict False \<or> (\<exists>e. op = Voice e))"
    by simp
  moreover have "quiet s'" using sound_calls.kept [of "(s, w)" op] s assms(3) x by simp
  ultimately show ?thesis using x by (simp add: quiet_def)
qed

section \<open>The caller speaks\<close>

lemma new_intents_content: "new_intents xs s = (s1, Inr js) \<Longrightarrow> map (\<lambda>i. (ci_kind i, ci_action i, ci_act i)) js = xs"
proof (induction xs s arbitrary: s1 js rule: new_intents.induct)
  case (2 kind action act xs s)
  obtain s2 x where x: "new_intent s kind action act None = (s2, x)" by (cases "new_intent s kind action act None")
  with 2(2) obtain i where i: "x = Inr i" by (cases x) simp_all
  have c: "ci_kind i = kind" "ci_action i = action" "ci_act i = act"
    using x i by (auto simp: new_intent_def make_intent_def split: if_splits)
  obtain s3 y where y: "new_intents xs s2 = (s3, y)" by (cases "new_intents xs s2")
  with 2(2) x i obtain ks where ks: "y = Inr ks" "js = i # ks" by (auto simp: ebind_eq_Inr)
  from 2(1) [OF x [symmetric] i, of s3 ks] y ks c show ?case by simp
qed simp

lemma take_acts:
  "cl_deadline (take_position s ev n t) = cl_deadline s" "cl_revision (take_position s ev n t) = cl_revision s"
  "question_act (take_position s ev n t) = question_act s" "acts_in_hand (take_position s ev n t) = acts_in_hand s"
  by (simp_all add: take_position_def question_act_def acts_in_hand_def)

lemma cancel_content:
  assumes "cancel_silence b ev n t s = (s', Inr js)" "can_accept_position s b ev n t" "\<not> deadline_expired s t" "cl_phase s \<noteq> TERMINATED"
  shows "cl_phase s' = IDLE \<and> is_quiescent s' \<and> map (\<lambda>i. (ci_kind i, ci_action i, ci_act i)) js = withdrawals ''cancel_'' s"
proof -
  let ?s = "take_position s ev n t"
  have w: "withdrawals ''cancel_'' ?s = withdrawals ''cancel_'' s"
    unfolding withdrawals_def take_acts ..
  from assms have "withdraw_then (withdrawals ''cancel_'' s) (\<lambda>s. (reset_calls s, Inr [])) ?s = (s', Inr js)"
    by (simp add: cancel_silence_def Let_def w)
  then obtain s2 where n: "new_intents (withdrawals ''cancel_'' s) ?s = (s2, Inr js)" "s' = reset_calls s2"
    by (auto simp: withdraw_then_def split: prod.splits sum.splits)
  have "is_quiescent s'" by (simp add: n(2) is_quiescent_def) (simp add: reset_calls_def clear_silence_cycle_def)
  with n new_intents_content [OF n(1)] show ?thesis by simp
qed

text \<open>
  C14: When the caller speaks, silence starts over. An accepted cancellation leaves the reducer idle and empty: it tells its caller
  to withdraw the running timer and every act in hand, and no intent made before is accepted from then on, so that no timer or
  closing of the old silence can end the call.
\<close>

theorem caller_activity_starts_over:
  assumes "new_calls b v first second inference extension = Inr s0" and "call_run (s0, v) ops = (s, w)"
    and "can_accept_position s c ev n t" and "\<not> deadline_expired s t" and "cl_phase s \<noteq> TERMINATED"
    and "call_step (s, w) (Caller_Active c ev n t) = ((s', w'), Intents (Inr js))" and "y = call_run (s', w') later"
  shows "cl_phase s' = IDLE \<and> is_quiescent s' \<and>
    (cl_deadline s \<noteq> None \<longrightarrow> (\<exists>i \<in> set js. ci_kind i = CANCEL_TIMER)) \<and>
    (\<forall>act. Some act \<in> set (acts_in_hand s) \<longrightarrow> (\<exists>i \<in> set js. ci_kind i = CANCEL_ACT \<and> ci_act i = Some act)) \<and>
    (\<forall>i m. ci_ref i < cl_made s' \<longrightarrow> snd (call_step y (Consume i m)) = Verdict False \<and> snd (call_step y (Terminalize i)) = Verdict False)"
proof -
  have "cancel_silence c ev n t s = (s', Inr js)" using assms(6) by (auto split: prod.splits)
  from cancel_content [OF this assms(3-5)] have q: "cl_phase s' = IDLE" "is_quiescent s'"
    and js: "map (\<lambda>i. (ci_kind i, ci_action i, ci_act i)) js = withdrawals ''cancel_'' s" by simp_all
  have js': "(\<lambda>i. (ci_kind i, ci_action i, ci_act i)) ` set js = set (withdrawals ''cancel_'' s)" using js by (metis list.set_map)
  have timer: "cl_deadline s \<noteq> None \<Longrightarrow> \<exists>a x. (CANCEL_TIMER, a, x) \<in> set (withdrawals ''cancel_'' s)"
    by (auto simp: withdrawals_def Let_def)
  have acts: "Some act \<in> set (acts_in_hand s) \<Longrightarrow> \<exists>a. (CANCEL_ACT, a, Some act) \<in> set (withdrawals ''cancel_'' s)" for act
    by (force simp: withdrawals_def Let_def)
  have "used_up i (fst y)" if "ci_ref i < cl_made s'" for i
  proof -
    have "used_up i s'" using that q(2) by (simp add: used_up_def is_quiescent_def)
    then show ?thesis using spent_intents.run_kept [of i "(s', w')" later] by (simp add: assms(7) call_run_def)
  qed
  with spent_answers have late: "\<forall>i m. ci_ref i < cl_made s' \<longrightarrow> snd (call_step y (Consume i m)) = Verdict False \<and>
      snd (call_step y (Terminalize i)) = Verdict False" by blast
  have mem: "\<exists>i \<in> set js. ci_kind i = k \<and> ci_act i = x" if "(k, a, x) \<in> set (withdrawals ''cancel_'' s)" for k a x
    using that unfolding js' [symmetric] by auto
  have "cl_deadline s \<noteq> None \<longrightarrow> (\<exists>i \<in> set js. ci_kind i = CANCEL_TIMER)" using timer mem by blast
  moreover have "\<forall>act. Some act \<in> set (acts_in_hand s) \<longrightarrow> (\<exists>i \<in> set js. ci_kind i = CANCEL_ACT \<and> ci_act i = Some act)"
    using acts mem by blast
  ultimately show ?thesis using q late by blast
qed

section \<open>A silent call\<close>

definition silent_binding :: voice_binding where
  "silent_binding = \<lparr>vb_environment = ''e'', vb_contractor = ''c'', vb_call = ''k'', vb_stream = ''s'', vb_epoch = 1\<rparr>"

definition asked_question :: question_intent where
  "asked_question = \<lparr>qi_slot = ''slot'', qi_turn = ''turn'', qi_act = ''ask'', qi_turn_sequence = Some 1\<rparr>"

definition silent_event :: "voice_kind \<Rightarrow> int \<Rightarrow> string \<Rightarrow> act_kind \<Rightarrow> int \<Rightarrow> voice_event" where
  "silent_event kind n act ak t =
     \<lparr>ve_ref = nat n, ve_kind = kind, ve_source = required_source kind, ve_sensitivity = OPERATIONAL, ve_binding = silent_binding,
      ve_sequence = n, ve_at_ms = t, ve_turn = ''turn'', ve_generation = ''g'', ve_act = act, ve_act_kind = ak,
      ve_payload = (if kind = RESPONSE_AUTHORIZED \<or> kind = SEMANTIC_ACT_CONFIRMED
        then \<lparr>vp_ordinal = None, vp_duration = None, vp_text = None, vp_audio = None, vp_playout = None\<rparr>
        else \<lparr>vp_ordinal = None, vp_duration = None, vp_text = Some (replicate 64 CHR ''a''), vp_audio = Some ''a'',
               vp_playout = (if kind = TTS_BOUND then None else Some ''o'')\<rparr>)\<rparr>"

definition said :: "int \<Rightarrow> string \<Rightarrow> act_kind \<Rightarrow> int \<Rightarrow> call_op list" where
  "said n act ak t = [Voice (silent_event RESPONSE_AUTHORIZED n act ak t), Voice (silent_event SEMANTIC_ACT_CONFIRMED (n + 1) act ak t)]"

definition played :: "int \<Rightarrow> string \<Rightarrow> act_kind \<Rightarrow> int \<Rightarrow> call_op list" where
  "played n act ak t =
     [Voice (silent_event TTS_BOUND n act ak t), Voice (silent_event PLAYOUT_BOUND (n + 1) act ak t),
      Voice (silent_event TRANSPORT_RESOLVED (n + 2) act ak t), Voice (silent_event CALLER_PLAYBACK_OBSERVED (n + 3) act ak t)]"

definition silent_intent :: "nat \<Rightarrow> intent_kind \<Rightarrow> string \<Rightarrow> call_intent" where
  "silent_intent n kind act =
     \<lparr>ci_ref = n, ci_kind = kind, ci_binding = silent_binding, ci_revision = 1, ci_action = act, ci_act = Some act, ci_deadline = None,
      ci_turn = Some ''turn'', ci_turn_sequence = Some 1\<rparr>"

definition question_heard :: "call_op list" where
  "question_heard = said 0 ''ask'' QUESTION 0 @ [Reserve_Question silent_binding ''e1'' 1 0 asked_question,
     Confirmed ''e2'' 2 (silent_event SEMANTIC_ACT_CONFIRMED 1 ''ask'' QUESTION 0)] @
   played 2 ''ask'' QUESTION 5 @ [Observed ''e3'' 3 (silent_event CALLER_PLAYBACK_OBSERVED 5 ''ask'' QUESTION 5)]"

definition question_asked :: "call_op list" where
  "question_asked = question_heard @ [Timer_Fired silent_binding ''e4'' 4 ''timer_0_15'' 0 15]"

definition presence_checked :: "call_op list" where
  "presence_checked = said 6 ''presence_1'' PRESENCE_CHECK 15 @ played 8 ''presence_1'' PRESENCE_CHECK 20 @
     [Observed ''e5'' 5 (silent_event CALLER_PLAYBACK_OBSERVED 11 ''presence_1'' PRESENCE_CHECK 20),
      Timer_Fired silent_binding ''e6'' 6 ''timer_1_30'' 1 30]"

definition call_closed :: "call_op list" where
  "call_closed = said 12 ''closing_1'' CLOSING 30 @ played 14 ''closing_1'' CLOSING 35 @
     [Observed ''e7'' 7 (silent_event CALLER_PLAYBACK_OBSERVED 17 ''closing_1'' CLOSING 35)]"

definition silent_call :: "call_op list" where
  "silent_call = question_asked @ Consume (silent_intent 1 REQUEST_PRESENCE_CHECK ''presence_1'') None # presence_checked @
     Consume (silent_intent 3 REQUEST_CLOSING ''closing_1'') None # call_closed"

definition silent_start :: calls where
  "silent_start = (case new_calls silent_binding (init_lifecycle silent_binding) 10 10 5 20 of Inr s \<Rightarrow> s)"

lemma silent_new: "new_calls silent_binding (init_lifecycle silent_binding) 10 10 5 20 = Inr silent_start"
  by (simp add: new_calls_def silent_start_def init_lifecycle_def)


lemma silent_ids:
  "call_id ''ask''" "call_id ''slot''" "call_id ''turn''" "call_id ''e1''" "call_id ''e2''" "call_id ''e3''" "call_id ''e4''" "call_id ''e5''" "call_id ''e6''" "call_id ''e7''" "call_id ''presence_1''" "call_id ''closing_1''" "call_id ''timer_0_15''" "call_id ''timer_1_30''" "call_id ''terminal_closing_1''" "call_id ''cancel_ask_0''" "call_id ''cancel_timer_0''"
  by code_simp+

lemma silent_numbers: "int_str 0 = ''0''" "int_str 1 = ''1''" "int_str 15 = ''15''" "int_str 30 = ''30''"
  by code_simp+

lemmas silent_events = silent_event_def silent_binding_def asked_question_def silent_intent_def said_def played_def ingest_def INPUT_KINDS_def
  GENERATION_KINDS_def SESSION_KINDS_def OBSERVATIONAL_KINDS_def act_event_ok_def same_act_def same_media_def MEDIA_KINDS_def commit_act_def
  advance_act_def or_prior_def accepts_semantic_confirmation_def act_receipt_def event_eq_def accepts_caller_playback_def act_media_def

lemmas silent_steps = call_run_def silent_start_def new_calls_def init_lifecycle_def reserve_question_def can_accept_position_def take_position_def
  semantic_confirmed_def can_semantic_confirm_def observed_playback_def observable_def expected_kind_def act_heard_def arm_def question_act_def
  new_intent_def make_intent_def timer_action_id_def absent_or_def timer_fired_def ARMED_PHASES_def ask_presence_def ask_closing_def
  supersede_question_def issue_intent_def consume_intent_def intent_current_def FALLBACK_KINDS_def

lemmas silent_simps = silent_events silent_steps silent_ids silent_numbers Let_def

lemma silent_asked: "cl_phase (fst (call_run (silent_start, init_lifecycle silent_binding) question_asked)) = PRESENCE_PENDING"
  by (simp add: silent_simps question_asked_def question_heard_def)

lemma silent_consumed:
  "snd (call_step (call_run (silent_start, init_lifecycle silent_binding) question_asked)
     (Consume (silent_intent 1 REQUEST_PRESENCE_CHECK ''presence_1'') None)) = Verdict True"
  by (simp add: silent_simps question_asked_def question_heard_def)

lemma silent_end: "cl_phase (fst (call_run (silent_start, init_lifecycle silent_binding) silent_call)) = TERMINAL_ELIGIBLE"
  by (simp add: silent_simps silent_call_def question_asked_def question_heard_def presence_checked_def call_closed_def)


lemma intents_are_used_once_witness:
  "snd (call_step (call_run (silent_start, init_lifecycle silent_binding)
      (question_asked @ Consume (silent_intent 1 REQUEST_PRESENCE_CHECK ''presence_1'') None # presence_checked))
     (Consume (silent_intent 1 REQUEST_PRESENCE_CHECK ''presence_1'') (Some ''again''))) = Verdict False"
  using intents_are_used_once [OF silent_new refl _ silent_consumed refl] by blast

lemma silent_activity:
  "\<exists>s w s' w' js. call_run (silent_start, init_lifecycle silent_binding) question_heard = (s, w) \<and> cl_deadline s = Some 15 \<and>
     can_accept_position s silent_binding ''e4'' 4 10 \<and> \<not> deadline_expired s 10 \<and> cl_phase s \<noteq> TERMINATED \<and> 0 < cl_made s' \<and>
     call_step (s, w) (Caller_Active silent_binding ''e4'' 4 10) = ((s', w'), Intents (Inr js))"
  by (simp add: silent_simps question_heard_def deadline_expired_def cancel_silence_def withdraw_then_def withdrawals_def acts_in_hand_def
      reset_calls_def clear_silence_cycle_def)

lemma caller_activity_starts_over_witness:
  "\<exists>s w s' w' js i. call_run (silent_start, init_lifecycle silent_binding) question_heard = (s, w) \<and> cl_deadline s = Some 15 \<and>
     call_step (s, w) (Caller_Active silent_binding ''e4'' 4 10) = ((s', w'), Intents (Inr js)) \<and> cl_phase s' = IDLE \<and>
     is_quiescent s' \<and> i \<in> set js \<and> ci_kind i = CANCEL_TIMER \<and>
     snd (call_step (s', w') (Terminalize (silent_intent 0 END_ELIGIBLE ''terminal_closing_1''))) = Verdict False"
proof -
  obtain s w s' w' js where r: "call_run (silent_start, init_lifecycle silent_binding) question_heard = (s, w)" "cl_deadline s = Some 15"
    "can_accept_position s silent_binding ''e4'' 4 10" "\<not> deadline_expired s 10" "cl_phase s \<noteq> TERMINATED" "0 < cl_made s'"
    "call_step (s, w) (Caller_Active silent_binding ''e4'' 4 10) = ((s', w'), Intents (Inr js))"
    using silent_activity by blast
  have "call_run (s', w') [] = (s', w')" by (simp add: call_run_def)
  with caller_activity_starts_over [OF silent_new r(1,3,4,5,7), of _ "[]"] have c: "cl_phase s' = IDLE" "is_quiescent s'"
    "\<exists>i \<in> set js. ci_kind i = CANCEL_TIMER" "ci_ref i < cl_made s' \<Longrightarrow> snd (call_step (s', w') (Terminalize i)) = Verdict False" for i
    using r(2) by auto
  have "ci_ref (silent_intent 0 END_ELIGIBLE ''terminal_closing_1'') < cl_made s'" using r(6) by (simp add: silent_intent_def)
  from c(4) [OF this] c(1-3) r(1,2,7) show ?thesis by blast
qed

text \<open>
  The identifier of an intent is built from that of the act, which may have 128 characters itself; then sealing and cancelling
  raise instead, and the question stays.
\<close>

lemma long_act_cannot_be_withdrawn:
  assumes "cl_question s = Some q" "cl_deadline s = None" "120 < length (qi_act q)"
  shows "hard_terminalize_calls s = (s\<lparr>cl_made := Suc (cl_made s)\<rparr>, Inl ValueError)"
    and "cl_phase s \<noteq> TERMINATED \<Longrightarrow> can_accept_position s b ev n t \<Longrightarrow>
      cancel_silence b ev n t s = ((take_position s ev n t)\<lparr>cl_made := Suc (cl_made s)\<rparr>, Inl ValueError)"
proof -
  have long: "make_intent i = Inl ValueError" if "128 < length (ci_action i)" for i
    using that by (simp add: make_intent_def call_id_def)
  show "hard_terminalize_calls s = (s\<lparr>cl_made := Suc (cl_made s)\<rparr>, Inl ValueError)"
    using assms by (simp add: hard_terminalize_calls_def withdraw_then_def withdrawals_def acts_in_hand_def question_act_def new_intent_def long Let_def)
  assume "cl_phase s \<noteq> TERMINATED" "can_accept_position s b ev n t"
  with assms show "cancel_silence b ev n t s = ((take_position s ev n t)\<lparr>cl_made := Suc (cl_made s)\<rparr>, Inl ValueError)"
    by (simp add: cancel_silence_def deadline_expired_def withdraw_then_def withdrawals_def acts_in_hand_def question_act_def new_intent_def
        long take_position_def Let_def)
qed

end
