(* ===== verification/Spec2Isabelle.thy ===== *)
theory Spec2Isabelle
  imports Call_State Trust_Routing Owner_Actions Voice_Lifecycle Intake_State Dialogue_Planner Visual_Properties
    Service_Commands Job_Safety Post_Call_Safety Caller_Turn_Safety Number_Release_Safety Release_Sweep
    Speech_Safety Call_Silence_Safety
begin

text \<open>
  A verification library for the call-screening backend in src/app: an assistant answers calls for a contractor, screens
  the caller, takes the request in and passes it on. The library models the parts that decide: what state a call, a voice
  act, an intake, a request, a visual case, a phone number's release or a background job may be in, who may change it, and what happens when
  several of them try, messages repeat, and stores fail. Every definition is translated from the Python source; the
  map in PROJECT.json gives the lines.

  \<^bold>\<open>The parts, in the order a call meets them.\<close> An incoming call gets a trust score, a route and quiet-hours override
  (Trust_Routing: services/scoring.py, routing.py, quiet_hours.py, adaptive_trust.py, circuit_breaker.py, the decision in
  webhooks/twilio_incoming.py); its record in the real-time store moves along the call's states (Call_State:
  services/state_machine.py, the compare-and-swap of db/cache.py); the owner, an urgent escalation and the pickup compete
  for it through transactions on that record (Owner_Actions: services/owner_call_actions.py, services/urgent_handoff.py and
  the redirect callbacks). The assistant's speech and the caller's turns are events of one reducer (Voice_Lifecycle:
  services/voice_lifecycle.py), what the assistant may say is authorised act by act (Speech_Control:
  services/voice_speech_control.py), what happens when the caller stays silent is timed by a second reducer that reads the first
  (Call_Silence: services/voice_call_lifecycle.py), and the fragments of what the caller says are assembled into turns (Caller_Turns:
  services/caller_turns.py); what the caller says fills the intake (Intake_State: services/receptionist_state.py, with
  the live controller), from which the planner picks the next question (Dialogue_Planner: services/dialogue_planner.py).
  A case with photos runs through the visual triage machine (Visual_Contracts and Visual_Case:
  services/visual_diagnosis_contracts.py, visual_diagnosis_state.py). A booked visit is an aggregate with commands
  (Service_Request: services/service_request.py). After the call its processing is handed over through an outbox
  (Post_Call: db/post_call_handoffs.py; Post_Call_Run: services/post_call_handoff.py), whose worker is one of the jobs
  that the admission ledger lets run (Job_Ledger: db/background_jobs.py). So is the sweep that gives up the numbers of accounts
  that are gone or lapsed (Subscription_Access: the decisions of services/subscription.py; Release_Sweep:
  services/number_release.py), each through a claim in the contractor's profile that the run of a release and every writer of
  the profile respect (Number_Release and Number_Release_Run: db/contractors.py). The claim of Release_Sweep is the one of
  Number_Release, on the profile that its transaction meets; the answer of its deactivation is that of a run of
  Number_Release_Run, which begins at \<open>Reserving_strict\<close> for the strict worker and at \<open>Loading False\<close> for the embedded loop. Last,
  the data of an account whose owner asked for its deletion are purged (Account_Purge: db/purge.py).

  \<^bold>\<open>How the code is represented.\<close> Python values are the datatype \<open>pyval\<close> of Prelude, records read from a store are maps
  from keys to such values, typed objects are records, enumerations datatypes, exceptions the left part of a sum
  (\<open>ebind\<close> sequences, \<open>collect\<close> runs over lists). Floats are rationals or one of the non-finite values; rounding is not
  modelled. Characters are the code points below 256. Integers are unbounded, as in Python. The visual machine is written
  in the monad of Script (state kept on an exception, with a weakest-precondition calculus), the others pass their state
  explicitly. A transaction is its body on the state with the outcome of the commit (Firestore): applied, refused, or
  applied although the caller sees an error. What awaits in between is a step of its own, so that other operations
  interleave: the pickup in Owner_Actions, the runs in Post_Call_Safety and Number_Release_Safety, the sequences of operations
  of Job_Safety. Nonces are random in the code; a run is named by its nonce, so that two runs never share one.

  \<^bold>\<open>What the lemmas show.\<close>
  Call_State: the transition table, the guarded transaction, the round trip of a stored call.
  Trust_Routing: the score's range and its breakdown, the route an incoming call may take, the bound on learned trust and
  its loss after a failed read, the breaker against a sliding window.
  Owner_Actions: every callback of the record commits its transaction (locales \<open>rtdb_callback\<close>, \<open>redirect_keeper\<close>,
  \<open>claim_keeper\<close>, \<open>framed_callback\<close>, \<open>undecided_callback\<close>, interpreted on each of them); one decision wins, one pickup
  redirect is made in every interleaving, no message is taken after a pickup, escalations happen once, deadlines do not move
  later.
  Voice_Lifecycle: an act is heard only after its protocol, closed acts stay closed, time-outs always land, accepted
  events are ordered, the bounded input history is the end of the full one, events survive their encoding.
  Speech_Safety: what the record of a speech act may hold in any run, that silence is final, that a slot has one open
  question, and what a replay repeats; every operation is a change in place or a new record (\<open>touched\<close>, \<open>made\<close>).
  Call_Silence_Safety: every operation refines a move of an abstract clock (\<open>clock_move\<close>), so that a call ends for silence only
  after its warnings; intents are used once, a call that is over stays over, and a caller who speaks starts over.
  Intake_State and Dialogue_Planner: any session of observations is total, no stored text holds a phone number, the
  planner's answer is admissible, nothing is asked twice and the questions run out.
  Visual_Invariants, Visual_Flow, Visual_Ledger, Visual_Safety, Visual_Properties: the machine's invariant handler by
  handler, that \<open>apply\<close> answers every event and never raises, that accepted events are numbered and replay, that a
  deletion freezes the case and can always be completed, that outputs rest on evidence.
  Service_Commands: each command is the plain change of the booking behind a concurrency and an idempotency check, the
  constructors accept every request that commands lead to, repeated commands replay, and the dictionary form reads back.
  Job_Safety: admitted work is not repeated, embedded and external workers exclude each other, one admission falls in
  each interval, the rows that the fallback takes for settled are those that can be admitted, a drained hand-over completes.
  Post_Call and Post_Call_Safety: the outbox refines the life of a handoff, results are final, the operators' summary
  holds no free text, processing begins at most once and when it is due, every run ends.
  Caller_Turn_Safety: the invariant of the assembler and of the turns it has given out, and the account of every fragment, which
  refines an abstract life of the words.
  Subscription_Access: the guards of a release and of the sweep of trials against the gate that serves a call.
  Number_Release_Safety: which changes of the profile keep a claim past the point of no return (\<open>keeps_claim\<close>, lemma by lemma for
  each writer), that a number is deleted only by the owner of the claim, and what a write of the profile promises.
  Release_Sweep: what a pass has checked of every number it gives up.
  Account_Purge: what a purge needs, and that an interrupted one is completed by the next, step by step (\<open>leads\<close>).

  \<^bold>\<open>The interfaces.\<close> Prelude: \<open>reducer\<close>, \<open>invariant_reducer\<close>, \<open>clocked_reducer\<close> and \<open>history_reducer\<close>, for components that
  take one event at a time and accept or reject it; interpreted on call transitions, owner decisions, the voice and the
  visual machine. Script: \<open>frame\<close>, for what a handler leaves alone. Firestore: \<open>fence\<close>, a condition on a store that only
  certain operations end; interpreted on claims, slots, completed rows and the control document of the job ledger and on
  final and taken handoffs of the outbox, and on a profile frozen by a release, on
  silenced acts, on the invariants of the speech records, on the way of a silent call to its end and on its used intents.

  \<^bold>\<open>Bounds and fuel.\<close> Loops of the source are structural recursions. The digits of an integer are printed with a fuel of
  one more than the integer, which is at least the number of its digits. The structural check of a payload counts its five
  levels of nesting down. A run of post-call work has at most eleven steps, which a theorem shows.

  \<^bold>\<open>Parameters.\<close> Code outside src is an argument: SHA-256, the text of a float and \<open>datetime.fromisoformat\<close> (records
  \<open>platform\<close>, \<open>sr_platform\<close>), NFKC normalisation, \<open>str\<close> of floats and containers, clocks, random nonces, the snapshots a read
  delivers, the outcomes of commits and of \<open>process_post_call\<close>, the answers of the telephone provider and of Apple. Where a property needs a documented behaviour of one of them
  (a digest is 64 hexadecimal digits, NFKC is stable, \<open>fromisoformat\<close> reads \<open>isoformat\<close>), it is a named hypothesis
  (\<open>hex_sha\<close>, \<open>hex_digest\<close>, \<open>hex_digests\<close>, \<open>stable_nfkc\<close>, \<open>reads_back\<close>) and a witness instantiates it.

  \<^bold>\<open>Not modelled.\<close> The voice pipelines, media streams and relay (audio, sockets, provider protocols), the voice
  comparison experiments (services/voice_bakeoff_* and their scripts), the calendars, Jobber and token services (calls to
  other services with their encryption), the verification of purchases with Apple, the queries and the creation of profiles, the
  purchase of numbers, the HTTP endpoints and TwiML, the extraction of
  observations by a language model, push, SMS and e-mail delivery, and the operational scripts. The components of
  PROJECT.json list them with the reasons.
\<close>

end
